(* ===== verification/Channel_Voucher.thy ===== *)
theory Channel_Voucher
  imports Prelude
begin

text \<open>
  The voucher core of the spend-down channel (\<open>crates/x402/src/channel.rs\<close>): the canonical
  messages an agent signs, the accept rules of a draw voucher and the authorization of a
  cooperative close. The ed25519 implementation is a package outside the repository: it is the
  parameter \<open>ed\<close> of the definitions that call it.
\<close>

record ed25519 =
  valid_key :: "bytes \<Rightarrow> bool"
  verify_sig :: "bytes \<Rightarrow> bytes \<Rightarrow> bytes \<Rightarrow> bool" \<comment> \<open>key, message, signature\<close>

section \<open>Canonical messages\<close>

definition DOMAIN_SEP :: bytes where
  "DOMAIN_SEP = ascii ''solvela-channel-voucher-v1''"

definition VOUCHER_MESSAGE_LEN :: nat where
  "VOUCHER_MESSAGE_LEN = length DOMAIN_SEP + 32 + 8 + 8 + 8 + 32"

definition MIN_EXPIRY_BUFFER_SLOTS :: u64 where
  "MIN_EXPIRY_BUFFER_SLOTS = 50"

definition build_voucher_message ::
  "bytes \<Rightarrow> u64 \<Rightarrow> u64 \<Rightarrow> u64 \<Rightarrow> bytes \<Rightarrow> bytes" where
  "build_voucher_message channel_id cumulative_amount expiry_slot nonce request_digest =
     DOMAIN_SEP @ channel_id @ to_le_bytes cumulative_amount @ to_le_bytes expiry_slot
       @ to_le_bytes nonce @ request_digest"

definition CLOSE_DOMAIN_SEP :: bytes where
  "CLOSE_DOMAIN_SEP = ascii ''solvela-channel-close-v1''"

definition CLOSE_MESSAGE_LEN :: nat where
  "CLOSE_MESSAGE_LEN = length CLOSE_DOMAIN_SEP + 32"

definition build_close_message :: "bytes \<Rightarrow> bytes" where
  "build_close_message channel_id = CLOSE_DOMAIN_SEP @ channel_id"

section \<open>Vouchers and the verifier's view of a channel\<close>

record voucher =
  v_channel_id :: bytes
  v_cumulative_atomic :: u64
  v_expiry_slot :: u64
  v_nonce :: u64
  v_request_digest :: bytes
  v_signature :: bytes

record channel_state =
  cs_channel_id :: bytes
  cs_deposited_atomic :: u64
  cs_settled_atomic :: u64
  cs_last_cumulative_atomic :: u64
  cs_session_key :: bytes
  cs_expected_request_digest :: bytes

datatype channel_voucher_error =
    ChannelMismatch
  | InvalidSignature
  | RequestDigestMismatch
  | Expired u64 u64 u64 \<comment> \<open>expiry slot, current slot, remaining buffer\<close>
  | NonMonotonicCumulative u64 u64
  | DeltaMismatch u64 u64 \<comment> \<open>billed, actual delta\<close>
  | BelowSettled u64 u64
  | OverDraw u64 u64

definition voucher_message :: "voucher \<Rightarrow> bytes" where
  "voucher_message v = build_voucher_message (v_channel_id v) (v_cumulative_atomic v)
     (v_expiry_slot v) (v_nonce v) (v_request_digest v)"

definition verify_voucher ::
  "ed25519 \<Rightarrow> channel_state \<Rightarrow> voucher \<Rightarrow> u64 \<Rightarrow> u64 \<Rightarrow> (channel_voucher_error, unit) result"
where
  "verify_voucher ed st v billed_atomic current_slot =
    (if v_channel_id v \<noteq> cs_channel_id st then Inl ChannelMismatch
     else if \<not> valid_key ed (cs_session_key st) then Inl InvalidSignature
     else if \<not> verify_sig ed (cs_session_key st) (voucher_message v) (v_signature v)
       then Inl InvalidSignature
     else if v_request_digest v \<noteq> cs_expected_request_digest st then Inl RequestDigestMismatch
     else let buffer = saturating_sub (v_expiry_slot v) current_slot in
       if buffer < MIN_EXPIRY_BUFFER_SLOTS
         then Inl (Expired (v_expiry_slot v) current_slot buffer)
       else case checked_sub (v_cumulative_atomic v) (cs_last_cumulative_atomic st) of
         None \<Rightarrow> Inl (NonMonotonicCumulative (v_cumulative_atomic v)
                      (cs_last_cumulative_atomic st))
       | Some delta \<Rightarrow>
         if delta \<noteq> billed_atomic then Inl (DeltaMismatch billed_atomic delta)
         else if v_cumulative_atomic v < cs_settled_atomic st
           then Inl (BelowSettled (v_cumulative_atomic v) (cs_settled_atomic st))
         else if v_cumulative_atomic v > cs_deposited_atomic st
           then Inl (OverDraw (v_cumulative_atomic v) (cs_deposited_atomic st))
         else Inr ())"

datatype channel_close_sig_error = InvalidSessionKey | InvalidCloseSignature

definition verify_close ::
  "ed25519 \<Rightarrow> bytes \<Rightarrow> bytes \<Rightarrow> bytes \<Rightarrow> (channel_close_sig_error, unit) result" where
  "verify_close ed session_key channel_id signature =
    (if \<not> valid_key ed session_key then Inl InvalidSessionKey
     else if verify_sig ed session_key (build_close_message channel_id) signature then Inr ()
     else Inl InvalidCloseSignature)"

section \<open>Layout of the messages\<close>

lemma length_DOMAIN_SEP [wire_simps]: "length DOMAIN_SEP = 26"
  by (simp add: DOMAIN_SEP_def)

lemma length_CLOSE_DOMAIN_SEP [wire_simps]: "length CLOSE_DOMAIN_SEP = 24"
  by (simp add: CLOSE_DOMAIN_SEP_def)

lemma length_build_voucher_message:
  "length channel_id = 32 \<Longrightarrow> length digest = 32 \<Longrightarrow>
   length (build_voucher_message channel_id c e n digest) = VOUCHER_MESSAGE_LEN"
  by (simp add: build_voucher_message_def VOUCHER_MESSAGE_LEN_def)

lemma length_build_close_message:
  "length channel_id = 32 \<Longrightarrow> length (build_close_message channel_id) = CLOSE_MESSAGE_LEN"
  by (simp add: build_close_message_def CLOSE_MESSAGE_LEN_def)

lemmas message_lengths =
  VOUCHER_MESSAGE_LEN_def CLOSE_MESSAGE_LEN_def length_DOMAIN_SEP length_CLOSE_DOMAIN_SEP

text \<open>
  The canonical voucher message determines every signed field: two vouchers with 32-byte
  identifiers and digests and the same message agree on the channel, the cumulative amount, the
  expiry, the nonce and the request digest. A signature therefore commits to all of them.
\<close>
theorem voucher_message_injective:
  assumes "length id1 = 32" "length id2 = 32"
    and "build_voucher_message id1 c1 e1 n1 d1 = build_voucher_message id2 c2 e2 n2 d2"
  shows "id1 = id2 \<and> c1 = c2 \<and> e1 = e2 \<and> n1 = n2 \<and> d1 = d2"
proof -
  from assms have "id1 = id2"
    and rest: "to_le_bytes c1 @ to_le_bytes e1 @ to_le_bytes n1 @ d1
      = to_le_bytes c2 @ to_le_bytes e2 @ to_le_bytes n2 @ d2"
    by (auto simp: build_voucher_message_def)
  with le64.enc_append_inject [OF TrueI TrueI rest] show ?thesis
    by (auto dest: le64.enc_append_inject [OF TrueI TrueI] le64.enc_inject [OF TrueI TrueI])
qed

theorem voucher_message_injective_witness:
  "build_voucher_message (replicate 32 17) 2625 1000750 42 (replicate 32 34)
     \<noteq> build_voucher_message (replicate 32 17) 2625 1000751 42 (replicate 32 34)"
proof
  assume *: "build_voucher_message (replicate 32 17) 2625 1000750 42 (replicate 32 34)
     = build_voucher_message (replicate 32 17) 2625 1000751 42 (replicate 32 34)"
  have "(1000750 :: u64) = 1000751"
    using voucher_message_injective [OF _ _ *] by simp
  then show False by simp
qed

text \<open>
  Domain separation: no voucher message is a close message, whatever the fields, so a
  signature on a voucher never authorizes a close and a close authorization never draws.
\<close>
theorem voucher_close_messages_disjoint:
  "build_voucher_message channel_id c e n digest \<noteq> build_close_message channel_id'"
proof
  let ?i = "16 :: nat"
  assume *: "build_voucher_message channel_id c e n digest = build_close_message channel_id'"
  have "build_voucher_message channel_id c e n digest ! ?i = of_char (CHR ''v'')"
    by (simp add: build_voucher_message_def DOMAIN_SEP_def ascii_def nth_append)
  moreover have "build_close_message channel_id' ! ?i = of_char (CHR ''c'')"
    by (simp add: build_close_message_def CLOSE_DOMAIN_SEP_def ascii_def nth_append)
  ultimately show False
    using * by (auto dest: of_char_u8_inject)
qed

section \<open>The accept rules\<close>

lemma verify_voucher_ok_iff:
  "verify_voucher ed st v billed current_slot = Inr () \<longleftrightarrow>
     v_channel_id v = cs_channel_id st
     \<and> valid_key ed (cs_session_key st)
     \<and> verify_sig ed (cs_session_key st) (voucher_message v) (v_signature v)
     \<and> v_request_digest v = cs_expected_request_digest st
     \<and> unat current_slot + 50 \<le> unat (v_expiry_slot v)
     \<and> unat (v_cumulative_atomic v) = unat (cs_last_cumulative_atomic st) + unat billed
     \<and> unat (cs_settled_atomic st) \<le> unat (v_cumulative_atomic v)
     \<and> unat (v_cumulative_atomic v) \<le> unat (cs_deposited_atomic st)"
proof -
  show ?thesis
  proof (cases "checked_sub (v_cumulative_atomic v) (cs_last_cumulative_atomic st)")
    case None
    then have "unat (v_cumulative_atomic v) < unat (cs_last_cumulative_atomic st)"
      by (simp add: checked_sub_None_iff)
    with None show ?thesis
      by (auto simp: verify_voucher_def Let_def)
  next
    case (Some d)
    then have "unat (v_cumulative_atomic v) = unat (cs_last_cumulative_atomic st) + unat d"
      by (simp add: checked_sub_Some_iff)
    then have delta: "d = billed \<longleftrightarrow>
      unat (v_cumulative_atomic v) = unat (cs_last_cumulative_atomic st) + unat billed"
      by (auto simp: word_unat_eq_iff)
    show ?thesis
      by (auto simp: verify_voucher_def Let_def Some delta word_less_nat_alt not_less
          unat_saturating_sub MIN_EXPIRY_BUFFER_SLOTS_def)
  qed
qed

text \<open>
  C19. A voucher is accepted exactly when all accept rules hold, stated over unbounded numbers:
  the voucher is for this channel, its signature verifies under a valid session key over the
  canonical message, it pays for the served request, at least 50 slots remain before its expiry,
  its cumulative is the last accepted one plus the billed amount, and lies between the settled
  amount and the deposit. The 64-bit subtractions of the code neither wrap nor saturate into an
  acceptance.
\<close>
theorem verify_voucher_accepts_iff:
  "verify_voucher ed st v billed current_slot = Inr () \<longleftrightarrow>
     v_channel_id v = cs_channel_id st
     \<and> valid_key ed (cs_session_key st)
     \<and> verify_sig ed (cs_session_key st) (voucher_message v) (v_signature v)
     \<and> v_request_digest v = cs_expected_request_digest st
     \<and> unat current_slot + 50 \<le> unat (v_expiry_slot v)
     \<and> unat (v_cumulative_atomic v) = unat (cs_last_cumulative_atomic st) + unat billed
     \<and> unat (cs_settled_atomic st) \<le> unat (v_cumulative_atomic v)
     \<and> unat (v_cumulative_atomic v) \<le> unat (cs_deposited_atomic st)"
  by (rule verify_voucher_ok_iff)

text \<open>
  Replay: once a voucher has been accepted and the channel has advanced to its cumulative,
  the same voucher is rejected for every further paid request, at any slot.
\<close>
theorem accepted_voucher_not_replayable:
  assumes "verify_voucher ed st v billed slot = Inr ()" and "billed' \<noteq> 0"
  shows "verify_voucher ed (st\<lparr>cs_last_cumulative_atomic := v_cumulative_atomic v,
           cs_expected_request_digest := digest'\<rparr>) v billed' slot' \<noteq> Inr ()"
proof -
  from assms(2) have "unat billed' \<noteq> 0" by (simp add: unat_eq_zero)
  then show ?thesis
    by (simp add: verify_voucher_ok_iff)
qed

theorem accepted_voucher_not_replayable_witness:
  "verify_voucher \<lparr>valid_key = \<lambda>_. True, verify_sig = \<lambda>_ _ _. True\<rparr>
     \<lparr>cs_channel_id = [1], cs_deposited_atomic = 100, cs_settled_atomic = 0,
      cs_last_cumulative_atomic = 25, cs_session_key = [2], cs_expected_request_digest = [9]\<rparr>
     \<lparr>v_channel_id = [1], v_cumulative_atomic = 25, v_expiry_slot = 80, v_nonce = 1,
      v_request_digest = [8], v_signature = [3]\<rparr> 5 20 \<noteq> Inr ()"
proof -
  let ?ed = "\<lparr>valid_key = \<lambda>_. True, verify_sig = \<lambda>_ _ _. True\<rparr>"
  let ?st = "\<lparr>cs_channel_id = [1], cs_deposited_atomic = 100, cs_settled_atomic = 0,
      cs_last_cumulative_atomic = 10, cs_session_key = [2], cs_expected_request_digest = [8]\<rparr>"
  let ?v = "\<lparr>v_channel_id = [1], v_cumulative_atomic = 25, v_expiry_slot = 80, v_nonce = 1,
      v_request_digest = [8], v_signature = [3]\<rparr>"
  have "verify_voucher ?ed ?st ?v 15 20 = Inr ()"
    by (simp add: verify_voucher_def saturating_sub_def checked_sub_def MIN_EXPIRY_BUFFER_SLOTS_def)
  from accepted_voucher_not_replayable [OF this, of 5 "[9]" 20] show ?thesis
    by simp
qed

end
