(* ===== verification/Solana_Keys.thy ===== *)
theory Solana_Keys
  imports Prelude
begin

text \<open>
  Addresses: the program constants, base58 public keys and program-derived addresses
  (\<open>crates/escrow-tx/src/pda.rs\<close> and the key half of \<open>crates/x402/src/solana_types.rs\<close>).
  SHA-256, the ed25519 point decompression and base58 are packages outside the repository; they
  are the fields of the parameter \<open>cr\<close>.
\<close>

record crypto =
  sha256 :: "bytes \<Rightarrow> bytes"
  decompresses :: "bytes \<Rightarrow> bool" \<comment> \<open>a valid compressed Edwards point\<close>
  bs58_decode :: "string \<Rightarrow> bytes option"
  bs58_encode :: "bytes \<Rightarrow> string"

section \<open>Constants\<close>

definition ATA_PROGRAM_ID :: string where
  "ATA_PROGRAM_ID = ''ATokenGPvbdGVxr1b2hvZbsiqW5xWH25efTNsLJA8knL''"

definition TOKEN_PROGRAM_ID_B58 :: string where
  "TOKEN_PROGRAM_ID_B58 = ''TokenkegQfeZyiNwAJbNbGKPFXCWuBvf9Ss623VQ5DA''"

definition SYSTEM_PROGRAM_ID :: string where
  "SYSTEM_PROGRAM_ID = ''11111111111111111111111111111111''"

definition SYSTEM_PROGRAM :: pubkey where
  "SYSTEM_PROGRAM = replicate 32 0"

definition TOKEN_PROGRAM_ID :: pubkey where
  "TOKEN_PROGRAM_ID =
    [6, 221, 246, 225, 215, 101, 161, 147, 217, 203, 225, 70, 206, 235, 121, 172, 28, 180, 133,
     237, 95, 91, 55, 145, 58, 140, 245, 133, 126, 255, 0, 169]"

definition TOKEN_2022_PROGRAM_ID :: pubkey where
  "TOKEN_2022_PROGRAM_ID =
    [6, 221, 246, 225, 238, 117, 143, 222, 24, 66, 93, 188, 228, 108, 205, 218, 182, 26, 252,
     77, 131, 185, 13, 39, 254, 189, 249, 40, 216, 161, 139, 252]"

definition ASSOCIATED_TOKEN_PROGRAM_ID :: pubkey where
  "ASSOCIATED_TOKEN_PROGRAM_ID =
    [140, 151, 37, 143, 78, 36, 137, 241, 187, 61, 16, 41, 20, 142, 13, 131, 11, 90, 19, 153, 218,
     255, 16, 132, 4, 142, 123, 216, 219, 233, 248, 89]"

definition MEMO_PROGRAM_ID :: pubkey where
  "MEMO_PROGRAM_ID =
    [5, 74, 83, 90, 153, 41, 33, 6, 77, 36, 232, 113, 96, 218, 56, 124, 124, 53, 181, 221, 188, 146,
     187, 129, 228, 31, 168, 64, 65, 5, 68, 141]"

section \<open>Base58 keys and discriminators\<close>

datatype pubkey_error = InvalidBase58 | InvalidLength nat

definition decode_bs58_pubkey :: "crypto \<Rightarrow> string \<Rightarrow> (pubkey_error, pubkey) result" where
  "decode_bs58_pubkey cr s =
    (case bs58_decode cr s of
       None \<Rightarrow> Inl InvalidBase58
     | Some bs \<Rightarrow> if length bs \<noteq> 32 then Inl (InvalidLength (length bs)) else Inr bs)"

definition anchor_discriminator :: "crypto \<Rightarrow> string \<Rightarrow> bytes" where
  "anchor_discriminator cr name = take 8 (sha256 cr (ascii (''global:'' @ name)))"

section \<open>Program-derived addresses\<close>

definition is_on_ed25519_curve :: "crypto \<Rightarrow> bytes \<Rightarrow> bool" where
  "is_on_ed25519_curve cr bs = decompresses cr bs"

definition pda_hash :: "crypto \<Rightarrow> bytes list \<Rightarrow> pubkey \<Rightarrow> u8 \<Rightarrow> bytes" where
  "pda_hash cr seeds program_id nonce =
     sha256 cr (concat seeds @ [nonce] @ program_id @ ascii ''ProgramDerivedAddress'')"

primrec find_program_address_from ::
  "crypto \<Rightarrow> bytes list \<Rightarrow> pubkey \<Rightarrow> nat \<Rightarrow> (pubkey \<times> u8) option" where
  "find_program_address_from cr seeds program_id 0 = None"
| "find_program_address_from cr seeds program_id (Suc n) =
    (let bs = pda_hash cr seeds program_id (of_nat n) in
     if \<not> is_on_ed25519_curve cr bs then Some (bs, of_nat n)
     else find_program_address_from cr seeds program_id n)"

definition find_program_address ::
  "crypto \<Rightarrow> bytes list \<Rightarrow> pubkey \<Rightarrow> (pubkey \<times> u8) option" where
  "find_program_address cr seeds program_id = find_program_address_from cr seeds program_id 256"

definition derive_ata_address :: "crypto \<Rightarrow> pubkey \<Rightarrow> pubkey \<Rightarrow> pubkey option" where
  "derive_ata_address cr wallet mint =
    (case decode_bs58_pubkey cr TOKEN_PROGRAM_ID_B58 of
       Inl _ \<Rightarrow> None
     | Inr token_program \<Rightarrow>
       (case decode_bs58_pubkey cr ATA_PROGRAM_ID of
          Inl _ \<Rightarrow> None
        | Inr ata_program \<Rightarrow>
            map_option fst (find_program_address cr [wallet, token_program, mint] ata_program)))"

text \<open>The independent derivation of \<open>solana_types.rs\<close>: its own bump loop, byte constants
  instead of base58 text.\<close>

primrec derive_ata_loop ::
  "crypto \<Rightarrow> pubkey \<Rightarrow> pubkey \<Rightarrow> pubkey \<Rightarrow> nat \<Rightarrow> pubkey option" where
  "derive_ata_loop cr wallet mint token_program 0 = None"
| "derive_ata_loop cr wallet mint token_program (Suc n) =
    (let bs = sha256 cr (wallet @ token_program @ mint @ [of_nat n]
                @ ASSOCIATED_TOKEN_PROGRAM_ID @ ascii ''ProgramDerivedAddress'') in
     if \<not> is_on_ed25519_curve cr bs then Some bs
     else derive_ata_loop cr wallet mint token_program n)"

definition derive_ata :: "crypto \<Rightarrow> pubkey \<Rightarrow> pubkey \<Rightarrow> pubkey \<Rightarrow> pubkey option" where
  "derive_ata cr wallet mint token_program = derive_ata_loop cr wallet mint token_program 256"

section \<open>Properties\<close>

lemma length_program_ids [simp, wire_simps]:
  "length SYSTEM_PROGRAM = 32" "length TOKEN_PROGRAM_ID = 32" "length TOKEN_2022_PROGRAM_ID = 32"
  "length ASSOCIATED_TOKEN_PROGRAM_ID = 32" "length MEMO_PROGRAM_ID = 32"
  by (simp_all add: SYSTEM_PROGRAM_def TOKEN_PROGRAM_ID_def TOKEN_2022_PROGRAM_ID_def
      ASSOCIATED_TOKEN_PROGRAM_ID_def MEMO_PROGRAM_ID_def)

lemma decode_bs58_pubkey_length: "decode_bs58_pubkey cr s = Inr k \<Longrightarrow> length k = 32"
  by (auto simp: decode_bs58_pubkey_def split: option.splits if_splits)

lemma find_program_address_from_Some:
  "find_program_address_from cr seeds pid n = Some (addr, bump) \<Longrightarrow>
   \<exists>k < n. bump = of_nat k \<and> addr = pda_hash cr seeds pid (of_nat k)
     \<and> \<not> is_on_ed25519_curve cr addr
     \<and> (\<forall>j. k < j \<and> j < n \<longrightarrow> is_on_ed25519_curve cr (pda_hash cr seeds pid (of_nat j)))"
proof (induction n)
  case (Suc n)
  show ?case
  proof (cases "is_on_ed25519_curve cr (pda_hash cr seeds pid (of_nat n))")
    case True
    with Suc obtain k where "k < n" "bump = of_nat k" "addr = pda_hash cr seeds pid (of_nat k)"
      "\<not> is_on_ed25519_curve cr addr"
      "\<forall>j. k < j \<and> j < n \<longrightarrow> is_on_ed25519_curve cr (pda_hash cr seeds pid (of_nat j))"
      by (auto simp: Let_def)
    with True show ?thesis
      by (intro exI [of _ k]) (auto simp: less_Suc_eq)
  next
    case False
    with Suc.prems show ?thesis by (auto simp: Let_def)
  qed
qed simp

lemma find_program_address_from_None:
  "find_program_address_from cr seeds pid n = None \<longleftrightarrow>
   (\<forall>k < n. is_on_ed25519_curve cr (pda_hash cr seeds pid (of_nat k)))"
  by (induction n) (auto simp: Let_def less_Suc_eq)

text \<open>
  The bump search returns the canonical program-derived address: the address is the hash for
  its bump, lies off the curve, and every larger bump gives a point on the curve.
\<close>
theorem find_program_address_canonical:
  assumes "find_program_address cr seeds pid = Some (addr, bump)"
  shows "addr = pda_hash cr seeds pid bump \<and> \<not> is_on_ed25519_curve cr addr
    \<and> (\<forall>b > bump. is_on_ed25519_curve cr (pda_hash cr seeds pid b))"
proof -
  from assms obtain k where k: "k < 256" "bump = of_nat k"
      "addr = pda_hash cr seeds pid (of_nat k)" "\<not> is_on_ed25519_curve cr addr"
    and above: "\<forall>j. k < j \<and> j < 256 \<longrightarrow> is_on_ed25519_curve cr (pda_hash cr seeds pid (of_nat j))"
    unfolding find_program_address_def by (auto dest: find_program_address_from_Some)
  have "is_on_ed25519_curve cr (pda_hash cr seeds pid b)" if "b > bump" for b
  proof -
    from that k have "k < unat b" by (simp add: word_less_nat_alt unat_of_nat)
    moreover have "unat b < 256" using unsigned_less [of b, where ?'a = nat] by simp
    ultimately show ?thesis using above [rule_format, of "unat b"] by simp
  qed
  with k show ?thesis by simp
qed

lemma find_program_address_from_numeral:
  "find_program_address_from cr seeds pid (numeral n) =
    (let bs = pda_hash cr seeds pid (of_nat (pred_numeral n)) in
     if \<not> is_on_ed25519_curve cr bs then Some (bs, of_nat (pred_numeral n))
     else find_program_address_from cr seeds pid (pred_numeral n))"
  by (simp add: numeral_eq_Suc)

theorem find_program_address_canonical_witness:
  "find_program_address
      \<lparr>sha256 = \<lambda>bs. bs, decompresses = \<lambda>bs. bs ! 1 = 255, bs58_decode = \<lambda>_. None,
       bs58_encode = \<lambda>_. []\<rparr> [[1]] [2] = Some ([1, 254, 2] @ ascii ''ProgramDerivedAddress'', 254)
   \<and> is_on_ed25519_curve
      \<lparr>sha256 = \<lambda>bs. bs, decompresses = \<lambda>bs. bs ! 1 = 255, bs58_decode = \<lambda>_. None,
       bs58_encode = \<lambda>_. []\<rparr> (pda_hash
      \<lparr>sha256 = \<lambda>bs. bs, decompresses = \<lambda>bs. bs ! 1 = 255, bs58_decode = \<lambda>_. None,
       bs58_encode = \<lambda>_. []\<rparr> [[1]] [2] 255)"
proof -
  let ?cr = "\<lparr>sha256 = \<lambda>bs. bs, decompresses = \<lambda>bs. bs ! 1 = 255, bs58_decode = \<lambda>_. None,
       bs58_encode = \<lambda>_. []\<rparr>"
  have found: "find_program_address ?cr [[1]] [2]
      = Some ([1, 254, 2] @ ascii ''ProgramDerivedAddress'', 254)"
    by (simp add: find_program_address_def find_program_address_from_numeral pda_hash_def
        is_on_ed25519_curve_def Let_def)
  from find_program_address_canonical [OF found] have
    "is_on_ed25519_curve ?cr (pda_hash ?cr [[1]] [2] 255)"
    by simp
  with found show ?thesis by blast
qed

lemma derive_ata_loop_numeral:
  "derive_ata_loop cr wallet mint tp (numeral n) =
    (let bs = sha256 cr (wallet @ tp @ mint @ [of_nat (pred_numeral n)]
                @ ASSOCIATED_TOKEN_PROGRAM_ID @ ascii ''ProgramDerivedAddress'') in
     if \<not> is_on_ed25519_curve cr bs then Some bs
     else derive_ata_loop cr wallet mint tp (pred_numeral n))"
  by (simp add: numeral_eq_Suc)

lemma derive_ata_loop_eq:
  "derive_ata_loop cr wallet mint tp n =
     map_option fst (find_program_address_from cr [wallet, tp, mint] ASSOCIATED_TOKEN_PROGRAM_ID n)"
  by (induction n) (auto simp: Let_def pda_hash_def)

lemma derive_ata_address_eq:
  assumes "bs58_decode cr TOKEN_PROGRAM_ID_B58 = Some TOKEN_PROGRAM_ID"
    and "bs58_decode cr ATA_PROGRAM_ID = Some ASSOCIATED_TOKEN_PROGRAM_ID"
  shows "derive_ata_address cr wallet mint = derive_ata cr wallet mint TOKEN_PROGRAM_ID"
  using assms
  by (simp add: derive_ata_address_def derive_ata_def decode_bs58_pubkey_def derive_ata_loop_eq
      find_program_address_def)

text \<open>
  The two independent associated-token-account derivations of the repository agree: the one
  of the escrow transaction builder, which decodes base58 constants, and the one of the payment
  verifier, which has the program ids as bytes, provided base58 decodes the two constants to
  those bytes.
\<close>
theorem derive_ata_implementations_agree:
  assumes "bs58_decode cr TOKEN_PROGRAM_ID_B58 = Some TOKEN_PROGRAM_ID"
    and "bs58_decode cr ATA_PROGRAM_ID = Some ASSOCIATED_TOKEN_PROGRAM_ID"
  shows "derive_ata_address cr wallet mint = derive_ata cr wallet mint TOKEN_PROGRAM_ID"
  by (rule derive_ata_address_eq [OF assms])

subsection \<open>A base58 decoder as an instance\<close>

text \<open>
  An executable base58 decoder over the published alphabet, used to instantiate the parameter:
  it shows that the textual and the binary program ids of the sources are the same keys.
\<close>

primrec char_index :: "nat \<Rightarrow> string \<Rightarrow> char \<Rightarrow> nat option" where
  "char_index i [] c = None"
| "char_index i (d # ds) c = (if c = d then Some i else char_index (i + 1) ds c)"

definition base58_alphabet :: string where
  "base58_alphabet = ''123456789ABCDEFGHJKLMNPQRSTUVWXYZabcdefghijkmnopqrstuvwxyz''"

primrec base58_value :: "nat \<Rightarrow> string \<Rightarrow> nat option" where
  "base58_value acc [] = Some acc"
| "base58_value acc (c # cs) =
    (case char_index 0 base58_alphabet c of None \<Rightarrow> None
     | Some d \<Rightarrow> base58_value (acc * 58 + d) cs)"

fun be_bytes :: "nat \<Rightarrow> bytes" where
  "be_bytes v = (if v = 0 then [] else be_bytes (v div 256) @ [of_nat (v mod 256)])"

declare be_bytes.simps [simp del]

definition base58_decode :: "string \<Rightarrow> bytes option" where
  "base58_decode s = map_option (\<lambda>v. replicate (length (takeWhile ((=) CHR ''1'') s)) 0 @ be_bytes v)
     (base58_value 0 s)"

lemma base58_program_ids:
  "base58_decode TOKEN_PROGRAM_ID_B58 = Some TOKEN_PROGRAM_ID"
  "base58_decode ATA_PROGRAM_ID = Some ASSOCIATED_TOKEN_PROGRAM_ID"
  by (simp_all add: base58_decode_def base58_alphabet_def be_bytes.simps TOKEN_PROGRAM_ID_B58_def
      TOKEN_PROGRAM_ID_def ATA_PROGRAM_ID_def ASSOCIATED_TOKEN_PROGRAM_ID_def)

theorem derive_ata_implementations_agree_witness:
  "derive_ata_address \<lparr>sha256 = \<lambda>bs. take 32 bs, decompresses = \<lambda>bs. False,
       bs58_decode = base58_decode, bs58_encode = \<lambda>_. []\<rparr> (replicate 32 1) (replicate 32 2)
   = Some (replicate 32 1)"
proof -
  let ?cr = "\<lparr>sha256 = \<lambda>bs. take 32 bs, decompresses = \<lambda>bs. False,
       bs58_decode = base58_decode, bs58_encode = \<lambda>_. []\<rparr>"
  have "derive_ata_loop ?cr (replicate 32 1) (replicate 32 2) TOKEN_PROGRAM_ID 256
      = Some (replicate 32 1)"
    by (simp add: derive_ata_loop_numeral is_on_ed25519_curve_def)
  then show ?thesis
    using derive_ata_implementations_agree [of ?cr "replicate 32 1" "replicate 32 2"]
    by (simp add: base58_program_ids derive_ata_def)
qed

end
