(* ===== verification/Sql_Table.thy ===== *)
theory Sql_Table
  imports Prelude
begin

text \<open>
  The part of SQL the repository's statements use: a table is the list of its rows, a guarded
  \<open>UPDATE\<close> reports the number of rows it matched, an update expression or a \<open>CHECK\<close> constraint
  may fail, and a primary key keeps rows distinct. \<open>db_faults\<close> describes the failures a
  connection may show: a statement that errors out, and a \<open>COMMIT\<close> whose acknowledgement is
  lost, which may or may not have taken effect.
\<close>

datatype db_error =
    ConnectionFault
  | CheckViolation
  | UniqueViolation
  | ForeignKeyViolation
  | NumericOutOfRange
  | RowNotFound

record db_faults =
  stmt_fails :: "nat \<Rightarrow> bool"
  commit_applies :: bool

definition no_faults :: db_faults where
  "no_faults = \<lparr>stmt_fails = \<lambda>_. False, commit_applies = True\<rparr>"

primrec sql_update ::
  "('r \<Rightarrow> bool) \<Rightarrow> ('r \<Rightarrow> (db_error, 'r) result) \<Rightarrow> 'r list \<Rightarrow> (db_error, nat \<times> 'r list) result"
where
  "sql_update P f [] = Inr (0, [])"
| "sql_update P f (r # t) =
    (if P r then
       (case f r of Inl e \<Rightarrow> Inl e
        | Inr r' \<Rightarrow> (case sql_update P f t of Inl e \<Rightarrow> Inl e
                    | Inr (n, t') \<Rightarrow> Inr (Suc n, r' # t')))
     else (case sql_update P f t of Inl e \<Rightarrow> Inl e | Inr (n, t') \<Rightarrow> Inr (n, r # t')))"

definition select_one :: "('r \<Rightarrow> bool) \<Rightarrow> 'r list \<Rightarrow> 'r option" where
  "select_one P t = find P t"

text \<open>Completing a statement outside a transaction, or a commit: the new state is lost only
  when the fault says so.\<close>

definition commit :: "db_faults \<Rightarrow> nat \<Rightarrow> 'e \<Rightarrow> 'a \<Rightarrow> 's \<Rightarrow> 's \<Rightarrow> ('e, 'a) result \<times> 's" where
  "commit ft n e x old new =
     (if stmt_fails ft n then (Inl e, if commit_applies ft then new else old) else (Inr x, new))"

section \<open>Rows addressed by a primary key\<close>

definition row :: "('r \<Rightarrow> 'k) \<Rightarrow> 'k \<Rightarrow> 'r list \<Rightarrow> 'r option" where
  "row key k t = find (\<lambda>r. key r = k) t"

definition replace_row :: "('r \<Rightarrow> 'k) \<Rightarrow> 'k \<Rightarrow> 'r \<Rightarrow> 'r list \<Rightarrow> 'r list" where
  "replace_row key k r' t = map (\<lambda>r. if key r = k then r' else r) t"

definition pk_unique :: "('r \<Rightarrow> 'k) \<Rightarrow> 'r list \<Rightarrow> bool" where
  "pk_unique key t = distinct (map key t)"

lemma row_Nil [simp]: "row key k [] = None"
  by (simp add: row_def)

lemma row_Cons [simp]: "row key k (r # t) = (if key r = k then Some r else row key k t)"
  by (simp add: row_def)

lemma row_SomeD: "row key k t = Some r \<Longrightarrow> r \<in> set t \<and> key r = k"
  by (auto simp: row_def find_Some_iff)

lemma row_None_iff: "row key k t = None \<longleftrightarrow> k \<notin> key ` set t"
  by (auto simp: row_def find_None_iff)

lemma row_append: "row key k (t @ u) = (case row key k t of None \<Rightarrow> row key k u | Some r \<Rightarrow> Some r)"
  by (induction t) auto

lemma pk_unique_row: "pk_unique key t \<Longrightarrow> r \<in> set t \<Longrightarrow> row key (key r) t = Some r"
  by (induction t) (fastforce simp: pk_unique_def)+

lemma map_key_replace_row:
  "key r' = k \<Longrightarrow> map key (replace_row key k r' t) = map key t"
  by (auto simp: replace_row_def)

lemma row_replace_row:
  "key r' = k \<Longrightarrow>
   row key k' (replace_row key k r' t) =
     (if k' = k then map_option (\<lambda>_. r') (row key k t) else row key k' t)"
  by (induction t) (auto simp: replace_row_def)

lemma pk_unique_replace_row:
  "key r' = k \<Longrightarrow> pk_unique key (replace_row key k r' t) = pk_unique key t"
  by (simp add: pk_unique_def map_key_replace_row)

lemma set_replace_row: "r \<in> set (replace_row key k r' t) \<Longrightarrow> r = r' \<or> r \<in> set t \<and> key r \<noteq> k"
  by (auto simp: replace_row_def split: if_splits)

lemma pk_unique_append_row:
  "pk_unique key t \<Longrightarrow> row key (key r) t = None \<Longrightarrow> pk_unique key (t @ [r])"
  by (auto simp: pk_unique_def row_None_iff)

lemma sql_update_none: "(\<And>r. r \<in> set t \<Longrightarrow> \<not> P r) \<Longrightarrow> sql_update P f t = Inr (0, t)"
  by (induction t) auto

lemma sql_update_cong:
  "(\<And>r. r \<in> set t \<Longrightarrow> P r = Q r) \<Longrightarrow> sql_update P f t = sql_update Q f t"
  by (induction t) (auto split: sum.splits)

lemma sql_update_keyed:
  assumes "pk_unique key t"
  shows "sql_update (\<lambda>r. key r = k \<and> g r) f t =
    (case row key k t of
       None \<Rightarrow> Inr (0, t)
     | Some r \<Rightarrow> if g r then (case f r of Inl e \<Rightarrow> Inl e
                                | Inr r' \<Rightarrow> Inr (1, replace_row key k r' t))
                else Inr (0, t))"
  using assms
proof (induction t)
  case (Cons x t)
  show ?case
  proof (cases "key x = k")
    case True
    with Cons.prems have "k \<notin> key ` set t"
      by (auto simp: pk_unique_def)
    then have rest: "\<And>r. r \<in> set t \<Longrightarrow> key r \<noteq> k"
      by blast
    then have "sql_update (\<lambda>r. key r = k \<and> g r) f t = Inr (0, t)"
      by (intro sql_update_none) auto
    moreover have "replace_row key k r' t = t" for r'
      using rest by (auto simp: replace_row_def intro: map_idI)
    ultimately show ?thesis
      using True by (auto simp: replace_row_def split: sum.splits)
  next
    case False
    with Cons show ?thesis
      by (auto simp: pk_unique_def replace_row_def split: sum.splits option.splits)
  qed
qed simp

lemma replace_row_split:
  assumes "pk_unique key t" "row key k t = Some r"
  obtains u v where "t = u @ r # v" "\<And>r'. replace_row key k r' t = u @ r' # v"
proof -
  from row_SomeD [OF assms(2)] obtain u v where t: "t = u @ r # v" and k: "key r = k"
    by (auto dest: split_list)
  with assms(1) have "k \<notin> key ` (set u \<union> set v)"
    by (auto simp: pk_unique_def)
  then have "\<forall>x \<in> set u \<union> set v. key x \<noteq> k"
    by blast
  then have "replace_row key k r' t = u @ r' # v" for r'
    using k by (auto simp: t replace_row_def intro!: map_idI)
  with t show thesis by (rule that)
qed

section \<open>Compare-and-set on keyed rows\<close>

text \<open>
  The contract the ledger and the refund repository rely on: a guarded update of the row with a
  given key either finds the guard true and replaces exactly that row, or changes nothing.
\<close>

locale cas_store =
  fixes lookup :: "'t \<Rightarrow> 'k \<Rightarrow> 'r option"
    and cas :: "'k \<Rightarrow> ('r \<Rightarrow> bool) \<Rightarrow> ('r \<Rightarrow> (db_error, 'r) result) \<Rightarrow> 't \<Rightarrow> (db_error, nat \<times> 't) result"
    and invar :: "'t \<Rightarrow> bool"
    and keeps :: "('r \<Rightarrow> (db_error, 'r) result) \<Rightarrow> bool"
  assumes cas_miss: "invar t \<Longrightarrow> (\<And>r. lookup t k = Some r \<Longrightarrow> \<not> g r) \<Longrightarrow> cas k g f t = Inr (0, t)"
    and cas_error: "invar t \<Longrightarrow> lookup t k = Some r \<Longrightarrow> g r \<Longrightarrow> f r = Inl e \<Longrightarrow> cas k g f t = Inl e"
    and cas_hit: "invar t \<Longrightarrow> keeps f \<Longrightarrow> lookup t k = Some r \<Longrightarrow> g r \<Longrightarrow> f r = Inr r' \<Longrightarrow>
        \<exists>t'. cas k g f t = Inr (1, t') \<and> invar t' \<and> lookup t' = (lookup t)(k \<mapsto> r')"
begin

lemma cas_cases:
  assumes "invar t" "keeps f"
  obtains (miss) "cas k g f t = Inr (0, t)" "\<And>r. lookup t k = Some r \<Longrightarrow> \<not> g r"
    | (error) r e where "lookup t k = Some r" "g r" "f r = Inl e" "cas k g f t = Inl e"
    | (hit) r r' t' where "lookup t k = Some r" "g r" "f r = Inr r'"
        "cas k g f t = Inr (1, t')" "invar t'" "lookup t' = (lookup t)(k \<mapsto> r')"
proof (cases "\<exists>r. lookup t k = Some r \<and> g r")
  case True
  then obtain r where r: "lookup t k = Some r" "g r" by blast
  show thesis
  proof (cases "f r")
    case (Inl e)
    with r assms show thesis by (intro error) (auto intro: cas_error)
  next
    case (Inr r')
    with cas_hit [OF assms r(1), of g, OF r(2)] show thesis by (auto intro: hit r)
  qed
next
  case False
  with assms show thesis by (intro miss) (auto intro: cas_miss)
qed

lemma cas_rows: "invar t \<Longrightarrow> keeps f \<Longrightarrow> cas k g f t = Inr (n, t') \<Longrightarrow> n \<le> 1"
  by (rule cas_cases [of t f k g]) auto

text \<open>Single winner: when the update falsifies the other guard, the other update misses.\<close>

lemma cas_single_winner:
  assumes "invar t" "keeps f" "cas k g f t = Inr (1, t')"
    and "\<And>r r'. g r \<Longrightarrow> f r = Inr r' \<Longrightarrow> \<not> g' r'"
  shows "cas k g' f' t' = Inr (0, t')"
  using assms(1,2)
proof (cases rule: cas_cases [of t f k g])
  case (hit r r' u)
  with assms(3) have "u = t'" by simp
  with hit assms(4) [OF hit(2,3)] show ?thesis
    by (intro cas_miss) auto
qed (use assms(3) in auto)

lemma cas_frame:
  assumes "invar t" "keeps f" "cas k g f t = Inr (n, t')" "k' \<noteq> k"
  shows "lookup t' k' = lookup t k'"
  using assms(1,2) by (cases rule: cas_cases [of t f k g]) (use assms(3,4) in auto)

end

text \<open>A guarded SQL update on the primary key provides the contract, for every table.\<close>

definition keyed_cas ::
  "('r \<Rightarrow> 'k) \<Rightarrow> 'k \<Rightarrow> ('r \<Rightarrow> bool) \<Rightarrow> ('r \<Rightarrow> (db_error, 'r) result) \<Rightarrow> 'r list
     \<Rightarrow> (db_error, nat \<times> 'r list) result" where
  "keyed_cas key k g f t = sql_update (\<lambda>r. key r = k \<and> g r) f t"

definition keeps_key :: "('r \<Rightarrow> 'k) \<Rightarrow> ('r \<Rightarrow> (db_error, 'r) result) \<Rightarrow> bool" where
  "keeps_key key f \<longleftrightarrow> (\<forall>r r'. f r = Inr r' \<longrightarrow> key r' = key r)"

interpretation keyed: cas_store
  "\<lambda>t k. row key k t" "keyed_cas key" "pk_unique key" "keeps_key key" for key :: "'r \<Rightarrow> 'k"
proof unfold_locales
  fix t k g and f :: "'r \<Rightarrow> (db_error, 'r) result"
  assume "pk_unique key t" "\<And>r. row key k t = Some r \<Longrightarrow> \<not> g r"
  then show "keyed_cas key k g f t = Inr (0, t)"
    by (auto simp: keyed_cas_def sql_update_keyed split: option.splits)
next
  fix t k r g e and f :: "'r \<Rightarrow> (db_error, 'r) result"
  assume "pk_unique key t" "row key k t = Some r" "g r" "f r = Inl e"
  then show "keyed_cas key k g f t = Inl e"
    by (simp add: keyed_cas_def sql_update_keyed)
next
  fix t k r g r' and f :: "'r \<Rightarrow> (db_error, 'r) result"
  assume *: "pk_unique key t" "keeps_key key f" "row key k t = Some r" "g r" "f r = Inr r'"
  from * have "key r' = k" by (auto simp: keeps_key_def dest: row_SomeD)
  with * show "\<exists>t'. keyed_cas key k g f t = Inr (1, t') \<and> pk_unique key t'
      \<and> (\<lambda>k. row key k t') = (\<lambda>k. row key k t)(k \<mapsto> r')"
    by (auto simp: keyed_cas_def sql_update_keyed pk_unique_replace_row row_replace_row fun_eq_iff)
qed

lemma sql_update_rows:
  assumes "sql_update P f t = Inr (n, t')"
  shows "list_all2 (\<lambda>r r'. (P r \<longrightarrow> f r = Inr r') \<and> (\<not> P r \<longrightarrow> r' = r)) t t'"
  using assms
proof (induction t arbitrary: n t')
  case (Cons r t)
  then obtain m t1 where t: "sql_update P f t = Inr (m, t1)"
    by (fastforce split: if_splits sum.splits)
  with Cons.IH Cons.prems show ?case by (cases "P r") (auto split: sum.splits)
qed simp

end
