(* ===== verification/Channel_Ledger.thy ===== *)
theory Channel_Ledger
  imports Channel_Voucher Solana_Keys Sql_Table
begin

text \<open>
  The gateway's durable channel ledger (\<open>crates/gateway/src/channels.rs\<close> over the tables of
  \<open>migrations/015\<close>, \<open>016\<close> and \<open>017\<close>): the channel rows with their constraint chain, the
  append-only voucher log, and every repository operation with its failure paths. Amounts are
  \<open>u64\<close> in Rust and \<open>BIGINT\<close> in the database, an \<open>int\<close> within the signed 64-bit range.
\<close>

section \<open>Status, errors and conversions\<close>

datatype channel_status = Open | Closing | Closed

primrec channel_status_str :: "channel_status \<Rightarrow> string" where
  "channel_status_str Open = ''open''"
| "channel_status_str Closing = ''closing''"
| "channel_status_str Closed = ''closed''"

lemma channel_status_str_inject [simp]:
  "channel_status_str s = channel_status_str t \<longleftrightarrow> s = t"
  by (cases s; cases t) simp_all

datatype channel_repo_error =
    Db db_error
  | ValueTooLargeForBigint u64
  | NegativeStoredAmount int
  | BadChannelId
  | BadSessionKey
  | FundingAlreadyUsed
  | ChannelNotFound
  | RefundWouldCollide string
  | AdvanceNotApplied

fun persist_failure_reason :: "channel_repo_error \<Rightarrow> string" where
  "persist_failure_reason AdvanceNotApplied = ''race''"
| "persist_failure_reason (Db _) = ''db_error''"
| "persist_failure_reason (ValueTooLargeForBigint _) = ''overflow''"
| "persist_failure_reason (NegativeStoredAmount _) = ''overflow''"
| "persist_failure_reason BadChannelId = ''unexpected''"
| "persist_failure_reason BadSessionKey = ''unexpected''"
| "persist_failure_reason FundingAlreadyUsed = ''unexpected''"
| "persist_failure_reason ChannelNotFound = ''unexpected''"
| "persist_failure_reason (RefundWouldCollide _) = ''unexpected''"

definition persist_failure_pages :: "string \<Rightarrow> bool" where
  "persist_failure_pages reason \<longleftrightarrow> \<not> (reason = ''race'' \<or> reason = ''lock_lost'')"

definition i64_max :: int where
  "i64_max = 2 ^ 63 - 1"

definition atomic_to_i64 :: "u64 \<Rightarrow> (channel_repo_error, int) result" where
  "atomic_to_i64 v = (if uint v \<le> i64_max then Inr (uint v) else Inl (ValueTooLargeForBigint v))"

definition i64_to_atomic :: "int \<Rightarrow> (channel_repo_error, u64) result" where
  "i64_to_atomic v = (if v < 0 then Inl (NegativeStoredAmount v) else Inr (word_of_int v))"

section \<open>Tables\<close>

record new_channel =
  nc_channel_id :: string
  nc_agent_wallet :: string
  nc_session_key :: string
  nc_provider :: string
  nc_mint :: string
  nc_deposited_atomic :: u64
  nc_expiry_slot :: "u64 option"
  nc_funding_tx_sig :: "string option"

record channel_db_row =
  ch_channel_id :: string
  ch_agent_wallet :: string
  ch_session_key :: string
  ch_provider :: string
  ch_mint :: string
  ch_deposited :: int
  ch_settled :: int
  ch_realized :: int
  ch_last :: int
  ch_expiry_slot :: "int option"
  ch_status :: string
  ch_funding_tx_sig :: "string option"

record channel_row =
  cr_channel_id :: string
  cr_agent_wallet :: string
  cr_session_key :: string
  cr_provider :: string
  cr_mint :: string
  cr_deposited_atomic :: u64
  cr_settled_atomic :: u64
  cr_realized_atomic :: u64
  cr_last_voucher_cumulative_atomic :: u64
  cr_expiry_slot :: "u64 option"
  cr_status :: string
  cr_funding_tx_sig :: "string option"

record voucher_record =
  vo_channel_id :: string
  vo_cumulative_atomic :: u64
  vo_call_cost_atomic :: u64
  vo_realized_advance_atomic :: u64
  vo_expiry_slot :: u64
  vo_nonce :: u64
  vo_request_digest :: bytes
  vo_signature :: bytes

record voucher_db_row =
  vr_channel_id :: string
  vr_cumulative :: int
  vr_call_cost :: int
  vr_expiry_slot :: int
  vr_nonce :: int
  vr_request_digest :: bytes
  vr_signature :: bytes

record ledger =
  channels :: "channel_db_row list"
  channel_vouchers :: "voucher_db_row list"

text \<open>The \<open>CHECK\<close> constraints of the \<open>channels\<close> table; together they give
  \<open>settled \<le> realized \<le> last \<le> deposited\<close>.\<close>

definition channel_checks :: "channel_db_row \<Rightarrow> bool" where
  "channel_checks r \<longleftrightarrow>
     0 \<le> ch_deposited r \<and> 0 \<le> ch_settled r \<and> 0 \<le> ch_last r \<and> 0 \<le> ch_realized r
     \<and> (ch_status r = ''open'' \<or> ch_status r = ''closing'' \<or> ch_status r = ''closed'')
     \<and> ch_settled r \<le> ch_last r \<and> ch_last r \<le> ch_deposited r
     \<and> ch_settled r \<le> ch_realized r \<and> ch_realized r \<le> ch_last r"

definition check_row :: "channel_db_row \<Rightarrow> (db_error, channel_db_row) result" where
  "check_row r = (if channel_checks r then Inr r else Inl CheckViolation)"

abbreviation channel_of :: "string \<Rightarrow> 'a ledger_scheme \<Rightarrow> channel_db_row option" where
  "channel_of k db \<equiv> row ch_channel_id k (channels db)"

abbreviation voucher_key :: "voucher_db_row \<Rightarrow> string \<times> int" where
  "voucher_key v \<equiv> (vr_channel_id v, vr_cumulative v)"

section \<open>Opening a channel\<close>

definition refund_account_collision ::
  "crypto \<Rightarrow> string \<Rightarrow> string \<Rightarrow> string \<Rightarrow> string option" where
  "refund_account_collision cr agent_wallet recipient_wallet mint =
    (if agent_wallet = recipient_wallet
       then Some ''gateway recipient wallet (an unsendable self-transfer refund)''
     else if agent_wallet = mint then Some ''USDC mint''
     else case decode_bs58_pubkey cr agent_wallet of
       Inl _ \<Rightarrow> None
     | Inr pk \<Rightarrow>
         if pk = SYSTEM_PROGRAM then Some ''system program''
         else if pk = TOKEN_PROGRAM_ID then Some ''SPL token program''
         else if pk = ASSOCIATED_TOKEN_PROGRAM_ID then Some ''associated token account program''
         else None)"

definition new_channel_row ::
  "new_channel \<Rightarrow> (channel_repo_error, channel_db_row) result" where
  "new_channel_row ch =
    (case atomic_to_i64 (nc_deposited_atomic ch) of
       Inl e \<Rightarrow> Inl e
     | Inr deposited \<Rightarrow>
       (case (case nc_expiry_slot ch of None \<Rightarrow> Inr None
              | Some s \<Rightarrow> map_sum id Some (atomic_to_i64 s)) of
          Inl e \<Rightarrow> Inl e
        | Inr expiry \<Rightarrow> Inr
           \<lparr>ch_channel_id = nc_channel_id ch, ch_agent_wallet = nc_agent_wallet ch,
            ch_session_key = nc_session_key ch, ch_provider = nc_provider ch,
            ch_mint = nc_mint ch, ch_deposited = deposited, ch_settled = 0, ch_realized = 0,
            ch_last = 0, ch_expiry_slot = expiry, ch_status = channel_status_str Open,
            ch_funding_tx_sig = nc_funding_tx_sig ch\<rparr>))"

definition funding_conflict :: "channel_db_row \<Rightarrow> channel_db_row list \<Rightarrow> bool" where
  "funding_conflict r t \<longleftrightarrow> ch_funding_tx_sig r \<noteq> None
     \<and> list_ex (\<lambda>x. ch_funding_tx_sig x = ch_funding_tx_sig r) t"

definition create_channel ::
  "crypto \<Rightarrow> db_faults \<Rightarrow> new_channel \<Rightarrow> 'a ledger_scheme
     \<Rightarrow> (channel_repo_error, unit) result \<times> 'a ledger_scheme" where
  "create_channel cr ft ch db =
    (case refund_account_collision cr (nc_agent_wallet ch) (nc_provider ch) (nc_mint ch) of
       Some role \<Rightarrow> (Inl (RefundWouldCollide role), db)
     | None \<Rightarrow>
       (case new_channel_row ch of
          Inl e \<Rightarrow> (Inl e, db)
        | Inr r \<Rightarrow>
          if funding_conflict r (channels db) then
            (if stmt_fails ft 0 then Inl (Db ConnectionFault) else Inl FundingAlreadyUsed, db)
          else if \<not> channel_checks r then (Inl (Db CheckViolation), db)
          else if channel_of (ch_channel_id r) db \<noteq> None then (Inl (Db UniqueViolation), db)
          else commit ft 0 (Db ConnectionFault) () db (db\<lparr>channels := channels db @ [r]\<rparr>)))"

section \<open>Reading a channel\<close>

definition load_channel ::
  "db_faults \<Rightarrow> string \<Rightarrow> 'a ledger_scheme \<Rightarrow> (channel_repo_error, channel_row option) result"
where
  "load_channel ft channel_id db =
    (if stmt_fails ft 0 then Inl (Db ConnectionFault)
     else case channel_of channel_id db of
       None \<Rightarrow> Inr None
     | Some r \<Rightarrow>
       (case i64_to_atomic (ch_deposited r) of Inl e \<Rightarrow> Inl e | Inr deposited \<Rightarrow>
        case i64_to_atomic (ch_settled r) of Inl e \<Rightarrow> Inl e | Inr settled \<Rightarrow>
        case i64_to_atomic (ch_realized r) of Inl e \<Rightarrow> Inl e | Inr realized \<Rightarrow>
        case i64_to_atomic (ch_last r) of Inl e \<Rightarrow> Inl e | Inr last_cum \<Rightarrow>
        case (case ch_expiry_slot r of None \<Rightarrow> Inr None
              | Some s \<Rightarrow> map_sum id Some (i64_to_atomic s)) of Inl e \<Rightarrow> Inl e | Inr expiry \<Rightarrow>
        Inr (Some \<lparr>cr_channel_id = ch_channel_id r, cr_agent_wallet = ch_agent_wallet r,
          cr_session_key = ch_session_key r, cr_provider = ch_provider r, cr_mint = ch_mint r,
          cr_deposited_atomic = deposited, cr_settled_atomic = settled,
          cr_realized_atomic = realized, cr_last_voucher_cumulative_atomic = last_cum,
          cr_expiry_slot = expiry, cr_status = ch_status r,
          cr_funding_tx_sig = ch_funding_tx_sig r\<rparr>)))"

record drawable_channel =
  dc_state :: channel_state
  dc_agent_wallet :: string

definition load_open_channel_state ::
  "crypto \<Rightarrow> db_faults \<Rightarrow> string \<Rightarrow> bytes \<Rightarrow> 'a ledger_scheme
     \<Rightarrow> (channel_repo_error, drawable_channel option) result" where
  "load_open_channel_state cr ft channel_id expected_request_digest db =
    (if stmt_fails ft 0 then Inl (Db ConnectionFault)
     else case select_one (\<lambda>r. ch_channel_id r = channel_id \<and> ch_status r = ''open'')
                 (channels db) of
       None \<Rightarrow> Inr None
     | Some r \<Rightarrow>
       (case decode_bs58_pubkey cr (ch_channel_id r) of Inl _ \<Rightarrow> Inl BadChannelId | Inr cid \<Rightarrow>
        case decode_bs58_pubkey cr (ch_session_key r) of Inl _ \<Rightarrow> Inl BadSessionKey | Inr key \<Rightarrow>
        case i64_to_atomic (ch_deposited r) of Inl e \<Rightarrow> Inl e | Inr deposited \<Rightarrow>
        case i64_to_atomic (ch_settled r) of Inl e \<Rightarrow> Inl e | Inr settled \<Rightarrow>
        case i64_to_atomic (ch_last r) of Inl e \<Rightarrow> Inl e | Inr last_cum \<Rightarrow>
        Inr (Some \<lparr>dc_state = \<lparr>cs_channel_id = cid, cs_deposited_atomic = deposited,
          cs_settled_atomic = settled, cs_last_cumulative_atomic = last_cum, cs_session_key = key,
          cs_expected_request_digest = expected_request_digest\<rparr>,
          dc_agent_wallet = ch_agent_wallet r\<rparr>)))"

section \<open>Drawing: one transaction for the voucher and the advance\<close>

definition voucher_db_row_of ::
  "voucher_record \<Rightarrow> (channel_repo_error, voucher_db_row \<times> int) result" where
  "voucher_db_row_of v =
    (case atomic_to_i64 (vo_cumulative_atomic v) of Inl e \<Rightarrow> Inl e | Inr cumulative \<Rightarrow>
     case atomic_to_i64 (vo_call_cost_atomic v) of Inl e \<Rightarrow> Inl e | Inr call_cost \<Rightarrow>
     case atomic_to_i64 (vo_realized_advance_atomic v) of Inl e \<Rightarrow> Inl e | Inr realized_advance \<Rightarrow>
     case atomic_to_i64 (vo_expiry_slot v) of Inl e \<Rightarrow> Inl e | Inr expiry \<Rightarrow>
     case atomic_to_i64 (vo_nonce v) of Inl e \<Rightarrow> Inl e | Inr nonce \<Rightarrow>
     Inr (\<lparr>vr_channel_id = vo_channel_id v, vr_cumulative = cumulative,
           vr_call_cost = call_cost, vr_expiry_slot = expiry, vr_nonce = nonce,
           vr_request_digest = vo_request_digest v, vr_signature = vo_signature v\<rparr>,
          realized_advance))"

definition insert_voucher ::
  "voucher_db_row \<Rightarrow> 'a ledger_scheme \<Rightarrow> (db_error, voucher_db_row list) result" where
  "insert_voucher v db =
    (if \<not> (0 \<le> vr_cumulative v \<and> 0 \<le> vr_call_cost v) then Inl CheckViolation
     else if voucher_key v \<in> set (map voucher_key (channel_vouchers db)) then Inl UniqueViolation
     else if channel_of (vr_channel_id v) db = None then Inl ForeignKeyViolation
     else Inr (channel_vouchers db @ [v]))"

definition advance_row :: "int \<Rightarrow> int \<Rightarrow> channel_db_row \<Rightarrow> (db_error, channel_db_row) result" where
  "advance_row cumulative realized_advance r =
    (let realized = ch_realized r + realized_advance in
     if i64_max < realized then Inl NumericOutOfRange
     else check_row (r\<lparr>ch_last := cumulative, ch_realized := realized\<rparr>))"

definition persist_voucher_and_advance ::
  "db_faults \<Rightarrow> voucher_record \<Rightarrow> 'a ledger_scheme
     \<Rightarrow> (channel_repo_error, unit) result \<times> 'a ledger_scheme" where
  "persist_voucher_and_advance ft v db =
    (case voucher_db_row_of v of
       Inl e \<Rightarrow> (Inl e, db)
     | Inr (vrow, realized_advance) \<Rightarrow>
       if stmt_fails ft 0 \<or> stmt_fails ft 1 then (Inl (Db ConnectionFault), db)
       else case insert_voucher vrow db of
         Inl e \<Rightarrow> (Inl (Db e), db)
       | Inr vouchers \<Rightarrow>
         if stmt_fails ft 2 then (Inl (Db ConnectionFault), db)
         else case keyed_cas ch_channel_id (vo_channel_id v)
                (\<lambda>r. ch_last r < vr_cumulative vrow \<and> ch_status r = channel_status_str Open)
                (advance_row (vr_cumulative vrow) realized_advance) (channels db) of
           Inl e \<Rightarrow> (Inl (Db e), db)
         | Inr (n, chans) \<Rightarrow>
           if n \<noteq> 1 then
             (if stmt_fails ft 3 then Inl (Db ConnectionFault) else Inl AdvanceNotApplied, db)
           else commit ft 3 (Db ConnectionFault) () db
                  (db\<lparr>channels := chans, channel_vouchers := vouchers\<rparr>))"

section \<open>Settlement checkpoint and status\<close>

definition update_settled ::
  "db_faults \<Rightarrow> string \<Rightarrow> u64 \<Rightarrow> 'a ledger_scheme
     \<Rightarrow> (channel_repo_error, unit) result \<times> 'a ledger_scheme" where
  "update_settled ft channel_id settled_atomic db =
    (case atomic_to_i64 settled_atomic of
       Inl e \<Rightarrow> (Inl e, db)
     | Inr settled \<Rightarrow>
       (case keyed_cas ch_channel_id channel_id (\<lambda>_. True)
               (\<lambda>r. check_row (r\<lparr>ch_settled := settled\<rparr>)) (channels db) of
          Inl e \<Rightarrow> (Inl (Db e), db)
        | Inr (n, chans) \<Rightarrow>
          if n \<noteq> 1 then
            (if stmt_fails ft 0 then Inl (Db ConnectionFault) else Inl ChannelNotFound, db)
          else commit ft 0 (Db ConnectionFault) () db (db\<lparr>channels := chans\<rparr>)))"

definition set_status ::
  "db_faults \<Rightarrow> string \<Rightarrow> channel_status \<Rightarrow> 'a ledger_scheme
     \<Rightarrow> (channel_repo_error, unit) result \<times> 'a ledger_scheme" where
  "set_status ft channel_id status db =
    (case keyed_cas ch_channel_id channel_id (\<lambda>_. True)
            (\<lambda>r. check_row (r\<lparr>ch_status := channel_status_str status\<rparr>)) (channels db) of
       Inl e \<Rightarrow> (Inl (Db e), db)
     | Inr (n, chans) \<Rightarrow>
       if n \<noteq> 1 then
         (if stmt_fails ft 0 then Inl (Db ConnectionFault) else Inl ChannelNotFound, db)
       else commit ft 0 (Db ConnectionFault) () db (db\<lparr>channels := chans\<rparr>))"

section \<open>Conversions fail closed\<close>

lemma atomic_to_i64_Inr_iff: "atomic_to_i64 v = Inr i \<longleftrightarrow> i = uint v \<and> uint v \<le> i64_max"
  by (auto simp: atomic_to_i64_def)

lemma i64_to_atomic_Inr:
  "i64_to_atomic i = Inr v \<Longrightarrow> i \<le> i64_max \<Longrightarrow> uint v = i"
  by (auto simp: i64_to_atomic_def i64_max_def uint_word_of_int_eq take_bit_int_eq_self
      split: if_splits)

lemma i64_to_atomic_nonneg: "0 \<le> i \<Longrightarrow> i64_to_atomic i = Inr (word_of_int i)"
  by (simp add: i64_to_atomic_def)

text \<open>
  The checked crossing between Rust amounts and database columns is exact: a value that is
  stored is read back unchanged, and a value that cannot be stored is an error and never a
  smaller amount.
\<close>
theorem atomic_i64_roundtrip:
  "(case atomic_to_i64 v of
      Inr i \<Rightarrow> i64_to_atomic i = Inr v \<and> 0 \<le> i \<and> i \<le> i64_max
    | Inl e \<Rightarrow> e = ValueTooLargeForBigint v \<and> i64_max < uint v)"
  by (auto simp: atomic_to_i64_def i64_to_atomic_def not_le)

section \<open>The ledger invariant\<close>

definition ledger_inv :: "'a ledger_scheme \<Rightarrow> bool" where
  "ledger_inv db \<longleftrightarrow>
     pk_unique ch_channel_id (channels db)
     \<and> (\<forall>k r. channel_of k db = Some r \<longrightarrow> channel_checks r \<and> ch_deposited r \<le> i64_max)
     \<and> (\<forall>k k' r r'. channel_of k db = Some r \<and> channel_of k' db = Some r'
          \<and> ch_funding_tx_sig r \<noteq> None \<and> ch_funding_tx_sig r = ch_funding_tx_sig r' \<longrightarrow> k = k')
     \<and> distinct (map voucher_key (channel_vouchers db))
     \<and> (\<forall>v \<in> set (channel_vouchers db).
          \<exists>r. channel_of (vr_channel_id v) db = Some r \<and> vr_cumulative v \<le> ch_last r)
     \<and> (\<forall>k r. channel_of k db = Some r \<longrightarrow>
          ch_last r = 0 \<or> (k, ch_last r) \<in> set (map voucher_key (channel_vouchers db)))"

lemma ledger_invI [intro?]:
  assumes "pk_unique ch_channel_id (channels db)"
    and "\<And>k r. channel_of k db = Some r \<Longrightarrow> channel_checks r \<and> ch_deposited r \<le> i64_max"
    and "\<And>k k' r r'. channel_of k db = Some r \<Longrightarrow> channel_of k' db = Some r'
          \<Longrightarrow> ch_funding_tx_sig r \<noteq> None \<Longrightarrow> ch_funding_tx_sig r = ch_funding_tx_sig r' \<Longrightarrow> k = k'"
    and "distinct (map voucher_key (channel_vouchers db))"
    and "\<And>v. v \<in> set (channel_vouchers db) \<Longrightarrow>
          \<exists>r. channel_of (vr_channel_id v) db = Some r \<and> vr_cumulative v \<le> ch_last r"
    and "\<And>k r. channel_of k db = Some r \<Longrightarrow>
          ch_last r = 0 \<or> (k, ch_last r) \<in> set (map voucher_key (channel_vouchers db))"
  shows "ledger_inv db"
  using assms unfolding ledger_inv_def by blast

lemma ledger_invD:
  assumes "ledger_inv db"
  shows "pk_unique ch_channel_id (channels db)"
    and "channel_of k db = Some r \<Longrightarrow> channel_checks r \<and> ch_deposited r \<le> i64_max"
    and "channel_of k db = Some r \<Longrightarrow> channel_of k' db = Some r'
          \<Longrightarrow> ch_funding_tx_sig r \<noteq> None \<Longrightarrow> ch_funding_tx_sig r = ch_funding_tx_sig r' \<Longrightarrow> k = k'"
    and "distinct (map voucher_key (channel_vouchers db))"
    and "v \<in> set (channel_vouchers db) \<Longrightarrow>
          \<exists>r. channel_of (vr_channel_id v) db = Some r \<and> vr_cumulative v \<le> ch_last r"
    and "channel_of k db = Some r \<Longrightarrow>
          ch_last r = 0 \<or> (k, ch_last r) \<in> set (map voucher_key (channel_vouchers db))"
  using assms unfolding ledger_inv_def by blast+

lemma ledger_inv_cong:
  "channels db = channels db' \<Longrightarrow> channel_vouchers db = channel_vouchers db' \<Longrightarrow>
   ledger_inv db = ledger_inv db'"
  by (simp add: ledger_inv_def)

text \<open>The three ways a table changes: one row rewritten without touching its cumulative, one
  row advanced together with its voucher, one row added.\<close>

lemma ledger_inv_rewrite:
  assumes inv: "ledger_inv db" and r: "channel_of k db = Some r"
    and r': "ch_channel_id r' = k" "channel_checks r'" "ch_last r' = ch_last r"
      "ch_deposited r' = ch_deposited r"
      "ch_funding_tx_sig r' = ch_funding_tx_sig r"
    and chans: "channels db' = replace_row ch_channel_id k r' (channels db)"
      "channel_vouchers db' = channel_vouchers db"
  shows "ledger_inv db'"
proof -
  have look: "channel_of k' db' = (if k' = k then Some r' else channel_of k' db)" for k'
    using r by (simp add: chans row_replace_row r')
  have orig: "\<exists>x. channel_of k1 db = Some x \<and> ch_funding_tx_sig x = ch_funding_tx_sig r1"
    if "channel_of k1 db' = Some r1" for k1 r1
    using that r r' by (auto simp: look split: if_splits)
  show ?thesis
  proof
    show "pk_unique ch_channel_id (channels db')"
      using ledger_invD(1) [OF inv] by (simp add: chans pk_unique_replace_row r')
  next
    fix k1 r1 assume "channel_of k1 db' = Some r1"
    then show "channel_checks r1 \<and> ch_deposited r1 \<le> i64_max" "ch_last r1 = 0 \<or>
        (k1, ch_last r1) \<in> set (map voucher_key (channel_vouchers db'))"
      using ledger_invD(2,6) [OF inv] r r' by (auto simp: look chans(2) split: if_splits)
  next
    fix k1 k2 r1 r2
    assume "channel_of k1 db' = Some r1" "channel_of k2 db' = Some r2"
      "ch_funding_tx_sig r1 \<noteq> None" "ch_funding_tx_sig r1 = ch_funding_tx_sig r2"
    then show "k1 = k2"
      using orig ledger_invD(3) [OF inv] by metis
  next
    show "distinct (map voucher_key (channel_vouchers db'))"
      using ledger_invD(4) [OF inv] by (simp add: chans)
  next
    fix v assume "v \<in> set (channel_vouchers db')"
    then show "\<exists>r. channel_of (vr_channel_id v) db' = Some r \<and> vr_cumulative v \<le> ch_last r"
      using ledger_invD(5) [OF inv, of v] r r' by (auto simp: look chans(2))
  qed
qed

lemma ledger_inv_advance:
  assumes inv: "ledger_inv db" and r: "channel_of k db = Some r" and lt: "ch_last r < ch_last r'"
    and r': "ch_channel_id r' = k" "channel_checks r'" "ch_deposited r' = ch_deposited r"
      "ch_funding_tx_sig r' = ch_funding_tx_sig r"
    and v: "vr_channel_id v = k" "vr_cumulative v = ch_last r'"
      "voucher_key v \<notin> set (map voucher_key (channel_vouchers db))"
    and chans: "channels db' = replace_row ch_channel_id k r' (channels db)"
      "channel_vouchers db' = channel_vouchers db @ [v]"
  shows "ledger_inv db'"
proof -
  have look: "channel_of k' db' = (if k' = k then Some r' else channel_of k' db)" for k'
    using r by (simp add: chans row_replace_row r')
  have orig: "\<exists>x. channel_of k1 db = Some x \<and> ch_funding_tx_sig x = ch_funding_tx_sig r1"
    if "channel_of k1 db' = Some r1" for k1 r1
    using that r r' by (auto simp: look split: if_splits)
  show ?thesis
  proof
    show "pk_unique ch_channel_id (channels db')"
      using ledger_invD(1) [OF inv] by (simp add: chans pk_unique_replace_row r')
  next
    fix k1 r1 assume "channel_of k1 db' = Some r1"
    then show "channel_checks r1 \<and> ch_deposited r1 \<le> i64_max" "ch_last r1 = 0 \<or>
        (k1, ch_last r1) \<in> set (map voucher_key (channel_vouchers db'))"
      using ledger_invD(2,6) [OF inv] r r' v by (auto simp: look chans(2) split: if_splits)
  next
    fix k1 k2 r1 r2
    assume "channel_of k1 db' = Some r1" "channel_of k2 db' = Some r2"
      "ch_funding_tx_sig r1 \<noteq> None" "ch_funding_tx_sig r1 = ch_funding_tx_sig r2"
    then show "k1 = k2"
      using orig ledger_invD(3) [OF inv] by metis
  next
    show "distinct (map voucher_key (channel_vouchers db'))"
      using ledger_invD(4) [OF inv] v by (simp add: chans)
  next
    fix w assume "w \<in> set (channel_vouchers db')"
    then show "\<exists>r. channel_of (vr_channel_id w) db' = Some r \<and> vr_cumulative w \<le> ch_last r"
      using ledger_invD(5) [OF inv, of w] r lt v by (auto simp: look chans(2))
  qed
qed

lemma ledger_inv_insert:
  assumes inv: "ledger_inv db" and new: "channel_of (ch_channel_id r) db = None"
    and r: "channel_checks r" "ch_deposited r \<le> i64_max" "ch_last r = 0" "\<not> funding_conflict r (channels db)"
    and chans: "channels db' = channels db @ [r]" "channel_vouchers db' = channel_vouchers db"
  shows "ledger_inv db'"
proof -
  have look: "channel_of k db' = (if k = ch_channel_id r then Some r else channel_of k db)" for k
    using new by (auto simp: chans row_append split: option.splits)
  have fresh: "ch_funding_tx_sig x \<noteq> ch_funding_tx_sig r"
    if "channel_of k db = Some x" "ch_funding_tx_sig r \<noteq> None" for k x
    using that r(4) row_SomeD [OF that(1)] by (auto simp: funding_conflict_def list_ex_iff)
  show ?thesis
  proof
    show "pk_unique ch_channel_id (channels db')"
      using ledger_invD(1) [OF inv] new by (simp add: chans pk_unique_append_row)
  next
    fix k1 r1 assume "channel_of k1 db' = Some r1"
    then show "channel_checks r1 \<and> ch_deposited r1 \<le> i64_max" "ch_last r1 = 0 \<or>
        (k1, ch_last r1) \<in> set (map voucher_key (channel_vouchers db'))"
      using ledger_invD(2,6) [OF inv] r by (auto simp: look chans(2) split: if_splits)
  next
    fix k1 k2 r1 r2
    assume "channel_of k1 db' = Some r1" "channel_of k2 db' = Some r2"
      "ch_funding_tx_sig r1 \<noteq> None" "ch_funding_tx_sig r1 = ch_funding_tx_sig r2"
    then show "k1 = k2"
      using ledger_invD(3) [OF inv] fresh by (auto simp: look split: if_splits)
  next
    show "distinct (map voucher_key (channel_vouchers db'))"
      using ledger_invD(4) [OF inv] by (simp add: chans)
  next
    fix w assume "w \<in> set (channel_vouchers db')"
    then show "\<exists>r. channel_of (vr_channel_id w) db' = Some r \<and> vr_cumulative w \<le> ch_last r"
      using ledger_invD(5) [OF inv, of w] new by (auto simp: look chans(2))
  qed
qed

section \<open>Outcomes of the operations\<close>

lemma commit_cases:
  assumes "commit ft n e x old new = (res, s)"
  obtains (kept) "s = old" "res = Inl e"
    | (applied) "s = new" "res = Inr x \<or> res = Inl e \<and> stmt_fails ft n \<and> commit_applies ft"
  using assms by (auto simp: commit_def split: if_splits)

lemma keeps_key_channel_updates [simp]:
  "keeps_key ch_channel_id (advance_row c a)"
  "keeps_key ch_channel_id (\<lambda>r. check_row (r\<lparr>ch_settled := n\<rparr>))"
  "keeps_key ch_channel_id (\<lambda>r. check_row (r\<lparr>ch_status := st\<rparr>))"
  by (auto simp: keeps_key_def advance_row_def check_row_def Let_def split: if_splits)

lemma advance_row_Inr:
  "advance_row c a r = Inr r' \<Longrightarrow>
     r' = r\<lparr>ch_last := c, ch_realized := ch_realized r + a\<rparr> \<and> channel_checks r'"
  by (auto simp: advance_row_def check_row_def Let_def split: if_splits)

lemma keyed_cas_Inr:
  assumes "pk_unique key t" "keyed_cas key k g f t = Inr (n, t')" "n = 1"
  obtains r r' where "row key k t = Some r" "g r" "f r = Inr r'" "t' = replace_row key k r' t"
  using assms
  by (auto simp: keyed_cas_def sql_update_keyed split: option.splits if_splits sum.splits)

lemma insert_voucher_Inr:
  "insert_voucher v db = Inr vs \<Longrightarrow>
     vs = channel_vouchers db @ [v] \<and> voucher_key v \<notin> set (map voucher_key (channel_vouchers db))"
  by (auto simp: insert_voucher_def split: if_splits)

lemma voucher_db_row_of_Inr:
  "voucher_db_row_of v = Inr (w, a) \<Longrightarrow>
     voucher_key w = (vo_channel_id v, uint (vo_cumulative_atomic v))
     \<and> a = uint (vo_realized_advance_atomic v)
     \<and> vr_request_digest w = vo_request_digest v \<and> vr_signature w = vo_signature v
     \<and> vr_call_cost w = uint (vo_call_cost_atomic v)"
  by (auto simp: voucher_db_row_of_def atomic_to_i64_def split: if_splits)

abbreviation advanced :: "voucher_record \<Rightarrow> channel_db_row \<Rightarrow> channel_db_row" where
  "advanced v r \<equiv> r\<lparr>ch_last := uint (vo_cumulative_atomic v),
     ch_realized := ch_realized r + uint (vo_realized_advance_atomic v)\<rparr>"

lemma persist_cases:
  assumes inv: "ledger_inv db" and eq: "persist_voucher_and_advance ft v db = (res, db')"
  obtains (unchanged) e where "db' = db" "res = Inl e"
    | (advance) r w where "channel_of (vo_channel_id v) db = Some r"
        "ch_last r < uint (vo_cumulative_atomic v)" "ch_status r = channel_status_str Open"
        "channel_checks (advanced v r)"
        "voucher_db_row_of v = Inr (w, uint (vo_realized_advance_atomic v))"
        "voucher_key w \<notin> set (map voucher_key (channel_vouchers db))"
        "db' = db\<lparr>channels := replace_row ch_channel_id (vo_channel_id v) (advanced v r) (channels db),
           channel_vouchers := channel_vouchers db @ [w]\<rparr>"
        "res = Inr () \<or> stmt_fails ft 3 \<and> commit_applies ft"
proof (cases "db' = db \<and> (\<exists>e. res = Inl e)")
  case True
  then show thesis using unchanged by blast
next
  case False
  with eq obtain w a vs chans where w: "voucher_db_row_of v = Inr (w, a)"
    and vs: "insert_voucher w db = Inr vs"
    and cas: "keyed_cas ch_channel_id (vo_channel_id v)
                (\<lambda>r. ch_last r < vr_cumulative w \<and> ch_status r = channel_status_str Open)
                (advance_row (vr_cumulative w) a) (channels db) = Inr (1, chans)"
    and com: "commit ft 3 (Db ConnectionFault) () db
                (db\<lparr>channels := chans, channel_vouchers := vs\<rparr>) = (res, db')"
    by (auto simp: persist_voucher_and_advance_def split: sum.splits prod.splits if_splits)
  note w' = voucher_db_row_of_Inr [OF w]
  from cas obtain r r' where r: "channel_of (vo_channel_id v) db = Some r"
    "ch_last r < vr_cumulative w" "ch_status r = channel_status_str Open"
    "advance_row (vr_cumulative w) a r = Inr r'"
    "chans = replace_row ch_channel_id (vo_channel_id v) r' (channels db)"
    by (auto elim!: keyed_cas_Inr [OF ledger_invD(1) [OF inv]])
  with w' have r': "r' = advanced v r" "channel_checks (advanced v r)"
    using advance_row_Inr [OF r(4)] by auto
  from com show thesis
  proof (cases rule: commit_cases)
    case kept
    with False show thesis by auto
  next
    case applied
    with r r' w w' insert_voucher_Inr [OF vs] show thesis by (intro advance) auto
  qed
qed

lemma persist_inv:
  assumes inv: "ledger_inv db"
  shows "ledger_inv (snd (persist_voucher_and_advance ft v db))"
proof (cases "persist_voucher_and_advance ft v db")
  case (Pair res db')
  from inv Pair show ?thesis
  proof (cases rule: persist_cases)
    case (advance r w)
    from voucher_db_row_of_Inr [OF advance(5)] advance row_SomeD [OF advance(1)] Pair show ?thesis
      by (intro ledger_inv_advance [OF inv advance(1), where r' = "advanced v r" and v = w]) auto
  qed (use inv Pair in simp)
qed

lemma create_channel_cases:
  assumes "create_channel cr ft ch db = (res, db')"
  obtains (unchanged) e where "db' = db" "res = Inl e"
    | (created) r where "new_channel_row ch = Inr r" "channel_of (ch_channel_id r) db = None"
        "channel_checks r" "\<not> funding_conflict r (channels db)"
        "db' = db\<lparr>channels := channels db @ [r]\<rparr>"
        "refund_account_collision cr (nc_agent_wallet ch) (nc_provider ch) (nc_mint ch) = None"
  using assms
  by (auto simp: create_channel_def commit_def split: option.splits sum.splits if_splits)

lemma new_channel_row_Inr:
  "new_channel_row ch = Inr r \<Longrightarrow>
     ch_last r = 0 \<and> ch_realized r = 0 \<and> ch_settled r = 0
     \<and> ch_deposited r = uint (nc_deposited_atomic ch) \<and> ch_deposited r \<le> i64_max \<and> ch_status r = channel_status_str Open
     \<and> ch_channel_id r = nc_channel_id ch \<and> ch_agent_wallet r = nc_agent_wallet ch
     \<and> ch_mint r = nc_mint ch"
  by (auto simp: new_channel_row_def atomic_to_i64_def split: if_splits sum.splits)

lemma create_channel_inv:
  assumes inv: "ledger_inv db"
  shows "ledger_inv (snd (create_channel cr ft ch db))"
proof (cases "create_channel cr ft ch db")
  case (Pair res db')
  from Pair show ?thesis
  proof (cases rule: create_channel_cases)
    case (created r)
    with new_channel_row_Inr [OF created(1)] Pair show ?thesis
      by (intro ledger_inv_insert [OF inv created(2)]) auto
  qed (use inv Pair in simp)
qed

lemma update_settled_cases:
  assumes inv: "ledger_inv db" and eq: "update_settled ft k n db = (res, db')"
  obtains (unchanged) e where "db' = db" "res = Inl e"
    | (settled) r where "channel_of k db = Some r" "channel_checks (r\<lparr>ch_settled := uint n\<rparr>)"
        "db' = db\<lparr>channels := replace_row ch_channel_id k (r\<lparr>ch_settled := uint n\<rparr>) (channels db)\<rparr>"
proof (cases "db' = db \<and> (\<exists>e. res = Inl e)")
  case True
  then show thesis using unchanged by blast
next
  case False
  with eq obtain chans where cas: "keyed_cas ch_channel_id k (\<lambda>_. True)
      (\<lambda>r. check_row (r\<lparr>ch_settled := uint n\<rparr>)) (channels db) = Inr (1, chans)"
    and com: "commit ft 0 (Db ConnectionFault) () db (db\<lparr>channels := chans\<rparr>) = (res, db')"
    by (auto simp: update_settled_def atomic_to_i64_def split: sum.splits if_splits)
  from cas obtain r r' where "channel_of k db = Some r"
    "check_row (r\<lparr>ch_settled := uint n\<rparr>) = Inr r'"
    "chans = replace_row ch_channel_id k r' (channels db)"
    by (auto elim!: keyed_cas_Inr [OF ledger_invD(1) [OF inv]])
  with com False show thesis
    by (intro settled [of r]) (auto simp: check_row_def commit_def split: if_splits)
qed

lemma set_status_cases:
  assumes inv: "ledger_inv db" and eq: "set_status ft k st db = (res, db')"
  obtains (unchanged) e where "db' = db" "res = Inl e"
    | (set) r where "channel_of k db = Some r"
        "channel_checks (r\<lparr>ch_status := channel_status_str st\<rparr>)"
        "db' = db\<lparr>channels := replace_row ch_channel_id k
           (r\<lparr>ch_status := channel_status_str st\<rparr>) (channels db)\<rparr>"
proof (cases "db' = db \<and> (\<exists>e. res = Inl e)")
  case True
  then show thesis using unchanged by blast
next
  case False
  with eq obtain chans where cas: "keyed_cas ch_channel_id k (\<lambda>_. True)
      (\<lambda>r. check_row (r\<lparr>ch_status := channel_status_str st\<rparr>)) (channels db) = Inr (1, chans)"
    and com: "commit ft 0 (Db ConnectionFault) () db (db\<lparr>channels := chans\<rparr>) = (res, db')"
    by (auto simp: set_status_def split: sum.splits if_splits)
  from cas obtain r r' where "channel_of k db = Some r"
    "check_row (r\<lparr>ch_status := channel_status_str st\<rparr>) = Inr r'"
    "chans = replace_row ch_channel_id k r' (channels db)"
    by (auto elim!: keyed_cas_Inr [OF ledger_invD(1) [OF inv]])
  with com False show thesis
    by (intro set [of r]) (auto simp: check_row_def commit_def split: if_splits)
qed

lemma update_settled_inv:
  assumes inv: "ledger_inv db"
  shows "ledger_inv (snd (update_settled ft k n db))"
proof (cases "update_settled ft k n db")
  case (Pair res db')
  from inv Pair show ?thesis
  proof (cases rule: update_settled_cases)
    case (settled r)
    with row_SomeD [OF settled(1)] Pair show ?thesis
      by (intro ledger_inv_rewrite [OF inv settled(1), where r' = "r\<lparr>ch_settled := uint n\<rparr>"]) auto
  qed (use inv Pair in simp)
qed

lemma set_status_inv:
  assumes inv: "ledger_inv db"
  shows "ledger_inv (snd (set_status ft k st db))"
proof (cases "set_status ft k st db")
  case (Pair res db')
  from inv Pair show ?thesis
  proof (cases rule: set_status_cases)
    case (set r)
    with row_SomeD [OF set(1)] Pair show ?thesis
      by (intro ledger_inv_rewrite [OF inv set(1),
            where r' = "r\<lparr>ch_status := channel_status_str st\<rparr>"]) auto
  qed (use inv Pair in simp)
qed

section \<open>The ledger as a transition system\<close>

text \<open>Every call of the repository, with any argument and any fault, from the empty tables.\<close>

definition ledger_init :: "'a ledger_scheme \<Rightarrow> bool" where
  "ledger_init db \<longleftrightarrow> channels db = [] \<and> channel_vouchers db = []"

inductive ledger_step :: "'a ledger_scheme \<Rightarrow> 'a ledger_scheme \<Rightarrow> bool" where
  step_create: "ledger_step db (snd (create_channel cr ft ch db))"
| step_persist: "ledger_step db (snd (persist_voucher_and_advance ft v db))"
| step_settle: "ledger_step db (snd (update_settled ft k n db))"
| step_status: "ledger_step db (snd (set_status ft k st db))"

inductive_cases ledger_stepE: "ledger_step db db'"

lemma ledger_inv_init: "ledger_init db \<Longrightarrow> ledger_inv db"
  by (simp add: ledger_init_def ledger_inv_def pk_unique_def)

lemma ledger_inv_step: "ledger_inv db \<Longrightarrow> ledger_step db db' \<Longrightarrow> ledger_inv db'"
  by (auto elim!: ledger_stepE intro: create_channel_inv persist_inv update_settled_inv set_status_inv)

interpretation ledger: inv_system ledger_init ledger_step ledger_inv
  by unfold_locales (auto intro: ledger_inv_init ledger_inv_step)

text \<open>What any single step does to an existing channel.\<close>

definition channel_grows :: "channel_db_row \<Rightarrow> channel_db_row \<Rightarrow> bool" where
  "channel_grows r r' \<longleftrightarrow>
     ch_channel_id r' = ch_channel_id r \<and> ch_agent_wallet r' = ch_agent_wallet r
     \<and> ch_session_key r' = ch_session_key r \<and> ch_provider r' = ch_provider r
     \<and> ch_mint r' = ch_mint r \<and> ch_deposited r' = ch_deposited r
     \<and> ch_funding_tx_sig r' = ch_funding_tx_sig r
     \<and> ch_last r \<le> ch_last r' \<and> ch_realized r \<le> ch_realized r'"

definition ledger_grows :: "'a ledger_scheme \<Rightarrow> 'b ledger_scheme \<Rightarrow> bool" where
  "ledger_grows db db' \<longleftrightarrow>
     (\<exists>vs. channel_vouchers db' = channel_vouchers db @ vs)
     \<and> (\<forall>k r. channel_of k db = Some r \<longrightarrow>
          (\<exists>r'. channel_of k db' = Some r' \<and> channel_grows r r'))"

lemma channel_grows_refl [simp]: "channel_grows r r"
  by (simp add: channel_grows_def)

lemma channel_grows_trans: "channel_grows r s \<Longrightarrow> channel_grows s t \<Longrightarrow> channel_grows r t"
  by (auto simp: channel_grows_def)

lemma ledger_grows_refl [simp]: "ledger_grows db db"
  by (simp add: ledger_grows_def)

lemma ledger_grows_trans: "ledger_grows a b \<Longrightarrow> ledger_grows b c \<Longrightarrow> ledger_grows a c"
  unfolding ledger_grows_def by (fastforce intro: channel_grows_trans)

lemma ledger_grows_replace:
  assumes "channel_of k db = Some r" "channel_grows r r'"
    and "channels db' = replace_row ch_channel_id k r' (channels db)"
    and "channel_vouchers db' = channel_vouchers db @ vs"
  shows "ledger_grows db db'"
proof -
  have "ch_channel_id r' = k"
    using assms(2) row_SomeD [OF assms(1)] by (simp add: channel_grows_def)
  then have "channel_of k1 db' = (if k1 = k then Some r' else channel_of k1 db)" for k1
    using assms(1) by (simp add: assms(3) row_replace_row)
  with assms(1,2,4) show ?thesis
    unfolding ledger_grows_def by (auto intro: channel_grows_refl)
qed

lemma create_channel_grows: "ledger_grows db (snd (create_channel cr ft ch db))"
proof (cases "create_channel cr ft ch db")
  case (Pair res db')
  then show ?thesis
    by (rule create_channel_cases) (use Pair in \<open>auto simp: ledger_grows_def row_append\<close>)
qed

lemma persist_grows:
  assumes inv: "ledger_inv db"
  shows "ledger_grows db (snd (persist_voucher_and_advance ft v db))"
proof (cases "persist_voucher_and_advance ft v db")
  case (Pair res db')
  from inv Pair show ?thesis
  proof (cases rule: persist_cases)
    case (advance r w)
    with Pair show ?thesis
      by (intro ledger_grows_replace [OF advance(1), where r' = "advanced v r" and vs = "[w]"])
        (auto simp: channel_grows_def)
  qed (use Pair in simp)
qed

lemma update_settled_grows:
  assumes inv: "ledger_inv db"
  shows "ledger_grows db (snd (update_settled ft k n db))"
proof (cases "update_settled ft k n db")
  case (Pair res db')
  from inv Pair show ?thesis
  proof (cases rule: update_settled_cases)
    case (settled r)
    with Pair show ?thesis
      by (intro ledger_grows_replace [OF settled(1), where vs = "[]"])
        (auto simp: channel_grows_def)
  qed (use Pair in simp)
qed

lemma set_status_grows:
  assumes inv: "ledger_inv db"
  shows "ledger_grows db (snd (set_status ft k st db))"
proof (cases "set_status ft k st db")
  case (Pair res db')
  from inv Pair show ?thesis
  proof (cases rule: set_status_cases)
    case (set r)
    with Pair show ?thesis
      by (intro ledger_grows_replace [OF set(1), where vs = "[]"])
        (auto simp: channel_grows_def)
  qed (use Pair in simp)
qed

lemmas ledger_ops_grow =
  create_channel_grows persist_grows update_settled_grows set_status_grows

lemma ledger_step_grows: "ledger_inv db \<Longrightarrow> ledger_step db db' \<Longrightarrow> ledger_grows db db'"
  by (auto elim!: ledger_stepE intro: ledger_ops_grow)

section \<open>Reading back and drawing on a reachable ledger\<close>

lemma channel_chain:
  assumes "ledger_inv db" "channel_of k db = Some r"
  shows "0 \<le> ch_settled r" "ch_settled r \<le> ch_realized r" "ch_realized r \<le> ch_last r"
    "ch_last r \<le> ch_deposited r" "ch_deposited r \<le> i64_max"
  using ledger_invD(2) [OF assms] by (auto simp: channel_checks_def)

lemma i64_to_atomic_in_range:
  "0 \<le> i \<Longrightarrow> i \<le> i64_max \<Longrightarrow> \<exists>v. i64_to_atomic i = Inr v \<and> uint v = i"
  using i64_to_atomic_nonneg i64_to_atomic_Inr by blast

lemma load_open_exact:
  assumes inv: "ledger_inv db" and load: "load_open_channel_state cr ft k d db = Inr (Some dc)"
  shows "\<exists>r. channel_of k db = Some r \<and> ch_status r = channel_status_str Open
    \<and> decode_bs58_pubkey cr k = Inr (cs_channel_id (dc_state dc))
    \<and> decode_bs58_pubkey cr (ch_session_key r) = Inr (cs_session_key (dc_state dc))
    \<and> uint (cs_deposited_atomic (dc_state dc)) = ch_deposited r
    \<and> uint (cs_settled_atomic (dc_state dc)) = ch_settled r
    \<and> uint (cs_last_cumulative_atomic (dc_state dc)) = ch_last r
    \<and> cs_expected_request_digest (dc_state dc) = d \<and> dc_agent_wallet dc = ch_agent_wallet r"
proof -
  from load obtain r where sel: "select_one (\<lambda>r. ch_channel_id r = k \<and> ch_status r = ''open'')
      (channels db) = Some r"
    by (auto simp: load_open_channel_state_def split: if_splits option.splits)
  then have "r \<in> set (channels db)" and k: "ch_channel_id r = k" and st: "ch_status r = ''open''"
    by (auto simp: select_one_def find_Some_iff)
  then have r: "channel_of k db = Some r"
    using pk_unique_row [OF ledger_invD(1) [OF inv]] by blast
  note ch = channel_chain [OF inv r]
  obtain dep where dep: "i64_to_atomic (ch_deposited r) = Inr dep" "uint dep = ch_deposited r"
    using i64_to_atomic_in_range [of "ch_deposited r"] ch by auto
  obtain se where se: "i64_to_atomic (ch_settled r) = Inr se" "uint se = ch_settled r"
    using i64_to_atomic_in_range [of "ch_settled r"] ch by auto
  obtain la where la: "i64_to_atomic (ch_last r) = Inr la" "uint la = ch_last r"
    using i64_to_atomic_in_range [of "ch_last r"] ch by auto
  from load sel k st dep se la show ?thesis
    by (intro exI [of _ r] conjI r)
      (auto simp: load_open_channel_state_def split: if_splits sum.splits)
qed

lemma voucher_db_row_of_fits:
  assumes "uint (vo_cumulative_atomic v) \<le> i64_max" "uint (vo_call_cost_atomic v) \<le> i64_max"
    "uint (vo_realized_advance_atomic v) \<le> i64_max" "uint (vo_expiry_slot v) \<le> i64_max"
    "uint (vo_nonce v) \<le> i64_max"
  shows "\<exists>w. voucher_db_row_of v = Inr (w, uint (vo_realized_advance_atomic v))"
  using assms by (simp add: voucher_db_row_of_def atomic_to_i64_def)

lemma persist_ok:
  assumes inv: "ledger_inv db" and r: "channel_of (vo_channel_id v) db = Some r"
    and st: "ch_status r = channel_status_str Open"
    and cum: "ch_last r < uint (vo_cumulative_atomic v)"
      "uint (vo_cumulative_atomic v) \<le> ch_deposited r"
      "ch_realized r + uint (vo_realized_advance_atomic v) \<le> uint (vo_cumulative_atomic v)"
    and fits: "uint (vo_call_cost_atomic v) \<le> i64_max" "uint (vo_expiry_slot v) \<le> i64_max"
      "uint (vo_nonce v) \<le> i64_max"
  shows "fst (persist_voucher_and_advance no_faults v db) = Inr ()"
proof -
  note ch = channel_chain [OF inv r]
  from ch cum fits obtain w where w: "voucher_db_row_of v = Inr (w, uint (vo_realized_advance_atomic v))"
    using voucher_db_row_of_fits [of v] by auto
  note w' = voucher_db_row_of_Inr [OF w]
  have "voucher_key w \<notin> set (map voucher_key (channel_vouchers db))"
  proof
    assume "voucher_key w \<in> set (map voucher_key (channel_vouchers db))"
    then obtain x where "x \<in> set (channel_vouchers db)" "voucher_key x = voucher_key w" by auto
    with ledger_invD(5) [OF inv] r w' cum(1) show False by fastforce
  qed
  then have ins: "insert_voucher w db = Inr (channel_vouchers db @ [w])"
    using w' r by (auto simp: insert_voucher_def)
  from ledger_invD(2) [OF inv r] ch cum have chk: "channel_checks (advanced v r)"
    by (auto simp: channel_checks_def intro: add_increasing2)
  have "advance_row (vr_cumulative w) (uint (vo_realized_advance_atomic v)) r = Inr (advanced v r)"
    using chk w' ch cum by (auto simp: advance_row_def check_row_def Let_def)
  with w' r st cum(1) ledger_invD(1) [OF inv]
  have "keyed_cas ch_channel_id (vo_channel_id v)
      (\<lambda>r. ch_last r < vr_cumulative w \<and> ch_status r = channel_status_str Open)
      (advance_row (vr_cumulative w) (uint (vo_realized_advance_atomic v))) (channels db)
      = Inr (1, replace_row ch_channel_id (vo_channel_id v) (advanced v r) (channels db))"
    by (simp add: keyed_cas_def sql_update_keyed)
  then show ?thesis
    by (simp add: persist_voucher_and_advance_def w ins commit_def no_faults_def)
qed

section \<open>Correctness of the ledger\<close>

text \<open>
  C20. A draw is recorded all or nothing. Whatever fault the database shows, either the ledger is
  unchanged and the caller sees an error, or the open channel advanced to exactly the voucher's
  cumulative and charge with the voucher appended to the log, and no other channel moved. The only
  ambiguous outcome is a lost commit acknowledgement, and it is reported as an error.
\<close>
theorem persist_all_or_nothing:
  assumes "reach ledger_init ledger_step db"
    and "persist_voucher_and_advance ft v db = (res, db')"
  shows "db' = db \<and> res \<noteq> Inr ()
    \<or> (\<exists>r w. channel_of (vo_channel_id v) db = Some r \<and> ch_status r = ''open''
        \<and> ch_last r < uint (vo_cumulative_atomic v)
        \<and> channel_of (vo_channel_id v) db' = Some (r\<lparr>ch_last := uint (vo_cumulative_atomic v),
             ch_realized := ch_realized r + uint (vo_realized_advance_atomic v)\<rparr>)
        \<and> channel_vouchers db' = channel_vouchers db @ [w]
        \<and> vr_channel_id w = vo_channel_id v \<and> vr_cumulative w = uint (vo_cumulative_atomic v)
        \<and> vr_request_digest w = vo_request_digest v \<and> vr_signature w = vo_signature v
        \<and> (\<forall>k. k \<noteq> vo_channel_id v \<longrightarrow> channel_of k db' = channel_of k db)
        \<and> (res = Inr () \<or> stmt_fails ft 3 \<and> commit_applies ft))"
  using ledger.reach_inv [OF assms(1)] assms(2)
proof (cases rule: persist_cases)
  case (advance r w)
  with voucher_db_row_of_Inr [OF advance(5)] row_SomeD [OF advance(1)] show ?thesis
    by (intro disjI2 exI [of _ r] exI [of _ w]) (simp add: row_replace_row)
qed simp

text \<open>
  C21. In every reachable ledger each channel keeps \<open>0 \<le> settled \<le> realized \<le> last \<le> deposited\<close>
  within the column range, the accepted cumulative is zero or backed by a logged voucher of that
  very amount, and no logged voucher exceeds it.
\<close>
theorem reachable_ledger_sound:
  assumes "reach ledger_init ledger_step db" and "channel_of k db = Some r"
  shows "0 \<le> ch_settled r \<and> ch_settled r \<le> ch_realized r \<and> ch_realized r \<le> ch_last r
    \<and> ch_last r \<le> ch_deposited r \<and> ch_deposited r \<le> i64_max
    \<and> (ch_last r = 0 \<or> (\<exists>v \<in> set (channel_vouchers db). voucher_key v = (k, ch_last r)))
    \<and> (\<forall>v \<in> set (channel_vouchers db). vr_channel_id v = k \<longrightarrow> vr_cumulative v \<le> ch_last r)"
proof -
  note inv = ledger.reach_inv [OF assms(1)]
  show ?thesis
    using channel_chain [OF inv assms(2)] ledger_invD(5) [OF inv] ledger_invD(6) [OF inv assms(2)]
      assms(2) by force
qed

text \<open>
  A funding transaction is credited to at most one channel, in every reachable ledger.
\<close>
theorem funding_credited_once:
  assumes "reach ledger_init ledger_step db"
    and "channel_of k db = Some r" and "channel_of k' db = Some r'"
    and "ch_funding_tx_sig r = Some sig" and "ch_funding_tx_sig r' = Some sig"
  shows "k = k' \<and> r = r'"
  using ledger_invD(3) [OF ledger.reach_inv [OF assms(1)] assms(2,3)] assms by auto

text \<open>
  History only grows: over any further sequence of repository calls a channel keeps its
  wallet, session key, provider, mint, deposit and funding transaction, its accepted cumulative and
  its realized spend never decrease, and the voucher log is only appended to.
\<close>
theorem ledger_history_grows:
  assumes "reach ledger_init ledger_step db" and "ledger_step\<^sup>*\<^sup>* db db'"
  shows "ledger_grows db db'"
  using assms(2,1)
proof (induction rule: converse_rtranclp_induct)
  case (step x y)
  then show ?case
    using ledger_step_grows ledger.reach_inv reach_step ledger_grows_trans by metis
qed simp

text \<open>
  The state the verifier works on is the stored one: when the loader returns a channel it is
  open, its identifiers are the decoded columns and every amount is exactly the column's value.
\<close>
theorem load_open_channel_state_exact:
  assumes "reach ledger_init ledger_step db"
    and "load_open_channel_state cr ft k d db = Inr (Some dc)"
  shows "\<exists>r. channel_of k db = Some r \<and> ch_status r = ''open''
    \<and> decode_bs58_pubkey cr k = Inr (cs_channel_id (dc_state dc))
    \<and> decode_bs58_pubkey cr (ch_session_key r) = Inr (cs_session_key (dc_state dc))
    \<and> uint (cs_deposited_atomic (dc_state dc)) = ch_deposited r
    \<and> uint (cs_settled_atomic (dc_state dc)) = ch_settled r
    \<and> uint (cs_last_cumulative_atomic (dc_state dc)) = ch_last r
    \<and> cs_expected_request_digest (dc_state dc) = d \<and> dc_agent_wallet dc = ch_agent_wallet r"
  using load_open_exact [OF ledger.reach_inv [OF assms(1)] assms(2)] by simp

text \<open>
  With a working database, a voucher that advances an open channel within its deposit, for a
  charge its own cumulative covers, is always recorded: none of the constraints, the uniqueness of
  the voucher key or the compare-and-set can refuse it.
\<close>
theorem persist_accepts_covered_draw:
  assumes "reach ledger_init ledger_step db" and "channel_of (vo_channel_id v) db = Some r"
    and "ch_status r = ''open''" and "ch_last r < uint (vo_cumulative_atomic v)"
    and "uint (vo_cumulative_atomic v) \<le> ch_deposited r"
    and "ch_realized r + uint (vo_realized_advance_atomic v) \<le> uint (vo_cumulative_atomic v)"
    and "uint (vo_call_cost_atomic v) \<le> i64_max" and "uint (vo_expiry_slot v) \<le> i64_max"
    and "uint (vo_nonce v) \<le> i64_max"
  shows "fst (persist_voucher_and_advance no_faults v db) = Inr ()"
  using persist_ok [OF ledger.reach_inv [OF assms(1)] assms(2)] assms(3-) by simp

section \<open>A worked ledger\<close>

definition demo_crypto :: crypto where
  "demo_crypto = \<lparr>sha256 = take 32, decompresses = (\<lambda>_. True),
     bs58_decode = (\<lambda>s. if length s \<le> 32 then Some (ascii s @ replicate (32 - length s) 0) else None),
     bs58_encode = (\<lambda>_. [])\<rparr>"

definition demo_new_channel :: new_channel where
  "demo_new_channel = \<lparr>nc_channel_id = ''c1'', nc_agent_wallet = ''agent'', nc_session_key = ''key'',
     nc_provider = ''gateway'', nc_mint = ''usdc'', nc_deposited_atomic = 100,
     nc_expiry_slot = None, nc_funding_tx_sig = Some ''fund''\<rparr>"

definition demo_row :: channel_db_row where
  "demo_row = \<lparr>ch_channel_id = ''c1'', ch_agent_wallet = ''agent'', ch_session_key = ''key'',
     ch_provider = ''gateway'', ch_mint = ''usdc'', ch_deposited = 100, ch_settled = 0,
     ch_realized = 0, ch_last = 0, ch_expiry_slot = None, ch_status = ''open'',
     ch_funding_tx_sig = Some ''fund''\<rparr>"

definition demo_voucher :: voucher_record where
  "demo_voucher = \<lparr>vo_channel_id = ''c1'', vo_cumulative_atomic = 40, vo_call_cost_atomic = 40,
     vo_realized_advance_atomic = 25, vo_expiry_slot = 9, vo_nonce = 1, vo_request_digest = [7],
     vo_signature = [8]\<rparr>"

definition demo_ledger0 :: ledger where
  "demo_ledger0 = \<lparr>channels = [], channel_vouchers = []\<rparr>"

definition demo_ledger :: ledger where
  "demo_ledger = snd (create_channel demo_crypto no_faults demo_new_channel demo_ledger0)"

lemma replicate_32: "replicate 32 x = x # replicate 31 x"
  by (simp add: numeral_eq_Suc)

lemma demo_ledger_eq: "demo_ledger = \<lparr>channels = [demo_row], channel_vouchers = []\<rparr>"
  by (simp add: demo_ledger_def demo_ledger0_def demo_new_channel_def demo_row_def demo_crypto_def
      create_channel_def refund_account_collision_def decode_bs58_pubkey_def ascii_def
      new_channel_row_def atomic_to_i64_def i64_max_def funding_conflict_def channel_checks_def
      commit_def no_faults_def of_char_def SYSTEM_PROGRAM_def TOKEN_PROGRAM_ID_def
      ASSOCIATED_TOKEN_PROGRAM_ID_def replicate_32)

lemma demo_ledger_reach: "reach ledger_init ledger_step demo_ledger"
  unfolding demo_ledger_def
  by (rule reach_step [of _ _ demo_ledger0], rule reach_init)
    (simp_all add: ledger_init_def demo_ledger0_def step_create)

lemma demo_ledger_channel: "channel_of ''c1'' demo_ledger = Some demo_row"
  by (simp add: demo_ledger_eq demo_row_def)

theorem persist_accepts_covered_draw_witness:
  "fst (persist_voucher_and_advance no_faults demo_voucher demo_ledger) = Inr ()"
  using persist_accepts_covered_draw [OF demo_ledger_reach, of demo_voucher demo_row]
  by (simp add: demo_voucher_def demo_ledger_channel demo_row_def i64_max_def)

theorem reachable_ledger_sound_witness:
  "channel_of ''c1'' demo_ledger = Some demo_row \<and> ch_last demo_row \<le> ch_deposited demo_row"
  using reachable_ledger_sound [OF demo_ledger_reach demo_ledger_channel] demo_ledger_channel
  by simp

theorem funding_credited_once_witness:
  "\<exists>!k. \<exists>r. channel_of k demo_ledger = Some r \<and> ch_funding_tx_sig r = Some ''fund''"
proof (rule ex1I [of _ "''c1''"])
  have sig: "ch_funding_tx_sig demo_row = Some ''fund''" by (simp add: demo_row_def)
  with demo_ledger_channel
  show "\<exists>r. channel_of ''c1'' demo_ledger = Some r \<and> ch_funding_tx_sig r = Some ''fund''" by blast
  show "k = ''c1''" if "\<exists>r. channel_of k demo_ledger = Some r \<and> ch_funding_tx_sig r = Some ''fund''" for k
    using that funding_credited_once [OF demo_ledger_reach _ demo_ledger_channel _ sig] by blast
qed

theorem ledger_history_grows_witness:
  "ledger_grows demo_ledger (snd (persist_voucher_and_advance no_faults demo_voucher demo_ledger))"
  by (rule ledger_history_grows [OF demo_ledger_reach]) (rule r_into_rtranclp, rule step_persist)

theorem load_open_channel_state_exact_witness:
  "\<exists>dc. load_open_channel_state demo_crypto no_faults ''c1'' [7] demo_ledger = Inr (Some dc)
     \<and> uint (cs_deposited_atomic (dc_state dc)) = 100"
proof -
  obtain dc where load: "load_open_channel_state demo_crypto no_faults ''c1'' [7] demo_ledger
      = Inr (Some dc)"
    by (simp add: demo_ledger_eq load_open_channel_state_def select_one_def demo_row_def
        no_faults_def decode_bs58_pubkey_def demo_crypto_def i64_to_atomic_def)
  from load_open_channel_state_exact [OF demo_ledger_reach load] load show ?thesis
    by (auto simp: demo_ledger_channel demo_row_def)
qed

theorem persist_all_or_nothing_witness:
  "channel_of ''c1'' (snd (persist_voucher_and_advance no_faults demo_voucher demo_ledger))
     = Some (demo_row\<lparr>ch_last := 40, ch_realized := 25\<rparr>)"
proof -
  obtain db' where p: "persist_voucher_and_advance no_faults demo_voucher demo_ledger = (Inr (), db')"
    using persist_ok [OF ledger.reach_inv [OF demo_ledger_reach], of demo_voucher demo_row]
    by (cases "persist_voucher_and_advance no_faults demo_voucher demo_ledger")
      (auto simp: demo_voucher_def demo_ledger_channel demo_row_def i64_max_def)
  from persist_all_or_nothing [OF demo_ledger_reach p] p show ?thesis
    by (auto simp: demo_voucher_def demo_ledger_channel) (auto simp: demo_row_def)
qed

end
