(* ===== verification/Channel_Refunds.thy ===== *)
theory Channel_Refunds
  imports Channel_Ledger
begin

text \<open>
  The refund repository of \<open>crates/gateway/src/channel_refunds.rs\<close> (migrations \<open>017\<close> and
  \<open>018\<close>): the close transaction that freezes an obligation, and the compare-and-set operations
  through which workers claim, re-sign, hold and confirm it. The database clock \<open>NOW()\<close> is an
  argument, in seconds.
\<close>

section \<open>Errors and the refundable amount\<close>

datatype channel_refund_error =
    Repo channel_repo_error
  | RealizedExceedsDeposited u64 u64

abbreviation refund_db_error :: "db_error \<Rightarrow> channel_refund_error" where
  "refund_db_error e \<equiv> Repo (Db e)"

definition compute_refundable :: "u64 \<Rightarrow> u64 \<Rightarrow> (channel_refund_error, u64) result" where
  "compute_refundable deposited_atomic realized_atomic =
    (case checked_sub deposited_atomic realized_atomic of
       None \<Rightarrow> Inl (RealizedExceedsDeposited deposited_atomic realized_atomic)
     | Some d \<Rightarrow> Inr d)"

definition refund_memo :: "string \<Rightarrow> string" where
  "refund_memo channel_id = ''solvela-refund:'' @ channel_id"

section \<open>Reservations\<close>

datatype refund_status = Reserved | InFlight | Confirmed | Held

primrec refund_status_str :: "refund_status \<Rightarrow> string" where
  "refund_status_str Reserved = ''reserved''"
| "refund_status_str InFlight = ''in_flight''"
| "refund_status_str Confirmed = ''confirmed''"
| "refund_status_str Held = ''held''"

lemma refund_status_str_inject [simp]:
  "refund_status_str s = refund_status_str t \<longleftrightarrow> s = t"
  by (cases s; cases t) simp_all

text \<open>A row of \<open>channel_refunds\<close>; timestamps in seconds, \<open>attempts\<close> an SQL \<open>INT\<close>.\<close>

record refund_db_row =
  rf_channel_id :: string
  rf_amount :: int
  rf_destination_wallet :: string
  rf_mint :: string
  rf_status :: string
  rf_tx_signature :: "string option"
  rf_signed_tx :: "bytes option"
  rf_last_valid_block_height :: "int option"
  rf_attempts :: int
  rf_first_broadcast_at :: "int option"
  rf_broadcast_accepted_at :: "int option"
  rf_created_at :: int
  rf_updated_at :: int

record refund_row =
  rr_channel_id :: string
  rr_amount_atomic :: u64
  rr_destination_wallet :: string
  rr_mint :: string
  rr_status :: string
  rr_tx_signature :: "string option"
  rr_signed_tx :: "bytes option"
  rr_last_valid_block_height :: "u64 option"
  rr_attempts :: int
  rr_broadcast_accepted :: bool
  rr_age_secs :: int

record refund_ledger = ledger +
  refunds :: "refund_db_row list"

abbreviation refund_of :: "string \<Rightarrow> 'a refund_ledger_scheme \<Rightarrow> refund_db_row option" where
  "refund_of k db \<equiv> row rf_channel_id k (refunds db)"

definition refund_checks :: "refund_db_row \<Rightarrow> bool" where
  "refund_checks f \<longleftrightarrow> 0 \<le> rf_amount f
     \<and> (rf_status f = ''reserved'' \<or> rf_status f = ''in_flight''
        \<or> rf_status f = ''confirmed'' \<or> rf_status f = ''held'')"

text \<open>\<open>INSERT \<dots> ON CONFLICT (channel_id) DO NOTHING\<close>, with the table's constraints.\<close>

definition insert_refund ::
  "refund_db_row \<Rightarrow> 'a refund_ledger_scheme \<Rightarrow> (db_error, refund_db_row list) result" where
  "insert_refund f db =
    (if \<not> refund_checks f then Inl CheckViolation
     else if refund_of (rf_channel_id f) db \<noteq> None then Inr (refunds db)
     else if channel_of (rf_channel_id f) db = None then Inl ForeignKeyViolation
     else Inr (refunds db @ [f]))"

definition i32_max :: int where
  "i32_max = 2 ^ 31 - 1"

definition bump_attempts :: "refund_db_row \<Rightarrow> (db_error, refund_db_row) result" where
  "bump_attempts f =
    (if i32_max < rf_attempts f + 1 then Inl NumericOutOfRange
     else Inr (f\<lparr>rf_attempts := rf_attempts f + 1\<rparr>))"

section \<open>Close: flip, read, reserve\<close>

record close_outcome =
  co_channel_status :: string
  co_deposited_atomic :: u64
  co_settled_atomic :: u64
  co_refundable_atomic :: u64
  co_refund_status :: string
  co_tx_signature :: "string option"

definition flip_open_to_closing ::
  "db_faults \<Rightarrow> string \<Rightarrow> 'a refund_ledger_scheme
     \<Rightarrow> (channel_refund_error, channel_db_row \<times> string \<times> channel_db_row list) result" where
  "flip_open_to_closing ft channel_id db =
    (case keyed_cas ch_channel_id channel_id (\<lambda>r. ch_status r = channel_status_str Open)
            (\<lambda>r. check_row (r\<lparr>ch_status := channel_status_str Closing\<rparr>)) (channels db) of
       Inl e \<Rightarrow> Inl (refund_db_error e)
     | Inr (n, chans) \<Rightarrow>
       (case (if n = 0 then None else row ch_channel_id channel_id chans) of
          Some r \<Rightarrow> Inr (r, channel_status_str Closing, chans)
        | None \<Rightarrow>
          if stmt_fails ft 2 then Inl (refund_db_error ConnectionFault)
          else case row ch_channel_id channel_id chans of
            None \<Rightarrow> Inl (Repo ChannelNotFound)
          | Some r \<Rightarrow> Inr (r, ch_status r, chans)))"

definition new_refund_row :: "int \<Rightarrow> string \<Rightarrow> int \<Rightarrow> channel_db_row \<Rightarrow> refund_db_row" where
  "new_refund_row now channel_id amount r =
    \<lparr>rf_channel_id = channel_id, rf_amount = amount, rf_destination_wallet = ch_agent_wallet r,
     rf_mint = ch_mint r, rf_status = refund_status_str Reserved, rf_tx_signature = None,
     rf_signed_tx = None, rf_last_valid_block_height = None, rf_attempts = 0,
     rf_first_broadcast_at = None, rf_broadcast_accepted_at = None, rf_created_at = now,
     rf_updated_at = now\<rparr>"

definition close_channel_and_reserve_refund ::
  "db_faults \<Rightarrow> int \<Rightarrow> string \<Rightarrow> 'a refund_ledger_scheme
     \<Rightarrow> (channel_refund_error, close_outcome) result \<times> 'a refund_ledger_scheme" where
  "close_channel_and_reserve_refund ft now channel_id db =
    (if stmt_fails ft 0 \<or> stmt_fails ft 1 then (Inl (refund_db_error ConnectionFault), db)
     else case flip_open_to_closing ft channel_id db of
       Inl e \<Rightarrow> (Inl e, db)
     | Inr (r, channel_status, chans) \<Rightarrow>
       (case i64_to_atomic (ch_deposited r) of Inl e \<Rightarrow> (Inl (Repo e), db) | Inr deposited \<Rightarrow>
        case i64_to_atomic (ch_settled r) of Inl e \<Rightarrow> (Inl (Repo e), db) | Inr settled \<Rightarrow>
        case i64_to_atomic (ch_realized r) of Inl e \<Rightarrow> (Inl (Repo e), db) | Inr realized \<Rightarrow>
        case compute_refundable deposited realized of Inl e \<Rightarrow> (Inl e, db) | Inr refundable \<Rightarrow>
        case atomic_to_i64 refundable of Inl e \<Rightarrow> (Inl (Repo e), db) | Inr amount \<Rightarrow>
        if stmt_fails ft 3 then (Inl (refund_db_error ConnectionFault), db)
        else case insert_refund (new_refund_row now channel_id amount r) db of
          Inl e \<Rightarrow> (Inl (refund_db_error e), db)
        | Inr refs \<Rightarrow>
          if stmt_fails ft 4 then (Inl (refund_db_error ConnectionFault), db)
          else case row rf_channel_id channel_id refs of
            None \<Rightarrow> (Inl (refund_db_error RowNotFound), db)
          | Some f \<Rightarrow>
            commit ft 5 (refund_db_error ConnectionFault)
              \<lparr>co_channel_status = channel_status, co_deposited_atomic = deposited,
               co_settled_atomic = settled, co_refundable_atomic = refundable,
               co_refund_status = rf_status f, co_tx_signature = rf_tx_signature f\<rparr>
              db (db\<lparr>channels := chans, refunds := refs\<rparr>)))"

section \<open>The worker's reads\<close>

text \<open>A stored negative amount or height makes the row skipped, never a wrapped value. Rows with
  equal \<open>created_at\<close> come in table order.\<close>

definition refund_row_of :: "int \<Rightarrow> refund_db_row \<Rightarrow> refund_row option" where
  "refund_row_of now f =
    (case i64_to_atomic (rf_amount f) of
       Inl _ \<Rightarrow> None
     | Inr amount \<Rightarrow>
       (case (case rf_last_valid_block_height f of None \<Rightarrow> Inr None
              | Some h \<Rightarrow> map_sum id Some (i64_to_atomic h)) of
          Inl _ \<Rightarrow> None
        | Inr height \<Rightarrow> Some
            \<lparr>rr_channel_id = rf_channel_id f, rr_amount_atomic = amount,
             rr_destination_wallet = rf_destination_wallet f, rr_mint = rf_mint f,
             rr_status = rf_status f, rr_tx_signature = rf_tx_signature f,
             rr_signed_tx = rf_signed_tx f, rr_last_valid_block_height = height,
             rr_attempts = rf_attempts f,
             rr_broadcast_accepted = (rf_broadcast_accepted_at f \<noteq> None),
             rr_age_secs = now - rf_updated_at f\<rparr>))"

definition fetch_refunds ::
  "db_faults \<Rightarrow> int \<Rightarrow> refund_status \<Rightarrow> 'a refund_ledger_scheme \<Rightarrow> (db_error, refund_row list) result"
where
  "fetch_refunds ft now status db =
    (if stmt_fails ft 0 then Inl ConnectionFault
     else Inr (List.map_filter (refund_row_of now)
       (take 32 (sort_key rf_created_at
         (filter (\<lambda>f. rf_status f = refund_status_str status) (refunds db))))))"

definition oldest_pending_age_secs ::
  "db_faults \<Rightarrow> int \<Rightarrow> 'a refund_ledger_scheme \<Rightarrow> (db_error, int option) result" where
  "oldest_pending_age_secs ft now db =
    (let pending = filter (\<lambda>f. rf_status f = refund_status_str Reserved
                              \<or> rf_status f = refund_status_str InFlight) (refunds db) in
     if stmt_fails ft 0 then Inl ConnectionFault
     else if pending = [] then Inr None
     else Inr (Some (now - Min (set (map rf_created_at pending)))))"

definition held_stats ::
  "db_faults \<Rightarrow> int \<Rightarrow> 'a refund_ledger_scheme \<Rightarrow> (db_error, int \<times> int option) result" where
  "held_stats ft now db =
    (let held = filter (\<lambda>f. rf_status f = refund_status_str Held) (refunds db) in
     if stmt_fails ft 0 then Inl ConnectionFault
     else Inr (int (length held),
       if held = [] then None else Some (now - Min (set (map rf_updated_at held)))))"

section \<open>Claim\<close>

datatype claim_outcome = Won | Lost | CapExceeded

record refund_claim =
  rc_channel_id :: string
  rc_signed_tx :: bytes
  rc_tx_signature :: string
  rc_last_valid_block_height :: u64
  rc_amount_atomic :: u64
  rc_daily_cap_atomic :: "u64 option"

definition counts_in_window :: "int \<Rightarrow> refund_db_row \<Rightarrow> bool" where
  "counts_in_window now f \<longleftrightarrow>
     (case rf_first_broadcast_at f of None \<Rightarrow> False | Some t \<Rightarrow> now - 86400 < t)
     \<and> rf_status f \<noteq> refund_status_str Held"

definition broadcast_24h :: "int \<Rightarrow> refund_db_row list \<Rightarrow> int" where
  "broadcast_24h now t = sum_list (map rf_amount (filter (counts_in_window now) t))"

definition claim_cap_check ::
  "db_faults \<Rightarrow> int \<Rightarrow> refund_claim \<Rightarrow> 'a refund_ledger_scheme \<Rightarrow> (channel_refund_error, bool) result"
where
  "claim_cap_check ft now claim db =
    (case rc_daily_cap_atomic claim of
       None \<Rightarrow> Inr True
     | Some cap \<Rightarrow>
       if stmt_fails ft 2 then Inl (refund_db_error ConnectionFault)
       else if i64_max < broadcast_24h now (refunds db) then Inl (refund_db_error NumericOutOfRange)
       else case i64_to_atomic (broadcast_24h now (refunds db)) of
         Inl e \<Rightarrow> Inl (Repo e)
       | Inr already \<Rightarrow> Inr (saturating_add already (rc_amount_atomic claim) \<le> cap))"

definition claimed_row :: "int \<Rightarrow> refund_claim \<Rightarrow> int \<Rightarrow> refund_db_row \<Rightarrow> refund_db_row" where
  "claimed_row now claim height f =
    f\<lparr>rf_status := refund_status_str InFlight, rf_signed_tx := Some (rc_signed_tx claim),
      rf_tx_signature := Some (rc_tx_signature claim), rf_last_valid_block_height := Some height,
      rf_first_broadcast_at :=
        (case rf_first_broadcast_at f of None \<Rightarrow> Some now | Some t \<Rightarrow> Some t),
      rf_broadcast_accepted_at := None, rf_updated_at := now\<rparr>"

definition claim_refund_for_broadcast ::
  "db_faults \<Rightarrow> int \<Rightarrow> refund_claim \<Rightarrow> 'a refund_ledger_scheme
     \<Rightarrow> (channel_refund_error, claim_outcome) result \<times> 'a refund_ledger_scheme" where
  "claim_refund_for_broadcast ft now claim db =
    (if stmt_fails ft 0 \<or> stmt_fails ft 1 then (Inl (refund_db_error ConnectionFault), db)
     else case claim_cap_check ft now claim db of
       Inl e \<Rightarrow> (Inl e, db)
     | Inr False \<Rightarrow>
       (if stmt_fails ft 3 then Inl (refund_db_error ConnectionFault) else Inr CapExceeded, db)
     | Inr True \<Rightarrow>
       (case atomic_to_i64 (rc_last_valid_block_height claim) of
          Inl e \<Rightarrow> (Inl (Repo e), db)
        | Inr height \<Rightarrow>
          if stmt_fails ft 3 then (Inl (refund_db_error ConnectionFault), db)
          else case keyed_cas rf_channel_id (rc_channel_id claim)
                 (\<lambda>f. rf_status f = refund_status_str Reserved)
                 (\<lambda>f. bump_attempts (claimed_row now claim height f)) (refunds db) of
            Inl e \<Rightarrow> (Inl (refund_db_error e), db)
          | Inr (n, refs) \<Rightarrow>
            if n = 1 then
              commit ft 4 (refund_db_error ConnectionFault) Won db (db\<lparr>refunds := refs\<rparr>)
            else (if stmt_fails ft 4 then Inl (refund_db_error ConnectionFault) else Inr Lost, db)))"

section \<open>Confirm, re-sign, hold, mark\<close>

definition confirm_refund_and_close_channel ::
  "db_faults \<Rightarrow> int \<Rightarrow> string \<Rightarrow> refund_status \<Rightarrow> 'a refund_ledger_scheme
     \<Rightarrow> (channel_refund_error, bool) result \<times> 'a refund_ledger_scheme" where
  "confirm_refund_and_close_channel ft now channel_id from_status db =
    (if stmt_fails ft 0 \<or> stmt_fails ft 1 then (Inl (refund_db_error ConnectionFault), db)
     else case keyed_cas rf_channel_id channel_id
            (\<lambda>f. rf_status f = refund_status_str from_status)
            (\<lambda>f. Inr (f\<lparr>rf_status := refund_status_str Confirmed, rf_updated_at := now\<rparr>))
            (refunds db) of
       Inl e \<Rightarrow> (Inl (refund_db_error e), db)
     | Inr (n, refs) \<Rightarrow>
       if stmt_fails ft 2 then (Inl (refund_db_error ConnectionFault), db)
       else if n \<noteq> 1 then (Inr False, db)
       else case keyed_cas ch_channel_id channel_id
              (\<lambda>r. ch_status r = channel_status_str Closing)
              (\<lambda>r. check_row (r\<lparr>ch_status := channel_status_str Closed\<rparr>)) (channels db) of
         Inl e \<Rightarrow> (Inl (refund_db_error e), db)
       | Inr (_, chans) \<Rightarrow>
         commit ft 3 (refund_db_error ConnectionFault) True db
           (db\<lparr>channels := chans, refunds := refs\<rparr>))"

text \<open>The autocommitted statements share one shape: a guarded update of the reservation, whose
  result is whether it hit.\<close>

definition refund_cas ::
  "db_faults \<Rightarrow> string \<Rightarrow> (refund_db_row \<Rightarrow> bool) \<Rightarrow> (refund_db_row \<Rightarrow> (db_error, refund_db_row) result)
     \<Rightarrow> 'a refund_ledger_scheme \<Rightarrow> (channel_refund_error, bool) result \<times> 'a refund_ledger_scheme"
where
  "refund_cas ft channel_id g f db =
    (case keyed_cas rf_channel_id channel_id g f (refunds db) of
       Inl e \<Rightarrow> (Inl (refund_db_error e), db)
     | Inr (n, refs) \<Rightarrow>
       commit ft 0 (refund_db_error ConnectionFault) (n = 1) db (db\<lparr>refunds := refs\<rparr>))"

definition resign_refund ::
  "db_faults \<Rightarrow> int \<Rightarrow> string \<Rightarrow> string \<Rightarrow> bytes \<Rightarrow> string \<Rightarrow> u64 \<Rightarrow> 'a refund_ledger_scheme
     \<Rightarrow> (channel_refund_error, bool) result \<times> 'a refund_ledger_scheme" where
  "resign_refund ft now channel_id old_tx_signature new_signed_tx new_tx_signature
      new_last_valid_block_height db =
    (case atomic_to_i64 new_last_valid_block_height of
       Inl e \<Rightarrow> (Inl (Repo e), db)
     | Inr height \<Rightarrow>
       refund_cas ft channel_id
         (\<lambda>f. rf_status f = refund_status_str InFlight \<and> rf_tx_signature f = Some old_tx_signature)
         (\<lambda>f. bump_attempts (f\<lparr>rf_signed_tx := Some new_signed_tx,
            rf_tx_signature := Some new_tx_signature, rf_last_valid_block_height := Some height,
            rf_broadcast_accepted_at := None, rf_updated_at := now\<rparr>)) db)"

datatype hold_guard =
    FromReserved
  | FromInFlight "string option"
  | FromInFlightNeverAccepted string

primrec source_status :: "hold_guard \<Rightarrow> refund_status" where
  "source_status FromReserved = Reserved"
| "source_status (FromInFlight _) = InFlight"
| "source_status (FromInFlightNeverAccepted _) = InFlight"

primrec hold_guard_holds :: "hold_guard \<Rightarrow> refund_db_row \<Rightarrow> bool" where
  "hold_guard_holds FromReserved f \<longleftrightarrow> rf_status f = refund_status_str Reserved"
| "hold_guard_holds (FromInFlight expected) f \<longleftrightarrow>
     rf_status f = refund_status_str InFlight \<and> rf_tx_signature f = expected"
| "hold_guard_holds (FromInFlightNeverAccepted expected) f \<longleftrightarrow>
     rf_status f = refund_status_str InFlight \<and> rf_tx_signature f = Some expected
     \<and> rf_broadcast_accepted_at f = None"

definition hold_refund ::
  "db_faults \<Rightarrow> int \<Rightarrow> string \<Rightarrow> hold_guard \<Rightarrow> 'a refund_ledger_scheme
     \<Rightarrow> (channel_refund_error, bool) result \<times> 'a refund_ledger_scheme" where
  "hold_refund ft now channel_id guard db =
    refund_cas ft channel_id (hold_guard_holds guard)
      (\<lambda>f. Inr (f\<lparr>rf_status := refund_status_str Held, rf_updated_at := now\<rparr>)) db"

definition mark_broadcast_accepted ::
  "db_faults \<Rightarrow> int \<Rightarrow> string \<Rightarrow> string \<Rightarrow> 'a refund_ledger_scheme
     \<Rightarrow> (channel_refund_error, unit) result \<times> 'a refund_ledger_scheme" where
  "mark_broadcast_accepted ft now channel_id tx_signature db =
    map_prod (map_sum id (\<lambda>_. ())) id
      (refund_cas ft channel_id
        (\<lambda>f. rf_status f = refund_status_str InFlight \<and> rf_tx_signature f = Some tx_signature
             \<and> rf_broadcast_accepted_at f = None)
        (\<lambda>f. Inr (f\<lparr>rf_broadcast_accepted_at := Some now\<rparr>)) db)"

text \<open>The operator's runbook statement \<open>held \<rightarrow> reserved\<close>; it keeps every other column.\<close>

definition rearm_refund :: "db_faults \<Rightarrow> string \<Rightarrow> 'a refund_ledger_scheme
     \<Rightarrow> (channel_refund_error, bool) result \<times> 'a refund_ledger_scheme" where
  "rearm_refund ft channel_id db =
    refund_cas ft channel_id (\<lambda>f. rf_status f = refund_status_str Held)
      (\<lambda>f. Inr (f\<lparr>rf_status := refund_status_str Reserved\<rparr>)) db"

section \<open>The refund invariant\<close>

text \<open>A reservation is the exact remainder of its closed channel, owed to the channel's wallet in
  the channel's mint; a channel is not open exactly when it has a reservation.\<close>

definition refund_fits :: "channel_db_row \<Rightarrow> refund_db_row \<Rightarrow> bool" where
  "refund_fits r f \<longleftrightarrow>
     rf_amount f = ch_deposited r - ch_realized r
     \<and> rf_destination_wallet f = ch_agent_wallet r \<and> rf_mint f = ch_mint r
     \<and> ch_status r = (if rf_status f = refund_status_str Confirmed then channel_status_str Closed
                       else channel_status_str Closing)"

definition refund_inv :: "'a refund_ledger_scheme \<Rightarrow> bool" where
  "refund_inv db \<longleftrightarrow>
     ledger_inv db \<and> pk_unique rf_channel_id (refunds db)
     \<and> (\<forall>k f. refund_of k db = Some f \<longrightarrow> (\<exists>r. channel_of k db = Some r \<and> refund_fits r f))
     \<and> (\<forall>k r. channel_of k db = Some r \<and> ch_status r \<noteq> channel_status_str Open
          \<longrightarrow> refund_of k db \<noteq> None)"

lemma refund_invI [intro?]:
  assumes "ledger_inv db" "pk_unique rf_channel_id (refunds db)"
    and "\<And>k f. refund_of k db = Some f \<Longrightarrow> \<exists>r. channel_of k db = Some r \<and> refund_fits r f"
    and "\<And>k r. channel_of k db = Some r \<Longrightarrow> ch_status r \<noteq> channel_status_str Open
          \<Longrightarrow> refund_of k db \<noteq> None"
  shows "refund_inv db"
  using assms unfolding refund_inv_def by blast

lemma refund_invD:
  assumes "refund_inv db"
  shows "ledger_inv db" and "pk_unique rf_channel_id (refunds db)"
    and "refund_of k db = Some f \<Longrightarrow> \<exists>r. channel_of k db = Some r \<and> refund_fits r f"
    and "channel_of k db = Some r \<Longrightarrow> ch_status r \<noteq> channel_status_str Open \<Longrightarrow> refund_of k db \<noteq> None"
  using assms unfolding refund_inv_def by blast+

lemma refund_fits_not_open: "refund_fits r f \<Longrightarrow> ch_status r \<noteq> channel_status_str Open"
  by (simp add: refund_fits_def)

definition same_obligation :: "channel_db_row \<Rightarrow> channel_db_row \<Rightarrow> bool" where
  "same_obligation r r' \<longleftrightarrow> ch_deposited r' = ch_deposited r \<and> ch_realized r' = ch_realized r
     \<and> ch_agent_wallet r' = ch_agent_wallet r \<and> ch_mint r' = ch_mint r \<and> ch_status r' = ch_status r"

lemma same_obligation_refl [simp]: "same_obligation r r"
  by (simp add: same_obligation_def)

lemma refund_fits_same: "same_obligation r r' \<Longrightarrow> refund_fits r f \<Longrightarrow> refund_fits r' f"
  by (simp add: same_obligation_def refund_fits_def)

text \<open>An operation on channels alone keeps the invariant when it leaves every closed channel's
  obligation alone and closes none.\<close>

lemma refund_inv_channels:
  assumes inv: "refund_inv db" and inv': "ledger_inv db'" and refs: "refunds db' = refunds db"
    and keep: "\<And>k r. channel_of k db = Some r \<Longrightarrow> ch_status r \<noteq> channel_status_str Open \<Longrightarrow>
      \<exists>r'. channel_of k db' = Some r' \<and> same_obligation r r'"
    and only: "\<And>k r'. channel_of k db' = Some r' \<Longrightarrow> ch_status r' \<noteq> channel_status_str Open \<Longrightarrow>
      \<exists>r. channel_of k db = Some r \<and> ch_status r \<noteq> channel_status_str Open"
  shows "refund_inv db'"
proof
  show "ledger_inv db'" "pk_unique rf_channel_id (refunds db')"
    using inv' refund_invD(2) [OF inv] refs by simp_all
next
  fix k f assume "refund_of k db' = Some f"
  then obtain r where "channel_of k db = Some r" "refund_fits r f"
    using refund_invD(3) [OF inv] refs by auto
  then show "\<exists>r. channel_of k db' = Some r \<and> refund_fits r f"
    using keep refund_fits_not_open refund_fits_same by blast
next
  fix k r assume "channel_of k db' = Some r" "ch_status r \<noteq> channel_status_str Open"
  then show "refund_of k db' \<noteq> None"
    using only refund_invD(4) [OF inv] refs by metis
qed

text \<open>An operation on one reservation keeps it when it rewrites neither the frozen tuple nor
  whether the refund is confirmed.\<close>

definition same_frozen :: "refund_db_row \<Rightarrow> refund_db_row \<Rightarrow> bool" where
  "same_frozen f f' \<longleftrightarrow> rf_channel_id f' = rf_channel_id f \<and> rf_amount f' = rf_amount f
     \<and> rf_destination_wallet f' = rf_destination_wallet f \<and> rf_mint f' = rf_mint f"

lemma same_frozen_refl [simp]: "same_frozen f f"
  by (simp add: same_frozen_def)

lemma same_frozen_trans: "same_frozen a b \<Longrightarrow> same_frozen b c \<Longrightarrow> same_frozen a c"
  by (simp add: same_frozen_def)

lemma refund_inv_rewrite:
  assumes inv: "refund_inv db" and f: "refund_of k db = Some f"
    and f': "same_frozen f f'"
      "rf_status f = refund_status_str Confirmed \<longleftrightarrow> rf_status f' = refund_status_str Confirmed"
    and chans: "channels db' = channels db" "channel_vouchers db' = channel_vouchers db"
    and refs: "refunds db' = replace_row rf_channel_id k f' (refunds db)"
  shows "refund_inv db'"
proof -
  have k: "rf_channel_id f' = k"
    using f' row_SomeD [OF f] by (simp add: same_frozen_def)
  have look: "refund_of k1 db' = (if k1 = k then Some f' else refund_of k1 db)" for k1
    using f by (simp add: refs row_replace_row k)
  show ?thesis
  proof
    show "ledger_inv db'"
      using refund_invD(1) [OF inv] ledger_inv_cong [OF chans] by simp
    show "pk_unique rf_channel_id (refunds db')"
      using refund_invD(2) [OF inv] by (simp add: refs pk_unique_replace_row k)
  next
    fix k1 f1 assume "refund_of k1 db' = Some f1"
    with f' f show "\<exists>r. channel_of k1 db' = Some r \<and> refund_fits r f1"
      using refund_invD(3) [OF inv, of k1]
      by (cases "k1 = k") (auto simp: look chans(1) refund_fits_def same_frozen_def)
  next
    fix k1 r assume "channel_of k1 db' = Some r" "ch_status r \<noteq> channel_status_str Open"
    then show "refund_of k1 db' \<noteq> None"
      using refund_invD(4) [OF inv, of k1 r] by (auto simp: look chans(1))
  qed
qed

section \<open>Channel operations under the refund invariant\<close>


lemma create_channel_refund_inv:
  assumes inv: "refund_inv db"
  shows "refund_inv (snd (create_channel cr ft ch db))"
proof (cases "create_channel cr ft ch db")
  case (Pair res db')
  from Pair show ?thesis
  proof (cases rule: create_channel_cases)
    case (created r)
    have look: "channel_of k db' = (if k = ch_channel_id r then Some r else channel_of k db)" for k
      using created by (auto simp: row_append split: option.splits)
    have "ledger_inv db'"
      using create_channel_inv [OF refund_invD(1) [OF inv], of cr ft ch] Pair by simp
    moreover have "refunds db' = refunds db"
      using created by simp
    ultimately have "refund_inv db'"
      using created(2) new_channel_row_Inr [OF created(1)]
      by (intro refund_inv_channels [OF inv]) (auto simp: look split: if_splits)
    then show ?thesis using Pair by simp
  qed (use inv Pair in simp)
qed

lemma persist_refund_inv:
  assumes inv: "refund_inv db"
  shows "refund_inv (snd (persist_voucher_and_advance ft v db))"
proof (cases "persist_voucher_and_advance ft v db")
  case (Pair res db')
  from refund_invD(1) [OF inv] Pair show ?thesis
  proof (cases rule: persist_cases)
    case (advance r w)
    have look: "channel_of k db' = (if k = vo_channel_id v then Some (advanced v r)
        else channel_of k db)" for k
      using advance row_SomeD [OF advance(1)] by (simp add: row_replace_row)
    have "ledger_inv db'"
      using persist_inv [OF refund_invD(1) [OF inv], of ft v] Pair by simp
    moreover have "refunds db' = refunds db"
      using advance by simp
    ultimately have "refund_inv db'"
      using advance(1,3)
      by (intro refund_inv_channels [OF inv]) (auto simp: look split: if_splits)
    then show ?thesis using Pair by simp
  qed (use inv Pair in simp)
qed

lemma update_settled_refund_inv:
  assumes inv: "refund_inv db"
  shows "refund_inv (snd (update_settled ft k n db))"
proof (cases "update_settled ft k n db")
  case (Pair res db')
  from refund_invD(1) [OF inv] Pair show ?thesis
  proof (cases rule: update_settled_cases)
    case (settled r)
    have look: "channel_of k1 db' = (if k1 = k then Some (r\<lparr>ch_settled := uint n\<rparr>)
        else channel_of k1 db)" for k1
      using settled row_SomeD [OF settled(1)] by (simp add: row_replace_row)
    have "ledger_inv db'"
      using update_settled_inv [OF refund_invD(1) [OF inv], of ft k n] Pair by simp
    moreover have "refunds db' = refunds db"
      using settled by simp
    ultimately have "refund_inv db'"
      using settled(1)
      by (intro refund_inv_channels [OF inv])
        (auto simp: look same_obligation_def split: if_splits)
    then show ?thesis using Pair by simp
  qed (use inv Pair in simp)
qed

section \<open>Outcomes of the refund operations\<close>

lemma refund_cas_cases:
  assumes pk: "pk_unique rf_channel_id (refunds db)" and eq: "refund_cas ft k g u db = (res, db')"
  obtains (unchanged) "db' = db" "res \<noteq> Inr True"
    | (hit) f f' where "refund_of k db = Some f" "g f" "u f = Inr f'"
        "db' = db\<lparr>refunds := replace_row rf_channel_id k f' (refunds db)\<rparr>"
proof (cases "\<exists>f f'. refund_of k db = Some f \<and> g f \<and> u f = Inr f'")
  case True
  then obtain f f' where "refund_of k db = Some f" "g f" "u f = Inr f'" by blast
  with eq pk show thesis
    by (auto simp: refund_cas_def keyed_cas_def sql_update_keyed commit_def split: if_splits
        intro: unchanged hit)
next
  case False
  with eq pk show thesis
    by (intro unchanged) (auto simp: refund_cas_def keyed_cas_def sql_update_keyed commit_def
        split: if_splits option.splits sum.splits)
qed

lemma refund_cas_inv:
  assumes inv: "refund_inv db"
    and u: "\<And>f f'. g f \<Longrightarrow> u f = Inr f' \<Longrightarrow> same_frozen f f'
      \<and> (rf_status f = refund_status_str Confirmed \<longleftrightarrow> rf_status f' = refund_status_str Confirmed)"
  shows "refund_inv (snd (refund_cas ft k g u db))"
proof (cases "refund_cas ft k g u db")
  case (Pair res db')
  from refund_invD(2) [OF inv] Pair show ?thesis
  proof (cases rule: refund_cas_cases)
    case (hit f f')
    with u [OF hit(2,3)] Pair show ?thesis
      by (intro refund_inv_rewrite [OF inv hit(1)]) auto
  qed (use inv Pair in simp)
qed

lemma bump_attempts_Inr: "bump_attempts f = Inr f' \<Longrightarrow> f' = f\<lparr>rf_attempts := rf_attempts f + 1\<rparr>"
  by (auto simp: bump_attempts_def split: if_splits)

lemma resign_refund_inv:
  "refund_inv db \<Longrightarrow> refund_inv (snd (resign_refund ft now k old tx sig h db))"
  by (auto simp: resign_refund_def same_frozen_def split: sum.splits dest!: bump_attempts_Inr
      intro!: refund_cas_inv)

lemma hold_refund_inv: "refund_inv db \<Longrightarrow> refund_inv (snd (hold_refund ft now k g db))"
  unfolding hold_refund_def
  by (rule refund_cas_inv) (cases g; auto simp: same_frozen_def)+

lemma mark_broadcast_accepted_inv:
  "refund_inv db \<Longrightarrow> refund_inv (snd (mark_broadcast_accepted ft now k sig db))"
  by (auto simp: mark_broadcast_accepted_def same_frozen_def snd_map_prod intro!: refund_cas_inv)

lemma rearm_refund_inv: "refund_inv db \<Longrightarrow> refund_inv (snd (rearm_refund ft k db))"
  unfolding rearm_refund_def by (rule refund_cas_inv) (auto simp: same_frozen_def)

text \<open>A claim either changes nothing or persists this caller's bytes on a reserved row, under the
  cap.\<close>

abbreviation claimed :: "int \<Rightarrow> refund_claim \<Rightarrow> refund_db_row \<Rightarrow> refund_db_row" where
  "claimed now c f \<equiv> (claimed_row now c (uint (rc_last_valid_block_height c)) f)
     \<lparr>rf_attempts := rf_attempts f + 1\<rparr>"

lemma claim_cases:
  assumes pk: "pk_unique rf_channel_id (refunds db)"
    and eq: "claim_refund_for_broadcast ft now c db = (res, db')"
  obtains (unchanged) "db' = db" "res \<noteq> Inr Won"
    | (won) f where "refund_of (rc_channel_id c) db = Some f"
        "rf_status f = refund_status_str Reserved" "claim_cap_check ft now c db = Inr True"
        "db' = db\<lparr>refunds := replace_row rf_channel_id (rc_channel_id c) (claimed now c f) (refunds db)\<rparr>"
        "res = Inr Won \<or> stmt_fails ft 4 \<and> commit_applies ft"
proof (cases "db' = db \<and> res \<noteq> Inr Won")
  case True
  then show thesis using unchanged by blast
next
  case False
  with eq obtain h refs where cap: "claim_cap_check ft now c db = Inr True"
    and h: "atomic_to_i64 (rc_last_valid_block_height c) = Inr h"
    and cas: "keyed_cas rf_channel_id (rc_channel_id c) (\<lambda>f. rf_status f = refund_status_str Reserved)
       (\<lambda>f. bump_attempts (claimed_row now c h f)) (refunds db) = Inr (1, refs)"
    and com: "commit ft 4 (refund_db_error ConnectionFault) Won db (db\<lparr>refunds := refs\<rparr>) = (res, db')"
    by (auto simp: claim_refund_for_broadcast_def split: sum.splits prod.splits if_splits bool.splits)
  from cas obtain f f' where f: "refund_of (rc_channel_id c) db = Some f"
    "rf_status f = refund_status_str Reserved" "bump_attempts (claimed_row now c h f) = Inr f'"
    "refs = replace_row rf_channel_id (rc_channel_id c) f' (refunds db)"
    by (auto elim!: keyed_cas_Inr [OF pk])
  have f': "f' = claimed now c f"
    using bump_attempts_Inr [OF f(3)] h by (simp add: atomic_to_i64_Inr_iff claimed_row_def)
  from com show thesis
  proof (cases rule: commit_cases)
    case kept
    with False show thesis by simp
  next
    case applied
    with f f' cap show thesis by (intro won) auto
  qed
qed

lemma claim_inv:
  assumes inv: "refund_inv db"
  shows "refund_inv (snd (claim_refund_for_broadcast ft now c db))"
proof (cases "claim_refund_for_broadcast ft now c db")
  case (Pair res db')
  from refund_invD(2) [OF inv] Pair show ?thesis
  proof (cases rule: claim_cases)
    case (won f)
    with Pair show ?thesis
      by (intro refund_inv_rewrite [OF inv won(1), where f' = "claimed now c f"])
        (auto simp: same_frozen_def claimed_row_def)
  qed (use inv Pair in simp)
qed

lemma replace_row_same:
  "pk_unique key t \<Longrightarrow> row key k t = Some r \<Longrightarrow> replace_row key k r t = t"
  unfolding replace_row_def by (rule map_idI) (auto dest: pk_unique_row)

lemma checks_status [simp]:
  "channel_checks r \<Longrightarrow> channel_checks (r\<lparr>ch_status := channel_status_str st\<rparr>)"
  by (cases st) (auto simp: channel_checks_def)

text \<open>Confirmation closes the channel in the same transaction.\<close>

lemma confirm_cases:
  assumes inv: "refund_inv db"
    and eq: "confirm_refund_and_close_channel ft now k from_status db = (res, db')"
  obtains (unchanged) "db' = db" "res \<noteq> Inr True"
    | (confirmed) f r where "refund_of k db = Some f" "rf_status f = refund_status_str from_status"
        "channel_of k db = Some r" "refund_fits r f"
        "db' = db\<lparr>channels := replace_row ch_channel_id k
                   (r\<lparr>ch_status := channel_status_str Closed\<rparr>) (channels db),
                 refunds := replace_row rf_channel_id k
                   (f\<lparr>rf_status := refund_status_str Confirmed, rf_updated_at := now\<rparr>) (refunds db)\<rparr>"
proof (cases "db' = db \<and> res \<noteq> Inr True")
  case True
  then show thesis using unchanged by blast
next
  case False
  let ?close = "\<lambda>r. check_row (r\<lparr>ch_status := channel_status_str Closed\<rparr>)"
  from eq False obtain refs n chans where
    cas: "keyed_cas rf_channel_id k (\<lambda>f. rf_status f = refund_status_str from_status)
       (\<lambda>f. Inr (f\<lparr>rf_status := refund_status_str Confirmed, rf_updated_at := now\<rparr>))
       (refunds db) = Inr (1, refs)"
    and chs: "keyed_cas ch_channel_id k (\<lambda>r. ch_status r = channel_status_str Closing) ?close
       (channels db) = Inr (n, chans)"
    and com: "commit ft 3 (refund_db_error ConnectionFault) True db
       (db\<lparr>channels := chans, refunds := refs\<rparr>) = (res, db')"
    by (auto simp: confirm_refund_and_close_channel_def split: sum.splits prod.splits if_splits)
  from cas obtain f where f: "refund_of k db = Some f" "rf_status f = refund_status_str from_status"
    "refs = replace_row rf_channel_id k
       (f\<lparr>rf_status := refund_status_str Confirmed, rf_updated_at := now\<rparr>) (refunds db)"
    by (auto elim!: keyed_cas_Inr [OF refund_invD(2) [OF inv]])
  then obtain r where r: "channel_of k db = Some r" "refund_fits r f"
    using refund_invD(3) [OF inv] by blast
  note pk = ledger_invD(1) [OF refund_invD(1) [OF inv]]
  have "chans = replace_row ch_channel_id k (r\<lparr>ch_status := channel_status_str Closed\<rparr>) (channels db)"
  proof (cases "ch_status r = channel_status_str Closing")
    case True
    with chs pk r(1) ledger_invD(2) [OF refund_invD(1) [OF inv] r(1)] show ?thesis
      using checks_status [of r Closed]
      by (auto simp: keyed_cas_def sql_update_keyed check_row_def)
  next
    case ne: False
    with r(2) have "ch_status r = channel_status_str Closed"
      by (auto simp: refund_fits_def split: if_splits)
    then have "r\<lparr>ch_status := channel_status_str Closed\<rparr> = r" by simp
    with chs pk r(1) ne show ?thesis
      by (auto simp: keyed_cas_def sql_update_keyed replace_row_same [OF pk r(1)])
  qed
  with com False f r show thesis
    by (cases rule: commit_cases) (auto intro: confirmed)
qed

lemma confirm_inv:
  assumes inv: "refund_inv db"
  shows "refund_inv (snd (confirm_refund_and_close_channel ft now k from_status db))"
proof (cases "confirm_refund_and_close_channel ft now k from_status db")
  case (Pair res db')
  from inv Pair show ?thesis
  proof (cases rule: confirm_cases)
    case (confirmed f r)
    let ?r = "r\<lparr>ch_status := channel_status_str Closed\<rparr>"
      and ?f = "f\<lparr>rf_status := refund_status_str Confirmed, rf_updated_at := now\<rparr>"
    have keys: "ch_channel_id ?r = k" "rf_channel_id ?f = k"
      using row_SomeD [OF confirmed(1)] row_SomeD [OF confirmed(3)] by simp_all
    have chan: "channel_of k1 db' = (if k1 = k then Some ?r else channel_of k1 db)" for k1
      using confirmed(3,5) keys by (simp add: row_replace_row)
    have ref: "refund_of k1 db' = (if k1 = k then Some ?f else refund_of k1 db)" for k1
      using confirmed(1,5) keys by (simp add: row_replace_row)
    have "refund_inv db'"
    proof
      show "ledger_inv db'"
        using confirmed keys ledger_invD(2) [OF refund_invD(1) [OF inv] confirmed(3)]
          checks_status [of r Closed]
        by (intro ledger_inv_rewrite [OF refund_invD(1) [OF inv] confirmed(3), where r' = ?r]) auto
      show "pk_unique rf_channel_id (refunds db')"
        using refund_invD(2) [OF inv] confirmed(5) keys by (simp add: pk_unique_replace_row)
      show "\<exists>r. channel_of k1 db' = Some r \<and> refund_fits r f1" if "refund_of k1 db' = Some f1" for k1 f1
        using that confirmed(4) refund_invD(3) [OF inv, of k1]
        by (cases "k1 = k") (auto simp: ref chan refund_fits_def)
      show "refund_of k1 db' \<noteq> None"
        if "channel_of k1 db' = Some r1" "ch_status r1 \<noteq> channel_status_str Open" for k1 r1
        using that refund_invD(4) [OF inv, of k1 r1] by (cases "k1 = k") (auto simp: ref chan)
    qed
    with Pair show ?thesis by simp
  qed (use inv Pair in simp)
qed

text \<open>The amounts of a close are always representable.\<close>

lemma compute_refundable_exact:
  assumes "uint realized \<le> uint deposited"
  shows "\<exists>d. compute_refundable deposited realized = Inr d \<and> uint d = uint deposited - uint realized"
  using assms uint_sub_lem [of realized deposited]
  by (auto simp: compute_refundable_def checked_sub_def word_le_def)

lemma close_amounts:
  assumes "ledger_inv db" "channel_of k db = Some r"
  obtains dep se re d where "i64_to_atomic (ch_deposited r) = Inr dep" "uint dep = ch_deposited r"
    "i64_to_atomic (ch_settled r) = Inr se" "uint se = ch_settled r"
    "i64_to_atomic (ch_realized r) = Inr re" "compute_refundable dep re = Inr d"
    "uint d = ch_deposited r - ch_realized r"
    "atomic_to_i64 d = Inr (ch_deposited r - ch_realized r)"
proof -
  note ch = channel_chain [OF assms]
  obtain dep where dep: "i64_to_atomic (ch_deposited r) = Inr dep" "uint dep = ch_deposited r"
    using i64_to_atomic_in_range [of "ch_deposited r"] ch by auto
  obtain se where se: "i64_to_atomic (ch_settled r) = Inr se" "uint se = ch_settled r"
    using i64_to_atomic_in_range [of "ch_settled r"] ch by auto
  obtain re where re: "i64_to_atomic (ch_realized r) = Inr re" "uint re = ch_realized r"
    using i64_to_atomic_in_range [of "ch_realized r"] ch by auto
  obtain d where d: "compute_refundable dep re = Inr d" "uint d = ch_deposited r - ch_realized r"
    using compute_refundable_exact [of re dep] dep re ch by auto
  with ch have "atomic_to_i64 d = Inr (ch_deposited r - ch_realized r)"
    by (simp add: atomic_to_i64_def)
  with dep se re d show thesis by (intro that) auto
qed

lemma flip_open:
  assumes inv: "ledger_inv db" and r: "channel_of k db = Some r"
    and st: "ch_status r = channel_status_str Open"
  shows "flip_open_to_closing ft k db = Inr (r\<lparr>ch_status := channel_status_str Closing\<rparr>,
    channel_status_str Closing,
    replace_row ch_channel_id k (r\<lparr>ch_status := channel_status_str Closing\<rparr>) (channels db))"
proof -
  have "check_row (r\<lparr>ch_status := channel_status_str Closing\<rparr>)
      = Inr (r\<lparr>ch_status := channel_status_str Closing\<rparr>)"
    using ledger_invD(2) [OF inv r] checks_status [of r Closing] by (simp add: check_row_def)
  then show ?thesis
    using ledger_invD(1) [OF inv] r st row_SomeD [OF r]
    by (simp add: flip_open_to_closing_def keyed_cas_def sql_update_keyed row_replace_row)
qed

lemma flip_not_open:
  assumes inv: "ledger_inv db" and st: "\<And>r. channel_of k db = Some r \<Longrightarrow> ch_status r \<noteq> channel_status_str Open"
  shows "flip_open_to_closing ft k db =
    (if stmt_fails ft 2 then Inl (refund_db_error ConnectionFault)
     else case channel_of k db of None \<Rightarrow> Inl (Repo ChannelNotFound)
          | Some r \<Rightarrow> Inr (r, ch_status r, channels db))"
  using ledger_invD(1) [OF inv] st
  by (auto simp: flip_open_to_closing_def keyed_cas_def sql_update_keyed split: option.splits)

definition frozen_row :: "int \<Rightarrow> string \<Rightarrow> channel_db_row \<Rightarrow> refund_db_row" where
  "frozen_row now k r = new_refund_row now k (ch_deposited r - ch_realized r) r"

lemma insert_refund_frozen:
  assumes "ledger_inv db" "channel_of k db = Some r"
  shows "insert_refund (frozen_row now k r) db =
    Inr (if refund_of k db = None then refunds db @ [frozen_row now k r] else refunds db)"
  using channel_chain [OF assms] assms(2)
  by (simp add: insert_refund_def frozen_row_def new_refund_row_def refund_checks_def)

text \<open>A close on an open channel freezes the remainder; on a closed one it only reports.\<close>

lemma close_open:
  assumes inv: "refund_inv db" and r: "channel_of k db = Some r"
    and st: "ch_status r = channel_status_str Open"
    and eq: "close_channel_and_reserve_refund ft now k db = (res, db')"
  obtains (unchanged) e where "db' = db" "res = Inl e" "ft \<noteq> no_faults"
    | (frozen) out where "co_channel_status out = channel_status_str Closing"
        "uint (co_deposited_atomic out) = ch_deposited r" "uint (co_settled_atomic out) = ch_settled r"
        "uint (co_refundable_atomic out) = ch_deposited r - ch_realized r"
        "co_refund_status out = refund_status_str Reserved" "co_tx_signature out = None"
        "db' = db\<lparr>channels := replace_row ch_channel_id k
              (r\<lparr>ch_status := channel_status_str Closing\<rparr>) (channels db),
            refunds := refunds db @ [frozen_row now k r]\<rparr>"
        "res = Inr out \<or> stmt_fails ft 5 \<and> commit_applies ft"
proof -
  note linv = refund_invD(1) [OF inv]
  have none: "refund_of k db = None"
    using refund_invD(3) [OF inv, of k] r st refund_fits_not_open by (cases "refund_of k db") auto
  note flip = flip_open [OF linv r st]
  from close_amounts [OF linv r] obtain dep se re d where
    a: "i64_to_atomic (ch_deposited r) = Inr dep" "uint dep = ch_deposited r"
    "i64_to_atomic (ch_settled r) = Inr se" "uint se = ch_settled r"
    "i64_to_atomic (ch_realized r) = Inr re" "compute_refundable dep re = Inr d"
    "uint d = ch_deposited r - ch_realized r"
    "atomic_to_i64 d = Inr (ch_deposited r - ch_realized r)" .
  have "new_refund_row now k (ch_deposited r - ch_realized r) (r\<lparr>ch_status := s\<rparr>) = frozen_row now k r" for s
    by (simp add: frozen_row_def new_refund_row_def)
  then have ins: "insert_refund (new_refund_row now k (ch_deposited r - ch_realized r)
      (r\<lparr>ch_status := channel_status_str Closing\<rparr>)) db = Inr (refunds db @ [frozen_row now k r])"
    using insert_refund_frozen [OF linv r, of now] none by simp
  have rw: "row rf_channel_id k (refunds db @ [frozen_row now k r]) = Some (frozen_row now k r)"
    using none by (simp add: row_append frozen_row_def new_refund_row_def)
  let ?out = "\<lparr>co_channel_status = channel_status_str Closing, co_deposited_atomic = dep,
     co_settled_atomic = se, co_refundable_atomic = d,
     co_refund_status = refund_status_str Reserved, co_tx_signature = None\<rparr>"
  show thesis
  proof (cases "db' = db \<and> (\<exists>e. res = Inl e) \<and> ft \<noteq> no_faults")
    case True
    then show thesis using unchanged by blast
  next
    case False
    with eq flip a ins rw have "commit ft 5 (refund_db_error ConnectionFault) ?out db
      (db\<lparr>channels := replace_row ch_channel_id k
         (r\<lparr>ch_status := channel_status_str Closing\<rparr>) (channels db),
          refunds := refunds db @ [frozen_row now k r]\<rparr>) = (res, db')"
      by (auto simp: close_channel_and_reserve_refund_def no_faults_def frozen_row_def
          new_refund_row_def split: if_splits)
    with False a show thesis
      by (intro frozen [of ?out]) (auto simp: commit_def no_faults_def split: if_splits)
  qed
qed

lemma close_not_open:
  assumes inv: "refund_inv db" and r: "channel_of k db = Some r"
    and st: "ch_status r \<noteq> channel_status_str Open"
    and eq: "close_channel_and_reserve_refund ft now k db = (res, db')"
  obtains (failed) e where "db' = db" "res = Inl e" "ft \<noteq> no_faults"
    | (again) f out where "refund_of k db = Some f" "db' = db" "res = Inr out"
        "co_channel_status out = ch_status r"
        "uint (co_deposited_atomic out) = ch_deposited r" "uint (co_settled_atomic out) = ch_settled r"
        "uint (co_refundable_atomic out) = ch_deposited r - ch_realized r"
        "co_refund_status out = rf_status f" "co_tx_signature out = rf_tx_signature f"
proof -
  note linv = refund_invD(1) [OF inv]
  from refund_invD(4) [OF inv r st] obtain f where f: "refund_of k db = Some f" by blast
  have flip: "flip_open_to_closing ft k db = (if stmt_fails ft 2
      then Inl (refund_db_error ConnectionFault) else Inr (r, ch_status r, channels db))"
    using flip_not_open [OF linv, of k ft] r st by simp
  from close_amounts [OF linv r] obtain dep se re d where
    a: "i64_to_atomic (ch_deposited r) = Inr dep" "uint dep = ch_deposited r"
    "i64_to_atomic (ch_settled r) = Inr se" "uint se = ch_settled r"
    "i64_to_atomic (ch_realized r) = Inr re" "compute_refundable dep re = Inr d"
    "uint d = ch_deposited r - ch_realized r"
    "atomic_to_i64 d = Inr (ch_deposited r - ch_realized r)" .
  have ins: "insert_refund (new_refund_row now k (ch_deposited r - ch_realized r) r) db
      = Inr (refunds db)"
    using insert_refund_frozen [OF linv r, of now] f by (simp add: frozen_row_def)
  show thesis
  proof (cases "db' = db \<and> (\<exists>e. res = Inl e) \<and> ft \<noteq> no_faults")
    case True
    then show thesis using failed by blast
  next
    case False
    with eq flip a ins f show thesis
      by (intro again [OF f, of "\<lparr>co_channel_status = ch_status r, co_deposited_atomic = dep,
            co_settled_atomic = se, co_refundable_atomic = d, co_refund_status = rf_status f,
            co_tx_signature = rf_tx_signature f\<rparr>"])
        (auto simp: close_channel_and_reserve_refund_def commit_def no_faults_def split: if_splits)
  qed
qed

lemma close_missing:
  assumes "ledger_inv db" "channel_of k db = None"
  shows "\<exists>e. close_channel_and_reserve_refund ft now k db = (Inl e, db)"
  using flip_not_open [OF assms(1), of k ft] assms(2)
  by (auto simp: close_channel_and_reserve_refund_def)

lemma close_inv:
  assumes inv: "refund_inv db"
  shows "refund_inv (snd (close_channel_and_reserve_refund ft now k db))"
proof (cases "channel_of k db")
  case None
  with inv show ?thesis using close_missing [OF refund_invD(1) [OF inv] None, of ft now] by auto
next
  case (Some r)
  obtain res db' where eq: "close_channel_and_reserve_refund ft now k db = (res, db')" by fastforce
  show ?thesis
  proof (cases "ch_status r = channel_status_str Open")
    case False
    from inv Some False eq show ?thesis by (rule close_not_open) (use inv eq in simp_all)
  next
    case True
    from inv Some True eq show ?thesis
    proof (cases rule: close_open)
      case (frozen out)
      let ?r = "r\<lparr>ch_status := channel_status_str Closing\<rparr>"
      have key: "ch_channel_id ?r = k" "rf_channel_id (frozen_row now k r) = k"
        using row_SomeD [OF Some] by (simp_all add: frozen_row_def new_refund_row_def)
      have none: "refund_of k db = None"
        using refund_invD(3) [OF inv, of k] Some True refund_fits_not_open
        by (cases "refund_of k db") auto
      have chan: "channel_of k1 db' = (if k1 = k then Some ?r else channel_of k1 db)" for k1
        using frozen(7) Some key by (simp add: row_replace_row)
      have ref: "refund_of k1 db' = (if k1 = k then Some (frozen_row now k r) else refund_of k1 db)" for k1
        using frozen(7) none key by (auto simp: row_append split: option.splits)
      have "refund_inv db'"
      proof
        show "ledger_inv db'"
          using frozen(7) key ledger_invD(2) [OF refund_invD(1) [OF inv] Some]
            checks_status [of r Closing]
          by (intro ledger_inv_rewrite [OF refund_invD(1) [OF inv] Some, where r' = ?r]) auto
        show "pk_unique rf_channel_id (refunds db')"
          using frozen(7) refund_invD(2) [OF inv] none key by (simp add: pk_unique_append_row)
        show "\<exists>r. channel_of k1 db' = Some r \<and> refund_fits r f1" if "refund_of k1 db' = Some f1" for k1 f1
          using that refund_invD(3) [OF inv, of k1]
          by (cases "k1 = k") (auto simp: ref chan refund_fits_def frozen_row_def new_refund_row_def)
        show "refund_of k1 db' \<noteq> None"
          if "channel_of k1 db' = Some r1" "ch_status r1 \<noteq> channel_status_str Open" for k1 r1
          using that refund_invD(4) [OF inv, of k1 r1] by (cases "k1 = k") (auto simp: ref chan)
      qed
      with eq show ?thesis by simp
    qed (use inv eq in simp)
  qed
qed

section \<open>The refund lifecycle as a transition system\<close>

text \<open>Every call the gateway makes, by any instance, in any order and with any fault, and the
  operator's re-arm. (\<open>set_status\<close> has no caller outside the tests and would reopen a closed
  channel.)\<close>

definition refund_init :: "'a refund_ledger_scheme \<Rightarrow> bool" where
  "refund_init db \<longleftrightarrow> ledger_init db \<and> refunds db = []"

inductive refund_step :: "'a refund_ledger_scheme \<Rightarrow> 'a refund_ledger_scheme \<Rightarrow> bool" where
  rs_create: "refund_step db (snd (create_channel cr ft ch db))"
| rs_persist: "refund_step db (snd (persist_voucher_and_advance ft v db))"
| rs_settle: "refund_step db (snd (update_settled ft k n db))"
| rs_close: "refund_step db (snd (close_channel_and_reserve_refund ft now k db))"
| rs_claim: "refund_step db (snd (claim_refund_for_broadcast ft now c db))"
| rs_confirm: "refund_step db (snd (confirm_refund_and_close_channel ft now k from_status db))"
| rs_resign: "refund_step db (snd (resign_refund ft now k old tx sig h db))"
| rs_hold: "refund_step db (snd (hold_refund ft now k g db))"
| rs_mark: "refund_step db (snd (mark_broadcast_accepted ft now k sig db))"
| rs_rearm: "refund_step db (snd (rearm_refund ft k db))"

inductive_cases refund_stepE: "refund_step db db'"

lemmas refund_ops_inv =
  create_channel_refund_inv persist_refund_inv update_settled_refund_inv close_inv claim_inv
  confirm_inv resign_refund_inv hold_refund_inv mark_broadcast_accepted_inv rearm_refund_inv

lemma refund_inv_init: "refund_init db \<Longrightarrow> refund_inv db"
  using ledger_inv_init by (auto simp: refund_init_def refund_inv_def ledger_init_def pk_unique_def)

lemma refund_inv_step: "refund_inv db \<Longrightarrow> refund_step db db' \<Longrightarrow> refund_inv db'"
  by (auto elim!: refund_stepE intro: refund_ops_inv)

interpretation refund: inv_system refund_init refund_step refund_inv
  by unfold_locales (auto intro: refund_inv_init refund_inv_step)

text \<open>A reservation, once made, keeps its frozen tuple.\<close>

definition refunds_frozen :: "'a refund_ledger_scheme \<Rightarrow> 'b refund_ledger_scheme \<Rightarrow> bool" where
  "refunds_frozen db db' \<longleftrightarrow> (\<forall>k f. refund_of k db = Some f \<longrightarrow>
     (\<exists>f'. refund_of k db' = Some f' \<and> same_frozen f f'))"

lemma refunds_frozen_same: "refunds db' = refunds db \<Longrightarrow> refunds_frozen db db'"
  by (simp add: refunds_frozen_def)

lemma refunds_frozen_trans: "refunds_frozen a b \<Longrightarrow> refunds_frozen b c \<Longrightarrow> refunds_frozen a c"
  unfolding refunds_frozen_def by (blast intro: same_frozen_trans)

lemma refunds_frozen_replace:
  assumes "refund_of k db = Some f" "same_frozen f f'"
    and "refunds db' = replace_row rf_channel_id k f' (refunds db)"
  shows "refunds_frozen db db'"
proof -
  have "rf_channel_id f' = k"
    using assms(2) row_SomeD [OF assms(1)] by (simp add: same_frozen_def)
  then have "refund_of k1 db' = (if k1 = k then Some f' else refund_of k1 db)" for k1
    using assms(1) by (simp add: assms(3) row_replace_row)
  with assms(1,2) show ?thesis
    unfolding refunds_frozen_def by (auto intro: same_frozen_refl)
qed

lemma refund_cas_frozen:
  assumes inv: "refund_inv db" and u: "\<And>f f'. g f \<Longrightarrow> u f = Inr f' \<Longrightarrow> same_frozen f f'"
  shows "refunds_frozen db (snd (refund_cas ft k g u db))"
proof (cases "refund_cas ft k g u db")
  case (Pair res db')
  from refund_invD(2) [OF inv] Pair show ?thesis
  proof (cases rule: refund_cas_cases)
    case (hit f f')
    with u [OF hit(2,3)] Pair show ?thesis
      by (intro refunds_frozen_replace [OF hit(1)]) auto
  qed (use Pair in \<open>simp add: refunds_frozen_same\<close>)
qed

lemma channel_ops_frozen:
  "refunds_frozen db (snd (create_channel cr ft ch db))"
  "refund_inv db \<Longrightarrow> refunds_frozen db (snd (persist_voucher_and_advance ft v db))"
  "refund_inv db \<Longrightarrow> refunds_frozen db (snd (update_settled ft k n db))"
proof -
  show "refunds_frozen db (snd (create_channel cr ft ch db))"
  proof (cases "create_channel cr ft ch db")
    case (Pair res db')
    then show ?thesis
      by (rule create_channel_cases) (simp_all add: Pair refunds_frozen_same)
  qed
next
  assume inv: "refund_inv db"
  show "refunds_frozen db (snd (persist_voucher_and_advance ft v db))"
  proof (cases "persist_voucher_and_advance ft v db")
    case (Pair res db')
    with refund_invD(1) [OF inv] show ?thesis
      by (rule persist_cases) (simp_all add: Pair refunds_frozen_same)
  qed
  show "refunds_frozen db (snd (update_settled ft k n db))"
  proof (cases "update_settled ft k n db")
    case (Pair res db')
    with refund_invD(1) [OF inv] show ?thesis
      by (rule update_settled_cases) (simp_all add: Pair refunds_frozen_same)
  qed
qed

lemma cas_ops_frozen:
  assumes inv: "refund_inv db"
  shows "refunds_frozen db (snd (resign_refund ft now k old tx sig h db))"
    and "refunds_frozen db (snd (hold_refund ft now k g db))"
    and "refunds_frozen db (snd (mark_broadcast_accepted ft now k sig db))"
    and "refunds_frozen db (snd (rearm_refund ft k db))"
proof -
  show "refunds_frozen db (snd (resign_refund ft now k old tx sig h db))"
    by (auto simp: resign_refund_def same_frozen_def refunds_frozen_same split: sum.splits
        dest!: bump_attempts_Inr intro!: refund_cas_frozen inv)
  show "refunds_frozen db (snd (hold_refund ft now k g db))"
    unfolding hold_refund_def by (rule refund_cas_frozen [OF inv]) (auto simp: same_frozen_def)
  show "refunds_frozen db (snd (mark_broadcast_accepted ft now k sig db))"
    by (auto simp: mark_broadcast_accepted_def snd_map_prod same_frozen_def
        intro!: refund_cas_frozen inv)
  show "refunds_frozen db (snd (rearm_refund ft k db))"
    unfolding rearm_refund_def by (rule refund_cas_frozen [OF inv]) (auto simp: same_frozen_def)
qed

lemma claim_frozen:
  assumes inv: "refund_inv db"
  shows "refunds_frozen db (snd (claim_refund_for_broadcast ft now c db))"
proof (cases "claim_refund_for_broadcast ft now c db")
  case (Pair res db')
  from refund_invD(2) [OF inv] Pair show ?thesis
  proof (cases rule: claim_cases)
    case (won f)
    with Pair show ?thesis
      by (intro refunds_frozen_replace [OF won(1), where f' = "claimed now c f"])
        (auto simp: same_frozen_def claimed_row_def)
  qed (simp add: Pair refunds_frozen_same)
qed

lemma confirm_frozen:
  assumes inv: "refund_inv db"
  shows "refunds_frozen db (snd (confirm_refund_and_close_channel ft now k from_status db))"
proof (cases "confirm_refund_and_close_channel ft now k from_status db")
  case (Pair res db')
  from inv Pair show ?thesis
  proof (cases rule: confirm_cases)
    case (confirmed f r)
    with Pair show ?thesis
      by (intro refunds_frozen_replace [OF confirmed(1)]) (auto simp: same_frozen_def)
  qed (simp add: Pair refunds_frozen_same)
qed

lemma close_frozen:
  assumes inv: "refund_inv db"
  shows "refunds_frozen db (snd (close_channel_and_reserve_refund ft now k db))"
proof (cases "channel_of k db")
  case None
  from close_missing [OF refund_invD(1) [OF inv] None, of ft now] show ?thesis
    by (auto simp: refunds_frozen_same)
next
  case (Some r)
  obtain res db' where eq: "close_channel_and_reserve_refund ft now k db = (res, db')" by fastforce
  show ?thesis
  proof (cases "ch_status r = channel_status_str Open")
    case True
    from inv Some True eq show ?thesis
      by (rule close_open) (simp_all add: eq refunds_frozen_def row_append)
  next
    case False
    from inv Some False eq show ?thesis
      by (rule close_not_open) (simp_all add: eq refunds_frozen_same)
  qed
qed

lemmas refund_ops_frozen =
  channel_ops_frozen close_frozen claim_frozen confirm_frozen cas_ops_frozen

lemma refund_step_frozen: "refund_inv db \<Longrightarrow> refund_step db db' \<Longrightarrow> refunds_frozen db db'"
  by (auto elim!: refund_stepE intro: refund_ops_frozen)

section \<open>Correctness of closing and refunding\<close>

text \<open>
  C4. In every reachable state a reservation is exactly what the agent did not spend: realized
  spend plus refund equals the deposit, it is owed to the wallet and in the mint the channel was
  opened with, and its channel is no longer open.
\<close>
theorem refund_conserves_deposit:
  assumes "reach refund_init refund_step db" and "refund_of k db = Some f"
  shows "\<exists>r. channel_of k db = Some r \<and> ch_realized r + rf_amount f = ch_deposited r
    \<and> 0 \<le> rf_amount f \<and> rf_amount f \<le> i64_max \<and> rf_destination_wallet f = ch_agent_wallet r
    \<and> rf_mint f = ch_mint r
    \<and> ch_status r = (if rf_status f = ''confirmed'' then ''closed'' else ''closing'')"
proof -
  note inv = refund.reach_inv [OF assms(1)]
  obtain r where r: "channel_of k db = Some r" "refund_fits r f"
    using refund_invD(3) [OF inv assms(2)] by blast
  with channel_chain [OF refund_invD(1) [OF inv] r(1)] show ?thesis
    by (auto simp: refund_fits_def)
qed

text \<open>
  The frozen send tuple of a reservation (amount, wallet, mint) never changes again, whatever
  instances, operators and faults do afterwards.
\<close>
theorem reservation_frozen_forever:
  assumes "reach refund_init refund_step db" and "refund_step\<^sup>*\<^sup>* db db'"
    and "refund_of k db = Some f"
  shows "\<exists>f'. refund_of k db' = Some f' \<and> rf_amount f' = rf_amount f
    \<and> rf_destination_wallet f' = rf_destination_wallet f \<and> rf_mint f' = rf_mint f"
proof -
  have "refunds_frozen db db'"
    using assms(2,1)
  proof (induction rule: converse_rtranclp_induct)
    case (step x y)
    then show ?case
      using refund_step_frozen refund.reach_inv reach_step refunds_frozen_trans by metis
  qed (simp add: refunds_frozen_same)
  with assms(3) show ?thesis
    by (auto simp: refunds_frozen_def same_frozen_def)
qed

text \<open>
  C22. Once an obligation is frozen no voucher can be charged to the channel any more: the draw
  fails and changes nothing.
\<close>
theorem no_draw_after_close:
  assumes "reach refund_init refund_step db" and "refund_of (vo_channel_id v) db \<noteq> None"
  shows "\<exists>e. persist_voucher_and_advance ft v db = (Inl e, db)"
proof -
  note inv = refund.reach_inv [OF assms(1)]
  obtain res db' where eq: "persist_voucher_and_advance ft v db = (res, db')" by fastforce
  from refund_invD(1) [OF inv] eq show ?thesis
  proof (cases rule: persist_cases)
    case (advance r w)
    with assms(2) refund_invD(3) [OF inv, of "vo_channel_id v"] refund_fits_not_open show ?thesis
      by auto
  qed (use eq in auto)
qed

text \<open>
  A close of an existing channel always completes on a working database: it reports exactly
  the unspent remainder, leaves the channel not open and a reservation of that amount in place.
\<close>
theorem close_freezes_remainder:
  assumes "reach refund_init refund_step db" and "channel_of k db = Some r"
  shows "\<exists>out db' f r'. close_channel_and_reserve_refund no_faults now k db = (Inr out, db')
    \<and> uint (co_refundable_atomic out) = ch_deposited r - ch_realized r
    \<and> refund_of k db' = Some f \<and> rf_amount f = ch_deposited r - ch_realized r
    \<and> rf_status f = co_refund_status out \<and> rf_tx_signature f = co_tx_signature out
    \<and> channel_of k db' = Some r' \<and> ch_status r' \<noteq> ''open''"
proof -
  note inv = refund.reach_inv [OF assms(1)]
  obtain res db' where eq: "close_channel_and_reserve_refund no_faults now k db = (res, db')"
    by fastforce
  show ?thesis
  proof (cases "ch_status r = channel_status_str Open")
    case True
    have none: "refund_of k db = None"
      using refund_invD(3) [OF inv, of k] assms(2) True refund_fits_not_open
      by (cases "refund_of k db") auto
    from inv assms(2) True eq show ?thesis
    proof (cases rule: close_open)
      case (frozen out)
      with eq none assms(2) row_SomeD [OF assms(2)] show ?thesis
        by (intro exI [of _ out] exI [of _ db'] exI [of _ "frozen_row now k r"]
            exI [of _ "r\<lparr>ch_status := channel_status_str Closing\<rparr>"])
          (auto simp: no_faults_def row_append row_replace_row frozen_row_def new_refund_row_def)
    qed simp
  next
    case False
    from inv assms(2) False eq show ?thesis
    proof (cases rule: close_not_open)
      case (again f out)
      from refund_invD(3) [OF inv again(1)] assms(2)
      have "rf_amount f = ch_deposited r - ch_realized r" by (auto simp: refund_fits_def)
      with again eq assms(2) False show ?thesis
        by (intro exI [of _ out] exI [of _ db] exI [of _ f] exI [of _ r]) auto
    qed simp
  qed
qed

text \<open>
  A claim has a single winner: after one instance's bytes were persisted, every later claim
  for the same channel, with whatever bytes, changes nothing and is not told it won.
\<close>
theorem claim_single_winner:
  assumes "reach refund_init refund_step db"
    and "claim_refund_for_broadcast ft now c db = (Inr Won, db')"
    and "rc_channel_id c' = rc_channel_id c"
  shows "snd (claim_refund_for_broadcast ft' now' c' db') = db'
    \<and> fst (claim_refund_for_broadcast ft' now' c' db') \<noteq> Inr Won"
proof -
  note inv = refund.reach_inv [OF assms(1)]
  have inv': "refund_inv db'" using claim_inv [OF inv, of ft now c] assms(2) by simp
  from refund_invD(2) [OF inv] assms(2) have inflight:
    "\<exists>f. refund_of (rc_channel_id c) db' = Some f \<and> rf_status f = refund_status_str InFlight"
  proof (cases rule: claim_cases)
    case (won f)
    with row_SomeD [OF won(1)] show ?thesis by (simp add: row_replace_row claimed_row_def)
  qed simp
  obtain res db'' where eq: "claim_refund_for_broadcast ft' now' c' db' = (res, db'')" by fastforce
  from refund_invD(2) [OF inv'] eq show ?thesis
    by (cases rule: claim_cases) (use eq inflight assms(3) in auto)
qed

lemma uint_saturating_add:
  assumes "uint a + uint b < 2 ^ 64"
  shows "uint (saturating_add a b) = uint a + uint b"
proof -
  have "int (unat a + unat b) < int (2 ^ 64)"
    using assms by (simp del: unat_add_lem)
  then have "unat a + unat b < 2 ^ 64"
    by (simp only: of_nat_less_iff)
  then have "saturating_add a b = a + b"
    by (simp add: saturating_add_def)
  then show ?thesis
    using assms uint_add_lem [of a b] by simp
qed

lemma claim_cap_check_True:
  assumes "claim_cap_check ft now c db = Inr True" "rc_daily_cap_atomic c = Some cap"
    and "uint (rc_amount_atomic c) \<le> i64_max"
  shows "broadcast_24h now (refunds db) + uint (rc_amount_atomic c) \<le> uint cap"
proof -
  from assms obtain already where
    le: "broadcast_24h now (refunds db) \<le> i64_max"
    and al: "i64_to_atomic (broadcast_24h now (refunds db)) = Inr already"
    and cap: "saturating_add already (rc_amount_atomic c) \<le> cap"
    by (auto simp: claim_cap_check_def split: if_splits sum.splits)
  have "uint already = broadcast_24h now (refunds db)"
    using i64_to_atomic_Inr [OF al le] .
  with cap le assms(3) show ?thesis
    using uint_saturating_add [of already "rc_amount_atomic c"]
    by (simp add: word_le_def i64_max_def)
qed

lemma broadcast_24h_replace:
  assumes "pk_unique rf_channel_id t" "row rf_channel_id k t = Some f"
    and "0 \<le> rf_amount f" "rf_amount f' = rf_amount f"
  shows "broadcast_24h now (replace_row rf_channel_id k f' t) \<le> broadcast_24h now t + rf_amount f"
  using assms(1,2)
proof (rule replace_row_split)
  fix u v assume "t = u @ f # v" "\<And>r'. replace_row rf_channel_id k r' t = u @ r' # v"
  with assms(3,4) show ?thesis by (simp add: broadcast_24h_def)
qed

text \<open>
  C23. The trailing-day ceiling is respected: when a claim for the row's own amount wins under a
  cap, the amounts broadcast in the last 24 hours, this one included, do not exceed the cap.
\<close>
theorem claim_respects_daily_cap:
  assumes "reach refund_init refund_step db"
    and "claim_refund_for_broadcast ft now c db = (Inr Won, db')"
    and "rc_daily_cap_atomic c = Some cap"
    and "refund_of (rc_channel_id c) db = Some f" and "uint (rc_amount_atomic c) = rf_amount f"
  shows "broadcast_24h now (refunds db') \<le> uint cap"
proof -
  note inv = refund.reach_inv [OF assms(1)]
  obtain r where r: "channel_of (rc_channel_id c) db = Some r" "refund_fits r f"
    using refund_invD(3) [OF inv assms(4)] by blast
  have amount: "0 \<le> rf_amount f" "rf_amount f \<le> i64_max"
    using channel_chain [OF refund_invD(1) [OF inv] r(1)] r(2) by (auto simp: refund_fits_def)
  from refund_invD(2) [OF inv] assms(2) show ?thesis
  proof (cases rule: claim_cases)
    case (won f')
    with assms(4) have "refunds db' = replace_row rf_channel_id (rc_channel_id c) (claimed now c f) (refunds db)"
      by simp
    then show ?thesis
      using claim_cap_check_True [OF won(3) assms(3)] amount assms(5)
        broadcast_24h_replace [OF refund_invD(2) [OF inv] assms(4), of "claimed now c f" now]
      by (simp add: claimed_row_def)
  qed simp
qed

text \<open>
  A superseded signature decides nothing: after a re-sign replaced it, a second re-sign, both
  signature-guarded holds and the acceptance mark computed from the old signature all miss.
\<close>
theorem stale_signature_misses:
  assumes "reach refund_init refund_step db"
    and "resign_refund ft now k old tx new h db = (Inr True, db')" and "new \<noteq> old"
  shows "snd (resign_refund ft' now' k old tx' new' h' db') = db'
    \<and> fst (resign_refund ft' now' k old tx' new' h' db') \<noteq> Inr True
    \<and> snd (hold_refund ft' now' k (FromInFlight (Some old)) db') = db'
    \<and> snd (hold_refund ft' now' k (FromInFlightNeverAccepted old) db') = db'
    \<and> snd (mark_broadcast_accepted ft' now' k old db') = db'"
proof -
  note inv = refund.reach_inv [OF assms(1)]
  have inv': "refund_inv db'"
    using resign_refund_inv [OF inv, of ft now k old tx new h] assms(2) by simp
  note pk = refund_invD(2) [OF inv']
  from assms(2) obtain ht where "refund_cas ft k
     (\<lambda>f. rf_status f = refund_status_str InFlight \<and> rf_tx_signature f = Some old)
     (\<lambda>f. bump_attempts (f\<lparr>rf_signed_tx := Some tx, rf_tx_signature := Some new,
        rf_last_valid_block_height := Some ht, rf_broadcast_accepted_at := None,
        rf_updated_at := now\<rparr>)) db = (Inr True, db')"
    by (auto simp: resign_refund_def split: sum.splits)
  with refund_invD(2) [OF inv] have sig: "\<exists>f. refund_of k db' = Some f \<and> rf_tx_signature f = Some new"
  proof (cases rule: refund_cas_cases)
    case (hit f f')
    with row_SomeD [OF hit(1)] bump_attempts_Inr [OF hit(3)] show ?thesis
      by (simp add: row_replace_row)
  qed simp
  have miss: "snd (refund_cas ft' k g u db') = db' \<and> fst (refund_cas ft' k g u db') \<noteq> Inr True"
    if "\<forall>f. g f \<longrightarrow> rf_tx_signature f = Some old" for g u
  proof -
    obtain res d where eq: "refund_cas ft' k g u db' = (res, d)" by fastforce
    from pk eq show ?thesis
      by (cases rule: refund_cas_cases) (use eq sig that assms(3) in auto)
  qed
  show ?thesis
    by (auto simp: resign_refund_def hold_refund_def mark_broadcast_accepted_def snd_map_prod miss
        split: sum.splits)
qed

section \<open>A worked refund\<close>

definition demo_refunds0 :: refund_ledger where
  "demo_refunds0 = \<lparr>channels = [], channel_vouchers = [], refunds = []\<rparr>"

definition demo_opened :: refund_ledger where
  "demo_opened = snd (create_channel demo_crypto no_faults demo_new_channel demo_refunds0)"

definition demo_closed :: refund_ledger where
  "demo_closed = snd (close_channel_and_reserve_refund no_faults 1000 ''c1'' demo_opened)"

definition demo_claim :: refund_claim where
  "demo_claim = \<lparr>rc_channel_id = ''c1'', rc_signed_tx = [1], rc_tx_signature = ''sig1'',
     rc_last_valid_block_height = 500, rc_amount_atomic = 100, rc_daily_cap_atomic = Some 1000\<rparr>"

definition demo_claimed :: refund_ledger where
  "demo_claimed = snd (claim_refund_for_broadcast no_faults 2000 demo_claim demo_closed)"

definition demo_refund :: refund_db_row where
  "demo_refund = frozen_row 1000 ''c1'' demo_row"

lemma demo_opened_eq: "demo_opened = \<lparr>channels = [demo_row], channel_vouchers = [], refunds = []\<rparr>"
  by (simp add: demo_opened_def demo_refunds0_def demo_new_channel_def demo_row_def demo_crypto_def
      create_channel_def refund_account_collision_def decode_bs58_pubkey_def ascii_def
      new_channel_row_def atomic_to_i64_def i64_max_def funding_conflict_def channel_checks_def
      commit_def no_faults_def of_char_def SYSTEM_PROGRAM_def TOKEN_PROGRAM_ID_def
      ASSOCIATED_TOKEN_PROGRAM_ID_def replicate_32)

lemma demo_opened_reach: "reach refund_init refund_step demo_opened"
  unfolding demo_opened_def
  by (rule reach_step [of _ _ demo_refunds0], rule reach_init)
    (simp_all add: refund_init_def ledger_init_def demo_refunds0_def rs_create)

lemma demo_closed_reach: "reach refund_init refund_step demo_closed"
  unfolding demo_closed_def by (rule reach_step [OF demo_opened_reach]) (rule rs_close)

lemma demo_closed_refunds: "refunds demo_closed = [demo_refund]"
  by (simp add: demo_closed_def demo_opened_eq demo_refund_def frozen_row_def new_refund_row_def
      close_channel_and_reserve_refund_def flip_open_to_closing_def keyed_cas_def check_row_def
      channel_checks_def demo_row_def i64_to_atomic_def compute_refundable_def checked_sub_def
      atomic_to_i64_def i64_max_def insert_refund_def refund_checks_def commit_def no_faults_def)

lemma demo_closed_refund: "refund_of ''c1'' demo_closed = Some demo_refund"
  by (simp add: demo_closed_refunds demo_refund_def frozen_row_def new_refund_row_def)

lemma demo_opened_channel: "channel_of ''c1'' demo_opened = Some demo_row"
  by (simp add: demo_opened_eq demo_row_def)

lemmas demo_claim_simps =
  claim_refund_for_broadcast_def claim_cap_check_def demo_claim_def demo_closed_refunds
  broadcast_24h_def counts_in_window_def demo_refund_def frozen_row_def new_refund_row_def
  i64_max_def i64_to_atomic_def saturating_add_def atomic_to_i64_def keyed_cas_def
  bump_attempts_def claimed_row_def i32_max_def commit_def no_faults_def demo_row_def

lemma demo_claim_won:
  "claim_refund_for_broadcast no_faults 2000 demo_claim demo_closed = (Inr Won, demo_claimed)"
proof -
  have "fst (claim_refund_for_broadcast no_faults 2000 demo_claim demo_closed) = Inr Won"
    by (simp add: demo_claim_simps)
  then show ?thesis
    by (simp add: demo_claimed_def prod_eq_iff)
qed

lemma demo_claimed_refund: "refund_of ''c1'' demo_claimed = Some (claimed 2000 demo_claim demo_refund)"
  by (simp add: demo_claimed_def demo_claim_simps)

lemma demo_claimed_reach: "reach refund_init refund_step demo_claimed"
  unfolding demo_claimed_def by (rule reach_step [OF demo_closed_reach]) (rule rs_claim)

theorem refund_conserves_deposit_witness:
  "refund_of ''c1'' demo_closed = Some demo_refund
   \<and> (\<exists>r. channel_of ''c1'' demo_closed = Some r \<and> ch_realized r + rf_amount demo_refund = ch_deposited r)"
  using refund_conserves_deposit [OF demo_closed_reach demo_closed_refund] demo_closed_refund by blast

theorem reservation_frozen_forever_witness:
  "refund_of ''c1'' demo_closed = Some demo_refund
   \<and> (\<exists>f'. refund_of ''c1'' demo_claimed = Some f' \<and> rf_amount f' = rf_amount demo_refund)"
proof -
  have "refund_step\<^sup>*\<^sup>* demo_closed demo_claimed"
    unfolding demo_claimed_def by (rule r_into_rtranclp) (rule rs_claim)
  from reservation_frozen_forever [OF demo_closed_reach this demo_closed_refund] show ?thesis
    using demo_closed_refund by blast
qed

theorem no_draw_after_close_witness:
  "\<exists>e. persist_voucher_and_advance no_faults demo_voucher demo_closed = (Inl e, demo_closed)"
  by (rule no_draw_after_close [OF demo_closed_reach])
    (simp add: demo_voucher_def demo_closed_refund)

theorem close_freezes_remainder_witness:
  "\<exists>out db'. close_channel_and_reserve_refund no_faults 1000 ''c1'' demo_opened = (Inr out, db')
     \<and> uint (co_refundable_atomic out) = 100"
  using close_freezes_remainder [OF demo_opened_reach demo_opened_channel, of 1000]
  by (auto simp: demo_row_def)

theorem claim_single_winner_witness:
  "claim_refund_for_broadcast no_faults 2000 demo_claim demo_closed = (Inr Won, demo_claimed)
   \<and> fst (claim_refund_for_broadcast no_faults 2001
       (demo_claim\<lparr>rc_signed_tx := [2], rc_tx_signature := ''sig2''\<rparr>) demo_claimed) \<noteq> Inr Won"
  using claim_single_winner [OF demo_closed_reach demo_claim_won,
      of "demo_claim\<lparr>rc_signed_tx := [2], rc_tx_signature := ''sig2''\<rparr>" no_faults 2001] demo_claim_won
  by simp

theorem claim_respects_daily_cap_witness:
  "claim_refund_for_broadcast no_faults 2000 demo_claim demo_closed = (Inr Won, demo_claimed)
   \<and> broadcast_24h 2000 (refunds demo_claimed) \<le> 1000"
  using claim_respects_daily_cap [OF demo_closed_reach demo_claim_won, of 1000 demo_refund]
    demo_claim_won demo_closed_refund
  by (simp add: demo_claim_def demo_refund_def frozen_row_def new_refund_row_def demo_row_def)

theorem stale_signature_misses_witness:
  "\<exists>db'. resign_refund no_faults 3000 ''c1'' ''sig1'' [2] ''sig2'' 900 demo_claimed = (Inr True, db')
     \<and> snd (hold_refund no_faults 3001 ''c1'' (FromInFlight (Some ''sig1'')) db') = db'"
proof -
  have pk: "pk_unique rf_channel_id (refunds demo_claimed)"
    using refund_invD(2) [OF refund.reach_inv [OF demo_claimed_reach]] .
  obtain db' where "resign_refund no_faults 3000 ''c1'' ''sig1'' [2] ''sig2'' 900 demo_claimed
      = (Inr True, db')"
    using demo_claimed_refund pk
    by (simp add: resign_refund_def refund_cas_def sql_update_keyed demo_claim_simps)
  with stale_signature_misses [OF demo_claimed_reach this, of no_faults 3001 "[]" "[]" 0]
  show ?thesis by auto
qed

end
