(* ===== verification/Wire_Format.thy ===== *)
theory Wire_Format
  imports Solana_Keys
begin

text \<open>
  The transaction parser the payment checks run on untrusted bytes
  (\<open>crates/x402/src/solana_types.rs\<close> and \<open>spl_transfer.rs\<close>): compact-u16 lengths, the signature
  section, legacy and V0 messages, and the search for an SPL transfer. A reference serializer
  states what the accepted bytes mean.
\<close>

unbundle bit_operations_syntax

section \<open>Compact-u16\<close>

datatype transaction_error = TooShort | InvalidFormat string

primrec decode_compact_loop ::
  "bytes \<Rightarrow> nat \<Rightarrow> nat \<Rightarrow> nat \<Rightarrow> (transaction_error, nat \<times> nat) result" where
  "decode_compact_loop dat offset 0 val =
     Inl (InvalidFormat ''compact-u16 overflow: more than 3 bytes'')"
| "decode_compact_loop dat offset (Suc k) val =
    (let i = 2 - k; idx = offset + i in
     if length dat \<le> idx then Inl TooShort
     else
       let byte = dat ! idx; val' = val OR push_bit (i * 7) (unat (byte AND 0x7F)) in
       if byte AND 0x80 = 0 then Inr (val', i + 1)
       else decode_compact_loop dat offset k val')"

definition decode_compact_u16 ::
  "bytes \<Rightarrow> nat \<Rightarrow> (transaction_error, nat \<times> nat) result" where
  "decode_compact_u16 dat offset =
    (if length dat \<le> offset then Inl TooShort else decode_compact_loop dat offset 3 0)"

section \<open>Transactions and messages\<close>

record versioned_transaction =
  vt_signatures :: "bytes list"
  vt_message_bytes :: bytes

definition versioned_transaction_from_bytes ::
  "bytes \<Rightarrow> (transaction_error, versioned_transaction) result" where
  "versioned_transaction_from_bytes dat =
    (if dat = [] then Inl TooShort
     else and_then (decode_compact_u16 dat 0) (\<lambda>(sig_count, sigs_start).
       if 127 < sig_count then Inl (InvalidFormat ''too many signatures'')
       else
         let sigs_end = sigs_start + sig_count * 64 in
         if length dat < sigs_end then Inl TooShort
         else Inr \<lparr>vt_signatures =
             map (\<lambda>i. take 64 (drop (sigs_start + i * 64) dat)) [0..<sig_count],
           vt_message_bytes = drop sigs_end dat\<rparr>))"

record message_header =
  num_required_signatures :: u8
  num_readonly_signed_accounts :: u8
  num_readonly_unsigned_accounts :: u8

record compiled_instruction =
  program_id_index :: u8
  ix_accounts :: bytes
  ix_data :: bytes

record parsed_message =
  pm_header :: message_header
  account_keys :: "pubkey list"
  recent_blockhash :: bytes
  instructions :: "compiled_instruction list"
  is_v0 :: bool

definition parse_instruction ::
  "bytes \<Rightarrow> nat \<Rightarrow> (transaction_error, compiled_instruction \<times> nat) result" where
  "parse_instruction dat offset =
    (if length dat \<le> offset then Inl TooShort
     else and_then (decode_compact_u16 dat (offset + 1)) (\<lambda>(num_accounts, consumed).
       let o1 = offset + 1 + consumed in
       if length dat < o1 + num_accounts then Inl TooShort
       else and_then (decode_compact_u16 dat (o1 + num_accounts)) (\<lambda>(data_len, consumed').
         let o2 = o1 + num_accounts + consumed' in
         if length dat < o2 + data_len then Inl TooShort
         else Inr (\<lparr>program_id_index = dat ! offset,
                    ix_accounts = take num_accounts (drop o1 dat),
                    ix_data = take data_len (drop o2 dat)\<rparr>, o2 + data_len))))"

primrec parse_instructions ::
  "bytes \<Rightarrow> nat \<Rightarrow> nat \<Rightarrow> (transaction_error, compiled_instruction list) result" where
  "parse_instructions dat offset 0 = Inr []"
| "parse_instructions dat offset (Suc n) =
     and_then (parse_instruction dat offset) (\<lambda>(ix, offset').
       and_then (parse_instructions dat offset' n) (\<lambda>ixs. Inr (ix # ixs)))"

definition parsed_message_from_bytes ::
  "bytes \<Rightarrow> (transaction_error, parsed_message) result" where
  "parsed_message_from_bytes dat =
    (if dat = [] then Inl TooShort
     else
       let v0 = (dat ! 0 = 0x80); o0 = (if v0 then 1 else 0) in
       if length dat < o0 + 3 then Inl TooShort
       else
         let header = \<lparr>num_required_signatures = dat ! o0,
               num_readonly_signed_accounts = dat ! (o0 + 1),
               num_readonly_unsigned_accounts = dat ! (o0 + 2)\<rparr> in
         and_then (decode_compact_u16 dat (o0 + 3)) (\<lambda>(num_keys, consumed).
           let o1 = o0 + 3 + consumed in
           if length dat < o1 + num_keys * 32 then Inl TooShort
           else
             let keys = map (\<lambda>i. take 32 (drop (o1 + i * 32) dat)) [0..<num_keys];
                 o2 = o1 + num_keys * 32 in
             if length dat < o2 + 32 then Inl TooShort
             else and_then (decode_compact_u16 dat (o2 + 32)) (\<lambda>(num_instructions, consumed').
               and_then (parse_instructions dat (o2 + 32 + consumed') num_instructions) (\<lambda>ixs.
                 Inr \<lparr>pm_header = header, account_keys = keys,
                      recent_blockhash = take 32 (drop o2 dat), instructions = ixs,
                      is_v0 = v0\<rparr>))))"

section \<open>Finding the SPL transfer\<close>

record spl_transfer_info =
  ti_destination :: pubkey
  ti_amount :: u64
  ti_mint :: "pubkey option"

datatype spl_error = InvalidTransaction string

definition key_at :: "parsed_message \<Rightarrow> u8 \<Rightarrow> pubkey option" where
  "key_at m i = (if unat i < length (account_keys m) then Some (account_keys m ! unat i) else None)"

definition is_token_program :: "pubkey \<Rightarrow> bool" where
  "is_token_program p \<longleftrightarrow> p = TOKEN_PROGRAM_ID \<or> p = TOKEN_2022_PROGRAM_ID"

definition spl_transfer_of ::
  "parsed_message \<Rightarrow> compiled_instruction \<Rightarrow> (spl_error, spl_transfer_info) result option" where
  "spl_transfer_of m ix =
    (case key_at m (program_id_index ix) of
       None \<Rightarrow> None
     | Some program_id \<Rightarrow>
       if \<not> is_token_program program_id then None
       else case ix_data ix of
         [] \<Rightarrow> None
       | disc # rest \<Rightarrow>
         if disc = 3 then Some
           (if length (ix_data ix) < 9 then
              Inl (InvalidTransaction ''SPL Transfer instruction data too short'')
            else if length (ix_accounts ix) < 2 then
              Inl (InvalidTransaction ''SPL Transfer instruction missing accounts'')
            else and_then (ok_or (InvalidTransaction ''destination account index out of bounds'')
                   (key_at m (ix_accounts ix ! 1)))
              (\<lambda>destination. Inr \<lparr>ti_destination = destination,
                 ti_amount = from_le_bytes (take 8 rest), ti_mint = None\<rparr>))
         else if disc = 12 then Some
           (if length (ix_data ix) < 9 then
              Inl (InvalidTransaction ''SPL TransferChecked instruction data too short'')
            else if length (ix_accounts ix) < 3 then
              Inl (InvalidTransaction ''SPL TransferChecked instruction missing accounts'')
            else and_then (ok_or (InvalidTransaction ''mint account index out of bounds'')
                   (key_at m (ix_accounts ix ! 1)))
              (\<lambda>mint. and_then (ok_or (InvalidTransaction ''destination account index out of bounds'')
                   (key_at m (ix_accounts ix ! 2)))
              (\<lambda>destination. Inr \<lparr>ti_destination = destination,
                 ti_amount = from_le_bytes (take 8 rest), ti_mint = Some mint\<rparr>)))
         else None)"

primrec extract_from ::
  "parsed_message \<Rightarrow> compiled_instruction list \<Rightarrow> (spl_error, spl_transfer_info) result" where
  "extract_from m [] = Inl (InvalidTransaction ''no SPL Token transfer instruction found'')"
| "extract_from m (ix # ixs) =
    (case spl_transfer_of m ix of Some r \<Rightarrow> r | None \<Rightarrow> extract_from m ixs)"

definition extract_spl_transfer ::
  "parsed_message \<Rightarrow> (spl_error, spl_transfer_info) result" where
  "extract_spl_transfer m = extract_from m (instructions m)"

section \<open>Reference serializer\<close>

definition encode_compact :: "nat \<Rightarrow> bytes" where
  "encode_compact n =
    (if n < 128 then [of_nat n]
     else if n < 16384 then [of_nat (128 + n mod 128), of_nat (n div 128)]
     else [of_nat (128 + n mod 128), of_nat (128 + n div 128 mod 128), of_nat (n div 16384)])"

definition encode_instruction :: "compiled_instruction \<Rightarrow> bytes" where
  "encode_instruction ix =
     [program_id_index ix] @ encode_compact (length (ix_accounts ix)) @ ix_accounts ix
     @ encode_compact (length (ix_data ix)) @ ix_data ix"

definition encode_message :: "parsed_message \<Rightarrow> bytes" where
  "encode_message m =
     (if is_v0 m then [0x80] else [])
     @ [num_required_signatures (pm_header m), num_readonly_signed_accounts (pm_header m),
        num_readonly_unsigned_accounts (pm_header m)]
     @ encode_compact (length (account_keys m)) @ concat (account_keys m)
     @ recent_blockhash m
     @ encode_compact (length (instructions m)) @ concat (map encode_instruction (instructions m))"

definition encode_transaction :: "bytes list \<Rightarrow> bytes \<Rightarrow> bytes" where
  "encode_transaction sigs msg = encode_compact (length sigs) @ concat sigs @ msg"

definition wf_instruction :: "compiled_instruction \<Rightarrow> bool" where
  "wf_instruction ix \<longleftrightarrow> length (ix_accounts ix) < 2 ^ 16 \<and> length (ix_data ix) < 2 ^ 16"

definition wf_message :: "parsed_message \<Rightarrow> bool" where
  "wf_message m \<longleftrightarrow>
     (\<forall>k \<in> set (account_keys m). length k = 32) \<and> length (account_keys m) < 2 ^ 16
     \<and> length (recent_blockhash m) = 32 \<and> length (instructions m) < 2 ^ 16
     \<and> (\<forall>ix \<in> set (instructions m). wf_instruction ix)
     \<and> (is_v0 m \<or> num_required_signatures (pm_header m) \<noteq> 0x80)"

section \<open>Reading back\<close>

text \<open>\<open>reads dat off bs\<close>: the bytes \<open>bs\<close> stand in \<open>dat\<close> from offset \<open>off\<close>.\<close>

definition reads :: "bytes \<Rightarrow> nat \<Rightarrow> bytes \<Rightarrow> bool" where
  "reads dat off bs \<longleftrightarrow> off \<le> length dat \<and> (\<exists>post. drop off dat = bs @ post)"

lemma readsD:
  assumes "reads dat off bs"
  shows "off + length bs \<le> length dat" and "take (length bs) (drop off dat) = bs"
proof -
  from assms obtain post where *: "drop off dat = bs @ post" "off \<le> length dat"
    by (auto simp: reads_def)
  then have "length dat - off = length bs + length post"
    by (metis length_append length_drop)
  with * show "off + length bs \<le> length dat" by linarith
  from * show "take (length bs) (drop off dat) = bs" by simp
qed

lemma reads_append:
  "reads dat off (xs @ ys) \<longleftrightarrow> reads dat off xs \<and> reads dat (off + length xs) ys"
proof
  assume r: "reads dat off (xs @ ys)"
  then obtain post where *: "drop off dat = xs @ ys @ post" by (auto simp: reads_def)
  have "drop (off + length xs) dat = drop (length xs) (drop off dat)"
    by (simp add: add.commute)
  with * have "drop (off + length xs) dat = ys @ post" by simp
  with * r readsD(1) [OF r] show "reads dat off xs \<and> reads dat (off + length xs) ys"
    by (auto simp: reads_def)
next
  assume r: "reads dat off xs \<and> reads dat (off + length xs) ys"
  then obtain p q where "drop off dat = xs @ p" "drop (off + length xs) dat = ys @ q"
    by (auto simp: reads_def)
  moreover have "drop (off + length xs) dat = drop (length xs) (drop off dat)"
    by (simp add: add.commute)
  ultimately show "reads dat off (xs @ ys)"
    using r by (auto simp: reads_def)
qed

lemma reads_Cons: "reads dat off (x # xs) \<longleftrightarrow> off < length dat \<and> dat ! off = x \<and> reads dat (Suc off) xs"
proof -
  have "reads dat off [x] \<longleftrightarrow> off < length dat \<and> dat ! off = x"
    by (cases "off < length dat") (auto simp: reads_def simp flip: Cons_nth_drop_Suc)
  then show ?thesis
    using reads_append [of dat off "[x]" xs] by simp
qed

lemma reads_Nil [simp]: "reads dat off [] \<longleftrightarrow> off \<le> length dat"
  by (simp add: reads_def)

lemma reads_self: "reads (bs @ post) 0 bs"
  by (simp add: reads_def)

text \<open>One byte of a compact length: seven value bits and the continuation bit.\<close>

lemma unat_and_7F: "unat ((b :: u8) AND 0x7F) = unat b mod 128"
proof -
  have "b AND 0x7F = take_bit 7 b"
    by (simp add: take_bit_eq_mask mask_eq_exp_minus_1)
  then show ?thesis
    by (simp add: unsigned_take_bit_eq take_bit_nat_def)
qed

lemma and_80_eq_0: "(b :: u8) AND 0x80 = 0 \<longleftrightarrow> unat b < 128"
proof -
  have b: "unat b < 256" using unsigned_less [of b, where ?'a = nat] by simp
  have "b AND 0x80 = 0 \<longleftrightarrow> \<not> bit b 7"
    using and_exp_eq_0_iff_not_bit [of b 7] by simp
  also have "bit b 7 \<longleftrightarrow> bit (unat b) 7"
    by (simp add: bit_unsigned_iff)
  also have "\<dots> \<longleftrightarrow> \<not> unat b < 128"
  proof -
    have "unat b div 128 = 0 \<or> unat b div 128 = 1" using b by linarith
    then show ?thesis by (auto simp: bit_iff_odd div_eq_0_iff)
  qed
  finally show ?thesis by blast
qed

lemma or_push_bit_add: "(a :: nat) < 2 ^ k \<Longrightarrow> a OR push_bit k b = a + 2 ^ k * b"
proof -
  assume a: "a < 2 ^ k"
  have "\<not> bit a n \<or> \<not> bit (push_bit k b) n" for n
  proof (cases "n < k")
    case False
    then have "(2 :: nat) ^ k \<le> 2 ^ n" by (intro power_increasing) auto
    with a have "a < 2 ^ n" by linarith
    then show ?thesis by (simp add: bit_iff_odd)
  qed (simp add: bit_push_bit_iff)
  then have "a + push_bit k b = a OR push_bit k b"
    by (rule disjunctive_add)
  then show ?thesis by (simp add: push_bit_eq_mult mult.commute)
qed

lemma compact_or2: "(a mod 128) OR push_bit 7 b = a mod 128 + 128 * (b :: nat)"
  using or_push_bit_add [of "a mod 128" 7 b] by simp

lemma compact_or3:
  "(a mod 128 + 128 * (b mod 128)) OR push_bit 14 c = a mod 128 + 128 * (b mod 128) + 16384 * (c :: nat)"
proof -
  have "a mod 128 < 128" "b mod 128 < 128" by simp_all
  then have "a mod 128 + 128 * (b mod 128) < 2 ^ 14" by simp
  from or_push_bit_add [OF this, of c] show ?thesis by simp
qed

lemma decode_compact_u16_eq:
  "decode_compact_u16 dat off =
    (if length dat \<le> off then Inl TooShort
     else if unat (dat ! off) < 128 then Inr (unat (dat ! off) mod 128, 1)
     else if length dat \<le> off + 1 then Inl TooShort
     else if unat (dat ! (off + 1)) < 128 then
       Inr (unat (dat ! off) mod 128 + 128 * (unat (dat ! (off + 1)) mod 128), 2)
     else if length dat \<le> off + 2 then Inl TooShort
     else if unat (dat ! (off + 2)) < 128 then
       Inr (unat (dat ! off) mod 128 + 128 * (unat (dat ! (off + 1)) mod 128)
            + 16384 * (unat (dat ! (off + 2)) mod 128), 3)
     else Inl (InvalidFormat ''compact-u16 overflow: more than 3 bytes''))"
  by (simp add: decode_compact_u16_def numeral_3_eq_3 Let_def unat_and_7F and_80_eq_0
      compact_or2 compact_or3)

text \<open>
  A decoded compact length fits 21 bits, consumed one to three bytes and all of them lie inside
  the buffer.
\<close>
theorem decode_compact_u16_bounds:
  assumes "decode_compact_u16 dat off = Inr (n, c)"
  shows "n < 2 ^ 21 \<and> 1 \<le> c \<and> c \<le> 3 \<and> off + c \<le> length dat"
proof -
  have m: "unat (dat ! i) mod 128 < 128" for i by simp
  from assms m [of off] m [of "off + 1"] m [of "off + 2"] show ?thesis
    unfolding decode_compact_u16_eq by (auto split: if_splits)
qed

theorem decode_compact_u16_bounds_witness:
  "decode_compact_u16 [0xFF, 0xFF, 0x7F] 0 = Inr (2097151, 3) \<and> (2097151 :: nat) < 2 ^ 21"
proof -
  have d: "decode_compact_u16 [0xFF, 0xFF, 0x7F] 0 = Inr (2097151, 3)"
    by (simp add: decode_compact_u16_eq)
  with decode_compact_u16_bounds [OF d] show ?thesis by simp
qed

lemma unat_continued [simp]: "unat (128 + word_of_nat (k mod 128) :: u8) = 128 + k mod 128"
proof -
  have "k mod 128 < 128" by simp
  moreover have "(128 + word_of_nat (k mod 128) :: u8) = word_of_nat (128 + k mod 128)" by simp
  ultimately show ?thesis
    by (simp only: unat_of_nat) simp
qed

lemma decode_encode_compact:
  assumes "reads dat off (encode_compact n)" "n < 2 ^ 16"
  shows "decode_compact_u16 dat off = Inr (n, length (encode_compact n))"
proof -
  consider "n < 128" | "128 \<le> n" "n < 16384" | "16384 \<le> n" by linarith
  then show ?thesis
  proof cases
    case 1
    with assms show ?thesis
      by (auto simp: encode_compact_def reads_Cons decode_compact_u16_eq unat_of_nat)
  next
    case 2
    have "n div 128 < 128" using 2 by linarith
    with 2 assms show ?thesis
      by (auto simp: encode_compact_def reads_Cons decode_compact_u16_eq unat_of_nat)
  next
    case 3
    have "n div 16384 < 4" using assms(2) by simp
    moreover have "n mod 128 + 128 * (n div 128 mod 128) + 16384 * (n div 16384) = n"
    proof -
      have "n div 16384 = n div 128 div 128" by (simp flip: div_mult2_eq)
      moreover have "n mod 128 + 128 * (n div 128) = n"
        "n div 128 mod 128 + 128 * (n div 128 div 128) = n div 128" by simp_all
      ultimately show ?thesis by linarith
    qed
    ultimately show ?thesis using 3 assms
      by (auto simp: encode_compact_def reads_Cons decode_compact_u16_eq unat_of_nat)
  qed
qed

section \<open>Round trips\<close>

lemma parse_encode_instruction:
  assumes "reads dat off (encode_instruction ix)" "wf_instruction ix"
  shows "parse_instruction dat off = Inr (ix, off + length (encode_instruction ix))"
proof -
  let ?a = "encode_compact (length (ix_accounts ix))" and ?d = "encode_compact (length (ix_data ix))"
  from assms(1) have r: "off < length dat" "dat ! off = program_id_index ix" "reads dat (Suc off) ?a"
    "reads dat (Suc off + length ?a) (ix_accounts ix)"
    "reads dat (Suc off + length ?a + length (ix_accounts ix)) ?d"
    "reads dat (Suc off + length ?a + length (ix_accounts ix) + length ?d) (ix_data ix)"
    by (simp_all add: encode_instruction_def reads_append reads_Cons add.assoc)
  from assms(2) have w: "length (ix_accounts ix) < 2 ^ 16" "length (ix_data ix) < 2 ^ 16"
    by (simp_all add: wf_instruction_def)
  note dec = decode_encode_compact [OF r(3) w(1)] decode_encode_compact [OF r(5) w(2)]
  show ?thesis
    using r(1,2) dec readsD [OF r(4)] readsD [OF r(6)]
    by (simp add: parse_instruction_def Let_def encode_instruction_def)
qed

lemma parse_encode_instructions:
  assumes "reads dat off (concat (map encode_instruction ixs))" "\<forall>ix \<in> set ixs. wf_instruction ix"
  shows "parse_instructions dat off (length ixs) = Inr ixs"
  using assms
proof (induction ixs arbitrary: off)
  case (Cons ix ixs)
  then have "reads dat off (encode_instruction ix)"
    "reads dat (off + length (encode_instruction ix)) (concat (map encode_instruction ixs))"
    by (simp_all add: reads_append)
  with Cons show ?case
    by (simp add: parse_encode_instruction)
qed simp

lemma chunks_of_concat:
  assumes "reads dat off (concat xs)" "\<forall>x \<in> set xs. length x = w"
  shows "map (\<lambda>i. take w (drop (off + i * w) dat)) [0..<length xs] = xs"
  using assms
proof (induction xs arbitrary: off)
  case (Cons x xs)
  then have r: "reads dat off x" "reads dat (off + w) (concat xs)" and w: "length x = w"
    by (simp_all add: reads_append)
  have "map (\<lambda>i. take w (drop (off + i * w) dat)) [0..<length (x # xs)]
      = take w (drop off dat) # map (\<lambda>i. take w (drop (off + Suc i * w) dat)) [0..<length xs]"
    by (simp add: upt_conv_Cons del: upt_Suc flip: map_Suc_upt)
  with Cons.IH [OF r(2)] Cons.prems readsD(2) [OF r(1)] w show ?case
    by (simp add: add.assoc)
qed simp

lemma length_concat_const: "\<forall>x \<in> set xs. length x = w \<Longrightarrow> length (concat xs) = length xs * w"
  by (induction xs) simp_all

lemma message_roundtrip_aux:
  assumes wf: "wf_message m"
  shows "parsed_message_from_bytes (encode_message m @ rest) = Inr m"
proof -
  define dat where "dat = encode_message m @ rest"
  define o0 :: nat where "o0 = (if is_v0 m then 1 else 0)"
  let ?k = "encode_compact (length (account_keys m))" and ?n = "encode_compact (length (instructions m))"
  have w: "\<forall>k \<in> set (account_keys m). length k = 32" "length (account_keys m) < 2 ^ 16"
    "length (recent_blockhash m) = 32" "length (instructions m) < 2 ^ 16"
    "\<forall>ix \<in> set (instructions m). wf_instruction ix"
    "is_v0 m \<or> num_required_signatures (pm_header m) \<noteq> 0x80"
    using wf by (simp_all add: wf_message_def)
  have all: "reads dat 0 (encode_message m)"
    unfolding dat_def by (rule reads_self)
  define pre where "pre = (if is_v0 m then [0x80 :: u8] else [])"
  define h where "h = [num_required_signatures (pm_header m),
      num_readonly_signed_accounts (pm_header m), num_readonly_unsigned_accounts (pm_header m)]"
  have lh: "length pre = o0" "length h = 3" by (simp_all add: pre_def h_def o0_def)
  have "reads dat 0 (pre @ h @ ?k @ concat (account_keys m) @ recent_blockhash m @ ?n
      @ concat (map encode_instruction (instructions m)))"
    using all by (simp add: encode_message_def pre_def h_def)
  then have hd: "reads dat o0 h"
    and k: "reads dat (o0 + 3) ?k"
    and keys: "reads dat (o0 + 3 + length ?k) (concat (account_keys m))"
    and bh: "reads dat (o0 + 3 + length ?k + length (account_keys m) * 32) (recent_blockhash m)"
    and n: "reads dat (o0 + 3 + length ?k + length (account_keys m) * 32 + 32) ?n"
    and ixs: "reads dat (o0 + 3 + length ?k + length (account_keys m) * 32 + 32 + length ?n)
        (concat (map encode_instruction (instructions m)))"
    using w(3) length_concat_const [OF w(1)] by (simp_all only: reads_append lh add.assoc add_0)
  have v0: "dat ! 0 = 0x80 \<longleftrightarrow> is_v0 m" "dat \<noteq> []"
    using all w(6) by (auto simp: encode_message_def reads_Cons reads_append split: if_splits)
  note dec = decode_encode_compact [OF k w(2)] decode_encode_compact [OF n w(4)]
  have len: "length dat \<ge> o0 + 3" using readsD(1) [OF hd] lh by simp
  have key: "map (\<lambda>i. take 32 (drop (o0 + 3 + length ?k + i * 32) dat)) [0..<length (account_keys m)]
      = account_keys m"
    by (rule chunks_of_concat [OF keys w(1)])
  have hdr: "\<lparr>num_required_signatures = dat ! o0, num_readonly_signed_accounts = dat ! (o0 + 1),
      num_readonly_unsigned_accounts = dat ! (o0 + 2)\<rparr> = pm_header m"
    using hd by (simp add: reads_Cons h_def)
  have bounds: "o0 + 3 + length ?k + length (account_keys m) * 32 + 32 \<le> length dat"
    using readsD(1) [OF bh] w(3) by simp
  show ?thesis
    using parse_encode_instructions [OF ixs w(5)] readsD(2) [OF bh] w(3) v0(2) len bounds dec key
    unfolding dat_def [symmetric] parsed_message_from_bytes_def Let_def v0(1) o0_def [symmetric] hdr
    by simp
qed

lemma transaction_roundtrip_aux:
  assumes "length sigs \<le> 127" "\<forall>s \<in> set sigs. length s = 64"
  shows "versioned_transaction_from_bytes (encode_transaction sigs msg)
    = Inr \<lparr>vt_signatures = sigs, vt_message_bytes = msg\<rparr>"
proof -
  define dat where "dat = encode_transaction sigs msg"
  let ?c = "encode_compact (length sigs)"
  have "reads dat 0 (?c @ concat sigs @ msg)"
    using reads_self [of "encode_transaction sigs msg" "[]"]
    by (simp add: dat_def encode_transaction_def)
  then have r: "reads dat 0 ?c" "reads dat (length ?c) (concat sigs)"
    by (simp_all add: reads_append)
  note len = length_concat_const [OF assms(2)]
  have one: "length ?c = 1" using assms(1) by (simp add: encode_compact_def)
  have dec: "decode_compact_u16 dat 0 = Inr (length sigs, length ?c)"
    by (rule decode_encode_compact [OF r(1)]) (use assms(1) in simp)
  have "dat \<noteq> []" using one by (auto simp: dat_def encode_transaction_def)
  moreover have "drop (length ?c + length sigs * 64) dat = msg"
    by (simp add: dat_def encode_transaction_def len)
  moreover have "length ?c + length sigs * 64 \<le> length dat"
    using readsD(1) [OF r(2)] len by simp
  ultimately show ?thesis
    using dec chunks_of_concat [OF r(2) assms(2)] assms(1)
    unfolding dat_def [symmetric] versioned_transaction_from_bytes_def by simp
qed

lemma encode_compact_small: "n < 128 \<Longrightarrow> encode_compact n = [of_nat n]"
  by (simp add: encode_compact_def)

text \<open>
  C32. The message parser inverts the wire format: for every well-formed legacy or V0 message the
  serialized bytes, whatever follows them, parse to exactly that message.
\<close>
theorem parsed_message_roundtrip:
  assumes "wf_message m"
  shows "parsed_message_from_bytes (encode_message m @ rest) = Inr m"
  by (rule message_roundtrip_aux [OF assms])

text \<open>
  The transaction parser splits signatures and message exactly: up to 127 signatures of 64
  bytes are read back and the message bytes are what follows them.
\<close>
theorem versioned_transaction_roundtrip:
  assumes "length sigs \<le> 127" and "\<forall>s \<in> set sigs. length s = 64"
  shows "versioned_transaction_from_bytes (encode_transaction sigs msg)
    = Inr \<lparr>vt_signatures = sigs, vt_message_bytes = msg\<rparr>"
  by (rule transaction_roundtrip_aux [OF assms])

text \<open>What an instruction that is a transfer looks like.\<close>

definition is_transfer_of :: "parsed_message \<Rightarrow> compiled_instruction \<Rightarrow> spl_transfer_info \<Rightarrow> bool" where
  "is_transfer_of m ix t \<longleftrightarrow>
     (\<exists>p. key_at m (program_id_index ix) = Some p \<and> is_token_program p)
     \<and> 9 \<le> length (ix_data ix) \<and> ti_amount t = from_le_bytes (take 8 (tl (ix_data ix)))
     \<and> (hd (ix_data ix) = 3 \<and> 2 \<le> length (ix_accounts ix)
          \<and> key_at m (ix_accounts ix ! 1) = Some (ti_destination t) \<and> ti_mint t = None
        \<or> hd (ix_data ix) = 12 \<and> 3 \<le> length (ix_accounts ix)
          \<and> key_at m (ix_accounts ix ! 2) = Some (ti_destination t)
          \<and> ti_mint t = key_at m (ix_accounts ix ! 1) \<and> ti_mint t \<noteq> None)"

lemma spl_transfer_of_Inr:
  "spl_transfer_of m ix = Some (Inr t) \<longleftrightarrow> is_transfer_of m ix t"
  by (cases t) (auto simp: spl_transfer_of_def is_transfer_of_def and_then_Inr_iff neq_Nil_conv
      split: option.splits list.splits if_splits)

lemma extract_from_Inr:
  "extract_from m ixs = Inr t \<longleftrightarrow>
   (\<exists>pre ix post. ixs = pre @ ix # post \<and> (\<forall>i \<in> set pre. spl_transfer_of m i = None)
      \<and> is_transfer_of m ix t)"
proof (induction ixs)
  case (Cons i ixs)
  show ?case
  proof (cases "spl_transfer_of m i")
    case None
    then have "\<not> is_transfer_of m i t" by (simp flip: spl_transfer_of_Inr)
    with None Cons.IH show ?thesis
      by (auto simp: Cons_eq_append_conv) (metis append_Cons list.set_intros set_ConsD)+
  next
    case (Some r)
    then have "r = Inr t \<longleftrightarrow> is_transfer_of m i t" by (simp flip: spl_transfer_of_Inr)
    with Some show ?thesis
      by (auto simp: Cons_eq_append_conv intro!: exI [of _ "[]"])
  qed
qed simp

text \<open>
  The transfer the payment checks look at is a real one: it is reported exactly when some
  instruction of a token program is a complete \<open>Transfer\<close> or \<open>TransferChecked\<close> whose amount,
  destination and mint are the reported ones, and no earlier instruction is a transfer at all.
\<close>
theorem extract_spl_transfer_first:
  "extract_spl_transfer m = Inr t \<longleftrightarrow>
   (\<exists>pre ix post. instructions m = pre @ ix # post \<and> (\<forall>i \<in> set pre. spl_transfer_of m i = None)
      \<and> is_transfer_of m ix t)"
  unfolding extract_spl_transfer_def by (rule extract_from_Inr)

section \<open>A worked message\<close>

definition demo_message :: parsed_message where
  "demo_message = \<lparr>pm_header = \<lparr>num_required_signatures = 1, num_readonly_signed_accounts = 0,
       num_readonly_unsigned_accounts = 1\<rparr>,
     account_keys = [replicate 32 1, replicate 32 2, replicate 32 3, TOKEN_PROGRAM_ID],
     recent_blockhash = replicate 32 9,
     instructions = [\<lparr>program_id_index = 3, ix_accounts = [0, 2, 1, 0],
                      ix_data = 12 # to_le_bytes 5 @ [6]\<rparr>],
     is_v0 = False\<rparr>"

theorem parsed_message_roundtrip_witness:
  "wf_message demo_message
   \<and> parsed_message_from_bytes (encode_message demo_message @ [0]) = Inr demo_message"
proof -
  have "wf_message demo_message"
    by (simp add: wf_message_def demo_message_def wf_instruction_def)
  with parsed_message_roundtrip [OF this, of "[0]"] show ?thesis by simp
qed

theorem versioned_transaction_roundtrip_witness:
  "versioned_transaction_from_bytes (encode_transaction [replicate 64 7] (encode_message demo_message))
   = Inr \<lparr>vt_signatures = [replicate 64 7], vt_message_bytes = encode_message demo_message\<rparr>"
  using versioned_transaction_roundtrip [of "[replicate 64 7]"] by simp

theorem extract_spl_transfer_first_witness:
  "extract_spl_transfer demo_message
     = Inr \<lparr>ti_destination = replicate 32 2, ti_amount = 5, ti_mint = Some (replicate 32 3)\<rparr>"
proof -
  have "is_transfer_of demo_message (hd (instructions demo_message))
      \<lparr>ti_destination = replicate 32 2, ti_amount = 5, ti_mint = Some (replicate 32 3)\<rparr>"
    by (simp add: is_transfer_of_def demo_message_def key_at_def is_token_program_def)
  moreover have "instructions demo_message = [] @ hd (instructions demo_message) # []"
    by (simp add: demo_message_def)
  ultimately show ?thesis
    unfolding extract_spl_transfer_first by fastforce
qed

end
