(* ===== verification/Fee_Payer.thy ===== *)
theory Fee_Payer
  imports Solana_Keys
begin

text \<open>
  The fee-payer pool (\<open>crates/x402/src/fee_payer.rs\<close>): key loading, round-robin selection with
  failover and cooldown. Instants are milliseconds of a monotonic clock; the slot counter is a
  machine word incremented with wrap-around.
\<close>

section \<open>Wallets and loading\<close>

record fee_payer_wallet =
  fp_keypair :: bytes
  fp_pubkey_b58 :: string
  fp_index :: nat
  fp_failed_at :: "nat option"

record fee_payer_pool =
  fpp_wallets :: "fee_payer_wallet list"
  fpp_counter :: u64
  fpp_cooldown :: nat

datatype fee_payer_error =
    Empty
  | InvalidKey nat "nat option" \<comment> \<open>key index, decoded length when base58 was valid\<close>
  | AllFailed
  | SigningFailed

definition DEFAULT_COOLDOWN_SECS :: nat where
  "DEFAULT_COOLDOWN_SECS = 60"

primrec load_wallets ::
  "crypto \<Rightarrow> nat \<Rightarrow> string list \<Rightarrow> (fee_payer_error, fee_payer_wallet list) result" where
  "load_wallets cr i [] = Inr []"
| "load_wallets cr i (key_b58 # keys) =
    (case bs58_decode cr key_b58 of
       None \<Rightarrow> Inl (InvalidKey i None)
     | Some key_bytes \<Rightarrow>
       if length key_bytes \<noteq> 64 then Inl (InvalidKey i (Some (length key_bytes)))
       else and_then (load_wallets cr (i + 1) keys) (\<lambda>ws.
         Inr (\<lparr>fp_keypair = key_bytes, fp_pubkey_b58 = bs58_encode cr (drop 32 key_bytes),
               fp_index = i, fp_failed_at = None\<rparr> # ws)))"

definition from_keys_with_cooldown ::
  "crypto \<Rightarrow> string list \<Rightarrow> nat \<Rightarrow> (fee_payer_error, fee_payer_pool) result" where
  "from_keys_with_cooldown cr keys cooldown =
    (if keys = [] then Inl Empty
     else and_then (load_wallets cr 0 keys) (\<lambda>ws.
       Inr \<lparr>fpp_wallets = ws, fpp_counter = 0, fpp_cooldown = cooldown\<rparr>))"

definition from_keys :: "crypto \<Rightarrow> string list \<Rightarrow> (fee_payer_error, fee_payer_pool) result" where
  "from_keys cr keys = from_keys_with_cooldown cr keys (DEFAULT_COOLDOWN_SECS * 1000)"

section \<open>Selection\<close>

primrec next_scan ::
  "nat \<Rightarrow> nat \<Rightarrow> u64 \<Rightarrow> fee_payer_wallet list \<Rightarrow> nat list
     \<Rightarrow> (fee_payer_error, fee_payer_wallet) result \<times> fee_payer_wallet list" where
  "next_scan now cooldown start ws [] = (Inl AllFailed, ws)"
| "next_scan now cooldown start ws (offset # offsets) =
    (let idx = unat (start + of_nat offset) mod length ws; wallet = ws ! idx in
     case fp_failed_at wallet of
       None \<Rightarrow> (Inr wallet, ws)
     | Some failed_time \<Rightarrow>
       if cooldown \<le> now - failed_time then
         let recovered = wallet\<lparr>fp_failed_at := None\<rparr> in (Inr recovered, ws[idx := recovered])
       else next_scan now cooldown start ws offsets)"

definition next_wallet ::
  "nat \<Rightarrow> fee_payer_pool \<Rightarrow> (fee_payer_error, fee_payer_wallet) result \<times> fee_payer_pool" where
  "next_wallet now pool =
    (let n = length (fpp_wallets pool) in
     if n = 0 then (Inl AllFailed, pool)
     else
       let start = fpp_counter pool;
           (r, ws) = next_scan now (fpp_cooldown pool) start (fpp_wallets pool) [0..<n] in
       (r, pool\<lparr>fpp_counter := start + 1, fpp_wallets := ws\<rparr>))"

definition mark_failed :: "nat \<Rightarrow> nat \<Rightarrow> fee_payer_pool \<Rightarrow> fee_payer_pool" where
  "mark_failed now index pool =
    (if index < length (fpp_wallets pool) then
       pool\<lparr>fpp_wallets := (fpp_wallets pool)
         [index := (fpp_wallets pool ! index)\<lparr>fp_failed_at := Some now\<rparr>]\<rparr>
     else pool)"

definition mark_healthy :: "nat \<Rightarrow> fee_payer_pool \<Rightarrow> fee_payer_pool" where
  "mark_healthy index pool =
    (if index < length (fpp_wallets pool) then
       pool\<lparr>fpp_wallets := (fpp_wallets pool)
         [index := (fpp_wallets pool ! index)\<lparr>fp_failed_at := None\<rparr>]\<rparr>
     else pool)"

definition pool_pubkeys :: "fee_payer_pool \<Rightarrow> string list" where
  "pool_pubkeys pool = map fp_pubkey_b58 (fpp_wallets pool)"

section \<open>Properties\<close>

definition in_cooldown :: "nat \<Rightarrow> nat \<Rightarrow> fee_payer_wallet \<Rightarrow> bool" where
  "in_cooldown now cooldown w \<longleftrightarrow>
     (case fp_failed_at w of None \<Rightarrow> False | Some t \<Rightarrow> now - t < cooldown)"

text \<open>The scan returns the first candidate that is not in cooldown.\<close>

lemma next_scan_eq:
  assumes "ws \<noteq> []"
  shows "next_scan now cd start ws offs =
    (case find (\<lambda>k. \<not> in_cooldown now cd (ws ! (unat (start + of_nat k) mod length ws))) offs of
       None \<Rightarrow> (Inl AllFailed, ws)
     | Some k \<Rightarrow>
         let idx = unat (start + of_nat k) mod length ws; w = (ws ! idx)\<lparr>fp_failed_at := None\<rparr> in
         (Inr w, ws[idx := w]))"
proof (induction offs)
  case (Cons k offs)
  let ?i = "unat (start + of_nat k) mod length ws"
  have same: "(ws ! ?i)\<lparr>fp_failed_at := None\<rparr> = ws ! ?i" if "fp_failed_at (ws ! ?i) = None"
    using that by simp
  show ?case
  proof (cases "fp_failed_at (ws ! ?i)")
    case None
    with same have "ws[?i := (ws ! ?i)\<lparr>fp_failed_at := None\<rparr>] = ws"
      by (metis list_update_id)
    with None same show ?thesis
      by (simp add: Let_def in_cooldown_def)
  next
    case (Some t)
    with Cons show ?thesis
      by (simp add: Let_def in_cooldown_def not_less)
  qed
qed simp

lemma unat_start_offset:
  "unat (start :: u64) + n \<le> 2 ^ 64 \<Longrightarrow> k < n \<Longrightarrow> unat (start + of_nat k) = unat start + k"
  by (simp add: unat_word_ariths unat_of_nat)

lemma rotation_covers:
  "j < n \<Longrightarrow> \<exists>k < n. (s + k) mod n = (j :: nat)"
proof -
  assume j: "j < n"
  define k where "k = (n + j - s mod n) mod n"
  have "(s + k) mod n = (s mod n + (n + j - s mod n)) mod n"
    by (simp add: k_def mod_simps)
  also have "s mod n + (n + j - s mod n) = n + j"
    using j mod_less_divisor [of n s] by linarith
  also have "(n + j) mod n = j"
    using j by simp
  finally show ?thesis using j by (auto simp: k_def intro!: exI [of _ k])
qed

text \<open>
  Selection never fails while a usable wallet exists and never hands out a wallet in cooldown:
  away from counter wrap-around, it reports \<open>AllFailed\<close> exactly when every wallet is in
  cooldown, and otherwise returns the first usable wallet of the rotation that starts at the
  claimed slot, marked healthy, with the counter advanced by one.
\<close>
theorem next_wallet_rotation:
  assumes "fpp_wallets pool \<noteq> []"
    and "unat (fpp_counter pool) + length (fpp_wallets pool) \<le> 2 ^ 64"
  shows "case next_wallet now pool of (res, pool') \<Rightarrow>
    fpp_counter pool' = fpp_counter pool + 1
    \<and> (res = Inl AllFailed \<longleftrightarrow> list_all (in_cooldown now (fpp_cooldown pool)) (fpp_wallets pool))
    \<and> (case res of Inl e \<Rightarrow> e = AllFailed
       | Inr w \<Rightarrow> (\<exists>k < length (fpp_wallets pool).
           let idx = (unat (fpp_counter pool) + k) mod length (fpp_wallets pool) in
             w = (fpp_wallets pool ! idx)\<lparr>fp_failed_at := None\<rparr>
             \<and> \<not> in_cooldown now (fpp_cooldown pool) (fpp_wallets pool ! idx)
             \<and> list_all (\<lambda>j. in_cooldown now (fpp_cooldown pool)
                 (fpp_wallets pool ! ((unat (fpp_counter pool) + j) mod length (fpp_wallets pool))))
                 [0..<k]))"
proof -
  let ?ws = "fpp_wallets pool" and ?cd = "fpp_cooldown pool" and ?s = "fpp_counter pool"
  let ?n = "length ?ws"
  let ?P = "\<lambda>k. \<not> in_cooldown now ?cd (?ws ! (unat (?s + of_nat k) mod ?n))"
  have idx: "unat (?s + of_nat k) = unat ?s + k" if "k < ?n" for k
    using unat_start_offset [OF assms(2) that] .
  have all: "find ?P [0..<?n] = None \<longleftrightarrow> list_all (in_cooldown now ?cd) ?ws"
  proof -
    have "(\<forall>k < ?n. in_cooldown now ?cd (?ws ! ((unat ?s + k) mod ?n))) \<longleftrightarrow>
        (\<forall>j < ?n. in_cooldown now ?cd (?ws ! j))"
      using rotation_covers [of _ ?n "unat ?s"] assms(1)
      by (metis length_greater_0_conv mod_less_divisor)
    then show ?thesis
      by (auto simp: find_None_iff idx list_all_length)
  qed
  show ?thesis
  proof (cases "find ?P [0..<?n]")
    case None
    with all assms(1) show ?thesis
      by (simp add: next_wallet_def next_scan_eq)
  next
    case (Some k)
    then obtain i where "i < ?n" "?P ([0..<?n] ! i)" "k = [0..<?n] ! i" "\<forall>j < i. \<not> ?P ([0..<?n] ! j)"
      by (auto simp: find_Some_iff)
    then have k: "k < ?n" "?P k" "\<forall>j < k. \<not> ?P j" by auto
    then have "\<forall>j < k. in_cooldown now ?cd (?ws ! ((unat ?s + j) mod ?n))"
      using idx by (metis order_less_trans)
    with k idx Some all assms(1) show ?thesis
      by (auto simp: next_wallet_def next_scan_eq Let_def list_all_iff intro!: exI [of _ k])
  qed
qed

definition demo_pool :: fee_payer_pool where
  "demo_pool = \<lparr>fpp_wallets =
      [\<lparr>fp_keypair = [1], fp_pubkey_b58 = ''w0'', fp_index = 0, fp_failed_at = Some 900\<rparr>,
       \<lparr>fp_keypair = [2], fp_pubkey_b58 = ''w1'', fp_index = 1, fp_failed_at = None\<rparr>],
     fpp_counter = 4, fpp_cooldown = 500\<rparr>"

theorem next_wallet_rotation_witness:
  "fst (next_wallet 1000 demo_pool) \<noteq> Inl AllFailed"
  using next_wallet_rotation [of demo_pool 1000]
  by (auto simp: demo_pool_def in_cooldown_def split: prod.splits)

end
