(* ===== verification/Usdc_Transfer.thy ===== *)
theory Usdc_Transfer
  imports Wire_Format Channel_Voucher Fee_Payer
begin

text \<open>
  The refund transaction (\<open>crates/x402/src/usdc_transfer.rs\<close> and the signing surface of
  \<open>fee_payer.rs\<close>): the byte-exact builder, the signer, and the confirm gate that proves persisted
  bytes pay one obligation. The ed25519 signer and base64 are packages outside the repository; the
  parameter \<open>sg\<close> stands for them.
\<close>

record signing =
  keypair_pubkey :: "bytes \<Rightarrow> pubkey option" \<comment> \<open>\<open>from_keypair_bytes\<close> and its verifying key\<close>
  ed_sign :: "bytes \<Rightarrow> bytes \<Rightarrow> bytes" \<comment> \<open>keypair, message\<close>
  b64_encode :: "bytes \<Rightarrow> string"

section \<open>Building\<close>

definition USDC_DECIMALS :: u8 where
  "USDC_DECIMALS = 6"

definition TRANSFER_CHECKED_DISCRIMINATOR :: u8 where
  "TRANSFER_CHECKED_DISCRIMINATOR = 12"

definition CREATE_IDEMPOTENT_DISCRIMINATOR :: u8 where
  "CREATE_IDEMPOTENT_DISCRIMINATOR = 1"

definition MAX_MEMO_LEN :: nat where
  "MAX_MEMO_LEN = 127"

datatype usdc_transfer_error =
    ZeroAmount
  | InvalidKeypair
  | KeypairMismatch
  | AtaDerivation string
  | EmptyMemo
  | MemoTooLong nat

record signed_usdc_transfer =
  wire_bytes :: bytes
  base64_tx :: string
  signature_b58 :: string

definition check_memo :: "string option \<Rightarrow> (usdc_transfer_error, unit) result" where
  "check_memo memo =
    (case memo of
       None \<Rightarrow> Inr ()
     | Some m \<Rightarrow> if m = [] then Inl EmptyMemo
                else if MAX_MEMO_LEN < length m then Inl (MemoTooLong (length m))
                else Inr ())"

definition build_transfer_message ::
  "crypto \<Rightarrow> pubkey \<Rightarrow> pubkey \<Rightarrow> pubkey \<Rightarrow> u64 \<Rightarrow> bytes \<Rightarrow> string option
     \<Rightarrow> (usdc_transfer_error, bytes) result" where
  "build_transfer_message cr owner destination_wallet mint amount blockhash memo =
    (if amount = 0 then Inl ZeroAmount
     else and_then (check_memo memo) (\<lambda>_.
       and_then (ok_or (AtaDerivation ''source'') (derive_ata cr owner mint TOKEN_PROGRAM_ID))
         (\<lambda>source_ata.
       and_then (ok_or (AtaDerivation ''destination'')
                   (derive_ata cr destination_wallet mint TOKEN_PROGRAM_ID))
         (\<lambda>destination_ata.
       let ix_dat = [TRANSFER_CHECKED_DISCRIMINATOR] @ to_le_bytes amount @ [USDC_DECIMALS] in
       Inr ([1, 0, if memo \<noteq> None then 6 else 5]
          @ [if memo \<noteq> None then 9 else 8]
          @ owner @ source_ata @ destination_ata @ destination_wallet @ mint @ SYSTEM_PROGRAM
          @ TOKEN_PROGRAM_ID @ ASSOCIATED_TOKEN_PROGRAM_ID
          @ (if memo \<noteq> None then MEMO_PROGRAM_ID else [])
          @ blockhash
          @ [if memo \<noteq> None then 3 else 2]
          @ [7, 6] @ [0, 2, 3, 4, 5, 6] @ [1, CREATE_IDEMPOTENT_DISCRIMINATOR]
          @ [6, 4] @ [1, 4, 2, 0] @ [of_nat (length ix_dat)] @ ix_dat
          @ (case memo of None \<Rightarrow> [] | Some m \<Rightarrow> [8, 0, of_nat (length m)] @ ascii m))))))"

definition build_usdc_transfer_checked_message ::
  "crypto \<Rightarrow> pubkey \<Rightarrow> pubkey \<Rightarrow> pubkey \<Rightarrow> u64 \<Rightarrow> bytes \<Rightarrow> (usdc_transfer_error, bytes) result" where
  "build_usdc_transfer_checked_message cr owner destination_wallet mint amount blockhash =
     build_transfer_message cr owner destination_wallet mint amount blockhash None"

definition build_usdc_transfer_checked_with_memo_message ::
  "crypto \<Rightarrow> pubkey \<Rightarrow> pubkey \<Rightarrow> pubkey \<Rightarrow> u64 \<Rightarrow> bytes \<Rightarrow> string
     \<Rightarrow> (usdc_transfer_error, bytes) result" where
  "build_usdc_transfer_checked_with_memo_message cr owner destination_wallet mint amount
      blockhash memo =
     build_transfer_message cr owner destination_wallet mint amount blockhash (Some memo)"

section \<open>Signing\<close>

definition sign_transfer_message ::
  "crypto \<Rightarrow> signing \<Rightarrow> pubkey \<Rightarrow> pubkey \<Rightarrow> pubkey \<Rightarrow> u64 \<Rightarrow> bytes \<Rightarrow> string option \<Rightarrow> bytes
     \<Rightarrow> (usdc_transfer_error, signed_usdc_transfer) result" where
  "sign_transfer_message cr sg owner destination_wallet mint amount blockhash memo
      owner_keypair =
    (case keypair_pubkey sg owner_keypair of
       None \<Rightarrow> Inl InvalidKeypair
     | Some signer_pubkey \<Rightarrow>
       if signer_pubkey \<noteq> owner then Inl KeypairMismatch
       else and_then
         (case memo of
            Some m \<Rightarrow> build_usdc_transfer_checked_with_memo_message cr owner destination_wallet mint
                        amount blockhash m
          | None \<Rightarrow> build_usdc_transfer_checked_message cr owner destination_wallet mint amount
                      blockhash)
         (\<lambda>msg.
           let signature = ed_sign sg owner_keypair msg; wire = [1] @ signature @ msg in
           Inr \<lparr>wire_bytes = wire, base64_tx = b64_encode sg wire,
                signature_b58 = bs58_encode cr signature\<rparr>))"

definition sign_usdc_transfer_checked_with_memo ::
  "crypto \<Rightarrow> signing \<Rightarrow> pubkey \<Rightarrow> pubkey \<Rightarrow> pubkey \<Rightarrow> u64 \<Rightarrow> bytes \<Rightarrow> string \<Rightarrow> bytes
     \<Rightarrow> (usdc_transfer_error, signed_usdc_transfer) result" where
  "sign_usdc_transfer_checked_with_memo cr sg owner destination_wallet mint amount
      blockhash memo owner_keypair =
     sign_transfer_message cr sg owner destination_wallet mint amount blockhash (Some memo)
       owner_keypair"

definition sign_usdc_transfer_checked ::
  "crypto \<Rightarrow> signing \<Rightarrow> pubkey \<Rightarrow> pubkey \<Rightarrow> pubkey \<Rightarrow> u64 \<Rightarrow> bytes \<Rightarrow> bytes
     \<Rightarrow> (usdc_transfer_error, signed_usdc_transfer) result" where
  "sign_usdc_transfer_checked cr sg owner destination_wallet mint amount blockhash
      owner_keypair =
     sign_transfer_message cr sg owner destination_wallet mint amount blockhash None
       owner_keypair"

text \<open>The fee-payer wallet's typed surface: the owner is always the wallet's own key.\<close>

definition wallet_sign_usdc_transfer_checked_with_memo ::
  "crypto \<Rightarrow> signing \<Rightarrow> fee_payer_wallet \<Rightarrow> pubkey \<Rightarrow> pubkey \<Rightarrow> u64 \<Rightarrow> bytes \<Rightarrow> string
     \<Rightarrow> (usdc_transfer_error, signed_usdc_transfer) result" where
  "wallet_sign_usdc_transfer_checked_with_memo cr sg w destination_wallet mint amount
      blockhash memo =
     and_then (ok_or InvalidKeypair (keypair_pubkey sg (fp_keypair w))) (\<lambda>owner.
       sign_usdc_transfer_checked_with_memo cr sg owner destination_wallet mint amount
         blockhash memo (fp_keypair w))"

section \<open>The confirm gate\<close>

record expected_usdc_transfer =
  ex_signature_b58 :: string
  ex_source_owner :: pubkey
  ex_destination_wallet :: pubkey
  ex_mint :: pubkey
  ex_amount :: u64
  ex_memo :: string

datatype usdc_transfer_verify_error =
    Unparsable transaction_error
  | SignatureCount nat
  | SignatureMismatch
  | InvalidOwnerKey
  | SignatureInvalid
  | MissingTransfer spl_error
  | AmountMismatch u64 u64
  | VerifyAtaDerivation
  | DestinationMismatch
  | MintMismatch
  | MemoMismatch

definition memo_instructions :: "parsed_message \<Rightarrow> compiled_instruction list" where
  "memo_instructions m =
     filter (\<lambda>ix. key_at m (program_id_index ix) = Some MEMO_PROGRAM_ID) (instructions m)"

definition map_err :: "('e \<Rightarrow> 'f) \<Rightarrow> ('e, 'a) result \<Rightarrow> ('f, 'a) result" where
  "map_err f r = map_sum f id r"

definition verify_signed_usdc_transfer ::
  "crypto \<Rightarrow> ed25519 \<Rightarrow> bytes \<Rightarrow> expected_usdc_transfer \<Rightarrow> (usdc_transfer_verify_error, unit) result"
where
  "verify_signed_usdc_transfer cr ed wire ex =
    and_then (map_err Unparsable (versioned_transaction_from_bytes wire)) (\<lambda>tx.
      if length (vt_signatures tx) \<noteq> 1 then Inl (SignatureCount (length (vt_signatures tx)))
      else
        let sig_bytes = vt_signatures tx ! 0 in
        if bs58_encode cr sig_bytes \<noteq> ex_signature_b58 ex then Inl SignatureMismatch
        else if \<not> valid_key ed (ex_source_owner ex) then Inl InvalidOwnerKey
        else if \<not> verify_sig ed (ex_source_owner ex) (vt_message_bytes tx) sig_bytes
          then Inl SignatureInvalid
        else and_then (map_err Unparsable (parsed_message_from_bytes (vt_message_bytes tx))) (\<lambda>msg.
          and_then (map_err MissingTransfer (extract_spl_transfer msg)) (\<lambda>transfer.
            if ti_amount transfer \<noteq> ex_amount ex
              then Inl (AmountMismatch (ex_amount ex) (ti_amount transfer))
            else and_then (ok_or VerifyAtaDerivation
                   (derive_ata cr (ex_destination_wallet ex) (ex_mint ex) TOKEN_PROGRAM_ID))
              (\<lambda>destination_ata.
                if ti_destination transfer \<noteq> destination_ata then Inl DestinationMismatch
                else if ti_mint transfer \<noteq> Some (ex_mint ex) then Inl MintMismatch
                else case memo_instructions msg of
                  [memo_ix] \<Rightarrow> if ix_data memo_ix = ascii (ex_memo ex) then Inr ()
                               else Inl MemoMismatch
                | _ \<Rightarrow> Inl MemoMismatch))))"

section \<open>The built message\<close>

definition transfer_message ::
  "pubkey \<Rightarrow> pubkey \<Rightarrow> pubkey \<Rightarrow> pubkey \<Rightarrow> pubkey \<Rightarrow> u64 \<Rightarrow> bytes \<Rightarrow> string option \<Rightarrow> parsed_message" where
  "transfer_message owner source_ata destination_ata destination_wallet mint amount blockhash memo =
    \<lparr>pm_header = \<lparr>num_required_signatures = 1, num_readonly_signed_accounts = 0,
       num_readonly_unsigned_accounts = (if memo = None then 5 else 6)\<rparr>,
     account_keys = [owner, source_ata, destination_ata, destination_wallet, mint, SYSTEM_PROGRAM,
         TOKEN_PROGRAM_ID, ASSOCIATED_TOKEN_PROGRAM_ID]
         @ (if memo = None then [] else [MEMO_PROGRAM_ID]),
     recent_blockhash = blockhash,
     instructions =
       [\<lparr>program_id_index = 7, ix_accounts = [0, 2, 3, 4, 5, 6], ix_data = [1]\<rparr>,
        \<lparr>program_id_index = 6, ix_accounts = [1, 4, 2, 0], ix_data = 12 # to_le_bytes amount @ [6]\<rparr>]
       @ (case memo of None \<Rightarrow> []
          | Some m \<Rightarrow> [\<lparr>program_id_index = 8, ix_accounts = [], ix_data = ascii m\<rparr>]),
     is_v0 = False\<rparr>"

lemma build_transfer_message_Inr:
  "build_transfer_message cr owner dest mint amount blockhash memo = Inr b \<longleftrightarrow>
   amount \<noteq> 0 \<and> check_memo memo = Inr ()
   \<and> (\<exists>s d. derive_ata cr owner mint TOKEN_PROGRAM_ID = Some s
        \<and> derive_ata cr dest mint TOKEN_PROGRAM_ID = Some d
        \<and> b = encode_message (transfer_message owner s d dest mint amount blockhash memo))"
proof -
  have "check_memo (Some m) = Inr () \<Longrightarrow> length m < 128" for m
    by (auto simp: check_memo_def MAX_MEMO_LEN_def split: if_splits)
  then show ?thesis
    by (cases memo)
      (auto simp: build_transfer_message_def and_then_Inr_iff Let_def transfer_message_def
        encode_message_def encode_instruction_def encode_compact_small USDC_DECIMALS_def
        TRANSFER_CHECKED_DISCRIMINATOR_def CREATE_IDEMPOTENT_DISCRIMINATOR_def)
qed

lemma derive_ata_length:
  assumes "\<And>bs. length (sha256 cr bs) = 32" "derive_ata cr w m p = Some a"
  shows "length a = 32"
proof -
  have "derive_ata_loop cr w m p n = Some a \<Longrightarrow> length a = 32" for n
    by (induction n) (auto simp: Let_def assms(1) split: if_splits)
  with assms(2) show ?thesis by (simp add: derive_ata_def)
qed

lemma wf_transfer_message:
  assumes "\<And>bs. length (sha256 cr bs) = 32" "check_memo memo = Inr ()"
    and "length owner = 32" "length dest = 32" "length mint = 32" "length blockhash = 32"
    and "derive_ata cr owner mint TOKEN_PROGRAM_ID = Some s"
    and "derive_ata cr dest mint TOKEN_PROGRAM_ID = Some d"
  shows "wf_message (transfer_message owner s d dest mint amount blockhash memo)"
  using assms derive_ata_length [OF assms(1) assms(7)] derive_ata_length [OF assms(1) assms(8)]
  by (cases memo) (auto simp: wf_message_def transfer_message_def wf_instruction_def check_memo_def
      MAX_MEMO_LEN_def split: if_splits)

lemma parse_built_message:
  assumes "\<And>bs. length (sha256 cr bs) = 32"
    and "length owner = 32" "length dest = 32" "length mint = 32" "length blockhash = 32"
    and "build_transfer_message cr owner dest mint amount blockhash memo = Inr b"
  shows "\<exists>s d. derive_ata cr owner mint TOKEN_PROGRAM_ID = Some s
    \<and> derive_ata cr dest mint TOKEN_PROGRAM_ID = Some d
    \<and> parsed_message_from_bytes b
        = Inr (transfer_message owner s d dest mint amount blockhash memo)"
proof -
  from assms(6) obtain s d where sd: "derive_ata cr owner mint TOKEN_PROGRAM_ID = Some s"
    "derive_ata cr dest mint TOKEN_PROGRAM_ID = Some d"
    "b = encode_message (transfer_message owner s d dest mint amount blockhash memo)"
    and memo: "check_memo memo = Inr ()"
    by (auto simp: build_transfer_message_Inr)
  from message_roundtrip_aux [OF wf_transfer_message [OF assms(1) memo assms(2-5) sd(1,2)], of _ "[]"]
  show ?thesis using sd by auto
qed

lemma program_ids_distinct [simp]:
  "TOKEN_PROGRAM_ID \<noteq> MEMO_PROGRAM_ID" "ASSOCIATED_TOKEN_PROGRAM_ID \<noteq> MEMO_PROGRAM_ID"
  "ASSOCIATED_TOKEN_PROGRAM_ID \<noteq> TOKEN_PROGRAM_ID"
  "ASSOCIATED_TOKEN_PROGRAM_ID \<noteq> TOKEN_2022_PROGRAM_ID"
  by (simp_all add: TOKEN_PROGRAM_ID_def MEMO_PROGRAM_ID_def ASSOCIATED_TOKEN_PROGRAM_ID_def
      TOKEN_2022_PROGRAM_ID_def)

lemma extract_transfer_message:
  "extract_spl_transfer (transfer_message owner s d dest mint amount blockhash memo)
    = Inr \<lparr>ti_destination = d, ti_amount = amount, ti_mint = Some mint\<rparr>"
  by (simp add: extract_spl_transfer_def transfer_message_def spl_transfer_of_def key_at_def
      is_token_program_def nth_append)

lemma memo_transfer_message:
  "memo_instructions (transfer_message owner s d dest mint amount blockhash (Some m))
    = [\<lparr>program_id_index = 8, ix_accounts = [], ix_data = ascii m\<rparr>]"
  by (simp add: memo_instructions_def transfer_message_def key_at_def nth_append)

section \<open>Correctness of signing and confirming\<close>

text \<open>What the ed25519 package promises: a signature of the key pair is 64 bytes and verifies
  under its public key, and SHA-256 gives 32 bytes.\<close>

definition signing_laws :: "crypto \<Rightarrow> ed25519 \<Rightarrow> signing \<Rightarrow> bool" where
  "signing_laws cr ed sg \<longleftrightarrow>
     (\<forall>bs. length (sha256 cr bs) = 32)
     \<and> (\<forall>kp pk msg. keypair_pubkey sg kp = Some pk \<longrightarrow> length pk = 32 \<and> valid_key ed pk
          \<and> length (ed_sign sg kp msg) = 64 \<and> verify_sig ed pk msg (ed_sign sg kp msg))"

lemma map_err_Inr_iff [simp]: "map_err f r = Inr x \<longleftrightarrow> r = Inr x"
  by (cases r) (simp_all add: map_err_def)

lemma map_err_Inr [simp]: "map_err f (Inr x) = Inr x"
  by (simp add: map_err_def)

lemma sign_with_memo_verifies:
  assumes laws: "signing_laws cr ed sg"
    and lens: "length dest = 32" "length mint = 32" "length blockhash = 32"
    and signed: "sign_usdc_transfer_checked_with_memo cr sg owner dest mint amount blockhash memo kp = Inr s"
  shows "verify_signed_usdc_transfer cr ed (wire_bytes s)
    \<lparr>ex_signature_b58 = signature_b58 s, ex_source_owner = owner, ex_destination_wallet = dest,
     ex_mint = mint, ex_amount = amount, ex_memo = memo\<rparr> = Inr ()"
proof -
  from signed obtain msg where key: "keypair_pubkey sg kp = Some owner"
    and msg: "build_transfer_message cr owner dest mint amount blockhash (Some memo) = Inr msg"
    and s: "s = \<lparr>wire_bytes = [1] @ ed_sign sg kp msg @ msg,
        base64_tx = b64_encode sg ([1] @ ed_sign sg kp msg @ msg),
        signature_b58 = bs58_encode cr (ed_sign sg kp msg)\<rparr>"
    by (auto simp: sign_usdc_transfer_checked_with_memo_def sign_transfer_message_def
        build_usdc_transfer_checked_with_memo_message_def and_then_Inr_iff Let_def
        split: option.splits if_splits)
  from laws key have ed: "length owner = 32" "valid_key ed owner" "length (ed_sign sg kp msg) = 64"
    "verify_sig ed owner msg (ed_sign sg kp msg)" and sha: "\<And>bs. length (sha256 cr bs) = 32"
    unfolding signing_laws_def by blast+
  have "[1] @ ed_sign sg kp msg @ msg = encode_transaction [ed_sign sg kp msg] msg"
    by (simp add: encode_transaction_def encode_compact_small)
  with transaction_roundtrip_aux [of "[ed_sign sg kp msg]" msg] ed(3)
  have tx: "versioned_transaction_from_bytes ([1] @ ed_sign sg kp msg @ msg)
      = Inr \<lparr>vt_signatures = [ed_sign sg kp msg], vt_message_bytes = msg\<rparr>" by simp
  from parse_built_message [OF sha ed(1) lens msg] obtain sa d where
    d: "derive_ata cr dest mint TOKEN_PROGRAM_ID = Some d" and
    p: "parsed_message_from_bytes msg
        = Inr (transfer_message owner sa d dest mint amount blockhash (Some memo))"
    by blast
  show ?thesis
    using tx p d ed by (simp add: s verify_signed_usdc_transfer_def extract_transfer_message
        memo_transfer_message)
qed

lemma verify_Inr:
  assumes "verify_signed_usdc_transfer cr ed wire ex = Inr ()"
  obtains sig msg m t d ix where
    "versioned_transaction_from_bytes wire = Inr \<lparr>vt_signatures = [sig], vt_message_bytes = msg\<rparr>"
    "bs58_encode cr sig = ex_signature_b58 ex" "verify_sig ed (ex_source_owner ex) msg sig"
    "parsed_message_from_bytes msg = Inr m" "extract_spl_transfer m = Inr t"
    "ti_amount t = ex_amount ex"
    "derive_ata cr (ex_destination_wallet ex) (ex_mint ex) TOKEN_PROGRAM_ID = Some (ti_destination t)"
    "ti_mint t = Some (ex_mint ex)" "memo_instructions m = [ix]" "ix_data ix = ascii (ex_memo ex)"
proof -
  from assms obtain tx m t where tx: "versioned_transaction_from_bytes wire = Inr tx"
    and one: "length (vt_signatures tx) = 1" and *: "bs58_encode cr (vt_signatures tx ! 0) = ex_signature_b58 ex"
      "verify_sig ed (ex_source_owner ex) (vt_message_bytes tx) (vt_signatures tx ! 0)"
      "parsed_message_from_bytes (vt_message_bytes tx) = Inr m" "extract_spl_transfer m = Inr t"
      "ti_amount t = ex_amount ex"
      "derive_ata cr (ex_destination_wallet ex) (ex_mint ex) TOKEN_PROGRAM_ID = Some (ti_destination t)"
      "ti_mint t = Some (ex_mint ex)"
      "(case memo_instructions m of [ix] \<Rightarrow> if ix_data ix = ascii (ex_memo ex) then Inr ()
          else Inl MemoMismatch | _ \<Rightarrow> Inl MemoMismatch) = Inr ()"
    by (auto simp: verify_signed_usdc_transfer_def and_then_Inr_iff Let_def split: if_splits)
  from one obtain sig where sig: "vt_signatures tx = [sig]" by (cases "vt_signatures tx") auto
  from *(8) obtain ix where ix: "memo_instructions m = [ix]" "ix_data ix = ascii (ex_memo ex)"
    by (auto split: list.splits if_splits)
  from tx sig have "versioned_transaction_from_bytes wire
      = Inr \<lparr>vt_signatures = [sig], vt_message_bytes = vt_message_bytes tx\<rparr>" by (cases tx) simp
  with * sig ix show thesis by (intro that) auto
qed

text \<open>
  C31. What the refund signer produces is what the confirm gate accepts: the signed bytes of a
  transfer with a memo verify against the very obligation they were signed for.
\<close>
theorem signed_transfer_confirms:
  assumes "signing_laws cr ed sg"
    and "length dest = 32" and "length mint = 32" and "length blockhash = 32"
    and "sign_usdc_transfer_checked_with_memo cr sg owner dest mint amount blockhash memo kp = Inr s"
  shows "verify_signed_usdc_transfer cr ed (wire_bytes s)
    \<lparr>ex_signature_b58 = signature_b58 s, ex_source_owner = owner, ex_destination_wallet = dest,
     ex_mint = mint, ex_amount = amount, ex_memo = memo\<rparr> = Inr ()"
  by (rule sign_with_memo_verifies [OF assms])

text \<open>
  C8. The confirm gate accepts only bytes whose single signature is the tracked one and verifies
  under the source owner, whose first token transfer pays exactly the obligation's amount in its
  mint to the destination's associated account, and whose only memo is the obligation's.
\<close>
theorem confirm_gate_sound:
  assumes "verify_signed_usdc_transfer cr ed wire ex = Inr ()"
  shows "\<exists>sig msg m t ix.
    versioned_transaction_from_bytes wire = Inr \<lparr>vt_signatures = [sig], vt_message_bytes = msg\<rparr>
    \<and> bs58_encode cr sig = ex_signature_b58 ex \<and> verify_sig ed (ex_source_owner ex) msg sig
    \<and> parsed_message_from_bytes msg = Inr m
    \<and> (\<exists>pre i post. instructions m = pre @ i # post \<and> is_transfer_of m i t
         \<and> list_all (\<lambda>j. spl_transfer_of m j = None) pre)
    \<and> ti_amount t = ex_amount ex \<and> ti_mint t = Some (ex_mint ex)
    \<and> derive_ata cr (ex_destination_wallet ex) (ex_mint ex) TOKEN_PROGRAM_ID = Some (ti_destination t)
    \<and> memo_instructions m = [ix] \<and> ix_data ix = ascii (ex_memo ex)"
  using assms
proof (rule verify_Inr)
  fix sig msg m t ix
  assume "versioned_transaction_from_bytes wire = Inr \<lparr>vt_signatures = [sig], vt_message_bytes = msg\<rparr>"
    "bs58_encode cr sig = ex_signature_b58 ex" "verify_sig ed (ex_source_owner ex) msg sig"
    "parsed_message_from_bytes msg = Inr m" and t: "extract_spl_transfer m = Inr t"
    and rest: "ti_amount t = ex_amount ex"
    "derive_ata cr (ex_destination_wallet ex) (ex_mint ex) TOKEN_PROGRAM_ID = Some (ti_destination t)"
    "ti_mint t = Some (ex_mint ex)" "memo_instructions m = [ix]" "ix_data ix = ascii (ex_memo ex)"
  moreover from t obtain pre i post where "instructions m = pre @ i # post"
    "\<forall>j \<in> set pre. spl_transfer_of m j = None" "is_transfer_of m i t"
    by (auto simp: extract_spl_transfer_def extract_from_Inr)
  ultimately show ?thesis
    by (intro exI [of _ sig] exI [of _ msg] exI [of _ m] exI [of _ t] exI [of _ ix])
      (auto simp: list_all_iff)
qed

text \<open>
  One transaction confirms one obligation: bytes that pass the gate for two obligations have
  the same memo, amount, mint and tracked signature.
\<close>
theorem confirm_gate_one_obligation:
  assumes "verify_signed_usdc_transfer cr ed wire ex = Inr ()"
    and "verify_signed_usdc_transfer cr ed wire ex' = Inr ()"
  shows "ex_memo ex = ex_memo ex' \<and> ex_amount ex = ex_amount ex' \<and> ex_mint ex = ex_mint ex'
    \<and> ex_signature_b58 ex = ex_signature_b58 ex'"
  using assms by (elim verify_Inr) (auto dest: ascii_inject)

text \<open>
  Sibling refunds never serialize to the same bytes: equal built messages have equal memos,
  amounts, mints, wallets and blockhashes.
\<close>
theorem transfer_message_injective:
  assumes "\<forall>bs. length (sha256 cr bs) = 32"
    and "length owner = 32" "length dest = 32" "length mint = 32" "length bh = 32"
    and "length owner' = 32" "length dest' = 32" "length mint' = 32" "length bh' = 32"
    and "build_transfer_message cr owner dest mint amount bh memo = Inr b"
    and "build_transfer_message cr owner' dest' mint' amount' bh' memo' = Inr b"
  shows "memo = memo' \<and> amount = amount' \<and> owner = owner' \<and> dest = dest' \<and> mint = mint' \<and> bh = bh'"
proof -
  have sha: "\<And>bs. length (sha256 cr bs) = 32" using assms(1) by blast
  obtain s d where "parsed_message_from_bytes b
      = Inr (transfer_message owner s d dest mint amount bh memo)"
    using parse_built_message [OF sha assms(2-5,10)] by blast
  moreover obtain s' d' where "parsed_message_from_bytes b
      = Inr (transfer_message owner' s' d' dest' mint' amount' bh' memo')"
    using parse_built_message [OF sha assms(6-9,11)] by blast
  ultimately show ?thesis
    by (auto simp: transfer_message_def split: if_splits option.splits
        dest: ascii_inject le64.enc_inject [OF TrueI TrueI])
qed

section \<open>A worked transfer\<close>

definition toy_crypto :: crypto where
  "toy_crypto = \<lparr>sha256 = (\<lambda>bs. take 32 (bs @ replicate 32 0)), decompresses = (\<lambda>_. False),
     bs58_decode = (\<lambda>s. Some (take 32 (ascii s @ replicate 32 0))),
     bs58_encode = (\<lambda>bs. map (\<lambda>b. char_of (unat b)) bs)\<rparr>"

definition toy_signing :: signing where
  "toy_signing = \<lparr>keypair_pubkey = (\<lambda>kp. if length kp = 64 then Some (drop 32 kp) else None),
     ed_sign = (\<lambda>kp msg. take 64 (drop 32 kp @ msg @ replicate 64 0)), b64_encode = (\<lambda>_. [])\<rparr>"

definition toy_ed25519 :: ed25519 where
  "toy_ed25519 = \<lparr>valid_key = (\<lambda>k. length k = 32),
     verify_sig = (\<lambda>pk msg s. s = take 64 (pk @ msg @ replicate 64 0))\<rparr>"

lemma toy_signing_laws: "signing_laws toy_crypto toy_ed25519 toy_signing"
  by (auto simp: signing_laws_def toy_crypto_def toy_signing_def toy_ed25519_def split: if_splits)

lemma toy_derive_ata: "length w = 32 \<Longrightarrow> derive_ata toy_crypto w m p = Some w"
  by (simp add: derive_ata_def derive_ata_loop_numeral is_on_ed25519_curve_def toy_crypto_def)

lemma toy_build:
  "length owner = 32 \<Longrightarrow> length dest = 32 \<Longrightarrow> amount \<noteq> 0 \<Longrightarrow> memo \<noteq> [] \<Longrightarrow> length memo < 128 \<Longrightarrow>
   build_transfer_message toy_crypto owner dest mint amount bh (Some memo)
   = Inr (encode_message (transfer_message owner owner dest dest mint amount bh (Some memo)))"
  by (auto simp: build_transfer_message_Inr check_memo_def MAX_MEMO_LEN_def toy_derive_ata)

definition toy_signed :: signed_usdc_transfer where
  "toy_signed = (let msg = encode_message (transfer_message (replicate 32 1) (replicate 32 1)
         (replicate 32 2) (replicate 32 2) (replicate 32 3) 5 (replicate 32 4) (Some ''memo''));
       sig = ed_sign toy_signing (replicate 64 1) msg; wire = [1] @ sig @ msg in
     \<lparr>wire_bytes = wire, base64_tx = b64_encode toy_signing wire,
      signature_b58 = bs58_encode toy_crypto sig\<rparr>)"

lemma toy_sign:
  "sign_usdc_transfer_checked_with_memo toy_crypto toy_signing (replicate 32 1) (replicate 32 2)
     (replicate 32 3) 5 (replicate 32 4) ''memo'' (replicate 64 1) = Inr toy_signed"
proof -
  have "keypair_pubkey toy_signing (replicate 64 1) = Some (replicate 32 1)"
    by (simp add: toy_signing_def)
  then show ?thesis
    by (simp add: sign_usdc_transfer_checked_with_memo_def sign_transfer_message_def
        build_usdc_transfer_checked_with_memo_message_def toy_build toy_signed_def Let_def)
qed

abbreviation toy_expected :: expected_usdc_transfer where
  "toy_expected \<equiv> \<lparr>ex_signature_b58 = signature_b58 toy_signed, ex_source_owner = replicate 32 1,
     ex_destination_wallet = replicate 32 2, ex_mint = replicate 32 3, ex_amount = 5,
     ex_memo = ''memo''\<rparr>"

lemma toy_verifies: "verify_signed_usdc_transfer toy_crypto toy_ed25519 (wire_bytes toy_signed) toy_expected = Inr ()"
  using sign_with_memo_verifies [OF toy_signing_laws _ _ _ toy_sign] by simp

theorem signed_transfer_confirms_witness:
  "verify_signed_usdc_transfer toy_crypto toy_ed25519 (wire_bytes toy_signed) toy_expected = Inr ()"
  using signed_transfer_confirms [OF toy_signing_laws _ _ _ toy_sign] by simp

theorem confirm_gate_sound_witness:
  "\<exists>sig msg m. versioned_transaction_from_bytes (wire_bytes toy_signed)
       = Inr \<lparr>vt_signatures = [sig], vt_message_bytes = msg\<rparr> \<and> parsed_message_from_bytes msg = Inr m"
  using confirm_gate_sound [OF toy_verifies] by blast

theorem confirm_gate_one_obligation_witness:
  "verify_signed_usdc_transfer toy_crypto toy_ed25519 (wire_bytes toy_signed) toy_expected = Inr ()
   \<and> verify_signed_usdc_transfer toy_crypto toy_ed25519 (wire_bytes toy_signed)
        (toy_expected\<lparr>ex_memo := ''other''\<rparr>) \<noteq> Inr ()"
  using confirm_gate_one_obligation [OF toy_verifies, of "toy_expected\<lparr>ex_memo := ''other''\<rparr>"]
    toy_verifies by auto

theorem transfer_message_injective_witness:
  "build_transfer_message toy_crypto (replicate 32 1) (replicate 32 2) (replicate 32 3) 5
      (replicate 32 4) (Some ''a'')
   \<noteq> build_transfer_message toy_crypto (replicate 32 1) (replicate 32 2) (replicate 32 3) 5
      (replicate 32 4) (Some ''b'')"
proof -
  have "\<forall>bs. length (sha256 toy_crypto bs) = 32"
    using toy_signing_laws by (simp add: signing_laws_def)
  from transfer_message_injective [OF this, of "replicate 32 1" "replicate 32 2" "replicate 32 3"
      "replicate 32 4" "replicate 32 1" "replicate 32 2" "replicate 32 3" "replicate 32 4" 5
      "Some ''a''" _ 5 "Some ''b''"] show ?thesis
    by (auto simp: toy_build)
qed

end
