(* ===== verification/Settlement_Error.thy ===== *)
theory Settlement_Error
  imports Prelude
begin

text \<open>
  The verdict on a failed settlement (\<open>crates/x402/src/solana_rpc.rs\<close>): the search for the
  idempotent-resubmission texts, the classification into rejected, timed out or submission
  failure, and the extraction of the program's error code. Text is ASCII.
\<close>

section \<open>Text search\<close>

fun prefix_rest :: "string \<Rightarrow> string \<Rightarrow> string option" where
  "prefix_rest [] s = Some s"
| "prefix_rest (c # cs) [] = None"
| "prefix_rest (c # cs) (d # ds) = (if c = d then prefix_rest cs ds else None)"

text \<open>\<open>str::find\<close>: what follows the first occurrence of the marker.\<close>

fun after_marker :: "string \<Rightarrow> string \<Rightarrow> string option" where
  "after_marker m [] = (if m = [] then Some [] else None)"
| "after_marker m (c # cs) =
    (case prefix_rest m (c # cs) of Some rest \<Rightarrow> Some rest | None \<Rightarrow> after_marker m cs)"

definition str_contains :: "string \<Rightarrow> string \<Rightarrow> bool" where
  "str_contains s m \<longleftrightarrow> after_marker m s \<noteq> None"

definition to_lowercase :: "string \<Rightarrow> string" where
  "to_lowercase s = map ascii_lower s"

section \<open>Classification\<close>

datatype settlement_failure_kind =
    Rejected "32 word option"
  | Timeout
  | Submission

record signature_status =
  ss_err :: "string option"
  ss_confirmation_status :: "string option"

definition is_already_processed_error :: "string \<Rightarrow> bool" where
  "is_already_processed_error err =
    (let lower = to_lowercase err in
     str_contains lower ''already processed'' \<or> str_contains lower ''already been processed''
     \<or> str_contains lower ''alreadyprocessed'')"

definition digit_value :: "nat \<Rightarrow> char \<Rightarrow> nat option" where
  "digit_value base c =
    (let n = of_char c :: nat;
         d = (if 48 \<le> n \<and> n \<le> 57 then n - 48
              else if 97 \<le> n \<and> n \<le> 102 then n - 87
              else if 65 \<le> n \<and> n \<le> 70 then n - 55 else 16) in
     if d < base then Some d else None)"

definition is_whitespace :: "char \<Rightarrow> bool" where
  "is_whitespace c \<longleftrightarrow> (let n = of_char c :: nat in n = 32 \<or> 9 \<le> n \<and> n \<le> 13)"

text \<open>\<open>u32::from_str_radix\<close> on a run of digits: an empty run or a value over 32 bits is an error.\<close>

definition parse_u32 :: "nat \<Rightarrow> string \<Rightarrow> 32 word option" where
  "parse_u32 base ds =
    (if ds = [] then None
     else let v = foldl (\<lambda>acc c. acc * base + the (digit_value base c)) 0 ds in
       if v < 2 ^ 32 then Some (of_nat v) else None)"

definition decimal_after :: "string \<Rightarrow> string \<Rightarrow> 32 word option" where
  "decimal_after m raw =
    (case after_marker m raw of
       None \<Rightarrow> None
     | Some rest \<Rightarrow> parse_u32 10 (takeWhile (\<lambda>c. digit_value 10 c \<noteq> None) (dropWhile is_whitespace rest)))"

definition extract_program_error_code :: "string \<Rightarrow> 32 word option" where
  "extract_program_error_code raw =
    (case decimal_after (CHR 0x22 # ''Custom'' @ [CHR 0x22] @ '':'') raw of
       Some code \<Rightarrow> Some code
     | None \<Rightarrow>
       (case decimal_after ''Custom('' raw of
          Some code \<Rightarrow> Some code
        | None \<Rightarrow>
          (case after_marker ''custom program error: 0x'' raw of
             None \<Rightarrow> None
           | Some rest \<Rightarrow> parse_u32 16 (takeWhile (\<lambda>c. digit_value 16 c \<noteq> None) rest))))"

definition classify_settlement_error :: "string \<Rightarrow> settlement_failure_kind" where
  "classify_settlement_error raw =
    (if str_contains raw ''InstructionError'' \<or> str_contains raw ''custom program error''
       then Rejected (extract_program_error_code raw)
     else if str_contains raw ''not confirmed within'' then Timeout
     else Submission)"

section \<open>Properties\<close>

lemma prefix_rest_Some: "prefix_rest m s = Some rest \<longleftrightarrow> s = m @ rest"
  by (induction m s rule: prefix_rest.induct) auto

lemma after_marker_append: "after_marker m (pre @ m @ post) \<noteq> None"
proof (induction pre)
  case Nil
  have "prefix_rest m (m @ post) = Some post" by (simp add: prefix_rest_Some)
  then show ?case by (cases "m @ post") auto
next
  case (Cons c pre)
  then show ?case by (auto split: option.splits)
qed

lemma after_marker_Some: "after_marker m s = Some rest \<Longrightarrow> \<exists>pre. s = pre @ m @ rest"
proof (induction s)
  case (Cons c s)
  show ?case
  proof (cases "prefix_rest m (c # s)")
    case None
    with Cons obtain pre where "s = pre @ m @ rest" by auto
    then have "c # s = (c # pre) @ m @ rest" by simp
    then show ?thesis by blast
  next
    case (Some r)
    with Cons.prems have "c # s = [] @ m @ rest" by (simp add: prefix_rest_Some)
    then show ?thesis by blast
  qed
qed (auto split: if_splits)

lemma str_contains_iff: "str_contains s m \<longleftrightarrow> (\<exists>pre post. s = pre @ m @ post)"
  unfolding str_contains_def using after_marker_append after_marker_Some by blast

text \<open>
  A text that reports a program error anywhere is a rejection and never retried; a text with
  neither a program error nor the confirmation-budget message is a retryable submission failure.
\<close>
theorem classify_settlement_error_total:
  "case classify_settlement_error raw of
     Rejected code \<Rightarrow> code = extract_program_error_code raw
       \<and> ((\<exists>a b. raw = a @ ''InstructionError'' @ b) \<or> (\<exists>a b. raw = a @ ''custom program error'' @ b))
   | Timeout \<Rightarrow> \<not> (\<exists>a b. raw = a @ ''InstructionError'' @ b)
       \<and> \<not> (\<exists>a b. raw = a @ ''custom program error'' @ b)
       \<and> (\<exists>a b. raw = a @ ''not confirmed within'' @ b)
   | Submission \<Rightarrow> \<not> (\<exists>a b. raw = a @ ''InstructionError'' @ b)
       \<and> \<not> (\<exists>a b. raw = a @ ''custom program error'' @ b)
       \<and> \<not> (\<exists>a b. raw = a @ ''not confirmed within'' @ b)"
  unfolding classify_settlement_error_def str_contains_iff by (simp split: settlement_failure_kind.splits)

end
