(* ===== verification/Refund_Worker.thy ===== *)
theory Refund_Worker
  imports Channel_Refunds Usdc_Transfer Settlement_Error
begin

text \<open>
  The refund worker of \<open>crates/gateway/src/channel_refunds.rs\<close>: signing, the confirm gate,
  broadcasting, and the handlers of reserved and in-flight rows. The RPC node is a parameter whose
  replies depend on an evolving world; the environment of a handler gives, for its \<open>n\<close>-th
  database operation, the fault, the clock and what peer instances did to the database before it.
\<close>

section \<open>Backoff\<close>

definition MAX_CLAIM_ATTEMPTS :: int where
  "MAX_CLAIM_ATTEMPTS = 10"

definition MAX_BACKOFF_SECS :: nat where
  "MAX_BACKOFF_SECS = 300"

definition backoff_duration :: "int \<Rightarrow> nat" where
  "backoff_duration attempt =
    (let k = nat (max attempt 0) in min (if k < 64 then 2 ^ k else MAX_BACKOFF_SECS) MAX_BACKOFF_SECS)"

section \<open>The RPC node and the environment\<close>

record 'w refund_rpc =
  rpc_usdc_balance :: "string \<Rightarrow> string \<Rightarrow> 'w \<Rightarrow> (string, u64) result \<times> 'w"
  rpc_latest_blockhash_and_height :: "'w \<Rightarrow> (string, bytes \<times> u64) result \<times> 'w"
  rpc_block_height :: "'w \<Rightarrow> (string, u64) result \<times> 'w"
  rpc_signature_status :: "string \<Rightarrow> bool \<Rightarrow> 'w \<Rightarrow> (string, signature_status option) result \<times> 'w"
  rpc_send_transaction :: "string \<Rightarrow> 'w \<Rightarrow> (string, string) result \<times> 'w"

record worker_env =
  env_fault :: "nat \<Rightarrow> db_faults"
  env_now :: "nat \<Rightarrow> int"
  env_clock_ms :: nat
  env_peers :: "nat \<Rightarrow> refund_ledger \<Rightarrow> refund_ledger"

record worker_config =
  wc_recipient_wallet :: string
  wc_daily_cap_atomic :: "u64 option"

record libs =
  lib_crypto :: crypto
  lib_ed25519 :: ed25519
  lib_signing :: signing

record 'w worker_state =
  ws_db :: refund_ledger
  ws_world :: 'w
  ws_pool :: "fee_payer_pool option"
  ws_ops :: nat \<comment> \<open>database operations so far\<close>
  ws_sent :: "string list" \<comment> \<open>every transaction handed to \<open>sendTransaction\<close>, in order\<close>

definition db_op ::
  "worker_env \<Rightarrow> (db_faults \<Rightarrow> int \<Rightarrow> refund_ledger \<Rightarrow> 'r \<times> refund_ledger) \<Rightarrow> 'w worker_state
     \<Rightarrow> 'r \<times> 'w worker_state" where
  "db_op env f st =
    (let n = ws_ops st; (r, db') = f (env_fault env n) (env_now env n) (env_peers env n (ws_db st)) in
     (r, st\<lparr>ws_db := db', ws_ops := n + 1\<rparr>))"

definition rpc_op :: "('w \<Rightarrow> 'r \<times> 'w) \<Rightarrow> 'w worker_state \<Rightarrow> 'r \<times> 'w worker_state" where
  "rpc_op f st = (let (r, w') = f (ws_world st) in (r, st\<lparr>ws_world := w'\<rparr>))"

section \<open>Holding, marking, broadcasting\<close>

definition hold_with_alert ::
  "worker_env \<Rightarrow> string \<Rightarrow> hold_guard \<Rightarrow> 'w worker_state \<Rightarrow> 'w worker_state" where
  "hold_with_alert env channel_id guard st =
     snd (db_op env (\<lambda>ft now. hold_refund ft now channel_id guard) st)"

definition mark_accepted ::
  "worker_env \<Rightarrow> string \<Rightarrow> string \<Rightarrow> 'w worker_state \<Rightarrow> 'w worker_state" where
  "mark_accepted env channel_id tx_signature st =
     snd (db_op env (\<lambda>ft now. mark_broadcast_accepted ft now channel_id tx_signature) st)"

definition broadcast ::
  "'w refund_rpc \<Rightarrow> worker_env \<Rightarrow> string \<Rightarrow> signed_usdc_transfer \<Rightarrow> 'w worker_state \<Rightarrow> 'w worker_state"
where
  "broadcast rpc env channel_id tx st =
    (let (r, st1) = rpc_op (rpc_send_transaction rpc (base64_tx tx))
                      (st\<lparr>ws_sent := ws_sent st @ [base64_tx tx]\<rparr>) in
     case r of
       Inr _ \<Rightarrow> mark_accepted env channel_id (signature_b58 tx) st1
     | Inl e \<Rightarrow>
       if is_already_processed_error e then mark_accepted env channel_id (signature_b58 tx) st1
       else case classify_settlement_error e of
         Rejected _ \<Rightarrow>
           hold_with_alert env channel_id (FromInFlight (Some (signature_b58 tx))) st1
       | _ \<Rightarrow> st1)"

section \<open>Signing\<close>

definition sign_fresh ::
  "libs \<Rightarrow> worker_config \<Rightarrow> 'w refund_rpc \<Rightarrow> worker_env \<Rightarrow> refund_row \<Rightarrow> hold_guard \<Rightarrow> 'w worker_state
     \<Rightarrow> (signed_usdc_transfer \<times> u64) option \<times> 'w worker_state" where
  "sign_fresh lib cfg rpc env rw guard st =
    (case ws_pool st of
       None \<Rightarrow> (None, st)
     | Some pool \<Rightarrow>
       (case next_wallet (env_clock_ms env) pool of
          (Inl _, pool') \<Rightarrow> (None, st\<lparr>ws_pool := Some pool'\<rparr>)
        | (Inr wallet, pool') \<Rightarrow>
          let st0 = st\<lparr>ws_pool := Some pool'\<rparr> in
          if fp_pubkey_b58 wallet \<noteq> wc_recipient_wallet cfg then (None, st0)
          else case decode_bs58_pubkey (lib_crypto lib) (rr_destination_wallet rw) of
            Inl _ \<Rightarrow> (None, hold_with_alert env (rr_channel_id rw) guard st0)
          | Inr destination \<Rightarrow>
            (case decode_bs58_pubkey (lib_crypto lib) (rr_mint rw) of
               Inl _ \<Rightarrow> (None, hold_with_alert env (rr_channel_id rw) guard st0)
             | Inr mint \<Rightarrow>
               let (r, st1) = rpc_op (rpc_latest_blockhash_and_height rpc) st0 in
               case r of
                 Inl _ \<Rightarrow> (None, st1)
               | Inr (blockhash, last_valid_block_height) \<Rightarrow>
                 (case wallet_sign_usdc_transfer_checked_with_memo (lib_crypto lib)
                         (lib_signing lib) wallet destination mint (rr_amount_atomic rw) blockhash
                         (refund_memo (rr_channel_id rw)) of
                    Inl _ \<Rightarrow> (None, st1)
                  | Inr stx \<Rightarrow> (Some (stx, last_valid_block_height), st1)))))"

section \<open>The confirm gate\<close>

definition verify_landed_refund ::
  "libs \<Rightarrow> worker_config \<Rightarrow> worker_env \<Rightarrow> refund_row \<Rightarrow> string \<Rightarrow> bytes \<Rightarrow> 'w worker_state
     \<Rightarrow> bool \<times> 'w worker_state" where
  "verify_landed_refund lib cfg env rw tx_signature signed_tx st =
    (let guard = FromInFlight (Some tx_signature);
         hold = hold_with_alert env (rr_channel_id rw) guard in
     case decode_bs58_pubkey (lib_crypto lib) (rr_destination_wallet rw) of
       Inl _ \<Rightarrow> (False, hold st)
     | Inr destination \<Rightarrow>
       (case decode_bs58_pubkey (lib_crypto lib) (rr_mint rw) of
          Inl _ \<Rightarrow> (False, hold st)
        | Inr mint \<Rightarrow>
          (case decode_bs58_pubkey (lib_crypto lib) (wc_recipient_wallet cfg) of
             Inl _ \<Rightarrow> (False, st)
           | Inr owner \<Rightarrow>
             (case verify_signed_usdc_transfer (lib_crypto lib) (lib_ed25519 lib) signed_tx
                     \<lparr>ex_signature_b58 = tx_signature, ex_source_owner = owner,
                      ex_destination_wallet = destination, ex_mint = mint,
                      ex_amount = rr_amount_atomic rw,
                      ex_memo = refund_memo (rr_channel_id rw)\<rparr> of
                Inr _ \<Rightarrow> (True, st)
              | Inl _ \<Rightarrow> (False, hold st)))))"

section \<open>Reserved rows\<close>

definition handle_reserved ::
  "libs \<Rightarrow> worker_config \<Rightarrow> 'w refund_rpc \<Rightarrow> worker_env \<Rightarrow> refund_row \<Rightarrow> 'w worker_state
     \<Rightarrow> 'w worker_state" where
  "handle_reserved lib cfg rpc env rw st =
    (if rr_amount_atomic rw = 0 then
       snd (db_op env (\<lambda>ft now. confirm_refund_and_close_channel ft now (rr_channel_id rw) Reserved) st)
     else
       let (bal, st1) = rpc_op (rpc_usdc_balance rpc (wc_recipient_wallet cfg) (rr_mint rw)) st in
       case bal of
         Inl _ \<Rightarrow> st1
       | Inr balance \<Rightarrow>
         if balance < rr_amount_atomic rw then st1
         else case sign_fresh lib cfg rpc env rw FromReserved st1 of
           (None, st2) \<Rightarrow> st2
         | (Some (stx, last_valid_block_height), st2) \<Rightarrow>
           (case db_op env (\<lambda>ft now. claim_refund_for_broadcast ft now
                   \<lparr>rc_channel_id = rr_channel_id rw, rc_signed_tx = wire_bytes stx,
                    rc_tx_signature = signature_b58 stx,
                    rc_last_valid_block_height = last_valid_block_height,
                    rc_amount_atomic = rr_amount_atomic rw,
                    rc_daily_cap_atomic = wc_daily_cap_atomic cfg\<rparr>) st2 of
              (Inr Won, st3) \<Rightarrow> broadcast rpc env (rr_channel_id rw) stx st3
            | (_, st3) \<Rightarrow> st3))"

section \<open>In-flight rows\<close>

definition confirm_landed ::
  "libs \<Rightarrow> worker_config \<Rightarrow> worker_env \<Rightarrow> refund_row \<Rightarrow> string \<Rightarrow> bytes \<Rightarrow> 'w worker_state
     \<Rightarrow> 'w worker_state" where
  "confirm_landed lib cfg env rw tx_signature signed_tx st =
    (case verify_landed_refund lib cfg env rw tx_signature signed_tx st of
       (False, st1) \<Rightarrow> st1
     | (True, st1) \<Rightarrow>
       snd (db_op env (\<lambda>ft now. confirm_refund_and_close_channel ft now (rr_channel_id rw) InFlight)
              st1))"

definition resign_dead ::
  "libs \<Rightarrow> worker_config \<Rightarrow> 'w refund_rpc \<Rightarrow> worker_env \<Rightarrow> refund_row \<Rightarrow> string \<Rightarrow> 'w worker_state
     \<Rightarrow> 'w worker_state" where
  "resign_dead lib cfg rpc env rw tx_signature st =
    (if \<not> rr_broadcast_accepted rw then
       hold_with_alert env (rr_channel_id rw) (FromInFlightNeverAccepted tx_signature) st
     else if MAX_CLAIM_ATTEMPTS \<le> rr_attempts rw then
       hold_with_alert env (rr_channel_id rw) (FromInFlight (Some tx_signature)) st
     else case sign_fresh lib cfg rpc env rw (FromInFlight (Some tx_signature)) st of
       (None, st1) \<Rightarrow> st1
     | (Some (stx, new_height), st1) \<Rightarrow>
       (case db_op env (\<lambda>ft now. resign_refund ft now (rr_channel_id rw) tx_signature
               (wire_bytes stx) (signature_b58 stx) new_height) st1 of
          (Inr True, st2) \<Rightarrow> broadcast rpc env (rr_channel_id rw) stx st2
        | (_, st2) \<Rightarrow> st2))"

definition handle_in_flight ::
  "libs \<Rightarrow> worker_config \<Rightarrow> 'w refund_rpc \<Rightarrow> worker_env \<Rightarrow> refund_row \<Rightarrow> 'w worker_state
     \<Rightarrow> 'w worker_state" where
  "handle_in_flight lib cfg rpc env rw st =
    (case (rr_tx_signature rw, rr_signed_tx rw, rr_last_valid_block_height rw) of
       (Some tx_signature, Some signed_tx, Some last_valid_block_height) \<Rightarrow>
         let (reply, st1) = rpc_op (rpc_signature_status rpc tx_signature True) st in
         (case reply of
            Inl _ \<Rightarrow> st1
          | Inr (Some status) \<Rightarrow>
            if ss_err status \<noteq> None then
              hold_with_alert env (rr_channel_id rw) (FromInFlight (Some tx_signature)) st1
            else if ss_confirmation_status status = Some ''confirmed''
                  \<or> ss_confirmation_status status = Some ''finalized'' then
              confirm_landed lib cfg env rw tx_signature signed_tx st1
            else st1
          | Inr None \<Rightarrow>
            let (height, st2) = rpc_op (rpc_block_height rpc) st1 in
            (case height of
               Inl _ \<Rightarrow> st2
             | Inr current_height \<Rightarrow>
               if current_height \<le> last_valid_block_height then
                 broadcast rpc env (rr_channel_id rw)
                   \<lparr>wire_bytes = signed_tx, base64_tx = b64_encode (lib_signing lib) signed_tx,
                    signature_b58 = tx_signature\<rparr> st2
               else resign_dead lib cfg rpc env rw tx_signature st2))
     | _ \<Rightarrow> hold_with_alert env (rr_channel_id rw) (FromInFlight (rr_tx_signature rw)) st)"

section \<open>The sweep\<close>

definition due :: "refund_row \<Rightarrow> bool" where
  "due rw \<longleftrightarrow> int (backoff_duration (rr_attempts rw)) \<le> rr_age_secs rw"

definition sweep_status ::
  "worker_env \<Rightarrow> refund_status \<Rightarrow> (refund_row \<Rightarrow> 'w worker_state \<Rightarrow> 'w worker_state)
     \<Rightarrow> 'w worker_state \<Rightarrow> 'w worker_state" where
  "sweep_status env status handle st =
    (case db_op env (\<lambda>ft now db. (fetch_refunds ft now status db, db)) st of
       (Inl _, st1) \<Rightarrow> st1
     | (Inr rows, st1) \<Rightarrow> fold handle (filter due rows) st1)"

definition sweep ::
  "libs \<Rightarrow> worker_config \<Rightarrow> 'w refund_rpc \<Rightarrow> worker_env \<Rightarrow> 'w worker_state \<Rightarrow> 'w worker_state" where
  "sweep lib cfg rpc env st =
     sweep_status env InFlight (handle_in_flight lib cfg rpc env)
       (sweep_status env Reserved (handle_reserved lib cfg rpc env) st)"

section \<open>What is handed to the network\<close>

lemma db_op_sent [simp]: "ws_sent (snd (db_op env f st)) = ws_sent st"
  by (simp add: db_op_def Let_def split: prod.splits)

lemma db_op_eq: "db_op env f st = (r, st') \<Longrightarrow> ws_sent st' = ws_sent st"
  using db_op_sent [of env f st] by simp

lemma rpc_op_sent: "rpc_op f st = (r, st') \<Longrightarrow> ws_sent st' = ws_sent st \<and> ws_db st' = ws_db st"
  by (auto simp: rpc_op_def split: prod.splits)

lemma hold_mark_sent [simp]:
  "ws_sent (hold_with_alert env k g st) = ws_sent st"
  "ws_sent (mark_accepted env k s st) = ws_sent st"
  by (simp_all add: hold_with_alert_def mark_accepted_def)

lemma broadcast_sent [simp]:
  "ws_sent (broadcast rpc env k tx st) = ws_sent st @ [base64_tx tx]"
  by (simp add: broadcast_def Let_def rpc_op_def split: prod.splits sum.splits settlement_failure_kind.splits)

lemma sign_fresh_sent:
  "sign_fresh lib cfg rpc env rw g st = (r, st') \<Longrightarrow> ws_sent st' = ws_sent st"
  by (auto simp: sign_fresh_def Let_def rpc_op_def split: option.splits prod.splits sum.splits if_splits)

lemma confirm_landed_sent [simp]: "ws_sent (confirm_landed lib cfg env rw s tx st) = ws_sent st"
  by (simp add: confirm_landed_def verify_landed_refund_def Let_def split: sum.splits prod.splits bool.splits)

lemma db_op_result:
  "db_op env f st = (r, st') \<Longrightarrow>
   \<exists>ft now db. f ft now db = (r, ws_db st')"
  by (auto simp: db_op_def Let_def split: prod.splits intro!: exI)

text \<open>Fresh bytes are signed for the row's frozen tuple, by the recipient wallet's key.\<close>

lemma sign_fresh_Some:
  assumes "sign_fresh lib cfg rpc env rw g st = (Some (stx, h), st')"
  obtains w dest mint bh where "fp_pubkey_b58 w = wc_recipient_wallet cfg"
    "decode_bs58_pubkey (lib_crypto lib) (rr_destination_wallet rw) = Inr dest"
    "decode_bs58_pubkey (lib_crypto lib) (rr_mint rw) = Inr mint"
    "wallet_sign_usdc_transfer_checked_with_memo (lib_crypto lib) (lib_signing lib) w dest mint
       (rr_amount_atomic rw) bh (refund_memo (rr_channel_id rw)) = Inr stx"
  using assms by (auto simp: sign_fresh_def Let_def split: option.splits prod.splits sum.splits if_splits)

text \<open>
  The claim is the only gate of a first broadcast: handling a reserved row sends nothing, or
  exactly one transaction, freshly signed by the recipient wallet for the row's frozen wallet,
  mint, amount and memo, whose bytes this call's own claim persisted.
\<close>
theorem reserved_broadcast_claimed:
  "ws_sent (handle_reserved lib cfg rpc env rw st) = ws_sent st
   \<or> (\<exists>stx h w dest mint bh ft now (db :: refund_ledger) db'.
        ws_sent (handle_reserved lib cfg rpc env rw st) = ws_sent st @ [base64_tx stx]
        \<and> rr_amount_atomic rw \<noteq> 0 \<and> fp_pubkey_b58 w = wc_recipient_wallet cfg
        \<and> decode_bs58_pubkey (lib_crypto lib) (rr_destination_wallet rw) = Inr dest
        \<and> decode_bs58_pubkey (lib_crypto lib) (rr_mint rw) = Inr mint
        \<and> wallet_sign_usdc_transfer_checked_with_memo (lib_crypto lib) (lib_signing lib) w dest mint
            (rr_amount_atomic rw) bh (refund_memo (rr_channel_id rw)) = Inr stx
        \<and> claim_refund_for_broadcast ft now
            \<lparr>rc_channel_id = rr_channel_id rw, rc_signed_tx = wire_bytes stx,
             rc_tx_signature = signature_b58 stx, rc_last_valid_block_height = h,
             rc_amount_atomic = rr_amount_atomic rw,
             rc_daily_cap_atomic = wc_daily_cap_atomic cfg\<rparr> db = (Inr Won, db'))"
proof (cases "ws_sent (handle_reserved lib cfg rpc env rw st) = ws_sent st")
  case False
  then have amt: "rr_amount_atomic rw \<noteq> 0" by (auto simp: handle_reserved_def)
  obtain bal st1 where b: "rpc_op (rpc_usdc_balance rpc (wc_recipient_wallet cfg) (rr_mint rw)) st
      = (bal, st1)" by fastforce
  obtain r st2 where s: "sign_fresh lib cfg rpc env rw FromReserved st1 = (r, st2)" by fastforce
  note sent = rpc_op_sent [OF b] sign_fresh_sent [OF s]
  from False amt b s sent obtain stx h where r: "r = Some (stx, h)"
    by (cases r) (auto simp: handle_reserved_def split: sum.splits if_splits)
  let ?claim = "\<lparr>rc_channel_id = rr_channel_id rw, rc_signed_tx = wire_bytes stx,
     rc_tx_signature = signature_b58 stx, rc_last_valid_block_height = h,
     rc_amount_atomic = rr_amount_atomic rw, rc_daily_cap_atomic = wc_daily_cap_atomic cfg\<rparr>"
  obtain c st3 where c: "db_op env (\<lambda>ft now. claim_refund_for_broadcast ft now ?claim) st2 = (c, st3)"
    by fastforce
  note sent3 = db_op_eq [OF c]
  from False amt b s r c sent sent3 have won: "c = Inr Won"
    and out: "ws_sent (handle_reserved lib cfg rpc env rw st) = ws_sent st @ [base64_tx stx]"
    by (auto simp: handle_reserved_def split: sum.splits if_splits claim_outcome.splits)
  from db_op_result [OF c] won obtain ft now db where
    cl: "claim_refund_for_broadcast ft now ?claim db = (Inr Won, ws_db st3)" by auto
  from sign_fresh_Some [OF s [unfolded r]] obtain w dest mint bh where
    "fp_pubkey_b58 w = wc_recipient_wallet cfg"
    "decode_bs58_pubkey (lib_crypto lib) (rr_destination_wallet rw) = Inr dest"
    "decode_bs58_pubkey (lib_crypto lib) (rr_mint rw) = Inr mint"
    "wallet_sign_usdc_transfer_checked_with_memo (lib_crypto lib) (lib_signing lib) w dest mint
       (rr_amount_atomic rw) bh (refund_memo (rr_channel_id rw)) = Inr stx" .
  with out amt cl show ?thesis by blast
qed simp

text \<open>
  What an in-flight row sends is justified. Nothing is sent, or the row's own persisted bytes
  are resent while the node reports no trace of the signature and a height within its lifetime;
  or freshly signed bytes are sent, and then the node reported no trace in full history and a
  height past the lifetime, the signature had been accepted before, attempts were left, and this
  call's own compare-and-set replaced exactly the dead signature.
\<close>
theorem in_flight_broadcast_justified:
  "ws_sent (handle_in_flight lib cfg rpc env rw st) = ws_sent st
   \<or> (\<exists>sig tx lv w1 h w2.
        rr_tx_signature rw = Some sig \<and> rr_signed_tx rw = Some tx
        \<and> rr_last_valid_block_height rw = Some lv
        \<and> rpc_signature_status rpc sig True (ws_world st) = (Inr None, w1)
        \<and> rpc_block_height rpc w1 = (Inr h, w2)
        \<and> (h \<le> lv \<and> ws_sent (handle_in_flight lib cfg rpc env rw st)
              = ws_sent st @ [b64_encode (lib_signing lib) tx]
           \<or> lv < h \<and> rr_broadcast_accepted rw \<and> rr_attempts rw < MAX_CLAIM_ATTEMPTS
             \<and> (\<exists>(stx :: signed_usdc_transfer) lv' ft now (db :: refund_ledger) db'.
                  ws_sent (handle_in_flight lib cfg rpc env rw st) = ws_sent st @ [base64_tx stx]
                  \<and> resign_refund ft now (rr_channel_id rw) sig (wire_bytes stx)
                       (signature_b58 stx) lv' db = (Inr True, db'))))"
proof (cases "ws_sent (handle_in_flight lib cfg rpc env rw st) = ws_sent st")
  case False
  then obtain sig tx lv where row: "rr_tx_signature rw = Some sig" "rr_signed_tx rw = Some tx"
    "rr_last_valid_block_height rw = Some lv"
    by (auto simp: handle_in_flight_def split: option.splits)
  obtain r w1 where r: "rpc_signature_status rpc sig True (ws_world st) = (r, w1)" by fastforce
  let ?st1 = "st\<lparr>ws_world := w1\<rparr>"
  have none: "r = Inr None"
    using False row r
    by (auto simp: handle_in_flight_def rpc_op_def split: sum.splits option.splits if_splits)
  obtain h' w2 where h': "rpc_block_height rpc w1 = (h', w2)" by fastforce
  let ?st2 = "?st1\<lparr>ws_world := w2\<rparr>"
  obtain h where h: "h' = Inr h"
    using False row r none h'
    by (cases h') (auto simp: handle_in_flight_def rpc_op_def)
  have out: "handle_in_flight lib cfg rpc env rw st =
    (if h \<le> lv then broadcast rpc env (rr_channel_id rw)
         \<lparr>wire_bytes = tx, base64_tx = b64_encode (lib_signing lib) tx, signature_b58 = sig\<rparr> ?st2
     else resign_dead lib cfg rpc env rw sig ?st2)"
    using row r none h' h by (simp add: handle_in_flight_def rpc_op_def)
  show ?thesis
  proof (cases "h \<le> lv")
    case True
    with out row r none h' h show ?thesis by auto
  next
    case dead: False
    from False out dead have neq: "ws_sent (resign_dead lib cfg rpc env rw sig ?st2) \<noteq> ws_sent ?st2"
      by simp
    from neq have acc: "rr_broadcast_accepted rw" "rr_attempts rw < MAX_CLAIM_ATTEMPTS"
      by (auto simp: resign_dead_def not_le split: if_splits)
    obtain s st3 where s: "sign_fresh lib cfg rpc env rw (FromInFlight (Some sig)) ?st2 = (s, st3)"
      by fastforce
    from neq acc s sign_fresh_sent [OF s] obtain stx lv' where st3: "s = Some (stx, lv')"
      by (cases s) (auto simp: resign_dead_def)
    obtain c st4 where c: "db_op env (\<lambda>ft now. resign_refund ft now (rr_channel_id rw) sig
        (wire_bytes stx) (signature_b58 stx) lv') st3 = (c, st4)" by fastforce
    from neq acc s st3 c sign_fresh_sent [OF s] db_op_eq [OF c] have won: "c = Inr True"
      and sent: "ws_sent (resign_dead lib cfg rpc env rw sig ?st2) = ws_sent ?st2 @ [base64_tx stx]"
      by (auto simp: resign_dead_def split: sum.splits bool.splits)
    from db_op_result [OF c] won obtain ft now db where "resign_refund ft now (rr_channel_id rw) sig
        (wire_bytes stx) (signature_b58 stx) lv' db = (Inr True, ws_db st4)" by auto
    with sent out dead row r none h' h acc show ?thesis by (auto simp: not_le)
  qed
qed simp

section \<open>Confirmation\<close>

definition confirmed_in :: "string \<Rightarrow> 'a refund_ledger_scheme \<Rightarrow> bool" where
  "confirmed_in k db \<longleftrightarrow> (\<exists>f. refund_of k db = Some f \<and> rf_status f = refund_status_str Confirmed)"

definition keeps_unconfirmed ::
  "string \<Rightarrow> ('a refund_ledger_scheme \<Rightarrow> 'a refund_ledger_scheme) \<Rightarrow> bool" where
  "keeps_unconfirmed k f \<longleftrightarrow>
     (\<forall>db. refund_inv db \<and> \<not> confirmed_in k db \<longrightarrow> refund_inv (f db) \<and> \<not> confirmed_in k (f db))"

lemma refund_cas_unconfirmed:
  assumes inv: "refund_inv db" and nc: "\<not> confirmed_in k' db"
    and u: "\<And>f f'. g f \<Longrightarrow> u f = Inr f' \<Longrightarrow>
      rf_channel_id f' = rf_channel_id f \<and> (rf_status f' = rf_status f \<or> rf_status f' \<noteq> refund_status_str Confirmed)"
  shows "\<not> confirmed_in k' (snd (refund_cas ft k g u db))"
proof (cases "refund_cas ft k g u db")
  case (Pair res db')
  from refund_invD(2) [OF inv] Pair show ?thesis
  proof (cases rule: refund_cas_cases)
    case (hit f f')
    with u [OF hit(2,3)] row_SomeD [OF hit(1)] nc Pair show ?thesis
      by (cases "k' = k") (auto simp: confirmed_in_def row_replace_row)
  qed (use nc Pair in simp)
qed

lemma keeps_unconfirmedI:
  assumes "\<And>db. refund_inv db \<Longrightarrow> refund_inv (f db)"
    and "\<And>db. refund_inv db \<Longrightarrow> \<not> confirmed_in k db \<Longrightarrow> \<not> confirmed_in k (f db)"
  shows "keeps_unconfirmed k f"
  using assms by (simp add: keeps_unconfirmed_def)

lemma hold_keeps_unconfirmed: "keeps_unconfirmed k' (\<lambda>db. snd (hold_refund ft now k g db))"
  by (rule keeps_unconfirmedI, erule hold_refund_inv)
    (unfold hold_refund_def, rule refund_cas_unconfirmed, auto)

lemma mark_keeps_unconfirmed:
  "keeps_unconfirmed k' (\<lambda>db. snd (mark_broadcast_accepted ft now k s db))"
  by (rule keeps_unconfirmedI, erule mark_broadcast_accepted_inv)
    (unfold mark_broadcast_accepted_def snd_map_prod id_apply, rule refund_cas_unconfirmed, auto)

lemma resign_keeps_unconfirmed:
  "keeps_unconfirmed k' (\<lambda>db. snd (resign_refund ft now k old tx s h db))"
proof (rule keeps_unconfirmedI, erule resign_refund_inv)
  fix db :: "'a refund_ledger_scheme"
  assume "refund_inv db" "\<not> confirmed_in k' db"
  then have "\<not> confirmed_in k' (snd (refund_cas ft k
      (\<lambda>f. rf_status f = refund_status_str InFlight \<and> rf_tx_signature f = Some old)
      (\<lambda>f. bump_attempts (f\<lparr>rf_signed_tx := Some tx, rf_tx_signature := Some s,
         rf_last_valid_block_height := Some b, rf_broadcast_accepted_at := None,
         rf_updated_at := now\<rparr>)) db))" for b
    by (rule refund_cas_unconfirmed) (auto dest!: bump_attempts_Inr)
  with \<open>\<not> confirmed_in k' db\<close>
  show "\<not> confirmed_in k' (snd (resign_refund ft now k old tx s h db))"
    by (cases "atomic_to_i64 h") (simp_all add: resign_refund_def)
qed

definition unconfirmed :: "string \<Rightarrow> 'w worker_state \<Rightarrow> bool" where
  "unconfirmed k st \<longleftrightarrow> refund_inv (ws_db st) \<and> \<not> confirmed_in k (ws_db st)"

lemma db_op_unconfirmed:
  assumes "unconfirmed k st" "\<And>n db. env_peers env n db = db"
    and "\<And>ft now. keeps_unconfirmed k (\<lambda>db. snd (f ft now db))" "db_op env f st = (r, st')"
  shows "unconfirmed k st'"
proof -
  from assms(3) [of "env_fault env (ws_ops st)" "env_now env (ws_ops st)"] assms(1)
  have "refund_inv (snd (f (env_fault env (ws_ops st)) (env_now env (ws_ops st)) (ws_db st)))
    \<and> \<not> confirmed_in k (snd (f (env_fault env (ws_ops st)) (env_now env (ws_ops st)) (ws_db st)))"
    by (simp add: keeps_unconfirmed_def unconfirmed_def)
  with assms(4) show ?thesis
    by (auto simp: db_op_def unconfirmed_def assms(2) Let_def split: prod.splits)
qed

lemma hold_mark_unconfirmed:
  assumes "\<And>n db. env_peers env n db = db" "unconfirmed k' st"
  shows "unconfirmed k' (hold_with_alert env k g st)" "unconfirmed k' (mark_accepted env k s st)"
  using db_op_unconfirmed [OF assms(2,1) hold_keeps_unconfirmed surjective_pairing]
    db_op_unconfirmed [OF assms(2,1) mark_keeps_unconfirmed surjective_pairing]
  by (simp_all add: hold_with_alert_def mark_accepted_def)

lemma broadcast_unconfirmed:
  assumes "\<And>n db. env_peers env n db = db" "unconfirmed k' st"
  shows "unconfirmed k' (broadcast rpc env k tx st)"
proof -
  have "unconfirmed k' (st\<lparr>ws_sent := x, ws_world := w\<rparr>)" for x w
    using assms(2) by (simp add: unconfirmed_def)
  then show ?thesis
    by (auto simp: broadcast_def rpc_op_def Let_def
        split: prod.splits sum.splits settlement_failure_kind.splits
        intro!: hold_mark_unconfirmed assms(1))
qed

lemma sign_fresh_unconfirmed:
  assumes "\<And>n db. env_peers env n db = db" "unconfirmed k st"
    and "sign_fresh lib cfg rpc env rw g st = (r, st')"
  shows "unconfirmed k st'"
proof -
  have "unconfirmed k (st\<lparr>ws_pool := p\<rparr>)" "unconfirmed k (st\<lparr>ws_pool := p, ws_world := w\<rparr>)" for p w
    using assms(2) by (simp_all add: unconfirmed_def)
  then show ?thesis
    using assms(2,3)
    by (auto simp: sign_fresh_def Let_def rpc_op_def split: option.splits prod.splits sum.splits if_splits
        intro!: hold_mark_unconfirmed assms(1))
qed

lemma resign_dead_unconfirmed:
  assumes peers: "\<And>n db. env_peers env n db = db" and un: "unconfirmed k st"
  shows "unconfirmed k (resign_dead lib cfg rpc env rw s st)"
proof -
  obtain r st1 where s: "sign_fresh lib cfg rpc env rw (FromInFlight (Some s)) st = (r, st1)"
    by fastforce
  note un1 = sign_fresh_unconfirmed [OF peers un s]
  have "unconfirmed k st2" if "db_op env (\<lambda>ft now. resign_refund ft now (rr_channel_id rw) s
      (wire_bytes stx) (signature_b58 stx) h) st1 = (c, st2)" for stx h c st2
    by (rule db_op_unconfirmed [OF un1 peers resign_keeps_unconfirmed that])
  then show ?thesis
    using un un1 s
    by (auto simp: resign_dead_def split: option.splits prod.splits sum.splits bool.splits
        intro!: hold_mark_unconfirmed broadcast_unconfirmed peers)
qed

lemma verify_landed_True:
  assumes "verify_landed_refund lib cfg env rw s tx st = (True, st')"
  shows "st' = st \<and> (\<exists>dest mint owner.
    decode_bs58_pubkey (lib_crypto lib) (rr_destination_wallet rw) = Inr dest
    \<and> decode_bs58_pubkey (lib_crypto lib) (rr_mint rw) = Inr mint
    \<and> decode_bs58_pubkey (lib_crypto lib) (wc_recipient_wallet cfg) = Inr owner
    \<and> verify_signed_usdc_transfer (lib_crypto lib) (lib_ed25519 lib) tx
        \<lparr>ex_signature_b58 = s, ex_source_owner = owner, ex_destination_wallet = dest,
         ex_mint = mint, ex_amount = rr_amount_atomic rw,
         ex_memo = refund_memo (rr_channel_id rw)\<rparr> = Inr ())"
  using assms by (auto simp: verify_landed_refund_def Let_def split: sum.splits)

lemma verify_landed_unconfirmed:
  assumes "\<And>n db. env_peers env n db = db" "unconfirmed k st"
    and "verify_landed_refund lib cfg env rw s tx st = (b, st')"
  shows "unconfirmed k st'"
  using assms(2,3)
  by (auto simp: verify_landed_refund_def Let_def split: sum.splits
      intro!: hold_mark_unconfirmed assms(1))

lemma claim_keeps_unconfirmed: "keeps_unconfirmed k' (\<lambda>db. snd (claim_refund_for_broadcast ft now c db))"
proof (rule keeps_unconfirmedI, erule claim_inv)
  fix db :: "'a refund_ledger_scheme"
  assume inv: "refund_inv db" and nc: "\<not> confirmed_in k' db"
  obtain res db' where eq: "claim_refund_for_broadcast ft now c db = (res, db')" by fastforce
  from refund_invD(2) [OF inv] eq show "\<not> confirmed_in k' (snd (claim_refund_for_broadcast ft now c db))"
  proof (cases rule: claim_cases)
    case (won f)
    with row_SomeD [OF won(1)] nc eq show ?thesis
      by (cases "k' = rc_channel_id c") (auto simp: confirmed_in_def row_replace_row claimed_row_def)
  qed (use nc eq in simp)
qed

text \<open>A reserved row of a positive amount is not confirmed by its handler, which can only put it in
  flight.\<close>

lemma handle_reserved_unconfirmed:
  assumes peers: "\<And>n db. env_peers env n db = db" and un: "unconfirmed k st" and amt: "rr_amount_atomic rw \<noteq> 0"
  shows "unconfirmed k (handle_reserved lib cfg rpc env rw st)"
proof -
  have un1: "unconfirmed k (st\<lparr>ws_world := w\<rparr>)" for w using un by (simp add: unconfirmed_def)
  obtain bal w1 where b: "rpc_usdc_balance rpc (wc_recipient_wallet cfg) (rr_mint rw) (ws_world st) = (bal, w1)" by fastforce
  obtain r st2 where s: "sign_fresh lib cfg rpc env rw FromReserved (st\<lparr>ws_world := w1\<rparr>) = (r, st2)" by fastforce
  note un2 = sign_fresh_unconfirmed [OF peers un1 s]
  have "unconfirmed k st3" if "db_op env (\<lambda>ft now. claim_refund_for_broadcast ft now c) st2 = (x, st3)" for c x st3
    by (rule db_op_unconfirmed [OF un2 peers claim_keeps_unconfirmed that])
  then show ?thesis
    using amt un1 un2 b s
    by (auto simp: handle_reserved_def rpc_op_def Let_def
        split: option.splits prod.splits sum.splits claim_outcome.splits intro!: broadcast_unconfirmed peers)
qed

lemma in_flight_confirms_landed:
  assumes "reach refund_init refund_step (ws_db st)" and "\<forall>n db. env_peers env n db = db"
    and "\<not> confirmed_in (rr_channel_id rw) (ws_db st)"
    and "confirmed_in (rr_channel_id rw) (ws_db (handle_in_flight lib cfg rpc env rw st))"
  shows "\<exists>sig tx status w1 dest mint owner.
    rr_tx_signature rw = Some sig \<and> rr_signed_tx rw = Some tx
    \<and> rpc_signature_status rpc sig True (ws_world st) = (Inr (Some status), w1)
    \<and> ss_err status = None
    \<and> (ss_confirmation_status status = Some ''confirmed''
       \<or> ss_confirmation_status status = Some ''finalized'')
    \<and> decode_bs58_pubkey (lib_crypto lib) (rr_destination_wallet rw) = Inr dest
    \<and> decode_bs58_pubkey (lib_crypto lib) (rr_mint rw) = Inr mint
    \<and> decode_bs58_pubkey (lib_crypto lib) (wc_recipient_wallet cfg) = Inr owner
    \<and> verify_signed_usdc_transfer (lib_crypto lib) (lib_ed25519 lib) tx
        \<lparr>ex_signature_b58 = sig, ex_source_owner = owner, ex_destination_wallet = dest,
         ex_mint = mint, ex_amount = rr_amount_atomic rw,
         ex_memo = refund_memo (rr_channel_id rw)\<rparr> = Inr ()"
proof -
  let ?k = "rr_channel_id rw"
  have peers: "\<And>n db. env_peers env n db = db" using assms(2) by blast
  have un: "unconfirmed ?k (st\<lparr>ws_world := w\<rparr>)" for w
    using refund.reach_inv [OF assms(1)] assms(3) by (simp add: unconfirmed_def)
  have un0: "unconfirmed ?k st"
    using refund.reach_inv [OF assms(1)] assms(3) by (simp add: unconfirmed_def)
  have conf: "\<not> unconfirmed ?k (handle_in_flight lib cfg rpc env rw st)"
    using assms(4) by (simp add: unconfirmed_def)
  then obtain sig tx lv where row: "rr_tx_signature rw = Some sig" "rr_signed_tx rw = Some tx"
    "rr_last_valid_block_height rw = Some lv"
    using hold_mark_unconfirmed(1) [OF peers un0]
    by (auto simp: handle_in_flight_def split: option.splits)
  obtain r w1 where r: "rpc_signature_status rpc sig True (ws_world st) = (r, w1)" by fastforce
  note simps = handle_in_flight_def row r rpc_op_def
  have "r \<noteq> Inl e" for e using conf un by (auto simp: simps)
  moreover have "r \<noteq> Inr None"
  proof
    assume none: "r = Inr None"
    obtain h w2 where h: "rpc_block_height rpc w1 = (h, w2)" by fastforce
    have "unconfirmed ?k (handle_in_flight lib cfg rpc env rw st)"
      using un [of w2] none h broadcast_unconfirmed [OF peers un [of w2]]
        resign_dead_unconfirmed [OF peers un [of w2]]
      by (auto simp: simps split: sum.splits)
    with conf show False ..
  qed
  ultimately obtain status where status: "r = Inr (Some status)"
    by (metis not_Some_eq obj_sumE)
  with conf un have ok: "ss_err status = None" "ss_confirmation_status status = Some ''confirmed''
       \<or> ss_confirmation_status status = Some ''finalized''"
    by (auto simp: simps split: if_splits intro!: hold_mark_unconfirmed peers)
  obtain b st' where v: "verify_landed_refund lib cfg env rw sig tx (st\<lparr>ws_world := w1\<rparr>) = (b, st')"
    by fastforce
  have "b"
    using conf status ok v verify_landed_unconfirmed [OF peers un v]
    by (auto simp: simps confirm_landed_def split: bool.splits)
  with v have "verify_landed_refund lib cfg env rw sig tx (st\<lparr>ws_world := w1\<rparr>) = (True, st')" by simp
  from verify_landed_True [OF this] row r status ok show ?thesis by auto
qed

text \<open>
  C28. The worker confirms only refunds that are paid, or that owe nothing. Consider one pass of a
  handler over one row, with no other process changing the database in between. If handling a row as
  reserved confirms it, its amount is zero. If handling it as in flight confirms it, the node reported
  the row's signature landed without error at quorum, and the persisted bytes passed the confirm gate
  for the row's own wallet, mint, amount and channel memo.
\<close>
theorem worker_confirms_only_paid:
  assumes "reach refund_init refund_step (ws_db st)" and "\<forall>n db. env_peers env n db = db"
    and "\<not> confirmed_in (rr_channel_id rw) (ws_db st)"
  shows "(confirmed_in (rr_channel_id rw) (ws_db (handle_reserved lib cfg rpc env rw st)) \<longrightarrow> rr_amount_atomic rw = 0)
    \<and> (confirmed_in (rr_channel_id rw) (ws_db (handle_in_flight lib cfg rpc env rw st)) \<longrightarrow>
       (\<exists>sig tx status w1 dest mint owner.
          rr_tx_signature rw = Some sig \<and> rr_signed_tx rw = Some tx
          \<and> rpc_signature_status rpc sig True (ws_world st) = (Inr (Some status), w1)
          \<and> ss_err status = None
          \<and> (ss_confirmation_status status = Some ''confirmed''
             \<or> ss_confirmation_status status = Some ''finalized'')
          \<and> decode_bs58_pubkey (lib_crypto lib) (rr_destination_wallet rw) = Inr dest
          \<and> decode_bs58_pubkey (lib_crypto lib) (rr_mint rw) = Inr mint
          \<and> decode_bs58_pubkey (lib_crypto lib) (wc_recipient_wallet cfg) = Inr owner
          \<and> verify_signed_usdc_transfer (lib_crypto lib) (lib_ed25519 lib) tx
              \<lparr>ex_signature_b58 = sig, ex_source_owner = owner, ex_destination_wallet = dest,
               ex_mint = mint, ex_amount = rr_amount_atomic rw,
               ex_memo = refund_memo (rr_channel_id rw)\<rparr> = Inr ()))"
proof (intro conjI impI)
  have peers: "\<And>n db. env_peers env n db = db" using assms(2) by blast
  have un: "unconfirmed (rr_channel_id rw) st"
    using refund.reach_inv [OF assms(1)] assms(3) by (simp add: unconfirmed_def)
  show "rr_amount_atomic rw = 0" if "confirmed_in (rr_channel_id rw) (ws_db (handle_reserved lib cfg rpc env rw st))"
    using that handle_reserved_unconfirmed [OF peers un, of rw lib cfg rpc] by (auto simp: unconfirmed_def)
qed (rule in_flight_confirms_landed [OF assms(1) assms(2) assms(3)])


section \<open>The account-collision guard and the memo layout\<close>

definition MEMO_PROGRAM_ID_B58 :: string where
  "MEMO_PROGRAM_ID_B58 = ''MemoSq4gqABAXKb96qnH8TysNcWxMyWCqXgDLGmfcHr''"

lemma base58_memo: "base58_decode MEMO_PROGRAM_ID_B58 = Some MEMO_PROGRAM_ID"
  by (simp add: base58_decode_def base58_alphabet_def be_bytes.simps MEMO_PROGRAM_ID_B58_def
      MEMO_PROGRAM_ID_def)

text \<open>
  The guard that keeps unsendable refunds out knows the table of eight accounts only. A wallet
  equal to the memo program's id passes it, while the refund transaction built for that wallet,
  with the memo every refund carries, names that account twice.
\<close>
theorem collision_guard_misses_memo_program:
  "\<exists>cr b m. bs58_decode cr = base58_decode
     \<and> refund_account_collision cr MEMO_PROGRAM_ID_B58 ''recipient'' ''mint'' = None
     \<and> decode_bs58_pubkey cr MEMO_PROGRAM_ID_B58 = Inr MEMO_PROGRAM_ID
     \<and> build_usdc_transfer_checked_with_memo_message cr (replicate 32 1) MEMO_PROGRAM_ID
          (replicate 32 2) 5 (replicate 32 3) (refund_memo ''c1'') = Inr b
     \<and> parsed_message_from_bytes b = Inr m \<and> \<not> distinct (account_keys m)"
proof -
  define cr where "cr = toy_crypto\<lparr>bs58_decode := base58_decode\<rparr>"
  have sha: "length (sha256 cr bs) = 32" for bs
    using toy_signing_laws by (simp add: cr_def signing_laws_def)
  have ata: "derive_ata cr w mi p = derive_ata toy_crypto w mi p" for w mi p
  proof -
    have "derive_ata_loop cr w mi p n = derive_ata_loop toy_crypto w mi p n" for n
      by (induction n) (simp_all add: cr_def is_on_ed25519_curve_def Let_def)
    then show ?thesis by (simp add: derive_ata_def)
  qed
  have memo: "check_memo (Some (refund_memo ''c1'')) = Inr ()"
    by (simp add: check_memo_def refund_memo_def MAX_MEMO_LEN_def)
  let ?m = "transfer_message (replicate 32 1) (replicate 32 1) MEMO_PROGRAM_ID MEMO_PROGRAM_ID
     (replicate 32 2) 5 (replicate 32 3) (Some (refund_memo ''c1''))"
  have build: "build_transfer_message cr (replicate 32 1) MEMO_PROGRAM_ID (replicate 32 2) 5
      (replicate 32 3) (Some (refund_memo ''c1'')) = Inr (encode_message ?m)"
    by (simp add: build_transfer_message_Inr memo ata toy_derive_ata)
  have "wf_message ?m"
    by (rule wf_transfer_message [OF sha memo]) (simp_all add: ata toy_derive_ata)
  then have parse: "parsed_message_from_bytes (encode_message ?m) = Inr ?m"
    using message_roundtrip_aux [of ?m "[]"] by simp
  have dec: "decode_bs58_pubkey cr MEMO_PROGRAM_ID_B58 = Inr MEMO_PROGRAM_ID"
    by (simp add: decode_bs58_pubkey_def cr_def base58_memo)
  have ne: "MEMO_PROGRAM_ID \<noteq> SYSTEM_PROGRAM" "MEMO_PROGRAM_ID \<noteq> TOKEN_PROGRAM_ID"
    "MEMO_PROGRAM_ID \<noteq> ASSOCIATED_TOKEN_PROGRAM_ID"
    by (simp_all add: MEMO_PROGRAM_ID_def SYSTEM_PROGRAM_def replicate_32 TOKEN_PROGRAM_ID_def
        ASSOCIATED_TOKEN_PROGRAM_ID_def)
  have guard: "refund_account_collision cr MEMO_PROGRAM_ID_B58 ''recipient'' ''mint'' = None"
    using dec ne by (simp add: refund_account_collision_def MEMO_PROGRAM_ID_B58_def)
  have "bs58_decode cr = base58_decode" by (simp add: cr_def)
  with guard dec build parse show ?thesis
    by (intro exI [of _ cr] exI [of _ "encode_message ?m"] exI [of _ ?m])
      (simp add: build_usdc_transfer_checked_with_memo_message_def transfer_message_def)
qed

end
