(* ===== verification/Refund_Exactly_Once.thy ===== *)
theory Refund_Exactly_Once
  imports Refund_Worker
begin

text \<open>
  At most one refund per channel. A cluster is the refund database shared by any number of worker
  instances together with the chain: its height and the signatures that landed. Workers act
  through the repository operations in any interleaving and with any fault; a persisted
  transaction may land at any height up to its last valid one. The second half runs the real
  handler of an in-flight row against a chain that moves between its two RPC calls.
\<close>

section \<open>The cluster\<close>

record cluster =
  cl_db :: refund_ledger
  cl_height :: int
  cl_issued :: "(string \<times> string \<times> int) set" \<comment> \<open>channel, signature, last valid height ever persisted\<close>
  cl_landed :: "string set"

definition dead :: "cluster \<Rightarrow> string \<times> string \<times> int \<Rightarrow> bool" where
  "dead cl t \<longleftrightarrow> (case t of (_, s, lv) \<Rightarrow> lv < cl_height cl \<and> s \<notin> cl_landed cl)"

definition fresh_sig :: "cluster \<Rightarrow> string \<Rightarrow> bool" where
  "fresh_sig cl s \<longleftrightarrow> s \<notin> cl_landed cl \<and> (\<forall>(_, s', _) \<in> cl_issued cl. s' \<noteq> s)"

text \<open>Persisting a signature is recorded when the database really changed.\<close>

definition persisted :: "cluster \<Rightarrow> refund_ledger \<Rightarrow> string \<times> string \<times> int \<Rightarrow> cluster" where
  "persisted cl db' t = cl\<lparr>cl_db := db',
     cl_issued := (if db' = cl_db cl then cl_issued cl else insert t (cl_issued cl))\<rparr>"

inductive quiet_step :: "refund_ledger \<Rightarrow> refund_ledger \<Rightarrow> bool" where
  qs_create: "quiet_step db (snd (create_channel cr ft ch db))"
| qs_persist: "quiet_step db (snd (persist_voucher_and_advance ft v db))"
| qs_settle: "quiet_step db (snd (update_settled ft k n db))"
| qs_close: "quiet_step db (snd (close_channel_and_reserve_refund ft now k db))"
| qs_confirm: "quiet_step db (snd (confirm_refund_and_close_channel ft now k from_status db))"
| qs_hold: "quiet_step db (snd (hold_refund ft now k g db))"
| qs_mark: "quiet_step db (snd (mark_broadcast_accepted ft now k sig db))"

inductive_cases quiet_stepE: "quiet_step db db'"

inductive cluster_step :: "cluster \<Rightarrow> cluster \<Rightarrow> bool" where
  cs_quiet: "quiet_step (cl_db cl) db' \<Longrightarrow> cluster_step cl (cl\<lparr>cl_db := db'\<rparr>)"
| cs_claim: "fresh_sig cl (rc_tx_signature c) \<Longrightarrow>
    cluster_step cl (persisted cl (snd (claim_refund_for_broadcast ft now c (cl_db cl)))
      (rc_channel_id c, rc_tx_signature c, uint (rc_last_valid_block_height c)))"
| cs_resign: "fresh_sig cl new \<Longrightarrow>
    (\<forall>t \<in> cl_issued cl. fst t = k \<and> fst (snd t) = old \<longrightarrow> dead cl t) \<Longrightarrow>
    cluster_step cl (persisted cl (snd (resign_refund ft now k old tx new h (cl_db cl)))
      (k, new, uint h))"
| cs_rearm: "(\<forall>t \<in> cl_issued cl. fst t = k \<longrightarrow> dead cl t) \<Longrightarrow>
    cluster_step cl (cl\<lparr>cl_db := snd (rearm_refund ft k (cl_db cl))\<rparr>)"
| cs_land: "(k, s, lv) \<in> cl_issued cl \<Longrightarrow> cl_height cl \<le> lv \<Longrightarrow>
    cluster_step cl (cl\<lparr>cl_landed := insert s (cl_landed cl)\<rparr>)"
| cs_tick: "cluster_step cl (cl\<lparr>cl_height := cl_height cl + 1\<rparr>)"

inductive_cases cluster_stepE: "cluster_step cl cl'"

definition cluster_init :: "cluster \<Rightarrow> bool" where
  "cluster_init cl \<longleftrightarrow> refund_init (cl_db cl) \<and> cl_issued cl = {} \<and> cl_landed cl = {}"

section \<open>Operations that leave signatures alone\<close>

definition sig_stable :: "refund_ledger \<Rightarrow> refund_ledger \<Rightarrow> bool" where
  "sig_stable db db' \<longleftrightarrow> (\<forall>k f. refund_of k db = Some f \<longrightarrow>
     (\<exists>f'. refund_of k db' = Some f' \<and> rf_tx_signature f' = rf_tx_signature f
        \<and> (rf_status f' = refund_status_str Reserved \<longrightarrow> rf_status f = refund_status_str Reserved)))"

lemma sig_stable_same: "refunds db' = refunds db \<Longrightarrow> sig_stable db db'"
  by (simp add: sig_stable_def)

lemma sig_stable_replace:
  assumes "refund_of k db = Some f" "rf_channel_id f' = k" "rf_tx_signature f' = rf_tx_signature f"
    and "rf_status f' = refund_status_str Reserved \<Longrightarrow> rf_status f = refund_status_str Reserved"
    and "refunds db' = replace_row rf_channel_id k f' (refunds db)"
  shows "sig_stable db db'"
proof -
  have "refund_of k1 db' = (if k1 = k then Some f' else refund_of k1 db)" for k1
    using assms(1,2) by (simp add: assms(5) row_replace_row)
  with assms(1,3,4) show ?thesis by (auto simp: sig_stable_def)
qed

lemma refund_cas_sig_stable:
  assumes inv: "refund_inv db"
    and u: "\<And>f f'. g f \<Longrightarrow> u f = Inr f' \<Longrightarrow> rf_channel_id f' = rf_channel_id f
      \<and> rf_tx_signature f' = rf_tx_signature f
      \<and> (rf_status f' = refund_status_str Reserved \<longrightarrow> rf_status f = refund_status_str Reserved)"
  shows "sig_stable db (snd (refund_cas ft k g u db))"
proof (cases "refund_cas ft k g u db")
  case (Pair res db')
  from refund_invD(2) [OF inv] Pair show ?thesis
  proof (cases rule: refund_cas_cases)
    case (hit f f')
    with u [OF hit(2,3)] row_SomeD [OF hit(1)] Pair show ?thesis
      by (intro sig_stable_replace [OF hit(1)]) auto
  qed (use Pair in \<open>simp add: sig_stable_same\<close>)
qed

lemma quiet_step_refund_step: "quiet_step db db' \<Longrightarrow> refund_step db db'"
  by (auto elim!: quiet_stepE intro: refund_step.intros)

lemma confirm_sig_stable:
  assumes inv: "refund_inv db"
  shows "sig_stable db (snd (confirm_refund_and_close_channel ft now k from_status db))"
proof (cases "confirm_refund_and_close_channel ft now k from_status db")
  case (Pair res db')
  from inv Pair show ?thesis
  proof (cases rule: confirm_cases)
    case (confirmed f r)
    with row_SomeD [OF confirmed(1)] Pair show ?thesis
      by (intro sig_stable_replace [OF confirmed(1)]) auto
  qed (use Pair in \<open>simp add: sig_stable_same\<close>)
qed

lemma close_sig_stable:
  assumes inv: "refund_inv db"
  shows "sig_stable db (snd (close_channel_and_reserve_refund ft now k db))"
proof (cases "channel_of k db")
  case None
  from close_missing [OF refund_invD(1) [OF inv] None, of ft now] show ?thesis
    by (auto simp: sig_stable_same)
next
  case (Some r)
  obtain res db' where eq: "close_channel_and_reserve_refund ft now k db = (res, db')" by fastforce
  show ?thesis
  proof (cases "ch_status r = channel_status_str Open")
    case True
    from inv Some True eq show ?thesis
      by (rule close_open) (simp_all add: eq sig_stable_def row_append)
  next
    case False
    from inv Some False eq show ?thesis
      by (rule close_not_open) (simp_all add: eq sig_stable_same)
  qed
qed

lemma channel_ops_sig_stable:
  assumes inv: "refund_inv db"
  shows "sig_stable db (snd (create_channel cr ft ch db))"
    "sig_stable db (snd (persist_voucher_and_advance ft v db))"
    "sig_stable db (snd (update_settled ft k n db))"
proof -
  note linv = refund_invD(1) [OF inv]
  show "sig_stable db (snd (create_channel cr ft ch db))"
    by (cases "create_channel cr ft ch db", frule create_channel_cases) (auto simp: sig_stable_same)
  show "sig_stable db (snd (persist_voucher_and_advance ft v db))"
    by (cases "persist_voucher_and_advance ft v db", frule persist_cases [OF linv])
      (auto simp: sig_stable_same)
  show "sig_stable db (snd (update_settled ft k n db))"
    by (cases "update_settled ft k n db", frule update_settled_cases [OF linv])
      (auto simp: sig_stable_same)
qed

lemma quiet_step_sig_stable:
  assumes "refund_inv db" "quiet_step db db'"
  shows "sig_stable db db'"
  using assms(2)
proof (rule quiet_stepE)
  fix ft now k g assume "db' = snd (hold_refund ft now k g db)"
  then show ?thesis
    unfolding hold_refund_def by (simp, intro refund_cas_sig_stable [OF assms(1)]) auto
next
  fix ft now k sig assume "db' = snd (mark_broadcast_accepted ft now k sig db)"
  then show ?thesis
    unfolding mark_broadcast_accepted_def
    by (simp add: snd_map_prod, intro refund_cas_sig_stable [OF assms(1)]) auto
qed (use channel_ops_sig_stable [OF assms(1)] close_sig_stable [OF assms(1)]
      confirm_sig_stable [OF assms(1)] in auto)

section \<open>The invariant\<close>

definition issued_ok :: "cluster \<Rightarrow> string \<times> string \<times> int \<Rightarrow> bool" where
  "issued_ok cl t \<longleftrightarrow> (case t of (k, s, lv) \<Rightarrow>
     \<exists>f. refund_of k (cl_db cl) = Some f
       \<and> (rf_tx_signature f = Some s \<or> dead cl t)
       \<and> (rf_status f = refund_status_str Reserved \<longrightarrow> dead cl t))"

definition cluster_inv :: "cluster \<Rightarrow> bool" where
  "cluster_inv cl \<longleftrightarrow> refund_inv (cl_db cl)
     \<and> (\<forall>t \<in> cl_issued cl. \<forall>u \<in> cl_issued cl. fst (snd t) = fst (snd u) \<longrightarrow> t = u)
     \<and> cl_landed cl \<subseteq> (\<lambda>t. fst (snd t)) ` cl_issued cl
     \<and> (\<forall>t \<in> cl_issued cl. issued_ok cl t)"

lemma cluster_invI [intro?]:
  assumes "refund_inv (cl_db cl)"
    and "\<And>t u. t \<in> cl_issued cl \<Longrightarrow> u \<in> cl_issued cl \<Longrightarrow> fst (snd t) = fst (snd u) \<Longrightarrow> t = u"
    and "cl_landed cl \<subseteq> (\<lambda>t. fst (snd t)) ` cl_issued cl"
    and "\<And>t. t \<in> cl_issued cl \<Longrightarrow> issued_ok cl t"
  shows "cluster_inv cl"
  using assms unfolding cluster_inv_def by blast

lemma cluster_invD:
  assumes "cluster_inv cl"
  shows "refund_inv (cl_db cl)"
    and "t \<in> cl_issued cl \<Longrightarrow> u \<in> cl_issued cl \<Longrightarrow> fst (snd t) = fst (snd u) \<Longrightarrow> t = u"
    and "cl_landed cl \<subseteq> (\<lambda>t. fst (snd t)) ` cl_issued cl"
    and "t \<in> cl_issued cl \<Longrightarrow> issued_ok cl t"
  using assms unfolding cluster_inv_def by blast+

lemma cluster_inv_init: "cluster_init cl \<Longrightarrow> cluster_inv cl"
  using refund_inv_init by (auto simp: cluster_init_def cluster_inv_def)

lemma dead_db [simp]: "dead (cl\<lparr>cl_db := db\<rparr>) = dead cl" "dead (cl\<lparr>cl_db := db, cl_issued := i\<rparr>) = dead cl"
  by (simp_all add: dead_def fun_eq_iff)

lemma issued_ok_mono:
  assumes "issued_ok cl t" "sig_stable (cl_db cl) (cl_db cl')" "dead cl t \<Longrightarrow> dead cl' t"
  shows "issued_ok cl' t"
proof -
  obtain k s lv where t: "t = (k, s, lv)" by (cases t)
  with assms(1) obtain f where f: "refund_of k (cl_db cl) = Some f"
    "rf_tx_signature f = Some s \<or> dead cl t"
    "rf_status f = refund_status_str Reserved \<longrightarrow> dead cl t"
    by (auto simp: issued_ok_def)
  with assms(2) obtain f' where "refund_of k (cl_db cl') = Some f'" "rf_tx_signature f' = rf_tx_signature f"
    "rf_status f' = refund_status_str Reserved \<longrightarrow> rf_status f = refund_status_str Reserved"
    unfolding sig_stable_def by blast
  with f assms(3) t show ?thesis by (auto simp: issued_ok_def)
qed

lemma cluster_inv_quiet:
  assumes inv: "cluster_inv cl" and q: "quiet_step (cl_db cl) db'"
  shows "cluster_inv (cl\<lparr>cl_db := db'\<rparr>)"
proof
  show "refund_inv (cl_db (cl\<lparr>cl_db := db'\<rparr>))"
    using refund_inv_step [OF cluster_invD(1) [OF inv] quiet_step_refund_step [OF q]] by simp
  show "issued_ok (cl\<lparr>cl_db := db'\<rparr>) t" if "t \<in> cl_issued (cl\<lparr>cl_db := db'\<rparr>)" for t
    using quiet_step_sig_stable [OF cluster_invD(1) [OF inv] q] that
    by (intro issued_ok_mono [OF cluster_invD(4) [OF inv]]) auto
qed (use cluster_invD(2,3) [OF inv] in auto)

text \<open>Replacing the signature of one row is safe when everything issued for it before is dead.\<close>

lemma cluster_inv_replace:
  assumes inv: "cluster_inv cl" and inv': "refund_inv db'"
    and f: "refund_of k (cl_db cl) = Some f" and f': "rf_channel_id f' = k"
    and refs: "refunds db' = replace_row rf_channel_id k f' (refunds (cl_db cl))"
    and dead: "\<And>t. t \<in> cl_issued cl \<Longrightarrow> fst t = k \<Longrightarrow> dead cl t"
    and new: "issued = cl_issued cl \<or> issued = insert (k, s, lv) (cl_issued cl)
      \<and> fresh_sig cl s \<and> rf_tx_signature f' = Some s \<and> rf_status f' \<noteq> refund_status_str Reserved"
  shows "cluster_inv (cl\<lparr>cl_db := db', cl_issued := issued\<rparr>)"
proof -
  let ?cl = "cl\<lparr>cl_db := db', cl_issued := issued\<rparr>"
  have look: "refund_of k1 db' = (if k1 = k then Some f' else refund_of k1 (cl_db cl))" for k1
    using f f' by (simp add: refs row_replace_row)
  show ?thesis
  proof
    show "refund_inv (cl_db ?cl)" using inv' by simp
    show "t = u" if "t \<in> cl_issued ?cl" "u \<in> cl_issued ?cl" "fst (snd t) = fst (snd u)" for t u
      using that new cluster_invD(2) [OF inv, of t u] by (auto simp: fresh_sig_def)
    show "cl_landed ?cl \<subseteq> (\<lambda>t. fst (snd t)) ` cl_issued ?cl"
      using cluster_invD(3) [OF inv] new by auto
    show "issued_ok ?cl t" if t: "t \<in> cl_issued ?cl" for t
    proof (cases "t \<in> cl_issued cl")
      case True
      show ?thesis
      proof (cases "fst t = k")
        case eq: True
        with dead [OF True] look show ?thesis by (cases t) (auto simp: issued_ok_def)
      next
        case ne: False
        with cluster_invD(4) [OF inv True] look show ?thesis by (cases t) (auto simp: issued_ok_def)
      qed
    next
      case False
      with t new look show ?thesis by (auto simp: issued_ok_def)
    qed
  qed
qed

lemma cluster_inv_claim:
  assumes inv: "cluster_inv cl" and fresh: "fresh_sig cl (rc_tx_signature c)"
  shows "cluster_inv (persisted cl (snd (claim_refund_for_broadcast ft now c (cl_db cl)))
    (rc_channel_id c, rc_tx_signature c, uint (rc_last_valid_block_height c)))"
proof (cases "claim_refund_for_broadcast ft now c (cl_db cl)")
  case (Pair res db')
  have inv': "refund_inv db'"
    using claim_inv [OF cluster_invD(1) [OF inv], of ft now c] Pair by simp
  from refund_invD(2) [OF cluster_invD(1) [OF inv]] Pair show ?thesis
  proof (cases rule: claim_cases)
    case (won f)
    have "dead cl t" if "t \<in> cl_issued cl" "fst t = rc_channel_id c" for t
      using cluster_invD(4) [OF inv that(1)] that(2) won(1,2) by (cases t) (auto simp: issued_ok_def)
    with won inv' fresh row_SomeD [OF won(1)] Pair show ?thesis
      unfolding persisted_def snd_conv
      by (intro cluster_inv_replace [OF inv _ won(1), where f' = "claimed now c f"
            and s = "rc_tx_signature c" and lv = "uint (rc_last_valid_block_height c)"])
        (auto simp: claimed_row_def)
  qed (use Pair inv in \<open>simp add: persisted_def\<close>)
qed

lemma cluster_inv_resign:
  assumes inv: "cluster_inv cl" and fresh: "fresh_sig cl new"
    and dead: "\<forall>t \<in> cl_issued cl. fst t = k \<and> fst (snd t) = old \<longrightarrow> dead cl t"
  shows "cluster_inv (persisted cl (snd (resign_refund ft now k old tx new h (cl_db cl))) (k, new, uint h))"
proof (cases "atomic_to_i64 h")
  case (Inl e)
  with inv show ?thesis by (simp add: resign_refund_def persisted_def)
next
  case (Inr hh)
  obtain res db' where eq: "resign_refund ft now k old tx new h (cl_db cl) = (res, db')" by fastforce
  have inv': "refund_inv db'"
    using resign_refund_inv [OF cluster_invD(1) [OF inv], of ft now k old tx new h] eq by simp
  from refund_invD(2) [OF cluster_invD(1) [OF inv]] eq [unfolded resign_refund_def Inr sum.case]
  show ?thesis
  proof (cases rule: refund_cas_cases)
    case (hit f f')
    have "dead cl t" if "t \<in> cl_issued cl" "fst t = k" for t
      using cluster_invD(4) [OF inv that(1)] that dead hit(1,2) by (cases t) (auto simp: issued_ok_def)
    with hit inv' fresh row_SomeD [OF hit(1)] bump_attempts_Inr [OF hit(3)] eq show ?thesis
      unfolding persisted_def eq snd_conv
      by (intro cluster_inv_replace [OF inv _ hit(1), where f' = f' and s = new and lv = "uint h"])
        auto
  qed (use eq inv in \<open>simp add: persisted_def\<close>)
qed

lemma cluster_inv_rearm:
  assumes inv: "cluster_inv cl" and dead: "\<forall>t \<in> cl_issued cl. fst t = k \<longrightarrow> dead cl t"
  shows "cluster_inv (cl\<lparr>cl_db := snd (rearm_refund ft k (cl_db cl))\<rparr>)"
proof -
  obtain res db' where eq: "rearm_refund ft k (cl_db cl) = (res, db')" by fastforce
  have inv': "refund_inv db'"
    using rearm_refund_inv [OF cluster_invD(1) [OF inv], of ft k] eq by simp
  from refund_invD(2) [OF cluster_invD(1) [OF inv]] eq [unfolded rearm_refund_def] show ?thesis
  proof (cases rule: refund_cas_cases)
    case (hit f f')
    with inv' dead row_SomeD [OF hit(1)] eq
      cluster_inv_replace [OF inv inv' hit(1), of f' "cl_issued cl"]
    show ?thesis by (cases cl) auto
  qed (use eq inv in simp)
qed

lemma cluster_inv_land:
  assumes inv: "cluster_inv cl" and t: "(k, s, lv) \<in> cl_issued cl" "cl_height cl \<le> lv"
  shows "cluster_inv (cl\<lparr>cl_landed := insert s (cl_landed cl)\<rparr>)"
proof
  let ?cl = "cl\<lparr>cl_landed := insert s (cl_landed cl)\<rparr>"
  show "issued_ok ?cl u" if u: "u \<in> cl_issued ?cl" for u
  proof -
    have "dead cl u \<Longrightarrow> dead ?cl u"
      using cluster_invD(2) [OF inv t(1), of u] u t(2) by (cases u) (auto simp: dead_def)
    then show ?thesis
      using u by (intro issued_ok_mono [OF cluster_invD(4) [OF inv]]) (auto simp: sig_stable_same)
  qed
  show "cl_landed ?cl \<subseteq> (\<lambda>t. fst (snd t)) ` cl_issued ?cl"
    using cluster_invD(3) [OF inv] t(1) by force
qed (use cluster_invD(1,2) [OF inv] in auto)

lemma cluster_inv_tick:
  assumes inv: "cluster_inv cl"
  shows "cluster_inv (cl\<lparr>cl_height := cl_height cl + 1\<rparr>)"
proof
  show "issued_ok (cl\<lparr>cl_height := cl_height cl + 1\<rparr>) u" if "u \<in> cl_issued (cl\<lparr>cl_height := cl_height cl + 1\<rparr>)" for u
    using that by (intro issued_ok_mono [OF cluster_invD(4) [OF inv]])
      (auto simp: sig_stable_same dead_def)
qed (use cluster_invD(1,2,3) [OF inv] in auto)

lemma cluster_inv_step: "cluster_inv cl \<Longrightarrow> cluster_step cl cl' \<Longrightarrow> cluster_inv cl'"
  by (erule cluster_stepE)
    (auto intro: cluster_inv_quiet cluster_inv_claim cluster_inv_resign cluster_inv_rearm
      cluster_inv_land cluster_inv_tick)

interpretation cluster: inv_system cluster_init cluster_step cluster_inv
  by unfold_locales (auto intro: cluster_inv_init cluster_inv_step)

text \<open>
  C3. At most one refund lands per channel. Whatever worker instances, operators, database faults
  and the chain do, in any interleaving, two landed transactions of one channel are the same
  transaction, provided a signature is replaced or re-armed only when it is really dead, that is
  past its last valid height and not landed.
\<close>
theorem refund_lands_at_most_once:
  assumes "reach cluster_init cluster_step cl"
    and "(k, s, lv) \<in> cl_issued cl" and "(k, s', lv') \<in> cl_issued cl"
    and "s \<in> cl_landed cl" and "s' \<in> cl_landed cl"
  shows "s = s' \<and> lv = lv'"
proof -
  note inv = cluster.reach_inv [OF assms(1)]
  have "s = s'"
    using cluster_invD(4) [OF inv assms(2)] cluster_invD(4) [OF inv assms(3)] assms(4,5)
    by (auto simp: issued_ok_def dead_def)
  with cluster_invD(2) [OF inv assms(2,3)] show ?thesis by simp
qed

section \<open>A run of the cluster\<close>

definition demo_cluster :: cluster where
  "demo_cluster = \<lparr>cl_db = demo_claimed, cl_height = 0, cl_issued = {(''c1'', ''sig1'', 500)},
     cl_landed = {''sig1''}\<rparr>"

definition demo_cluster_at :: "refund_ledger \<Rightarrow> (string \<times> string \<times> int) set \<Rightarrow> cluster" where
  "demo_cluster_at db i = \<lparr>cl_db = db, cl_height = 0, cl_issued = i, cl_landed = {}\<rparr>"

lemma demo_cluster_at_simps [simp]:
  "cl_db (demo_cluster_at db i) = db" "cl_issued (demo_cluster_at db i) = i"
  "cl_height (demo_cluster_at db i) = 0" "cl_landed (demo_cluster_at db i) = {}"
  "(demo_cluster_at db i)\<lparr>cl_db := db'\<rparr> = demo_cluster_at db' i"
  "(demo_cluster_at db i)\<lparr>cl_issued := j\<rparr> = demo_cluster_at db j"
  by (simp_all add: demo_cluster_at_def)

lemma demo_cluster_closed: "reach cluster_init cluster_step (demo_cluster_at demo_closed {})"
proof -
  have init: "reach cluster_init cluster_step (demo_cluster_at demo_refunds0 {})"
    by (rule reach_init) (simp add: cluster_init_def refund_init_def ledger_init_def demo_refunds0_def)
  have "quiet_step demo_refunds0 demo_opened" "quiet_step demo_opened demo_closed"
    unfolding demo_opened_def demo_closed_def by (rule qs_create, rule qs_close)
  then have "cluster_step (demo_cluster_at demo_refunds0 {}) (demo_cluster_at demo_opened {})"
    "cluster_step (demo_cluster_at demo_opened {}) (demo_cluster_at demo_closed {})"
    using cs_quiet [of "demo_cluster_at demo_refunds0 {}" demo_opened]
      cs_quiet [of "demo_cluster_at demo_opened {}" demo_closed] by simp_all
  with init show ?thesis by (meson reach_step)
qed

lemma demo_cluster_reach: "reach cluster_init cluster_step demo_cluster"
proof -
  let ?cl = "demo_cluster_at demo_claimed {(''c1'', ''sig1'', 500)}"
  have "rf_status (claimed 2000 demo_claim demo_refund) \<noteq> rf_status demo_refund"
    by (simp add: claimed_row_def demo_refund_def frozen_row_def new_refund_row_def)
  then have ne: "demo_claimed \<noteq> demo_closed"
    using demo_claimed_refund demo_closed_refund by (metis option.inject)
  have sig: "rc_tx_signature demo_claim = ''sig1''" "rc_channel_id demo_claim = ''c1''"
    "uint (rc_last_valid_block_height demo_claim) = 500" by (simp_all add: demo_claim_def)
  have "cluster_step (demo_cluster_at demo_closed {}) ?cl"
    using cs_claim [of "demo_cluster_at demo_closed {}" demo_claim no_faults 2000] ne sig
    by (simp add: fresh_sig_def persisted_def demo_claim_won)
  moreover have "cluster_step ?cl demo_cluster"
    using cs_land [of "''c1''" "''sig1''" 500 ?cl]
    by (simp add: demo_cluster_def demo_cluster_at_def)
  ultimately show ?thesis
    using demo_cluster_closed by (meson reach_step)
qed

theorem refund_lands_at_most_once_witness:
  "(''c1'', ''sig1'', 500) \<in> cl_issued demo_cluster \<and> ''sig1'' \<in> cl_landed demo_cluster
   \<and> {s. \<exists>lv. (''c1'', s, lv) \<in> cl_issued demo_cluster \<and> s \<in> cl_landed demo_cluster} = {''sig1''}"
proof -
  have mem: "(''c1'', ''sig1'', 500) \<in> cl_issued demo_cluster" "''sig1'' \<in> cl_landed demo_cluster"
    by (simp_all add: demo_cluster_def)
  have "s = ''sig1''" if "(''c1'', s, lv) \<in> cl_issued demo_cluster" "s \<in> cl_landed demo_cluster" for s lv
    using refund_lands_at_most_once [OF demo_cluster_reach that(1) mem(1) that(2) mem(2)] by blast
  with mem show ?thesis by blast
qed

section \<open>The handler against a moving chain\<close>

text \<open>
  The handler of an in-flight row reads the signature's status first and the block height second.
  The chain below answers every call truthfully and then produces two blocks; a pending
  transaction lands in the next block if its lifetime allows it.
\<close>

record chain =
  ct_height :: u64
  ct_pending :: "(string \<times> u64) list"
  ct_landed :: "string list"

definition chain_block :: "chain \<Rightarrow> chain" where
  "chain_block w =
    (let h = ct_height w + 1 in
     w\<lparr>ct_height := h, ct_pending := [],
       ct_landed := ct_landed w @ map fst (filter (\<lambda>(_, lv). h \<le> lv) (ct_pending w))\<rparr>)"

definition tx_signature_of :: "string \<Rightarrow> string" where
  "tx_signature_of b64 = bs58_encode toy_crypto (take 64 (drop 1 (ascii b64)))"

definition chain_rpc :: "bytes \<Rightarrow> chain refund_rpc" where
  "chain_rpc bh =
    \<lparr>rpc_usdc_balance = (\<lambda>_ _ w. (Inr (- 1), w)),
     rpc_latest_blockhash_and_height = (\<lambda>w. (Inr (bh, ct_height w + 150), chain_block (chain_block w))),
     rpc_block_height = (\<lambda>w. (Inr (ct_height w), chain_block (chain_block w))),
     rpc_signature_status = (\<lambda>sig _ w.
       (Inr (if sig \<in> tx_signature_of ` set (ct_landed w)
             then Some \<lparr>ss_err = None, ss_confirmation_status = Some ''confirmed''\<rparr> else None),
        chain_block (chain_block w))),
     rpc_send_transaction = (\<lambda>tx w.
       (Inr (tx_signature_of tx),
        chain_block (chain_block (w\<lparr>ct_pending := ct_pending w @ [(tx, ct_height w + 150)]\<rparr>))))\<rparr>"

text \<open>A signer whose signature depends on the blockhash, and base64 as an injective text.\<close>

definition race_signing :: signing where
  "race_signing = \<lparr>keypair_pubkey = (\<lambda>kp. if length kp = 64 then Some (drop 32 kp) else None),
     ed_sign = (\<lambda>kp msg. take 64 (drop 292 msg @ replicate 64 0)),
     b64_encode = map (\<lambda>b. char_of (unat b))\<rparr>"

definition race_libs :: libs where
  "race_libs = \<lparr>lib_crypto = toy_crypto,
     lib_ed25519 = \<lparr>valid_key = (\<lambda>k. length k = 32),
       verify_sig = (\<lambda>pk msg s. s = take 64 (drop 292 msg @ replicate 64 0))\<rparr>,
     lib_signing = race_signing\<rparr>"

lemma race_laws: "signing_laws toy_crypto (lib_ed25519 race_libs) race_signing"
  by (auto simp: signing_laws_def toy_crypto_def race_libs_def race_signing_def split: if_splits)

definition toy_key :: "string \<Rightarrow> pubkey" where
  "toy_key s = take 32 (ascii s @ replicate 32 0)"

lemma toy_decode [simp]: "decode_bs58_pubkey toy_crypto s = Inr (toy_key s)"
  by (simp add: decode_bs58_pubkey_def toy_crypto_def toy_key_def)

lemma length_toy_key [simp]: "length (toy_key s) = 32"
  by (simp add: toy_key_def)

definition race_wallet :: fee_payer_wallet where
  "race_wallet = \<lparr>fp_keypair = replicate 32 0 @ toy_key ''gateway'', fp_pubkey_b58 = ''gateway'',
     fp_index = 0, fp_failed_at = None\<rparr>"

definition race_msg :: "bytes \<Rightarrow> bytes" where
  "race_msg bh = encode_message (transfer_message (toy_key ''gateway'') (toy_key ''gateway'')
     (toy_key ''agent'') (toy_key ''agent'') (toy_key ''usdc'') 100 bh
     (Some (refund_memo ''c1'')))"

definition race_tx :: "bytes \<Rightarrow> signed_usdc_transfer" where
  "race_tx bh =
    (let msg = race_msg bh; sig = ed_sign race_signing (fp_keypair race_wallet) msg;
         wire = [1] @ sig @ msg in
     \<lparr>wire_bytes = wire, base64_tx = b64_encode race_signing wire,
      signature_b58 = bs58_encode toy_crypto sig\<rparr>)"

lemma race_build:
  "build_transfer_message toy_crypto (toy_key ''gateway'') (toy_key ''agent'') (toy_key ''usdc'')
     100 bh (Some (refund_memo ''c1'')) = Inr (race_msg bh)"
  by (simp add: race_msg_def toy_build refund_memo_def)

lemma race_sign:
  "sign_usdc_transfer_checked_with_memo toy_crypto race_signing (toy_key ''gateway'')
     (toy_key ''agent'') (toy_key ''usdc'') 100 bh (refund_memo ''c1'') (fp_keypair race_wallet)
   = Inr (race_tx bh)"
  by (simp add: sign_usdc_transfer_checked_with_memo_def sign_transfer_message_def
      build_usdc_transfer_checked_with_memo_message_def race_build race_tx_def Let_def
      race_wallet_def race_signing_def)

lemma race_wallet_sign:
  "wallet_sign_usdc_transfer_checked_with_memo toy_crypto race_signing race_wallet
     (toy_key ''agent'') (toy_key ''usdc'') 100 bh (refund_memo ''c1'') = Inr (race_tx bh)"
proof -
  have "keypair_pubkey race_signing (fp_keypair race_wallet) = Some (toy_key ''gateway'')"
    by (simp add: race_signing_def race_wallet_def)
  then show ?thesis
    by (simp add: wallet_sign_usdc_transfer_checked_with_memo_def race_sign)
qed

lemma race_tx_verifies:
  assumes "length bh = 32"
  shows "verify_signed_usdc_transfer toy_crypto (lib_ed25519 race_libs) (wire_bytes (race_tx bh))
    \<lparr>ex_signature_b58 = signature_b58 (race_tx bh), ex_source_owner = toy_key ''gateway'',
     ex_destination_wallet = toy_key ''agent'', ex_mint = toy_key ''usdc'', ex_amount = 100,
     ex_memo = refund_memo ''c1''\<rparr> = Inr ()"
  by (rule sign_with_memo_verifies [OF race_laws]) (use assms race_sign in simp_all)

lemma b64_inject: "map (\<lambda>b :: u8. char_of (unat b)) xs = map (\<lambda>b. char_of (unat b)) ys \<Longrightarrow> xs = ys"
proof (rule map_injective, assumption, rule injI)
  fix a b :: u8
  assume "char_of (unat a) = (char_of (unat b) :: char)"
  moreover have "unat a < 256" "unat b < 256"
    using unsigned_less [of a, where ?'a = nat] unsigned_less [of b, where ?'a = nat] by simp_all
  ultimately show "a = b"
    by (metis nat_of_char_less_256 of_char_of mod_less word_unat_eq_iff)
qed

lemma race_tx_distinct:
  assumes "length bh = 32" "length bh' = 32" "base64_tx (race_tx bh) = base64_tx (race_tx bh')"
  shows "bh = bh'"
proof -
  have "wire_bytes (race_tx bh) = wire_bytes (race_tx bh')"
    using assms(3) b64_inject by (auto simp: race_tx_def Let_def race_signing_def)
  moreover have "drop 65 (wire_bytes (race_tx b)) = race_msg b" for b
  proof -
    have "length (ed_sign race_signing kp (race_msg b)) = 64" for kp
      by (simp add: race_signing_def)
    then show ?thesis by (simp add: race_tx_def Let_def)
  qed
  ultimately have "race_msg bh = race_msg bh'" by metis
  have sha: "length (sha256 toy_crypto bs) = 32" for bs
    using race_laws by (simp add: signing_laws_def)
  have rb: "\<exists>m. parsed_message_from_bytes (race_msg b) = Inr m \<and> recent_blockhash m = b"
    if "length b = 32" for b
  proof -
    have bh: "recent_blockhash (transfer_message ow sa da de mi am b me) = b" for ow sa da de mi am me
      by (simp add: transfer_message_def)
    from parse_built_message [OF sha length_toy_key length_toy_key length_toy_key that race_build]
    show ?thesis by (elim exE conjE) (rule exI, rule conjI, assumption, rule bh)
  qed
  from rb [OF assms(1)] rb [OF assms(2)] \<open>race_msg bh = race_msg bh'\<close> show ?thesis
    by (metis sum.inject(2))
qed

text \<open>The channel of the worked refund, claimed with bytes valid up to height 500 and accepted
  once; the old transaction is pending at height 499 when the worker looks.\<close>

definition bh1 :: bytes where
  "bh1 = replicate 32 11"

definition bh2 :: bytes where
  "bh2 = replicate 32 12"

definition race_claim :: refund_claim where
  "race_claim = \<lparr>rc_channel_id = ''c1'', rc_signed_tx = wire_bytes (race_tx bh1),
     rc_tx_signature = signature_b58 (race_tx bh1), rc_last_valid_block_height = 500,
     rc_amount_atomic = 100, rc_daily_cap_atomic = None\<rparr>"

definition race_claimed :: refund_ledger where
  "race_claimed = snd (claim_refund_for_broadcast no_faults 2000 race_claim demo_closed)"

definition race_db :: refund_ledger where
  "race_db = snd (mark_broadcast_accepted no_faults 2001 ''c1'' (signature_b58 (race_tx bh1)) race_claimed)"

definition race_row :: refund_row where
  "race_row = \<lparr>rr_channel_id = ''c1'', rr_amount_atomic = 100, rr_destination_wallet = ''agent'',
     rr_mint = ''usdc'', rr_status = ''in_flight'',
     rr_tx_signature = Some (signature_b58 (race_tx bh1)),
     rr_signed_tx = Some (wire_bytes (race_tx bh1)), rr_last_valid_block_height = Some 500,
     rr_attempts = 1, rr_broadcast_accepted = True, rr_age_secs = 1000\<rparr>"

definition race_env :: worker_env where
  "race_env = \<lparr>env_fault = (\<lambda>_. no_faults), env_now = (\<lambda>_. 3000), env_clock_ms = 0,
     env_peers = (\<lambda>_ db. db)\<rparr>"

definition race_config :: worker_config where
  "race_config = \<lparr>wc_recipient_wallet = ''gateway'', wc_daily_cap_atomic = None\<rparr>"

definition race_state :: "chain worker_state" where
  "race_state = \<lparr>ws_db = race_db,
     ws_world = \<lparr>ct_height = 499, ct_pending = [(base64_tx (race_tx bh1), 500)], ct_landed = []\<rparr>,
     ws_pool = Some \<lparr>fpp_wallets = [race_wallet], fpp_counter = 0, fpp_cooldown = 60000\<rparr>,
     ws_ops = 0, ws_sent = []\<rparr>"

definition race_refund :: refund_db_row where
  "race_refund = (claimed 2000 race_claim demo_refund)\<lparr>rf_broadcast_accepted_at := Some 2001\<rparr>"

lemma race_claimed_refunds: "refunds race_claimed = [claimed 2000 race_claim demo_refund]"
  by (simp add: race_claimed_def race_claim_def demo_claim_simps)

lemma race_db_refunds: "refunds race_db = [race_refund]"
  by (simp add: race_db_def mark_broadcast_accepted_def refund_cas_def race_claimed_refunds
      race_refund_def keyed_cas_def commit_def no_faults_def claimed_row_def race_claim_def
      demo_refund_def frozen_row_def new_refund_row_def)

lemma race_db_reach: "reach refund_init refund_step race_db"
proof -
  have "reach refund_init refund_step race_claimed"
    unfolding race_claimed_def by (rule reach_step [OF demo_closed_reach]) (rule rs_claim)
  then show ?thesis
    unfolding race_db_def by (rule reach_step) (rule rs_mark)
qed

lemma race_fetch: "fetch_refunds no_faults 3000 InFlight race_db = Inr [race_row]"
  by (simp add: fetch_refunds_def no_faults_def race_db_refunds race_refund_def refund_row_of_def
      race_row_def race_claim_def claimed_row_def demo_refund_def frozen_row_def
      new_refund_row_def demo_row_def i64_to_atomic_def List.map_filter_def)

lemma race_resign:
  "fst (resign_refund no_faults 3000 ''c1'' (signature_b58 (race_tx bh1)) tx sig 653 race_db) = Inr True"
  by (simp add: resign_refund_def refund_cas_def race_db_refunds race_refund_def keyed_cas_def
      commit_def no_faults_def claimed_row_def race_claim_def demo_refund_def frozen_row_def
      new_refund_row_def bump_attempts_def i32_max_def atomic_to_i64_def i64_max_def)

lemma race_next_wallet:
  "fst (next_wallet 0 \<lparr>fpp_wallets = [race_wallet], fpp_counter = 0, fpp_cooldown = 60000\<rparr>) = Inr race_wallet"
  by (simp add: next_wallet_def race_wallet_def Let_def)

abbreviation chain_at :: "u64 \<Rightarrow> (string \<times> u64) list \<Rightarrow> string list \<Rightarrow> chain" where
  "chain_at h p l \<equiv> \<lparr>ct_height = h, ct_pending = p, ct_landed = l\<rparr>"

lemma race_rpc_replies:
  "rpc_signature_status (chain_rpc bh) s True (chain_at 499 [(t1, 500)] []) = (Inr None, chain_at 501 [] [t1])"
  "rpc_block_height (chain_rpc bh) (chain_at 501 [] [t1]) = (Inr 501, chain_at 503 [] [t1])"
  "rpc_latest_blockhash_and_height (chain_rpc bh) (chain_at 503 [] [t1])
     = (Inr (bh, 653), chain_at 505 [] [t1])"
  "rpc_send_transaction (chain_rpc bh) t2 (chain_at 505 [] [t1])
     = (Inr (tx_signature_of t2), chain_at 507 [] [t1, t2])"
  by (simp_all add: chain_rpc_def chain_block_def Let_def)

lemma race_broadcast:
  "ws_world (broadcast (chain_rpc bh) env k tx (st\<lparr>ws_world := chain_at 505 [] [t1]\<rparr>))
   = chain_at 507 [] [t1, base64_tx tx]"
proof -
  have world: "ws_world (mark_accepted env k s st) = ws_world st" for s and st :: "chain worker_state"
    by (simp add: mark_accepted_def db_op_def Let_def split: prod.splits)
  have "ws_world (st\<lparr>ws_world := chain_at 505 [] [t1]\<rparr>) = chain_at 505 [] [t1]" by simp
  then show ?thesis
    by (simp add: broadcast_def rpc_op_def race_rpc_replies world)
qed

lemma race_sign_fresh:
  "\<exists>pool'. sign_fresh race_libs race_config (chain_rpc bh) race_env race_row g
       (race_state\<lparr>ws_world := chain_at 503 [] [t1]\<rparr>)
     = (Some (race_tx bh, 653), race_state\<lparr>ws_pool := Some pool', ws_world := chain_at 505 [] [t1]\<rparr>)"
proof -
  obtain pool' where nw: "next_wallet 0 \<lparr>fpp_wallets = [race_wallet], fpp_counter = 0,
      fpp_cooldown = 60000\<rparr> = (Inr race_wallet, pool')"
    using race_next_wallet by (metis prod.collapse)
  have "ws_pool (race_state\<lparr>ws_world := w\<rparr>) = Some \<lparr>fpp_wallets = [race_wallet],
      fpp_counter = 0, fpp_cooldown = 60000\<rparr>" "env_clock_ms race_env = 0"
    "fp_pubkey_b58 race_wallet = wc_recipient_wallet race_config"
    "lib_crypto race_libs = toy_crypto" "lib_signing race_libs = race_signing"
    "rr_destination_wallet race_row = ''agent''" "rr_mint race_row = ''usdc''"
    "rr_amount_atomic race_row = 100" "rr_channel_id race_row = ''c1''" for w
    by (simp_all add: race_state_def race_env_def race_wallet_def race_config_def race_libs_def race_row_def)
  then show ?thesis
    using nw by (intro exI [of _ pool'])
      (simp add: sign_fresh_def Let_def rpc_op_def race_rpc_replies race_wallet_sign)
qed

lemma race_resign_dead:
  "ws_world (resign_dead race_libs race_config (chain_rpc bh2) race_env race_row
      (signature_b58 (race_tx bh1)) (race_state\<lparr>ws_world := chain_at 503 [] [t1]\<rparr>))
   = chain_at 507 [] [t1, base64_tx (race_tx bh2)]"
proof -
  obtain pool' where s: "sign_fresh race_libs race_config (chain_rpc bh2) race_env race_row
      (FromInFlight (Some (signature_b58 (race_tx bh1)))) (race_state\<lparr>ws_world := chain_at 503 [] [t1]\<rparr>)
     = (Some (race_tx bh2, 653), race_state\<lparr>ws_pool := Some pool', ws_world := chain_at 505 [] [t1]\<rparr>)"
    using race_sign_fresh by blast
  let ?st = "race_state\<lparr>ws_pool := Some pool', ws_world := chain_at 505 [] [t1]\<rparr>"
  have "fst (db_op race_env (\<lambda>ft now. resign_refund ft now ''c1'' (signature_b58 (race_tx bh1))
      (wire_bytes (race_tx bh2)) (signature_b58 (race_tx bh2)) 653) ?st) = Inr True"
    using race_resign [of "wire_bytes (race_tx bh2)" "signature_b58 (race_tx bh2)"]
    by (auto simp: db_op_def Let_def race_env_def race_state_def split: prod.splits)
  moreover have "\<exists>st'. snd (db_op race_env f ?st) = st'\<lparr>ws_world := chain_at 505 [] [t1]\<rparr>"
    for f :: "db_faults \<Rightarrow> int \<Rightarrow> refund_ledger \<Rightarrow> (channel_refund_error, bool) result \<times> refund_ledger"
    by (intro exI [of _ "snd (db_op race_env f ?st)"])
      (simp add: db_op_def Let_def split: prod.splits)
  ultimately obtain st' where d: "db_op race_env (\<lambda>ft now. resign_refund ft now ''c1''
      (signature_b58 (race_tx bh1)) (wire_bytes (race_tx bh2)) (signature_b58 (race_tx bh2)) 653) ?st
      = (Inr True, st'\<lparr>ws_world := chain_at 505 [] [t1]\<rparr>)"
    by (metis prod.collapse)
  have "rr_broadcast_accepted race_row" "rr_attempts race_row = 1" "rr_channel_id race_row = ''c1''"
    by (simp_all add: race_row_def)
  then show ?thesis
    by (simp add: resign_dead_def s d race_broadcast MAX_CLAIM_ATTEMPTS_def)
qed

lemma race_run:
  "ct_landed (ws_world (handle_in_flight race_libs race_config (chain_rpc bh2) race_env race_row race_state))
   = [base64_tx (race_tx bh1), base64_tx (race_tx bh2)]"
proof -
  have "rr_tx_signature race_row = Some (signature_b58 (race_tx bh1))"
    "rr_signed_tx race_row = Some (wire_bytes (race_tx bh1))" "rr_last_valid_block_height race_row = Some 500"
    "ws_world race_state = chain_at 499 [(base64_tx (race_tx bh1), 500)] []"
    by (simp_all add: race_row_def race_state_def)
  then show ?thesis
    by (simp add: handle_in_flight_def rpc_op_def race_rpc_replies race_resign_dead)
qed

text \<open>
  Reading the status before the height is not conclusive. There is a reachable database, an
  in-flight row as the worker fetches it, and a chain that answers every call truthfully, such
  that handling the row lands two different transactions, each of which pays the full refund of
  the same channel: the old one lands at its last valid height between the two reads.
\<close>
theorem in_flight_split_read_double_refund:
  "\<exists>(db :: refund_ledger) rw (st :: chain worker_state) bh (t :: signed_usdc_transfer)
      (t' :: signed_usdc_transfer).
     reach refund_init refund_step db \<and> fetch_refunds no_faults 3000 InFlight db = Inr [rw]
     \<and> ws_db st = db \<and> ct_landed (ws_world st) = []
     \<and> ct_landed (ws_world (handle_in_flight race_libs race_config (chain_rpc bh) race_env rw st))
         = [base64_tx t, base64_tx t']
     \<and> base64_tx t \<noteq> base64_tx t'
     \<and> verify_signed_usdc_transfer toy_crypto (lib_ed25519 race_libs) (wire_bytes t)
         \<lparr>ex_signature_b58 = signature_b58 t, ex_source_owner = toy_key ''gateway'',
          ex_destination_wallet = toy_key ''agent'', ex_mint = toy_key ''usdc'', ex_amount = 100,
          ex_memo = refund_memo (rr_channel_id rw)\<rparr> = Inr ()
     \<and> verify_signed_usdc_transfer toy_crypto (lib_ed25519 race_libs) (wire_bytes t')
         \<lparr>ex_signature_b58 = signature_b58 t', ex_source_owner = toy_key ''gateway'',
          ex_destination_wallet = toy_key ''agent'', ex_mint = toy_key ''usdc'', ex_amount = 100,
          ex_memo = refund_memo (rr_channel_id rw)\<rparr> = Inr ()"
proof -
  have len: "length bh1 = 32" "length bh2 = 32" and ne: "bh1 \<noteq> bh2"
    by (simp_all add: bh1_def bh2_def)
  have "rr_channel_id race_row = ''c1''" "ws_db race_state = race_db" "ct_landed (ws_world race_state) = []"
    by (simp_all add: race_row_def race_state_def)
  moreover have "base64_tx (race_tx bh1) \<noteq> base64_tx (race_tx bh2)"
    using race_tx_distinct [OF len] ne by blast
  ultimately show ?thesis
    using race_db_reach race_fetch race_run race_tx_verifies [OF len(1)] race_tx_verifies [OF len(2)]
    by (intro exI [of _ race_db] exI [of _ race_row] exI [of _ race_state]
        exI [of _ bh2] exI [of _ "race_tx bh1"] exI [of _ "race_tx bh2"] conjI)
      simp_all
qed

section \<open>A confirming run\<close>

lemma ascii_b64: "ascii (b64_encode race_signing bs) = bs"
  by (simp add: race_signing_def ascii_chars)

lemma tx_signature_of_race: "tx_signature_of (base64_tx (race_tx bh)) = signature_b58 (race_tx bh)"
proof -
  have "length (ed_sign race_signing kp (race_msg bh)) = 64" for kp
    by (simp add: race_signing_def)
  then show ?thesis
    by (simp add: tx_signature_of_def race_tx_def Let_def ascii_b64)
qed

definition paid_state :: "chain worker_state" where
  "paid_state = race_state\<lparr>ws_world := chain_at 499 [] [base64_tx (race_tx bh1)]\<rparr>"

lemma demo_closed_channels:
  "channels demo_closed = [demo_row\<lparr>ch_status := channel_status_str Closing\<rparr>]"
  by (simp add: demo_closed_def demo_opened_eq new_refund_row_def
      close_channel_and_reserve_refund_def flip_open_to_closing_def keyed_cas_def check_row_def
      channel_checks_def demo_row_def i64_to_atomic_def compute_refundable_def checked_sub_def
      atomic_to_i64_def i64_max_def insert_refund_def refund_checks_def commit_def no_faults_def)

lemma race_db_channels: "channels race_db = channels demo_closed"
  by (simp add: race_db_def mark_broadcast_accepted_def refund_cas_def race_claimed_def race_claim_def
      demo_claim_simps)

lemma race_confirm: "confirmed_in ''c1'' (snd (confirm_refund_and_close_channel no_faults 3000 ''c1'' InFlight race_db))"
  by (simp add: confirmed_in_def confirm_refund_and_close_channel_def no_faults_def race_db_refunds
      race_db_channels demo_closed_channels keyed_cas_def commit_def check_row_def channel_checks_def
      demo_row_def race_refund_def claimed_row_def race_claim_def demo_refund_def frozen_row_def
      new_refund_row_def)

lemma paid_run:
  "confirmed_in ''c1'' (ws_db (handle_in_flight race_libs race_config (chain_rpc bh2) race_env race_row paid_state))"
proof -
  have lib: "lib_crypto race_libs = toy_crypto" "wc_recipient_wallet race_config = ''gateway''"
    by (simp_all add: race_libs_def race_config_def)
  have row: "rr_tx_signature race_row = Some (signature_b58 (race_tx bh1))"
    "rr_signed_tx race_row = Some (wire_bytes (race_tx bh1))" "rr_last_valid_block_height race_row = Some 500"
    "rr_destination_wallet race_row = ''agent''" "rr_mint race_row = ''usdc''"
    "rr_amount_atomic race_row = 100" "rr_channel_id race_row = ''c1''"
    by (simp_all add: race_row_def)
  have v: "verify_landed_refund race_libs race_config race_env race_row (signature_b58 (race_tx bh1))
      (wire_bytes (race_tx bh1)) st = (True, st)" for st :: "chain worker_state"
    using race_tx_verifies [of bh1] by (simp add: verify_landed_refund_def lib row bh1_def)
  have status: "rpc_signature_status (chain_rpc bh2) (signature_b58 (race_tx bh1)) True (ws_world paid_state)
      = (Inr (Some \<lparr>ss_err = None, ss_confirmation_status = Some ''confirmed''\<rparr>),
         chain_block (chain_block (ws_world paid_state)))"
    by (simp add: chain_rpc_def paid_state_def tx_signature_of_race)
  have db: "ws_db paid_state = race_db" "ws_ops paid_state = 0"
    by (simp_all add: paid_state_def race_state_def)
  have env: "env_fault race_env n = no_faults" "env_now race_env n = 3000" "env_peers race_env n d = d" for n d
    by (simp_all add: race_env_def)
  obtain r d where c: "confirm_refund_and_close_channel no_faults 3000 ''c1'' InFlight race_db = (r, d)"
    by fastforce
  with race_confirm have "confirmed_in ''c1'' d" by simp
  then show ?thesis
    by (simp add: handle_in_flight_def row rpc_op_def status confirm_landed_def v db_op_def env db c Let_def)
qed

theorem worker_confirms_only_paid_witness:
  "confirmed_in ''c1'' (ws_db (handle_in_flight race_libs race_config (chain_rpc bh2) race_env race_row paid_state))
   \<and> (\<exists>status w1. rpc_signature_status (chain_rpc bh2) (signature_b58 (race_tx bh1)) True (ws_world paid_state)
        = (Inr (Some status), w1) \<and> ss_err status = None)"
proof -
  have k: "rr_channel_id race_row = ''c1''" "rr_tx_signature race_row = Some (signature_b58 (race_tx bh1))"
    "ws_db paid_state = race_db"
    by (simp_all add: race_row_def paid_state_def race_state_def)
  have "\<not> confirmed_in ''c1'' race_db"
    by (simp add: confirmed_in_def race_db_refunds race_refund_def claimed_row_def race_claim_def)
  moreover have "\<forall>n db. env_peers race_env n db = db" by (simp add: race_env_def)
  ultimately show ?thesis
    using worker_confirms_only_paid [of paid_state race_env race_row race_libs race_config "chain_rpc bh2"]
      race_db_reach paid_run k by auto
qed

end
