(* ===== verification/Payment_Types.thy ===== *)
theory Payment_Types
  imports Wire_Format Settlement_Error
begin

text \<open>
  The payment envelope of the protocol (\<open>crates/protocol/src/payment.rs\<close>, \<open>settlement.rs\<close>) and the
  errors of verification and settlement (\<open>crates/x402/src/traits.rs\<close>). JSON parsing is outside the
  model: a payload arrives as a value of these types.
\<close>

record payment_resource =
  res_url :: string
  res_method :: string

record payment_accept =
  pa_scheme :: string
  pa_network :: string
  pa_amount :: string
  pa_asset :: string
  pa_pay_to :: string
  pa_max_timeout_seconds :: u64
  pa_escrow_program_id :: "string option"

record solana_payload =
  sp_transaction :: string

record escrow_payload =
  ep_deposit_tx :: string
  ep_service_id :: string
  ep_agent_pubkey :: string

record channel_voucher_payload =
  cvp_channel_id :: string
  cvp_cumulative_atomic :: u64
  cvp_expiry_slot :: u64
  cvp_nonce :: u64
  cvp_request_digest :: string
  cvp_signature :: string

datatype payload_data =
    Payload_Escrow escrow_payload
  | Payload_Channel channel_voucher_payload
  | Payload_Direct solana_payload

record payment_payload =
  pp_x402_version :: u8
  pp_resource :: payment_resource
  pp_accepted :: payment_accept
  pp_payload :: payload_data

record verification_result =
  vr_valid :: bool
  vr_reason :: "string option"
  vr_verified_amount :: "u64 option"

record settlement_result =
  sr_success :: bool
  sr_tx_signature :: "string option"
  sr_network :: string
  sr_error :: "string option"
  sr_verified_amount :: "u64 option"
  sr_failure_kind :: "settlement_failure_kind option"

definition SOLANA_NETWORK :: string where
  "SOLANA_NETWORK = ''solana:5eykt4UsFv8P8NJdTREpY1vzqKqZKvdp''"

text \<open>The error type shared by the verifiers, the claimer and the facilitator.\<close>

datatype payment_error =
    Err_InvalidEncoding string
  | Err_InvalidTransaction string
  | Err_InvalidSignature string
  | Err_InsufficientPayment u64 u64 \<comment> \<open>expected, actual\<close>
  | Err_WrongRecipient string string \<comment> \<open>expected, actual\<close>
  | Err_WrongAsset string string \<comment> \<open>expected, actual\<close>
  | Err_SimulationFailed string
  | Err_SettlementFailed string
  | Err_Rpc string
  | Err_Timeout
  | Err_UnsupportedNetwork string
  | Err_EscrowNotConfirmed string
  | Err_EscrowClaimFailed string
  | Err_PayloadMismatch string
  | Err_RecipientOverrideUnsupported string

text \<open>Decimal text, as \<open>Display\<close> prints an unsigned integer and \<open>str::parse\<close> reads it back.\<close>

fun nat_text :: "nat \<Rightarrow> string" where
  "nat_text n = (if n < 10 then [char_of (48 + n)] else nat_text (n div 10) @ [char_of (48 + n mod 10)])"

declare nat_text.simps [simp del]

definition parse_u64 :: "string \<Rightarrow> u64 option" where
  "parse_u64 s =
    (let ds = (case s of c # cs \<Rightarrow> if c = CHR ''+'' then cs else s | [] \<Rightarrow> s) in
     if ds = [] \<or> (\<exists>c \<in> set ds. digit_value 10 c = None) then None
     else let v = foldl (\<lambda>acc c. acc * 10 + the (digit_value 10 c)) 0 ds in
       if v < 2 ^ 64 then Some (of_nat v) else None)"

primrec error_text :: "payment_error \<Rightarrow> string" where
  "error_text (Err_InvalidEncoding m) = ''invalid transaction encoding: '' @ m"
| "error_text (Err_InvalidTransaction m) = ''invalid transaction: '' @ m"
| "error_text (Err_InvalidSignature m) = ''invalid signature: '' @ m"
| "error_text (Err_InsufficientPayment expected actual) =
     ''insufficient payment: expected '' @ nat_text (unat expected) @ '' atomic units, got ''
     @ nat_text (unat actual)"
| "error_text (Err_WrongRecipient expected actual) =
     ''wrong recipient: expected '' @ expected @ '', got '' @ actual"
| "error_text (Err_WrongAsset expected actual) =
     ''wrong asset: expected '' @ expected @ '', got '' @ actual"
| "error_text (Err_SimulationFailed m) = ''transaction simulation failed: '' @ m"
| "error_text (Err_SettlementFailed m) = ''settlement failed: '' @ m"
| "error_text (Err_Rpc m) = ''rpc error: '' @ m"
| "error_text Err_Timeout = ''timeout waiting for confirmation''"
| "error_text (Err_UnsupportedNetwork m) = ''unsupported network: '' @ m"
| "error_text (Err_EscrowNotConfirmed m) = ''escrow deposit not confirmed: '' @ m"
| "error_text (Err_EscrowClaimFailed m) = ''escrow claim failed: '' @ m"
| "error_text (Err_PayloadMismatch m) = ''payload type mismatch: '' @ m"
| "error_text (Err_RecipientOverrideUnsupported m) = ''verifier '' @ m
     @ '' does not support per-request recipient override; refusing to verify against its static recipient''"

lemma digit_value_char: "d < 10 \<Longrightarrow> digit_value 10 (char_of (48 + d)) = Some d"
  by (simp add: digit_value_def of_char_of)

lemma nat_text_digits: "\<forall>c \<in> set (nat_text n). digit_value 10 c \<noteq> None"
proof (induction n rule: nat_text.induct)
  case (1 n)
  then show ?case
    by (subst nat_text.simps) (auto simp: digit_value_char)
qed

lemma nat_text_value:
  "foldl (\<lambda>acc c. acc * 10 + the (digit_value 10 c)) 0 (nat_text n) = n"
proof (induction n rule: nat_text.induct)
  case (1 n)
  then show ?case
    by (subst nat_text.simps) (auto simp: digit_value_char)
qed

lemma nat_text_not_Nil [simp]: "nat_text n \<noteq> []"
  by (subst nat_text.simps) simp

lemma parse_nat_text: "parse_u64 (nat_text (unat w)) = Some w"
proof -
  have "digit_value 10 (CHR ''+'') = None" by (simp add: digit_value_def)
  then have plus: "(case nat_text n of c # cs \<Rightarrow> if c = CHR ''+'' then cs else nat_text n
      | [] \<Rightarrow> nat_text n) = nat_text n" for n
    using nat_text_digits [of n] by (cases "nat_text n") auto
  have "unat w < 2 ^ 64" using unsigned_less [of w, where ?'a = nat] by simp
  then show ?thesis
    using nat_text_digits [of "unat w"]
    by (auto simp: parse_u64_def Let_def plus nat_text_value)
qed

end
