(* ===== verification/Redis_Cache.thy ===== *)
theory Redis_Cache
  imports Payment_Types "HOL-Library.Sublist"
begin

text \<open>
  The shared store behind replay protection and the cross-instance locks
  (\<open>gateway/src/cache/mod.rs\<close>), and the replay guard of the paid routes with its in-memory
  fallback (\<open>gateway/src/lib.rs\<close>, \<open>routes/chat/mod.rs\<close>, \<open>proxy.rs\<close>, \<open>search.rs\<close>). Redis is a map of
  keys to values with an expiry in seconds; a call may fail to connect, or lose its reply before
  or after the command took effect. The bounded LRU map is a package outside the repository: its
  operations are the fields of the parameter \<open>lru\<close>.
\<close>

section \<open>Store\<close>

type_synonym redis = "string \<Rightarrow> (string \<times> nat option) option"

datatype redis_reply =
    Rd_Ok
  | Rd_NoConnection
  | Rd_Failed bool \<comment> \<open>reply lost; did the command take effect?\<close>

datatype cache_error = Cache_Connection | Cache_Operation | Cache_Replay | Cache_Unavailable

definition rd_get :: "nat \<Rightarrow> string \<Rightarrow> redis \<Rightarrow> string option" where
  "rd_get now k rd = (case rd k of
     None \<Rightarrow> None
   | Some (v, None) \<Rightarrow> Some v
   | Some (v, Some t) \<Rightarrow> if now < t then Some v else None)"

text \<open>\<open>SET key value NX EX ttl\<close>: true when the key was newly set.\<close>

definition rd_set_nx_ex :: "nat \<Rightarrow> string \<Rightarrow> string \<Rightarrow> nat \<Rightarrow> redis \<Rightarrow> bool \<times> redis" where
  "rd_set_nx_ex now k v ttl rd =
    (if rd_get now k rd = None then (True, rd(k \<mapsto> (v, Some (now + ttl)))) else (False, rd))"

text \<open>A command over the wire: its answer and the store afterwards.\<close>

definition rd_command :: "redis_reply \<Rightarrow> 'a \<times> 'r \<Rightarrow> 'r \<Rightarrow> (cache_error, 'a) result \<times> 'r" where
  "rd_command rep effect rd =
    (case rep of
       Rd_Ok \<Rightarrow> (Inr (fst effect), snd effect)
     | Rd_NoConnection \<Rightarrow> (Inl Cache_Operation, rd)
     | Rd_Failed applied \<Rightarrow> (Inl Cache_Operation, if applied then snd effect else rd))"

section \<open>Keys\<close>

definition REPLAY_KEY_PREFIX :: string where "REPLAY_KEY_PREFIX = ''solvela:txn:''"
definition A2A_SETTLE_LOCK_PREFIX :: string where "A2A_SETTLE_LOCK_PREFIX = ''solvela:a2a:settle_lock:''"
definition CHANNEL_DRAW_LOCK_PREFIX :: string where
  "CHANNEL_DRAW_LOCK_PREFIX = ''solvela:channel:draw_lock:''"
definition FREE_TIER_GLOBAL_RPM_PREFIX :: string where
  "FREE_TIER_GLOBAL_RPM_PREFIX = ''free_tier:global_rpm:''"
definition CHANNEL_DRAW_LOCK_TTL_SECS :: nat where "CHANNEL_DRAW_LOCK_TTL_SECS = 900"
definition FREE_TIER_GLOBAL_WINDOW_TTL_SECS :: nat where "FREE_TIER_GLOBAL_WINDOW_TTL_SECS = 120"
definition TASK_KEY_PREFIX :: string where "TASK_KEY_PREFIX = ''a2a_task:''"

section \<open>Replay protection\<close>

record ('c, 'v) lru =
  lru_get :: "'c \<Rightarrow> string \<Rightarrow> 'v option \<times> 'c"
  lru_put :: "'c \<Rightarrow> string \<Rightarrow> 'v \<Rightarrow> 'c"
  lru_pop :: "'c \<Rightarrow> string \<Rightarrow> 'c"

record 'c response_cache =
  rc_redis :: redis
  rc_fallback :: 'c

definition fallback_check ::
  "('c, unit) lru \<Rightarrow> string \<Rightarrow> 'c response_cache \<Rightarrow> (cache_error, unit) result \<times> 'c response_cache"
where
  "fallback_check lru tx c =
    (case lru_get lru (rc_fallback c) tx of
       (Some _, m) \<Rightarrow> (Inl Cache_Replay, c\<lparr>rc_fallback := m\<rparr>)
     | (None, m) \<Rightarrow> (Inr (), c\<lparr>rc_fallback := lru_put lru m tx ()\<rparr>))"

definition replay_ttl :: "bool \<Rightarrow> nat" where
  "replay_ttl uses_durable_nonce = (if uses_durable_nonce then 86400 else 120)"

definition check_and_record_tx ::
  "('c, unit) lru \<Rightarrow> redis_reply \<Rightarrow> nat \<Rightarrow> string \<Rightarrow> bool \<Rightarrow> 'c response_cache
     \<Rightarrow> (cache_error, unit) result \<times> 'c response_cache" where
  "check_and_record_tx lru rep now tx_signature uses_durable_nonce c =
    (let key = REPLAY_KEY_PREFIX @ tx_signature;
         (r, rd) = rd_command rep (rd_set_nx_ex now key ''1'' (replay_ttl uses_durable_nonce)
                     (rc_redis c)) (rc_redis c);
         c' = c\<lparr>rc_redis := rd\<rparr>
     in case r of
          Inr True \<Rightarrow> (Inr (), c')
        | Inr False \<Rightarrow> (Inl Cache_Replay, c')
        | Inl _ \<Rightarrow> fallback_check lru tx_signature c')"

section \<open>Locks, counters and raw access\<close>

definition acquire_settle_lock ::
  "redis_reply \<Rightarrow> nat \<Rightarrow> string \<Rightarrow> nat \<Rightarrow> redis \<Rightarrow> (cache_error, bool) result \<times> redis" where
  "acquire_settle_lock rep now task_id ttl_secs rd =
     rd_command rep (rd_set_nx_ex now (A2A_SETTLE_LOCK_PREFIX @ task_id) ''1'' ttl_secs rd) rd"

definition del_raw :: "redis_reply \<Rightarrow> string \<Rightarrow> redis \<Rightarrow> (cache_error, unit) result \<times> redis" where
  "del_raw rep key rd = rd_command rep ((), rd(key := None)) rd"

definition release_settle_lock :: "redis_reply \<Rightarrow> string \<Rightarrow> redis \<Rightarrow> redis" where
  "release_settle_lock rep task_id rd = snd (del_raw rep (A2A_SETTLE_LOCK_PREFIX @ task_id) rd)"

definition acquire_channel_draw_lock ::
  "redis_reply \<Rightarrow> nat \<Rightarrow> string \<Rightarrow> string \<Rightarrow> redis \<Rightarrow> (cache_error, string option) result \<times> redis"
where
  "acquire_channel_draw_lock rep now token channel_id rd =
     (case rd_command rep (rd_set_nx_ex now (CHANNEL_DRAW_LOCK_PREFIX @ channel_id) token
             CHANNEL_DRAW_LOCK_TTL_SECS rd) rd of
        (Inl e, rd') \<Rightarrow> (Inl e, rd')
      | (Inr newly, rd') \<Rightarrow> (Inr (if newly then Some token else None), rd'))"

definition release_channel_draw_lock :: "redis_reply \<Rightarrow> nat \<Rightarrow> string \<Rightarrow> string \<Rightarrow> redis \<Rightarrow> redis" where
  "release_channel_draw_lock rep now channel_id token rd =
    (let key = CHANNEL_DRAW_LOCK_PREFIX @ channel_id in
     snd (rd_command rep (if rd_get now key rd = Some token then (1 :: nat, rd(key := None))
                          else (0, rd)) rd))"

definition channel_draw_lock_held ::
  "redis_reply \<Rightarrow> nat \<Rightarrow> string \<Rightarrow> string \<Rightarrow> redis \<Rightarrow> (cache_error, bool) result" where
  "channel_draw_lock_held rep now channel_id token rd =
     fst (rd_command rep (rd_get now (CHANNEL_DRAW_LOCK_PREFIX @ channel_id) rd = Some token, rd) rd)"

definition count_of :: "string option \<Rightarrow> nat" where
  "count_of v = (case v of None \<Rightarrow> 0 | Some s \<Rightarrow> (case parse_u64 s of None \<Rightarrow> 0 | Some n \<Rightarrow> unat n))"

text \<open>\<open>INCR\<close> keeps the expiry of a live key; the first increment then sets the window's expiry,
  best effort.\<close>

definition incr_global_free_window ::
  "redis_reply \<Rightarrow> bool \<Rightarrow> nat \<Rightarrow> nat \<Rightarrow> redis \<Rightarrow> (cache_error, nat) result \<times> redis" where
  "incr_global_free_window rep expire_ok now epoch_minute rd =
    (let key = FREE_TIER_GLOBAL_RPM_PREFIX @ nat_text epoch_minute;
         count = count_of (rd_get now key rd) + 1;
         expiry = (if rd_get now key rd = None then None else Option.bind (rd key) snd) in
     case rd_command rep (count, rd(key \<mapsto> (nat_text count, expiry))) rd of
       (Inl e, rd') \<Rightarrow> (Inl e, rd')
     | (Inr n, rd') \<Rightarrow>
         (Inr n, if n = 1 \<and> expire_ok
                 then rd'(key \<mapsto> (nat_text n, Some (now + FREE_TIER_GLOBAL_WINDOW_TTL_SECS)))
                 else rd'))"

definition get_raw :: "redis_reply \<Rightarrow> nat \<Rightarrow> string \<Rightarrow> redis \<Rightarrow> (cache_error, string option) result" where
  "get_raw rep now key rd = fst (rd_command rep (rd_get now key rd, rd) rd)"

definition set_raw ::
  "redis_reply \<Rightarrow> nat \<Rightarrow> string \<Rightarrow> string \<Rightarrow> nat \<Rightarrow> redis \<Rightarrow> (cache_error, unit) result \<times> redis" where
  "set_raw rep now key v ttl rd = rd_command rep ((), rd(key \<mapsto> (v, Some (now + ttl)))) rd"

section \<open>The replay guard of the paid routes\<close>

datatype replay_path = Path_Chat | Path_Proxy | Path_A2a | Path_Search | Path_SolanaPrice

definition REPLAY_TTL :: nat where "REPLAY_TTL = 120"

datatype replay_verdict = Replay_Fresh | Replay_Detected | Replay_Degraded

text \<open>Without Redis: a bucket per route, entries stamped with their insertion time; a
  durable-nonce transaction is refused.\<close>

definition in_memory_replay_check ::
  "('c, nat) lru \<Rightarrow> nat \<Rightarrow> replay_path \<Rightarrow> string \<Rightarrow> bool \<Rightarrow> (replay_path \<Rightarrow> 'c)
     \<Rightarrow> replay_verdict \<times> (replay_path \<Rightarrow> 'c)" where
  "in_memory_replay_check lru now path tx_raw is_durable_nonce sets =
    (if is_durable_nonce then (Replay_Degraded, sets)
     else case lru_get lru (sets path) tx_raw of
       (Some inserted_at, m) \<Rightarrow>
         if now - inserted_at < REPLAY_TTL then (Replay_Detected, sets(path := m))
         else (Replay_Fresh, sets(path := lru_put lru (lru_pop lru m tx_raw) tx_raw now))
     | (None, m) \<Rightarrow> (Replay_Fresh, sets(path := lru_put lru m tx_raw now)))"

definition redis_replay_check ::
  "('c, unit) lru \<Rightarrow> redis_reply \<Rightarrow> nat \<Rightarrow> string \<Rightarrow> bool \<Rightarrow> 'c response_cache
     \<Rightarrow> replay_verdict \<times> 'c response_cache" where
  "redis_replay_check lru rep now tx_raw is_durable_nonce c =
    (case check_and_record_tx lru rep now tx_raw is_durable_nonce c of
       (Inl _, c') \<Rightarrow> (Replay_Detected, c')
     | (Inr _, c') \<Rightarrow> (Replay_Fresh, c'))"

section \<open>Everything the gateway does to the store\<close>

text \<open>A step is the passing of time, one call of this module with any outcome of the wire, or any
  change of a key that is neither a replay entry nor a draw lock: the response cache
  (\<open>solvela:cache:\<close>, \<open>solvela:scache\<close>), the spend counters and the cached budget rows are such
  keys. \<open>R\<close> is the set of draw locks, as channel and token, that may be released.\<close>

inductive cache_step ::
  "('c, unit) lru \<Rightarrow> (string \<times> string) set \<Rightarrow> nat \<times> 'c response_cache \<Rightarrow> nat \<times> 'c response_cache \<Rightarrow> bool"
  for lru :: "('c, unit) lru" and R :: "(string \<times> string) set" where
  cs_time: "cache_step lru R (t, c) (t + d, c)"
| cs_check: "cache_step lru R (t, c) (t, snd (check_and_record_tx lru rep t tx dn c))"
| cs_settle: "cache_step lru R (t, c)
    (t, c\<lparr>rc_redis := snd (acquire_settle_lock rep t task ttl (rc_redis c))\<rparr>)"
| cs_settle_release: "cache_step lru R (t, c)
    (t, c\<lparr>rc_redis := release_settle_lock rep task (rc_redis c)\<rparr>)"
| cs_draw: "cache_step lru R (t, c)
    (t, c\<lparr>rc_redis := snd (acquire_channel_draw_lock rep t tok ch (rc_redis c))\<rparr>)"
| cs_draw_release: "(ch, tok) \<in> R \<Longrightarrow> cache_step lru R (t, c)
    (t, c\<lparr>rc_redis := release_channel_draw_lock rep t ch tok (rc_redis c)\<rparr>)"
| cs_incr: "cache_step lru R (t, c)
    (t, c\<lparr>rc_redis := snd (incr_global_free_window rep ex t minute (rc_redis c))\<rparr>)"
| cs_task_set: "cache_step lru R (t, c)
    (t, c\<lparr>rc_redis := snd (set_raw rep t (TASK_KEY_PREFIX @ task) v ttl (rc_redis c))\<rparr>)"
| cs_task_del: "cache_step lru R (t, c)
    (t, c\<lparr>rc_redis := snd (del_raw rep (TASK_KEY_PREFIX @ task) (rc_redis c))\<rparr>)"
| cs_other: "\<not> prefix REPLAY_KEY_PREFIX k \<Longrightarrow> \<not> prefix CHANNEL_DRAW_LOCK_PREFIX k \<Longrightarrow>
    cache_step lru R (t, c) (t, c\<lparr>rc_redis := (rc_redis c)(k := entry)\<rparr>)"

inductive_cases cache_stepE: "cache_step lru R (t, c) (t', c')"

section \<open>Which keys a call can change\<close>

lemma key_prefixes [simp]:
  "REPLAY_KEY_PREFIX @ a \<noteq> A2A_SETTLE_LOCK_PREFIX @ b" "A2A_SETTLE_LOCK_PREFIX @ b \<noteq> REPLAY_KEY_PREFIX @ a"
  "REPLAY_KEY_PREFIX @ a \<noteq> CHANNEL_DRAW_LOCK_PREFIX @ b" "CHANNEL_DRAW_LOCK_PREFIX @ b \<noteq> REPLAY_KEY_PREFIX @ a"
  "REPLAY_KEY_PREFIX @ a \<noteq> FREE_TIER_GLOBAL_RPM_PREFIX @ b" "FREE_TIER_GLOBAL_RPM_PREFIX @ b \<noteq> REPLAY_KEY_PREFIX @ a"
  "REPLAY_KEY_PREFIX @ a \<noteq> TASK_KEY_PREFIX @ b" "TASK_KEY_PREFIX @ b \<noteq> REPLAY_KEY_PREFIX @ a"
  "CHANNEL_DRAW_LOCK_PREFIX @ a \<noteq> A2A_SETTLE_LOCK_PREFIX @ b"
  "A2A_SETTLE_LOCK_PREFIX @ b \<noteq> CHANNEL_DRAW_LOCK_PREFIX @ a"
  "CHANNEL_DRAW_LOCK_PREFIX @ a \<noteq> FREE_TIER_GLOBAL_RPM_PREFIX @ b"
  "FREE_TIER_GLOBAL_RPM_PREFIX @ b \<noteq> CHANNEL_DRAW_LOCK_PREFIX @ a"
  "CHANNEL_DRAW_LOCK_PREFIX @ a \<noteq> TASK_KEY_PREFIX @ b" "TASK_KEY_PREFIX @ b \<noteq> CHANNEL_DRAW_LOCK_PREFIX @ a"
  by (simp_all add: REPLAY_KEY_PREFIX_def A2A_SETTLE_LOCK_PREFIX_def CHANNEL_DRAW_LOCK_PREFIX_def
      FREE_TIER_GLOBAL_RPM_PREFIX_def TASK_KEY_PREFIX_def)

text \<open>A live key is never overwritten by a conditional set.\<close>

lemma set_nx_ex_keeps:
  "rd k = Some (v, Some e) \<Longrightarrow> now < e \<Longrightarrow> snd (rd_set_nx_ex now k' w ttl rd) k = Some (v, Some e)"
  by (auto simp: rd_set_nx_ex_def rd_get_def)

lemma rd_command_keeps:
  "rd k = x \<Longrightarrow> snd effect k = x \<Longrightarrow> snd (rd_command rep effect rd) k = x"
  by (auto simp: rd_command_def split: redis_reply.splits)

lemma fallback_check_redis [simp]: "rc_redis (snd (fallback_check lru tx c)) = rc_redis c"
  by (auto simp: fallback_check_def split: prod.splits option.splits)

lemma check_and_record_redis:
  "rc_redis (snd (check_and_record_tx lru rep t tx dn c))
   = snd (rd_command rep (rd_set_nx_ex t (REPLAY_KEY_PREFIX @ tx) ''1'' (replay_ttl dn) (rc_redis c))
       (rc_redis c))"
  by (auto simp: check_and_record_tx_def Let_def split: prod.splits sum.splits bool.splits)

lemma acquire_channel_draw_redis:
  "snd (acquire_channel_draw_lock rep t tok ch rd)
   = snd (rd_command rep (rd_set_nx_ex t (CHANNEL_DRAW_LOCK_PREFIX @ ch) tok CHANNEL_DRAW_LOCK_TTL_SECS rd) rd)"
  by (simp add: acquire_channel_draw_lock_def split: prod.splits sum.splits)

text \<open>An unexpired replay entry or draw lock survives every step, except the release of the lock
  with its own token.\<close>

lemma cache_step_keeps:
  assumes "cache_step lru R (t, c) (t', c')" "rc_redis c k = Some (v, Some e)" "t' < e"
    and "(\<exists>tx. k = REPLAY_KEY_PREFIX @ tx) \<or> (\<exists>ch. k = CHANNEL_DRAW_LOCK_PREFIX @ ch \<and> (ch, v) \<notin> R)"
  shows "rc_redis c' k = Some (v, Some e) \<and> t \<le> t'"
  using assms(1)
proof cases
  case (cs_check rep tx dn)
  then show ?thesis
    using assms(2,3) by (simp add: check_and_record_redis rd_command_keeps set_nx_ex_keeps)
next
  case (cs_settle rep task ttl)
  then show ?thesis
    using assms(2,3) by (simp add: acquire_settle_lock_def rd_command_keeps set_nx_ex_keeps)
next
  case (cs_settle_release rep task)
  then show ?thesis
    using assms(2,4) by (auto simp: release_settle_lock_def del_raw_def intro!: rd_command_keeps)
next
  case (cs_draw rep tok ch)
  then show ?thesis
    using assms(2,3) by (simp add: acquire_channel_draw_redis rd_command_keeps set_nx_ex_keeps)
next
  case (cs_draw_release ch tok rep)
  have "k = CHANNEL_DRAW_LOCK_PREFIX @ ch \<Longrightarrow> v \<noteq> tok" using assms(4) cs_draw_release by auto
  then show ?thesis
    using assms(2,3) cs_draw_release
    by (auto simp: release_channel_draw_lock_def Let_def rd_get_def intro!: rd_command_keeps)
next
  case (cs_incr rep ex minute)
  have "FREE_TIER_GLOBAL_RPM_PREFIX @ nat_text minute \<noteq> k" using assms(4) by auto
  then show ?thesis
    using assms(2) cs_incr
    by (auto simp: incr_global_free_window_def Let_def rd_command_def split: redis_reply.splits)
next
  case (cs_task_set rep task w ttl)
  then show ?thesis
    using assms(2,4) by (auto simp: set_raw_def intro!: rd_command_keeps)
next
  case (cs_task_del rep task)
  then show ?thesis
    using assms(2,4) by (auto simp: del_raw_def intro!: rd_command_keeps)
next
  case (cs_other k' entry)
  then have "k \<noteq> k'" using assms(4) by (auto simp: prefix_def)
  then show ?thesis using assms(2) cs_other by simp
qed (use assms in auto)

lemma cache_steps_keep:
  assumes "(cache_step lru R)\<^sup>*\<^sup>* (t, c) (t', c')" "rc_redis c k = Some (v, Some e)" "t' < e"
    and "(\<exists>tx. k = REPLAY_KEY_PREFIX @ tx) \<or> (\<exists>ch. k = CHANNEL_DRAW_LOCK_PREFIX @ ch \<and> (ch, v) \<notin> R)"
  shows "rc_redis c' k = Some (v, Some e)"
  using assms(1,3)
proof (induction "(t', c')" arbitrary: t' c' rule: rtranclp_induct)
  case base
  then show ?case using assms(2) by simp
next
  case (step y)
  obtain t1 c1 where y: "y = (t1, c1)" by (cases y)
  have "t1 \<le> t'" using step.hyps(2) unfolding y by (cases rule: cache_stepE) auto
  then have "rc_redis c1 k = Some (v, Some e)" using step y by simp
  then show ?case using cache_step_keeps step.hyps(2) step.prems assms(4) unfolding y by blast
qed

section \<open>Guarantees\<close>

lemma rd_command_Ok [simp]: "rd_command Rd_Ok effect rd = (Inr (fst effect), snd effect)"
  by (simp add: rd_command_def)

lemma check_accepts_Ok:
  "fst (check_and_record_tx lru Rd_Ok t tx dn c) = Inr () \<longleftrightarrow> rd_get t (REPLAY_KEY_PREFIX @ tx) (rc_redis c) = None"
  "fst (check_and_record_tx lru Rd_Ok t tx dn c) = Inr () \<Longrightarrow>
   rc_redis (snd (check_and_record_tx lru Rd_Ok t tx dn c)) (REPLAY_KEY_PREFIX @ tx)
     = Some (''1'', Some (t + replay_ttl dn))"
  by (auto simp: check_and_record_tx_def rd_set_nx_ex_def Let_def split: if_splits)

text \<open>
  C24. Replay protection across instances, for checks the store answers: once the store has recorded
  a payment transaction as fresh, then after any sequence of gateway steps (other checks, also of the
  same transaction and with lost replies, locks, counters, task records, response cache), a check of
  the same transaction that the store answers within the lifetime of the entry reports a replay. A
  check made while the store cannot be reached is outside this statement: it falls back to memory and
  may accept the transaction again (\<open>replay_accepted_during_outage\<close>).
\<close>
theorem replay_detected_until_expiry:
  assumes "check_and_record_tx lru Rd_Ok t tx dn c = (Inr (), c1)"
    and "(cache_step lru UNIV)\<^sup>*\<^sup>* (t, c1) (t', c')" and "t' < t + replay_ttl dn"
  shows "fst (check_and_record_tx lru Rd_Ok t' tx dn' c') = Inl Cache_Replay"
proof -
  have "rc_redis c1 (REPLAY_KEY_PREFIX @ tx) = Some (''1'', Some (t + replay_ttl dn))"
    using check_accepts_Ok(2) [of lru t tx dn c] assms(1) by simp
  from cache_steps_keep [OF assms(2) this assms(3)]
  have "rc_redis c' (REPLAY_KEY_PREFIX @ tx) = Some (''1'', Some (t + replay_ttl dn))" by blast
  then have "rd_get t' (REPLAY_KEY_PREFIX @ tx) (rc_redis c') = Some ''1''"
    using assms(3) by (simp add: rd_get_def)
  then show ?thesis by (simp add: check_and_record_tx_def rd_set_nx_ex_def)
qed

text \<open>
  C25. A draw lock excludes every other draw on the channel until it expires or its own holder
  releases it: no acquisition succeeds in between, the holder's ownership check answers yes, and
  releases with other tokens do not remove it.
\<close>
theorem draw_lock_exclusive:
  assumes "acquire_channel_draw_lock Rd_Ok t tok ch (rc_redis c) = (Inr (Some tok), rd)"
    and "(cache_step lru R)\<^sup>*\<^sup>* (t, c\<lparr>rc_redis := rd\<rparr>) (t', c')" and "(ch, tok) \<notin> R"
    and "t' < t + CHANNEL_DRAW_LOCK_TTL_SECS"
  shows "fst (acquire_channel_draw_lock Rd_Ok t' tok' ch (rc_redis c')) = Inr None
    \<and> channel_draw_lock_held Rd_Ok t' ch tok (rc_redis c') = Inr True"
proof -
  let ?k = "CHANNEL_DRAW_LOCK_PREFIX @ ch"
  have "rc_redis (c\<lparr>rc_redis := rd\<rparr>) ?k = Some (tok, Some (t + CHANNEL_DRAW_LOCK_TTL_SECS))"
    using assms(1) by (auto simp: acquire_channel_draw_lock_def rd_set_nx_ex_def split: if_splits)
  from cache_steps_keep [OF assms(2) this assms(4)] assms(3)
  have "rc_redis c' ?k = Some (tok, Some (t + CHANNEL_DRAW_LOCK_TTL_SECS))" by blast
  then have "rd_get t' ?k (rc_redis c') = Some tok" using assms(4) by (simp add: rd_get_def)
  then show ?thesis
    by (simp add: acquire_channel_draw_lock_def rd_set_nx_ex_def channel_draw_lock_held_def)
qed

section \<open>Where protection degrades\<close>

text \<open>The operations an LRU map documents: a new map holds nothing, and a stored entry is found
  again.\<close>

definition lru_laws :: "('c, 'v) lru \<Rightarrow> 'c \<Rightarrow> bool" where
  "lru_laws lru empty_lru \<longleftrightarrow> (\<forall>k. fst (lru_get lru empty_lru k) = None)
     \<and> (\<forall>c k v. fst (lru_get lru (lru_put lru c k v) k) = Some v)"

text \<open>
  When the store cannot be reached, a transaction that is already recorded is accepted again:
  the in-memory fallback knows only what was seen while Redis was down. This includes durable-nonce
  transactions, which the routes refuse when no Redis is configured at all.
\<close>
theorem replay_accepted_during_outage:
  assumes "lru_laws lru empty_lru"
  shows "(let c0 = \<lparr>rc_redis = Map.empty, rc_fallback = empty_lru\<rparr>;
              (r1, c1) = redis_replay_check lru Rd_Ok 0 tx True c0;
              (r2, c2) = redis_replay_check lru Rd_NoConnection 1 tx True c1
          in r1 = Replay_Fresh \<and> r2 = Replay_Fresh)
    \<and> fst (in_memory_replay_check lru' 0 path tx True sets) = Replay_Degraded"
proof -
  have "fst (lru_get lru empty_lru tx) = None" using assms by (simp add: lru_laws_def)
  then show ?thesis
    by (auto simp: redis_replay_check_def check_and_record_tx_def rd_set_nx_ex_def rd_get_def Let_def
        fallback_check_def rd_command_def in_memory_replay_check_def split: prod.splits option.splits)
qed

text \<open>
  Without Redis the replay sets are separate per route, so one transaction is accepted once on
  each of the five paid routes within the same second; a second submission on the same route is
  detected.
\<close>
theorem replay_accepted_across_routes:
  assumes "lru_laws lru empty_lru" "p \<noteq> q"
  shows "let (r1, s1) = in_memory_replay_check lru now p tx False (\<lambda>_. empty_lru);
             (r2, s2) = in_memory_replay_check lru now q tx False s1;
             (r3, s3) = in_memory_replay_check lru now p tx False s2
         in r1 = Replay_Fresh \<and> r2 = Replay_Fresh \<and> r3 = Replay_Detected"
proof -
  obtain m where m: "lru_get lru empty_lru tx = (None, m)"
    using assms(1) by (metis lru_laws_def prod.collapse)
  obtain m' where m': "lru_get lru (lru_put lru m tx now) tx = (Some now, m')"
    using assms(1) by (metis lru_laws_def prod.collapse)
  show ?thesis
    using assms(2) by (simp add: in_memory_replay_check_def m m' REPLAY_TTL_def Let_def)
qed

section \<open>Concrete runs\<close>

definition map_lru :: "(string \<Rightarrow> 'v option, 'v) lru" where
  "map_lru = \<lparr>lru_get = (\<lambda>m k. (m k, m)), lru_put = (\<lambda>m k v. m(k \<mapsto> v)),
     lru_pop = (\<lambda>m k. m(k := None))\<rparr>"

lemma map_lru_laws: "lru_laws map_lru Map.empty"
  by (simp add: lru_laws_def map_lru_def)

definition demo_cache :: "(string \<Rightarrow> unit option) response_cache" where
  "demo_cache = \<lparr>rc_redis = Map.empty, rc_fallback = Map.empty\<rparr>"

theorem replay_detected_until_expiry_witness:
  "fst (check_and_record_tx map_lru Rd_Ok 5 ''tx'' False
     (snd (check_and_record_tx map_lru Rd_Ok 0 ''tx'' False demo_cache))) = Inl Cache_Replay"
proof -
  let ?c1 = "snd (check_and_record_tx map_lru Rd_Ok 0 ''tx'' False demo_cache)"
  have a: "check_and_record_tx map_lru Rd_Ok 0 ''tx'' False demo_cache = (Inr (), ?c1)"
    by (simp add: check_and_record_tx_def rd_set_nx_ex_def rd_get_def demo_cache_def Let_def)
  have s: "(cache_step map_lru UNIV)\<^sup>*\<^sup>* (0, ?c1) (5, ?c1)"
    using cs_time [of map_lru UNIV 0 ?c1 5] by (auto intro: r_into_rtranclp)
  show ?thesis by (rule replay_detected_until_expiry [OF a s]) (simp add: replay_ttl_def)
qed

theorem draw_lock_exclusive_witness:
  "\<exists>rd. acquire_channel_draw_lock Rd_Ok 0 ''t1'' ''ch'' Map.empty = (Inr (Some ''t1''), rd)
     \<and> fst (acquire_channel_draw_lock Rd_Ok 5 ''t2'' ''ch'' rd) = Inr None
     \<and> channel_draw_lock_held Rd_Ok 5 ''ch'' ''t1'' rd = Inr True"
proof -
  obtain rd where a: "acquire_channel_draw_lock Rd_Ok 0 ''t1'' ''ch'' (rc_redis demo_cache)
      = (Inr (Some ''t1''), rd)"
    by (simp add: acquire_channel_draw_lock_def rd_set_nx_ex_def rd_get_def demo_cache_def)
  let ?c = "demo_cache\<lparr>rc_redis := rd\<rparr>"
  have s: "(cache_step map_lru {})\<^sup>*\<^sup>* (0, ?c) (5, ?c)"
    using cs_time [of map_lru "{}" 0 ?c 5] by (auto intro: r_into_rtranclp)
  have "fst (acquire_channel_draw_lock Rd_Ok 5 ''t2'' ''ch'' (rc_redis ?c)) = Inr None
      \<and> channel_draw_lock_held Rd_Ok 5 ''ch'' ''t1'' (rc_redis ?c) = Inr True"
    by (rule draw_lock_exclusive [OF a s]) (simp_all add: CHANNEL_DRAW_LOCK_TTL_SECS_def)
  with a show ?thesis by (auto simp: demo_cache_def)
qed

theorem replay_accepted_during_outage_witness:
  "let c0 = \<lparr>rc_redis = Map.empty, rc_fallback = Map.empty\<rparr>;
       (r1, c1) = redis_replay_check map_lru Rd_Ok 0 ''tx'' True c0;
       (r2, c2) = redis_replay_check map_lru Rd_NoConnection 1 ''tx'' True c1
   in r1 = Replay_Fresh \<and> r2 = Replay_Fresh"
  using replay_accepted_during_outage [OF map_lru_laws, of "''tx''" map_lru Path_Chat "\<lambda>_. Map.empty"]
  by blast

theorem replay_accepted_across_routes_witness:
  "let (r1, s1) = in_memory_replay_check map_lru 7 Path_Chat ''tx'' False (\<lambda>_. Map.empty);
       (r2, s2) = in_memory_replay_check map_lru 7 Path_Search ''tx'' False s1;
       (r3, s3) = in_memory_replay_check map_lru 7 Path_Chat ''tx'' False s2
   in r1 = Replay_Fresh \<and> r2 = Replay_Fresh \<and> r3 = Replay_Detected"
  by (rule replay_accepted_across_routes [OF map_lru_laws]) simp

end
