(* ===== verification/F64.thy ===== *)
theory F64
  imports Payment_Types Complex_Main "HOL-Library.Log_Nat"
begin

text \<open>
  The \<open>f64\<close> of the Rust language as the pricing code uses it: IEEE 754 binary64 with round to
  nearest, ties to even, over exact rationals. A finite value carries its sign (so that \<open>-0.0\<close>
  is told from \<open>0.0\<close>) and its magnitude. The arithmetic rounds the exact result once, \<open>as\<close>
  casts saturate, and \<open>{:.6}\<close> prints the exact decimal expansion rounded to six places. The
  lemmas bound the error of one rounding, which is what the comparison of quoted and billed
  amounts needs.
\<close>

section \<open>Values and rounding\<close>

datatype f64 =
    F64_NaN
  | F64_Inf bool \<comment> \<open>negative?\<close>
  | F64_Fin bool rat \<comment> \<open>negative?, magnitude\<close>

definition round_half_even :: "rat \<Rightarrow> int" where
  "round_half_even q = (let n = \<lfloor>q\<rfloor>; r = q - of_int n in
     if r < 1 / 2 \<or> r = 1 / 2 \<and> even n then n else n + 1)"

text \<open>The exponent of the last place of the binary64 numbers around a positive \<open>q\<close>.\<close>

definition ulp_exp :: "rat \<Rightarrow> int" where
  "ulp_exp q = (case quotient_of q of (a, b) \<Rightarrow>
     let k = int (floorlog 2 (nat a)) - int (floorlog 2 (nat b));
         lg = (if 2 powi k \<le> q then k else k - 1)
     in max (- 1074) (lg - 52))"

definition round_mag :: "rat \<Rightarrow> rat" where
  "round_mag q = (if q = 0 then 0 else
     let p = 2 powi (ulp_exp q) in of_int (round_half_even (q / p)) * p)"

definition f64_round :: "bool \<Rightarrow> rat \<Rightarrow> f64" where
  "f64_round s q = (if 2 ^ 1024 \<le> round_mag q then F64_Inf s else F64_Fin s (round_mag q))"

section \<open>Operations\<close>

fun f64_is_finite :: "f64 \<Rightarrow> bool" where
  "f64_is_finite (F64_Fin s q) = True"
| "f64_is_finite _ = False"

fun f64_val :: "f64 \<Rightarrow> rat" where
  "f64_val (F64_Fin s q) = (if s then - q else q)"
| "f64_val _ = 0"

fun f64_neg :: "f64 \<Rightarrow> f64" where
  "f64_neg (F64_Fin s q) = F64_Fin (\<not> s) q"
| "f64_neg (F64_Inf s) = F64_Inf (\<not> s)"
| "f64_neg F64_NaN = F64_NaN"

fun f64_abs :: "f64 \<Rightarrow> f64" where
  "f64_abs (F64_Fin s q) = F64_Fin False q"
| "f64_abs (F64_Inf s) = F64_Inf False"
| "f64_abs F64_NaN = F64_NaN"

fun f64_mul :: "f64 \<Rightarrow> f64 \<Rightarrow> f64" where
  "f64_mul (F64_Fin s p) (F64_Fin t q) = f64_round (s \<noteq> t) (p * q)"
| "f64_mul (F64_Inf s) (F64_Fin t q) = (if q = 0 then F64_NaN else F64_Inf (s \<noteq> t))"
| "f64_mul (F64_Fin s p) (F64_Inf t) = (if p = 0 then F64_NaN else F64_Inf (s \<noteq> t))"
| "f64_mul (F64_Inf s) (F64_Inf t) = F64_Inf (s \<noteq> t)"
| "f64_mul _ _ = F64_NaN"

fun f64_div :: "f64 \<Rightarrow> f64 \<Rightarrow> f64" where
  "f64_div (F64_Fin s p) (F64_Fin t q) =
     (if q = 0 then (if p = 0 then F64_NaN else F64_Inf (s \<noteq> t))
      else f64_round (s \<noteq> t) (p / q))"
| "f64_div (F64_Inf s) (F64_Fin t q) = F64_Inf (s \<noteq> t)"
| "f64_div (F64_Fin s p) (F64_Inf t) = F64_Fin (s \<noteq> t) 0"
| "f64_div _ _ = F64_NaN"

fun f64_add :: "f64 \<Rightarrow> f64 \<Rightarrow> f64" where
  "f64_add (F64_Fin s p) (F64_Fin t q) =
     (let r = (if s then - p else p) + (if t then - q else q) in
      if r = 0 then F64_Fin (s \<and> t) 0 else f64_round (r < 0) \<bar>r\<bar>)"
| "f64_add (F64_Inf s) (F64_Fin t q) = F64_Inf s"
| "f64_add (F64_Fin s p) (F64_Inf t) = F64_Inf t"
| "f64_add (F64_Inf s) (F64_Inf t) = (if s = t then F64_Inf s else F64_NaN)"
| "f64_add _ _ = F64_NaN"

definition f64_sub :: "f64 \<Rightarrow> f64 \<Rightarrow> f64" where
  "f64_sub x y = f64_add x (f64_neg y)"

fun f64_lt :: "f64 \<Rightarrow> f64 \<Rightarrow> bool" where
  "f64_lt (F64_Fin s p) (F64_Fin t q) = ((if s then - p else p) < (if t then - q else q))"
| "f64_lt (F64_Inf s) (F64_Fin t q) = s"
| "f64_lt (F64_Fin s p) (F64_Inf t) = (\<not> t)"
| "f64_lt (F64_Inf s) (F64_Inf t) = (s \<and> \<not> t)"
| "f64_lt _ _ = False"

fun f64_le :: "f64 \<Rightarrow> f64 \<Rightarrow> bool" where
  "f64_le (F64_Fin s p) (F64_Fin t q) = ((if s then - p else p) \<le> (if t then - q else q))"
| "f64_le (F64_Inf s) (F64_Fin t q) = s"
| "f64_le (F64_Fin s p) (F64_Inf t) = (\<not> t)"
| "f64_le (F64_Inf s) (F64_Inf t) = (s \<or> \<not> t)"
| "f64_le _ _ = False"

definition f64_of_nat :: "nat \<Rightarrow> f64" where
  "f64_of_nat n = f64_round False (of_nat n)"

text \<open>\<open>x as uN\<close> with \<open>uN::MAX = m\<close>: toward zero, saturating, \<open>NaN\<close> to zero.\<close>

fun f64_as_unsigned :: "nat \<Rightarrow> f64 \<Rightarrow> nat" where
  "f64_as_unsigned m F64_NaN = 0"
| "f64_as_unsigned m (F64_Inf s) = (if s then 0 else m)"
| "f64_as_unsigned m (F64_Fin s q) = (if s then 0 else min m (nat \<lfloor>q\<rfloor>))"

text \<open>\<open>f64::round\<close>: to the nearest integer, halves away from zero.\<close>

fun f64_round_int :: "f64 \<Rightarrow> f64" where
  "f64_round_int (F64_Fin s q) = f64_round s (of_int \<lfloor>q + 1 / 2\<rfloor>)"
| "f64_round_int x = x"

section \<open>Decimal text\<close>

text \<open>\<open>format!("{:.6}", x)\<close>.\<close>

primrec fixed_digits :: "nat \<Rightarrow> nat \<Rightarrow> string" where
  "fixed_digits 0 n = []"
| "fixed_digits (Suc k) n = fixed_digits k (n div 10) @ [char_of (48 + n mod 10)]"

definition micros_text :: "nat \<Rightarrow> string" where
  "micros_text n = nat_text (n div 10 ^ 6) @ ''.'' @ fixed_digits 6 (n mod 10 ^ 6)"

fun fmt6 :: "f64 \<Rightarrow> string" where
  "fmt6 F64_NaN = ''NaN''"
| "fmt6 (F64_Inf s) = (if s then ''-inf'' else ''inf'')"
| "fmt6 (F64_Fin s q) = (if s then ''-'' else '''')
     @ micros_text (nat (round_half_even (q * 10 ^ 6)))"

text \<open>\<open>str::parse::<f64>\<close>: an optional sign, digits with an optional point and exponent, or a
  spelled infinity or NaN; the decimal value is rounded once.\<close>

definition is_digit :: "char \<Rightarrow> bool" where
  "is_digit c \<longleftrightarrow> digit_value 10 c \<noteq> None"

definition digits_value :: "string \<Rightarrow> nat" where
  "digits_value ds = foldl (\<lambda>acc c. acc * 10 + the (digit_value 10 c)) 0 ds"

definition parse_exponent :: "string \<Rightarrow> int option" where
  "parse_exponent s =
    (case s of
       [] \<Rightarrow> Some 0
     | c # r \<Rightarrow>
       if c \<noteq> CHR ''e'' \<and> c \<noteq> CHR ''E'' then None
       else let (neg, ds) = (case r of d # r' \<Rightarrow> if d = CHR ''-'' then (True, r')
                              else if d = CHR ''+'' then (False, r') else (False, r)
                            | [] \<Rightarrow> (False, r)) in
         if ds = [] \<or> \<not> list_all is_digit ds then None
         else Some (if neg then - int (digits_value ds) else int (digits_value ds)))"

definition parse_f64 :: "string \<Rightarrow> f64 option" where
  "parse_f64 s =
    (let (neg, body) = (case s of c # r \<Rightarrow> if c = CHR ''-'' then (True, r)
                          else if c = CHR ''+'' then (False, r) else (False, s)
                        | [] \<Rightarrow> (False, s));
         whole = takeWhile is_digit body;
         r1 = dropWhile is_digit body;
         (frac, r2) = (case r1 of c # r \<Rightarrow> if c = CHR ''.''
                         then (takeWhile is_digit r, dropWhile is_digit r) else ([], r1)
                       | [] \<Rightarrow> ([], r1));
         word = map ascii_lower body
     in if whole @ frac \<noteq> [] then
          map_option (\<lambda>e. f64_round neg
            (of_nat (digits_value (whole @ frac)) * 10 powi (e - int (length frac))))
            (parse_exponent r2)
        else if word = ''inf'' \<or> word = ''infinity'' then Some (F64_Inf neg)
        else if word = ''nan'' then Some F64_NaN
        else None)"

section \<open>Rounding error\<close>

lemma round_half_even_error: "\<bar>of_int (round_half_even q) - q\<bar> \<le> 1 / 2"
proof -
  have "of_int \<lfloor>q\<rfloor> \<le> q" "q < of_int \<lfloor>q\<rfloor> + 1" by linarith+
  then show ?thesis
    by (auto simp: round_half_even_def Let_def abs_le_iff)
qed

lemma round_half_even_of_int [simp]: "round_half_even (of_int n) = n"
  by (simp add: round_half_even_def)

lemma round_half_evenI: "\<bar>q - of_int m\<bar> < 1 / 2 \<Longrightarrow> round_half_even q = m"
proof -
  assume "\<bar>q - of_int m\<bar> < 1 / 2"
  with round_half_even_error [of q] have "\<bar>of_int (round_half_even q) - of_int m\<bar> < (1 :: rat)"
    unfolding abs_le_iff abs_less_iff by linarith
  then have "(of_int \<bar>round_half_even q - m\<bar> :: rat) < of_int 1" by simp
  then show "round_half_even q = m" unfolding of_int_less_iff by simp
qed

lemma round_half_even_nonneg: "0 \<le> q \<Longrightarrow> 0 \<le> round_half_even q"
  by (auto simp: round_half_even_def Let_def)

lemma two_powi_diff: "(2::rat) powi (int m - int n) = 2 ^ m / 2 ^ n"
  by (simp add: power_int_diff)

lemma two_floorlog:
  assumes "0 < x"
  shows "(2::rat) ^ (floorlog 2 x - 1) \<le> of_nat x" "of_nat x < (2::rat) ^ floorlog 2 x"
proof -
  have "of_nat (2 ^ (floorlog 2 x - 1)) \<le> (of_nat x :: rat)"
    "(of_nat x :: rat) < of_nat (2 ^ floorlog 2 x)"
    using floorlog_bounds [of x 2] assms unfolding of_nat_le_iff of_nat_less_iff by simp_all
  then show "(2::rat) ^ (floorlog 2 x - 1) \<le> of_nat x" "of_nat x < (2::rat) ^ floorlog 2 x"
    by simp_all
qed

lemma two_powi_less_iff: "(2::rat) powi m < 2 powi n \<longleftrightarrow> m < n"
proof -
  have mono: "(2::rat) powi a < 2 powi b" if "a < b" for a b
    using that by (rule power_int_strict_increasing) simp
  then show ?thesis by (metis less_asym linorder_neqE_linordered_idom less_irrefl)
qed

lemma floorlog_quotient:
  assumes "0 < q" "quotient_of q = (a, b)"
  defines "k \<equiv> int (floorlog 2 (nat a)) - int (floorlog 2 (nat b))"
  shows "2 powi (k - 1) < q" "q < 2 powi (k + 1)"
proof -
  have b: "0 < b" using assms(2) by (rule quotient_of_denom_pos)
  have q: "q = of_int a / of_int b" using assms(2) by (rule quotient_of_div)
  with assms(1) b have a: "0 < a" by (simp add: zero_less_divide_iff)
  define x where "x = nat a"
  define y where "y = nat b"
  have xy: "0 < x" "0 < y" "q = of_nat x / of_nat y"
    using a b q by (simp_all add: x_def y_def)
  have x1: "(2::rat) ^ (floorlog 2 x - 1) \<le> of_nat x" "of_nat x < (2::rat) ^ floorlog 2 x"
    using two_floorlog [OF xy(1)] by simp_all
  have y1: "(2::rat) ^ (floorlog 2 y - 1) \<le> of_nat y" "of_nat y < (2::rat) ^ floorlog 2 y"
    using two_floorlog [OF xy(2)] by simp_all
  obtain m where m: "floorlog 2 x = Suc m"
    using xy(1) by (cases "floorlog 2 x") (auto simp: floorlog_eq_zero_iff)
  obtain n where n: "floorlog 2 y = Suc n"
    using xy(2) by (cases "floorlog 2 y") (auto simp: floorlog_eq_zero_iff)
  have k: "k = int (Suc m) - int (Suc n)" by (simp add: k_def x_def y_def m n flip: x_def y_def)
  have "2 powi (k - 1) = 2 ^ m / (2::rat) ^ Suc n"
    unfolding k using two_powi_diff [of m "Suc n"] by (simp add: diff_diff_eq add.commute)
  also have "\<dots> < of_nat x / of_nat y"
    using x1 y1 xy(2) unfolding m n by (intro frac_less2) auto
  finally show "2 powi (k - 1) < q" by (simp add: xy(3))
  have "of_nat x / of_nat y < (2::rat) ^ Suc m / 2 ^ n"
    using x1 y1 xy unfolding m n by (intro frac_less) auto
  also have "\<dots> = 2 powi (k + 1)"
    unfolding k using two_powi_diff [of "Suc m" n] by (simp add: add_diff_eq diff_add_eq add.commute)
  finally show "q < 2 powi (k + 1)" by (simp add: xy(3))
qed

lemma ulp_exp_bounds:
  assumes "0 < q"
  shows "- 1074 \<le> ulp_exp q" "2 powi (ulp_exp q + 52) \<le> q \<or> ulp_exp q = - 1074"
    "q < 2 powi (ulp_exp q + 53)"
proof -
  obtain a b where ab: "quotient_of q = (a, b)" by fastforce
  define k where "k = int (floorlog 2 (nat a)) - int (floorlog 2 (nat b))"
  define lg where "lg = (if 2 powi k \<le> q then k else k - 1)"
  have e: "ulp_exp q = max (- 1074) (lg - 52)"
    by (simp add: ulp_exp_def ab k_def lg_def Let_def)
  have lo: "2 powi lg \<le> q" and hi: "q < 2 powi (lg + 1)"
    using floorlog_quotient [OF assms ab] by (auto simp: lg_def k_def)
  show "- 1074 \<le> ulp_exp q" by (simp add: e)
  show "2 powi (ulp_exp q + 52) \<le> q \<or> ulp_exp q = - 1074"
    using lo by (auto simp: e max_def)
  have "(2::rat) powi (lg + 1) \<le> 2 powi (ulp_exp q + 53)"
    by (rule power_int_increasing) (auto simp: e)
  with hi show "q < 2 powi (ulp_exp q + 53)" by simp
qed

lemma ulp_expI:
  assumes "2 powi (e + 52) \<le> q" "q < 2 powi (e + 53)" "- 1074 \<le> e"
  shows "ulp_exp q = e"
proof -
  have q: "0 < q" using assms(1) by (meson less_le_trans zero_less_power_int zero_less_numeral)
  note b = ulp_exp_bounds [OF q]
  have "e + 52 < ulp_exp q + 53"
    using le_less_trans [OF assms(1) b(3)] by (simp add: two_powi_less_iff)
  moreover have "ulp_exp q < e + 1"
  proof (cases "ulp_exp q = - 1074")
    case False
    with b(2) have "2 powi (ulp_exp q + 52) \<le> q" by blast
    from le_less_trans [OF this assms(2)] show ?thesis
      by (simp add: two_powi_less_iff)
  qed (use assms(3) in simp)
  ultimately show ?thesis by simp
qed

lemma round_mag_error:
  assumes "0 \<le> q"
  shows "0 \<le> round_mag q" "\<bar>round_mag q - q\<bar> \<le> max (q / 2 ^ 53) (1 / 2 ^ 1075)"
proof -
  have "0 \<le> round_mag q \<and> \<bar>round_mag q - q\<bar> \<le> max (q / 2 ^ 53) (1 / 2 ^ 1075)"
  proof (cases "q = 0")
    case False
    with assms have q: "0 < q" by simp
    define p :: rat where "p = 2 powi (ulp_exp q)"
    have p: "0 < p" by (simp add: p_def)
    have v: "round_mag q = of_int (round_half_even (q / p)) * p"
      using False by (simp add: round_mag_def p_def Let_def)
    have "round_mag q - q = (of_int (round_half_even (q / p)) - q / p) * p"
      using p by (simp add: v left_diff_distrib)
    then have "\<bar>round_mag q - q\<bar> = \<bar>of_int (round_half_even (q / p)) - q / p\<bar> * p"
      using p by (simp add: abs_mult)
    also have "\<dots> \<le> 1 / 2 * p"
      using round_half_even_error p by (intro mult_right_mono) auto
    finally have err: "\<bar>round_mag q - q\<bar> \<le> p / 2" by simp
    have "p / 2 \<le> max (q / 2 ^ 53) (1 / 2 ^ 1075)"
    proof (cases "ulp_exp q = - 1074")
      case True
      then have "p / 2 = 1 / 2 ^ 1075" by (simp add: p_def power_int_minus field_simps)
      then show ?thesis by simp
    next
      case F: False
      with ulp_exp_bounds(2) [OF q] have "p * 2 ^ 52 \<le> q"
        by (simp add: p_def power_int_add)
      then have "p / 2 \<le> q / 2 ^ 53" by simp
      then show ?thesis by simp
    qed
    with err show ?thesis
      using q p round_half_even_nonneg [of "q / p"] by (auto simp: v)
  qed (simp add: round_mag_def)
  then show "0 \<le> round_mag q" "\<bar>round_mag q - q\<bar> \<le> max (q / 2 ^ 53) (1 / 2 ^ 1075)" by auto
qed

text \<open>Away from the subnormal range the error is relative: half a unit in the 53rd place.\<close>

definition f64_eps :: rat where
  "f64_eps = 1 / 2 ^ 53"

definition f64_normal :: "rat \<Rightarrow> bool" where
  "f64_normal q \<longleftrightarrow> q = 0 \<or> 1 / 2 ^ 1000 \<le> q"

lemma f64_normal_nonneg: "f64_normal q \<Longrightarrow> 0 \<le> q"
proof -
  have "0 \<le> (1 / 2 ^ 1000 :: rat)" by simp
  then show "f64_normal q \<Longrightarrow> 0 \<le> q"
    unfolding f64_normal_def by (metis order_refl order_trans)
qed

lemma round_mag_rel:
  assumes "f64_normal q"
  shows "q * (1 - f64_eps) \<le> round_mag q" "round_mag q \<le> q * (1 + f64_eps)"
proof -
  note err = round_mag_error [OF f64_normal_nonneg [OF assms]]
  have "q = 0 \<or> max (q / 2 ^ 53) (1 / 2 ^ 1075) = q / 2 ^ 53"
  proof (cases "q = 0")
    case False
    with assms have "1 / 2 ^ 1000 \<le> q" by (simp add: f64_normal_def)
    then have "1 / 2 ^ 1000 / 2 ^ 53 \<le> q / 2 ^ 53" by (rule divide_right_mono) simp
    moreover have "(1 / 2 ^ 1075 :: rat) \<le> 1 / 2 ^ 1000 / 2 ^ 53" by simp
    ultimately show ?thesis by (simp add: max_def)
  qed simp
  then have "\<bar>round_mag q - q\<bar> \<le> q * f64_eps"
    using err by (auto simp: f64_eps_def round_mag_def)
  then show "q * (1 - f64_eps) \<le> round_mag q" "round_mag q \<le> q * (1 + f64_eps)"
    by (auto simp: abs_le_iff algebra_simps)
qed

lemma f64_round_finite:
  assumes "f64_normal q" "q \<le> 2 ^ 1000"
  shows "f64_round s q = F64_Fin s (round_mag q)"
proof -
  have "round_mag q \<le> q * (1 + f64_eps)" using assms(1) by (rule round_mag_rel)
  also have "\<dots> \<le> 2 ^ 1000 * (1 + f64_eps)"
    using assms(2) by (intro mult_right_mono) (simp_all add: f64_eps_def)
  also have "\<dots> < 2 ^ 1024" by (simp add: f64_eps_def)
  finally show ?thesis by (simp add: f64_round_def)
qed

lemma f64_round_zero [simp]: "f64_round s 0 = F64_Fin s 0"
  by (simp add: f64_round_def round_mag_def)

lemma f64_round_evalI:
  assumes "2 powi (e + 52) \<le> q" "q < 2 powi (e + 53)" "- 1074 \<le> e"
    and "\<bar>q / 2 powi e - of_int m\<bar> < 1 / 2" "of_int m * 2 powi e < (2 ^ 1024 :: rat)"
  shows "f64_round s q = F64_Fin s (of_int m * 2 powi e)"
proof -
  have "0 < (2 :: rat) powi (e + 52)" by simp
  then have "q \<noteq> 0" using assms(1) by linarith
  then show ?thesis
    using assms(5) ulp_expI [OF assms(1-3)] round_half_evenI [OF assms(4)]
    by (simp add: f64_round_def round_mag_def Let_def not_le)
qed

text \<open>Integers of at most 53 bits are exact.\<close>

lemma f64_of_nat_exact:
  assumes "n < 2 ^ 53"
  shows "f64_of_nat n = F64_Fin False (of_nat n)"
proof (cases "n = 0")
  case False
  define q :: rat where "q = of_nat n"
  have q: "0 < q" "q < 2 ^ 53"
    using False assms by (simp_all add: q_def flip: of_nat_power)
  note b = ulp_exp_bounds [OF q(1)]
  have "ulp_exp q < 1"
  proof (rule ccontr)
    assume *: "\<not> ulp_exp q < 1"
    then have "(2::rat) powi 53 \<le> 2 powi (ulp_exp q + 52)"
      by (intro power_int_increasing) auto
    moreover have "2 powi (ulp_exp q + 52) \<le> q" using b(2) * by auto
    ultimately have "2 powi 53 \<le> q" by (rule order_trans)
    with q(2) show False by simp
  qed
  then have "ulp_exp q = - int (nat (- ulp_exp q))" by simp
  then obtain k where k: "ulp_exp q = - int k" by blast
  have "q / 2 powi ulp_exp q = q * 2 ^ k" "2 powi ulp_exp q = 1 / (2 :: rat) ^ k"
    by (simp_all add: k power_int_minus divide_inverse)
  moreover have "q * 2 ^ k = of_int (int n * 2 ^ k)" by (simp add: q_def)
  ultimately have "of_int (round_half_even (q / 2 powi ulp_exp q)) * 2 powi ulp_exp q = q"
    by (simp only: round_half_even_of_int) (simp add: q_def)
  then have "round_mag q = q" using q(1) by (simp add: round_mag_def Let_def)
  moreover have "q < 2 ^ 1024" using q(2) by simp
  ultimately show ?thesis
    by (simp add: f64_of_nat_def f64_round_def flip: q_def)
qed (simp add: f64_of_nat_def)

end
