(* ===== verification/Model_Registry.thy ===== *)
theory Model_Registry
  imports F64
begin

text \<open>
  The model registry (\<open>router/src/models.rs\<close>, \<open>protocol/src/model.rs\<close>, \<open>cost.rs\<close>) and the platform
  fee (\<open>protocol/src/constants.rs\<close>, \<open>gateway/src/routes/service_payment.rs\<close>). The TOML parser is
  outside the repository: loading starts from the entries it returns, in the iteration order of
  their hash map. The live fee percentage is an argument \<open>fee\<close>.
\<close>

type_synonym u32 = "32 word"
type_synonym u128 = "128 word"

section \<open>Checked integer operations\<close>

definition checked_mul_u64 :: "u64 \<Rightarrow> u64 \<Rightarrow> u64 option" where
  "checked_mul_u64 a b = (if unat a * unat b < 2 ^ 64 then Some (a * b) else None)"

definition checked_add_u64 :: "u64 \<Rightarrow> u64 \<Rightarrow> u64 option" where
  "checked_add_u64 a b = (if unat a + unat b < 2 ^ 64 then Some (a + b) else None)"

definition saturating_add_u32 :: "u32 \<Rightarrow> u32 \<Rightarrow> u32" where
  "saturating_add_u32 a b = (if unat a + unat b < 2 ^ 32 then a + b else - 1)"

definition u64_try_from :: "u128 \<Rightarrow> u64 option" where
  "u64_try_from x = (if unat x < 2 ^ 64 then Some (ucast x) else None)"

record model_registration =
  mr_id :: string
  mr_provider :: string
  mr_model_id :: string
  mr_display_name :: string
  mr_input_cost_per_million :: f64
  mr_output_cost_per_million :: f64
  mr_context_window :: u32
  mr_supports_streaming :: bool
  mr_supports_tools :: bool
  mr_supports_vision :: bool
  mr_reasoning :: bool
  mr_supports_structured_output :: bool
  mr_supports_batch :: bool
  mr_max_output_tokens :: "u32 option"

section \<open>Loading\<close>

text \<open>A hash map is an association list; inserting replaces the value of the key.\<close>

type_synonym model_registry = "(string \<times> model_registration) list"

definition registry_insert :: "string \<Rightarrow> model_registration \<Rightarrow> model_registry \<Rightarrow> model_registry" where
  "registry_insert k m reg = (k, m) # filter (\<lambda>kv. fst kv \<noteq> k) reg"

record model_entry =
  me_provider :: string
  me_model_id :: string
  me_display_name :: string
  me_input_cost_per_million :: f64
  me_output_cost_per_million :: f64
  me_context_window :: u32
  me_supports_streaming :: bool
  me_supports_tools :: bool
  me_supports_vision :: bool
  me_reasoning :: bool
  me_supports_structured_output :: bool
  me_supports_batch :: bool
  me_max_output_tokens :: "u32 option"

datatype registry_error =
    Reg_NotFound string
  | Reg_BadInputCost string
  | Reg_BadOutputCost string
  | Reg_Duplicate string string \<comment> \<open>canonical id, TOML key\<close>

fun check_entry_prices :: "(string \<times> model_entry) list \<Rightarrow> (registry_error, unit) result" where
  "check_entry_prices [] = Inr ()"
| "check_entry_prices ((key, entry) # rest) =
    (if \<not> f64_is_finite (me_input_cost_per_million entry)
        \<or> f64_lt (me_input_cost_per_million entry) (f64_of_nat 0) then Inl (Reg_BadInputCost key)
     else if \<not> f64_is_finite (me_output_cost_per_million entry)
        \<or> f64_lt (me_output_cost_per_million entry) (f64_of_nat 0) then Inl (Reg_BadOutputCost key)
     else check_entry_prices rest)"

definition registration_of :: "model_entry \<Rightarrow> model_registration" where
  "registration_of entry =
     \<lparr>mr_id = me_provider entry @ ''/'' @ me_model_id entry, mr_provider = me_provider entry,
      mr_model_id = me_model_id entry, mr_display_name = me_display_name entry,
      mr_input_cost_per_million = me_input_cost_per_million entry,
      mr_output_cost_per_million = me_output_cost_per_million entry,
      mr_context_window = me_context_window entry,
      mr_supports_streaming = me_supports_streaming entry,
      mr_supports_tools = me_supports_tools entry, mr_supports_vision = me_supports_vision entry,
      mr_reasoning = me_reasoning entry,
      mr_supports_structured_output = me_supports_structured_output entry,
      mr_supports_batch = me_supports_batch entry,
      mr_max_output_tokens = me_max_output_tokens entry\<rparr>"

definition F64_EPSILON :: f64 where
  "F64_EPSILON = F64_Fin False (1 / 2 ^ 52)"

definition pricing_matches :: "model_registration \<Rightarrow> model_registration \<Rightarrow> bool" where
  "pricing_matches a b \<longleftrightarrow>
     f64_lt (f64_abs (f64_sub (mr_input_cost_per_million a) (mr_input_cost_per_million b))) F64_EPSILON
     \<and> f64_lt (f64_abs (f64_sub (mr_output_cost_per_million a) (mr_output_cost_per_million b)))
         F64_EPSILON"

fun register_entries ::
  "(string \<times> model_entry) list \<Rightarrow> model_registry \<Rightarrow> (registry_error, model_registry) result" where
  "register_entries [] models = Inr models"
| "register_entries ((key, entry) # rest) models =
    (let info = registration_of entry in
     if (case map_of models (mr_id info) of
           Some existing \<Rightarrow> \<not> pricing_matches existing info
         | None \<Rightarrow> False) then Inl (Reg_Duplicate (mr_id info) key)
     else register_entries rest
            (registry_insert (mr_id info) info (registry_insert key info models)))"

definition from_toml_entries ::
  "(string \<times> model_entry) list \<Rightarrow> (registry_error, model_registry) result" where
  "from_toml_entries entries =
     and_then (check_entry_prices entries) (\<lambda>_. register_entries entries [])"

definition registry_get :: "model_registry \<Rightarrow> string \<Rightarrow> model_registration option" where
  "registry_get reg model_id = map_of reg model_id"

definition resolve_anthropic_model_id :: "model_registry \<Rightarrow> string \<Rightarrow> model_registration option" where
  "resolve_anthropic_model_id reg bare_model_id =
     List.find (\<lambda>m. mr_provider m = ''anthropic'' \<and> mr_model_id m = bare_model_id) (map snd reg)"

fun dedup_ids :: "string list \<Rightarrow> model_registration list \<Rightarrow> model_registration list" where
  "dedup_ids seen [] = []"
| "dedup_ids seen (m # ms) =
    (if mr_id m \<in> set seen then dedup_ids seen ms else m # dedup_ids (mr_id m # seen) ms)"

definition registry_all :: "model_registry \<Rightarrow> model_registration list" where
  "registry_all reg = dedup_ids [] (map snd reg)"

section \<open>Platform fee\<close>

definition PLATFORM_FEE_PERCENT :: u8 where "PLATFORM_FEE_PERCENT = 5"

text \<open>The process-wide knob: rejected above 100, never clamped.\<close>

definition set_platform_fee_percent :: "u8 \<Rightarrow> u8 \<Rightarrow> (u8, unit) result \<times> u8" where
  "set_platform_fee_percent percent live =
    (if percent > 100 then (Inl percent, live) else (Inr (), percent))"

definition platform_fee_multiplier :: "u8 \<Rightarrow> f64" where
  "platform_fee_multiplier fee =
     f64_add (f64_of_nat 1) (f64_div (f64_of_nat (unat fee)) (f64_of_nat 100))"

definition apply_platform_fee_atomic :: "u8 \<Rightarrow> u64 \<Rightarrow> u64 option" where
  "apply_platform_fee_atomic fee provider_atomic =
     u64_try_from (ucast provider_atomic * (100 + ucast fee) div 100)"

definition split_total_atomic :: "u8 \<Rightarrow> u64 \<Rightarrow> u64 \<times> u64" where
  "split_total_atomic fee total_atomic =
    (let provider_atomic = ucast ((ucast total_atomic :: u128) * 100 div (100 + ucast fee))
     in (provider_atomic, total_atomic - provider_atomic))"

section \<open>The registry's estimate and the quote\<close>


record cost_breakdown =
  cb_provider_cost :: string
  cb_platform_fee :: string
  cb_total :: string
  cb_currency :: string
  cb_fee_percent :: u8

definition token_cost :: "u32 \<Rightarrow> f64 \<Rightarrow> f64" where
  "token_cost tokens price =
     f64_mul (f64_div (f64_of_nat (unat tokens)) (f64_of_nat 1000000)) price"

definition estimate_cost ::
  "u8 \<Rightarrow> model_registry \<Rightarrow> string \<Rightarrow> u32 \<Rightarrow> u32 \<Rightarrow> (registry_error, cost_breakdown) result" where
  "estimate_cost fee registry model_id input_tokens output_tokens =
    and_then (ok_or (Reg_NotFound model_id) (registry_get registry model_id)) (\<lambda>model.
    let input_cost = token_cost input_tokens (mr_input_cost_per_million model);
        output_cost = token_cost output_tokens (mr_output_cost_per_million model);
        provider_cost = f64_add input_cost output_cost;
        total_with_fee = f64_mul provider_cost (platform_fee_multiplier fee);
        platform_fee = f64_sub total_with_fee provider_cost
    in Inr \<lparr>cb_provider_cost = fmt6 provider_cost, cb_platform_fee = fmt6 platform_fee,
        cb_total = fmt6 total_with_fee, cb_currency = ''USDC'', cb_fee_percent = fee\<rparr>)"

section \<open>What loading guarantees\<close>

definition price_ok :: "f64 \<Rightarrow> bool" where
  "price_ok p \<longleftrightarrow> f64_is_finite p \<and> \<not> f64_lt p (f64_of_nat 0)"

definition registration_ok :: "model_registration \<Rightarrow> bool" where
  "registration_ok m \<longleftrightarrow> price_ok (mr_input_cost_per_million m) \<and> price_ok (mr_output_cost_per_million m)
     \<and> mr_id m = mr_provider m @ ''/'' @ mr_model_id m"

lemma check_entry_prices_ok:
  "check_entry_prices es = Inr () \<Longrightarrow> list_all (\<lambda>(k, e). registration_ok (registration_of e)) es"
  by (induction es rule: check_entry_prices.induct)
    (auto simp: registration_ok_def price_ok_def registration_of_def split: if_splits)

lemma registry_insert_all:
  "P m \<Longrightarrow> list_all (\<lambda>(k, m). P m) reg \<Longrightarrow> list_all (\<lambda>(k, m). P m) (registry_insert k m reg)"
  by (auto simp: registry_insert_def list_all_iff)

lemma register_entries_all:
  "register_entries es reg = Inr reg' \<Longrightarrow> list_all (\<lambda>(k, e). P (registration_of e)) es
   \<Longrightarrow> list_all (\<lambda>(k, m). P m) reg \<Longrightarrow> list_all (\<lambda>(k, m). P m) reg'"
proof (induction es reg rule: register_entries.induct)
  case (2 key entry rest models)
  then show ?case by (auto simp: Let_def registry_insert_all split: if_splits)
qed simp

lemma map_of_registry_insert: "map_of (registry_insert k m reg) = (map_of reg)(k \<mapsto> m)"
proof
  fix x
  have "map_of (filter (\<lambda>kv. fst kv \<noteq> k) reg) x = (if x = k then None else map_of reg x)"
    by (induction reg) auto
  then show "map_of (registry_insert k m reg) x = ((map_of reg)(k \<mapsto> m)) x"
    by (simp add: registry_insert_def)
qed

lemma register_entries_dom:
  "register_entries es reg = Inr reg' \<Longrightarrow>
   dom (map_of reg') = dom (map_of reg) \<union> fst ` set es \<union> (\<lambda>(k, e). mr_id (registration_of e)) ` set es"
proof (induction es reg rule: register_entries.induct)
  case (2 key entry rest models)
  then show ?case by (auto simp: Let_def map_of_registry_insert split: if_splits)
qed simp

text \<open>
  A registry that loads is usable: every registered model has finite, non-negative prices and
  its canonical identifier, and the names it answers to are exactly the TOML keys and the canonical
  identifiers of the entries.
\<close>
theorem registry_load_sound:
  "case from_toml_entries es of Inl _ \<Rightarrow> True
   | Inr reg \<Rightarrow> list_all (\<lambda>(k, m). registration_ok m) reg
       \<and> {k. registry_get reg k \<noteq> None}
         = fst ` set es \<union> (\<lambda>(k, e). mr_id (registration_of e)) ` set es"
proof (cases "from_toml_entries es")
  case (Inr reg)
  then have v: "check_entry_prices es = Inr ()" and r: "register_entries es [] = Inr reg"
    by (auto simp: from_toml_entries_def and_then_Inr_iff)
  show ?thesis
    using register_entries_all [OF r check_entry_prices_ok [OF v]] register_entries_dom [OF r]
    by (simp add: Inr registry_get_def dom_def)
qed simp

definition demo_entry :: "string \<Rightarrow> nat \<Rightarrow> model_entry" where
  "demo_entry name price =
     \<lparr>me_provider = ''p'', me_model_id = name, me_display_name = name,
      me_input_cost_per_million = F64_Fin False (of_nat price),
      me_output_cost_per_million = F64_Fin False 0, me_context_window = 1000,
      me_supports_streaming = False, me_supports_tools = False, me_supports_vision = False,
      me_reasoning = False, me_supports_structured_output = False, me_supports_batch = False,
      me_max_output_tokens = None\<rparr>"

text \<open>
  A TOML key that equals the canonical identifier of another entry escapes the collision check
  in one iteration order: the entries \<open>b\<close> (price 9) under its own key and \<open>a\<close> (price 1) under the key
  \<open>p/b\<close> are rejected when \<open>a\<close> comes first, but load when \<open>b\<close> comes first, and then \<open>p/b\<close> is priced
  as \<open>a\<close>.
\<close>
theorem key_shadows_canonical_id:
  "from_toml_entries [(''p/b'', demo_entry ''a'' 1), (''k'', demo_entry ''b'' 9)]
     = Inl (Reg_Duplicate ''p/b'' ''k'')
   \<and> (case from_toml_entries [(''k'', demo_entry ''b'' 9), (''p/b'', demo_entry ''a'' 1)] of
        Inl _ \<Rightarrow> False
      | Inr reg \<Rightarrow> map_option mr_input_cost_per_million (registry_get reg ''p/b'')
          = Some (F64_Fin False 1))"
proof -
  have z: "f64_of_nat 0 = F64_Fin False 0" by (simp add: f64_of_nat_exact)
  have "f64_round True 8 = F64_Fin True 8"
    using f64_round_evalI [of "- 49" 8 "8 * 2 ^ 49" True] by (simp add: power_int_minus)
  then show ?thesis
    by (simp add: from_toml_entries_def registration_of_def demo_entry_def registry_insert_def
        pricing_matches_def f64_sub_def F64_EPSILON_def registry_get_def Let_def z)
qed

end
