(* ===== verification/Cost.thy ===== *)
theory Cost
  imports Model_Registry Json
begin

text \<open>
  Pricing: the token ceilings, the quote of the 402 challenge and the bill
  (\<open>gateway/src/routes/chat/cost.rs\<close>), flat service prices
  (\<open>gateway/src/routes/service_payment.rs\<close>) and the message content the estimate measures
  (\<open>protocol/src/chat.rs\<close>, \<open>vision.rs\<close>). The live fee percentage is an argument \<open>fee\<close>; text is a
  sequence of UTF-8 bytes. \<open>u128\<close> intermediates wrap, as the gateway's release build does.
\<close>

section \<open>Messages, models and usage\<close>

record image_url =
  iu_url :: string
  iu_detail :: "string option"

datatype content_part = TextPart string | ImagePart image_url

datatype message_content = TextContent string | PartsContent "content_part list"

fun part_text :: "content_part \<Rightarrow> string option" where
  "part_text (TextPart t) = Some t"
| "part_text (ImagePart _) = None"

fun part_image :: "content_part \<Rightarrow> image_url option" where
  "part_image (ImagePart i) = Some i"
| "part_image (TextPart _) = None"

fun as_text :: "message_content \<Rightarrow> string" where
  "as_text (TextContent s) = s"
| "as_text (PartsContent parts) =
     (case List.map_filter part_text parts of
        [] \<Rightarrow> []
      | [only] \<Rightarrow> only
      | t # ts \<Rightarrow> foldl (\<lambda>joined part. joined @ '' '' @ part) t ts)"

fun image_urls :: "message_content \<Rightarrow> image_url list" where
  "image_urls (TextContent _) = []"
| "image_urls (PartsContent parts) = List.map_filter part_image parts"

record chat_message =
  cm_role :: string
  cm_content :: message_content

record chat_request =
  rq_model :: string
  rq_messages :: "chat_message list"
  rq_max_tokens :: "u32 option"
  rq_stream :: bool

record usage_counts =
  prompt_tokens :: u32
  completion_tokens :: u32
  total_tokens :: u32

definition usage_new :: "u32 \<Rightarrow> u32 \<Rightarrow> usage_counts" where
  "usage_new p c = \<lparr>prompt_tokens = p, completion_tokens = c, total_tokens = saturating_add_u32 p c\<rparr>"

section \<open>Payment schemes\<close>

datatype payment_scheme = Scheme_Exact | Scheme_Escrow | Scheme_Channel

definition from_accepted_str :: "string \<Rightarrow> (string, payment_scheme) result" where
  "from_accepted_str s =
    (if s = ''exact'' then Inr Scheme_Exact
     else if s = ''escrow'' then Inr Scheme_Escrow
     else if s = ''channel'' then Inr Scheme_Channel
     else Inl (''unknown payment scheme: '' @ s))"

primrec as_accepted_str :: "payment_scheme \<Rightarrow> string" where
  "as_accepted_str Scheme_Exact = ''exact''"
| "as_accepted_str Scheme_Escrow = ''escrow''"
| "as_accepted_str Scheme_Channel = ''channel''"

section \<open>Token ceilings\<close>

definition DEFAULT_COMPLETION_TOKENS_CAP :: u32 where
  "DEFAULT_COMPLETION_TOKENS_CAP = 8192"

definition completion_token_ceiling :: "u32 option \<Rightarrow> model_registration \<Rightarrow> u32" where
  "completion_token_ceiling req_max_tokens model_info =
    (let bounds = List.map_filter id
           [req_max_tokens, mr_max_output_tokens model_info, Some DEFAULT_COMPLETION_TOKENS_CAP]
     in max (case bounds of [] \<Rightarrow> DEFAULT_COMPLETION_TOKENS_CAP | b # bs \<Rightarrow> foldl min b bs) 1)"

definition cap_usage_to_request_limits ::
  "usage_counts \<Rightarrow> chat_request \<Rightarrow> model_registration \<Rightarrow> usage_counts" where
  "cap_usage_to_request_limits usage req model_info =
    (let completion_cap = completion_token_ceiling (rq_max_tokens req) model_info;
         prompt = min (prompt_tokens usage) (mr_context_window model_info);
         completion = min (completion_tokens usage) completion_cap
     in \<lparr>prompt_tokens = prompt, completion_tokens = completion,
         total_tokens = saturating_add_u32 prompt completion\<rparr>)"

section \<open>Input estimate\<close>

definition IMAGE_TOKENS_LOW_DETAIL :: u32 where "IMAGE_TOKENS_LOW_DETAIL = 85"
definition IMAGE_TOKENS_HIGH_DETAIL :: u32 where "IMAGE_TOKENS_HIGH_DETAIL = 765"

datatype image_detail = Detail_Low | Detail_High | Detail_Auto

definition image_detail_from_opt :: "string option \<Rightarrow> image_detail" where
  "image_detail_from_opt detail =
    (if detail = Some ''low'' then Detail_Low
     else if detail = Some ''high'' then Detail_High
     else if detail = Some ''auto'' then Detail_Auto
     else Detail_High)"

definition image_tokens_for_detail :: "string option \<Rightarrow> u32" where
  "image_tokens_for_detail detail =
    (case image_detail_from_opt detail of
       Detail_Low \<Rightarrow> IMAGE_TOKENS_LOW_DETAIL
     | Detail_High \<Rightarrow> IMAGE_TOKENS_HIGH_DETAIL
     | Detail_Auto \<Rightarrow> IMAGE_TOKENS_HIGH_DETAIL)"

definition estimate_input_tokens :: "chat_request \<Rightarrow> u32" where
  "estimate_input_tokens req =
    (let text_chars = sum_list (map (\<lambda>m. length (as_text (cm_content m))) (rq_messages req));
         text_tokens = of_nat (text_chars div 4);
         image_tokens = foldl (\<lambda>acc t. saturating_add_u32 acc t) 0
           (map (\<lambda>img. image_tokens_for_detail (iu_detail img))
             (concat (map (\<lambda>m. image_urls (cm_content m)) (rq_messages req))))
     in max (saturating_add_u32 text_tokens image_tokens) 1)"

definition CHARS_PER_TOKEN :: nat where "CHARS_PER_TOKEN = 4"

fun sum_string_bytes :: "json \<Rightarrow> u64 \<Rightarrow> u64" where
  "sum_string_bytes (JStr s) acc = saturating_add acc (of_nat (length s))"
| "sum_string_bytes (JArr arr) acc = foldl (\<lambda>a v. sum_string_bytes v a) acc arr"
| "sum_string_bytes (JObj fs) acc = foldl (\<lambda>a kv. sum_string_bytes (snd kv) a) acc fs"
| "sum_string_bytes _ acc = acc"

text \<open>The JSON package outside the repository: its parser and its compact printer.\<close>

record serde =
  from_slice :: "bytes \<Rightarrow> json option"
  to_vec :: "json \<Rightarrow> bytes option"

definition estimate_native_anthropic_input_tokens :: "serde \<Rightarrow> bytes \<Rightarrow> u32" where
  "estimate_native_anthropic_input_tokens sd body =
    (case from_slice sd body of
       None \<Rightarrow> 1
     | Some value \<Rightarrow>
       let c1 = (case json_get ''system'' value of None \<Rightarrow> 0 | Some s \<Rightarrow> sum_string_bytes s 0);
           c2 = (case json_get ''messages'' value of None \<Rightarrow> c1 | Some m \<Rightarrow> sum_string_bytes m c1);
           chars = (case json_get ''tools'' value of None \<Rightarrow> c2
             | Some tools \<Rightarrow>
               let tool_chars = (case to_vec sd tools of None \<Rightarrow> 0 | Some b \<Rightarrow> of_nat (length b)) in
               if tool_chars > 0 then saturating_add c2 tool_chars else sum_string_bytes tools c2);
           tokens = unat chars div CHARS_PER_TOKEN
       in max (if tokens < 2 ^ 32 then of_nat tokens else - 1) 1)"

section \<open>Flat service prices\<close>

datatype price_error = Price_NonFinite | Price_NonPositive | Price_TooLarge | Price_FeeOverflow

definition PRICE_USDC_MAX :: f64 where
  "PRICE_USDC_MAX = f64_of_nat ((2 ^ 64 - 1) div 1000000)"

definition validate_price_usdc :: "f64 \<Rightarrow> (price_error, unit) result" where
  "validate_price_usdc price =
    (if \<not> f64_is_finite price then Inl Price_NonFinite
     else if f64_le price (f64_of_nat 0) then Inl Price_NonPositive
     else if f64_lt PRICE_USDC_MAX price then Inl Price_TooLarge
     else Inr ())"

record service_cost =
  sc_provider_atomic :: u64
  sc_fee_atomic :: u64
  sc_total_atomic :: u64

abbreviation u64_max :: nat where "u64_max \<equiv> 2 ^ 64 - 1"
abbreviation u128_max :: nat where "u128_max \<equiv> 2 ^ 128 - 1"

definition compute_service_cost :: "u8 \<Rightarrow> f64 \<Rightarrow> (price_error, service_cost) result" where
  "compute_service_cost fee price =
    and_then (validate_price_usdc price) (\<lambda>_.
    let provider_atomic = of_nat (f64_as_unsigned u64_max
          (f64_round_int (f64_mul price (f64_of_nat 1000000)))) in
    and_then (ok_or Price_FeeOverflow (apply_platform_fee_atomic fee provider_atomic))
      (\<lambda>total_atomic. Inr \<lparr>sc_provider_atomic = provider_atomic,
        sc_fee_atomic = total_atomic - provider_atomic, sc_total_atomic = total_atomic\<rparr>))"

section \<open>The bill\<close>

definition atomic_price :: "f64 \<Rightarrow> u128" where
  "atomic_price p = of_nat (f64_as_unsigned u128_max (f64_mul p (f64_of_nat 1000000)))"

definition compute_actual_atomic_cost :: "u8 \<Rightarrow> u32 \<Rightarrow> u32 \<Rightarrow> model_registration \<Rightarrow> u64 option" where
  "compute_actual_atomic_cost fee prompt completion model_info =
    (let inp = mr_input_cost_per_million model_info;
         outp = mr_output_cost_per_million model_info in
     if \<not> f64_is_finite inp \<or> \<not> f64_is_finite outp \<or> f64_lt inp (f64_of_nat 0)
        \<or> f64_lt outp (f64_of_nat 0) then None
     else
       let input_atomic = ucast prompt * atomic_price inp div 1000000;
           output_atomic = ucast completion * atomic_price outp div 1000000
       in Option.bind (u64_try_from (input_atomic + output_atomic)) (apply_platform_fee_atomic fee))"

section \<open>The quote\<close>

datatype amount_error =
    Amount_Empty
  | Amount_BadInteger string
  | Amount_BadFraction string
  | Amount_Overflow

text \<open>\<open>str::trim\<close>: the Unicode white space characters, as UTF-8 bytes, at either end.\<close>

definition white_space :: "string list" where
  "white_space = map (map char_of) ([[9 :: nat], [10], [11], [12], [13], [32], [0xC2, 0x85], [0xC2, 0xA0], [0xE1, 0x9A, 0x80]]
     @ map (\<lambda>b. [0xE2, 0x80, b]) ([0x80..<0x8B] @ [0xA8, 0xA9, 0xAF]) @ [[0xE2, 0x81, 0x9F], [0xE3, 0x80, 0x80]])"

function drop_blanks :: "string list \<Rightarrow> string \<Rightarrow> string" where
  "drop_blanks ws s =
    (case List.find (\<lambda>w. w \<noteq> [] \<and> take (length w) s = w) ws of
       None \<Rightarrow> s
     | Some w \<Rightarrow> drop_blanks ws (drop (length w) s))"
  by pat_completeness auto

termination
proof (relation "measure (length \<circ> snd)")
  fix ws s w
  assume "List.find (\<lambda>w. w \<noteq> [] \<and> take (length w) s = w) ws = Some w"
  then have "w \<noteq> []" "take (length w) s = w" by (auto simp: find_Some_iff)
  then show "((ws, drop (length w) s), ws, s) \<in> measure (length \<circ> snd)" by (cases s) auto
qed simp

declare drop_blanks.simps [simp del]

definition trim_text :: "string \<Rightarrow> string" where
  "trim_text s = rev (drop_blanks (map rev white_space) (rev (drop_blanks white_space s)))"

definition printable :: "char \<Rightarrow> bool" where
  "printable c \<longleftrightarrow> 33 \<le> (of_char c :: nat) \<and> (of_char c :: nat) < 127"

lemma drop_blanks_printable:
  assumes "list_all (\<lambda>w. w \<noteq> [] \<longrightarrow> \<not> printable (hd w)) ws" "s \<noteq> []" "printable (hd s)"
  shows "drop_blanks ws s = s"
proof -
  have "\<not> (w \<noteq> [] \<and> take (length w) s = w)" if "w \<in> set ws" for w
  proof
    assume w: "w \<noteq> [] \<and> take (length w) s = w"
    then have "hd w = hd s" by (metis hd_take length_greater_0_conv)
    moreover have "\<not> printable (hd w)" using assms(1) that w unfolding list_all_iff by blast
    ultimately show False using assms(3) by simp
  qed
  then have "List.find (\<lambda>w. w \<noteq> [] \<and> take (length w) s = w) ws = None" by (auto simp: find_None_iff)
  then show ?thesis by (subst drop_blanks.simps) simp
qed

lemma trim_text_id:
  assumes "s \<noteq> []" "printable (hd s)" "printable (last s)"
  shows "trim_text s = s"
proof -
  have "list_all (\<lambda>w. w \<noteq> [] \<longrightarrow> \<not> printable (hd w)) white_space"
    "list_all (\<lambda>w. w \<noteq> [] \<longrightarrow> \<not> printable (hd w)) (map rev white_space)" by code_simp+
  with assms show ?thesis by (simp add: trim_text_def drop_blanks_printable hd_rev)
qed

definition usdc_atomic_amount_checked :: "string \<Rightarrow> (amount_error, string) result" where
  "usdc_atomic_amount_checked decimal_str =
    (let s = trim_text decimal_str in
     if s = [] then Inl Amount_Empty
     else
       let integer_part = takeWhile (\<lambda>c. c \<noteq> CHR ''.'') s;
           fractional_part = (case dropWhile (\<lambda>c. c \<noteq> CHR ''.'') s of [] \<Rightarrow> [] | _ # r \<Rightarrow> r) in
       and_then (ok_or (Amount_BadInteger integer_part) (parse_u64 integer_part)) (\<lambda>integer.
       let frac_padded = fractional_part @ replicate (6 - length fractional_part) (CHR ''0'');
           frac_6 = take 6 frac_padded in
       and_then (ok_or (Amount_BadFraction frac_6) (parse_u64 frac_6)) (\<lambda>fractional.
       and_then (ok_or Amount_Overflow (Option.bind (checked_mul_u64 integer 1000000)
                   (\<lambda>scaled. checked_add_u64 scaled fractional))) (\<lambda>atomic.
       Inr (nat_text (unat atomic))))))"

definition is_free_estimate :: "string \<Rightarrow> bool" where
  "is_free_estimate atomic_amount \<longleftrightarrow> parse_u64 (trim_text atomic_amount) = Some 0"

text \<open>The upfront quote of \<open>chat/mod.rs\<close>: the registry's estimate for the input estimate and the
  completion ceiling, converted to atomic units.\<close>

datatype quote_error = Quote_Registry registry_error | Quote_Amount amount_error

definition chat_quote ::
  "u8 \<Rightarrow> model_registry \<Rightarrow> u32 \<Rightarrow> chat_request \<Rightarrow> model_registration \<Rightarrow> (quote_error, string) result"
where
  "chat_quote fee registry input_token_estimate req model_info =
    and_then (map_sum Quote_Registry id (estimate_cost fee registry (rq_model req) input_token_estimate
                (completion_token_ceiling (rq_max_tokens req) model_info))) (\<lambda>cost.
    map_sum Quote_Amount id (usdc_atomic_amount_checked (cb_total cost)))"

datatype estimate_error =
    Est_Registry registry_error
  | Est_Parse string
  | Est_NonFinite
  | Est_Negative
  | Est_TooLarge

definition ESTIMATED_COST_MAX_USDC :: f64 where
  "ESTIMATED_COST_MAX_USDC = f64_of_nat ((2 ^ 64 - 1) div 1000000)"

definition estimated_atomic_cost ::
  "u8 \<Rightarrow> model_registry \<Rightarrow> string \<Rightarrow> chat_request \<Rightarrow> model_registration \<Rightarrow> (estimate_error, u64) result"
where
  "estimated_atomic_cost fee registry model req model_info =
    and_then (map_sum Est_Registry id (estimate_cost fee registry model (estimate_input_tokens req)
                (completion_token_ceiling (rq_max_tokens req) model_info))) (\<lambda>c.
    and_then (ok_or (Est_Parse (cb_total c)) (parse_f64 (cb_total c))) (\<lambda>f.
    if \<not> f64_is_finite f then Inl Est_NonFinite
    else if f64_lt f (f64_of_nat 0) then Inl Est_Negative
    else if f64_lt ESTIMATED_COST_MAX_USDC f then Inl Est_TooLarge
    else Inr (of_nat (f64_as_unsigned u64_max (f64_mul f (f64_of_nat 1000000))))))"

definition usdc_f64_to_atomic_safe :: "f64 \<Rightarrow> u64 option" where
  "usdc_f64_to_atomic_safe usdc =
    (if \<not> f64_is_finite usdc
        \<or> \<not> (f64_le (f64_of_nat 0) usdc \<and> f64_le usdc ESTIMATED_COST_MAX_USDC) then None
     else Some (of_nat (f64_as_unsigned u64_max (f64_mul usdc (f64_of_nat 1000000)))))"

section \<open>Semantic-cache discount and the spend arm\<close>

record semantic_discount =
  sd_full_atomic :: u64
  sd_discounted_atomic :: u64

definition apply_hit_price :: "u64 \<Rightarrow> u8 \<Rightarrow> u64" where
  "apply_hit_price full_atomic hit_price_percent =
     ucast ((ucast full_atomic :: u128) * ucast (min hit_price_percent 100) div 100)"

definition semantic_discount_new :: "u64 \<Rightarrow> u8 \<Rightarrow> semantic_discount" where
  "semantic_discount_new full_atomic hit_price_percent =
     \<lparr>sd_full_atomic = full_atomic,
      sd_discounted_atomic = apply_hit_price full_atomic hit_price_percent\<rparr>"

fun scheme_realized_discount ::
  "payment_scheme \<Rightarrow> semantic_discount option \<Rightarrow> semantic_discount option" where
  "scheme_realized_discount Scheme_Escrow cost_outcome = cost_outcome"
| "scheme_realized_discount Scheme_Channel cost_outcome = cost_outcome"
| "scheme_realized_discount Scheme_Exact cost_outcome = None"

definition spend_cost_atomic :: "semantic_discount option \<Rightarrow> u64 \<Rightarrow> u64" where
  "spend_cost_atomic cost_outcome full_cost_atomic =
    (case cost_outcome of Some discount \<Rightarrow> sd_discounted_atomic discount | None \<Rightarrow> full_cost_atomic)"

datatype spend_log_arm =
    SkipSettleFailed
  | ActualUsage usage_counts
  | UsagelessSemanticHit
  | EstimateFallback

definition select_spend_log_arm :: "bool \<Rightarrow> usage_counts option \<Rightarrow> bool \<Rightarrow> spend_log_arm" where
  "select_spend_log_arm settle_after_deliver_failed usage semantic_hit =
    (if settle_after_deliver_failed then SkipSettleFailed
     else case usage of
       Some u \<Rightarrow> ActualUsage u
     | None \<Rightarrow> if semantic_hit then UsagelessSemanticHit else EstimateFallback)"

definition semantic_hit_full_atomic ::
  "u8 \<Rightarrow> usage_counts option \<Rightarrow> model_registry \<Rightarrow> string \<Rightarrow> chat_request \<Rightarrow> model_registration
     \<Rightarrow> u64 option" where
  "semantic_hit_full_atomic fee usage registry model req model_info =
    (let priced = Option.bind usage (\<lambda>u. compute_actual_atomic_cost fee (prompt_tokens u)
           (completion_tokens u) model_info);
         c = (case priced of Some v \<Rightarrow> Some v
              | None \<Rightarrow> (case estimated_atomic_cost fee registry model req model_info of
                  Inr v \<Rightarrow> Some v | Inl _ \<Rightarrow> None))
     in case c of Some v \<Rightarrow> if v > 0 then Some v else None | None \<Rightarrow> None)"

section \<open>Discovery floor\<close>

definition DISCOVERY_FLOOR_FALLBACK_ATOMIC :: u64 where
  "DISCOVERY_FLOOR_FALLBACK_ATOMIC = 1"

definition floor_of_model :: "u8 \<Rightarrow> model_registry \<Rightarrow> string \<Rightarrow> u64 option" where
  "floor_of_model fee registry model_id =
    (case estimate_cost fee registry model_id 1 1 of
       Inl _ \<Rightarrow> None
     | Inr breakdown \<Rightarrow>
       (case usdc_atomic_amount_checked (cb_total breakdown) of
          Inl _ \<Rightarrow> None
        | Inr text \<Rightarrow>
          (case parse_u64 text of
             None \<Rightarrow> None
           | Some atomic \<Rightarrow> if atomic > 0 then Some atomic else None)))"

definition discovery_floor_atomic :: "u8 \<Rightarrow> model_registry \<Rightarrow> u64" where
  "discovery_floor_atomic fee registry =
    (case List.map_filter (\<lambda>m. floor_of_model fee registry (mr_id m)) (registry_all registry) of
       [] \<Rightarrow> DISCOVERY_FLOOR_FALLBACK_ATOMIC
     | f # fs \<Rightarrow> foldl min f fs)"

end
