(* ===== verification/Usage.thy ===== *)
theory Usage
  imports Redis_Cache Cost
begin

text \<open>
  Budgets and spend counters (\<open>gateway/src/usage.rs\<close>): the configuration of a wallet, its team and
  its tenants with the cache in front of the database, the reservation of an estimate against
  every limited window, its release, and the settling of the counters to the actual cost. One
  call of the tracker reads the clock once and runs its commands at that second. A counter is a
  decimal with an expiry. How a float is printed into a command and how the store adds decimals
  are the parameter \<open>redis_numbers\<close>; the calendar is the parameter \<open>periods\<close>; the text form of the
  cached rows is the parameter \<open>usage_codec\<close>.
\<close>

section \<open>Configuration and records\<close>

definition DEFAULT_DAILY_LIMIT_USDC :: f64 where "DEFAULT_DAILY_LIMIT_USDC = f64_of_nat 100"
definition BUDGET_CONFIG_CACHE_TTL :: nat where "BUDGET_CONFIG_CACHE_TTL = 60"
definition TEAM_MEMBER_CACHE_TTL :: nat where "TEAM_MEMBER_CACHE_TTL = 60"
definition TEAM_BUDGET_CACHE_TTL :: nat where "TEAM_BUDGET_CACHE_TTL = 60"
definition TENANT_BUDGET_CACHE_TTL :: nat where "TENANT_BUDGET_CACHE_TTL = 60"
definition USDC_EPSILON :: f64 where "USDC_EPSILON = f64_round False (5 / 10 ^ 7)"
definition NO_REDIS_REQUEST_CAP_USDC :: f64 where "NO_REDIS_REQUEST_CAP_USDC = f64_of_nat 1"

record budget_limits =
  bl_hourly :: "f64 option"
  bl_daily :: "f64 option"
  bl_monthly :: "f64 option"

record budget_config = budget_limits +
  bc_require_tenant :: bool

definition default_budget_config :: budget_config where
  "default_budget_config = \<lparr>bl_hourly = None, bl_daily = Some DEFAULT_DAILY_LIMIT_USDC, bl_monthly = None,
     bc_require_tenant = False\<rparr>"

definition restrictive_budget_fallback :: budget_config where
  "restrictive_budget_fallback = \<lparr>bl_hourly = Some (f64_round False (1 / 2)), bl_daily = Some (f64_of_nat 1),
     bl_monthly = Some (f64_of_nat 10), bc_require_tenant = False\<rparr>"

datatype tenant_lookup = Tenant_Found budget_limits | Tenant_Absent | Tenant_DbError
datatype team_lookup = Team_Found budget_limits | Team_Absent | Team_DbError

datatype tenant_decision = Enforce | RejectRequired | RejectNotProvisioned | Skip

fun tenant_enforcement_decision :: "bool \<Rightarrow> string option \<Rightarrow> bool \<Rightarrow> tenant_decision" where
  "tenant_enforcement_decision _ (Some _) True = Enforce"
| "tenant_enforcement_decision True None _ = RejectRequired"
| "tenant_enforcement_decision True (Some _) False = RejectNotProvisioned"
| "tenant_enforcement_decision False _ _ = Skip"

record reserved_windows =
  rw_hourly :: bool
  rw_daily :: bool
  rw_monthly :: bool

record reserved_budget_windows =
  rb_wallet :: reserved_windows
  rb_tenant :: reserved_windows
  rb_team :: reserved_windows

definition no_windows :: reserved_windows where
  "no_windows = \<lparr>rw_hourly = False, rw_daily = False, rw_monthly = False\<rparr>"

definition nothing_reserved :: reserved_budget_windows where
  "nothing_reserved = \<lparr>rb_wallet = no_windows, rb_tenant = no_windows, rb_team = no_windows\<rparr>"

record vendor_settlement =
  vs_vendor_wallet :: string
  vs_settled_atomic :: u64
  vs_fee_receivable_atomic :: u64

record spend_entry =
  se_wallet :: string
  se_model :: string
  se_provider :: string
  se_input_tokens :: u32
  se_output_tokens :: u32
  se_cost_usdc :: f64
  se_tx_signature :: "string option"
  se_request_id :: "string option"
  se_session_id :: "string option"
  se_tenant :: "string option"
  se_tenant_enforced :: bool
  se_estimated_cost_usdc :: "f64 option"
  se_reserved :: reserved_budget_windows
  se_vendor :: "vendor_settlement option"
  se_routing_tier :: "string option"
  se_routing_score :: "f64 option"

datatype usage_error =
    Usage_Database string
  | BudgetExceeded string f64 f64
  | Usage_Redis
  | NotConfigured
  | TenantRequired string
  | TenantNotProvisioned string string

record budget_reservation =
  br_committed :: "(string \<times> f64) list"
  br_tenant_enforced :: bool
  br_reserved :: reserved_budget_windows

definition empty_reservation :: budget_reservation where
  "empty_reservation = \<lparr>br_committed = [], br_tenant_enforced = False, br_reserved = nothing_reserved\<rparr>"

section \<open>What the tracker relies on\<close>

record redis_numbers =
  rn_decimal :: "f64 \<Rightarrow> rat"
  rn_incr :: "rat \<Rightarrow> rat \<Rightarrow> rat"

record periods =
  pd_hour :: "nat \<Rightarrow> string"
  pd_day :: "nat \<Rightarrow> string"
  pd_month :: "nat \<Rightarrow> string"

record usage_codec =
  uc_config_text :: "budget_config \<Rightarrow> string"
  uc_config_of :: "string \<Rightarrow> budget_config option"
  uc_limits_text :: "budget_limits \<Rightarrow> string"
  uc_limits_of :: "string \<Rightarrow> budget_limits option"
  uc_uuid_of :: "string \<Rightarrow> string option"

text \<open>The four configuration tables; a query of a table may fail.\<close>

datatype budget_table = Wallet_Budgets | Team_Wallets | Team_Budgets | Tenant_Budgets

record budget_db =
  bd_wallet_budgets :: "string \<Rightarrow> budget_config option"
  bd_team_wallets :: "string \<Rightarrow> string option"
  bd_team_budgets :: "string \<Rightarrow> budget_limits option"
  bd_tenant_budgets :: "string \<Rightarrow> string \<Rightarrow> budget_limits option"

record usage_env =
  ue_redis :: bool
  ue_db :: "budget_db option"
  ue_numbers :: redis_numbers
  ue_periods :: periods
  ue_codec :: usage_codec

datatype budget_cmd =
    Cmd_Get string
  | Cmd_Set string
  | Cmd_Del string
  | Cmd_Eval string
  | Cmd_Incr string
  | Cmd_Rollback string

record usage_io =
  ui_now :: nat
  ui_connect :: bool
  ui_wire :: "budget_cmd \<Rightarrow> redis_reply"
  ui_db_fails :: "budget_table \<Rightarrow> bool"
  ui_insert_ok :: bool

type_synonym counters = "string \<Rightarrow> (rat \<times> nat option) option"

record usage_world =
  uw_counters :: counters
  uw_cache :: redis
  uw_spend_logs :: "spend_entry list"

section \<open>Counters\<close>

definition live_counter :: "nat \<Rightarrow> string \<Rightarrow> counters \<Rightarrow> (rat \<times> nat option) option" where
  "live_counter now k cs = (case cs k of
     None \<Rightarrow> None
   | Some (v, None) \<Rightarrow> Some (v, None)
   | Some (v, Some t) \<Rightarrow> if now < t then Some (v, Some t) else None)"

definition counter_value :: "nat \<Rightarrow> string \<Rightarrow> counters \<Rightarrow> rat" where
  "counter_value now k cs = (case live_counter now k cs of None \<Rightarrow> 0 | Some (v, _) \<Rightarrow> v)"

definition f64_of_rat :: "rat \<Rightarrow> f64" where
  "f64_of_rat q = f64_round (q < 0) \<bar>q\<bar>"

text \<open>\<open>INCRBYFLOAT\<close> keeps the expiry of a live key.\<close>

definition incrbyfloat :: "redis_numbers \<Rightarrow> nat \<Rightarrow> string \<Rightarrow> rat \<Rightarrow> counters \<Rightarrow> counters" where
  "incrbyfloat num now k a cs =
     cs(k \<mapsto> (rn_incr num (counter_value now k cs) a, Option.bind (live_counter now k cs) snd))"

definition incr_and_expire :: "usage_env \<Rightarrow> usage_io \<Rightarrow> string \<Rightarrow> f64 \<Rightarrow> nat \<Rightarrow> counters \<Rightarrow> counters" where
  "incr_and_expire env io k amount ttl cs =
    (let num = ue_numbers env; now = ui_now io in
     snd (rd_command (ui_wire io (Cmd_Incr k))
       ((), cs(k \<mapsto> (rn_incr num (counter_value now k cs) (rn_decimal num amount), Some (now + ttl)))) cs))"

text \<open>The script: add, set the expiry, and take the addition back when the new value is over the
  limit; the new value is the reply either way.\<close>

definition incr_check_script ::
  "redis_numbers \<Rightarrow> nat \<Rightarrow> string \<Rightarrow> rat \<Rightarrow> f64 \<Rightarrow> nat \<Rightarrow> counters \<Rightarrow> rat \<times> counters" where
  "incr_check_script num now k a limit ttl cs =
    (let cur = rn_incr num (counter_value now k cs) a;
         kept = (if f64_lt limit (f64_of_rat cur) then rn_incr num cur (- a) else cur)
     in (cur, cs(k \<mapsto> (kept, Some (now + ttl)))))"

datatype incr_check_result = Incr_Exceeded f64 | Incr_Redis

definition incr_check_or_rollback ::
  "usage_env \<Rightarrow> usage_io \<Rightarrow> string \<Rightarrow> f64 \<Rightarrow> f64 \<Rightarrow> nat \<Rightarrow> counters \<Rightarrow> (incr_check_result, f64) result \<times> counters"
where
  "incr_check_or_rollback env io k amount limit ttl cs =
    (let limit_with_epsilon = f64_add limit USDC_EPSILON; num = ue_numbers env in
     case rd_command (ui_wire io (Cmd_Eval k))
            (incr_check_script num (ui_now io) k (rn_decimal num amount) limit_with_epsilon ttl cs) cs of
       (Inl _, cs') \<Rightarrow> (Inl Incr_Redis, cs')
     | (Inr cur, cs') \<Rightarrow>
         let new_value = f64_of_rat cur in
         (if f64_lt limit_with_epsilon new_value then Inl (Incr_Exceeded new_value) else Inr new_value, cs'))"

fun rollback_committed :: "usage_env \<Rightarrow> usage_io \<Rightarrow> (string \<times> f64) list \<Rightarrow> counters \<Rightarrow> counters" where
  "rollback_committed env io [] cs = cs"
| "rollback_committed env io ((k, amount) # rest) cs =
     rollback_committed env io rest
       (snd (rd_command (ui_wire io (Cmd_Rollback k))
          ((), incrbyfloat (ue_numbers env) (ui_now io) k (rn_decimal (ue_numbers env) (f64_neg amount)) cs) cs))"

section \<open>Configuration lookups\<close>

definition cached_text :: "usage_io \<Rightarrow> string \<Rightarrow> redis \<Rightarrow> string option" where
  "cached_text io k rd = (case fst (rd_command (ui_wire io (Cmd_Get k)) (rd_get (ui_now io) k rd, rd) rd) of
     Inr (Some s) \<Rightarrow> Some s | _ \<Rightarrow> None)"

definition cache_put :: "usage_io \<Rightarrow> string \<Rightarrow> string \<Rightarrow> nat \<Rightarrow> redis \<Rightarrow> redis" where
  "cache_put io k v ttl rd =
     snd (rd_command (ui_wire io (Cmd_Set k)) ((), rd(k \<mapsto> (v, Some (ui_now io + ttl)))) rd)"

definition cache_del :: "usage_io \<Rightarrow> string \<Rightarrow> redis \<Rightarrow> redis" where
  "cache_del io k rd = snd (rd_command (ui_wire io (Cmd_Del k)) ((), rd(k := None)) rd)"

definition wallet_config_from_db :: "usage_env \<Rightarrow> usage_io \<Rightarrow> string \<Rightarrow> budget_config \<times> bool" where
  "wallet_config_from_db env io wallet =
    (case ue_db env of
       None \<Rightarrow> (default_budget_config, True)
     | Some db \<Rightarrow>
       if ui_db_fails io Wallet_Budgets then (restrictive_budget_fallback, False)
       else case bd_wallet_budgets db wallet of
         None \<Rightarrow> (default_budget_config, True)
       | Some c \<Rightarrow> (c\<lparr>bl_daily := (case bl_daily c of Some d \<Rightarrow> Some d
                                    | None \<Rightarrow> Some DEFAULT_DAILY_LIMIT_USDC)\<rparr>, True))"

definition get_wallet_budget_config ::
  "usage_env \<Rightarrow> usage_io \<Rightarrow> string \<Rightarrow> redis \<Rightarrow> budget_config \<times> redis" where
  "get_wallet_budget_config env io wallet rd =
    (let key = ''budget_config:'' @ wallet;
         parsed = Option.bind (cached_text io key rd) (uc_config_of (ue_codec env)) in
     case parsed of
       Some config \<Rightarrow> (config, rd)
     | None \<Rightarrow>
       let rd1 = (if cached_text io key rd = None then rd else cache_del io key rd);
           (config, persist) = wallet_config_from_db env io wallet
       in (config, if persist then cache_put io key (uc_config_text (ue_codec env) config)
                     BUDGET_CONFIG_CACHE_TTL rd1 else rd1))"

definition get_team_for_wallet ::
  "usage_env \<Rightarrow> usage_io \<Rightarrow> string \<Rightarrow> redis \<Rightarrow> (string, string option) result \<times> redis" where
  "get_team_for_wallet env io wallet rd =
    (let key = ''team_member:'' @ wallet;
         from_db = (case ue_db env of
             None \<Rightarrow> Inr None
           | Some db \<Rightarrow> if ui_db_fails io Team_Wallets then Inl ''team_wallets lookup failed''
                       else Inr (bd_team_wallets db wallet));
         looked_up = (case from_db of
             Inl e \<Rightarrow> (Inl e, rd)
           | Inr t \<Rightarrow> (Inr t, cache_put io key (case t of Some tid \<Rightarrow> tid | None \<Rightarrow> ''none'')
               TEAM_MEMBER_CACHE_TTL rd)) in
     case cached_text io key rd of
       None \<Rightarrow> looked_up
     | Some s \<Rightarrow>
       if s = ''none'' then (Inr None, rd)
       else case uc_uuid_of (ue_codec env) s of
         Some tid \<Rightarrow> (Inr (Some tid), rd)
       | None \<Rightarrow> looked_up)"

definition team_cache_value :: "usage_codec \<Rightarrow> team_lookup \<Rightarrow> string option" where
  "team_cache_value codec l = (case l of
     Team_Found cfg \<Rightarrow> Some (uc_limits_text codec cfg) | Team_Absent \<Rightarrow> Some ''none'' | Team_DbError \<Rightarrow> None)"

definition get_team_budget_config ::
  "usage_env \<Rightarrow> usage_io \<Rightarrow> string \<Rightarrow> redis \<Rightarrow> team_lookup \<times> redis" where
  "get_team_budget_config env io team_id rd =
    (let key = ''team_budget:'' @ team_id;
         looked_up = (\<lambda>rd.
           let lookup = (case ue_db env of
                 None \<Rightarrow> Team_Absent
               | Some db \<Rightarrow> if ui_db_fails io Team_Budgets then Team_DbError
                           else case bd_team_budgets db team_id of
                             Some cfg \<Rightarrow> Team_Found cfg | None \<Rightarrow> Team_Absent)
           in (lookup, case team_cache_value (ue_codec env) lookup of
                 Some v \<Rightarrow> cache_put io key v TEAM_BUDGET_CACHE_TTL rd | None \<Rightarrow> rd)) in
     case cached_text io key rd of
       None \<Rightarrow> looked_up rd
     | Some s \<Rightarrow>
       if s = ''none'' then (Team_Absent, rd)
       else case uc_limits_of (ue_codec env) s of
         Some cfg \<Rightarrow> (Team_Found cfg, rd)
       | None \<Rightarrow> looked_up (cache_del io key rd))"

definition get_tenant_budget_config ::
  "usage_env \<Rightarrow> usage_io \<Rightarrow> string \<Rightarrow> string \<Rightarrow> redis \<Rightarrow> tenant_lookup \<times> redis" where
  "get_tenant_budget_config env io wallet tenant rd =
    (let key = ''tenant_budget:'' @ wallet @ '':'' @ tenant;
         lookup = (case ue_db env of
             None \<Rightarrow> Tenant_Absent
           | Some db \<Rightarrow> if ui_db_fails io Tenant_Budgets then Tenant_DbError
                       else case bd_tenant_budgets db wallet tenant of
                         Some cfg \<Rightarrow> Tenant_Found cfg | None \<Rightarrow> Tenant_Absent);
         looked_up = (lookup, case lookup of
             Tenant_Found cfg \<Rightarrow> cache_put io key (uc_limits_text (ue_codec env) cfg) TENANT_BUDGET_CACHE_TTL rd
           | Tenant_Absent \<Rightarrow> cache_put io key ''none'' TENANT_BUDGET_CACHE_TTL rd
           | Tenant_DbError \<Rightarrow> rd) in
     case cached_text io key rd of
       None \<Rightarrow> looked_up
     | Some s \<Rightarrow>
       if s = ''none'' then (Tenant_Absent, rd)
       else case uc_limits_of (ue_codec env) s of
         Some cfg \<Rightarrow> (Tenant_Found cfg, rd)
       | None \<Rightarrow> looked_up)"

section \<open>Reserving\<close>

definition wallet_base :: "string \<Rightarrow> string" where "wallet_base wallet = ''spend:'' @ wallet"
definition team_base :: "string \<Rightarrow> string" where "team_base tid = ''team_spend:'' @ tid"
definition tenant_base :: "string \<Rightarrow> string \<Rightarrow> string" where
  "tenant_base wallet tag = ''spend:'' @ wallet @ '':'' @ tag"

text \<open>The hourly, daily and monthly counter of a family, with the time each is kept.\<close>

definition window_keys :: "periods \<Rightarrow> nat \<Rightarrow> string \<Rightarrow> (string \<times> nat) list" where
  "window_keys pd now base =
     [(base @ '':'' @ pd_hour pd now, 7200), (base @ '':'' @ pd_day pd now, 86400),
      (base @ '':'' @ pd_month pd now, 86400 * 31)]"

definition limited_windows :: "'a budget_limits_scheme \<Rightarrow> (string \<times> nat) list \<Rightarrow> (string \<times> f64 \<times> nat) list" where
  "limited_windows cfg keys =
     List.map_filter (\<lambda>(l, k, ttl). map_option (\<lambda>lim. (k, lim, ttl)) l)
       (zip [bl_hourly cfg, bl_daily cfg, bl_monthly cfg] keys)"

definition reserved_of :: "'a budget_limits_scheme \<Rightarrow> reserved_windows" where
  "reserved_of cfg = \<lparr>rw_hourly = bl_hourly cfg \<noteq> None, rw_daily = bl_daily cfg \<noteq> None,
     rw_monthly = bl_monthly cfg \<noteq> None\<rparr>"

fun try_commits ::
  "usage_env \<Rightarrow> usage_io \<Rightarrow> string \<Rightarrow> f64 \<Rightarrow> (string \<times> f64 \<times> nat) list \<Rightarrow> (string \<times> f64) list \<Rightarrow> counters
     \<Rightarrow> (usage_error, (string \<times> f64) list) result \<times> counters" where
  "try_commits env io wallet est [] committed cs = (Inr committed, cs)"
| "try_commits env io wallet est ((k, limit, ttl) # ws) committed cs =
    (case incr_check_or_rollback env io k est limit ttl cs of
       (Inr _, cs') \<Rightarrow> try_commits env io wallet est ws (committed @ [(k, est)]) cs'
     | (Inl (Incr_Exceeded current), cs') \<Rightarrow>
         (Inl (BudgetExceeded wallet limit current), rollback_committed env io committed cs')
     | (Inl Incr_Redis, cs') \<Rightarrow> (Inl Usage_Redis, rollback_committed env io committed cs'))"

text \<open>The team's part, after the wallet's windows.\<close>

definition check_team ::
  "usage_env \<Rightarrow> usage_io \<Rightarrow> string \<Rightarrow> f64 \<Rightarrow> (string \<times> f64) list \<Rightarrow> 'a usage_world_scheme
     \<Rightarrow> (usage_error, (string \<times> f64) list \<times> reserved_windows) result \<times> 'a usage_world_scheme" where
  "check_team env io wallet est committed w =
    (let give_up = (\<lambda>e w. (Inl e, w\<lparr>uw_counters := rollback_committed env io committed (uw_counters w)\<rparr>)) in
     case get_team_for_wallet env io wallet (uw_cache w) of
       (Inl e, rd) \<Rightarrow> give_up (Usage_Database e) (w\<lparr>uw_cache := rd\<rparr>)
     | (Inr None, rd) \<Rightarrow> (Inr (committed, no_windows), w\<lparr>uw_cache := rd\<rparr>)
     | (Inr (Some tid), rd) \<Rightarrow>
       (case get_team_budget_config env io tid rd of
          (Team_DbError, rd') \<Rightarrow> give_up (Usage_Database ''team_budgets lookup failed'') (w\<lparr>uw_cache := rd'\<rparr>)
        | (Team_Absent, rd') \<Rightarrow> (Inr (committed, no_windows), w\<lparr>uw_cache := rd'\<rparr>)
        | (Team_Found cfg, rd') \<Rightarrow>
          (case try_commits env io wallet est (limited_windows cfg (window_keys (ue_periods env) (ui_now io)
                  (team_base tid))) committed (uw_counters w) of
             (Inl e, cs) \<Rightarrow> (Inl e, w\<lparr>uw_cache := rd', uw_counters := cs\<rparr>)
           | (Inr committed', cs) \<Rightarrow>
               (Inr (committed', reserved_of cfg), w\<lparr>uw_cache := rd', uw_counters := cs\<rparr>))))"

text \<open>The tenant's part, last. The tenant's row is read only when the request carries a tag.\<close>

definition check_tenant ::
  "usage_env \<Rightarrow> usage_io \<Rightarrow> string \<Rightarrow> f64 \<Rightarrow> string option \<Rightarrow> bool \<Rightarrow> (string \<times> f64) list \<Rightarrow> 'a usage_world_scheme
     \<Rightarrow> (usage_error, (string \<times> f64) list \<times> bool \<times> reserved_windows) result \<times> 'a usage_world_scheme" where
  "check_tenant env io wallet est tenant require_tenant committed w0 =
    (let (lookup, rd) = (case tenant of None \<Rightarrow> (Tenant_Absent, uw_cache w0)
                         | Some tag \<Rightarrow> get_tenant_budget_config env io wallet tag (uw_cache w0));
         w = w0\<lparr>uw_cache := rd\<rparr>;
         give_up = (\<lambda>e. (Inl e, w\<lparr>uw_counters := rollback_committed env io committed (uw_counters w)\<rparr>));
         tenant_config = (case lookup of Tenant_Found cfg \<Rightarrow> Some cfg | _ \<Rightarrow> None) in
     if lookup = Tenant_DbError \<and> require_tenant
       then give_up (Usage_Database ''tenant_budgets lookup failed'')
     else case tenant_enforcement_decision require_tenant tenant (tenant_config \<noteq> None) of
       Skip \<Rightarrow> (Inr (committed, False, no_windows), w)
     | RejectRequired \<Rightarrow> give_up (TenantRequired wallet)
     | RejectNotProvisioned \<Rightarrow> give_up (TenantNotProvisioned wallet (the tenant))
     | Enforce \<Rightarrow>
       let tcfg = the tenant_config;
           any_limit = bl_hourly tcfg \<noteq> None \<or> bl_daily tcfg \<noteq> None \<or> bl_monthly tcfg \<noteq> None in
       (case try_commits env io wallet est (limited_windows tcfg (window_keys (ue_periods env) (ui_now io)
               (tenant_base wallet (the tenant)))) committed (uw_counters w) of
          (Inl e, cs) \<Rightarrow> (Inl e, w\<lparr>uw_counters := cs\<rparr>)
        | (Inr committed', cs) \<Rightarrow>
            (Inr (committed', any_limit, reserved_of tcfg), w\<lparr>uw_counters := cs\<rparr>)))"

definition check_budget ::
  "usage_env \<Rightarrow> usage_io \<Rightarrow> string \<Rightarrow> f64 \<Rightarrow> string option \<Rightarrow> 'a usage_world_scheme
     \<Rightarrow> (usage_error, budget_reservation) result \<times> 'a usage_world_scheme" where
  "check_budget env io wallet est tenant w0 =
    (if \<not> ue_redis env then
       (if f64_lt NO_REDIS_REQUEST_CAP_USDC est
        then Inl (BudgetExceeded wallet NO_REDIS_REQUEST_CAP_USDC est) else Inr empty_reservation, w0)
     else if \<not> ui_connect io then (Inl Usage_Redis, w0)
     else
       let (config, rd) = get_wallet_budget_config env io wallet (uw_cache w0); w = w0\<lparr>uw_cache := rd\<rparr> in
       case try_commits env io wallet est (limited_windows config (window_keys (ue_periods env) (ui_now io)
              (wallet_base wallet))) [] (uw_counters w) of
         (Inl e, cs) \<Rightarrow> (Inl e, w\<lparr>uw_counters := cs\<rparr>)
       | (Inr committed, cs) \<Rightarrow>
         (case check_team env io wallet est committed (w\<lparr>uw_counters := cs\<rparr>) of
            (Inl e, w1) \<Rightarrow> (Inl e, w1)
          | (Inr (committed1, team), w1) \<Rightarrow>
            (case check_tenant env io wallet est tenant (bc_require_tenant config) committed1 w1 of
               (Inl e, w2) \<Rightarrow> (Inl e, w2)
             | (Inr (committed2, tenant_enforced, ten), w2) \<Rightarrow>
                 (Inr \<lparr>br_committed = committed2, br_tenant_enforced = tenant_enforced,
                    br_reserved = \<lparr>rb_wallet = reserved_of config, rb_tenant = ten, rb_team = team\<rparr>\<rparr>, w2))))"

definition release_reservation ::
  "usage_env \<Rightarrow> usage_io \<Rightarrow> budget_reservation \<Rightarrow> 'a usage_world_scheme \<Rightarrow> 'a usage_world_scheme" where
  "release_reservation env io r w =
    (if br_committed r = [] \<or> \<not> ue_redis env \<or> \<not> ui_connect io then w
     else w\<lparr>uw_counters := rollback_committed env io (br_committed r) (uw_counters w)\<rparr>)"

definition require_tenant_for_wallet ::
  "usage_env \<Rightarrow> usage_io \<Rightarrow> string \<Rightarrow> 'a usage_world_scheme \<Rightarrow> bool \<times> 'a usage_world_scheme" where
  "require_tenant_for_wallet env io wallet w =
    (if \<not> ue_redis env \<or> \<not> ui_connect io then (False, w)
     else let (config, rd) = get_wallet_budget_config env io wallet (uw_cache w)
          in (bc_require_tenant config, w\<lparr>uw_cache := rd\<rparr>))"

section \<open>Settling\<close>

definition window_amount :: "f64 \<Rightarrow> f64 option \<Rightarrow> bool \<Rightarrow> f64" where
  "window_amount actual estimate was_reserved =
    (case estimate of Some e \<Rightarrow> if was_reserved then f64_sub actual e else actual | None \<Rightarrow> actual)"

definition settle_family ::
  "usage_env \<Rightarrow> usage_io \<Rightarrow> f64 \<Rightarrow> f64 option \<Rightarrow> reserved_windows \<Rightarrow> string \<Rightarrow> counters \<Rightarrow> counters" where
  "settle_family env io actual estimate rw base cs =
     fold (\<lambda>((k, ttl), r). incr_and_expire env io k (window_amount actual estimate r) ttl)
       (zip (window_keys (ue_periods env) (ui_now io) base) [rw_hourly rw, rw_daily rw, rw_monthly rw]) cs"

text \<open>The background task over the counters.\<close>

definition settle_counters :: "usage_env \<Rightarrow> usage_io \<Rightarrow> spend_entry \<Rightarrow> 'a usage_world_scheme \<Rightarrow> 'a usage_world_scheme"
where
  "settle_counters env io e w =
    (let settle = settle_family env io (se_cost_usdc e) (se_estimated_cost_usdc e); rs = se_reserved e;
         tenant = (if se_tenant_enforced e then se_tenant e else None);
         cs1 = settle (rb_wallet rs) (wallet_base (se_wallet e)) (uw_counters w);
         cs2 = (case tenant of Some tag \<Rightarrow> settle (rb_tenant rs) (tenant_base (se_wallet e) tag) cs1 | None \<Rightarrow> cs1);
         (team, rd) = get_team_for_wallet env io (se_wallet e) (uw_cache w);
         cs3 = (case team of Inr (Some tid) \<Rightarrow> settle (rb_team rs) (team_base tid) cs2 | _ \<Rightarrow> cs2)
     in w\<lparr>uw_counters := cs3, uw_cache := rd\<rparr>)"

text \<open>The background task over the spend table: a vendor row whose amounts do not fit the signed
  columns is not written.\<close>

definition insert_spend_log :: "usage_env \<Rightarrow> usage_io \<Rightarrow> spend_entry \<Rightarrow> 'a usage_world_scheme \<Rightarrow> 'a usage_world_scheme"
where
  "insert_spend_log env io e w =
    (let fits = (case se_vendor e of None \<Rightarrow> True
                 | Some v \<Rightarrow> unat (vs_settled_atomic v) < 2 ^ 63 \<and> unat (vs_fee_receivable_atomic v) < 2 ^ 63) in
     if ue_db env \<noteq> None \<and> fits \<and> ui_insert_ok io then w\<lparr>uw_spend_logs := uw_spend_logs w @ [e]\<rparr> else w)"

definition log_spend :: "usage_env \<Rightarrow> usage_io \<Rightarrow> spend_entry \<Rightarrow> 'a usage_world_scheme \<Rightarrow> 'a usage_world_scheme" where
  "log_spend env io e w0 =
    (let w = insert_spend_log env io e w0;
         is_zero_cost_no_reservation = (f64_val (se_cost_usdc e) = 0 \<and> f64_is_finite (se_cost_usdc e)
            \<and> se_estimated_cost_usdc e = None) in
     if \<not> ue_redis env \<or> is_zero_cost_no_reservation \<or> \<not> ui_connect io then w else settle_counters env io e w)"

section \<open>All or nothing\<close>

text \<open>
  What a refused check leaves in a counter that held \<open>v\<close>: either it was not touched, or the estimate
  was added and taken back, by the script itself (which adds the negated decimal) or by the rollback
  (which adds the decimal of the negated float). The store's additions round, so that the second and
  the third value are \<open>v\<close> only up to these two roundings.
\<close>

definition given_back :: "redis_numbers \<Rightarrow> f64 \<Rightarrow> rat \<Rightarrow> rat \<Rightarrow> bool" where
  "given_back num est v x \<longleftrightarrow> (let added = rn_incr num v (rn_decimal num est) in
     x = v \<or> x = rn_incr num added (- rn_decimal num est) \<or> x = rn_incr num added (rn_decimal num (f64_neg est)))"

definition counter_wires_ok :: "usage_io \<Rightarrow> bool" where
  "counter_wires_ok io \<longleftrightarrow> (\<forall>k. ui_wire io (Cmd_Eval k) = Rd_Ok \<and> ui_wire io (Cmd_Rollback k) = Rd_Ok)"

definition periods_ok :: "periods \<Rightarrow> nat \<Rightarrow> bool" where
  "periods_ok pd now \<longleftrightarrow> distinct [pd_hour pd now, pd_day pd now, pd_month pd now]
     \<and> list_all (\<lambda>p. CHR '':'' \<notin> set p) [pd_hour pd now, pd_day pd now, pd_month pd now]"

text \<open>The windows that apply to a request, from the lookups alone; \<open>None\<close> when the request must be
  refused whatever the counters hold.\<close>

definition team_plan ::
  "usage_env \<Rightarrow> usage_io \<Rightarrow> string \<Rightarrow> redis \<Rightarrow> (string \<times> f64 \<times> nat) list option \<times> redis" where
  "team_plan env io wallet rd =
    (case get_team_for_wallet env io wallet rd of
       (Inl _, rd') \<Rightarrow> (None, rd')
     | (Inr None, rd') \<Rightarrow> (Some [], rd')
     | (Inr (Some tid), rd') \<Rightarrow> (case get_team_budget_config env io tid rd' of
         (Team_DbError, rd'') \<Rightarrow> (None, rd'')
       | (Team_Absent, rd'') \<Rightarrow> (Some [], rd'')
       | (Team_Found cfg, rd'') \<Rightarrow>
           (Some (limited_windows cfg (window_keys (ue_periods env) (ui_now io) (team_base tid))), rd'')))"

definition tenant_plan ::
  "usage_env \<Rightarrow> usage_io \<Rightarrow> string \<Rightarrow> string option \<Rightarrow> bool \<Rightarrow> redis \<Rightarrow> (string \<times> f64 \<times> nat) list option" where
  "tenant_plan env io wallet tenant require_tenant rd =
    (case tenant of
       None \<Rightarrow> if require_tenant then None else Some []
     | Some tag \<Rightarrow> (case fst (get_tenant_budget_config env io wallet tag rd) of
         Tenant_Found cfg \<Rightarrow>
           Some (limited_windows cfg (window_keys (ue_periods env) (ui_now io) (tenant_base wallet tag)))
       | _ \<Rightarrow> if require_tenant then None else Some []))"

definition budget_plan ::
  "usage_env \<Rightarrow> usage_io \<Rightarrow> string \<Rightarrow> string option \<Rightarrow> redis \<Rightarrow> (string \<times> f64 \<times> nat) list option" where
  "budget_plan env io wallet tenant rd =
    (let (config, rd1) = get_wallet_budget_config env io wallet rd;
         (team, rd2) = team_plan env io wallet rd1
     in Option.bind team (\<lambda>tw.
        Option.bind (tenant_plan env io wallet tenant (bc_require_tenant config) rd2) (\<lambda>nw.
          Some (limited_windows config (window_keys (ue_periods env) (ui_now io) (wallet_base wallet))
            @ tw @ nw))))"

definition fits :: "redis_numbers \<Rightarrow> f64 \<Rightarrow> (string \<Rightarrow> rat) \<Rightarrow> string \<times> f64 \<times> nat \<Rightarrow> bool" where
  "fits num est V = (\<lambda>(k, limit, ttl).
     \<not> f64_lt (f64_add limit USDC_EPSILON) (f64_of_rat (rn_incr num (V k) (rn_decimal num est))))"

definition booked :: "redis_numbers \<Rightarrow> nat \<Rightarrow> f64 \<Rightarrow> (string \<Rightarrow> rat) \<Rightarrow> (string \<times> f64) list \<Rightarrow> counters \<Rightarrow> bool" where
  "booked num now est V committed cs \<longleftrightarrow> distinct (map fst committed)
     \<and> (\<forall>(k, a) \<in> set committed. a = est
          \<and> (\<exists>t. cs k = Some (rn_incr num (V k) (rn_decimal num est), Some t) \<and> now + 7200 \<le> t))
     \<and> (\<forall>k. k \<notin> fst ` set committed \<longrightarrow> counter_value now k cs = V k)"

lemma counter_value_upd [simp]:
  "counter_value now k (cs(k' \<mapsto> (v, Some t))) = (if k = k' then if now < t then v else 0 else counter_value now k cs)"
  "counter_value now k (cs(k' \<mapsto> (v, None))) = (if k = k' then v else counter_value now k cs)"
  by (simp_all add: counter_value_def live_counter_def)

lemma counter_value_incrbyfloat:
  "counter_value now k (incrbyfloat num now k' a cs)
    = (if k = k' then rn_incr num (counter_value now k cs) a else counter_value now k cs)"
  by (auto simp: incrbyfloat_def counter_value_def live_counter_def split: option.splits if_splits)

lemma counter_value_booked:
  assumes "booked num now est V committed cs" "(k, a) \<in> set committed" "now \<le> t" "t < now + 7200"
  shows "counter_value t k cs = rn_incr num (V k) (rn_decimal num est)"
  using assms by (fastforce simp: booked_def counter_value_def live_counter_def)

lemma rollback_value:
  assumes "counter_wires_ok io" "distinct (map fst l)"
  shows "counter_value (ui_now io) k (rollback_committed env io l cs)
    = (case map_of l k of
         None \<Rightarrow> counter_value (ui_now io) k cs
       | Some a \<Rightarrow> rn_incr (ue_numbers env) (counter_value (ui_now io) k cs) (rn_decimal (ue_numbers env) (f64_neg a)))"
  using assms(2)
proof (induction l arbitrary: cs)
  case (Cons p l)
  obtain k' a where [simp]: "p = (k', a)" by (cases p)
  have "k' \<notin> dom (map_of l)" using Cons.prems by (simp add: dom_map_of_conv_image_fst)
  then have none: "map_of l k' = None" by (simp add: domIff)
  from Cons.IH [of "incrbyfloat (ue_numbers env) (ui_now io) k' (rn_decimal (ue_numbers env) (f64_neg a)) cs"] Cons.prems
  show ?case using assms(1) none
    by (cases "k = k'") (simp_all add: counter_wires_ok_def rd_command_def counter_value_incrbyfloat split: option.splits)
qed simp

lemma given_back_simps [simp]:
  "given_back num est v v"
  "given_back num est v (rn_incr num (rn_incr num v (rn_decimal num est)) (- rn_decimal num est))"
  "given_back num est v (rn_incr num (rn_incr num v (rn_decimal num est)) (rn_decimal num (f64_neg est)))"
  by (simp_all add: given_back_def)

text \<open>Where the additions involved are exact, a counter that was given back is as it was.\<close>

lemma given_back_exact:
  assumes "given_back num est v x" "\<And>u b. rn_incr num u b = u + b" "rn_decimal num (f64_neg est) = - rn_decimal num est"
  shows "x = v"
  using assms by (auto simp: given_back_def Let_def)

definition all_given_back :: "redis_numbers \<Rightarrow> nat \<Rightarrow> f64 \<Rightarrow> (string \<Rightarrow> rat) \<Rightarrow> counters \<Rightarrow> bool" where
  "all_given_back num now est V cs \<longleftrightarrow> (\<forall>k. given_back num est (V k) (counter_value now k cs))"

lemma rollback_gives_back:
  assumes "counter_wires_ok io" "distinct (map fst committed)"
    and "\<And>k a. (k, a) \<in> set committed \<Longrightarrow> a = est
      \<and> counter_value (ui_now io) k cs = rn_incr (ue_numbers env) (V k) (rn_decimal (ue_numbers env) est)"
    and "\<And>k. k \<notin> fst ` set committed \<Longrightarrow> given_back (ue_numbers env) est (V k) (counter_value (ui_now io) k cs)"
  shows "all_given_back (ue_numbers env) (ui_now io) est V (rollback_committed env io committed cs)"
  unfolding all_given_back_def
proof
  fix k
  show "given_back (ue_numbers env) est (V k) (counter_value (ui_now io) k (rollback_committed env io committed cs))"
  proof (cases "map_of committed k")
    case None
    then have "k \<notin> fst ` set committed" by (simp add: map_of_eq_None_iff)
    with None assms(4) show ?thesis by (simp add: rollback_value [OF assms(1,2)])
  next
    case (Some a)
    with assms(3) [OF map_of_SomeD [OF Some]] show ?thesis by (simp add: rollback_value [OF assms(1,2)])
  qed
qed

lemma rollback_booked:
  assumes "counter_wires_ok io" "booked (ue_numbers env) (ui_now io) est V committed cs"
    and "k' \<notin> fst ` set committed" "given_back (ue_numbers env) est (V k') x" "ui_now io < t"
  shows "all_given_back (ue_numbers env) (ui_now io) est V (rollback_committed env io committed (cs(k' \<mapsto> (x, Some t))))"
proof -
  have d: "distinct (map fst committed)" using assms(2) by (simp add: booked_def)
  have "k \<noteq> k'" if "(k, a) \<in> set committed" for k a using assms(3) that by force
  then show ?thesis
    by (intro rollback_gives_back [OF assms(1) d])
      (use assms(2,4,5) counter_value_booked [OF assms(2)] in \<open>auto simp: booked_def\<close>)
qed

lemma rollback_all:
  assumes "counter_wires_ok io" "booked (ue_numbers env) (ui_now io) est V committed cs"
  shows "all_given_back (ue_numbers env) (ui_now io) est V (rollback_committed env io committed cs)"
proof -
  have d: "distinct (map fst committed)" using assms(2) by (simp add: booked_def)
  show ?thesis
    by (rule rollback_gives_back [OF assms(1) d]) (use assms(2) counter_value_booked [OF assms(2)] in \<open>auto simp: booked_def\<close>)
qed

lemma release_value:
  assumes "ue_redis env" "ui_connect io" "counter_wires_ok io" "distinct (map fst (br_committed r))"
  shows "counter_value (ui_now io) k (uw_counters (release_reservation env io r w))
    = (case map_of (br_committed r) k of
         None \<Rightarrow> counter_value (ui_now io) k (uw_counters w)
       | Some a \<Rightarrow> rn_incr (ue_numbers env) (counter_value (ui_now io) k (uw_counters w))
           (rn_decimal (ue_numbers env) (f64_neg a)))"
  using assms(1,2) rollback_value [OF assms(3,4)] by (simp add: release_reservation_def)

lemma booked_snoc:
  assumes "booked num now est V committed cs" "k \<notin> fst ` set committed" "now + 7200 \<le> t"
  shows "booked num now est V (committed @ [(k, est)])
    (cs(k \<mapsto> (rn_incr num (V k) (rn_decimal num est), Some t)))"
proof -
  have "a \<noteq> k" if "(a, b) \<in> set committed" for a b using assms(2) that by force
  with assms show ?thesis by (fastforce simp: booked_def)
qed

definition est_of :: "f64 \<Rightarrow> (string \<times> f64 \<times> nat) list \<Rightarrow> (string \<times> f64) list" where
  "est_of est ws = map (\<lambda>(k, _). (k, est)) ws"

lemma est_of_simps [simp]:
  "map fst (est_of est ws) = map fst ws" "fst ` set (est_of est ws) = fst ` set ws"
  "est_of est (ws @ ws') = est_of est ws @ est_of est ws'" "est_of est [] = []"
  "est_of est ((k, x) # ws) = (k, est) # est_of est ws"
  by (simp_all add: est_of_def image_image split_def comp_def)

text \<open>One window: it is booked when the script answers and the estimate fits, and it is refused, with
  the addition taken back by the script, when it answers and the estimate does not fit.\<close>

lemma incr_check_answered:
  fixes est :: f64 and env :: usage_env
  assumes "counter_value (ui_now io) k cs = v" "ui_wire io (Cmd_Eval k) = Rd_Ok"
  defines "added \<equiv> rn_incr (ue_numbers env) v (rn_decimal (ue_numbers env) est)"
  shows "fits (ue_numbers env) est (\<lambda>_. v) (k, limit, ttl) \<Longrightarrow> incr_check_or_rollback env io k est limit ttl cs
      = (Inr (f64_of_rat added), cs(k \<mapsto> (added, Some (ui_now io + ttl))))"
    and "\<not> fits (ue_numbers env) est (\<lambda>_. v) (k, limit, ttl) \<Longrightarrow> incr_check_or_rollback env io k est limit ttl cs
      = (Inl (Incr_Exceeded (f64_of_rat added)),
         cs(k \<mapsto> (rn_incr (ue_numbers env) added (- rn_decimal (ue_numbers env) est), Some (ui_now io + ttl))))"
  using assms
  by (simp_all add: incr_check_or_rollback_def incr_check_script_def rd_command_def fits_def Let_def)

lemma incr_check_unanswered:
  assumes "ui_wire io (Cmd_Eval k) \<noteq> Rd_Ok"
  shows "\<exists>cs'. incr_check_or_rollback env io k est limit ttl cs = (Inl Incr_Redis, cs')" "\<not> counter_wires_ok io"
  using assms
  by (auto simp: incr_check_or_rollback_def rd_command_def counter_wires_ok_def Let_def split: redis_reply.splits)

lemma try_commits_outcome:
  assumes "booked (ue_numbers env) (ui_now io) est V committed cs"
    and "distinct (map fst committed @ map fst ws)" "\<forall>(k, l, ttl) \<in> set ws. 7200 \<le> ttl"
  shows "case try_commits env io wallet est ws committed cs of
      (Inr c, cs') \<Rightarrow> list_all (fits (ue_numbers env) est V) ws \<and> c = committed @ est_of est ws
        \<and> booked (ue_numbers env) (ui_now io) est V c cs'
    | (Inl e, cs') \<Rightarrow> counter_wires_ok io \<longrightarrow>
        \<not> list_all (fits (ue_numbers env) est V) ws \<and> all_given_back (ue_numbers env) (ui_now io) est V cs'"
  using assms
proof (induction ws arbitrary: committed cs)
  case (Cons p ws)
  obtain k limit ttl where p: "p = (k, limit, ttl)" by (metis prod_cases3)
  have v: "counter_value (ui_now io) k cs = V k" and fresh: "k \<notin> fst ` set committed" and ttl: "7200 \<le> ttl"
    using Cons.prems by (auto simp: booked_def p)
  have fits: "fits (ue_numbers env) est V p \<longleftrightarrow> fits (ue_numbers env) est (\<lambda>_. V k) (k, limit, ttl)"
    by (simp add: fits_def p)
  show ?case
  proof (cases "ui_wire io (Cmd_Eval k) = Rd_Ok")
    case False
    from incr_check_unanswered(1) [OF this, of env est limit ttl cs] incr_check_unanswered(2) [OF this] show ?thesis by (auto simp: p)
  next
    case answered: True
    show ?thesis
    proof (cases "fits (ue_numbers env) est V p")
      case True
      define cs1 where "cs1 = cs(k \<mapsto> (rn_incr (ue_numbers env) (V k) (rn_decimal (ue_numbers env) est), Some (ui_now io + ttl)))"
      have "distinct (map fst (committed @ [(k, est)]) @ map fst ws)" "\<forall>(k, l, ttl) \<in> set ws. 7200 \<le> ttl"
        using Cons.prems(2,3) by (auto simp: p)
      note ih = Cons.IH [OF booked_snoc [OF Cons.prems(1) fresh] this, of "ui_now io + ttl", folded cs1_def]
      have run: "try_commits env io wallet est (p # ws) committed cs
          = try_commits env io wallet est ws (committed @ [(k, est)]) cs1"
        using incr_check_answered(1) [OF v answered True [unfolded fits]] by (simp add: p cs1_def)
      show ?thesis unfolding run using ih ttl True by (simp add: p split: prod.splits sum.splits)
    next
      case False
      with incr_check_answered(2) [OF v answered False [unfolded fits]]
        rollback_booked [OF _ Cons.prems(1) fresh given_back_simps(2), of "ui_now io + ttl"] ttl
      show ?thesis by (simp add: p)
    qed
  qed
qed simp

lemma split_at_last:
  assumes "x \<notin> set p" "x \<notin> set q"
  shows "a @ x # p = b @ x # q \<longleftrightarrow> a = b \<and> p = q"
proof
  assume h: "a @ x # p = b @ x # q"
  have "rev (a @ x # p) = rev (b @ x # q)" by (simp only: h)
  then have r: "rev p @ x # rev a = rev q @ x # rev b" by simp
  have t: "takeWhile (\<lambda>c. c \<noteq> x) (rev l @ x # r) = rev l" if "x \<notin> set l" for l r
    using that by (subst takeWhile_append2) auto
  from arg_cong [OF r, of "takeWhile (\<lambda>c. c \<noteq> x)"] have "rev p = rev q"
    unfolding t [OF assms(1)] t [OF assms(2)] .
  with r show "a = b \<and> p = q" by simp
qed simp

lemma bases_distinct [simp]:
  "wallet_base a \<noteq> team_base b" "team_base b \<noteq> wallet_base a"
  "tenant_base a t \<noteq> team_base b" "team_base b \<noteq> tenant_base a t"
  "wallet_base a \<noteq> tenant_base a t" "tenant_base a t \<noteq> wallet_base a"
  by (simp_all add: wallet_base_def team_base_def tenant_base_def)

lemma limited_windows_mem: "(k, l, ttl) \<in> set (limited_windows cfg keys) \<Longrightarrow> (k, ttl) \<in> set keys"
  by (auto simp: limited_windows_def List.map_filter_def dest: set_zip_rightD)

lemma limited_windows_keys: "fst ` set (limited_windows cfg keys) \<subseteq> fst ` set keys"
proof
  fix k assume "k \<in> fst ` set (limited_windows cfg keys)"
  then obtain l ttl where "(k, l, ttl) \<in> set (limited_windows cfg keys)" by auto
  from limited_windows_mem [OF this] show "k \<in> fst ` set keys" by (force intro: rev_image_eqI)
qed

lemma window_keys_disjoint:
  assumes "periods_ok pd now" "base \<noteq> base'"
  shows "fst ` set (limited_windows cfg (window_keys pd now base))
    \<inter> fst ` set (limited_windows cfg' (window_keys pd now base')) = {}"
proof -
  have "fst ` set (window_keys pd now base) \<inter> fst ` set (window_keys pd now base') = {}"
    using assms by (auto simp: window_keys_def periods_ok_def split_at_last)
  with limited_windows_keys [of cfg "window_keys pd now base"] limited_windows_keys [of cfg' "window_keys pd now base'"]
  show ?thesis by blast
qed

lemma window_keys_props:
  assumes "periods_ok pd now"
  shows "distinct (map fst (limited_windows cfg (window_keys pd now base)))"
    and "\<forall>(k, l, ttl) \<in> set (limited_windows cfg (window_keys pd now base)). 7200 \<le> ttl"
  using assms
  by (auto simp: limited_windows_def window_keys_def periods_ok_def List.map_filter_def split_at_last
      split: option.splits)

text \<open>A part of the check against the windows it is responsible for: admitted only when there is a
  plan that fits, and then booked on it; refused, with the store answering, only when there is none,
  and then given back.\<close>

definition plan_fits :: "redis_numbers \<Rightarrow> f64 \<Rightarrow> (string \<Rightarrow> rat) \<Rightarrow> (string \<times> f64 \<times> nat) list option \<Rightarrow> bool" where
  "plan_fits num est V plan \<longleftrightarrow> (case plan of None \<Rightarrow> False | Some ws \<Rightarrow> list_all (fits num est V) ws)"

lemma check_team_outcome:
  assumes pd: "periods_ok (ue_periods env) (ui_now io)"
    and bk: "booked (ue_numbers env) (ui_now io) est V committed (uw_counters w)"
    and ws: "committed = est_of est (limited_windows config (window_keys (ue_periods env) (ui_now io) (wallet_base wallet)))"
  shows "case check_team env io wallet est committed w of
      (Inr (c, rw), w') \<Rightarrow> (\<exists>tw. fst (team_plan env io wallet (uw_cache w)) = Some tw
        \<and> list_all (fits (ue_numbers env) est V) tw \<and> c = committed @ est_of est tw)
        \<and> booked (ue_numbers env) (ui_now io) est V c (uw_counters w')
        \<and> uw_cache w' = snd (team_plan env io wallet (uw_cache w))
    | (Inl e, w') \<Rightarrow> counter_wires_ok io \<longrightarrow>
        \<not> plan_fits (ue_numbers env) est V (fst (team_plan env io wallet (uw_cache w)))
        \<and> all_given_back (ue_numbers env) (ui_now io) est V (uw_counters w')"
proof -
  have undone: "all_given_back (ue_numbers env) (ui_now io) est V (rollback_committed env io committed (uw_counters w))"
    if "counter_wires_ok io" by (rule rollback_all [OF that bk])
  obtain t rd where t: "get_team_for_wallet env io wallet (uw_cache w) = (t, rd)" by fastforce
  show ?thesis
  proof (cases t)
    case (Inr o')
    show ?thesis
    proof (cases o')
      case (Some tid)
      obtain l rd' where l: "get_team_budget_config env io tid rd = (l, rd')" by fastforce
      show ?thesis
      proof (cases l)
        case (Team_Found cfg)
        let ?tw = "limited_windows cfg (window_keys (ue_periods env) (ui_now io) (team_base tid))"
        have "distinct (map fst committed @ map fst ?tw)"
          by (simp add: ws window_keys_props(1) [OF pd] window_keys_disjoint [OF pd])
        from try_commits_outcome [OF bk this window_keys_props(2) [OF pd], of wallet]
        show ?thesis using t Inr Some l Team_Found
          by (auto simp: team_plan_def check_team_def plan_fits_def split: prod.splits sum.splits)
      qed (use t Inr Some l undone bk in \<open>auto simp: team_plan_def check_team_def plan_fits_def\<close>)
    qed (use t Inr bk in \<open>simp add: team_plan_def check_team_def\<close>)
  qed (use t undone in \<open>auto simp: team_plan_def check_team_def plan_fits_def\<close>)
qed

lemma check_tenant_outcome:
  assumes pd: "periods_ok (ue_periods env) (ui_now io)"
    and bk: "booked (ue_numbers env) (ui_now io) est V committed (uw_counters w)"
    and fresh: "\<And>(cfg :: budget_limits) tag. fst ` set committed
      \<inter> fst ` set (limited_windows cfg (window_keys (ue_periods env) (ui_now io) (tenant_base wallet tag))) = {}"
  shows "case check_tenant env io wallet est tenant require_tenant committed w of
      (Inr (c, enf, rw), w') \<Rightarrow> (\<exists>nw. tenant_plan env io wallet tenant require_tenant (uw_cache w) = Some nw
        \<and> list_all (fits (ue_numbers env) est V) nw \<and> c = committed @ est_of est nw)
        \<and> booked (ue_numbers env) (ui_now io) est V c (uw_counters w')
    | (Inl e, w') \<Rightarrow> counter_wires_ok io \<longrightarrow>
        \<not> plan_fits (ue_numbers env) est V (tenant_plan env io wallet tenant require_tenant (uw_cache w))
        \<and> all_given_back (ue_numbers env) (ui_now io) est V (uw_counters w')"
proof -
  have undone: "all_given_back (ue_numbers env) (ui_now io) est V (rollback_committed env io committed (uw_counters w))"
    if "counter_wires_ok io" by (rule rollback_all [OF that bk])
  show ?thesis
  proof (cases tenant)
    case None
    with undone bk show ?thesis by (cases require_tenant) (auto simp: tenant_plan_def check_tenant_def plan_fits_def)
  next
    case (Some tag)
    obtain l rd where l: "get_tenant_budget_config env io wallet tag (uw_cache w) = (l, rd)" by fastforce
    show ?thesis
    proof (cases l)
      case (Tenant_Found cfg)
      let ?nw = "limited_windows cfg (window_keys (ue_periods env) (ui_now io) (tenant_base wallet tag))"
      have "distinct (map fst committed @ map fst ?nw)"
        using fresh bk by (simp add: booked_def window_keys_props(1) [OF pd])
      from try_commits_outcome [OF bk this window_keys_props(2) [OF pd], of wallet]
      show ?thesis using l Some Tenant_Found
        by (auto simp: tenant_plan_def check_tenant_def plan_fits_def split: prod.splits sum.splits)
    qed (use l Some undone bk in \<open>(cases require_tenant, auto simp: tenant_plan_def check_tenant_def plan_fits_def)+\<close>)
  qed
qed

lemma booked_start: "booked num now est (\<lambda>k. counter_value now k cs) [] cs"
  by (simp add: booked_def)

lemma team_plan_fresh:
  assumes "periods_ok (ue_periods env) (ui_now io)" "fst (team_plan env io wallet rd) = Some tw"
  shows "fst ` set tw \<inter> fst ` set (limited_windows cfg
    (window_keys (ue_periods env) (ui_now io) (tenant_base wallet tag))) = {}"
proof -
  from assms(2) consider "tw = []" | tid c where
    "tw = limited_windows (c :: budget_limits) (window_keys (ue_periods env) (ui_now io) (team_base tid))"
    by (auto simp: team_plan_def split: prod.splits sum.splits option.splits team_lookup.splits)
  then show ?thesis by cases (simp_all add: window_keys_disjoint [OF assms(1)])
qed

lemma check_budget_outcome:
  fixes w :: "'a usage_world_scheme" and io :: usage_io
  defines "V \<equiv> \<lambda>k. counter_value (ui_now io) k (uw_counters w)"
  assumes pd: "periods_ok (ue_periods env) (ui_now io)" and up: "ue_redis env" "ui_connect io"
  shows "case check_budget env io wallet est tenant w of
      (Inr r, w') \<Rightarrow> (\<exists>ws. budget_plan env io wallet tenant (uw_cache w) = Some ws
          \<and> list_all (fits (ue_numbers env) est V) ws \<and> br_committed r = est_of est ws)
        \<and> booked (ue_numbers env) (ui_now io) est V (br_committed r) (uw_counters w')
    | (Inl e, w') \<Rightarrow> counter_wires_ok io \<longrightarrow>
        \<not> plan_fits (ue_numbers env) est V (budget_plan env io wallet tenant (uw_cache w))
        \<and> all_given_back (ue_numbers env) (ui_now io) est V (uw_counters w')"
proof -
  obtain config rd where cfg: "get_wallet_budget_config env io wallet (uw_cache w) = (config, rd)" by fastforce
  define ww where "ww = limited_windows config (window_keys (ue_periods env) (ui_now io) (wallet_base wallet))"
  have plan: "budget_plan env io wallet tenant (uw_cache w)
      = Option.bind (fst (team_plan env io wallet rd)) (\<lambda>tw.
        Option.bind (tenant_plan env io wallet tenant (bc_require_tenant config) (snd (team_plan env io wallet rd)))
          (\<lambda>nw. Some (ww @ tw @ nw)))"
    using cfg by (simp add: budget_plan_def ww_def case_prod_beta)
  have d: "distinct (map fst [] @ map fst ww)" by (simp add: ww_def window_keys_props(1) [OF pd])
  have t: "\<forall>(k, l, ttl) \<in> set ww. 7200 \<le> ttl" unfolding ww_def by (rule window_keys_props(2) [OF pd])
  have bk0: "booked (ue_numbers env) (ui_now io) est V [] (uw_counters w)" unfolding V_def by (rule booked_start)
  obtain out1 cs where c: "try_commits env io wallet est ww [] (uw_counters w) = (out1, cs)" by fastforce
  note wallet' = try_commits_outcome [OF bk0 d t, of wallet, unfolded c]
  show ?thesis
  proof (cases out1)
    case (Inl e)
    have "\<not> plan_fits (ue_numbers env) est V (budget_plan env io wallet tenant (uw_cache w))"
      if "\<not> list_all (fits (ue_numbers env) est V) ww"
      using that by (auto simp: plan plan_fits_def bind_eq_Some_conv split: option.splits)
    with wallet' Inl up cfg c show ?thesis by (simp add: check_budget_def ww_def [symmetric])
  next
    case (Inr c1)
    with wallet' have fit1: "list_all (fits (ue_numbers env) est V) ww" and c1: "c1 = est_of est ww"
      and bk1: "booked (ue_numbers env) (ui_now io) est V (est_of est ww) cs" by auto
    define w1 where "w1 = w\<lparr>uw_cache := rd, uw_counters := cs\<rparr>"
    have rd1: "uw_cache w1 = rd" by (simp add: w1_def)
    have bk1': "booked (ue_numbers env) (ui_now io) est V (est_of est ww) (uw_counters w1)" using bk1 by (simp add: w1_def)
    obtain out2 w2 where team_run: "check_team env io wallet est (est_of est ww) w1 = (out2, w2)" by fastforce
    note team = check_team_outcome [OF pd bk1' arg_cong [OF ww_def], unfolded team_run rd1]
    show ?thesis
    proof (cases out2)
      case (Inl e)
      have "\<not> plan_fits (ue_numbers env) est V (budget_plan env io wallet tenant (uw_cache w))"
        if "\<not> plan_fits (ue_numbers env) est V (fst (team_plan env io wallet rd))"
        using that by (auto simp: plan plan_fits_def bind_eq_Some_conv split: option.splits)
      with team Inl up cfg c team_run \<open>out1 = Inr c1\<close> c1 show ?thesis
        by (simp add: check_budget_def ww_def [symmetric] w1_def [symmetric])
    next
      case (Inr p2)
      obtain c2 rw where p2: "p2 = (c2, rw)" by fastforce
      from team Inr p2 obtain tw where tw: "fst (team_plan env io wallet rd) = Some tw"
        and fit2: "list_all (fits (ue_numbers env) est V) tw" and c2: "c2 = est_of est ww @ est_of est tw"
        and bk2: "booked (ue_numbers env) (ui_now io) est V c2 (uw_counters w2)"
        and rd2: "uw_cache w2 = snd (team_plan env io wallet rd)" by auto
      have fresh: "fst ` set c2 \<inter> fst ` set (limited_windows (c :: budget_limits)
            (window_keys (ue_periods env) (ui_now io) (tenant_base wallet tag))) = {}" for c tag
        by (simp add: c2 ww_def image_Un Int_Un_distrib2 team_plan_fresh [OF pd tw] window_keys_disjoint [OF pd])
      obtain out3 w3 where tenant_run: "check_tenant env io wallet est tenant (bc_require_tenant config) c2 w2 = (out3, w3)"
        by fastforce
      note tenant' = check_tenant_outcome [OF pd bk2 fresh, where tenant = tenant
          and require_tenant = "bc_require_tenant config", unfolded rd2 tenant_run]
      have run: "check_budget env io wallet est tenant w = (case out3 of Inl e \<Rightarrow> (Inl e, w3)
          | Inr (c3, enf, ten) \<Rightarrow> (Inr \<lparr>br_committed = c3, br_tenant_enforced = enf,
              br_reserved = \<lparr>rb_wallet = reserved_of config, rb_tenant = ten, rb_team = rw\<rparr>\<rparr>, w3))"
        using up cfg c c1 team_run Inr p2 tenant_run \<open>out1 = Inr c1\<close>
        by (simp add: check_budget_def ww_def [symmetric] w1_def [symmetric])
      from tenant' tw fit1 fit2 show ?thesis
        by (auto simp: run tenant_run plan plan_fits_def c2 split: sum.splits prod.splits option.splits)
    qed
  qed
qed

lemma check_budget_distinct:
  assumes "periods_ok (ue_periods env) (ui_now io)" "check_budget env io wallet est tenant w = (Inr r, w')"
  shows "distinct (map fst (br_committed r))"
proof (cases "ue_redis env \<and> ui_connect io")
  case True
  with check_budget_outcome [OF assms(1), where w = w and wallet = wallet and tenant = tenant and est = est] assms(2)
  show ?thesis by (simp add: booked_def)
next
  case False
  with assms(2) show ?thesis by (auto simp: check_budget_def empty_reservation_def split: if_splits)
qed

section \<open>Properties\<close>

text \<open>
  C13. A budget check is all or nothing, and decides by the limits that apply. With Redis configured
  and connected, a request is admitted only when the lookups allow it and the estimate fits under
  every hourly, daily and monthly limit of the wallet, of its team and of its tenant, and then the
  estimate is added to exactly those counters, whichever commands fail. If moreover the store answers
  each reserving script and each rollback command, it is refused only when the lookups refuse it or
  one of these limits does not fit, and then no counter keeps the estimate: each was not touched, or
  had the estimate added and taken back, which gives its value up to the store's rounding of the two
  additions.
\<close>
theorem budget_check_all_or_nothing:
  assumes "periods_ok (ue_periods env) (ui_now io)" "ue_redis env" "ui_connect io"
  shows "let num = ue_numbers env;
             before = (\<lambda>k. counter_value (ui_now io) k (uw_counters w));
             (outcome, w') = check_budget env io wallet est tenant w;
             after = (\<lambda>k. counter_value (ui_now io) k (uw_counters w'));
             plan = budget_plan env io wallet tenant (uw_cache w)
         in (\<forall>r. outcome = Inr r \<longrightarrow> (\<exists>ws. plan = Some ws \<and> list_all (fits num est before) ws
                \<and> br_committed r = map (\<lambda>(k, _). (k, est)) ws \<and> distinct (map fst ws)
                \<and> after = (\<lambda>k. if k \<in> fst ` set ws then rn_incr num (before k) (rn_decimal num est) else before k)))
          \<and> (\<forall>e. outcome = Inl e \<and> counter_wires_ok io \<longrightarrow>
                (case plan of None \<Rightarrow> True | Some ws \<Rightarrow> \<not> list_all (fits num est before) ws)
                \<and> (\<forall>k. given_back num est (before k) (after k)))"
proof -
  define V where "V = (\<lambda>k. counter_value (ui_now io) k (uw_counters w))"
  have b: "counter_value (ui_now io) k cs = (if k \<in> fst ` set ws
      then rn_incr (ue_numbers env) (V k) (rn_decimal (ue_numbers env) est) else V k)"
    if bk: "booked (ue_numbers env) (ui_now io) est V (est_of est ws) cs" for ws k cs
  proof (cases "k \<in> fst ` set ws")
    case True
    then have "(k, est) \<in> set (est_of est ws)" by (force simp: est_of_def)
    from counter_value_booked [OF bk this] True show ?thesis by simp
  qed (use bk in \<open>simp add: booked_def\<close>)
  obtain outcome w' where run: "check_budget env io wallet est tenant w = (outcome, w')" by fastforce
  note spec = check_budget_outcome [OF assms, where w = w and wallet = wallet and tenant = tenant and est = est,
      folded V_def, unfolded run]
  show ?thesis
  proof (cases outcome)
    case (Inl e)
    with spec show ?thesis by (auto simp: run V_def plan_fits_def all_given_back_def split: option.splits)
  next
    case (Inr r)
    with spec obtain ws where ws: "budget_plan env io wallet tenant (uw_cache w) = Some ws"
      "list_all (fits (ue_numbers env) est V) ws" "br_committed r = est_of est ws"
      and bk: "booked (ue_numbers env) (ui_now io) est V (est_of est ws) (uw_counters w')" by auto
    from bk have "distinct (map fst ws)" by (simp add: booked_def)
    with Inr ws show ?thesis by (simp add: run V_def b [OF bk, unfolded V_def] est_of_def)
  qed
qed

text \<open>
  An abandoned request gives its budget back: when the store answers, releasing the reservation of an
  admitted request within the two hours the shortest counter is kept takes the estimate back from
  every counter it had been booked on, also when the hour, the day or the month has changed in
  between: the counter holds its value of before, with the estimate added and its negation added.
\<close>
theorem release_restores_budget:
  assumes "periods_ok (ue_periods env) (ui_now io)"
    and "ue_redis env" "ui_connect io" "ui_connect io'" "counter_wires_ok io'"
    and run: "check_budget env io wallet est tenant w = (Inr r, w')"
    and "ui_now io \<le> ui_now io'" "ui_now io' < ui_now io + 7200"
  shows "list_all (\<lambda>(k, _). counter_value (ui_now io') k (uw_counters (release_reservation env io' r w'))
      = rn_incr (ue_numbers env) (rn_incr (ue_numbers env) (counter_value (ui_now io) k (uw_counters w))
          (rn_decimal (ue_numbers env) est)) (rn_decimal (ue_numbers env) (f64_neg est))) (br_committed r)"
proof -
  have bk: "booked (ue_numbers env) (ui_now io) est (\<lambda>k. counter_value (ui_now io) k (uw_counters w))
      (br_committed r) (uw_counters w')"
    using check_budget_outcome [OF assms(1-3), where w = w and wallet = wallet and tenant = tenant and est = est] run
    by simp
  have d: "distinct (map fst (br_committed r))" by (rule check_budget_distinct [OF assms(1) run])
  have "counter_value (ui_now io') k (uw_counters (release_reservation env io' r w'))
      = rn_incr (ue_numbers env) (rn_incr (ue_numbers env) (counter_value (ui_now io) k (uw_counters w))
          (rn_decimal (ue_numbers env) est)) (rn_decimal (ue_numbers env) (f64_neg est))"
    if m: "(k, a) \<in> set (br_committed r)" for k a
  proof -
    have "a = est" using m bk by (auto simp: booked_def)
    then have "map_of (br_committed r) k = Some est" using m d by simp
    with counter_value_booked [OF bk m assms(7,8)] show ?thesis
      by (simp add: release_value [OF assms(2,4,5) d])
  qed
  then show ?thesis by (auto simp: list_all_iff)
qed

section \<open>Witnesses, and the turn of the hour\<close>

definition demo_numbers :: redis_numbers where
  "demo_numbers = \<lparr>rn_decimal = f64_val, rn_incr = (\<lambda>v a. v + a)\<rparr>"

definition demo_periods :: periods where
  "demo_periods = \<lparr>pd_hour = (\<lambda>t. if t < 3600 then ''h0'' else ''h1''), pd_day = (\<lambda>_. ''d0''), pd_month = (\<lambda>_. ''m0'')\<rparr>"

definition demo_codec :: usage_codec where
  "demo_codec = \<lparr>uc_config_text = (\<lambda>_. ''{}''), uc_config_of = (\<lambda>_. None), uc_limits_text = (\<lambda>_. ''{}''),
     uc_limits_of = (\<lambda>_. None), uc_uuid_of = (\<lambda>_. None)\<rparr>"

definition demo_budget_db :: budget_db where
  "demo_budget_db = \<lparr>bd_wallet_budgets = (\<lambda>_. Some \<lparr>bl_hourly = Some (f64_of_nat 10), bl_daily = None,
     bl_monthly = None, bc_require_tenant = False\<rparr>), bd_team_wallets = (\<lambda>_. None),
     bd_team_budgets = (\<lambda>_. None), bd_tenant_budgets = (\<lambda>_ _. None)\<rparr>"

definition demo_usage_env :: usage_env where
  "demo_usage_env = \<lparr>ue_redis = True, ue_db = Some demo_budget_db, ue_numbers = demo_numbers,
     ue_periods = demo_periods, ue_codec = demo_codec\<rparr>"

definition demo_usage_io :: "nat \<Rightarrow> usage_io" where
  "demo_usage_io t = \<lparr>ui_now = t, ui_connect = True, ui_wire = (\<lambda>_. Rd_Ok), ui_db_fails = (\<lambda>_. False),
     ui_insert_ok = True\<rparr>"

definition demo_usage_world :: usage_world where
  "demo_usage_world = \<lparr>uw_counters = (\<lambda>_. None), uw_cache = (\<lambda>_. None), uw_spend_logs = []\<rparr>"

definition demo_entry :: "budget_reservation \<Rightarrow> f64 \<Rightarrow> f64 \<Rightarrow> spend_entry" where
  "demo_entry r est actual = \<lparr>se_wallet = ''W'', se_model = ''m'', se_provider = ''p'', se_input_tokens = 1,
     se_output_tokens = 1, se_cost_usdc = actual, se_tx_signature = None, se_request_id = None, se_session_id = None,
     se_tenant = None, se_tenant_enforced = br_tenant_enforced r, se_estimated_cost_usdc = Some est,
     se_reserved = br_reserved r, se_vendor = None, se_routing_tier = None, se_routing_score = None\<rparr>"

lemma f64_val_neg [simp]: "f64_val (f64_neg x) = - f64_val x"
  by (cases x) simp_all

lemma USDC_EPSILON_value: "USDC_EPSILON = F64_Fin False (4722366482869645 * 2 powi - 73)"
proof -
  have "f64_round False (5 / 10 ^ 7) = F64_Fin False (of_int 4722366482869645 * 2 powi - 73)"
    by (rule f64_round_evalI) (simp_all add: power_int_minus abs_less_iff field_simps)
  then show ?thesis by (simp add: USDC_EPSILON_def)
qed

lemma limit_10: "f64_add (F64_Fin False 10) USDC_EPSILON = F64_Fin False (5629499815688097 * 2 powi - 49)"
proof -
  have "f64_round False (10 + 4722366482869645 * 2 powi - 73) = F64_Fin False (of_int 5629499815688097 * 2 powi - 49)"
    by (rule f64_round_evalI) (simp_all add: power_int_minus abs_less_iff field_simps)
  then show ?thesis by (simp add: USDC_EPSILON_value)
qed

lemma limit_100: "f64_add (F64_Fin False 100) USDC_EPSILON = F64_Fin False (7036874452950772 * 2 powi - 46)"
proof -
  have "f64_round False (100 + 4722366482869645 * 2 powi - 73) = F64_Fin False (of_int 7036874452950772 * 2 powi - 46)"
    by (rule f64_round_evalI) (simp_all add: power_int_minus abs_less_iff field_simps)
  then show ?thesis by (simp add: USDC_EPSILON_value)
qed

lemma f64_of_rat_nat: "n < 2 ^ 53 \<Longrightarrow> f64_of_rat (of_nat n) = F64_Fin False (of_nat n)"
  using f64_of_nat_exact [of n] by (simp add: f64_of_rat_def f64_of_nat_def)

lemmas demo_usage_defs = demo_usage_env_def demo_usage_io_def demo_periods_def demo_codec_def demo_budget_db_def
  demo_numbers_def

lemma demo_wires: "counter_wires_ok (demo_usage_io t)" "periods_ok (ue_periods demo_usage_env) (ui_now (demo_usage_io t))"
  by (simp_all add: counter_wires_ok_def periods_ok_def demo_usage_env_def demo_usage_io_def demo_periods_def)

lemma demo_acc [simp]: "ui_now (demo_usage_io t) = t" "ue_numbers demo_usage_env = demo_numbers"
  "rn_decimal demo_numbers = f64_val" "rn_incr demo_numbers v a = v + a"
  by (simp_all add: demo_usage_defs)

lemma demo_up: "ue_redis demo_usage_env" "ui_connect (demo_usage_io t)"
  by (simp_all add: demo_usage_defs)

lemma demo_config:
  assumes "rd ''budget_config:W'' = None \<or> rd ''budget_config:W'' = Some (''{}'', x)"
    and "rd ''team_member:W'' = None \<or> rd ''team_member:W'' = Some (''none'', y)"
  shows "budget_plan demo_usage_env (demo_usage_io t) ''W'' None rd
    = Some [(''spend:W:'' @ (if t < 3600 then ''h0'' else ''h1''), f64_of_nat 10, 7200),
            (''spend:W:d0'', f64_of_nat 100, 86400)]"
  using assms
  by (auto simp: budget_plan_def get_wallet_budget_config_def cached_text_def rd_command_def rd_get_def
      wallet_config_from_db_def team_plan_def tenant_plan_def get_team_for_wallet_def cache_put_def cache_del_def
      limited_windows_def window_keys_def List.map_filter_def wallet_base_def DEFAULT_DAILY_LIMIT_USDC_def
      demo_usage_defs split: option.splits)

lemma limit_8: "fits demo_numbers (F64_Fin False 8) (\<lambda>_. 0) (k, f64_of_nat 10, s)"
  "fits demo_numbers (F64_Fin False 8) (\<lambda>_. 0) (k, f64_of_nat 100, s)"
  using f64_of_rat_nat [of 8]
  by (simp_all add: fits_def limit_10 limit_100 demo_numbers_def f64_of_nat_exact power_int_minus)

theorem budget_check_all_or_nothing_witness:
  "\<exists>r w'. check_budget demo_usage_env (demo_usage_io 0) ''W'' (F64_Fin False 8) None demo_usage_world = (Inr r, w')
     \<and> map fst (br_committed r) = [''spend:W:h0'', ''spend:W:d0'']
     \<and> counter_value 0 ''spend:W:h0'' (uw_counters w') = 8 \<and> counter_value 0 ''spend:W:m0'' (uw_counters w') = 0"
proof -
  have v: "(\<lambda>k. counter_value 0 k (uw_counters demo_usage_world)) = (\<lambda>_. 0)"
    by (simp add: demo_usage_world_def counter_value_def live_counter_def)
  obtain out w' where run: "check_budget demo_usage_env (demo_usage_io 0) ''W'' (F64_Fin False 8) None demo_usage_world
      = (out, w')" by fastforce
  have plan: "budget_plan demo_usage_env (demo_usage_io 0) ''W'' None (uw_cache demo_usage_world)
      = Some [(''spend:W:h0'', f64_of_nat 10, 7200), (''spend:W:d0'', f64_of_nat 100, 86400)]"
    using demo_config [of "uw_cache demo_usage_world" None None 0] by (simp add: demo_usage_world_def)
  from budget_check_all_or_nothing [OF demo_wires(2) [of 0] demo_up(1) demo_up(2) [of 0], where w = demo_usage_world
      and wallet = "''W''" and est = "F64_Fin False 8" and tenant = None]
  have "(\<exists>r. out = Inr r \<and> map fst (br_committed r) = [''spend:W:h0'', ''spend:W:d0''])
    \<and> (\<lambda>k. counter_value 0 k (uw_counters w')) = (\<lambda>k. if k \<in> {''spend:W:h0'', ''spend:W:d0''} then 8 else 0)"
    using demo_wires(1) [of 0]
    by (cases out) (simp_all add: run v plan limit_8 Let_def cong: if_cong)
  then show ?thesis using run by (auto simp: fun_eq_iff)
qed

theorem release_restores_budget_witness:
  "\<exists>r w'. check_budget demo_usage_env (demo_usage_io 3599) ''W'' (F64_Fin False 8) None demo_usage_world = (Inr r, w')
     \<and> counter_value 3599 ''spend:W:h0'' (uw_counters w') = 8
     \<and> counter_value 3601 ''spend:W:h0'' (uw_counters (release_reservation demo_usage_env (demo_usage_io 3601) r w')) = 0"
proof -
  obtain out w' where run: "check_budget demo_usage_env (demo_usage_io 3599) ''W'' (F64_Fin False 8) None demo_usage_world
      = (out, w')" by fastforce
  have v: "(\<lambda>k. counter_value t k (uw_counters demo_usage_world)) = (\<lambda>_. 0)" for t
    by (simp add: demo_usage_world_def counter_value_def live_counter_def)
  have plan: "budget_plan demo_usage_env (demo_usage_io 3599) ''W'' None (uw_cache demo_usage_world)
      = Some [(''spend:W:h0'', f64_of_nat 10, 7200), (''spend:W:d0'', f64_of_nat 100, 86400)]"
    using demo_config [of "uw_cache demo_usage_world" None None 3599] by (simp add: demo_usage_world_def)
  from check_budget_outcome [OF demo_wires(2) [of 3599] demo_up(1) demo_up(2) [of 3599], where w = demo_usage_world
      and wallet = "''W''" and est = "F64_Fin False 8" and tenant = None]
  obtain r where r: "out = Inr r" "br_committed r = est_of (F64_Fin False 8)
      [(''spend:W:h0'', f64_of_nat 10, 7200), (''spend:W:d0'', f64_of_nat 100, 86400)]"
    "booked demo_numbers 3599 (F64_Fin False 8) (\<lambda>_. 0) (br_committed r) (uw_counters w')"
    using demo_wires(1) [of 3599] by (cases out) (auto simp: run plan v limit_8 plan_fits_def)
  have m: "(''spend:W:h0'', F64_Fin False 8) \<in> set (br_committed r)" by (simp add: r(2) est_of_def)
  have "counter_value 3601 ''spend:W:h0'' (uw_counters (release_reservation demo_usage_env (demo_usage_io 3601) r w'))
      = counter_value 3599 ''spend:W:h0'' (uw_counters demo_usage_world)"
    using release_restores_budget [OF demo_wires(2) [of 3599] demo_up(1) demo_up(2) [of 3599]
      demo_up(2) [of 3601] demo_wires(1) [of 3601] run [unfolded r(1)]] m
    by (simp add: list_all_iff) fastforce
  moreover have "counter_value 3599 ''spend:W:h0'' (uw_counters w') = 8"
    using counter_value_booked [OF r(3) m] by (simp add: f64_of_nat_exact)
  ultimately show ?thesis using run r(1) fun_cong [OF v] by auto
qed

lemma f64_round_nat: "n < 2 ^ 53 \<Longrightarrow> f64_round s (of_nat n) = F64_Fin s (of_nat n)"
  using f64_of_nat_exact [of n] by (auto simp: f64_of_nat_def f64_round_def split: if_splits)

definition demo_caches :: "redis \<Rightarrow> bool" where
  "demo_caches rd \<longleftrightarrow> (\<forall>s x. rd ''team_member:W'' = Some (s, x) \<longrightarrow> s = ''none'')"

lemma demo_lookups:
  assumes "demo_caches rd"
  shows "\<exists>rd'. get_wallet_budget_config demo_usage_env (demo_usage_io t) ''W'' rd
      = (\<lparr>bl_hourly = Some (f64_of_nat 10), bl_daily = Some (f64_of_nat 100), bl_monthly = None,
          bc_require_tenant = False\<rparr>, rd') \<and> demo_caches rd'"
    "\<exists>rd'. get_team_for_wallet demo_usage_env (demo_usage_io t) ''W'' rd = (Inr None, rd') \<and> demo_caches rd'"
  using assms
  by (auto simp: get_wallet_budget_config_def get_team_for_wallet_def cached_text_def rd_command_def rd_get_def
      wallet_config_from_db_def cache_put_def cache_del_def DEFAULT_DAILY_LIMIT_USDC_def demo_usage_defs demo_caches_def
      Let_def split: option.splits if_splits)

lemma demo_check:
  assumes "demo_caches (uw_cache w)" "k = ''spend:W:'' @ (if t < 3600 then ''h0'' else ''h1'')"
    and "fits demo_numbers est (\<lambda>k. counter_value t k (uw_counters w)) (k, f64_of_nat 10, 7200)"
    and "fits demo_numbers est (\<lambda>k. counter_value t k (uw_counters w)) (''spend:W:d0'', f64_of_nat 100, 86400)"
  shows "\<exists>rd. check_budget demo_usage_env (demo_usage_io t) ''W'' est None w =
    (Inr \<lparr>br_committed = [(k, est), (''spend:W:d0'', est)], br_tenant_enforced = False,
       br_reserved = \<lparr>rb_wallet = \<lparr>rw_hourly = True, rw_daily = True, rw_monthly = False\<rparr>,
         rb_tenant = no_windows, rb_team = no_windows\<rparr>\<rparr>,
     w\<lparr>uw_counters := (uw_counters w)(k \<mapsto> (counter_value t k (uw_counters w) + f64_val est, Some (t + 7200)),
         ''spend:W:d0'' \<mapsto> (counter_value t ''spend:W:d0'' (uw_counters w) + f64_val est, Some (t + 86400))),
       uw_cache := rd\<rparr>) \<and> demo_caches rd"
proof -
  obtain rd1 where 1: "get_wallet_budget_config demo_usage_env (demo_usage_io t) ''W'' (uw_cache w)
      = (\<lparr>bl_hourly = Some (f64_of_nat 10), bl_daily = Some (f64_of_nat 100), bl_monthly = None,
          bc_require_tenant = False\<rparr>, rd1)" "demo_caches rd1"
    using demo_lookups(1) [OF assms(1), of t] by blast
  obtain rd2 where 2: "get_team_for_wallet demo_usage_env (demo_usage_io t) ''W'' rd1 = (Inr None, rd2)" "demo_caches rd2"
    using demo_lookups(2) [OF 1(2), of t] by blast
  have ws: "limited_windows \<lparr>bl_hourly = Some (f64_of_nat 10), bl_daily = Some (f64_of_nat 100), bl_monthly = None,
          bc_require_tenant = False\<rparr> (window_keys (ue_periods demo_usage_env) t (wallet_base ''W''))
      = [(k, f64_of_nat 10, 7200), (''spend:W:d0'', f64_of_nat 100, 86400)]"
    by (simp add: limited_windows_def List.map_filter_def window_keys_def wallet_base_def demo_usage_defs assms(2))
  have "k \<noteq> ''spend:W:d0''" by (simp add: assms(2))
  then show ?thesis
    using 1 2 assms(3,4) demo_up(1)
    by (intro exI [of _ rd2])
      (simp add: check_budget_def ws incr_check_or_rollback_def incr_check_script_def fits_def rd_command_def
        check_team_def check_tenant_def reserved_of_def Let_def demo_usage_io_def)
qed

text \<open>
  Settling re-derives the window from the clock instead of from the reservation. A request
  reserved at the end of one hour and settled in the next takes the estimate off an hour that
  never carried it: the counter of the new hour becomes negative, and a request of 17 is admitted
  within an hour limited to 10, while the old hour keeps the full estimate.
\<close>
theorem settle_after_the_hour_lifts_limit:
  "let (out1, w1) = check_budget demo_usage_env (demo_usage_io 3599) ''W'' (F64_Fin False 8) None demo_usage_world;
       r = projr out1;
       w2 = log_spend demo_usage_env (demo_usage_io 3601) (demo_entry r (F64_Fin False 8) (F64_Fin False 1)) w1;
       (out3, w3) = check_budget demo_usage_env (demo_usage_io 3601) ''W'' (F64_Fin False 17) None w2
   in isl out1 = False \<and> counter_value 3601 ''spend:W:h0'' (uw_counters w2) = 8
      \<and> counter_value 3601 ''spend:W:h1'' (uw_counters w2) = - 7 \<and> isl out3 = False"
proof -
  let ?env = demo_usage_env
  have v0: "counter_value t k (\<lambda>_. None) = 0" for t k by (simp add: counter_value_def live_counter_def)
  have start: "uw_counters demo_usage_world = (\<lambda>_. None)" "demo_caches (uw_cache demo_usage_world)"
    by (simp_all add: demo_usage_world_def demo_caches_def)
  define r where "r = \<lparr>br_committed = [(''spend:W:h0'', F64_Fin False 8), (''spend:W:d0'', F64_Fin False 8)],
       br_tenant_enforced = False, br_reserved = \<lparr>rb_wallet = \<lparr>rw_hourly = True, rw_daily = True, rw_monthly = False\<rparr>,
         rb_tenant = no_windows, rb_team = no_windows\<rparr>\<rparr>"
  obtain w1 where 1: "check_budget ?env (demo_usage_io 3599) ''W'' (F64_Fin False 8) None demo_usage_world = (Inr r, w1)"
    and c1: "uw_counters w1 = (\<lambda>_. None)(''spend:W:h0'' \<mapsto> (8, Some 10799), ''spend:W:d0'' \<mapsto> (8, Some 89999))"
    and d1: "demo_caches (uw_cache w1)"
    using demo_check [of demo_usage_world "''spend:W:h0''" 3599 "F64_Fin False 8"] limit_8 start
    by (auto simp: v0 r_def)
  have sub: "f64_sub (F64_Fin False 1) (F64_Fin False 8) = F64_Fin True 7"
    using f64_round_nat [of 7 True] by (simp add: f64_sub_def)
  obtain rd2 where rd2: "get_team_for_wallet ?env (demo_usage_io 3601) ''W'' (uw_cache w1) = (Inr None, rd2)" "demo_caches rd2"
    using demo_lookups(2) [OF d1, of 3601] by blast
  define w2 where "w2 = log_spend ?env (demo_usage_io 3601) (demo_entry r (F64_Fin False 8) (F64_Fin False 1)) w1"
  have c2: "uw_counters w2 = (uw_counters w1)(''spend:W:h1'' \<mapsto> (- 7, Some 10801), ''spend:W:d0'' \<mapsto> (1, Some 90001),
      ''spend:W:m0'' \<mapsto> (1, Some 2682001))" and d2: "demo_caches (uw_cache w2)"
    using rd2 by (simp_all add: w2_def log_spend_def insert_spend_log_def settle_counters_def settle_family_def
        window_keys_def window_amount_def incr_and_expire_def rd_command_def demo_entry_def r_def sub c1
        wallet_base_def demo_usage_defs counter_value_def live_counter_def no_windows_def Let_def)
  have f: "fits demo_numbers (F64_Fin False 17) (\<lambda>k. counter_value 3601 k (uw_counters w2)) (''spend:W:h1'', f64_of_nat 10, 7200)"
    "fits demo_numbers (F64_Fin False 17) (\<lambda>k. counter_value 3601 k (uw_counters w2)) (''spend:W:d0'', f64_of_nat 100, 86400)"
    using f64_of_rat_nat [of 10] f64_of_rat_nat [of 18]
    by (simp_all add: fits_def c2 limit_10 limit_100 f64_of_nat_exact power_int_minus)
  obtain r3 w3 where 3: "check_budget ?env (demo_usage_io 3601) ''W'' (F64_Fin False 17) None w2 = (Inr r3, w3)"
    using demo_check [OF d2, of "''spend:W:h1''" 3601 "F64_Fin False 17"] f by auto
  show ?thesis using 1 3 by (simp add: w2_def [symmetric] c2 c1)
qed

end
