(* ===== verification/Pricing.thy ===== *)
theory Pricing
  imports Cost
begin

text \<open>
  What the pricing code guarantees: amounts survive their decimal text, the quote covers the
  bill, the fee split reconciles, and where the two conversions of an estimate disagree.
\<close>

section \<open>Decimal text\<close>

lemma is_digit_simps:
  "is_digit (CHR ''.'') = False" "is_digit (CHR ''-'') = False" "is_digit (CHR ''+'') = False"
  "\<not> is_digit (CHR ''i'')" "\<not> is_digit (CHR ''N'')"
  by (simp_all add: is_digit_def digit_value_def)

lemma digits_value_append:
  "digits_value (xs @ ys) = digits_value xs * 10 ^ length ys + digits_value ys"
proof (induction ys rule: rev_induct)
  case (snoc y ys)
  have "digits_value (zs @ [z]) = digits_value zs * 10 + the (digit_value 10 z)" for zs z
    by (simp add: digits_value_def)
  then show ?case
    using snoc by (simp flip: append_assoc)
qed (simp add: digits_value_def)

lemma length_fixed_digits [simp]: "length (fixed_digits k n) = k"
  by (induction k arbitrary: n) auto

lemma fixed_digits_digits: "list_all is_digit (fixed_digits k n)"
  by (induction k arbitrary: n) (auto simp: is_digit_def digit_value_char)

lemma digits_value_fixed: "n < 10 ^ k \<Longrightarrow> digits_value (fixed_digits k n) = n"
proof (induction k arbitrary: n)
  case (Suc k)
  then have "digits_value (fixed_digits k (n div 10)) = n div 10" by (simp add: less_mult_imp_div_less mult.commute)
  then show ?case by (simp add: digits_value_append) (simp add: digits_value_def digit_value_char)
qed (simp add: digits_value_def)

lemma nat_text_all_digits: "list_all is_digit (nat_text n)"
  using nat_text_digits [of n] by (auto simp: list_all_iff is_digit_def)

lemma digits_value_nat_text: "digits_value (nat_text n) = n"
  by (simp add: digits_value_def nat_text_value)

lemma parse_u64_digits:
  assumes "list_all is_digit ds" "ds \<noteq> []" "digits_value ds < 2 ^ 64"
  shows "parse_u64 ds = Some (of_nat (digits_value ds))"
proof -
  have "(case ds of c # cs \<Rightarrow> if c = CHR ''+'' then cs else ds | [] \<Rightarrow> ds) = ds"
    using assms(1) by (cases ds) (auto simp: is_digit_simps)
  then show ?thesis
    using assms by (auto simp: parse_u64_def Let_def digits_value_def list_all_iff is_digit_def)
qed

lemma takeWhile_digits:
  "list_all is_digit ds \<Longrightarrow> \<not> is_digit c \<Longrightarrow>
   takeWhile is_digit (ds @ c # r) = ds \<and> dropWhile is_digit (ds @ c # r) = c # r"
  by (induction ds) auto

lemma takeWhile_digits_all:
  "list_all is_digit ds \<Longrightarrow> takeWhile is_digit ds = ds \<and> dropWhile is_digit ds = []"
  by (induction ds) auto

lemma takeWhile_point:
  "list_all is_digit ds \<Longrightarrow>
   takeWhile (\<lambda>c. c \<noteq> CHR ''.'') (ds @ ''.'' @ r) = ds
   \<and> dropWhile (\<lambda>c. c \<noteq> CHR ''.'') (ds @ ''.'' @ r) = ''.'' @ r"
  by (induction ds) (auto simp: is_digit_simps)

lemma printable_digit: "is_digit c \<Longrightarrow> printable c"
  by (auto simp: is_digit_def digit_value_def printable_def Let_def split: if_splits)

lemma micros_text_ends:
  "micros_text n \<noteq> []" "printable (hd (micros_text n))"
  "printable (last (micros_text n))"
proof -
  have d: "list_all is_digit (nat_text m)" for m by (rule nat_text_all_digits)
  show "micros_text n \<noteq> []" by (simp add: micros_text_def)
  show "printable (hd (micros_text n))"
    using d [of "n div 10 ^ 6"] nat_text_not_Nil [of "n div 10 ^ 6"] unfolding micros_text_def
    by (cases "nat_text (n div 10 ^ 6)") (auto dest: printable_digit)
  have "fixed_digits 6 (n mod 10 ^ 6) \<noteq> []"
    by (metis length_0_conv length_fixed_digits zero_neq_numeral)
  then have "last (micros_text n) \<in> set (fixed_digits 6 (n mod 10 ^ 6))"
    by (simp add: micros_text_def)
  then show "printable (last (micros_text n))"
    using fixed_digits_digits [of 6 "n mod 10 ^ 6"] by (auto simp: list_all_iff dest: printable_digit)
qed

lemma trim_micros: "trim_text (micros_text n) = micros_text n"
  using micros_text_ends by (rule trim_text_id)

lemma micros_text_split:
  "takeWhile (\<lambda>c. c \<noteq> CHR ''.'') (micros_text n) = nat_text (n div 10 ^ 6)"
  "dropWhile (\<lambda>c. c \<noteq> CHR ''.'') (micros_text n) = CHR ''.'' # fixed_digits 6 (n mod 10 ^ 6)"
  using takeWhile_point [OF nat_text_all_digits, of "n div 10 ^ 6" "fixed_digits 6 (n mod 10 ^ 6)"]
  by (simp_all add: micros_text_def)

lemma usdc_atomic_micros:
  assumes "n < 2 ^ 64"
  shows "usdc_atomic_amount_checked (micros_text n) = Inr (nat_text n)"
proof -
  define w where "w = n div 10 ^ 6"
  define f where "f = n mod 10 ^ 6"
  have n: "w * 1000000 + f = n" and f: "f < 1000000" by (simp_all add: w_def f_def)
  have small: "w < 2 ^ 64" "f < 2 ^ 64" "w * 1000000 < 2 ^ 64" using n f assms by simp_all

  have pw: "parse_u64 (nat_text w) = Some (of_nat w)"
    using parse_u64_digits [OF nat_text_all_digits, of w] small(1) by (simp add: digits_value_nat_text)
  have ne: "fixed_digits 6 f \<noteq> []" by (metis length_0_conv length_fixed_digits zero_neq_numeral)
  have pf: "parse_u64 (fixed_digits 6 f) = Some (of_nat f)"
    using parse_u64_digits [OF fixed_digits_digits ne] f by (simp add: digits_value_fixed)
  have u: "unat (of_nat w :: u64) = w" "unat (of_nat f :: u64) = f"
    using small by (simp_all add: unat_of_nat)
  have m: "checked_mul_u64 (of_nat w) 1000000 = Some (of_nat (w * 1000000))"
    using small u by (simp add: checked_mul_u64_def)
  have u2: "unat (of_nat (w * 1000000) :: u64) = w * 1000000"
    using small(3) by (simp only: unat_of_nat) simp
  have "of_nat (w * 1000000) + of_nat f = (of_nat n :: u64)"
    unfolding n [symmetric] of_nat_add ..
  then have a: "checked_add_u64 (of_nat (w * 1000000)) (of_nat f) = Some (of_nat n)"
    using assms unfolding checked_add_u64_def u2 u n by simp
  have un: "unat (of_nat n :: u64) = n" using assms by (simp add: unat_of_nat)
  show ?thesis
    unfolding usdc_atomic_amount_checked_def Let_def trim_micros micros_text_split
      w_def [symmetric] f_def [symmetric]
    using m a by (simp add: micros_text_ends pw pf un)
qed

lemma usdc_atomic_micros_big:
  assumes "2 ^ 64 \<le> n" "usdc_atomic_amount_checked (micros_text n) = Inr a"
  shows False
proof -
  define w where "w = n div 10 ^ 6"
  define f where "f = n mod 10 ^ 6"
  have n: "w * 1000000 + f = n" and f: "f < 1000000" by (simp_all add: w_def f_def)
  have ne: "fixed_digits 6 f \<noteq> []" by (metis length_0_conv length_fixed_digits zero_neq_numeral)
  have pf: "parse_u64 (fixed_digits 6 f) = Some (of_nat f)"
    using parse_u64_digits [OF fixed_digits_digits ne] f by (simp add: digits_value_fixed)
  from assms(2) obtain iw where iw: "parse_u64 (nat_text w) = Some iw"
    and no: "Option.bind (checked_mul_u64 iw 1000000) (\<lambda>s. checked_add_u64 s (of_nat f)) \<noteq> None"
    unfolding usdc_atomic_amount_checked_def Let_def trim_micros micros_text_split
      w_def [symmetric] f_def [symmetric]
    by (auto simp: and_then_Inr_iff pf micros_text_ends)
  have "iw = of_nat w" "w < 2 ^ 64"
  proof -
    have plus: "(case nat_text w of c # cs \<Rightarrow> if c = CHR ''+'' then cs else nat_text w
        | [] \<Rightarrow> nat_text w) = nat_text w"
      using nat_text_all_digits [of w] by (cases "nat_text w") (auto simp: is_digit_simps)
    then show "iw = of_nat w" "w < 2 ^ 64"
      using iw by (auto simp: parse_u64_def Let_def nat_text_value split: if_splits)
  qed
  then have u: "unat iw = w" by (simp add: unat_of_nat)
  have uf: "unat (of_nat f :: u64) = f" using f by (simp add: unat_of_nat)
  from no obtain s where s: "checked_mul_u64 iw 1000000 = Some s"
    and add: "checked_add_u64 s (of_nat f) \<noteq> None"
    by (cases "checked_mul_u64 iw 1000000") auto
  from s have small: "w * 1000000 < 2 ^ 64" and "s = of_nat (w * 1000000)"
    using u \<open>iw = of_nat w\<close> by (auto simp: checked_mul_u64_def split: if_splits)
  then have "unat s = w * 1000000" by (simp only: unat_of_nat) simp
  with add uf have "w * 1000000 + f < 2 ^ 64" by (auto simp: checked_add_u64_def split: if_splits)
  with assms(1) n show False by simp
qed

lemma usdc_minus_rejected: "\<exists>e. usdc_atomic_amount_checked (CHR ''-'' # micros_text n) = Inl e"
proof -
  have "trim_text (CHR ''-'' # micros_text n) = CHR ''-'' # micros_text n"
    using micros_text_ends [of n] by (intro trim_text_id) (simp_all add: printable_def)
  moreover have "parse_u64 (CHR ''-'' # nat_text m) = None" for m
    by (simp add: parse_u64_def digit_value_def)
  ultimately show ?thesis
    by (simp add: usdc_atomic_amount_checked_def Let_def micros_text_split)
qed

lemma fmt6_quoted:
  assumes "usdc_atomic_amount_checked (fmt6 x) = Inr a"
  obtains q where "x = F64_Fin False q" "a = nat_text (nat (round_half_even (q * 10 ^ 6)))"
    "nat (round_half_even (q * 10 ^ 6)) < 2 ^ 64"
proof (cases x)
  case F64_NaN
  with assms show ?thesis
    by (simp add: usdc_atomic_amount_checked_def trim_text_id printable_def parse_u64_def
        digit_value_def Let_def)
next
  case (F64_Inf s)
  with assms show ?thesis
    by (cases s) (simp_all add: usdc_atomic_amount_checked_def trim_text_id printable_def
        parse_u64_def digit_value_def Let_def)
next
  case (F64_Fin s q)
  define n where "n = nat (round_half_even (q * 10 ^ 6))"
  have x: "fmt6 x = (if s then ''-'' else '''') @ micros_text n"
    by (simp add: F64_Fin n_def)
  have "\<not> s" using assms usdc_minus_rejected [of n] by (auto simp: x)
  with assms x have u: "usdc_atomic_amount_checked (micros_text n) = Inr a" by simp
  then have "n < 2 ^ 64" using usdc_atomic_micros_big [of n a] by force
  moreover from this u have "a = nat_text n" by (simp add: usdc_atomic_micros)
  ultimately show ?thesis using that F64_Fin \<open>\<not> s\<close> unfolding n_def by blast
qed

lemma parse_f64_micros: "parse_f64 (micros_text n) = Some (f64_round False (of_nat n / 10 ^ 6))"
proof -
  define w where "w = n div 10 ^ 6"
  define f where "f = n mod 10 ^ 6"
  have t: "micros_text n = nat_text w @ CHR ''.'' # fixed_digits 6 f"
    by (simp add: micros_text_def w_def f_def)
  have sign: "(case micros_text n of c # r \<Rightarrow> if c = CHR ''-'' then (True, r)
      else if c = CHR ''+'' then (False, r) else (False, micros_text n)
      | [] \<Rightarrow> (False, micros_text n)) = (False, micros_text n)"
    using nat_text_all_digits [of w] unfolding t
    by (cases "nat_text w") (auto simp: is_digit_simps)
  have split: "takeWhile is_digit (micros_text n) = nat_text w"
    "dropWhile is_digit (micros_text n) = CHR ''.'' # fixed_digits 6 f"
    using takeWhile_digits [OF nat_text_all_digits, of "CHR ''.''" w] by (simp_all add: t is_digit_simps)
  have frac: "takeWhile is_digit (fixed_digits 6 f) = fixed_digits 6 f"
    "dropWhile is_digit (fixed_digits 6 f) = []"
    using takeWhile_digits_all [OF fixed_digits_digits] by simp_all
  have "f < 10 ^ 6" by (simp add: f_def)
  then have v: "digits_value (nat_text w @ fixed_digits 6 f) = n"
    unfolding digits_value_append digits_value_nat_text
    by (simp add: digits_value_fixed) (simp add: w_def f_def)
  have "10 powi (0 - int (length (fixed_digits 6 f))) = 1 / (10 :: rat) ^ 6"
    by (simp add: power_int_minus inverse_eq_divide)
  then have rnd: "f64_round False (of_nat n * 10 powi (0 - int (length (fixed_digits 6 f))))
      = f64_round False (of_nat n / 10 ^ 6)" by simp
  have ne: "nat_text w @ fixed_digits 6 f \<noteq> []" by simp
  show ?thesis
    unfolding parse_f64_def sign Let_def prod.case split list.case frac
    using ne by (simp add: v parse_exponent_def rnd [simplified])
qed

section \<open>The quote covers the bill\<close>

text \<open>A price the estimate can handle without leaving the normal range: zero, or between
  \<open>2^-64\<close> and \<open>2^64\<close> USDC per million tokens.\<close>

fun sane_price :: "f64 \<Rightarrow> bool" where
  "sane_price (F64_Fin s q) \<longleftrightarrow> \<not> s \<and> (q = 0 \<or> 1 / 2 ^ 64 \<le> q \<and> q \<le> 2 ^ 64)"
| "sane_price _ \<longleftrightarrow> False"

fun price_rat :: "f64 \<Rightarrow> rat" where
  "price_rat (F64_Fin s q) = q"
| "price_rat _ = 0"

lemma sane_price_nonneg: "sane_price p \<Longrightarrow> 0 \<le> price_rat p"
  by (cases p) (auto intro: order_trans [rotated])

abbreviation lo_factor :: rat where "lo_factor \<equiv> 1 - f64_eps"
abbreviation hi_factor :: rat where "hi_factor \<equiv> 1 + f64_eps"

lemma eps_bounds:
  "0 < f64_eps" "f64_eps < 1 / 100" "0 \<le> lo_factor" "99 / 100 \<le> lo_factor" "0 \<le> hi_factor"
  "hi_factor \<le> 2"
  by (simp_all add: f64_eps_def)

lemma f64_normalI: "1 / 2 ^ 1000 \<le> q \<Longrightarrow> f64_normal q"
  by (simp add: f64_normal_def)

text \<open>One rounding of a value that is known to lie between two bounds.\<close>

lemma rounded_between:
  assumes "f64_normal x" "x \<le> 2 ^ 1000" "lo \<le> x" "x \<le> hi"
  obtains v where "f64_round s x = F64_Fin s v" "lo * lo_factor \<le> v" "v \<le> hi * hi_factor"
proof
  note r = round_mag_rel [OF assms(1)]
  show "f64_round s x = F64_Fin s (round_mag x)" using assms(1,2) by (rule f64_round_finite)
  show "lo * lo_factor \<le> round_mag x"
    using assms(3) eps_bounds by (intro order_trans [OF mult_right_mono r(1)]) auto
  show "round_mag x \<le> hi * hi_factor"
    using assms(4) eps_bounds by (intro order_trans [OF r(2) mult_right_mono]) auto
qed

text \<open>A non-negative value is zero or at least \<open>lo\<close>, and at most \<open>hi\<close>.\<close>

definition in_scale :: "rat \<Rightarrow> rat \<Rightarrow> rat \<Rightarrow> bool" where
  "in_scale lo hi v \<longleftrightarrow> v = 0 \<or> lo \<le> v \<and> v \<le> hi"

text \<open>The floating-point value \<open>x\<close> approximates \<open>r\<close> with \<open>n\<close> roundings.\<close>

definition approximates :: "nat \<Rightarrow> rat \<Rightarrow> f64 \<Rightarrow> bool" where
  "approximates n r x \<longleftrightarrow> (\<exists>v. x = F64_Fin False v \<and> r * lo_factor ^ n \<le> v \<and> v \<le> r * hi_factor ^ n)"

lemma approximates_round:
  assumes "in_scale (1 / 2 ^ 900) (2 ^ 900) x" "r * lo_factor ^ n \<le> x" "x \<le> r * hi_factor ^ n"
  shows "approximates (Suc n) r (f64_round False x)"
proof -
  have "f64_normal x" "x \<le> 2 ^ 1000"
  proof -
    have "(1 / 2 ^ 1000 :: rat) \<le> 1 / 2 ^ 900" "(2 ^ 900 :: rat) \<le> 2 ^ 1000" by simp_all
    with assms(1) show "f64_normal x" "x \<le> 2 ^ 1000"
      unfolding in_scale_def f64_normal_def by (metis order_trans zero_le_numeral zero_le_power)+
  qed
  then obtain v where "f64_round False x = F64_Fin False v" "r * lo_factor ^ n * lo_factor \<le> v"
    "v \<le> r * hi_factor ^ n * hi_factor"
    using rounded_between assms(2,3) by blast
  then show ?thesis by (auto simp: approximates_def ac_simps)
qed

lemma lo_power: "n \<le> 8 \<Longrightarrow> 1 / 2 \<le> lo_factor ^ n"
proof -
  assume "n \<le> 8"
  then have "lo_factor ^ 8 \<le> lo_factor ^ n" using eps_bounds by (intro power_decreasing) auto
  moreover have "1 / 2 \<le> lo_factor ^ 8" by (simp add: f64_eps_def power_divide)
  ultimately show "1 / 2 \<le> lo_factor ^ n" by (rule order_trans [rotated])
qed

lemma hi_power: "n \<le> 8 \<Longrightarrow> hi_factor ^ n \<le> 2"
proof -
  assume "n \<le> 8"
  then have "hi_factor ^ n \<le> hi_factor ^ 8" using eps_bounds by (intro power_increasing) auto
  moreover have "hi_factor ^ 8 \<le> 2" by (simp add: f64_eps_def power_divide)
  ultimately show "hi_factor ^ n \<le> 2" by (rule order_trans)
qed

lemma approximates_scale:
  assumes "approximates n r x" "n \<le> 8" "in_scale a b r" "0 < a"
  obtains v where "x = F64_Fin False v" "r * lo_factor ^ n \<le> v" "v \<le> r * hi_factor ^ n"
    "in_scale (a / 2) (b * 2) v" "0 \<le> v"
proof -
  obtain v where v: "x = F64_Fin False v" "r * lo_factor ^ n \<le> v" "v \<le> r * hi_factor ^ n"
    using assms(1) by (auto simp: approximates_def)
  show thesis
  proof (cases "r = 0")
    case True
    with v have "v = 0" by simp
    with v show thesis by (intro that [of v]) (simp_all add: in_scale_def)
  next
    case False
    with assms(3) have r: "a \<le> r" "r \<le> b" by (simp_all add: in_scale_def)
    have "a * (1 / 2) \<le> r * lo_factor ^ n"
      using r assms(4) lo_power [OF assms(2)] by (intro mult_mono) auto
    moreover have "r * hi_factor ^ n \<le> b * 2"
      using r assms(4) hi_power [OF assms(2)] eps_bounds by (intro mult_mono) auto
    ultimately have "a / 2 \<le> v" "v \<le> b * 2" using v by simp_all
    with v assms(4) show thesis by (intro that [of v]) (simp_all add: in_scale_def)
  qed
qed

lemma in_scale_mult:
  "in_scale a b x \<Longrightarrow> in_scale c d y \<Longrightarrow> 0 < a \<Longrightarrow> 0 < c \<Longrightarrow> in_scale (a * c) (b * d) (x * y)"
  unfolding in_scale_def by (auto intro!: mult_mono)

lemma in_scale_add:
  "in_scale a b x \<Longrightarrow> in_scale a b y \<Longrightarrow> 0 < a \<Longrightarrow> in_scale a (b + b) (x + y)"
  unfolding in_scale_def by (auto intro: add_mono)

lemma in_scale_weaken: "in_scale a b x \<Longrightarrow> c \<le> a \<Longrightarrow> b \<le> d \<Longrightarrow> in_scale c d x"
  unfolding in_scale_def by auto

abbreviation moderate :: "rat \<Rightarrow> bool" where
  "moderate r \<equiv> in_scale (1 / 2 ^ 200) (2 ^ 200) r"

lemma approximates_mul:
  assumes "approximates n r x" "approximates m w y" "n + m \<le> 8" "moderate r" "moderate w"
  shows "approximates (Suc (n + m)) (r * w) (f64_mul x y)"
proof -
  obtain v where v: "x = F64_Fin False v" "r * lo_factor ^ n \<le> v" "v \<le> r * hi_factor ^ n"
    "in_scale (1 / 2 ^ 200 / 2) (2 ^ 200 * 2) v" "0 \<le> v"
    using approximates_scale [OF assms(1) _ assms(4)] assms(3) by auto
  obtain u where u: "y = F64_Fin False u" "w * lo_factor ^ m \<le> u" "u \<le> w * hi_factor ^ m"
    "in_scale (1 / 2 ^ 200 / 2) (2 ^ 200 * 2) u" "0 \<le> u"
    using approximates_scale [OF assms(2) _ assms(5)] assms(3) by auto
  have rw: "0 \<le> r" "0 \<le> w"
    using assms(4,5) unfolding in_scale_def by (auto intro: order_trans [rotated])
  have "in_scale (1 / 2 ^ 900) (2 ^ 900) (v * u)"
    by (rule in_scale_weaken [OF in_scale_mult [OF v(4) u(4)]]) simp_all
  moreover have "r * w * lo_factor ^ (n + m) \<le> v * u"
  proof -
    have "r * lo_factor ^ n * (w * lo_factor ^ m) \<le> v * u"
      using v u rw eps_bounds by (intro mult_mono) auto
    then show ?thesis by (simp add: power_add ac_simps)
  qed
  moreover have "v * u \<le> r * w * hi_factor ^ (n + m)"
  proof -
    have "v * u \<le> r * hi_factor ^ n * (w * hi_factor ^ m)"
      using v u rw eps_bounds by (intro mult_mono) auto
    then show ?thesis by (simp add: power_add ac_simps)
  qed
  ultimately show ?thesis by (simp add: v(1) u(1) approximates_round)
qed

lemma approximates_add:
  assumes "approximates n r x" "approximates n w y" "n \<le> 8" "moderate r" "moderate w"
  shows "approximates (Suc n) (r + w) (f64_add x y)"
proof -
  obtain v where v: "x = F64_Fin False v" "r * lo_factor ^ n \<le> v" "v \<le> r * hi_factor ^ n"
    "in_scale (1 / 2 ^ 200 / 2) (2 ^ 200 * 2) v" "0 \<le> v"
    using approximates_scale [OF assms(1,3,4)] by auto
  obtain u where u: "y = F64_Fin False u" "w * lo_factor ^ n \<le> u" "u \<le> w * hi_factor ^ n"
    "in_scale (1 / 2 ^ 200 / 2) (2 ^ 200 * 2) u" "0 \<le> u"
    using approximates_scale [OF assms(2,3,5)] by auto
  have s: "in_scale (1 / 2 ^ 900) (2 ^ 900) (v + u)"
    by (rule in_scale_weaken [OF in_scale_add [OF v(4) u(4)]]) simp_all
  have "approximates (Suc n) (r + w) (f64_round False (v + u))"
    using s v u by (intro approximates_round) (simp_all add: distrib_right add_mono)
  moreover have "f64_add x y = f64_round False (v + u)"
    using v(1,5) u(1,5) by (auto simp: Let_def)
  ultimately show ?thesis by simp
qed

lemma approximates_div:
  assumes "a < 2 ^ 53" "b < 2 ^ 53" "0 < b"
  shows "approximates 1 (of_nat a / of_nat b) (f64_div (f64_of_nat a) (f64_of_nat b))"
proof -
  have "in_scale (1 / 2 ^ 900) (2 ^ 900) (of_nat a / of_nat b :: rat)"
  proof (cases "a = 0")
    case False
    have "(of_nat b :: rat) \<le> of_nat (2 ^ 53)" "(of_nat a :: rat) \<le> of_nat (2 ^ 53)"
      using assms unfolding of_nat_le_iff by simp_all
    then have "1 / 2 ^ 53 \<le> (of_nat a / of_nat b :: rat)" "(of_nat a / of_nat b :: rat) \<le> 2 ^ 53 / 1"
      using False assms(3) by (intro frac_le; simp)+
    then have "in_scale (1 / 2 ^ 53) (2 ^ 53) (of_nat a / of_nat b :: rat)"
      by (simp add: in_scale_def)
    then show ?thesis by (rule in_scale_weaken) simp_all
  qed (simp add: in_scale_def)
  then have "approximates (Suc 0) (of_nat a / of_nat b) (f64_round False (of_nat a / of_nat b))"
    by (intro approximates_round) simp_all
  with assms show ?thesis by (simp add: f64_of_nat_exact)
qed

lemma approximates_exact: "f64_of_nat n = F64_Fin False q \<Longrightarrow> approximates 0 q (f64_of_nat n)"
  by (simp add: approximates_def)

lemma approximates_weaken:
  assumes "approximates n r x" "n \<le> m" "0 \<le> r"
  shows "approximates m r x"
proof -
  have "lo_factor ^ m \<le> lo_factor ^ n" "hi_factor ^ n \<le> hi_factor ^ m"
    using assms(2) eps_bounds by (auto intro: power_decreasing power_increasing)
  then have "r * lo_factor ^ m \<le> r * lo_factor ^ n" "r * hi_factor ^ n \<le> r * hi_factor ^ m"
    using assms(3) by (auto intro: mult_left_mono)
  with assms(1) show ?thesis unfolding approximates_def by (auto intro: order_trans)
qed

lemma moderateI: "r = 0 \<or> 1 / 2 ^ 150 \<le> r \<and> r \<le> 2 ^ 150 \<Longrightarrow> moderate r"
  by (rule in_scale_weaken [of "1 / 2 ^ 150" "2 ^ 150"]) (simp_all add: in_scale_def)

lemma nat_scale: "of_nat n = (0 :: rat) \<or> 1 \<le> (of_nat n :: rat)"
  by (cases n) simp_all

lemma token_cost_approx:
  assumes "sane_price p"
  shows "approximates 2 (of_nat (unat t) / 10 ^ 6 * price_rat p) (token_cost t p)"
    and "in_scale (1 / 2 ^ 84) (2 ^ 96) (of_nat (unat t) / 10 ^ 6 * price_rat p)"
proof -
  obtain q where p: "p = F64_Fin False q" and q: "in_scale (1 / 2 ^ 64) (2 ^ 64) q"
    using assms by (cases p) (auto simp: in_scale_def)
  have t: "unat t < 2 ^ 32" using unsigned_less [of t, where ?'a = nat] by simp
  have "(of_nat (unat t) :: rat) \<le> of_nat (2 ^ 32)" using t unfolding of_nat_le_iff by simp
  then have s: "in_scale (1 / 2 ^ 20) (2 ^ 32) (of_nat (unat t) / 10 ^ 6 :: rat)"
    using nat_scale [of "unat t"] unfolding in_scale_def by auto
  have m: "in_scale (1 / 2 ^ 20 * (1 / 2 ^ 64)) (2 ^ 32 * 2 ^ 64) (of_nat (unat t) / 10 ^ 6 * q)"
    using s q by (rule in_scale_mult) simp_all
  then show "in_scale (1 / 2 ^ 84) (2 ^ 96) (of_nat (unat t) / 10 ^ 6 * price_rat p)"
    by (simp add: p)
  have "approximates 1 (of_nat (unat t) / 10 ^ 6) (f64_div (f64_of_nat (unat t)) (f64_of_nat 1000000))"
    using approximates_div [of "unat t" 1000000] t by simp
  moreover have "approximates 0 q p" by (simp add: p approximates_def)
  ultimately have "approximates (Suc (1 + 0)) (of_nat (unat t) / 10 ^ 6 * q) (token_cost t p)"
    unfolding token_cost_def
    using in_scale_weaken [OF s, of "1 / 2 ^ 200" "2 ^ 200"]
      in_scale_weaken [OF q, of "1 / 2 ^ 200" "2 ^ 200"]
    by (intro approximates_mul) simp_all
  then show "approximates 2 (of_nat (unat t) / 10 ^ 6 * price_rat p) (token_cost t p)"
    by (simp add: p numeral_2_eq_2)
qed

lemma fee_multiplier_approx:
  "approximates 2 (1 + of_nat (unat fee) / 100) (platform_fee_multiplier fee)"
  "moderate (1 + of_nat (unat fee) / 100)"
proof -
  have f: "unat fee < 256" using unsigned_less [of fee, where ?'a = nat] by simp
  have "(of_nat (unat fee) :: rat) \<le> of_nat 256" using f unfolding of_nat_le_iff by simp
  then have hi: "(of_nat (unat fee) :: rat) \<le> 256" by simp
  then show "moderate (1 + of_nat (unat fee) / 100)"
    using nat_scale [of "unat fee"] by (intro moderateI disjI2) auto
  have "approximates 1 (of_nat (unat fee) / 100) (f64_div (f64_of_nat (unat fee)) (f64_of_nat 100))"
    using approximates_div [of "unat fee" 100] f by simp
  moreover have "approximates 1 1 (f64_of_nat 1)"
    by (rule approximates_weaken [of 0]) (simp_all add: approximates_def f64_of_nat_exact)
  moreover have "moderate (of_nat (unat fee) / 100)"
    using hi nat_scale [of "unat fee"] by (intro moderateI) auto
  moreover have "moderate 1" by (rule moderateI) simp
  ultimately have "approximates (Suc 1) (1 + of_nat (unat fee) / 100) (platform_fee_multiplier fee)"
    unfolding platform_fee_multiplier_def by (intro approximates_add) simp_all
  then show "approximates 2 (1 + of_nat (unat fee) / 100) (platform_fee_multiplier fee)"
    by (simp add: numeral_2_eq_2)
qed

text \<open>The exact price of a request in USDC.\<close>

definition exact_price :: "u8 \<Rightarrow> u32 \<Rightarrow> u32 \<Rightarrow> model_registration \<Rightarrow> rat" where
  "exact_price fee a b m =
     (of_nat (unat a) / 10 ^ 6 * price_rat (mr_input_cost_per_million m)
      + of_nat (unat b) / 10 ^ 6 * price_rat (mr_output_cost_per_million m))
     * (1 + of_nat (unat fee) / 100)"

definition sane_model :: "model_registration \<Rightarrow> bool" where
  "sane_model m \<longleftrightarrow> sane_price (mr_input_cost_per_million m) \<and> sane_price (mr_output_cost_per_million m)"

lemma estimate_total_approx:
  assumes "sane_model m"
  shows "approximates 6 (exact_price fee a b m)
    (f64_mul (f64_add (token_cost a (mr_input_cost_per_million m))
       (token_cost b (mr_output_cost_per_million m))) (platform_fee_multiplier fee))"
proof -
  note c = token_cost_approx [of "mr_input_cost_per_million m" a]
    token_cost_approx [of "mr_output_cost_per_million m" b]
  have sane: "sane_price (mr_input_cost_per_million m)" "sane_price (mr_output_cost_per_million m)"
    using assms by (simp_all add: sane_model_def)
  have "approximates 3 (of_nat (unat a) / 10 ^ 6 * price_rat (mr_input_cost_per_million m)
      + of_nat (unat b) / 10 ^ 6 * price_rat (mr_output_cost_per_million m))
    (f64_add (token_cost a (mr_input_cost_per_million m)) (token_cost b (mr_output_cost_per_million m)))"
    using approximates_add [OF c(1) [OF sane(1)] c(3) [OF sane(2)] _
        in_scale_weaken [OF c(2) [OF sane(1)]] in_scale_weaken [OF c(4) [OF sane(2)]]]
    by simp
  moreover have "moderate (of_nat (unat a) / 10 ^ 6 * price_rat (mr_input_cost_per_million m)
      + of_nat (unat b) / 10 ^ 6 * price_rat (mr_output_cost_per_million m))"
    by (rule in_scale_weaken [OF in_scale_add [OF c(2) [OF sane(1)] in_scale_weaken [OF c(4) [OF sane(2)]]]])
      simp_all
  ultimately have "approximates (Suc (3 + 2)) (exact_price fee a b m)
    (f64_mul (f64_add (token_cost a (mr_input_cost_per_million m))
       (token_cost b (mr_output_cost_per_million m))) (platform_fee_multiplier fee))"
    unfolding exact_price_def using fee_multiplier_approx [of fee] by (intro approximates_mul) simp_all
  then show ?thesis by simp
qed

lemma unat_ucast_u128 [simp]:
  "unat (ucast (x :: u64) :: u128) = unat x" "unat (ucast (t :: u32) :: u128) = unat t"
  "unat (ucast (f :: u8) :: u128) = unat f"
  by (simp_all add: unsigned_ucast_eq take_bit_nat_eq_self_iff
      unsigned_less [THEN order_less_le_trans])

lemma u64_try_from_iff: "u64_try_from x = Some w \<longleftrightarrow> unat w = unat x"
proof -
  have "unat x < 2 ^ 64 \<Longrightarrow> unat (ucast x :: u64) = unat x"
    by (simp add: unsigned_ucast_eq take_bit_nat_eq_self_iff)
  moreover have "unat w < 2 ^ 64" using unsigned_less [of w, where ?'a = nat] by simp
  ultimately show ?thesis
    by (auto simp: u64_try_from_def word_unat_eq_iff)
qed

lemma unat_mult_u128: "unat a * unat b < 2 ^ 128 \<Longrightarrow> unat (a * b :: u128) = unat a * unat b"
  by (simp add: unat_word_ariths)

lemma unat_fee_factor: "unat (100 + ucast (fee :: u8) :: u128) = 100 + unat fee"
proof -
  have "unat fee < 256" using unsigned_less [of fee, where ?'a = nat] by simp
  then show ?thesis by (simp add: unat_word_ariths)
qed

lemma fee_product_small:
  "unat (x :: u64) * (100 + unat (fee :: u8)) < 2 ^ 128" "unat (x :: u64) * 100 < 2 ^ 128"
proof -
  have "unat x < 2 ^ 64" "unat fee < 256"
    using unsigned_less [of x, where ?'a = nat] unsigned_less [of fee, where ?'a = nat] by simp_all
  then have "unat x * (100 + unat fee) \<le> 2 ^ 64 * 356" "unat x * 100 \<le> 2 ^ 64 * 356"
    by (intro mult_mono; simp)+
  then show "unat x * (100 + unat fee) < 2 ^ 128" "unat x * 100 < 2 ^ 128"
    by simp_all
qed

lemma apply_platform_fee_iff:
  "apply_platform_fee_atomic fee x = Some t \<longleftrightarrow> unat t = unat x * (100 + unat fee) div 100"
  using unat_mult_u128 [of "ucast x" "100 + ucast fee"] fee_product_small(1) [of x fee]
  unfolding apply_platform_fee_atomic_def u64_try_from_iff
  by (simp add: unat_div unat_fee_factor)

lemma atomic_price_upper:
  assumes "sane_price p"
  shows "of_nat (unat (atomic_price p)) \<le> price_rat p * 10 ^ 6 * hi_factor"
proof -
  obtain q where p: "p = F64_Fin False q" and q: "in_scale (1 / 2 ^ 64) (2 ^ 64) q"
    using assms by (cases p) (auto simp: in_scale_def)
  have "approximates (Suc (0 + 0)) (q * 10 ^ 6) (f64_mul p (f64_of_nat 1000000))"
  proof (rule approximates_mul)
    show "approximates 0 q p" by (simp add: p approximates_def)
    show "approximates 0 (10 ^ 6) (f64_of_nat 1000000)"
      by (simp add: approximates_def f64_of_nat_exact)
    show "moderate q" by (rule in_scale_weaken [OF q]) simp_all
    show "moderate (10 ^ 6)" by (rule moderateI) simp
  qed simp
  moreover have "in_scale (1 / 2 ^ 64 * 10 ^ 6) (2 ^ 64 * 10 ^ 6) (q * 10 ^ 6)"
    using q by (rule in_scale_mult) (simp_all add: in_scale_def)
  ultimately obtain v where v: "f64_mul p (f64_of_nat 1000000) = F64_Fin False v"
    "v \<le> q * 10 ^ 6 * hi_factor" "0 \<le> v"
    by (auto elim: approximates_scale)
  have "unat (atomic_price p) \<le> nat \<lfloor>v\<rfloor>"
    unfolding atomic_price_def v(1) f64_as_unsigned.simps unat_of_nat
    by (rule order_trans [OF mod_less_eq_dividend]) simp
  then have "(of_nat (unat (atomic_price p)) :: rat) \<le> of_nat (nat \<lfloor>v\<rfloor>)"
    unfolding of_nat_le_iff .
  also have "\<dots> \<le> v" using v(3) by simp
  also note v(2)
  finally show ?thesis by (simp add: p)
qed

lemma bill_le_exact:
  assumes "compute_actual_atomic_cost fee a b m = Some t"
  shows "unat t \<le> (unat a * unat (atomic_price (mr_input_cost_per_million m)) div 1000000
    + unat b * unat (atomic_price (mr_output_cost_per_million m)) div 1000000)
      * (100 + unat fee) div 100"
proof -
  let ?p = "atomic_price (mr_input_cost_per_million m)"
  let ?r = "atomic_price (mr_output_cost_per_million m)"
  have le: "unat (x * y) \<le> unat x * unat y" "unat (x + y) \<le> unat x + unat y" for x y :: u128
    by (simp_all add: unat_word_ariths)
  obtain w :: u64 where w: "unat w = unat (ucast a * ?p div 1000000 + ucast b * ?r div 1000000)"
    and t: "unat t = unat w * (100 + unat fee) div 100"
    using assms unfolding compute_actual_atomic_cost_def Let_def
    by (auto simp: bind_eq_Some_conv u64_try_from_iff apply_platform_fee_iff split: if_splits)
  have "unat w \<le> unat (ucast a * ?p div 1000000) + unat (ucast b * ?r div 1000000)"
    unfolding w by (rule le)
  also have "\<dots> \<le> unat a * unat ?p div 1000000 + unat b * unat ?r div 1000000"
    using le(1) [of "ucast a" ?p] le(1) [of "ucast b" ?r]
    by (simp add: unat_div) (intro add_mono div_le_mono; assumption)
  finally show ?thesis unfolding t by (intro div_le_mono mult_right_mono) simp_all
qed

lemma of_nat_div_le: "of_nat (k div n) \<le> (of_nat k / of_nat n :: rat)"
  by (cases "n = 0") (simp_all add: le_divide_eq flip: of_nat_mult)

lemma bill_upper:
  assumes "compute_actual_atomic_cost fee a b m = Some t" "sane_model m"
  shows "of_nat (unat t) \<le> exact_price fee a b m * 10 ^ 6 * hi_factor"
proof -
  define P where "P = unat (atomic_price (mr_input_cost_per_million m))"
  define R where "R = unat (atomic_price (mr_output_cost_per_million m))"
  define p where "p = price_rat (mr_input_cost_per_million m)"
  define r where "r = price_rat (mr_output_cost_per_million m)"
  define x :: rat where "x = of_nat (unat a)"
  define y :: rat where "y = of_nat (unat b)"
  define f :: rat where "f = of_nat (unat fee)"
  have pos: "0 \<le> x" "0 \<le> y" "0 \<le> f" unfolding x_def y_def f_def by (rule of_nat_0_le_iff)+
  have P: "of_nat P \<le> p * 10 ^ 6 * hi_factor" and R: "of_nat R \<le> r * 10 ^ 6 * hi_factor"
    unfolding P_def R_def p_def r_def
    using assms(2) by (simp_all only: sane_model_def atomic_price_upper)
  have "of_nat (unat t) \<le> (of_nat ((unat a * P div 1000000 + unat b * R div 1000000)
      * (100 + unat fee) div 100) :: rat)"
    unfolding of_nat_le_iff P_def R_def using assms(1) by (rule bill_le_exact)
  also have "\<dots> \<le> of_nat ((unat a * P div 1000000 + unat b * R div 1000000) * (100 + unat fee))
      / of_nat 100"
    by (rule of_nat_div_le)
  also have "\<dots> = (of_nat (unat a * P div 1000000) + of_nat (unat b * R div 1000000)) * (1 + f / 100)"
    by (simp add: f_def distrib_left add_divide_distrib)
  also have "\<dots> \<le> (x * of_nat P / 10 ^ 6 + y * of_nat R / 10 ^ 6) * (1 + f / 100)"
    using of_nat_div_le [of "unat a * P" 1000000] of_nat_div_le [of "unat b * R" 1000000] pos(3)
    by (intro mult_right_mono add_mono) (simp_all add: x_def y_def)
  also have "\<dots> \<le> (x * p * hi_factor + y * r * hi_factor) * (1 + f / 100)"
    using mult_left_mono [OF P pos(1)] mult_left_mono [OF R pos(2)] pos(3)
    by (intro mult_right_mono add_mono) simp_all
  also have "\<dots> = (x / 10 ^ 6 * p + y / 10 ^ 6 * r) * (1 + f / 100) * 10 ^ 6 * hi_factor"
    by (simp add: algebra_simps add_divide_distrib)
  finally show ?thesis unfolding exact_price_def x_def y_def p_def r_def f_def .
qed

lemma integer_gap:
  fixes b q :: nat and x :: rat
  assumes b: "of_nat b \<le> x * (1 + f64_eps)" "b \<le> 2 ^ 49"
    and q: "x * (1 - f64_eps) ^ 6 - 1 / 2 \<le> of_nat q" and x: "0 \<le> x"
  shows "b \<le> q"
proof (rule ccontr)
  assume "\<not> b \<le> q"
  then have "(of_nat q :: rat) \<le> of_nat b - 1" by simp
  have e: "0 \<le> f64_eps" "f64_eps \<le> 1" using eps_bounds by simp_all
  have bern: "1 - of_nat n * f64_eps \<le> (1 - f64_eps) ^ n" for n
  proof (induction n)
    case (Suc n)
    have "1 - of_nat (Suc n) * f64_eps \<le> (1 - of_nat n * f64_eps) * (1 - f64_eps)"
      using e by (simp add: algebra_simps)
    also have "\<dots> \<le> (1 - f64_eps) ^ n * (1 - f64_eps)"
      using Suc.IH e by (intro mult_right_mono) auto
    finally show ?case by (simp add: mult.commute)
  qed simp
  have "of_nat b * (1 - 7 * f64_eps) \<le> x * (1 + f64_eps) * (1 - 7 * f64_eps)"
    using b(1) eps_bounds by (intro mult_right_mono) (simp_all add: f64_eps_def)
  also have "\<dots> \<le> x * (1 - f64_eps) ^ 6"
  proof -
    have "(1 + f64_eps) * (1 - 7 * f64_eps) \<le> 1 - 6 * f64_eps" by (simp add: f64_eps_def)
    also have "\<dots> \<le> (1 - f64_eps) ^ 6" using bern [of 6] by simp
    finally have "(1 + f64_eps) * (1 - 7 * f64_eps) \<le> (1 - f64_eps) ^ 6" .
    from mult_left_mono [OF this x] show ?thesis by (simp only: mult.assoc)
  qed
  also have "\<dots> \<le> of_nat q + 1 / 2" using q by simp
  also have "\<dots> \<le> of_nat b - 1 / 2" using \<open>of_nat q \<le> of_nat b - 1\<close> by simp
  finally have "1 / 2 \<le> of_nat b * (7 * f64_eps)" by (simp add: algebra_simps)
  moreover have "of_nat b * (7 * f64_eps) \<le> 2 ^ 49 * (7 * f64_eps)"
  proof (rule mult_right_mono)
    have "of_nat b \<le> (of_nat (2 ^ 49) :: rat)" using b(2) unfolding of_nat_le_iff .
    then show "of_nat b \<le> (2 ^ 49 :: rat)" by simp
  qed (simp add: f64_eps_def)
  ultimately have "1 / 2 \<le> 2 ^ 49 * (7 * f64_eps)" by (rule order_trans)
  then show False by (simp add: f64_eps_def)
qed

lemma map_sum_Inl_only_iff: "map_sum f id r = Inr x \<longleftrightarrow> r = Inr x"
  by (cases r) auto

lemma exact_price_mono:
  assumes "sane_model m" "a \<le> a'" "b \<le> b'"
  shows "0 \<le> exact_price fee a b m" "exact_price fee a b m \<le> exact_price fee a' b' m"
proof -
  have p: "0 \<le> price_rat (mr_input_cost_per_million m)" "0 \<le> price_rat (mr_output_cost_per_million m)"
    using assms(1) by (simp_all add: sane_model_def sane_price_nonneg)
  have g: "0 \<le> (1 + of_nat (unat fee) / 100 :: rat)"
    by (intro add_nonneg_nonneg divide_nonneg_nonneg of_nat_0_le_iff) simp_all
  show "0 \<le> exact_price fee a b m"
    unfolding exact_price_def
    by (intro mult_nonneg_nonneg [OF _ g] add_nonneg_nonneg mult_nonneg_nonneg [OF _ p(1)]
        mult_nonneg_nonneg [OF _ p(2)] divide_nonneg_nonneg of_nat_0_le_iff) simp_all
  have "(of_nat (unat a) :: rat) \<le> of_nat (unat a')" "(of_nat (unat b) :: rat) \<le> of_nat (unat b')"
    using assms(2,3) unfolding of_nat_le_iff word_le_nat_alt .
  then show "exact_price fee a b m \<le> exact_price fee a' b' m"
    unfolding exact_price_def
    by (intro mult_right_mono [OF _ g] add_mono mult_right_mono [OF _ p(1)] mult_right_mono [OF _ p(2)]
        divide_right_mono) simp_all
qed

text \<open>The quote is the exact price in atomic units, rounded after six floating-point roundings.\<close>

definition quote_for :: "rat \<Rightarrow> nat \<Rightarrow> bool" where
  "quote_for x q \<longleftrightarrow> x * 10 ^ 6 * lo_factor ^ 6 - 1 / 2 \<le> of_nat q
     \<and> of_nat q \<le> x * 10 ^ 6 * hi_factor ^ 6 + 1 / 2"

lemma estimate_cost_text:
  assumes "registry_get registry model = Some m" "sane_model m"
  shows "\<exists>c q. estimate_cost fee registry model a b = Inr c \<and> cb_total c = micros_text q
    \<and> quote_for (exact_price fee a b m) q"
proof -
  obtain v where v: "f64_mul (f64_add (token_cost a (mr_input_cost_per_million m))
       (token_cost b (mr_output_cost_per_million m))) (platform_fee_multiplier fee) = F64_Fin False v"
    "exact_price fee a b m * lo_factor ^ 6 \<le> v" "v \<le> exact_price fee a b m * hi_factor ^ 6"
    using estimate_total_approx [OF assms(2), of fee a b] unfolding approximates_def by blast
  define q where "q = nat (round_half_even (v * 10 ^ 6))"
  have "0 \<le> exact_price fee a b m * lo_factor ^ 6"
    using exact_price_mono(1) [OF assms(2) order_refl order_refl] eps_bounds by (intro mult_nonneg_nonneg) auto
  then have "0 \<le> v" using v(2) by (rule order_trans)
  then have "of_nat q = (of_int (round_half_even (v * 10 ^ 6)) :: rat)"
    by (simp add: q_def round_half_even_nonneg)
  with round_half_even_error [of "v * 10 ^ 6"]
  have "v * 10 ^ 6 - 1 / 2 \<le> of_nat q" "of_nat q \<le> v * 10 ^ 6 + 1 / 2"
    unfolding abs_le_iff by linarith+
  moreover have "exact_price fee a b m * 10 ^ 6 * lo_factor ^ 6 \<le> v * 10 ^ 6"
    "v * 10 ^ 6 \<le> exact_price fee a b m * 10 ^ 6 * hi_factor ^ 6"
    using mult_right_mono [OF v(2), of "10 ^ 6"] mult_right_mono [OF v(3), of "10 ^ 6"]
    by (simp_all add: ac_simps)
  ultimately have "quote_for (exact_price fee a b m) q" unfolding quote_for_def by linarith
  moreover have "\<exists>c. estimate_cost fee registry model a b = Inr c \<and> cb_total c = micros_text q"
    using assms(1) v(1) by (simp add: estimate_cost_def Let_def q_def)
  ultimately show ?thesis by blast
qed

lemma chat_quote_amount:
  assumes "registry_get registry (rq_model req) = Some m" "sane_model m"
  shows "\<exists>q. quote_for (exact_price fee inp (completion_token_ceiling (rq_max_tokens req) m) m) q
    \<and> (q < 2 ^ 64 \<longrightarrow> chat_quote fee registry inp req m = Inr (nat_text q))
    \<and> (2 ^ 64 \<le> q \<longrightarrow> (\<exists>e. chat_quote fee registry inp req m = Inl e))"
proof -
  obtain c q where c: "estimate_cost fee registry (rq_model req) inp
      (completion_token_ceiling (rq_max_tokens req) m) = Inr c" "cb_total c = micros_text q"
    "quote_for (exact_price fee inp (completion_token_ceiling (rq_max_tokens req) m) m) q"
    using estimate_cost_text [OF assms] by metis
  have "\<exists>e. usdc_atomic_amount_checked (micros_text q) = Inl e" if "2 ^ 64 \<le> q"
    using usdc_atomic_micros_big [OF that] by (cases "usdc_atomic_amount_checked (micros_text q)") auto
  with c show ?thesis
    by (intro exI [of _ q]) (auto simp: chat_quote_def usdc_atomic_micros)
qed

section \<open>The two conversions of an estimate\<close>

lemma micros_reparsed:
  assumes "n < 2 ^ 50"
  obtains v where "f64_mul (f64_round False (of_nat n / 10 ^ 6)) (f64_of_nat 1000000) = F64_Fin False v"
    "0 \<le> v" "nat \<lfloor>v\<rfloor> \<le> n" "n \<le> nat \<lfloor>v\<rfloor> + 1"
proof -
  have n: "(of_nat n :: rat) \<le> of_nat (2 ^ 50)" using assms unfolding of_nat_le_iff by simp
  have s: "in_scale (1 / 2 ^ 20) (2 ^ 50) (of_nat n / 10 ^ 6 :: rat)"
    using n nat_scale [of n] unfolding in_scale_def by auto
  have "approximates (Suc 0) (of_nat n / 10 ^ 6) (f64_round False (of_nat n / 10 ^ 6))"
    using in_scale_weaken [OF s, of "1 / 2 ^ 900" "2 ^ 900"] by (intro approximates_round) simp_all
  moreover have "approximates 0 (10 ^ 6) (f64_of_nat 1000000)"
    by (simp add: approximates_def f64_of_nat_exact)
  ultimately have "approximates (Suc (Suc 0 + 0)) (of_nat n / 10 ^ 6 * 10 ^ 6)
      (f64_mul (f64_round False (of_nat n / 10 ^ 6)) (f64_of_nat 1000000))"
    using in_scale_weaken [OF s, of "1 / 2 ^ 200" "2 ^ 200"] moderateI [of "10 ^ 6"]
    by (intro approximates_mul) simp_all
  then obtain v where v: "f64_mul (f64_round False (of_nat n / 10 ^ 6)) (f64_of_nat 1000000) = F64_Fin False v"
    "of_nat n * lo_factor ^ 2 \<le> v" "v \<le> of_nat n * hi_factor ^ 2"
    unfolding approximates_def by (auto simp: numeral_2_eq_2)
  have e: "1 - 2 * f64_eps \<le> lo_factor ^ 2" "hi_factor ^ 2 \<le> 1 + 3 * f64_eps"
    by (simp_all add: f64_eps_def power_divide)
  have "of_nat n * (1 - 2 * f64_eps) \<le> v"
    using mult_left_mono [OF e(1) of_nat_0_le_iff, of n] v(2) by (rule order_trans)
  moreover have "v \<le> of_nat n * (1 + 3 * f64_eps)"
    using v(3) mult_left_mono [OF e(2) of_nat_0_le_iff, of n] by (rule order_trans)
  moreover have "of_nat n * (3 * f64_eps) < 1" "0 \<le> of_nat n * f64_eps"
    using mult_right_mono [OF n, of "3 * f64_eps"] by (simp_all add: f64_eps_def)
  ultimately have "of_nat n - 1 < v" "v < of_nat n + 1" by (simp_all add: algebra_simps)
  then have "nat \<lfloor>v\<rfloor> \<le> n" "n \<le> nat \<lfloor>v\<rfloor> + 1" by linarith+
  moreover have "0 \<le> v" using v(2) by (rule order_trans [rotated]) simp
  ultimately show thesis using v(1) that by blast
qed

section \<open>A concrete registry\<close>

definition demo_model :: "rat \<Rightarrow> model_registration" where
  "demo_model price =
     \<lparr>mr_id = ''demo/m'', mr_provider = ''demo'', mr_model_id = ''m'', mr_display_name = ''M'',
      mr_input_cost_per_million = F64_Fin False price, mr_output_cost_per_million = F64_Fin False 0,
      mr_context_window = 128000, mr_supports_streaming = True, mr_supports_tools = False,
      mr_supports_vision = False, mr_reasoning = False, mr_supports_structured_output = False,
      mr_supports_batch = False, mr_max_output_tokens = None\<rparr>"

definition demo_registry :: "rat \<Rightarrow> model_registry" where
  "demo_registry price = [(''demo/m'', demo_model price)]"

definition demo_request :: chat_request where
  "demo_request = \<lparr>rq_model = ''demo/m'',
     rq_messages = [\<lparr>cm_role = ''user'', cm_content = TextContent ''hi''\<rparr>],
     rq_max_tokens = None, rq_stream = False\<rparr>"

lemma demo_simps [simp]:
  "registry_get (demo_registry p) ''demo/m'' = Some (demo_model p)"
  "rq_model demo_request = ''demo/m''"
  "mr_input_cost_per_million (demo_model p) = F64_Fin False p"
  "mr_output_cost_per_million (demo_model p) = F64_Fin False 0"
  by (simp_all add: registry_get_def demo_registry_def demo_request_def demo_model_def)

lemma demo_sane: "1 \<le> p \<Longrightarrow> p \<le> 2 ^ 64 \<Longrightarrow> sane_model (demo_model p)"
  by (simp add: sane_model_def)

lemma demo_exact_price:
  "exact_price fee a b (demo_model p) = of_nat (unat a) / 10 ^ 6 * p * (1 + of_nat (unat fee) / 100)"
  by (simp add: exact_price_def)

lemma demo_estimate: "estimate_input_tokens demo_request = 1"
  by (simp add: estimate_input_tokens_def demo_request_def saturating_add_u32_def)

text \<open>A quote is determined when the exact price is not too close to a half.\<close>

lemma quote_for_unique:
  assumes "quote_for (of_nat n / 10 ^ 7) q" "n \<le> 2 ^ 40" "n mod 10 \<noteq> 5"
  shows "q = (n + 5) div 10"
proof -
  have e: "1 - 7 * f64_eps \<le> lo_factor ^ 6" "hi_factor ^ 6 \<le> 1 + 7 * f64_eps"
    by (simp_all add: f64_eps_def power_divide)
  have "(of_nat n :: rat) \<le> of_nat (2 ^ 40)" using assms(2) unfolding of_nat_le_iff .
  then have n: "of_nat n / 10 * (7 * f64_eps) \<le> (1 / 100 :: rat)"
    using mult_right_mono [of "of_nat n" "2 ^ 40" "7 * f64_eps / 10"] by (simp add: f64_eps_def)
  have x: "of_nat n / 10 ^ 7 * 10 ^ 6 = (of_nat n / 10 :: rat)" by simp
  have "of_nat n / 10 * (1 - 7 * f64_eps) - 1 / 2 \<le> of_nat q"
    using assms(1) mult_left_mono [OF e(1), of "of_nat n / 10"] unfolding quote_for_def x by simp
  moreover have "of_nat q \<le> of_nat n / 10 * (1 + 7 * f64_eps) + 1 / 2"
    using assms(1) mult_left_mono [OF e(2), of "of_nat n / 10"] unfolding quote_for_def x by simp
  ultimately have "of_nat n / 10 - 51 / 100 \<le> (of_nat q :: rat)"
    "(of_nat q :: rat) \<le> of_nat n / 10 + 51 / 100"
    using n by (simp_all add: algebra_simps add_divide_distrib)
  then have "of_nat (10 * n) \<le> (of_nat (100 * q + 51) :: rat)"
    "(of_nat (100 * q) :: rat) \<le> of_nat (10 * n + 51)"
    by simp_all
  then have "10 * n \<le> 100 * q + 51" "100 * q \<le> 10 * n + 51" unfolding of_nat_le_iff .
  moreover obtain k r where "n = 10 * k + r" "r < 10" by (metis mod_less_divisor mult_div_mod_eq zero_less_numeral)
  moreover from this assms(3) have "r \<noteq> 5" by simp
  ultimately have "n = 10 * k + r" "r < 5 \<and> q = k \<or> 5 < r \<and> r < 10 \<and> q = k + 1" by linarith+
  then show ?thesis by auto
qed

lemma demo_quote:
  assumes "1 \<le> p" "p \<le> 2 ^ 64" "of_nat (unat inp) * p * (1 + of_nat (unat fee) / 100) = of_nat n / 10"
    "n \<le> 2 ^ 40" "n mod 10 \<noteq> 5"
  shows "chat_quote fee (demo_registry p) inp demo_request (demo_model p) = Inr (nat_text ((n + 5) div 10))"
proof -
  let ?c = "completion_token_ceiling (rq_max_tokens demo_request) (demo_model p)"
  have x: "exact_price fee inp ?c (demo_model p) = of_nat n / 10 ^ 7"
    unfolding demo_exact_price using assms(3) by (simp add: field_simps)
  obtain q where q: "quote_for (of_nat n / 10 ^ 7) q"
    "q < 2 ^ 64 \<longrightarrow> chat_quote fee (demo_registry p) inp demo_request (demo_model p) = Inr (nat_text q)"
    using chat_quote_amount [OF demo_simps(1) [folded demo_simps(2)] demo_sane [OF assms(1,2)], of fee inp]
    unfolding x by blast
  from quote_for_unique [OF q(1) assms(4,5)] have "q = (n + 5) div 10" .
  with q(2) assms(4) show ?thesis by simp
qed

lemma atomic_price_nat: "n \<le> 1000 \<Longrightarrow> atomic_price (F64_Fin False (of_nat n)) = of_nat (n * 1000000)"
proof -
  assume n: "n \<le> 1000"
  have "f64_round False (of_nat (n * 1000000)) = F64_Fin False (of_nat (n * 1000000))"
    using f64_of_nat_exact [of "n * 1000000"] n by (simp add: f64_of_nat_def)
  then have "f64_mul (F64_Fin False (of_nat n)) (f64_of_nat 1000000) = F64_Fin False (of_nat (n * 1000000))"
    by (simp add: f64_of_nat_exact)
  with n show ?thesis by (simp add: atomic_price_def flip: of_nat_mult)
qed

lemma demo_bill:
  assumes "n \<le> 1000" "unat t = unat a * n * (100 + unat fee) div 100"
  shows "compute_actual_atomic_cost fee a b (demo_model (of_nat n)) = Some t"
proof -
  have "unat a < 2 ^ 32" using unsigned_less [of a, where ?'a = nat] by simp
  then have le: "unat a * n \<le> 2 ^ 32 * 1000" using assms(1) by (intro mult_mono) auto
  then have "unat a * n * 1000000 \<le> 2 ^ 32 * 1000 * 1000000" by (rule mult_right_mono) simp
  with le have small: "unat a * (n * 1000000) < 2 ^ 128" "unat a * n < 2 ^ 64"
    unfolding mult.assoc by simp_all
  have up: "unat (of_nat (n * 1000000) :: u128) = n * 1000000"
    unfolding unat_of_nat using assms(1) by (intro mod_less) simp
  have pr: "atomic_price (F64_Fin False (of_nat n)) = of_nat (n * 1000000)"
    "atomic_price (F64_Fin False 0) = 0"
    using atomic_price_nat [OF assms(1)] atomic_price_nat [of 0] by simp_all
  have "unat (ucast a * of_nat (n * 1000000) div 1000000 :: u128) = unat a * n"
    using unat_mult_u128 [of "ucast a" "of_nat (n * 1000000)"] small(1)
    by (simp only: unat_div up unat_ucast_u128) simp
  moreover define w :: u64 where "w = of_nat (unat a * n)"
  moreover have uw: "unat w = unat a * n" unfolding w_def unat_of_nat using small(2) by (intro mod_less) simp
  ultimately have w: "u64_try_from (ucast a * of_nat (n * 1000000) div 1000000) = Some w"
    by (simp only: u64_try_from_iff)
  have "apply_platform_fee_atomic fee w = Some t" using assms(2) uw by (simp add: apply_platform_fee_iff)
  then show ?thesis
    using w by (simp add: compute_actual_atomic_cost_def pr f64_of_nat_exact del: of_nat_mult)
qed


lemma demo_cap:
  "prompt_tokens (cap_usage_to_request_limits u demo_request (demo_model p)) = min (prompt_tokens u) 128000"
  "completion_tokens (cap_usage_to_request_limits u demo_request (demo_model p))
     = min (completion_tokens u) 8192"
  by (simp_all add: cap_usage_to_request_limits_def Let_def demo_request_def demo_model_def
      completion_token_ceiling_def List.map_filter_def DEFAULT_COMPLETION_TOKENS_CAP_def)

lemma nat_text_digit: "n < 10 \<Longrightarrow> nat_text n = [char_of (48 + n)]"
  by (simp add: nat_text.simps)

section \<open>Quote and bill\<close>

text \<open>
  C11. The quote of the 402 challenge covers the bill, provided that the billed prompt tokens do not
  exceed the input estimate the quote was computed for, that the model's two prices are sane, and
  that the bill is at most \<open>2 ^ 49\<close> atomic units (562 million USDC). The completion tokens
  need no such proviso, since the settlement caps them at the ceiling the quote was computed for; the
  prompt tokens it caps only at the context window, and beyond the estimate the bill may exceed the
  quote (\<open>bill_exceeds_reservation\<close>). The quote is computed in floating point and printed
  with six decimals, the bill in integers; under these provisos the rounding never costs a unit.
\<close>
theorem quote_covers_bill:
  assumes "chat_quote fee registry inp req m = Inr a" "parse_u64 a = Some quoted"
    and "registry_get registry (rq_model req) = Some m" "sane_model m"
    and "u = cap_usage_to_request_limits reported req m" "prompt_tokens u \<le> inp"
    and "compute_actual_atomic_cost fee (prompt_tokens u) (completion_tokens u) m = Some billed"
    and "unat billed \<le> 2 ^ 49"
  shows "billed \<le> quoted"
proof -
  let ?c = "completion_token_ceiling (rq_max_tokens req) m"
  let ?x = "exact_price fee inp ?c m"
  obtain q where q: "quote_for ?x q" "a = nat_text q" "q < 2 ^ 64"
  proof -
    from chat_quote_amount [OF assms(3,4), of fee inp] obtain q where "quote_for ?x q"
      and *: "q < 2 ^ 64 \<longrightarrow> chat_quote fee registry inp req m = Inr (nat_text q)"
        "2 ^ 64 \<le> q \<longrightarrow> (\<exists>e. chat_quote fee registry inp req m = Inl e)" by blast
    moreover have "q < 2 ^ 64"
    proof (rule ccontr)
      assume "\<not> q < 2 ^ 64"
      with *(2) assms(1) show False by auto
    qed
    moreover from this * assms(1) have "a = nat_text q" by auto
    ultimately show thesis using that by blast
  qed
  have c: "completion_tokens u \<le> ?c" by (simp add: assms(5) cap_usage_to_request_limits_def Let_def)
  have "of_nat (unat billed) \<le> exact_price fee (prompt_tokens u) (completion_tokens u) m * 10 ^ 6 * hi_factor"
    using assms(7,4) by (rule bill_upper)
  also have "\<dots> \<le> ?x * 10 ^ 6 * hi_factor"
    using exact_price_mono(2) [OF assms(4,6) c] eps_bounds by (intro mult_right_mono) auto
  finally have b: "of_nat (unat billed) \<le> ?x * 10 ^ 6 * hi_factor" .
  have "0 \<le> ?x * 10 ^ 6"
    using exact_price_mono(1) [OF assms(4) order_refl order_refl] by (rule mult_nonneg_nonneg) simp
  with integer_gap [OF b assms(8)] q(1) have "unat billed \<le> q" unfolding quote_for_def by blast
  moreover have "unat quoted = q"
    using assms(2) q(2,3) parse_nat_text [of "of_nat q"] by (simp add: unat_of_nat)
  ultimately show ?thesis by (simp add: word_le_nat_alt)
qed

theorem quote_covers_bill_witness:
  "chat_quote 5 (demo_registry 20) 4 demo_request (demo_model 20) = Inr (nat_text (unat (84 :: u64)))
   \<and> compute_actual_atomic_cost 5 4 10 (demo_model 20) = Some 84 \<and> (84 :: u64) \<le> 84"
proof -
  have q: "chat_quote 5 (demo_registry 20) 4 demo_request (demo_model 20) = Inr (nat_text (unat (84 :: u64)))"
    using demo_quote [of 20 4 5 840] by simp
  have b: "compute_actual_atomic_cost 5 4 10 (demo_model 20) = Some 84"
    using demo_bill [of 20 84 4 5 10] by simp

  define u where "u = cap_usage_to_request_limits (usage_new 4 10) demo_request (demo_model 20)"
  have u: "prompt_tokens u = 4" "completion_tokens u = 10"
    by (simp_all add: u_def demo_cap usage_new_def)
  then have p: "prompt_tokens u \<le> 4"
    and bu: "compute_actual_atomic_cost 5 (prompt_tokens u) (completion_tokens u) (demo_model 20) = Some 84"
    using b by simp_all
  have "(84 :: u64) \<le> 84"
    by (rule quote_covers_bill [OF q parse_nat_text _ _ u_def p bu]) (simp_all add: demo_sane)
  with q b show ?thesis by simp
qed

text \<open>
  The quote bounds the bill only through the input estimate: the settlement cap on prompt
  tokens is the model's context window, not the estimate the quote was computed for. A two-byte
  prompt is quoted at 21 atomic units, and a provider that reports 5000 prompt tokens makes the
  bill 105000, five thousand times the reservation, after every cap has been applied.
\<close>
theorem bill_exceeds_reservation:
  "chat_quote 5 (demo_registry 20) (estimate_input_tokens demo_request) demo_request (demo_model 20)
     = Inr (nat_text 21)
   \<and> (let u = cap_usage_to_request_limits (usage_new 5000 1) demo_request (demo_model 20)
      in compute_actual_atomic_cost 5 (prompt_tokens u) (completion_tokens u) (demo_model 20)
         = Some 105000)"
proof
  show "chat_quote 5 (demo_registry 20) (estimate_input_tokens demo_request) demo_request
      (demo_model 20) = Inr (nat_text 21)"
    using demo_quote [of 20 1 5 210] by (simp add: demo_estimate)
  show "let u = cap_usage_to_request_limits (usage_new 5000 1) demo_request (demo_model 20)
      in compute_actual_atomic_cost 5 (prompt_tokens u) (completion_tokens u) (demo_model 20)
         = Some 105000"
    using demo_bill [of 20 105000 5000 5 1] by (simp add: demo_cap usage_new_def)
qed

section \<open>Two conversions of one estimate\<close>

text \<open>
  The two ways the gateway turns one estimate into atomic units differ by at most one unit:
  the floating-point conversion used for streamed and usage-less responses never exceeds the
  quoted amount and is at most one atomic unit below it.
\<close>
theorem estimate_within_one_of_quote:
  assumes "estimated_atomic_cost fee registry (rq_model req) req m = Inr est"
    and "chat_quote fee registry (estimate_input_tokens req) req m = Inr a" "parse_u64 a = Some quoted"
    and "unat quoted < 2 ^ 50"
  shows "est \<le> quoted \<and> unat quoted \<le> unat est + 1"
proof -
  obtain c where c: "estimate_cost fee registry (rq_model req) (estimate_input_tokens req)
      (completion_token_ceiling (rq_max_tokens req) m) = Inr c"
    "usdc_atomic_amount_checked (cb_total c) = Inr a"
    using assms(2) by (auto simp: chat_quote_def and_then_Inr_iff map_sum_Inl_only_iff)
  obtain x where x: "cb_total c = fmt6 x"
    using c(1) by (auto simp: estimate_cost_def and_then_Inr_iff Let_def)
  obtain q where q: "x = F64_Fin False q" "a = nat_text (nat (round_half_even (q * 10 ^ 6)))"
    "nat (round_half_even (q * 10 ^ 6)) < 2 ^ 64"
    using c(2) unfolding x by (rule fmt6_quoted)
  define n where "n = nat (round_half_even (q * 10 ^ 6))"
  have un: "unat quoted = n"
    using assms(3) q(2,3) parse_nat_text [of "of_nat n"] by (simp add: unat_of_nat n_def)
  with assms(4) have "n < 2 ^ 50" by simp
  then obtain v where v: "f64_mul (f64_round False (of_nat n / 10 ^ 6)) (f64_of_nat 1000000)
      = F64_Fin False v" "0 \<le> v" "nat \<lfloor>v\<rfloor> \<le> n" "n \<le> nat \<lfloor>v\<rfloor> + 1"
    by (rule micros_reparsed)
  have "parse_f64 (cb_total c) = Some (f64_round False (of_nat n / 10 ^ 6))"
    unfolding x q(1) fmt6.simps n_def [symmetric] by (simp add: parse_f64_micros)
  then have "est = of_nat (f64_as_unsigned u64_max (F64_Fin False v))"
    using assms(1) c(1) v(1)
    by (auto simp: estimated_atomic_cost_def and_then_Inr_iff map_sum_Inl_only_iff split: if_splits)
  moreover have "nat \<lfloor>v\<rfloor> < 2 ^ 64" using v(3) \<open>n < 2 ^ 50\<close> by simp
  ultimately have "unat est = nat \<lfloor>v\<rfloor>" by (simp add: unat_of_nat)
  with v un show ?thesis by (simp add: word_le_nat_alt)
qed

lemma f64_251: "f64_round False (251 / 1000000) = F64_Fin False (4630132762501097 / 2 ^ 64)"
  using f64_round_evalI [of "- 64" "251 / 1000000" 4630132762501097 False]
  by (simp add: power_int_minus)

lemma f64_251_scaled:
  "f64_mul (F64_Fin False (4630132762501097 / 2 ^ 64)) (f64_of_nat 1000000)
   = F64_Fin False (251 - 1 / 2 ^ 45)"
  using f64_round_evalI [of "- 45" "4630132762501097 / 2 ^ 64 * 1000000" "251 * 2 ^ 45 - 1" False]
  by (simp add: f64_of_nat_exact power_int_minus)

lemma demo_estimated_251: "estimated_atomic_cost 0 (demo_registry 251) ''demo/m'' demo_request (demo_model 251) = Inr 250"
proof -
  let ?c = "completion_token_ceiling (rq_max_tokens demo_request) (demo_model 251)"
  have x: "exact_price 0 1 ?c (demo_model 251) = of_nat 2510 / 10 ^ 7"
    unfolding demo_exact_price by simp
  obtain c q where c: "estimate_cost 0 (demo_registry 251) ''demo/m'' 1 ?c = Inr c"
    "cb_total c = micros_text q" "quote_for (of_nat 2510 / 10 ^ 7) q"
    using estimate_cost_text [OF demo_simps(1) demo_sane, of 251 0 1 ?c] unfolding x by auto
  from quote_for_unique [OF c(3)] have "q = 251" by simp
  then have p: "parse_f64 (cb_total c) = Some (F64_Fin False (4630132762501097 / 2 ^ 64))"
    using c(2) f64_251 by (simp add: parse_f64_micros)
  have "\<lfloor>251 - 1 / 2 ^ 45 :: rat\<rfloor> = 250" by (simp add: floor_eq_iff)
  then have a: "f64_as_unsigned u64_max (f64_mul (F64_Fin False (4630132762501097 / 2 ^ 64))
      (f64_of_nat 1000000)) = 250"
    unfolding f64_251_scaled f64_as_unsigned.simps by simp
  show ?thesis
    using c(1) p a
    by (simp add: estimated_atomic_cost_def demo_estimate ESTIMATED_COST_MAX_USDC_def
        f64_of_nat_exact)
qed

theorem estimate_within_one_of_quote_witness:
  "chat_quote 0 (demo_registry 251) (estimate_input_tokens demo_request) demo_request (demo_model 251)
     = Inr (nat_text (unat (251 :: u64)))
   \<and> estimated_atomic_cost 0 (demo_registry 251) ''demo/m'' demo_request (demo_model 251) = Inr 250
   \<and> (250 :: u64) \<le> 251 \<and> unat (251 :: u64) \<le> unat (250 :: u64) + 1"
proof -
  have q: "chat_quote 0 (demo_registry 251) (estimate_input_tokens demo_request) demo_request
      (demo_model 251) = Inr (nat_text (unat (251 :: u64)))"
    using demo_quote [of 251 1 0 2510] by (simp add: demo_estimate)
  have e: "estimated_atomic_cost 0 (demo_registry 251) (rq_model demo_request) demo_request
      (demo_model 251) = Inr 250"
    by (simp add: demo_estimated_251)
  have "(250 :: u64) \<le> 251 \<and> unat (251 :: u64) \<le> unat (250 :: u64) + 1"
    by (rule estimate_within_one_of_quote [OF e q parse_nat_text]) simp
  with q e show ?thesis by simp
qed

text \<open>
  The two conversions do disagree: for one prompt token at 251 USDC per million the challenge
  quotes 251 atomic units, and the truncating conversion of the same printed estimate, which bills
  streamed and usage-less responses, yields 250.
\<close>
theorem estimate_truncated_below_quote:
  "chat_quote 0 (demo_registry 251) (estimate_input_tokens demo_request) demo_request (demo_model 251)
     = Inr (nat_text 251)
   \<and> estimated_atomic_cost 0 (demo_registry 251) ''demo/m'' demo_request (demo_model 251) = Inr 250"
  using demo_quote [of 251 1 0 2510] by (simp add: demo_estimate demo_estimated_251)

section \<open>Amounts as text\<close>

text \<open>
  The decimal text of an amount reads back exactly: an amount of \<open>n\<close> millionths printed with
  six decimals is converted to \<open>n\<close> atomic units when it fits 64 bits and rejected otherwise.
\<close>
theorem usdc_amount_roundtrip:
  "usdc_atomic_amount_checked (micros_text n) = Inr a \<longleftrightarrow> n < 2 ^ 64 \<and> a = nat_text n"
proof (cases "n < 2 ^ 64")
  case True
  then show ?thesis using usdc_atomic_micros [OF True] by auto
next
  case False
  then show ?thesis using usdc_atomic_micros_big [of n a] by auto
qed

lemma replicate_four: "replicate 4 x = [x, x, x, x]"
  by (simp add: eval_nat_numeral)

text \<open>
  The amount parser does not reject every malformed string: what follows the sixth decimal is
  never looked at, and each half may carry a plus sign.
\<close>
theorem amount_parser_accepts_garbage:
  "usdc_atomic_amount_checked ''1.123456junk'' = Inr (nat_text 1123456)
   \<and> usdc_atomic_amount_checked ''+1.+5'' = Inr (nat_text 1050000)"
  by (simp add: usdc_atomic_amount_checked_def trim_text_id printable_def parse_u64_def
      digit_value_def Let_def checked_mul_u64_def checked_add_u64_def replicate_four)

section \<open>Platform fee\<close>

lemma split_total_unat:
  "unat (fst (split_total_atomic fee amount)) = unat amount * 100 div (100 + unat fee)"
  "unat (fst (split_total_atomic fee amount)) \<le> unat amount"
proof -
  have le: "unat amount * 100 div (100 + unat fee) \<le> unat amount"
    by (rule order_trans [OF div_le_mono2 [of 100 "100 + unat fee"]]) simp_all
  moreover have "unat amount < 2 ^ 64" using unsigned_less [of amount, where ?'a = nat] by simp
  ultimately have lt: "unat amount * 100 div (100 + unat fee) < 2 ^ 64" by (rule order_le_less_trans)
  have "unat ((ucast amount :: u128) * 100 div (100 + ucast fee)) = unat amount * 100 div (100 + unat fee)"
    using unat_mult_u128 [of "ucast amount" 100] fee_product_small(2) [of amount]
    by (simp add: unat_div unat_fee_factor)
  with lt show "unat (fst (split_total_atomic fee amount)) = unat amount * 100 div (100 + unat fee)"
    by (simp add: split_total_atomic_def Let_def unsigned_ucast_eq take_bit_nat_eq_self_iff)
  with le show "unat (fst (split_total_atomic fee amount)) \<le> unat amount" by simp
qed

lemma fee_split_nat:
  fixes p f :: nat
  defines "t \<equiv> p * (100 + f) div 100"
  shows "t * 100 div (100 + f) \<le> p" "p \<le> t * 100 div (100 + f) + 1"
proof -
  have "t * 100 \<le> p * (100 + f)" by (simp add: t_def)
  then show "t * 100 div (100 + f) \<le> p" using div_le_mono [of "t * 100" "p * (100 + f)" "100 + f"] by simp
  have "p * (100 + f) < t * 100 + 100"
    unfolding t_def using div_mult_mod_eq [of "p * (100 + f)" 100] mod_less_divisor [of 100 "p * (100 + f)"]
    by linarith
  then have "p * (100 + f) \<le> t * 100 + (100 + f)" by simp
  then have "p * (100 + f) div (100 + f) \<le> (t * 100 + (100 + f)) div (100 + f)" by (rule div_le_mono)
  then show "p \<le> t * 100 div (100 + f) + 1" by simp
qed

text \<open>
  The fee split reconciles with the total it splits: provider and fee always add up to it, and
  splitting a total obtained by adding the fee gives the provider amount back up to one atomic
  unit, exactly when the fee divides evenly.
\<close>
theorem fee_split_reconciles:
  "case split_total_atomic fee amount of (provider, fee_part) \<Rightarrow>
     unat provider + unat fee_part = unat amount
     \<and> (case apply_platform_fee_atomic fee p of None \<Rightarrow> True | Some t \<Rightarrow>
          (let provider_back = fst (split_total_atomic fee t) in
           unat provider_back \<le> unat p
           \<and> unat p \<le> unat provider_back + (if unat p * (100 + unat fee) mod 100 = 0 then 0 else 1)))"
proof -
  have sum: "unat (fst (split_total_atomic fee amount)) + unat (snd (split_total_atomic fee amount)) = unat amount"
    using split_total_unat(2) [of fee amount]
    by (simp add: split_total_atomic_def Let_def unat_sub_if' word_le_nat_alt)
  have returned: "unat (fst (split_total_atomic fee t)) \<le> unat p
      \<and> unat p \<le> unat (fst (split_total_atomic fee t)) + 1"
    "unat p * (100 + unat fee) mod 100 = 0 \<Longrightarrow> fst (split_total_atomic fee t) = p"
    if t: "apply_platform_fee_atomic fee p = Some t" for t
  proof -
    from t have u: "unat t = unat p * (100 + unat fee) div 100" by (simp add: apply_platform_fee_iff)
    show "unat (fst (split_total_atomic fee t)) \<le> unat p
      \<and> unat p \<le> unat (fst (split_total_atomic fee t)) + 1"
      unfolding split_total_unat u using fee_split_nat [of "unat p" "unat fee"] by simp
    assume "unat p * (100 + unat fee) mod 100 = 0"
    then have "unat t * 100 = unat p * (100 + unat fee)" unfolding u by auto
    then have "unat (fst (split_total_atomic fee t)) = unat p" unfolding split_total_unat by simp
    then show "fst (split_total_atomic fee t) = p" by (simp add: word_unat_eq_iff)
  qed
  show ?thesis
    using sum returned by (auto simp: Let_def split: prod.splits option.splits)
qed

section \<open>Wrap-around in the bill\<close>

text \<open>
  The 128-bit product of tokens and price wraps instead of failing: at a price of \<open>2^108\<close> USDC
  per million tokens, which passes the finiteness guard, 16384 prompt tokens are billed at zero.
\<close>
theorem huge_price_bills_zero:
  "compute_actual_atomic_cost 5 16384 0 (demo_model (2 ^ 108)) = Some 0"
proof -
  have "f64_mul (F64_Fin False (2 ^ 108)) (f64_of_nat 1000000) = F64_Fin False (15625 * 2 ^ 114)"
    using f64_round_evalI [of 75 "2 ^ 108 * 1000000" "15625 * 2 ^ 39" False]
    by (simp add: f64_of_nat_exact)
  then have "atomic_price (F64_Fin False (2 ^ 108)) = of_nat (15625 * 2 ^ 114)"
    unfolding atomic_price_def by simp
  moreover have "ucast (16384 :: u32) * of_nat (15625 * 2 ^ 114) = (0 :: u128)" by simp
  moreover have "atomic_price (F64_Fin False 0) = 0" using atomic_price_nat [of 0] by simp
  ultimately show ?thesis
    by (simp add: compute_actual_atomic_cost_def f64_of_nat_exact u64_try_from_def
        apply_platform_fee_atomic_def)
qed

section \<open>Discounts and schemes\<close>

lemma unat_apply_hit_price:
  "unat (apply_hit_price full pct) = unat full * min (unat pct) 100 div 100"
proof -
  have pct: "unat (min pct 100) = min (unat pct) 100"
    by (simp add: min_def word_le_nat_alt)
  have "unat full < 2 ^ 64" using unsigned_less [of full, where ?'a = nat] by simp
  have small: "unat full * min (unat pct) 100 \<le> unat full * 100" by simp
  then have "unat full * min (unat pct) 100 < 2 ^ 128"
    using fee_product_small(2) [of full] by (rule order_le_less_trans)
  then have "unat ((ucast full :: u128) * ucast (min pct 100) div 100)
      = unat full * min (unat pct) 100 div 100"
    using unat_mult_u128 [of "ucast full" "ucast (min pct 100)"] by (simp add: unat_div pct)
  moreover have "unat full * min (unat pct) 100 div 100 < 2 ^ 64"
    using div_le_mono [OF small, of 100] \<open>unat full < 2 ^ 64\<close> by simp
  ultimately show ?thesis
    by (simp add: apply_hit_price_def unsigned_ucast_eq take_bit_nat_eq_self_iff)
qed

lemma apply_hit_price_le: "apply_hit_price full pct \<le> full"
proof -
  have "unat full * min (unat pct) 100 div 100 \<le> unat full"
    using div_le_mono [of "unat full * min (unat pct) 100" "unat full * 100" 100] by simp
  then show ?thesis by (simp add: word_le_nat_alt unat_apply_hit_price)
qed

definition discount_wf :: "semantic_discount \<Rightarrow> bool" where
  "discount_wf d \<longleftrightarrow> sd_discounted_atomic d \<le> sd_full_atomic d"

text \<open>
  C39. A semantic discount never exceeds its full price, whatever percentage is configured, so the
  amount recorded for a payment scheme never exceeds the full cost; the direct-transfer scheme
  always records the full cost.
\<close>
theorem discount_well_formed:
  "discount_wf (semantic_discount_new full pct)
   \<and> spend_cost_atomic (scheme_realized_discount scheme (Some (semantic_discount_new full pct))) full \<le> full
   \<and> spend_cost_atomic (scheme_realized_discount Scheme_Exact d) full = full"
  using apply_hit_price_le [of full pct]
  by (cases scheme) (simp_all add: discount_wf_def semantic_discount_new_def spend_cost_atomic_def)

end
