(* ===== verification/Receipts.thy ===== *)
theory Receipts
  imports Usage Pricing Channel_Ledger
begin

text \<open>
  Payment receipts (\<open>gateway/src/receipts.rs\<close> and its migration): what is recorded for a paid
  request, the conversion of its amounts to the signed columns before anything is advertised, the
  row that is inserted in the background, and the fail-closed reading back. A receipt id is the
  text of a random UUID.
\<close>

record receipt_record =
  rr_receipt_id :: string
  rr_model :: string
  rr_payment_scheme :: string
  rr_tx_signature :: "string option"
  rr_payer_wallet :: string
  rr_amount_paid_atomic :: u64
  rr_provider_cost_atomic :: u64
  rr_platform_fee_atomic :: u64
  rr_total_atomic :: u64
  rr_vendor :: "vendor_settlement option"

datatype receipt_error = Receipt_Database | Receipt_Corrupt string

record receipt_cost_breakdown =
  rcb_provider_cost_atomic :: u64
  rcb_provider_cost_usdc :: string
  rcb_platform_fee_atomic :: u64
  rcb_platform_fee_usdc :: string
  rcb_total_atomic :: u64
  rcb_total_usdc :: string
  rcb_currency :: string

record receipt_vendor =
  rv_vendor_wallet :: string
  rv_settled_atomic :: u64
  rv_settled_usdc :: string
  rv_fee_receivable_atomic :: u64
  rv_fee_receivable_usdc :: string

record receipt =
  rp_receipt_id :: string
  rp_created_at :: nat
  rp_model :: string
  rp_payment_scheme :: string
  rp_tx_signature :: "string option"
  rp_payer_wallet :: string
  rp_amount_paid_atomic :: u64
  rp_amount_paid_usdc :: string
  rp_cost_breakdown :: receipt_cost_breakdown
  rp_vendor :: "receipt_vendor option"

text \<open>A row of the table: signed columns, the three vendor columns nullable one by one.\<close>

record receipt_row =
  rt_id :: string
  rt_created_at :: nat
  rt_model :: string
  rt_payment_scheme :: string
  rt_tx_signature :: "string option"
  rt_payer_wallet :: string
  rt_amount_paid :: int
  rt_provider_cost :: int
  rt_platform_fee :: int
  rt_total :: int
  rt_vendor_wallet :: "string option"
  rt_vendor_settled :: "int option"
  rt_vendor_fee :: "int option"

definition receipt_path :: "string \<Rightarrow> string" where
  "receipt_path i = ''/v1/receipts/'' @ i"

definition atomic_to_usdc_string :: "u64 \<Rightarrow> string" where
  "atomic_to_usdc_string a = micros_text (unat a)"

record receipt_binds =
  rbd_amount_paid :: int
  rbd_provider_cost :: int
  rbd_platform_fee :: int
  rbd_total :: int
  rbd_vendor :: "(string \<times> int \<times> int) option"

definition i64_try_from :: "u64 \<Rightarrow> int option" where
  "i64_try_from v = (if uint v \<le> i64_max then Some (uint v) else None)"

definition receipt_binds_of :: "receipt_record \<Rightarrow> receipt_binds option" where
  "receipt_binds_of r =
     Option.bind (case rr_vendor r of
         None \<Rightarrow> Some None
       | Some v \<Rightarrow> Option.bind (i64_try_from (vs_settled_atomic v)) (\<lambda>settled.
           Option.bind (i64_try_from (vs_fee_receivable_atomic v)) (\<lambda>fee.
           Some (Some (vs_vendor_wallet v, settled, fee))))) (\<lambda>vendor.
     Option.bind (i64_try_from (rr_amount_paid_atomic r)) (\<lambda>amount_paid.
     Option.bind (i64_try_from (rr_provider_cost_atomic r)) (\<lambda>provider_cost.
     Option.bind (i64_try_from (rr_platform_fee_atomic r)) (\<lambda>platform_fee.
     Option.bind (i64_try_from (rr_total_atomic r)) (\<lambda>tot.
       Some \<lparr>rbd_amount_paid = amount_paid, rbd_provider_cost = provider_cost,
         rbd_platform_fee = platform_fee, rbd_total = tot, rbd_vendor = vendor\<rparr>)))))"

definition receipt_row_of :: "nat \<Rightarrow> receipt_record \<Rightarrow> receipt_binds \<Rightarrow> receipt_row" where
  "receipt_row_of created_at r b =
     \<lparr>rt_id = rr_receipt_id r, rt_created_at = created_at, rt_model = rr_model r,
      rt_payment_scheme = rr_payment_scheme r, rt_tx_signature = rr_tx_signature r,
      rt_payer_wallet = rr_payer_wallet r, rt_amount_paid = rbd_amount_paid b,
      rt_provider_cost = rbd_provider_cost b, rt_platform_fee = rbd_platform_fee b, rt_total = rbd_total b,
      rt_vendor_wallet = map_option (\<lambda>(w, _, _). w) (rbd_vendor b),
      rt_vendor_settled = map_option (\<lambda>(_, s, _). s) (rbd_vendor b),
      rt_vendor_fee = map_option (\<lambda>(_, _, f). f) (rbd_vendor b)\<rparr>"

text \<open>The insert, with the primary key and the checks of the table.\<close>

definition receipt_checks :: "receipt_row \<Rightarrow> bool" where
  "receipt_checks rt \<longleftrightarrow> length (rt_payment_scheme rt) \<le> 16 \<and> 0 \<le> rt_amount_paid rt \<and> 0 \<le> rt_provider_cost rt
     \<and> 0 \<le> rt_platform_fee rt \<and> 0 \<le> rt_total rt
     \<and> (case rt_vendor_wallet rt of None \<Rightarrow> True | Some v \<Rightarrow> length v \<le> 44)
     \<and> (case rt_vendor_settled rt of None \<Rightarrow> True | Some v \<Rightarrow> 0 \<le> v)
     \<and> (case rt_vendor_fee rt of None \<Rightarrow> True | Some v \<Rightarrow> 0 \<le> v)
     \<and> (rt_vendor_wallet rt = None) = (rt_vendor_settled rt = None)
     \<and> (rt_vendor_wallet rt = None) = (rt_vendor_fee rt = None)"

definition insert_receipt :: "receipt_row \<Rightarrow> receipt_row list \<Rightarrow> receipt_row list" where
  "insert_receipt rt rows =
    (if list_ex (\<lambda>x. rt_id x = rt_id rt) rows \<or> \<not> receipt_checks rt then rows else rows @ [rt])"

text \<open>The advertised path, and the table after the background insert, which may fail.\<close>

definition record_receipt ::
  "bool \<Rightarrow> nat \<Rightarrow> bool \<Rightarrow> receipt_record \<Rightarrow> receipt_row list \<Rightarrow> string option \<times> receipt_row list" where
  "record_receipt has_pool created_at insert_ok r rows =
    (if \<not> has_pool then (None, rows)
     else case receipt_binds_of r of
       None \<Rightarrow> (None, rows)
     | Some b \<Rightarrow>
         (Some (receipt_path (rr_receipt_id r)),
          if insert_ok then insert_receipt (receipt_row_of created_at r b) rows else rows))"

definition u64_column :: "string \<Rightarrow> int \<Rightarrow> (receipt_error, u64) result" where
  "u64_column column v = (if 0 \<le> v then Inr (of_int v) else Inl (Receipt_Corrupt (''negative amount in column '' @ column)))"

definition vendor_from_row :: "receipt_row \<Rightarrow> (receipt_error, receipt_vendor option) result" where
  "vendor_from_row rt =
    (case (rt_vendor_wallet rt, rt_vendor_settled rt, rt_vendor_fee rt) of
       (None, None, None) \<Rightarrow> Inr None
     | (Some wallet, Some settled, Some fee) \<Rightarrow>
         and_then (if 0 \<le> settled then Inr (of_int settled) else Inl (Receipt_Corrupt ''negative vendor_settled_atomic''))
           (\<lambda>settled.
         and_then (if 0 \<le> fee then Inr (of_int fee) else Inl (Receipt_Corrupt ''negative vendor_fee_receivable_atomic''))
           (\<lambda>fee.
         Inr (Some \<lparr>rv_vendor_wallet = wallet, rv_settled_atomic = settled,
           rv_settled_usdc = atomic_to_usdc_string settled, rv_fee_receivable_atomic = fee,
           rv_fee_receivable_usdc = atomic_to_usdc_string fee\<rparr>)))
     | _ \<Rightarrow> Inl (Receipt_Corrupt ''partial vendor settlement fields''))"

definition build_receipt_from_row :: "receipt_row \<Rightarrow> (receipt_error, receipt) result" where
  "build_receipt_from_row rt =
     and_then (u64_column ''amount_paid_atomic'' (rt_amount_paid rt)) (\<lambda>amount_paid.
     and_then (u64_column ''provider_cost_atomic'' (rt_provider_cost rt)) (\<lambda>provider_cost.
     and_then (u64_column ''platform_fee_atomic'' (rt_platform_fee rt)) (\<lambda>platform_fee.
     and_then (u64_column ''total_atomic'' (rt_total rt)) (\<lambda>tot.
     and_then (vendor_from_row rt) (\<lambda>vendor.
       Inr \<lparr>rp_receipt_id = rt_id rt, rp_created_at = rt_created_at rt, rp_model = rt_model rt,
         rp_payment_scheme = rt_payment_scheme rt, rp_tx_signature = rt_tx_signature rt,
         rp_payer_wallet = rt_payer_wallet rt, rp_amount_paid_atomic = amount_paid,
         rp_amount_paid_usdc = atomic_to_usdc_string amount_paid,
         rp_cost_breakdown = \<lparr>rcb_provider_cost_atomic = provider_cost,
           rcb_provider_cost_usdc = atomic_to_usdc_string provider_cost,
           rcb_platform_fee_atomic = platform_fee, rcb_platform_fee_usdc = atomic_to_usdc_string platform_fee,
           rcb_total_atomic = tot, rcb_total_usdc = atomic_to_usdc_string tot, rcb_currency = ''USDC''\<rparr>,
         rp_vendor = vendor\<rparr>)))))"

definition fetch_receipt :: "bool \<Rightarrow> string \<Rightarrow> receipt_row list \<Rightarrow> (receipt_error, receipt option) result" where
  "fetch_receipt query_ok i rows =
    (if \<not> query_ok then Inl Receipt_Database
     else case find (\<lambda>x. rt_id x = i) rows of
       None \<Rightarrow> Inr None
     | Some rt \<Rightarrow> map_sum id Some (build_receipt_from_row rt))"

section \<open>Properties\<close>

lemma i64_try_from_Some [simp]: "i64_try_from v = Some n \<longleftrightarrow> n = uint v \<and> uint v \<le> i64_max"
  by (auto simp: i64_try_from_def)

lemma u64_column_uint [simp]: "u64_column c (uint v) = Inr v"
  by (simp add: u64_column_def)

lemma find_insert_fresh:
  assumes "\<not> list_ex (\<lambda>x. rt_id x = rt_id rt) rows" "receipt_checks rt"
  shows "find (\<lambda>x. rt_id x = rt_id rt) (insert_receipt rt rows) = Some rt"
proof -
  have "find (\<lambda>x. rt_id x = rt_id rt) rows = None" using assms(1) by (auto simp: find_None_iff list_ex_iff)
  then have "find (\<lambda>x. rt_id x = rt_id rt) (rows @ [rt]) = Some rt" by (induction rows) (auto split: if_splits)
  with assms show ?thesis by (simp add: insert_receipt_def)
qed

definition receipt_shows :: "nat \<Rightarrow> receipt_record \<Rightarrow> receipt \<Rightarrow> bool" where
  "receipt_shows created_at r p \<longleftrightarrow> rp_receipt_id p = rr_receipt_id r \<and> rp_created_at p = created_at
     \<and> rp_model p = rr_model r \<and> rp_payment_scheme p = rr_payment_scheme r
     \<and> rp_tx_signature p = rr_tx_signature r \<and> rp_payer_wallet p = rr_payer_wallet r
     \<and> rp_amount_paid_atomic p = rr_amount_paid_atomic r
     \<and> usdc_atomic_amount_checked (rp_amount_paid_usdc p) = Inr (nat_text (unat (rr_amount_paid_atomic r)))
     \<and> rcb_provider_cost_atomic (rp_cost_breakdown p) = rr_provider_cost_atomic r
     \<and> rcb_platform_fee_atomic (rp_cost_breakdown p) = rr_platform_fee_atomic r
     \<and> rcb_total_atomic (rp_cost_breakdown p) = rr_total_atomic r
     \<and> usdc_atomic_amount_checked (rcb_total_usdc (rp_cost_breakdown p)) = Inr (nat_text (unat (rr_total_atomic r)))
     \<and> map_option (\<lambda>v. (rv_vendor_wallet v, rv_settled_atomic v, rv_fee_receivable_atomic v)) (rp_vendor p)
       = map_option (\<lambda>v. (vs_vendor_wallet v, vs_settled_atomic v, vs_fee_receivable_atomic v)) (rr_vendor r)"

lemma usdc_string_reads_back:
  "usdc_atomic_amount_checked (atomic_to_usdc_string a) = Inr (nat_text (unat a))"
  by (simp add: atomic_to_usdc_string_def usdc_atomic_micros unsigned_less [of a, simplified])

text \<open>
  C33. A receipt reads back as recorded: when a receipt is advertised and its insert lands, fetching the
  advertised id returns the recorded payer, transaction, scheme, amounts and vendor leg, and the
  decimal amounts on it parse to the recorded atomic amounts. A receipt is advertised exactly when
  there is a database and every amount fits its signed column.
\<close>
theorem receipt_roundtrip:
  assumes "\<not> list_ex (\<lambda>x. rt_id x = rr_receipt_id r) rows" "length (rr_payment_scheme r) \<le> 16"
    and "case rr_vendor r of None \<Rightarrow> True | Some v \<Rightarrow> length (vs_vendor_wallet v) \<le> 44"
  shows "case record_receipt has_pool now True r rows of
      (None, rows') \<Rightarrow> rows' = rows \<and> (has_pool \<longrightarrow> receipt_binds_of r = None)
    | (Some path, rows') \<Rightarrow> has_pool \<and> path = receipt_path (rr_receipt_id r)
        \<and> (\<exists>p. fetch_receipt True (rr_receipt_id r) rows' = Inr (Some p) \<and> receipt_shows now r p)"
proof (cases "receipt_binds_of r")
  case (Some b)
  define rt where "rt = receipt_row_of now r b"
  have i: "rt_id rt = rr_receipt_id r" by (simp add: rt_def receipt_row_of_def)
  have "receipt_checks rt"
    using Some assms(2,3)
    by (auto simp: rt_def receipt_row_of_def receipt_checks_def receipt_binds_of_def bind_eq_Some_conv split: option.splits)
  then have f: "find (\<lambda>x. rt_id x = rr_receipt_id r) (insert_receipt rt rows) = Some rt"
    using find_insert_fresh [of rt rows] assms(1) by (simp add: i)
  have "\<exists>p. build_receipt_from_row rt = Inr p \<and> receipt_shows now r p"
    using Some
    by (cases "rr_vendor r")
      (auto simp: rt_def receipt_binds_of_def bind_eq_Some_conv receipt_row_of_def build_receipt_from_row_def
        vendor_from_row_def receipt_shows_def usdc_string_reads_back)
  with Some f show ?thesis by (auto simp: record_receipt_def fetch_receipt_def rt_def)
qed (simp add: record_receipt_def)

definition sample_receipt :: receipt_record where
  "sample_receipt = \<lparr>rr_receipt_id = ''7f'', rr_model = ''m'', rr_payment_scheme = ''exact'', rr_tx_signature = Some ''sig'',
     rr_payer_wallet = ''payer'', rr_amount_paid_atomic = 2625, rr_provider_cost_atomic = 2500,
     rr_platform_fee_atomic = 125, rr_total_atomic = 2625, rr_vendor = None\<rparr>"

theorem receipt_roundtrip_witness:
  "receipt_binds_of sample_receipt \<noteq> None
   \<and> (case record_receipt True 9 True sample_receipt [] of
        (None, _) \<Rightarrow> False
      | (Some path, rows) \<Rightarrow> path = ''/v1/receipts/7f''
          \<and> (\<exists>p. fetch_receipt True ''7f'' rows = Inr (Some p) \<and> receipt_shows 9 sample_receipt p))"
proof -
  have b: "receipt_binds_of sample_receipt \<noteq> None"
    by (simp add: sample_receipt_def receipt_binds_of_def i64_try_from_def i64_max_def)
  have "case record_receipt True 9 True sample_receipt [] of
      (None, rows') \<Rightarrow> rows' = [] \<and> (True \<longrightarrow> receipt_binds_of sample_receipt = None)
    | (Some path, rows') \<Rightarrow> True \<and> path = receipt_path (rr_receipt_id sample_receipt)
        \<and> (\<exists>p. fetch_receipt True (rr_receipt_id sample_receipt) rows' = Inr (Some p) \<and> receipt_shows 9 sample_receipt p)"
    by (rule receipt_roundtrip) (simp_all add: sample_receipt_def)
  with b show ?thesis
    by (auto simp: receipt_path_def sample_receipt_def split: prod.splits option.splits)
qed

end
