(* ===== verification/Channel_Draw.thy ===== *)
theory Channel_Draw
  imports Channel_Ledger Redis_Cache Receipts
begin

text \<open>
  Paying a request from a channel: the chat draw (\<open>gateway/src/routes/chat/channel_draw.rs\<close>) and the
  search draw (\<open>routes/search.rs\<close>), with the voucher decoding and rejection mapping they share
  (\<open>routes/channel.rs\<close>) and the cached slot they measure expiry against (\<open>routes/escrow.rs\<close>). A draw
  holds a cross-instance lock from before the channel is loaded until after it is recorded. The
  provider call in the middle may take minutes: it is a function of the world, so that whatever
  other requests and workers do to the ledger and the store in the meantime is part of it.
\<close>

section \<open>Errors\<close>

datatype gateway_error =
    Gw_NotFound string
  | Gw_BadRequest string
  | Gw_Forbidden string
  | Gw_ServiceUnavailable string
  | Gw_UpstreamUnavailable string
  | Gw_Internal string
  | Gw_InvalidPayment string
  | Gw_InvalidPaymentWithResync u64
  | Gw_ModelNotFound string
  | Gw_UnsupportedMediaType string

section \<open>The cached slot\<close>

definition SLOT_CACHE_TTL :: nat where "SLOT_CACHE_TTL = 5000"
definition CHANNEL_SLOT_MAX_STALENESS :: nat where "CHANNEL_SLOT_MAX_STALENESS = 60000"

text \<open>Times are in milliseconds; \<open>rpc\<close> is the node's answer to a fresh fetch.\<close>

definition read_cached_slot_with_age ::
  "nat \<Rightarrow> u64 option \<Rightarrow> (u64 \<times> nat) option \<Rightarrow> (u64 \<times> nat) option \<times> (u64 \<times> nat) option" where
  "read_cached_slot_with_age now rpc cached =
    (case cached of
       Some (slot, fetched_at) \<Rightarrow>
         if now - fetched_at < SLOT_CACHE_TTL then (cached, cached)
         else (case rpc of Some s \<Rightarrow> (Some (s, now), Some (s, now)) | None \<Rightarrow> (cached, cached))
     | None \<Rightarrow> (case rpc of Some s \<Rightarrow> (Some (s, now), Some (s, now)) | None \<Rightarrow> (None, None)))"

definition fetch_cached_slot :: "nat \<Rightarrow> u64 option \<Rightarrow> (u64 \<times> nat) option \<Rightarrow> u64 option" where
  "fetch_cached_slot now rpc cached = map_option fst (fst (read_cached_slot_with_age now rpc cached))"

definition fetch_cached_slot_bounded ::
  "nat \<Rightarrow> nat \<Rightarrow> u64 option \<Rightarrow> (u64 \<times> nat) option \<Rightarrow> u64 option" where
  "fetch_cached_slot_bounded max_staleness now rpc cached =
    (case fst (read_cached_slot_with_age now rpc cached) of
       None \<Rightarrow> None
     | Some (slot, fetched_at) \<Rightarrow> if now - fetched_at \<le> max_staleness then Some slot else None)"

section \<open>Vouchers on the wire\<close>

datatype channel_draw_error =
    MalformedChannelId
  | MalformedRequestDigest
  | MalformedSignature
  | MalformedNonce
  | MalformedExpirySlot

definition request_digest :: "crypto \<Rightarrow> bytes \<Rightarrow> bytes" where
  "request_digest cr body = sha256 cr body"

definition fixed_array :: "nat \<Rightarrow> 'e \<Rightarrow> bytes option \<Rightarrow> ('e, bytes) result" where
  "fixed_array n e b = (case b of None \<Rightarrow> Inl e | Some bs \<Rightarrow> if length bs = n then Inr bs else Inl e)"

definition voucher_from_payload ::
  "crypto \<Rightarrow> (string \<Rightarrow> bytes option) \<Rightarrow> channel_voucher_payload \<Rightarrow> (channel_draw_error, voucher) result"
where
  "voucher_from_payload cr b64 v =
    (case decode_bs58_pubkey cr (cvp_channel_id v) of
       Inl _ \<Rightarrow> Inl MalformedChannelId
     | Inr channel_id \<Rightarrow>
       if i64_max < uint (cvp_nonce v) then Inl MalformedNonce
       else if i64_max < uint (cvp_expiry_slot v) then Inl MalformedExpirySlot
       else
         and_then (fixed_array 32 MalformedRequestDigest (b64 (cvp_request_digest v))) (\<lambda>digest.
         and_then (fixed_array 64 MalformedSignature (b64 (cvp_signature v))) (\<lambda>sig.
         Inr \<lparr>v_channel_id = channel_id, v_cumulative_atomic = cvp_cumulative_atomic v,
           v_expiry_slot = cvp_expiry_slot v, v_nonce = cvp_nonce v, v_request_digest = digest,
           v_signature = sig\<rparr>)))"

fun map_voucher_rejection :: "channel_voucher_error \<Rightarrow> u64 \<Rightarrow> gateway_error" where
  "map_voucher_rejection ChannelMismatch _ = Gw_InvalidPayment ''channel voucher rejected''"
| "map_voucher_rejection InvalidSignature _ = Gw_InvalidPayment ''channel voucher rejected''"
| "map_voucher_rejection RequestDigestMismatch _ =
     Gw_InvalidPayment ''voucher request_digest does not match this request''"
| "map_voucher_rejection (Expired _ _ _) last_cumulative = Gw_InvalidPaymentWithResync last_cumulative"
| "map_voucher_rejection (NonMonotonicCumulative _ _) last_cumulative =
     Gw_InvalidPaymentWithResync last_cumulative"
| "map_voucher_rejection (DeltaMismatch _ _) last_cumulative = Gw_InvalidPaymentWithResync last_cumulative"
| "map_voucher_rejection (BelowSettled _ _) last_cumulative = Gw_InvalidPaymentWithResync last_cumulative"
| "map_voucher_rejection (OverDraw _ _) last_cumulative = Gw_InvalidPaymentWithResync last_cumulative"

section \<open>The world of a draw\<close>

text \<open>The ledger with the shared store and the spend and receipt records handed to their writers.\<close>

record draw_world = ledger +
  dw_redis :: redis
  dw_slot_cache :: "(u64 \<times> nat) option"
  dw_spend :: "spend_entry list"
  dw_receipts :: "receipt_record list"

datatype serve_result =
    Serve_Timeout
  | Serve_AllFailed
  | Serve_Internal string
  | Served "usage_counts option" "string option" "semantic_discount option"
      \<comment> \<open>usage, actual provider, semantic-cache outcome\<close>

text \<open>What the draw meets: replies of the store with their times, faults of the database, the
  tenant policy of a wallet, and the provider call.\<close>

record draw_io =
  io_slot :: "nat \<times> u64 option" \<comment> \<open>time of the slot lookup, answer of the node\<close>
  io_token :: string
  io_receipt_id :: string
  io_acquire :: "redis_reply \<times> nat"
  io_load :: db_faults
  io_require_tenant :: "string \<Rightarrow> bool"
  io_serve :: "draw_world \<Rightarrow> draw_world \<times> serve_result"
  io_held :: "redis_reply \<times> nat"
  io_persist :: db_faults
  io_release :: "redis_reply \<times> nat"

record draw_env =
  de_enabled :: bool
  de_has_db :: bool
  de_has_cache :: bool
  de_crypto :: crypto
  de_ed25519 :: ed25519
  de_b64 :: "string \<Rightarrow> bytes option"
  de_fee :: u8

record draw_request =
  dr_body :: bytes
  dr_request :: chat_request
  dr_model_info :: model_registration
  dr_billed_atomic :: u64
  dr_accepted_amount :: string
  dr_voucher :: channel_voucher_payload
  dr_request_id :: "string option"
  dr_session_id :: "string option"
  dr_tenant :: "string option"
  dr_routing_tier :: "string option"
  dr_routing_score :: "f64 option"

datatype delivery =
    Delivered bool \<comment> \<open>with a receipt?\<close>
  | Bad_Gateway
  | Not_Available

section \<open>What a served chat request realizes\<close>

text \<open>\<open>None\<close> is the panic of the unreachable arm.\<close>

definition chat_arm_billed ::
  "u8 \<Rightarrow> u64 \<Rightarrow> model_registration \<Rightarrow> usage_counts option \<Rightarrow> semantic_discount option \<Rightarrow> u64 option" where
  "chat_arm_billed fee billed model_info usage cost_outcome =
    (let realized_discount = scheme_realized_discount Scheme_Channel cost_outcome in
     case select_spend_log_arm False usage (cost_outcome \<noteq> None) of
       SkipSettleFailed \<Rightarrow> None
     | ActualUsage u \<Rightarrow>
         Some (spend_cost_atomic realized_discount
           (case compute_actual_atomic_cost fee (prompt_tokens u) (completion_tokens u) model_info of
              Some v \<Rightarrow> v | None \<Rightarrow> billed))
     | UsagelessSemanticHit \<Rightarrow> Some (spend_cost_atomic realized_discount billed)
     | EstimateFallback \<Rightarrow> Some billed)"

definition usdc_of_atomic :: "u64 \<Rightarrow> f64" where
  "usdc_of_atomic x = f64_div (f64_of_nat (unat x)) (f64_of_nat 1000000)"

definition draw_record :: "string \<Rightarrow> voucher \<Rightarrow> u64 \<Rightarrow> u64 \<Rightarrow> voucher_record" where
  "draw_record channel_id v billed realized_advance =
     \<lparr>vo_channel_id = channel_id, vo_cumulative_atomic = v_cumulative_atomic v,
      vo_call_cost_atomic = billed, vo_realized_advance_atomic = realized_advance,
      vo_expiry_slot = v_expiry_slot v, vo_nonce = v_nonce v,
      vo_request_digest = v_request_digest v, vo_signature = v_signature v\<rparr>"

section \<open>The chat draw\<close>

definition channel_draw_locked ::
  "draw_env \<Rightarrow> draw_io \<Rightarrow> draw_request \<Rightarrow> bytes \<Rightarrow> u64 \<Rightarrow> voucher \<Rightarrow> draw_world
     \<Rightarrow> (gateway_error, delivery) result \<times> draw_world" where
  "channel_draw_locked env io rq digest current_slot v w =
    (let channel_id = cvp_channel_id (dr_voucher rq); billed = dr_billed_atomic rq in
     case load_open_channel_state (de_crypto env) (io_load io) channel_id digest w of
       Inl _ \<Rightarrow> (Inl (Gw_Internal ''could not load the channel''), w)
     | Inr None \<Rightarrow> (Inl (Gw_NotFound ''channel not found or not open''), w)
     | Inr (Some drawable) \<Rightarrow>
       if io_require_tenant io (dc_agent_wallet drawable)
         then (Inl (Gw_Forbidden ''this wallet requires per-tenant budgeting''), w)
       else case verify_voucher (de_ed25519 env) (dc_state drawable) v billed current_slot of
         Inl e \<Rightarrow> (Inl (map_voucher_rejection e (cs_last_cumulative_atomic (dc_state drawable))), w)
       | Inr _ \<Rightarrow>
         (case io_serve io w of
            (w1, Serve_Timeout) \<Rightarrow> (Inl (Gw_UpstreamUnavailable ''timeout; not drawn''), w1)
          | (w1, Serve_AllFailed) \<Rightarrow> (Inl (Gw_UpstreamUnavailable ''no provider; not drawn''), w1)
          | (w1, Serve_Internal msg) \<Rightarrow> (Inl (Gw_Internal msg), w1)
          | (w1, Served reported actual_provider cost_outcome) \<Rightarrow>
            let usage = map_option (\<lambda>u. cap_usage_to_request_limits u (dr_request rq) (dr_model_info rq))
                          reported in
            (case chat_arm_billed (de_fee env) billed (dr_model_info rq) usage cost_outcome of
               None \<Rightarrow> (Inl (Gw_Internal ''panic''), w1)
             | Some arm_billed \<Rightarrow>
               let realized_advance = min arm_billed billed in
               if channel_draw_lock_held (fst (io_held io)) (snd (io_held io)) channel_id (io_token io)
                    (dw_redis w1) = Inr False
                 then (Inr (Delivered False), w1)
               else case persist_voucher_and_advance (io_persist io)
                      (draw_record channel_id v billed realized_advance) w1 of
                 (Inl _, w2) \<Rightarrow> (Inr (Delivered False), w2)
               | (Inr _, w2) \<Rightarrow>
                 let (input_tokens, output_tokens) = (case usage of
                         Some u \<Rightarrow> (prompt_tokens u, completion_tokens u)
                       | None \<Rightarrow> (estimate_input_tokens (dr_request rq), 0));
                     spend = \<lparr>se_wallet = dc_agent_wallet drawable, se_model = rq_model (dr_request rq),
                       se_provider = (case actual_provider of Some p \<Rightarrow> p
                         | None \<Rightarrow> mr_provider (dr_model_info rq)),
                       se_input_tokens = input_tokens, se_output_tokens = output_tokens,
                       se_cost_usdc = usdc_of_atomic realized_advance, se_tx_signature = None,
                       se_request_id = dr_request_id rq, se_session_id = dr_session_id rq,
                       se_tenant = dr_tenant rq, se_tenant_enforced = False,
                       se_estimated_cost_usdc = None, se_reserved = nothing_reserved, se_vendor = None,
                       se_routing_tier = dr_routing_tier rq, se_routing_score = dr_routing_score rq\<rparr>;
                     (provider_cost, platform_fee) = split_total_atomic (de_fee env) realized_advance;
                     receipt = \<lparr>rr_receipt_id = io_receipt_id io, rr_model = rq_model (dr_request rq),
                       rr_payment_scheme = as_accepted_str Scheme_Channel, rr_tx_signature = None,
                       rr_payer_wallet = dc_agent_wallet drawable,
                       rr_amount_paid_atomic = realized_advance,
                       rr_provider_cost_atomic = provider_cost, rr_platform_fee_atomic = platform_fee,
                       rr_total_atomic = realized_advance, rr_vendor = None\<rparr>
                 in (Inr (Delivered True), w2\<lparr>dw_spend := dw_spend w2 @ [spend],
                       dw_receipts := dw_receipts w2 @ [receipt]\<rparr>))))"

definition channel_draw ::
  "draw_env \<Rightarrow> draw_io \<Rightarrow> draw_request \<Rightarrow> draw_world
     \<Rightarrow> (gateway_error, delivery) result \<times> draw_world" where
  "channel_draw env io rq w0 =
    (if \<not> de_enabled env \<or> \<not> de_has_db env \<or> \<not> de_has_cache env
       then (Inl (Gw_NotFound ''channel not available''), w0)
     else if dr_accepted_amount rq \<noteq> nat_text (unat (dr_billed_atomic rq))
       then (Inl (Gw_BadRequest ''accepted.amount must equal the current quote''), w0)
     else
       let digest = request_digest (de_crypto env) (dr_body rq);
           (now, rpc) = io_slot io;
           w = w0\<lparr>dw_slot_cache := snd (read_cached_slot_with_age now rpc (dw_slot_cache w0))\<rparr> in
       case fetch_cached_slot_bounded CHANNEL_SLOT_MAX_STALENESS now rpc (dw_slot_cache w0) of
         None \<Rightarrow> (Inl (Gw_ServiceUnavailable ''could not reach the Solana cluster''), w)
       | Some current_slot \<Rightarrow>
         (case voucher_from_payload (de_crypto env) (de_b64 env) (dr_voucher rq) of
            Inl _ \<Rightarrow> (Inl (Gw_BadRequest ''malformed voucher''), w)
          | Inr v \<Rightarrow>
            let channel_id = cvp_channel_id (dr_voucher rq) in
            (case acquire_channel_draw_lock (fst (io_acquire io)) (snd (io_acquire io)) (io_token io)
                    channel_id (dw_redis w) of
               (Inl _, rd) \<Rightarrow> (Inl (Gw_ServiceUnavailable ''degraded''), w\<lparr>dw_redis := rd\<rparr>)
             | (Inr None, rd) \<Rightarrow>
                 (Inl (Gw_ServiceUnavailable ''a draw is already in progress''), w\<lparr>dw_redis := rd\<rparr>)
             | (Inr (Some lock_token), rd) \<Rightarrow>
                 let (outcome, w') = channel_draw_locked env io rq digest current_slot v
                       (w\<lparr>dw_redis := rd\<rparr>)
                 in (outcome, w'\<lparr>dw_redis := release_channel_draw_lock (fst (io_release io))
                       (snd (io_release io)) channel_id lock_token (dw_redis w')\<rparr>))))"


section \<open>The search draw\<close>

text \<open>The flat-priced search tool: the realized advance is the billed price, and the slot is read
  without a staleness bound.\<close>

record search_request =
  sq_body :: bytes
  sq_cost :: service_cost
  sq_accepted_amount :: string
  sq_voucher :: channel_voucher_payload
  sq_provider_name :: string
  sq_request_id :: "string option"

definition search_draw_locked ::
  "draw_env \<Rightarrow> draw_io \<Rightarrow> search_request \<Rightarrow> bytes \<Rightarrow> u64 \<Rightarrow> voucher \<Rightarrow> draw_world
     \<Rightarrow> (gateway_error, delivery) result \<times> draw_world" where
  "search_draw_locked env io rq digest current_slot v w =
    (let channel_id = cvp_channel_id (sq_voucher rq); billed = sc_total_atomic (sq_cost rq) in
     case load_open_channel_state (de_crypto env) (io_load io) channel_id digest w of
       Inl _ \<Rightarrow> (Inl (Gw_Internal ''could not load the channel''), w)
     | Inr None \<Rightarrow> (Inl (Gw_NotFound ''channel not found or not open''), w)
     | Inr (Some drawable) \<Rightarrow>
       if io_require_tenant io (dc_agent_wallet drawable)
         then (Inl (Gw_Forbidden ''this wallet requires per-tenant budgeting''), w)
       else case verify_voucher (de_ed25519 env) (dc_state drawable) v billed current_slot of
         Inl e \<Rightarrow> (Inl (map_voucher_rejection e (cs_last_cumulative_atomic (dc_state drawable))), w)
       | Inr _ \<Rightarrow>
         (case io_serve io w of
            (w1, Served _ _ _) \<Rightarrow>
              if channel_draw_lock_held (fst (io_held io)) (snd (io_held io)) channel_id (io_token io)
                   (dw_redis w1) = Inr False
                then (Inr (Delivered False), w1)
              else (case persist_voucher_and_advance (io_persist io)
                     (draw_record channel_id v billed billed) w1 of
                (Inl _, w2) \<Rightarrow> (Inr (Delivered False), w2)
              | (Inr _, w2) \<Rightarrow>
                let receipt = \<lparr>rr_receipt_id = io_receipt_id io, rr_model = ''web-search'',
                      rr_payment_scheme = ''channel'', rr_tx_signature = None,
                      rr_payer_wallet = dc_agent_wallet drawable, rr_amount_paid_atomic = billed,
                      rr_provider_cost_atomic = sc_provider_atomic (sq_cost rq),
                      rr_platform_fee_atomic = sc_fee_atomic (sq_cost rq), rr_total_atomic = billed,
                      rr_vendor = None\<rparr>;
                    spend = \<lparr>se_wallet = dc_agent_wallet drawable, se_model = ''web-search'',
                      se_provider = ''search:'' @ sq_provider_name rq, se_input_tokens = 0,
                      se_output_tokens = 0, se_cost_usdc = usdc_of_atomic billed, se_tx_signature = None,
                      se_request_id = sq_request_id rq, se_session_id = None, se_tenant = None,
                      se_tenant_enforced = False, se_estimated_cost_usdc = None,
                      se_reserved = nothing_reserved, se_vendor = None, se_routing_tier = None,
                      se_routing_score = None\<rparr>
                in (Inr (Delivered True), w2\<lparr>dw_spend := dw_spend w2 @ [spend],
                      dw_receipts := dw_receipts w2 @ [receipt]\<rparr>))
          | (w1, _) \<Rightarrow> (Inr Bad_Gateway, w1)))"

definition search_draw ::
  "draw_env \<Rightarrow> draw_io \<Rightarrow> search_request \<Rightarrow> draw_world
     \<Rightarrow> (gateway_error, delivery) result \<times> draw_world" where
  "search_draw env io rq w0 =
    (if \<not> de_enabled env \<or> \<not> de_has_db env \<or> \<not> de_has_cache env
       then (Inr Not_Available, w0)
     else if sq_accepted_amount rq \<noteq> nat_text (unat (sc_total_atomic (sq_cost rq)))
       then (Inl (Gw_BadRequest ''accepted.amount must equal the current quote''), w0)
     else
       let digest = request_digest (de_crypto env) (sq_body rq);
           (now, rpc) = io_slot io;
           w = w0\<lparr>dw_slot_cache := snd (read_cached_slot_with_age now rpc (dw_slot_cache w0))\<rparr> in
       case fetch_cached_slot now rpc (dw_slot_cache w0) of
         None \<Rightarrow> (Inl (Gw_ServiceUnavailable ''could not reach the Solana cluster''), w)
       | Some current_slot \<Rightarrow>
         (case voucher_from_payload (de_crypto env) (de_b64 env) (sq_voucher rq) of
            Inl _ \<Rightarrow> (Inl (Gw_BadRequest ''malformed voucher''), w)
          | Inr v \<Rightarrow>
            let channel_id = cvp_channel_id (sq_voucher rq) in
            (case acquire_channel_draw_lock (fst (io_acquire io)) (snd (io_acquire io)) (io_token io)
                    channel_id (dw_redis w) of
               (Inl _, rd) \<Rightarrow> (Inl (Gw_ServiceUnavailable ''degraded''), w\<lparr>dw_redis := rd\<rparr>)
             | (Inr None, rd) \<Rightarrow>
                 (Inl (Gw_ServiceUnavailable ''a draw is already in progress''), w\<lparr>dw_redis := rd\<rparr>)
             | (Inr (Some lock_token), rd) \<Rightarrow>
                 let (outcome, w') = search_draw_locked env io rq digest current_slot v
                       (w\<lparr>dw_redis := rd\<rparr>)
                 in (outcome, w'\<lparr>dw_redis := release_channel_draw_lock (fst (io_release io))
                       (snd (io_release io)) channel_id lock_token (dw_redis w')\<rparr>))))"


section \<open>The contract of a draw\<close>

definition draw_verified ::
  "draw_env \<Rightarrow> draw_io \<Rightarrow> string \<Rightarrow> u64 \<Rightarrow> bytes \<Rightarrow> u64 \<Rightarrow> voucher \<Rightarrow> draw_world \<Rightarrow> drawable_channel \<Rightarrow> bool"
where
  "draw_verified env io ch billed d slot v w dc \<longleftrightarrow>
     load_open_channel_state (de_crypto env) (io_load io) ch d w = Inr (Some dc)
     \<and> \<not> io_require_tenant io (dc_agent_wallet dc)
     \<and> verify_voucher (de_ed25519 env) (dc_state dc) v billed slot = Inr ()"

text \<open>The charge of amount \<open>a\<close> is recorded: one spend row and one receipt over the persisted
  ledger, for the wallet the channel belongs to.\<close>

definition charge_recorded ::
  "drawable_channel \<Rightarrow> u64 \<Rightarrow> draw_world \<Rightarrow> draw_world \<Rightarrow> bool" where
  "charge_recorded dc a w2 w' \<longleftrightarrow>
     (\<exists>s r. w' = w2\<lparr>dw_spend := dw_spend w2 @ [s], dw_receipts := dw_receipts w2 @ [r]\<rparr>
       \<and> se_wallet s = dc_agent_wallet dc \<and> se_cost_usdc s = usdc_of_atomic a
       \<and> rr_payer_wallet r = dc_agent_wallet dc \<and> rr_amount_paid_atomic r = a
       \<and> rr_total_atomic r = a \<and> rr_payment_scheme r = as_accepted_str Scheme_Channel)"

lemma charge_recordedI:
  assumes "w' = w2\<lparr>dw_spend := dw_spend w2 @ [s], dw_receipts := dw_receipts w2 @ [r]\<rparr>"
    and "se_wallet s = dc_agent_wallet dc" "se_cost_usdc s = usdc_of_atomic a"
    and "rr_payer_wallet r = dc_agent_wallet dc" "rr_amount_paid_atomic r = a"
    and "rr_total_atomic r = a" "rr_payment_scheme r = as_accepted_str Scheme_Channel"
  shows "charge_recorded dc a w2 w'"
  using assms unfolding charge_recorded_def by blast

text \<open>A persisted draw moved one open channel: its cumulative to the signed one, its realized sum by
  the recorded advance; the spend and receipt records are not touched.\<close>

lemma persist_charged:
  assumes inv: "ledger_inv (w :: draw_world)"
    and eq: "persist_voucher_and_advance ft (draw_record k v b a) w = (Inr (), w2)"
  obtains r where "channel_of k w = Some r" "ch_status r = ''open''"
    "ch_last r < uint (v_cumulative_atomic v)"
    "channel_of k w2 = Some (r\<lparr>ch_last := uint (v_cumulative_atomic v),
       ch_realized := ch_realized r + uint a\<rparr>)"
    "ledger_inv w2" "dw_spend w2 = dw_spend w" "dw_receipts w2 = dw_receipts w"
proof -
  from persist_inv [OF inv, of ft "draw_record k v b a"] eq have inv2: "ledger_inv w2" by simp
  from inv eq show thesis
  proof (cases rule: persist_cases)
    case (advance r x)
    have row2: "channel_of k w2 = Some (advanced (draw_record k v b a) r)"
      using advance(1,7) row_SomeD [OF advance(1)] by (simp add: draw_record_def row_replace_row)
    show thesis
      using advance(1-3,7) row2 inv2 by (intro that [of r]) (simp_all add: draw_record_def)
  qed simp
qed

text \<open>The protocol both draws follow, as a relation between the state before and the outcome: what
  is refused touches nothing, what is served without a persisted voucher is not charged, and a
  charge is recorded exactly on top of a persisted voucher.\<close>

inductive draw_protocol ::
  "draw_env \<Rightarrow> draw_io \<Rightarrow> string \<Rightarrow> u64 \<Rightarrow> bytes \<Rightarrow> u64 \<Rightarrow> voucher \<Rightarrow> draw_world
     \<Rightarrow> (gateway_error, delivery) result \<Rightarrow> draw_world \<Rightarrow> bool"
  for env io ch billed d slot v w where
  undrawable: "(\<And>dc. \<not> draw_verified env io ch billed d slot v w dc)
    \<Longrightarrow> (\<And>n. e \<noteq> Gw_InvalidPaymentWithResync n)
    \<Longrightarrow> draw_protocol env io ch billed d slot v w (Inl e) w"
| refused: "load_open_channel_state (de_crypto env) (io_load io) ch d w = Inr (Some dc)
    \<Longrightarrow> verify_voucher (de_ed25519 env) (dc_state dc) v billed slot = Inl e
    \<Longrightarrow> draw_protocol env io ch billed d slot v w
          (Inl (map_voucher_rejection e (cs_last_cumulative_atomic (dc_state dc)))) w"
| unserved: "draw_verified env io ch billed d slot v w dc
    \<Longrightarrow> (\<And>n. res \<noteq> Inl (Gw_InvalidPaymentWithResync n)) \<Longrightarrow> res \<noteq> Inr (Delivered True)
    \<Longrightarrow> draw_protocol env io ch billed d slot v w res (fst (io_serve io w))"
| unpersisted: "draw_verified env io ch billed d slot v w dc \<Longrightarrow> a \<le> billed
    \<Longrightarrow> persist_voucher_and_advance (io_persist io) (draw_record ch v billed a)
          (fst (io_serve io w)) = (Inl e, w2)
    \<Longrightarrow> draw_protocol env io ch billed d slot v w (Inr (Delivered False)) w2"
| charged: "draw_verified env io ch billed d slot v w dc \<Longrightarrow> a \<le> billed
    \<Longrightarrow> persist_voucher_and_advance (io_persist io) (draw_record ch v billed a)
          (fst (io_serve io w)) = (Inr (), w2)
    \<Longrightarrow> charge_recorded dc a w2 w'
    \<Longrightarrow> draw_protocol env io ch billed d slot v w (Inr (Delivered True)) w'"

inductive_cases draw_protocol_chargedE: "draw_protocol env io ch billed d slot v w (Inr (Delivered True)) w'"

lemma draw_verified_unique:
  "draw_verified env io ch b d slot v w dc \<Longrightarrow> draw_verified env io ch b d slot v w dc' \<Longrightarrow> dc' = dc"
  by (simp add: draw_verified_def)

lemma map_voucher_rejection_resync:
  assumes "verify_voucher ed st v b slot = Inl e" "map_voucher_rejection e n = Gw_InvalidPaymentWithResync m"
  shows "m = n \<and> verify_sig ed (cs_session_key st) (voucher_message v) (v_signature v)"
  using assms by (cases e) (auto simp: verify_voucher_def Let_def split: if_splits option.splits)

locale channel_draw_contract =
  fixes locked :: "draw_env \<Rightarrow> draw_io \<Rightarrow> 'rq \<Rightarrow> bytes \<Rightarrow> u64 \<Rightarrow> voucher \<Rightarrow> draw_world
      \<Rightarrow> (gateway_error, delivery) result \<times> draw_world"
    and chan :: "'rq \<Rightarrow> string"
    and billed :: "'rq \<Rightarrow> u64"
  assumes follows: "locked env io rq d slot v w = (res, w') \<Longrightarrow>
      draw_protocol env io (chan rq) (billed rq) d slot v w res w'"
begin

lemma unverified:
  assumes "locked env io rq d slot v w = (res, w')"
    and "\<And>dc. \<not> draw_verified env io (chan rq) (billed rq) d slot v w dc"
  shows "w' = w \<and> (\<exists>e. res = Inl e)"
  using follows [OF assms(1)] by cases (use assms(2) in auto)

lemma resync:
  assumes "locked env io rq d slot v w = (Inl (Gw_InvalidPaymentWithResync n), w')"
  shows "w' = w \<and> (\<exists>dc. load_open_channel_state (de_crypto env) (io_load io) (chan rq) d w = Inr (Some dc)
    \<and> n = cs_last_cumulative_atomic (dc_state dc)
    \<and> verify_sig (de_ed25519 env) (cs_session_key (dc_state dc)) (voucher_message v) (v_signature v))"
  using follows [OF assms]
proof cases
  case (refused dc e)
  then show ?thesis using map_voucher_rejection_resync [OF refused(4), of "cs_last_cumulative_atomic (dc_state dc)" n]
    by auto
qed auto

lemma charge_moves_ledger:
  assumes "locked env io rq d slot v w = (Inr (Delivered True), w')" and "ledger_inv (fst (io_serve io w))"
  obtains dc r a w2 where "draw_verified env io (chan rq) (billed rq) d slot v w dc"
    "channel_of (chan rq) (fst (io_serve io w)) = Some r" "ch_status r = ''open''"
    "a \<le> billed rq" "ch_last r < uint (v_cumulative_atomic v)"
    "channel_of (chan rq) w' = Some (r\<lparr>ch_last := uint (v_cumulative_atomic v),
        ch_realized := ch_realized r + uint a\<rparr>)"
    "ledger_inv w'" "charge_recorded dc a w2 w'"
    "dw_spend w2 = dw_spend (fst (io_serve io w))" "dw_receipts w2 = dw_receipts (fst (io_serve io w))"
proof -
  from follows [OF assms(1)] obtain dc a w2 where
    ver: "draw_verified env io (chan rq) (billed rq) d slot v w dc" and
    a: "a \<le> billed rq" "charge_recorded dc a w2 w'"
    "persist_voucher_and_advance (io_persist io) (draw_record (chan rq) v (billed rq) a)
       (fst (io_serve io w)) = (Inr (), w2)"
    by (rule draw_protocol_chargedE) auto
  have same: "channels w' = channels w2" "channel_vouchers w' = channel_vouchers w2"
    using a(2) by (auto simp: charge_recorded_def)
  from persist_charged [OF assms(2) a(3)] obtain r where
    r: "channel_of (chan rq) (fst (io_serve io w)) = Some r" "ch_status r = ''open''"
      "ch_last r < uint (v_cumulative_atomic v)"
      "channel_of (chan rq) w2 = Some (r\<lparr>ch_last := uint (v_cumulative_atomic v),
         ch_realized := ch_realized r + uint a\<rparr>)"
      "ledger_inv w2" "dw_spend w2 = dw_spend (fst (io_serve io w))"
      "dw_receipts w2 = dw_receipts (fst (io_serve io w))" .
  have "channel_of (chan rq) w' = channel_of (chan rq) w2" "ledger_inv w'"
    using same r(5) ledger_inv_cong [OF same] by simp_all
  with ver r a(1,2) show thesis by (intro that [of dc r a w2]) simp_all
qed

text \<open>A voucher the channel has already advanced past is refused before anything is served.\<close>

lemma stale_refused:
  assumes inv: "ledger_inv w" and r: "channel_of (chan rq) w = Some r"
    and cum: "uint (v_cumulative_atomic v) \<le> ch_last r" and pos: "billed rq \<noteq> 0"
  shows "\<exists>e. locked env io rq d slot v w = (Inl e, w)"
proof -
  have "\<not> draw_verified env io (chan rq) (billed rq) d slot v w dc" for dc
  proof
    assume ver: "draw_verified env io (chan rq) (billed rq) d slot v w dc"
    then have "uint (cs_last_cumulative_atomic (dc_state dc)) = ch_last r"
      using load_open_exact [OF inv] r by (fastforce simp: draw_verified_def)
    moreover have "unat (v_cumulative_atomic v)
        = unat (cs_last_cumulative_atomic (dc_state dc)) + unat (billed rq)"
      using ver by (simp add: draw_verified_def verify_voucher_ok_iff)
    moreover have "unat (billed rq) \<noteq> 0" using pos by (simp add: unat_eq_zero)
    ultimately show False using cum unfolding uint_nat by linarith
  qed
  then show ?thesis
    using unverified [of env io rq d slot v w] by (cases "locked env io rq d slot v w") auto
qed

end

lemma chat_arm_billed_total: "chat_arm_billed fee b m usage out \<noteq> None"
  by (simp add: chat_arm_billed_def select_spend_log_arm_def Let_def split: option.splits)

lemma draw_gate_cases:
  obtains (unloaded) "\<And>dc. load_open_channel_state (de_crypto env) (io_load io) ch d w \<noteq> Inr (Some dc)"
    | (tenant) dc where "load_open_channel_state (de_crypto env) (io_load io) ch d w = Inr (Some dc)"
        "io_require_tenant io (dc_agent_wallet dc)"
    | (bad) dc e where "load_open_channel_state (de_crypto env) (io_load io) ch d w = Inr (Some dc)"
        "\<not> io_require_tenant io (dc_agent_wallet dc)"
        "verify_voucher (de_ed25519 env) (dc_state dc) v b slot = Inl e"
    | (good) dc where "draw_verified env io ch b d slot v w dc"
  by (auto simp: draw_verified_def) (metis obj_sumE old.unit.exhaust)

lemma draw_protocol_persist:
  assumes "draw_verified env io ch b d slot v w dc" "a \<le> b"
    and "persist_voucher_and_advance (io_persist io) (draw_record ch v b a) (fst (io_serve io w)) = (out, w2)"
    and "case out of Inl _ \<Rightarrow> res = Inr (Delivered False) \<and> w' = w2
      | Inr _ \<Rightarrow> res = Inr (Delivered True) \<and> charge_recorded dc a w2 w'"
  shows "draw_protocol env io ch b d slot v w res w'"
  using assms by (cases out) (auto intro: unpersisted charged)

lemma channel_draw_locked_follows:
  assumes "channel_draw_locked env io rq d slot v w = (res, w')"
  shows "draw_protocol env io (cvp_channel_id (dr_voucher rq)) (dr_billed_atomic rq) d slot v w res w'"
    (is "draw_protocol env io ?ch ?b d slot v w res w'")
proof (cases rule: draw_gate_cases [where env = env and io = io and ch = ?ch and d = d and w = w and v = v
      and b = ?b and slot = slot])
  case unloaded
  then show ?thesis
    using assms by (auto simp: channel_draw_locked_def Let_def draw_verified_def intro!: undrawable
        split: sum.splits option.splits)
next
  case tenant
  then show ?thesis
    using assms by (auto simp: channel_draw_locked_def Let_def draw_verified_def intro!: undrawable)
next
  case bad
  then show ?thesis
    using assms refused [OF bad(1,3)] by (auto simp: channel_draw_locked_def Let_def)
next
  case (good dc)
  obtain w1 sr where serve: "io_serve io w = (w1, sr)" by fastforce
  note run = good [unfolded draw_verified_def] serve
  show ?thesis
  proof (cases sr)
    case (Served reported prov out)
    let ?usage = "map_option (\<lambda>u. cap_usage_to_request_limits u (dr_request rq) (dr_model_info rq)) reported"
    obtain arm where arm: "chat_arm_billed (de_fee env) ?b (dr_model_info rq) ?usage out = Some arm"
      using chat_arm_billed_total by blast
    show ?thesis
    proof (cases "channel_draw_lock_held (fst (io_held io)) (snd (io_held io)) ?ch (io_token io)
        (dw_redis w1) = Inr False")
      case True
      with arm have "channel_draw_locked env io rq d slot v w = (Inr (Delivered False), w1)"
        by (simp add: channel_draw_locked_def Let_def run Served)
      with assms serve show ?thesis using unserved [OF good, of res] by auto
    next
      case False
      obtain po w2 where persist: "persist_voucher_and_advance (io_persist io)
          (draw_record ?ch v ?b (min arm ?b)) w1 = (po, w2)" by fastforce
      with assms Served arm False run have "case po of Inl _ \<Rightarrow> res = Inr (Delivered False) \<and> w' = w2
          | Inr _ \<Rightarrow> res = Inr (Delivered True) \<and> charge_recorded dc (min arm ?b) w2 w'"
        by (auto simp: channel_draw_locked_def Let_def intro!: charge_recordedI
            split: sum.splits prod.splits)
      with persist show ?thesis
        by (intro draw_protocol_persist [OF good, of "min arm ?b" po w2]) (simp_all add: serve)
    qed
  qed (use assms run unserved [OF good, of res] in \<open>auto simp: channel_draw_locked_def Let_def\<close>)
qed

lemma search_draw_locked_follows:
  assumes "search_draw_locked env io rq d slot v w = (res, w')"
  shows "draw_protocol env io (cvp_channel_id (sq_voucher rq)) (sc_total_atomic (sq_cost rq)) d slot v w res w'"
    (is "draw_protocol env io ?ch ?b d slot v w res w'")
proof (cases rule: draw_gate_cases [where env = env and io = io and ch = ?ch and d = d and w = w and v = v
      and b = ?b and slot = slot])
  case unloaded
  then show ?thesis
    using assms by (auto simp: search_draw_locked_def Let_def draw_verified_def intro!: undrawable
        split: sum.splits option.splits)
next
  case tenant
  then show ?thesis
    using assms by (auto simp: search_draw_locked_def Let_def draw_verified_def intro!: undrawable)
next
  case bad
  then show ?thesis
    using assms refused [OF bad(1,3)] by (auto simp: search_draw_locked_def Let_def)
next
  case (good dc)
  obtain w1 sr where serve: "io_serve io w = (w1, sr)" by fastforce
  note run = good [unfolded draw_verified_def] serve
  show ?thesis
  proof (cases sr)
    case (Served reported prov out)
    show ?thesis
    proof (cases "channel_draw_lock_held (fst (io_held io)) (snd (io_held io)) ?ch (io_token io)
        (dw_redis w1) = Inr False")
      case True
      then have "search_draw_locked env io rq d slot v w = (Inr (Delivered False), w1)"
        by (simp add: search_draw_locked_def Let_def run Served)
      with assms serve show ?thesis using unserved [OF good, of res] by auto
    next
      case False
      obtain po w2 where persist: "persist_voucher_and_advance (io_persist io)
          (draw_record ?ch v ?b ?b) w1 = (po, w2)" by fastforce
      with assms Served False run have "case po of Inl _ \<Rightarrow> res = Inr (Delivered False) \<and> w' = w2
          | Inr _ \<Rightarrow> res = Inr (Delivered True) \<and> charge_recorded dc ?b w2 w'"
        by (auto simp: search_draw_locked_def Let_def intro!: charge_recordedI
            split: sum.splits prod.splits)
      with persist show ?thesis
        by (intro draw_protocol_persist [OF good, of ?b po w2]) (simp_all add: serve)
    qed
  qed (use assms run unserved [OF good, of res] in \<open>auto simp: search_draw_locked_def Let_def\<close>)
qed

interpretation chat: channel_draw_contract channel_draw_locked "\<lambda>rq. cvp_channel_id (dr_voucher rq)" dr_billed_atomic
  by unfold_locales (rule channel_draw_locked_follows)

interpretation search: channel_draw_contract search_draw_locked "\<lambda>rq. cvp_channel_id (sq_voucher rq)"
  "\<lambda>rq. sc_total_atomic (sq_cost rq)"
  by unfold_locales (rule search_draw_locked_follows)

section \<open>From the handlers to the locked bodies\<close>

text \<open>The handlers reach their locked body only with a fresh slot, a decoded voucher and the lock;
  on the way in and out they touch the slot cache and the store, never the ledger or the records.\<close>

definition same_books :: "draw_world \<Rightarrow> draw_world \<Rightarrow> bool" where
  "same_books w w' \<longleftrightarrow> channels w' = channels w \<and> channel_vouchers w' = channel_vouchers w
     \<and> dw_spend w' = dw_spend w \<and> dw_receipts w' = dw_receipts w"

lemma same_books_inv: "same_books w w' \<Longrightarrow> ledger_inv w' = ledger_inv w"
  unfolding same_books_def by (intro ledger_inv_cong) simp_all

lemma channel_draw_cases:
  assumes "channel_draw env io rq w0 = (res, w')"
  obtains (early) e where "res = Inl e" "same_books w0 w'"
      "\<And>n. e \<noteq> Gw_InvalidPaymentWithResync n"
    | (drawn) slot v w w1 where
      "fetch_cached_slot_bounded CHANNEL_SLOT_MAX_STALENESS (fst (io_slot io)) (snd (io_slot io))
         (dw_slot_cache w0) = Some slot"
      "voucher_from_payload (de_crypto env) (de_b64 env) (dr_voucher rq) = Inr v"
      "same_books w0 w" "same_books w1 w'"
      "channel_draw_locked env io rq (request_digest (de_crypto env) (dr_body rq)) slot v w = (res, w1)"
proof -
  obtain now rpc where sl: "io_slot io = (now, rpc)" by fastforce
  let ?w = "w0\<lparr>dw_slot_cache := snd (read_cached_slot_with_age now rpc (dw_slot_cache w0))\<rparr>"
  show thesis
  proof (cases "fetch_cached_slot_bounded CHANNEL_SLOT_MAX_STALENESS now rpc (dw_slot_cache w0)")
    case (Some slot)
    show thesis
    proof (cases "voucher_from_payload (de_crypto env) (de_b64 env) (dr_voucher rq)")
      case (Inr v)
      obtain got rd where acq: "acquire_channel_draw_lock (fst (io_acquire io)) (snd (io_acquire io))
          (io_token io) (cvp_channel_id (dr_voucher rq)) (dw_redis w0) = (got, rd)" by fastforce
      obtain out w1 where run: "channel_draw_locked env io rq (request_digest (de_crypto env) (dr_body rq)) slot v
          (?w\<lparr>dw_redis := rd\<rparr>) = (out, w1)" by fastforce
      have books: "same_books w0 (?w\<lparr>dw_redis := rd\<rparr>)" by (simp add: same_books_def)
      show thesis
      proof (cases "\<exists>tok. got = Inr (Some tok) \<and> res = out \<and> same_books w1 w'")
        case True
        with drawn [OF _ _ books, of slot v w1] Some Inr run sl show thesis by auto
      next
        case False
        with Some Inr sl acq run assms show thesis
          by (cases got; cases "projr got")
            (auto simp: channel_draw_def Let_def same_books_def intro: early split: if_splits)
      qed
    qed (use Some sl assms in \<open>auto simp: channel_draw_def Let_def same_books_def intro: early split: if_splits\<close>)
  qed (use sl assms in \<open>auto simp: channel_draw_def Let_def same_books_def intro: early split: if_splits\<close>)
qed

lemma search_draw_cases:
  assumes "search_draw env io rq w0 = (res, w')"
  obtains (early) "\<And>b. res \<noteq> Inr (Delivered b)" "same_books w0 w'"
      "\<And>n. res \<noteq> Inl (Gw_InvalidPaymentWithResync n)"
    | (drawn) slot v w w1 where
      "fetch_cached_slot (fst (io_slot io)) (snd (io_slot io))
         (dw_slot_cache w0) = Some slot"
      "voucher_from_payload (de_crypto env) (de_b64 env) (sq_voucher rq) = Inr v"
      "same_books w0 w" "same_books w1 w'"
      "search_draw_locked env io rq (request_digest (de_crypto env) (sq_body rq)) slot v w = (res, w1)"
proof -
  obtain now rpc where sl: "io_slot io = (now, rpc)" by fastforce
  let ?w = "w0\<lparr>dw_slot_cache := snd (read_cached_slot_with_age now rpc (dw_slot_cache w0))\<rparr>"
  show thesis
  proof (cases "fetch_cached_slot now rpc (dw_slot_cache w0)")
    case (Some slot)
    show thesis
    proof (cases "voucher_from_payload (de_crypto env) (de_b64 env) (sq_voucher rq)")
      case (Inr v)
      obtain got rd where acq: "acquire_channel_draw_lock (fst (io_acquire io)) (snd (io_acquire io))
          (io_token io) (cvp_channel_id (sq_voucher rq)) (dw_redis w0) = (got, rd)" by fastforce
      obtain out w1 where run: "search_draw_locked env io rq (request_digest (de_crypto env) (sq_body rq)) slot v
          (?w\<lparr>dw_redis := rd\<rparr>) = (out, w1)" by fastforce
      have books: "same_books w0 (?w\<lparr>dw_redis := rd\<rparr>)" by (simp add: same_books_def)
      show thesis
      proof (cases "\<exists>tok. got = Inr (Some tok) \<and> res = out \<and> same_books w1 w'")
        case True
        with drawn [OF _ _ books, of slot v w1] Some Inr run sl show thesis by auto
      next
        case False
        with Some Inr sl acq run assms show thesis
          by (cases got; cases "projr got")
            (auto simp: search_draw_def Let_def same_books_def intro: early split: if_splits)
      qed
    qed (use Some sl assms in \<open>auto simp: search_draw_def Let_def same_books_def intro: early split: if_splits\<close>)
  qed (use sl assms in \<open>auto simp: search_draw_def Let_def same_books_def intro: early split: if_splits\<close>)
qed

section \<open>What a draw promises\<close>

lemma load_open_books:
  "same_books w w' \<Longrightarrow> load_open_channel_state cr ft ch d w' = load_open_channel_state cr ft ch d w"
  by (simp add: load_open_channel_state_def same_books_def)

lemma draw_verified_books:
  "same_books w w' \<Longrightarrow> draw_verified env io ch b d slot v w' dc = draw_verified env io ch b d slot v w dc"
  by (simp add: draw_verified_def load_open_books)

lemma draw_verified_voucher:
  assumes inv: "ledger_inv w" and ver: "draw_verified env io ch b d slot v w dc"
  obtains r key where "channel_of ch w = Some r" "ch_status r = ''open''" "dc_agent_wallet dc = ch_agent_wallet r"
    "decode_bs58_pubkey (de_crypto env) (ch_session_key r) = Inr key"
    "verify_sig (de_ed25519 env) key (voucher_message v) (v_signature v)" "v_request_digest v = d"
    "unat slot + 50 \<le> unat (v_expiry_slot v)"
    "uint (v_cumulative_atomic v) = ch_last r + uint b" "uint (v_cumulative_atomic v) \<le> ch_deposited r"
proof -
  from ver have load: "load_open_channel_state (de_crypto env) (io_load io) ch d w = Inr (Some dc)"
    and ok: "verify_voucher (de_ed25519 env) (dc_state dc) v b slot = Inr ()"
    by (simp_all add: draw_verified_def)
  from load_open_exact [OF inv load] obtain r where
    r: "channel_of ch w = Some r" "ch_status r = channel_status_str Open"
      "decode_bs58_pubkey (de_crypto env) (ch_session_key r) = Inr (cs_session_key (dc_state dc))"
      "uint (cs_deposited_atomic (dc_state dc)) = ch_deposited r"
      "uint (cs_last_cumulative_atomic (dc_state dc)) = ch_last r"
      "cs_expected_request_digest (dc_state dc) = d" "dc_agent_wallet dc = ch_agent_wallet r"
    by blast
  note ok' = ok [unfolded verify_voucher_ok_iff]
  have "uint (v_cumulative_atomic v) = uint (cs_last_cumulative_atomic (dc_state dc)) + uint b"
    "uint (v_cumulative_atomic v) \<le> uint (cs_deposited_atomic (dc_state dc))"
    using ok' unfolding uint_nat by linarith+
  with r ok' show thesis by (intro that [of r "cs_session_key (dc_state dc)"]) simp_all
qed

text \<open>
  C2. A chat request answered with a receipt was paid for exactly once over the books: the voucher
  was signed by the channel's session key over this request's body, its cumulative is the
  channel's last one plus the quote, and on top of whatever the provider call left behind the
  channel was still open, its cumulative moved to the signed one, its realized sum grew by the
  charged amount, which is at most the quote, and one spend row and one receipt of that amount
  were recorded for the wallet that funded the channel.
\<close>
theorem draw_charge_sound:
  assumes run: "channel_draw env io rq w0 = (Inr (Delivered True), w')" and inv: "ledger_inv w0"
    and serve: "\<And>w. ledger_inv w \<Longrightarrow> ledger_inv (fst (io_serve io w))"
  shows "\<exists>v r0 key w ws r a s rc.
    voucher_from_payload (de_crypto env) (de_b64 env) (dr_voucher rq) = Inr v
    \<and> channel_of (cvp_channel_id (dr_voucher rq)) w0 = Some r0 \<and> ch_status r0 = ''open''
    \<and> decode_bs58_pubkey (de_crypto env) (ch_session_key r0) = Inr key
    \<and> verify_sig (de_ed25519 env) key (voucher_message v) (v_signature v)
    \<and> v_request_digest v = sha256 (de_crypto env) (dr_body rq)
    \<and> uint (v_cumulative_atomic v) = ch_last r0 + uint (dr_billed_atomic rq)
    \<and> same_books w0 w \<and> ws = fst (io_serve io w)
    \<and> channel_of (cvp_channel_id (dr_voucher rq)) ws = Some r \<and> ch_status r = ''open''
    \<and> ch_last r < uint (v_cumulative_atomic v) \<and> a \<le> dr_billed_atomic rq
    \<and> channel_of (cvp_channel_id (dr_voucher rq)) w' = Some (r\<lparr>ch_last := uint (v_cumulative_atomic v),
        ch_realized := ch_realized r + uint a\<rparr>)
    \<and> dw_spend w' = dw_spend ws @ [s] \<and> se_wallet s = ch_agent_wallet r0
    \<and> se_cost_usdc s = usdc_of_atomic a
    \<and> dw_receipts w' = dw_receipts ws @ [rc] \<and> rr_payer_wallet rc = ch_agent_wallet r0
    \<and> rr_amount_paid_atomic rc = a \<and> rr_total_atomic rc = a \<and> ledger_inv w'"
  using run
proof (cases rule: channel_draw_cases)
  case (drawn slot v w w1)
  from drawn(3) inv have winv: "ledger_inv w" by (simp add: same_books_inv)
  from chat.charge_moves_ledger [OF drawn(5) serve [OF winv]] obtain dc r a w2 where
    c: "draw_verified env io (cvp_channel_id (dr_voucher rq)) (dr_billed_atomic rq)
          (request_digest (de_crypto env) (dr_body rq)) slot v w dc"
      "channel_of (cvp_channel_id (dr_voucher rq)) (fst (io_serve io w)) = Some r" "ch_status r = ''open''"
      "a \<le> dr_billed_atomic rq" "ch_last r < uint (v_cumulative_atomic v)"
      "channel_of (cvp_channel_id (dr_voucher rq)) w1 = Some (r\<lparr>ch_last := uint (v_cumulative_atomic v),
         ch_realized := ch_realized r + uint a\<rparr>)"
      "ledger_inv w1" "charge_recorded dc a w2 w1"
      "dw_spend w2 = dw_spend (fst (io_serve io w))" "dw_receipts w2 = dw_receipts (fst (io_serve io w))" .
  from draw_verified_voucher [OF winv c(1)] obtain r0 key where
    v: "channel_of (cvp_channel_id (dr_voucher rq)) w = Some r0" "ch_status r0 = ''open''"
      "dc_agent_wallet dc = ch_agent_wallet r0"
      "decode_bs58_pubkey (de_crypto env) (ch_session_key r0) = Inr key"
      "verify_sig (de_ed25519 env) key (voucher_message v) (v_signature v)"
      "v_request_digest v = request_digest (de_crypto env) (dr_body rq)"
      "uint (v_cumulative_atomic v) = ch_last r0 + uint (dr_billed_atomic rq)" .
  from c(8) obtain s rc where
    rec: "w1 = w2\<lparr>dw_spend := dw_spend w2 @ [s], dw_receipts := dw_receipts w2 @ [rc]\<rparr>"
      "se_wallet s = dc_agent_wallet dc" "se_cost_usdc s = usdc_of_atomic a"
      "rr_payer_wallet rc = dc_agent_wallet dc" "rr_amount_paid_atomic rc = a" "rr_total_atomic rc = a"
    unfolding charge_recorded_def by blast
  have books: "channels w' = channels w1" "dw_spend w' = dw_spend w2 @ [s]"
    "dw_receipts w' = dw_receipts w2 @ [rc]" "ledger_inv w'"
    using drawn(4) rec(1) c(7) same_books_inv [OF drawn(4)] by (simp_all add: same_books_def)
  show ?thesis
    by (intro exI [of _ v] exI [of _ r0] exI [of _ key] exI [of _ w] exI [of _ "fst (io_serve io w)"]
        exI [of _ r] exI [of _ a] exI [of _ s] exI [of _ rc])
      (use drawn(2,3) c(2-6,9,10) v rec(2-6) books in \<open>simp add: same_books_def request_digest_def\<close>)
qed simp

text \<open>
  C26. A chat request that is refused, that no provider served, or that is answered without a receipt
  leaves the ledger, the spend rows and the receipts as they were before the request, or as the
  provider call left them, with one exception: the database applied the commit of a verified draw
  and its acknowledgement was lost. Then the open channel is debited as for the charged draw, by at
  most the quote, and there is neither a spend row nor a receipt.
\<close>
theorem uncharged_draw_debits_only_on_lost_ack:
  assumes run: "channel_draw env io rq w0 = (res, w')" and inv: "ledger_inv w0"
    and serve: "\<And>w. ledger_inv w \<Longrightarrow> ledger_inv (fst (io_serve io w))"
    and res: "res \<noteq> Inr (Delivered True)"
  shows "same_books w0 w' \<or> (\<exists>w ws. same_books w0 w \<and> ws = fst (io_serve io w) \<and>
    (same_books ws w' \<or>
     (stmt_fails (io_persist io) 3 \<and> commit_applies (io_persist io) \<and> res = Inr (Delivered False)
      \<and> (\<exists>v r a. voucher_from_payload (de_crypto env) (de_b64 env) (dr_voucher rq) = Inr v
           \<and> channel_of (cvp_channel_id (dr_voucher rq)) ws = Some r \<and> ch_status r = ''open''
           \<and> a \<le> dr_billed_atomic rq
           \<and> channel_of (cvp_channel_id (dr_voucher rq)) w' = Some (r\<lparr>ch_last := uint (v_cumulative_atomic v),
                ch_realized := ch_realized r + uint a\<rparr>))
      \<and> dw_spend w' = dw_spend ws \<and> dw_receipts w' = dw_receipts ws)))"
  using run
proof (cases rule: channel_draw_cases)
  case (drawn slot v w w1)
  from drawn(3) inv have winv: "ledger_inv w" by (simp add: same_books_inv)
  have refl: "same_books w0 w'" if "w1 = w"
    using that drawn(3,4) by (simp add: same_books_def)
  from chat.follows [OF drawn(5)] show ?thesis
  proof cases
    case (unpersisted dc a e)
    from serve [OF winv] unpersisted(4) show ?thesis
    proof (cases rule: persist_cases)
      case (unchanged e')
      with drawn(3,4) show ?thesis by auto
    next
      case (advance r vr)
      have "channel_of (cvp_channel_id (dr_voucher rq)) w' = Some (r\<lparr>ch_last := uint (v_cumulative_atomic v),
          ch_realized := ch_realized r + uint a\<rparr>)"
        using advance(1,7) row_SomeD [OF advance(1)] drawn(4)
        by (simp add: draw_record_def row_replace_row same_books_def)
      with advance unpersisted(1,3) drawn(2,4) show ?thesis
        by (intro disjI2 exI [of _ w] exI [of _ "fst (io_serve io w)"] conjI drawn(3) refl exI [of _ v] exI [of _ r] exI [of _ a])
          (auto simp: draw_record_def same_books_def)
    qed
  qed (use refl drawn(3,4) res in auto)
qed simp

text \<open>
  C17. One voucher pays for one request. Once a chat request was charged, every later chat or search
  request presenting the same voucher at a positive price is refused before it is served, and
  leaves the books alone, whatever the other requests and workers have done to the ledger since.
\<close>
theorem voucher_draws_once:
  assumes run: "channel_draw env io rq w0 = (Inr (Delivered True), w1)" and inv: "ledger_inv w0"
    and serve: "\<And>w. ledger_inv w \<Longrightarrow> ledger_inv (fst (io_serve io w))"
    and later: "ledger_grows w1 w2" "ledger_inv w2"
    and env: "de_crypto env' = de_crypto env" "de_b64 env' = de_b64 env"
  shows "(dr_voucher rq' = dr_voucher rq \<and> dr_billed_atomic rq' \<noteq> 0 \<longrightarrow>
      (\<forall>b. fst (channel_draw env' io' rq' w2) \<noteq> Inr (Delivered b))
      \<and> same_books w2 (snd (channel_draw env' io' rq' w2)))
    \<and> (sq_voucher sq = dr_voucher rq \<and> sc_total_atomic (sq_cost sq) \<noteq> 0 \<longrightarrow>
      (\<forall>b. fst (search_draw env' io' sq w2) \<noteq> Inr (Delivered b))
      \<and> same_books w2 (snd (search_draw env' io' sq w2)))"
proof -
  let ?ch = "cvp_channel_id (dr_voucher rq)"
  obtain v r where v: "voucher_from_payload (de_crypto env) (de_b64 env) (dr_voucher rq) = Inr v"
    and r: "channel_of ?ch w1 = Some r" "ch_last r = uint (v_cumulative_atomic v)"
    using run
  proof (cases rule: channel_draw_cases)
    case (drawn slot v w wl)
    from drawn(3) inv have winv: "ledger_inv w" by (simp add: same_books_inv)
    show thesis
      by (rule chat.charge_moves_ledger [OF drawn(5) serve [OF winv]])
        (use drawn(2,4) that in \<open>auto simp: same_books_def\<close>)
  qed simp
  with later(1) obtain r2 where r2: "channel_of ?ch w2 = Some r2" "uint (v_cumulative_atomic v) \<le> ch_last r2"
    unfolding ledger_grows_def channel_grows_def by metis
  have chat: "(\<forall>b. res \<noteq> Inr (Delivered b)) \<and> same_books w2 w'"
    if "dr_voucher rq' = dr_voucher rq" "dr_billed_atomic rq' \<noteq> 0"
      and "channel_draw env' io' rq' w2 = (res, w')" for res w'
    using that(3)
  proof (cases rule: channel_draw_cases)
    case (drawn slot v' w wl)
    have w: "v' = v" "ledger_inv w" "channel_of ?ch w = Some r2"
      using drawn(2,3) v env that(1) later(2) r2(1) same_books_inv [OF drawn(3)]
      by (simp_all add: same_books_def)
    from chat.stale_refused [OF w(2), of rq' r2 v env' io' "request_digest (de_crypto env') (dr_body rq')" slot]
      w r2(2) that(1,2) drawn(5) have "wl = w \<and> (\<exists>e. res = Inl e)" by auto
    with drawn(3,4) show ?thesis by (auto simp: same_books_def)
  qed simp
  have search: "(\<forall>b. res \<noteq> Inr (Delivered b)) \<and> same_books w2 w'"
    if "sq_voucher sq = dr_voucher rq" "sc_total_atomic (sq_cost sq) \<noteq> 0"
      and "search_draw env' io' sq w2 = (res, w')" for res w'
    using that(3)
  proof (cases rule: search_draw_cases)
    case (drawn slot v' w wl)
    have w: "v' = v" "ledger_inv w" "channel_of ?ch w = Some r2"
      using drawn(2,3) v env that(1) later(2) r2(1) same_books_inv [OF drawn(3)]
      by (simp_all add: same_books_def)
    from search.stale_refused [OF w(2), of sq r2 v env' io' "request_digest (de_crypto env') (sq_body sq)" slot]
      w r2(2) that(1,2) drawn(5) have "wl = w \<and> (\<exists>e. res = Inl e)" by auto
    with drawn(3,4) show ?thesis by (auto simp: same_books_def)
  qed simp
  show ?thesis
    using chat [OF _ _ surjective_pairing] search [OF _ _ surjective_pairing] by simp
qed

text \<open>
  The resync figure is authenticated: a draw that answers a rejection with the channel's last
  cumulative has loaded that figure from the channel's row and checked the voucher's signature
  under the channel's session key; nothing was served and the books are untouched.
\<close>
theorem resync_only_authenticated:
  assumes run: "channel_draw env io rq w0 = (Inl (Gw_InvalidPaymentWithResync n), w')"
    and inv: "ledger_inv w0"
  shows "\<exists>v r key. voucher_from_payload (de_crypto env) (de_b64 env) (dr_voucher rq) = Inr v
    \<and> channel_of (cvp_channel_id (dr_voucher rq)) w0 = Some r \<and> uint n = ch_last r
    \<and> decode_bs58_pubkey (de_crypto env) (ch_session_key r) = Inr key
    \<and> verify_sig (de_ed25519 env) key (voucher_message v) (v_signature v) \<and> same_books w0 w'"
  using run
proof (cases rule: channel_draw_cases)
  case (drawn slot v w w1)
  from drawn(3) inv have winv: "ledger_inv w" by (simp add: same_books_inv)
  from chat.resync [OF drawn(5)] obtain dc where dc: "w1 = w"
    "load_open_channel_state (de_crypto env) (io_load io) (cvp_channel_id (dr_voucher rq))
       (request_digest (de_crypto env) (dr_body rq)) w = Inr (Some dc)"
    "n = cs_last_cumulative_atomic (dc_state dc)"
    "verify_sig (de_ed25519 env) (cs_session_key (dc_state dc)) (voucher_message v) (v_signature v)"
    by blast
  from load_open_exact [OF winv dc(2)] dc(1,3,4) drawn(2-4) show ?thesis
    by (auto simp: same_books_def)
qed auto

section \<open>A verified draw is charged\<close>

lemma voucher_from_payload_Inr:
  assumes "voucher_from_payload cr b64 p = Inr v"
  shows "uint (v_nonce v) \<le> i64_max" "uint (v_expiry_slot v) \<le> i64_max"
    "v_cumulative_atomic v = cvp_cumulative_atomic p"
  using assms
  by (auto simp: voucher_from_payload_def and_then_Inr_iff not_less split: sum.splits if_splits)

text \<open>No verified voucher fails to persist on an untouched channel: the row takes every draw the
  verifier accepts.\<close>

lemma verified_draw_persists:
  assumes inv: "ledger_inv (ws :: draw_world)" and ver: "draw_verified env io ch b d slot v w dc"
    and books: "same_books w ws" and fits: "uint (v_nonce v) \<le> i64_max" "uint (v_expiry_slot v) \<le> i64_max"
    and b: "b \<noteq> 0" "a \<le> b"
  shows "fst (persist_voucher_and_advance no_faults (draw_record ch v b a) ws) = Inr ()"
proof -
  have winv: "ledger_inv w" using inv books by (simp add: same_books_inv)
  from draw_verified_voucher [OF winv ver] obtain r where
    r: "channel_of ch w = Some r" "ch_status r = ''open''"
      "uint (v_cumulative_atomic v) = ch_last r + uint b" "uint (v_cumulative_atomic v) \<le> ch_deposited r" .
  note ch = channel_chain [OF winv r(1)]
  have le: "uint a \<le> uint b" using b(2) by (simp add: word_le_def)
  have pos: "0 < uint b" using b(1) by (simp add: word_neq_0_conv word_less_def)
  show ?thesis
    by (rule persist_ok [OF inv, where r = r])
      (use books r ch fits le pos in \<open>simp_all add: same_books_def draw_record_def\<close>)
qed

lemma channel_draw_locked_charges:
  assumes ver: "draw_verified env io (cvp_channel_id (dr_voucher rq)) (dr_billed_atomic rq) d slot v w dc"
    and inv: "ledger_inv w" and fits: "uint (v_nonce v) \<le> i64_max" "uint (v_expiry_slot v) \<le> i64_max"
    and b: "dr_billed_atomic rq \<noteq> 0"
    and serve: "io_serve io w = (ws, Served reported prov out)" "same_books w ws"
    and held: "channel_draw_lock_held (fst (io_held io)) (snd (io_held io)) (cvp_channel_id (dr_voucher rq))
      (io_token io) (dw_redis ws) \<noteq> Inr False"
    and ft: "io_persist io = no_faults"
  shows "fst (channel_draw_locked env io rq d slot v w) = Inr (Delivered True)"
proof -
  let ?usage = "map_option (\<lambda>u. cap_usage_to_request_limits u (dr_request rq) (dr_model_info rq)) reported"
  obtain arm where arm: "chat_arm_billed (de_fee env) (dr_billed_atomic rq) (dr_model_info rq) ?usage out
      = Some arm"
    using chat_arm_billed_total by blast
  have "fst (persist_voucher_and_advance no_faults (draw_record (cvp_channel_id (dr_voucher rq)) v
      (dr_billed_atomic rq) (min arm (dr_billed_atomic rq))) ws) = Inr ()"
    using verified_draw_persists [OF _ ver serve(2) fits b] inv serve(2) by (simp add: same_books_inv)
  then obtain w2 where "persist_voucher_and_advance no_faults (draw_record (cvp_channel_id (dr_voucher rq)) v
      (dr_billed_atomic rq) (min arm (dr_billed_atomic rq))) ws = (Inr (), w2)"
    by (metis prod.collapse)
  with ver arm serve held ft show ?thesis
    by (simp add: channel_draw_locked_def Let_def draw_verified_def split: prod.splits)
qed

text \<open>
  C27. There is no free serving of a verified voucher. If channels are enabled with a database and a
  cache, the accepted amount is the positive quote, a slot is known, the draw lock is free and Redis
  answers its acquisition and the ownership check, the voucher decodes and verifies against the
  channel's row, the provider serves within the lock's time to live, nobody else touches the books or
  the lock in between, and the database has no fault while the voucher is persisted, then the request
  is charged. In particular every voucher the decoder lets through fits the columns it is stored in.
\<close>
theorem verified_draw_is_charged:
  assumes gates: "de_enabled env" "de_has_db env" "de_has_cache env"
    and quote: "dr_accepted_amount rq = nat_text (unat (dr_billed_atomic rq))" "dr_billed_atomic rq \<noteq> 0"
    and slot: "fetch_cached_slot_bounded CHANNEL_SLOT_MAX_STALENESS (fst (io_slot io)) (snd (io_slot io))
      (dw_slot_cache w0) = Some slot"
    and vou: "voucher_from_payload (de_crypto env) (de_b64 env) (dr_voucher rq) = Inr v"
    and lock: "io_acquire io = (Rd_Ok, t)" "io_held io = (Rd_Ok, t')" "t' < t + CHANNEL_DRAW_LOCK_TTL_SECS"
      "rd_get t (CHANNEL_DRAW_LOCK_PREFIX @ cvp_channel_id (dr_voucher rq)) (dw_redis w0) = None"
    and ver: "draw_verified env io (cvp_channel_id (dr_voucher rq)) (dr_billed_atomic rq)
      (request_digest (de_crypto env) (dr_body rq)) slot v w0 dc"
    and inv: "ledger_inv w0"
    and serve: "\<And>w. same_books w (fst (io_serve io w)) \<and> dw_redis (fst (io_serve io w)) = dw_redis w
      \<and> (\<exists>reported prov out. snd (io_serve io w) = Served reported prov out)"
    and ft: "io_persist io = no_faults"
  shows "fst (channel_draw env io rq w0) = Inr (Delivered True)"
proof -
  let ?k = "CHANNEL_DRAW_LOCK_PREFIX @ cvp_channel_id (dr_voucher rq)"
  define rd where "rd = (dw_redis w0)(?k \<mapsto> (io_token io, Some (t + CHANNEL_DRAW_LOCK_TTL_SECS)))"
  define w where "w = w0\<lparr>dw_slot_cache := snd (read_cached_slot_with_age (fst (io_slot io)) (snd (io_slot io))
    (dw_slot_cache w0)), dw_redis := rd\<rparr>"
  have books: "same_books w0 w" by (simp add: w_def same_books_def)
  have acq: "acquire_channel_draw_lock (fst (io_acquire io)) (snd (io_acquire io)) (io_token io)
      (cvp_channel_id (dr_voucher rq)) (dw_redis w0) = (Inr (Some (io_token io)), rd)"
    using lock by (simp add: acquire_channel_draw_lock_def rd_command_def rd_set_nx_ex_def rd_def)
  have ver': "draw_verified env io (cvp_channel_id (dr_voucher rq)) (dr_billed_atomic rq)
      (request_digest (de_crypto env) (dr_body rq)) slot v w dc"
    using ver draw_verified_books [OF books] by blast
  from serve [of w] obtain ws reported prov out where
    ws: "io_serve io w = (ws, Served reported prov out)" "same_books w ws" "dw_redis ws = rd"
    by (cases "io_serve io w") (auto simp: w_def)
  have "channel_draw_lock_held (fst (io_held io)) (snd (io_held io)) (cvp_channel_id (dr_voucher rq))
      (io_token io) (dw_redis ws) \<noteq> Inr False"
    using lock ws(3) by (simp add: channel_draw_lock_held_def rd_command_def rd_get_def rd_def)
  from channel_draw_locked_charges [OF ver' _ voucher_from_payload_Inr(1,2) [OF vou] quote(2) ws(1,2) this ft]
  have "fst (channel_draw_locked env io rq (request_digest (de_crypto env) (dr_body rq)) slot v w)
      = Inr (Delivered True)"
    using inv books by (simp add: same_books_inv)
  then show ?thesis
    using gates quote slot vou acq
    by (simp add: channel_draw_def Let_def w_def case_prod_beta)
qed

section \<open>A worked draw\<close>

definition demo_draw_env :: draw_env where
  "demo_draw_env = \<lparr>de_enabled = True, de_has_db = True, de_has_cache = True, de_crypto = demo_crypto,
     de_ed25519 = \<lparr>valid_key = \<lambda>_. True, verify_sig = \<lambda>_ _ _. True\<rparr>,
     de_b64 = (\<lambda>s. Some (replicate (if s = ''d'' then 32 else 64) 1)), de_fee = 5\<rparr>"

definition demo_draw_io :: "nat \<Rightarrow> db_faults \<Rightarrow> draw_io" where
  "demo_draw_io now ft = \<lparr>io_slot = (now, None), io_token = ''t'', io_receipt_id = ''r'', io_acquire = (Rd_Ok, 0),
     io_load = no_faults, io_require_tenant = (\<lambda>_. False), io_serve = (\<lambda>w. (w, Served None None None)),
     io_held = (Rd_Ok, 10), io_persist = ft, io_release = (Rd_Ok, 11)\<rparr>"

definition demo_draw_payload :: channel_voucher_payload where
  "demo_draw_payload = \<lparr>cvp_channel_id = ''c1'', cvp_cumulative_atomic = 40, cvp_expiry_slot = 160,
     cvp_nonce = 1, cvp_request_digest = ''d'', cvp_signature = ''s''\<rparr>"

definition demo_draw_model :: model_registration where
  "demo_draw_model = \<lparr>mr_id = ''p/m'', mr_provider = ''p'', mr_model_id = ''m'', mr_display_name = ''M'',
     mr_input_cost_per_million = F64_Fin False 1, mr_output_cost_per_million = F64_Fin False 1,
     mr_context_window = 1000, mr_supports_streaming = True, mr_supports_tools = False,
     mr_supports_vision = False, mr_reasoning = False, mr_supports_structured_output = False,
     mr_supports_batch = False, mr_max_output_tokens = None\<rparr>"

definition demo_draw_request :: draw_request where
  "demo_draw_request = \<lparr>dr_body = replicate 32 1,
     dr_request = \<lparr>rq_model = ''p/m'', rq_messages = [], rq_max_tokens = None, rq_stream = True\<rparr>,
     dr_model_info = demo_draw_model, dr_billed_atomic = 40, dr_accepted_amount = nat_text 40,
     dr_voucher = demo_draw_payload, dr_request_id = None, dr_session_id = None, dr_tenant = None,
     dr_routing_tier = None, dr_routing_score = None\<rparr>"

definition demo_search_request :: search_request where
  "demo_search_request = \<lparr>sq_body = replicate 32 1,
     sq_cost = \<lparr>sc_provider_atomic = 38, sc_fee_atomic = 2, sc_total_atomic = 40\<rparr>,
     sq_accepted_amount = nat_text 40, sq_voucher = demo_draw_payload, sq_provider_name = ''p'', sq_request_id = None\<rparr>"

definition demo_draw_voucher :: voucher where
  "demo_draw_voucher = \<lparr>v_channel_id = ascii ''c1'' @ replicate 30 0, v_cumulative_atomic = 40,
     v_expiry_slot = 160, v_nonce = 1, v_request_digest = replicate 32 1, v_signature = replicate 64 1\<rparr>"

definition demo_draw_world :: draw_world where
  "demo_draw_world = \<lparr>channels = [demo_row], channel_vouchers = [], dw_redis = Map.empty,
     dw_slot_cache = Some (100, 0), dw_spend = [], dw_receipts = []\<rparr>"

definition demo_drawable :: drawable_channel where
  "demo_drawable = \<lparr>dc_state = \<lparr>cs_channel_id = ascii ''c1'' @ replicate 30 0,
     cs_deposited_atomic = 100, cs_settled_atomic = 0, cs_last_cumulative_atomic = 0,
     cs_session_key = ascii ''key'' @ replicate 29 0, cs_expected_request_digest = replicate 32 1\<rparr>,
     dc_agent_wallet = ''agent''\<rparr>"

lemma demo_draw_inv: "ledger_inv demo_draw_world"
proof -
  have eq: "channels demo_draw_world = channels demo_ledger"
    "channel_vouchers demo_draw_world = channel_vouchers demo_ledger"
    by (simp_all add: demo_ledger_eq demo_draw_world_def)
  show ?thesis
    using ledger.reach_inv [OF demo_ledger_reach] unfolding ledger_inv_def eq .
qed

lemma demo_draw_voucher:
  "voucher_from_payload demo_crypto (de_b64 demo_draw_env) demo_draw_payload = Inr demo_draw_voucher"
  by (simp add: voucher_from_payload_def demo_crypto_def demo_draw_payload_def decode_bs58_pubkey_def
      ascii_def i64_max_def fixed_array_def demo_draw_env_def and_then_def demo_draw_voucher_def)

lemma demo_draw_verified:
  "draw_verified demo_draw_env (demo_draw_io now ft) ''c1'' 40 (replicate 32 1) 100 demo_draw_voucher
     demo_draw_world demo_drawable"
  unfolding draw_verified_def verify_voucher_ok_iff
  by (simp add: demo_draw_env_def demo_draw_io_def demo_draw_voucher_def demo_drawable_def
      load_open_channel_state_def demo_draw_world_def demo_row_def no_faults_def select_one_def
      demo_crypto_def decode_bs58_pubkey_def ascii_def i64_to_atomic_def)

definition demo_lost_ack :: db_faults where
  "demo_lost_ack = \<lparr>stmt_fails = \<lambda>n. n = 3, commit_applies = True\<rparr>"

definition demo_rolled_back :: db_faults where
  "demo_rolled_back = \<lparr>stmt_fails = \<lambda>n. n = 3, commit_applies = False\<rparr>"

definition demo_vouched :: voucher_db_row where
  "demo_vouched = fst (projr (voucher_db_row_of (draw_record ''c1'' demo_draw_voucher 40 40)))"

lemma demo_draw_persist:
  assumes "channels (w :: draw_world) = [demo_row]" "channel_vouchers w = []"
    and "\<not> stmt_fails ft 0" "\<not> stmt_fails ft 1" "\<not> stmt_fails ft 2"
  shows "persist_voucher_and_advance ft (draw_record ''c1'' demo_draw_voucher 40 40) w =
    (if stmt_fails ft 3 then Inl (Db ConnectionFault) else Inr (),
     if stmt_fails ft 3 \<and> \<not> commit_applies ft then w else w\<lparr>channels := [demo_row\<lparr>ch_last := 40, ch_realized := 40\<rparr>], channel_vouchers := [demo_vouched]\<rparr>)"
  using assms
  by (simp add: persist_voucher_and_advance_def draw_record_def demo_draw_voucher_def voucher_db_row_of_def
      atomic_to_i64_def i64_max_def insert_voucher_def demo_row_def keyed_cas_def
      advance_row_def check_row_def channel_checks_def commit_def Let_def demo_vouched_def)

lemmas demo_draw_defs = demo_draw_env_def demo_draw_io_def demo_draw_request_def demo_search_request_def

lemma demo_request_digest: "request_digest demo_crypto (replicate 32 1) = replicate 32 1"
  by (simp add: request_digest_def demo_crypto_def)

lemma demo_draw_gate:
  "load_open_channel_state demo_crypto no_faults ''c1'' (replicate 32 1)
     (demo_draw_world\<lparr>dw_slot_cache := sc, dw_redis := rd\<rparr>) = Inr (Some demo_drawable)"
  "verify_voucher (de_ed25519 demo_draw_env) (dc_state demo_drawable) demo_draw_voucher 40 100 = Inr ()"
  using demo_draw_verified [of 0 no_faults] load_open_books
    [of demo_draw_world "demo_draw_world\<lparr>dw_slot_cache := sc, dw_redis := rd\<rparr>"]
  by (simp_all add: draw_verified_def same_books_def demo_draw_env_def demo_draw_io_def)

definition demo_lock :: "redis" where
  "demo_lock = [CHANNEL_DRAW_LOCK_PREFIX @ ''c1'' \<mapsto> (''t'', Some 900)]"

lemma demo_acquire:
  "acquire_channel_draw_lock Rd_Ok 0 ''t'' ''c1'' (dw_redis demo_draw_world) = (Inr (Some ''t''), demo_lock)"
  "channel_draw_lock_held Rd_Ok 10 ''c1'' ''t'' demo_lock = Inr True"
  by (simp_all add: acquire_channel_draw_lock_def rd_command_def rd_set_nx_ex_def rd_get_def
      demo_draw_world_def demo_lock_def CHANNEL_DRAW_LOCK_TTL_SECS_def channel_draw_lock_held_def)

definition demo_faults_ok :: "db_faults \<Rightarrow> bool" where
  "demo_faults_ok ft \<longleftrightarrow> \<not> stmt_fails ft 0 \<and> \<not> stmt_fails ft 1 \<and> \<not> stmt_fails ft 2"

lemma demo_channel_draw_locked:
  assumes "demo_faults_ok ft"
  shows "case channel_draw_locked demo_draw_env (demo_draw_io now ft) demo_draw_request (replicate 32 1) 100
      demo_draw_voucher (demo_draw_world\<lparr>dw_slot_cache := sc, dw_redis := demo_lock\<rparr>) of (res, w) \<Rightarrow>
    res = Inr (Delivered (\<not> stmt_fails ft 3))
    \<and> channels w = (if stmt_fails ft 3 \<and> \<not> commit_applies ft then [demo_row]
         else [demo_row\<lparr>ch_last := 40, ch_realized := 40\<rparr>])
    \<and> length (dw_receipts w) = (if stmt_fails ft 3 then 0 else 1)
    \<and> length (dw_spend w) = (if stmt_fails ft 3 then 0 else 1)"
proof -
  let ?w = "demo_draw_world\<lparr>dw_slot_cache := sc, dw_redis := demo_lock\<rparr>"
  have p: "persist_voucher_and_advance ft (draw_record ''c1'' demo_draw_voucher 40 40) ?w =
    (if stmt_fails ft 3 then Inl (Db ConnectionFault) else Inr (),
     if stmt_fails ft 3 \<and> \<not> commit_applies ft then ?w else ?w\<lparr>channels := [demo_row\<lparr>ch_last := 40, ch_realized := 40\<rparr>], channel_vouchers := [demo_vouched]\<rparr>)"
    by (rule demo_draw_persist) (use assms in \<open>simp_all add: demo_draw_world_def demo_faults_ok_def\<close>)
  have arm: "chat_arm_billed fee b m None None = Some b" for fee b m
    by (simp add: chat_arm_billed_def select_spend_log_arm_def)
  show ?thesis
    using demo_draw_gate(1) [where sc = sc and rd = demo_lock] demo_draw_gate(2) demo_acquire p
    by (simp add: channel_draw_locked_def Let_def demo_draw_defs arm demo_draw_payload_def
        case_prod_beta demo_draw_world_def)
qed

text \<open>The search draw at the same figures, whatever the age of the cached slot.\<close>

lemma demo_search_draw_locked:
  "fst (search_draw_locked demo_draw_env (demo_draw_io now no_faults) demo_search_request (replicate 32 1) 100
     demo_draw_voucher (demo_draw_world\<lparr>dw_slot_cache := sc, dw_redis := demo_lock\<rparr>))
     = Inr (Delivered True)"
proof -
  let ?w = "demo_draw_world\<lparr>dw_slot_cache := sc, dw_redis := demo_lock\<rparr>"
  have p: "persist_voucher_and_advance no_faults (draw_record ''c1'' demo_draw_voucher 40 40) ?w =
    (Inr (), ?w\<lparr>channels := [demo_row\<lparr>ch_last := 40, ch_realized := 40\<rparr>], channel_vouchers := [demo_vouched]\<rparr>)"
    using demo_draw_persist [of ?w no_faults] by (simp add: demo_draw_world_def no_faults_def)
  show ?thesis
    using demo_draw_gate(1) [where sc = sc and rd = demo_lock] demo_draw_gate(2) demo_acquire p
    by (simp add: search_draw_locked_def Let_def demo_draw_defs demo_draw_payload_def
        case_prod_beta demo_draw_world_def)
qed

lemma demo_slot:
  "read_cached_slot_with_age now None (dw_slot_cache demo_draw_world) = (Some (100, 0), Some (100, 0))"
  by (simp add: read_cached_slot_with_age_def demo_draw_world_def)

lemma demo_channel_draw:
  assumes "demo_faults_ok ft" "now \<le> CHANNEL_SLOT_MAX_STALENESS"
  shows "case channel_draw demo_draw_env (demo_draw_io now ft) demo_draw_request demo_draw_world of (res, w) \<Rightarrow>
    res = Inr (Delivered (\<not> stmt_fails ft 3))
    \<and> channels w = (if stmt_fails ft 3 \<and> \<not> commit_applies ft then [demo_row]
         else [demo_row\<lparr>ch_last := 40, ch_realized := 40\<rparr>])
    \<and> length (dw_receipts w) = (if stmt_fails ft 3 then 0 else 1)
    \<and> length (dw_spend w) = (if stmt_fails ft 3 then 0 else 1)"
  using demo_channel_draw_locked [OF assms(1), where now = now and sc = "Some (100, 0)"] assms(2)
    demo_draw_voucher demo_acquire(1)
  by (simp add: channel_draw_def Let_def demo_draw_env_def demo_draw_io_def demo_draw_request_def
      demo_request_digest fetch_cached_slot_bounded_def demo_slot case_prod_beta demo_draw_payload_def)

lemma demo_channel_draw_charged:
  "channel_draw demo_draw_env (demo_draw_io 0 no_faults) demo_draw_request demo_draw_world
     = (Inr (Delivered True), snd (channel_draw demo_draw_env (demo_draw_io 0 no_faults) demo_draw_request
         demo_draw_world))"
  using demo_channel_draw [of no_faults 0] by (simp add: case_prod_beta prod_eq_iff demo_faults_ok_def no_faults_def)

text \<open>
  A search draw has no bound on the age of the slot it checks a voucher's expiry against: with
  the node unreachable for an hour and the cached slot of an hour ago it still charges a voucher
  that was 60 slots from expiry then, and expired some nine thousand slots ago now; the chat draw
  of the same voucher in the same state is refused.
\<close>
theorem search_draw_accepts_stale_slot:
  "fst (search_draw demo_draw_env (demo_draw_io 3600000 no_faults) demo_search_request demo_draw_world)
     = Inr (Delivered True)
   \<and> fst (channel_draw demo_draw_env (demo_draw_io 3600000 no_faults) demo_draw_request demo_draw_world)
     = Inl (Gw_ServiceUnavailable ''could not reach the Solana cluster'')
   \<and> dw_slot_cache demo_draw_world = Some (100, 0) \<and> v_expiry_slot demo_draw_voucher = 160"
proof (intro conjI)
  show "fst (search_draw demo_draw_env (demo_draw_io 3600000 no_faults) demo_search_request demo_draw_world)
     = Inr (Delivered True)"
    using demo_search_draw_locked [where now = 3600000 and sc = "Some (100, 0)"] demo_draw_voucher demo_acquire(1)
    by (simp add: search_draw_def Let_def demo_draw_env_def demo_draw_io_def demo_search_request_def
        demo_request_digest fetch_cached_slot_def demo_slot case_prod_beta demo_draw_payload_def)
  show "fst (channel_draw demo_draw_env (demo_draw_io 3600000 no_faults) demo_draw_request demo_draw_world)
     = Inl (Gw_ServiceUnavailable ''could not reach the Solana cluster'')"
    by (simp add: channel_draw_def demo_draw_env_def demo_draw_io_def demo_draw_request_def
        fetch_cached_slot_bounded_def demo_slot CHANNEL_SLOT_MAX_STALENESS_def)
qed (simp_all add: demo_draw_world_def demo_draw_voucher_def)

text \<open>
  The ledger invariant of the draw, that a spend row and a receipt exist exactly when the channel
  was debited, holds in one direction only: when the database applies the commit but its
  acknowledgement is lost, the channel is debited by the voucher and no spend row and no receipt
  is written.
\<close>
theorem lost_ack_debits_without_receipt:
  "case channel_draw demo_draw_env (demo_draw_io 0 demo_lost_ack) demo_draw_request demo_draw_world of
     (res, w) \<Rightarrow> res = Inr (Delivered False) \<and> dw_receipts w = [] \<and> dw_spend w = []
       \<and> channel_of ''c1'' demo_draw_world = Some demo_row
       \<and> channel_of ''c1'' w = Some (demo_row\<lparr>ch_last := 40, ch_realized := 40\<rparr>)"
  using demo_channel_draw [of demo_lost_ack 0]
  by (simp add: case_prod_beta demo_faults_ok_def demo_lost_ack_def demo_draw_world_def row_def demo_row_def)

section \<open>Witnesses\<close>

lemma demo_draw_serve: "fst (io_serve (demo_draw_io now ft) w) = w"
  by (simp add: demo_draw_io_def)

theorem verified_draw_is_charged_witness:
  "fst (channel_draw demo_draw_env (demo_draw_io 0 no_faults) demo_draw_request demo_draw_world)
     = Inr (Delivered True)"
proof (rule verified_draw_is_charged [where slot = 100 and v = demo_draw_voucher and t = 0 and t' = 10
      and dc = demo_drawable])
  show "fetch_cached_slot_bounded CHANNEL_SLOT_MAX_STALENESS (fst (io_slot (demo_draw_io 0 no_faults)))
      (snd (io_slot (demo_draw_io 0 no_faults))) (dw_slot_cache demo_draw_world) = Some 100"
    by (simp add: fetch_cached_slot_bounded_def demo_draw_io_def demo_slot)
  show "draw_verified demo_draw_env (demo_draw_io 0 no_faults) (cvp_channel_id (dr_voucher demo_draw_request))
      (dr_billed_atomic demo_draw_request) (request_digest (de_crypto demo_draw_env) (dr_body demo_draw_request))
      100 demo_draw_voucher demo_draw_world demo_drawable"
    using demo_draw_verified [of 0 no_faults]
    by (simp add: demo_draw_request_def demo_draw_payload_def demo_request_digest demo_draw_env_def)
  show "rd_get 0 (CHANNEL_DRAW_LOCK_PREFIX @ cvp_channel_id (dr_voucher demo_draw_request))
      (dw_redis demo_draw_world) = None"
    by (simp add: rd_get_def demo_draw_world_def)
  show "voucher_from_payload (de_crypto demo_draw_env) (de_b64 demo_draw_env) (dr_voucher demo_draw_request)
      = Inr demo_draw_voucher"
    using demo_draw_voucher by (simp add: demo_draw_request_def demo_draw_env_def)
qed (simp_all add: demo_draw_inv demo_draw_request_def demo_draw_io_def CHANNEL_DRAW_LOCK_TTL_SECS_def
    same_books_def demo_draw_env_def)

theorem draw_charge_sound_witness:
  "\<exists>r a. a \<le> 40 \<and> channel_of ''c1'' (snd (channel_draw demo_draw_env (demo_draw_io 0 no_faults)
      demo_draw_request demo_draw_world)) = Some (r\<lparr>ch_last := 40, ch_realized := ch_realized r + uint (a :: u64)\<rparr>)"
proof -
  have "voucher_from_payload (de_crypto demo_draw_env) (de_b64 demo_draw_env) (dr_voucher demo_draw_request)
      = Inr demo_draw_voucher"
    using demo_draw_voucher by (simp add: demo_draw_request_def demo_draw_env_def)
  then show ?thesis
    using draw_charge_sound [OF demo_channel_draw_charged demo_draw_inv] demo_draw_serve
    by (fastforce simp: demo_draw_voucher_def demo_draw_request_def demo_draw_payload_def)
qed

text \<open>Served and rolled back: nothing is debited. Served, committed and the acknowledgement lost: the
  channel is debited without a receipt.\<close>

theorem uncharged_draw_debits_only_on_lost_ack_witness:
  "same_books demo_draw_world
     (snd (channel_draw demo_draw_env (demo_draw_io 0 demo_rolled_back) demo_draw_request demo_draw_world))
   \<and> (\<exists>r. channel_of ''c1'' (snd (channel_draw demo_draw_env (demo_draw_io 0 demo_lost_ack) demo_draw_request
        demo_draw_world)) = Some r \<and> ch_status r = ''open'' \<and> ch_last r = 40)"
proof -
  have run: "channel_draw demo_draw_env (demo_draw_io 0 ft) demo_draw_request demo_draw_world
      = (Inr (Delivered False), snd (channel_draw demo_draw_env (demo_draw_io 0 ft) demo_draw_request demo_draw_world))"
    if "ft = demo_rolled_back \<or> ft = demo_lost_ack" for ft
    using that demo_channel_draw [of ft 0]
    by (auto simp: case_prod_beta prod_eq_iff demo_faults_ok_def demo_rolled_back_def demo_lost_ack_def)
  have books: "channels (snd (channel_draw demo_draw_env (demo_draw_io 0 demo_lost_ack) demo_draw_request demo_draw_world))
      \<noteq> channels demo_draw_world"
    using demo_channel_draw [of demo_lost_ack 0]
    by (simp add: case_prod_beta demo_faults_ok_def demo_lost_ack_def demo_draw_world_def demo_row_def)
  have serve: "ledger_inv (fst (io_serve (demo_draw_io 0 ft) w))" if "ledger_inv w" for w ft
    using that by (simp add: demo_draw_serve)
  have v: "voucher_from_payload (de_crypto demo_draw_env) (de_b64 demo_draw_env) (dr_voucher demo_draw_request)
      = Inr demo_draw_voucher"
    using demo_draw_voucher by (simp add: demo_draw_request_def demo_draw_env_def)
  have ch: "cvp_channel_id (dr_voucher demo_draw_request) = ''c1''" "v_cumulative_atomic demo_draw_voucher = 40"
    by (simp_all add: demo_draw_request_def demo_draw_payload_def demo_draw_voucher_def)
  show ?thesis
  proof
    show "same_books demo_draw_world
        (snd (channel_draw demo_draw_env (demo_draw_io 0 demo_rolled_back) demo_draw_request demo_draw_world))"
      using uncharged_draw_debits_only_on_lost_ack [OF run [of demo_rolled_back] demo_draw_inv serve] demo_draw_serve
      by (auto simp: demo_draw_io_def demo_rolled_back_def same_books_def)
    show "\<exists>r. channel_of ''c1'' (snd (channel_draw demo_draw_env (demo_draw_io 0 demo_lost_ack) demo_draw_request
        demo_draw_world)) = Some r \<and> ch_status r = ''open'' \<and> ch_last r = 40"
      using uncharged_draw_debits_only_on_lost_ack [OF run [of demo_lost_ack] demo_draw_inv serve] books
      by (auto simp: demo_draw_serve same_books_def v ch)
  qed
qed

theorem voucher_draws_once_witness:
  "fst (search_draw demo_draw_env (demo_draw_io 1 no_faults) demo_search_request
     (snd (channel_draw demo_draw_env (demo_draw_io 0 no_faults) demo_draw_request demo_draw_world)))
   \<noteq> Inr (Delivered True)"
proof -
  let ?w = "snd (channel_draw demo_draw_env (demo_draw_io 0 no_faults) demo_draw_request demo_draw_world)"
  have inv: "ledger_inv ?w"
  proof (cases rule: channel_draw_cases [OF demo_channel_draw_charged])
    case (2 slot v w w1)
    have "ledger_inv (fst (io_serve (demo_draw_io 0 no_faults) w))"
      using same_books_inv [OF 2(3)] demo_draw_inv by (simp add: demo_draw_serve)
    from chat.charge_moves_ledger [OF 2(5) this] have "ledger_inv w1" .
    then show ?thesis using same_books_inv [OF 2(4)] by simp
  qed simp
  show ?thesis
    using voucher_draws_once [OF demo_channel_draw_charged demo_draw_inv _ ledger_grows_refl inv refl refl,
        where sq = demo_search_request and io' = "demo_draw_io 1 no_faults"] demo_draw_serve
    by (simp add: demo_search_request_def demo_draw_request_def)
qed

theorem resync_only_authenticated_witness:
  "\<exists>r. channel_of ''c1'' demo_draw_world = Some r \<and> ch_last r = 0"
proof -
  let ?rq = "demo_draw_request\<lparr>dr_billed_atomic := 41, dr_accepted_amount := nat_text 41\<rparr>"
  let ?r = "channel_draw demo_draw_env (demo_draw_io 0 no_faults) ?rq demo_draw_world"
  have "verify_voucher (de_ed25519 demo_draw_env) (dc_state demo_drawable) demo_draw_voucher 41 100
      = Inl (DeltaMismatch 41 40)"
    by (simp add: verify_voucher_def demo_draw_env_def demo_drawable_def demo_draw_voucher_def Let_def
        saturating_sub_def MIN_EXPIRY_BUFFER_SLOTS_def checked_sub_def)
  then have "channel_draw_locked demo_draw_env (demo_draw_io 0 no_faults) ?rq (replicate 32 1) 100
      demo_draw_voucher (demo_draw_world\<lparr>dw_slot_cache := Some (100, 0), dw_redis := demo_lock\<rparr>)
      = (Inl (Gw_InvalidPaymentWithResync 0),
         demo_draw_world\<lparr>dw_slot_cache := Some (100, 0), dw_redis := demo_lock\<rparr>)"
    using demo_draw_gate(1) [where sc = "Some (100, 0)" and rd = demo_lock]
    by (simp add: channel_draw_locked_def Let_def demo_draw_defs demo_draw_payload_def demo_drawable_def)
  then have "channel_draw demo_draw_env (demo_draw_io 0 no_faults) ?rq demo_draw_world
      = (Inl (Gw_InvalidPaymentWithResync 0), snd ?r)"
    using demo_draw_voucher demo_acquire(1)
    by (simp add: channel_draw_def Let_def demo_draw_env_def demo_draw_io_def demo_draw_request_def
        demo_request_digest fetch_cached_slot_bounded_def demo_slot case_prod_beta demo_draw_payload_def)
  from resync_only_authenticated [OF this demo_draw_inv] show ?thesis
    by (auto simp: demo_draw_request_def demo_draw_payload_def)
qed

end
