(* ===== verification/Rate_Limit.thy ===== *)
theory Rate_Limit
  imports Redis_Cache "HOL-Library.AList"
begin

text \<open>
  Rate limiting (\<open>gateway/src/middleware/rate_limit.rs\<close>): the fixed-window limiter per client with
  its clean-up, the aggregate cap of the free tier over the shared store, and the choice of the
  client a request is counted against (\<open>payment_util.rs\<close>). Times are readings of a monotonic clock in
  one fixed unit.
\<close>

section \<open>Configuration\<close>

record rate_limit_config =
  max_requests :: "32 word"
  rl_window :: nat
  unknown_max_requests :: "32 word"

definition default_rate_limit :: rate_limit_config where
  "default_rate_limit = \<lparr>max_requests = 60, rl_window = 60, unknown_max_requests = 10\<rparr>"

definition with_max_requests :: "32 word \<Rightarrow> rate_limit_config" where
  "with_max_requests n = default_rate_limit\<lparr>max_requests := n\<rparr>"

definition free_default :: rate_limit_config where
  "free_default = \<lparr>max_requests = 5, rl_window = 60, unknown_max_requests = 2\<rparr>"

definition receipts_default :: rate_limit_config where
  "receipts_default = \<lparr>max_requests = 20, rl_window = 60, unknown_max_requests = 5\<rparr>"

definition a2a_tasks_default :: rate_limit_config where
  "a2a_tasks_default = \<lparr>max_requests = 20, rl_window = 60, unknown_max_requests = 5\<rparr>"

definition deposit_tx_default :: rate_limit_config where
  "deposit_tx_default = \<lparr>max_requests = 20, rl_window = 60, unknown_max_requests = 5\<rparr>"

definition faucet_default :: rate_limit_config where
  "faucet_default = \<lparr>max_requests = 3, rl_window = 24 * 60 * 60, unknown_max_requests = 1\<rparr>"

section \<open>The limiter\<close>

record rate_limit_entry =
  rle_count :: "32 word"
  rle_window_start :: nat

record rate_limiter =
  rl_config :: rate_limit_config
  rl_entries :: "(string \<times> rate_limit_entry) list"
  rl_last_emergency_cleanup :: "nat option"

definition new_rate_limiter :: "rate_limit_config \<Rightarrow> rate_limiter" where
  "new_rate_limiter config =
     \<lparr>rl_config = config, rl_entries = [], rl_last_emergency_cleanup = None\<rparr>"

definition retain_recent :: "nat \<Rightarrow> nat \<Rightarrow> (string \<times> rate_limit_entry) list \<Rightarrow> (string \<times> rate_limit_entry) list"
where
  "retain_recent now window entries =
     filter (\<lambda>(_, entry). now - rle_window_start entry < window * 2) entries"

definition cleanup :: "nat \<Rightarrow> rate_limiter \<Rightarrow> rate_limiter" where
  "cleanup now l = l\<lparr>rl_entries := retain_recent now (rl_window (rl_config l)) (rl_entries l)\<rparr>"

definition maybe_emergency_cleanup :: "nat \<Rightarrow> rate_limiter \<Rightarrow> rate_limiter" where
  "maybe_emergency_cleanup now l =
    (case rl_last_emergency_cleanup l of
       Some t \<Rightarrow> if now - t < 60 then l else cleanup now (l\<lparr>rl_last_emergency_cleanup := Some now\<rparr>)
     | None \<Rightarrow> cleanup now (l\<lparr>rl_last_emergency_cleanup := Some now\<rparr>))"

definition effective_limit :: "rate_limit_config \<Rightarrow> string \<Rightarrow> 32 word" where
  "effective_limit config client_id =
    (if client_id = ''unknown'' then unknown_max_requests config else max_requests config)"

text \<open>The entry a request is counted in: a fresh one when there is none, reset when its window
  has passed. The addition wraps.\<close>

definition counted_entry :: "rate_limit_config \<Rightarrow> nat \<Rightarrow> rate_limit_entry option \<Rightarrow> rate_limit_entry" where
  "counted_entry config now e =
    (let entry = (case e of Some x \<Rightarrow> x | None \<Rightarrow> \<lparr>rle_count = 0, rle_window_start = now\<rparr>);
         entry = (if rl_window config \<le> now - rle_window_start entry
                  then entry\<lparr>rle_count := 0, rle_window_start := now\<rparr> else entry)
     in entry\<lparr>rle_count := rle_count entry + 1\<rparr>)"

text \<open>\<open>check\<close>: the remaining requests, or \<open>None\<close> when limited. Every reading of the clock during
  one call is \<open>now\<close>.\<close>

definition limiter_check :: "nat \<Rightarrow> string \<Rightarrow> rate_limiter \<Rightarrow> 32 word option \<times> rate_limiter" where
  "limiter_check now client_id l =
    (let l = (if 100000 < length (rl_entries l) then maybe_emergency_cleanup now l else l);
         entry = counted_entry (rl_config l) now (map_of (rl_entries l) client_id);
         limit = effective_limit (rl_config l) client_id;
         l = l\<lparr>rl_entries := AList.update client_id entry (rl_entries l)\<rparr>
     in (if limit < rle_count entry then None else Some (limit - rle_count entry), l))"

section \<open>The aggregate cap of the free tier\<close>

definition FREE_TIER_GLOBAL_RPM_DEFAULT :: "32 word" where "FREE_TIER_GLOBAL_RPM_DEFAULT = 12"

definition WINDOW_SECS :: nat where "WINDOW_SECS = 60"

record global_window =
  gw_epoch_minute :: nat
  gw_count :: u64

definition epoch_minute :: "nat \<Rightarrow> nat" where
  "epoch_minute unix_secs = unix_secs div WINDOW_SECS"

definition incr_in_memory :: "nat \<Rightarrow> global_window \<Rightarrow> u64 \<times> global_window" where
  "incr_in_memory minute w =
    (let w = (if gw_epoch_minute w \<noteq> minute then w\<lparr>gw_epoch_minute := minute, gw_count := 0\<rparr> else w);
         w = w\<lparr>gw_count := gw_count w + 1\<rparr>
     in (gw_count w, w))"

text \<open>With a store the shared counter, and on an error of the store the counter in memory.\<close>

definition free_tier_check ::
  "32 word \<Rightarrow> (redis_reply \<times> bool) option \<Rightarrow> nat \<Rightarrow> global_window \<times> redis
     \<Rightarrow> bool \<times> global_window \<times> redis" where
  "free_tier_check cap cache now s =
    (let minute = epoch_minute now; (w, rd) = s in
     case cache of
       Some (rep, expire_ok) \<Rightarrow>
         (case incr_global_free_window rep expire_ok now minute rd of
            (Inr n, rd) \<Rightarrow> (n \<le> unat cap, w, rd)
          | (Inl _, rd) \<Rightarrow>
              let (n, w) = incr_in_memory minute w in (unat n \<le> unat cap, w, rd))
     | None \<Rightarrow> let (n, w) = incr_in_memory minute w in (unat n \<le> unat cap, w, rd))"

section \<open>Who is counted\<close>

definition extract_signer_from_base64_tx :: "crypto \<Rightarrow> (string \<Rightarrow> bytes option) \<Rightarrow> string \<Rightarrow> string option" where
  "extract_signer_from_base64_tx cr b64 tx =
     Option.bind (b64 tx) (\<lambda>bs.
       case versioned_transaction_from_bytes bs of
         Inl _ \<Rightarrow> None
       | Inr vt \<Rightarrow>
         (case parsed_message_from_bytes (vt_message_bytes vt) of
            Inl _ \<Rightarrow> None
          | Inr m \<Rightarrow> (case account_keys m of [] \<Rightarrow> None | pk # _ \<Rightarrow> Some (bs58_encode cr pk))))"

definition extract_payer_wallet :: "crypto \<Rightarrow> (string \<Rightarrow> bytes option) \<Rightarrow> payment_payload \<Rightarrow> string" where
  "extract_payer_wallet cr b64 payload =
    (case pp_payload payload of
       Payload_Escrow p \<Rightarrow> ep_agent_pubkey p
     | Payload_Direct p \<Rightarrow>
         (case extract_signer_from_base64_tx cr b64 (sp_transaction p) of
            Some s \<Rightarrow> s | None \<Rightarrow> ''unknown'')
     | Payload_Channel _ \<Rightarrow> ''unknown'')"

definition connect_info_client_id :: "string option \<Rightarrow> string" where
  "connect_info_client_id peer_ip = (case peer_ip of Some ip \<Rightarrow> ip | None \<Rightarrow> ''unknown'')"

record http_request =
  hr_path :: string
  hr_payment :: "payment_payload option"
  hr_peer_ip :: "string option"

definition extract_client_id :: "crypto \<Rightarrow> (string \<Rightarrow> bytes option) \<Rightarrow> http_request \<Rightarrow> string" where
  "extract_client_id cr b64 r =
    (let fallback = (case hr_peer_ip r of Some ip \<Rightarrow> ip | None \<Rightarrow> ''unknown'') in
     case hr_payment r of
       Some payload \<Rightarrow>
         (let payer = extract_payer_wallet cr b64 payload in
          if payer \<noteq> ''unknown'' then payer else fallback)
     | None \<Rightarrow> fallback)"

definition RATE_LIMIT_SKIP_PATHS :: "string list" where
  "RATE_LIMIT_SKIP_PATHS = [''/health'', ''/v1/models'', ''/metrics'']"

text \<open>The middleware: is the request passed on?\<close>

definition rate_limit ::
  "crypto \<Rightarrow> (string \<Rightarrow> bytes option) \<Rightarrow> nat \<Rightarrow> http_request \<Rightarrow> rate_limiter option
     \<Rightarrow> bool \<times> rate_limiter option" where
  "rate_limit cr b64 now r limiter =
    (if hr_path r \<in> set RATE_LIMIT_SKIP_PATHS then (True, limiter)
     else case limiter of
       None \<Rightarrow> (True, None)
     | Some l \<Rightarrow>
       (case limiter_check now (extract_client_id cr b64 r) l of
          (Some _, l') \<Rightarrow> (True, Some l')
        | (None, l') \<Rightarrow> (False, Some l')))"

section \<open>The limiter step by step\<close>

definition limiter_wf :: "rate_limiter \<Rightarrow> bool" where
  "limiter_wf l \<longleftrightarrow> distinct (map fst (rl_entries l))"

lemma map_of_retain:
  "distinct (map fst es) \<Longrightarrow> map_of (retain_recent t w es) c =
     (case map_of es c of Some x \<Rightarrow> if t - rle_window_start x < w * 2 then Some x else None | None \<Rightarrow> None)"
  unfolding retain_recent_def by (induction es) (auto simp: map_of_eq_None_iff split: option.splits)

lemma retain_distinct: "distinct (map fst es) \<Longrightarrow> distinct (map fst (retain_recent t w es))"
  unfolding retain_recent_def by (rule distinct_map_filter)

lemma counted_entry_eq:
  "counted_entry cfg now e =
    (case e of
       Some x \<Rightarrow> if rl_window cfg \<le> now - rle_window_start x
                 then \<lparr>rle_count = 1, rle_window_start = now\<rparr>
                 else x\<lparr>rle_count := rle_count x + 1\<rparr>
     | None \<Rightarrow> \<lparr>rle_count = 1, rle_window_start = now\<rparr>)"
  by (cases e) (simp_all add: counted_entry_def Let_def)

text \<open>Forgetting an expired entry is invisible: the next request would have reset it.\<close>

lemma counted_entry_retain:
  assumes "distinct (map fst es)" "t \<le> now"
  shows "counted_entry cfg now (map_of (retain_recent t (rl_window cfg) es) c)
    = counted_entry cfg now (map_of es c)"
  using assms(2) by (auto simp: map_of_retain [OF assms(1)] counted_entry_eq split: option.splits)

definition swept :: "nat \<Rightarrow> rate_limiter \<Rightarrow> rate_limiter" where
  "swept now l = (if 100000 < length (rl_entries l) then maybe_emergency_cleanup now l else l)"

lemma swept_cases:
  obtains "rl_config (swept now l) = rl_config l" "rl_entries (swept now l) = rl_entries l"
    | "rl_config (swept now l) = rl_config l"
      "rl_entries (swept now l) = retain_recent now (rl_window (rl_config l)) (rl_entries l)"
  by (cases "100000 < length (rl_entries l) \<and> (case rl_last_emergency_cleanup l of Some t \<Rightarrow> 60 \<le> now - t | None \<Rightarrow> True)")
    (auto simp: swept_def maybe_emergency_cleanup_def cleanup_def not_less split: option.splits)

lemma swept_config [simp]: "rl_config (swept now l) = rl_config l"
  by (rule swept_cases [of now l])

lemma swept_wf: "limiter_wf l \<Longrightarrow> limiter_wf (swept now l)"
  by (rule swept_cases [of now l]) (auto simp: limiter_wf_def retain_distinct)

lemma limiter_check_swept:
  "limiter_check now c l =
    (let e = counted_entry (rl_config l) now (map_of (rl_entries (swept now l)) c);
         limit = effective_limit (rl_config l) c
     in (if limit < rle_count e then None else Some (limit - rle_count e),
         (swept now l)\<lparr>rl_entries := AList.update c e (rl_entries (swept now l))\<rparr>))"
  by (simp add: limiter_check_def swept_def [symmetric] Let_def)

lemma counted_entry_swept:
  assumes "limiter_wf l"
  shows "counted_entry (rl_config l) now (map_of (rl_entries (swept now l)) c)
    = counted_entry (rl_config l) now (map_of (rl_entries l) c)"
  using assms by (cases rule: swept_cases [of now l]) (auto simp: limiter_wf_def counted_entry_retain)

text \<open>
  Cleaning up never changes an answer of the limiter: after any clean-up, at any earlier moment,
  the next request of any client gets the answer it would have got without it, and so does the
  emergency clean-up inside the check.
\<close>
theorem limiter_cleanup_transparent:
  assumes "limiter_wf l" "t \<le> now"
  shows "fst (limiter_check now c (cleanup t l)) = fst (limiter_check now c l)
    \<and> fst (limiter_check now c l)
      = (let e = counted_entry (rl_config l) now (map_of (rl_entries l) c);
             limit = effective_limit (rl_config l) c
         in if limit < rle_count e then None else Some (limit - rle_count e))"
proof -
  have wf: "limiter_wf (cleanup t l)" using assms(1) by (simp add: limiter_wf_def cleanup_def retain_distinct)
  have cfg: "rl_config (cleanup t l) = rl_config l" by (simp add: cleanup_def)
  have "counted_entry (rl_config l) now (map_of (rl_entries (cleanup t l)) c)
      = counted_entry (rl_config l) now (map_of (rl_entries l) c)"
    using assms by (simp add: cleanup_def counted_entry_retain limiter_wf_def)
  with counted_entry_swept [OF wf, of now c] counted_entry_swept [OF assms(1), of now c] show ?thesis
    unfolding cfg by (simp add: limiter_check_swept cfg Let_def)
qed

section \<open>The bound of the window\<close>

datatype limiter_event = Rl_Check nat string | Rl_Cleanup nat

primrec event_time :: "limiter_event \<Rightarrow> nat" where
  "event_time (Rl_Check t _) = t"
| "event_time (Rl_Cleanup t) = t"

text \<open>The admissions of a run, with their times and clients.\<close>

fun limiter_run :: "limiter_event list \<Rightarrow> rate_limiter \<Rightarrow> (nat \<times> string) list" where
  "limiter_run [] l = []"
| "limiter_run (Rl_Cleanup t # evs) l = limiter_run evs (cleanup t l)"
| "limiter_run (Rl_Check t c # evs) l =
    (case limiter_check t c l of
       (Some _, l') \<Rightarrow> (t, c) # limiter_run evs l'
     | (None, l') \<Rightarrow> limiter_run evs l')"

definition admitted_within :: "nat \<Rightarrow> nat \<Rightarrow> string \<Rightarrow> (nat \<times> string) list \<Rightarrow> nat" where
  "admitted_within a w c log = length (filter (\<lambda>(t, c'). c' = c \<and> a \<le> t \<and> t < a + w) log)"

text \<open>What an entry can still admit in the span of one window from \<open>a\<close>: a window that began before
  \<open>a\<close> may be reset once.\<close>

definition budget :: "nat \<Rightarrow> nat \<Rightarrow> rate_limit_entry option \<Rightarrow> nat" where
  "budget limit a e =
    (case e of
       None \<Rightarrow> limit
     | Some x \<Rightarrow> if a \<le> rle_window_start x then limit - unat (rle_count x)
                 else limit + (limit - unat (rle_count x)))"

lemma budget_le: "budget limit a e \<le> 2 * limit"
  by (cases e) (auto simp: budget_def)

lemma budget_retain:
  assumes "distinct (map fst es)" "a \<le> t" "t < a + w"
  shows "budget limit a (map_of (retain_recent t w es) c) \<le> budget limit a (map_of es c)"
  using assms(2,3) by (auto simp: map_of_retain [OF assms(1)] budget_def split: option.splits)

lemma budget_swept:
  assumes "limiter_wf l" "a \<le> t" "t < a + rl_window (rl_config l)"
  shows "budget limit a (map_of (rl_entries (swept t l)) c) \<le> budget limit a (map_of (rl_entries l) c)"
  using assms by (cases rule: swept_cases [of t l]) (auto simp: limiter_wf_def budget_retain)

lemma budget_counted:
  assumes "a \<le> t" "t < a + rl_window cfg" "\<And>x. e = Some x \<Longrightarrow> unat (rle_count x) + 1 < 2 ^ 32"
  shows "(if unat (rle_count (counted_entry cfg t e)) \<le> limit then 1 else 0)
    + budget limit a (Some (counted_entry cfg t e)) \<le> budget limit a e"
proof (cases e)
  case (Some x)
  have "unat (rle_count x + 1) = unat (rle_count x) + 1"
    using assms(3) [OF Some] by (simp add: unat_word_ariths)
  with assms(1,2) Some show ?thesis by (auto simp: counted_entry_eq budget_def)
qed (use assms(1) in \<open>auto simp: counted_entry_eq budget_def\<close>)

definition counts_below :: "nat \<Rightarrow> rate_limiter \<Rightarrow> bool" where
  "counts_below n l \<longleftrightarrow> limiter_wf l \<and> (\<forall>c x. map_of (rl_entries l) c = Some x \<longrightarrow> unat (rle_count x) \<le> n)"

lemma counts_below_cleanup: "counts_below n l \<Longrightarrow> counts_below n (cleanup t l)"
  by (auto simp: counts_below_def limiter_wf_def cleanup_def retain_distinct map_of_retain
      split: option.splits if_splits)

lemma counts_below_swept: "counts_below n l \<Longrightarrow> counts_below n (swept t l)"
  by (cases rule: swept_cases [of t l])
    (auto simp: counts_below_def limiter_wf_def retain_distinct map_of_retain split: option.splits if_splits)

lemma counts_below_check:
  assumes "counts_below n l" "n + 1 < 2 ^ 32"
  shows "counts_below (n + 1) (snd (limiter_check t c l))"
proof -
  note sw = counts_below_swept [OF assms(1), of t]
  have "unat (rle_count (counted_entry (rl_config l) t (map_of (rl_entries (swept t l)) c))) \<le> n + 1"
  proof (cases "map_of (rl_entries (swept t l)) c")
    case (Some x)
    with sw have le: "unat (rle_count x) \<le> n" by (simp add: counts_below_def)
    with assms(2) have "unat (rle_count x + 1) = unat (rle_count x) + 1" by (simp add: unat_word_ariths)
    with Some le show ?thesis by (simp add: counted_entry_eq)
  qed (simp add: counted_entry_eq)
  with sw show ?thesis
    by (auto simp: counts_below_def limiter_wf_def limiter_check_swept Let_def distinct_update
        update_conv split: if_splits intro: le_SucI)
qed

lemma limiter_check_config: "rl_config (snd (limiter_check t c l)) = rl_config l"
  by (simp add: limiter_check_swept Let_def)

lemma limiter_check_other:
  "c' \<noteq> c \<Longrightarrow> map_of (rl_entries (snd (limiter_check t c l))) c' = map_of (rl_entries (swept t l)) c'"
  by (simp add: limiter_check_swept Let_def update_conv')

lemma admitted_within_Cons:
  "admitted_within a w c ((t, c') # log) =
     (if c' = c \<and> a \<le> t \<and> t < a + w then 1 else 0) + admitted_within a w c log"
  by (simp add: admitted_within_def)

lemma limiter_run_Check:
  "limiter_run (Rl_Check t c # evs) l =
     (if fst (limiter_check t c l) = None then [] else [(t, c)]) @ limiter_run evs (snd (limiter_check t c l))"
  by (cases "limiter_check t c l"; cases "fst (limiter_check t c l)") auto

lemma limiter_run_times:
  "(t, c) \<in> set (limiter_run evs l) \<Longrightarrow> t \<in> event_time ` set evs"
proof (induction evs l rule: limiter_run.induct)
  case (3 t' c' evs l)
  then show ?case by (cases "limiter_check t' c' l"; cases "fst (limiter_check t' c' l)") auto
qed auto

text \<open>One check inside the span spends from the budget of its client.\<close>

lemma check_spends:
  assumes "counts_below n l" "n + 1 < 2 ^ 32" "a \<le> t" "t < a + rl_window (rl_config l)"
  shows "(if c' = c \<and> fst (limiter_check t c' l) \<noteq> None then 1 else 0)
    + budget (unat (effective_limit (rl_config l) c)) a (map_of (rl_entries (snd (limiter_check t c' l))) c)
    \<le> budget (unat (effective_limit (rl_config l) c)) a (map_of (rl_entries l) c)"
proof -
  let ?L = "unat (effective_limit (rl_config l) c)"
  have wf: "limiter_wf l" using assms(1) by (simp add: counts_below_def)
  note sw = counts_below_swept [OF assms(1), of t]
  note le = budget_swept [OF wf assms(3,4), of ?L c]
  show ?thesis
  proof (cases "c' = c")
    case True
    have "(if unat (rle_count (counted_entry (rl_config l) t (map_of (rl_entries (swept t l)) c))) \<le> ?L
        then 1 else 0) + budget ?L a (Some (counted_entry (rl_config l) t (map_of (rl_entries (swept t l)) c)))
        \<le> budget ?L a (map_of (rl_entries (swept t l)) c)"
      by (rule budget_counted [OF assms(3,4)]) (use sw assms(2) in \<open>fastforce simp: counts_below_def\<close>)
    with le True show ?thesis
      by (auto simp: limiter_check_swept Let_def update_conv word_less_nat_alt not_less split: if_splits)
  qed (use le limiter_check_other [of c c' t l] in simp)
qed

primrec apply_event :: "limiter_event \<Rightarrow> rate_limiter \<Rightarrow> rate_limiter" where
  "apply_event (Rl_Check t c) l = snd (limiter_check t c l)"
| "apply_event (Rl_Cleanup t) l = cleanup t l"

primrec admits :: "string \<Rightarrow> limiter_event \<Rightarrow> rate_limiter \<Rightarrow> bool" where
  "admits c (Rl_Check t c') l \<longleftrightarrow> c' = c \<and> fst (limiter_check t c' l) \<noteq> None"
| "admits c (Rl_Cleanup t) l \<longleftrightarrow> False"

lemma admitted_within_event:
  "admitted_within a w c (limiter_run (ev # evs) l)
     = (if admits c ev l \<and> a \<le> event_time ev \<and> event_time ev < a + w then 1 else 0)
       + admitted_within a w c (limiter_run evs (apply_event ev l))"
  by (cases ev) (auto simp: limiter_run_Check admitted_within_Cons simp del: limiter_run.simps(3))

lemma apply_event_config [simp]: "rl_config (apply_event ev l) = rl_config l"
  by (cases ev) (simp_all add: limiter_check_config cleanup_def)

lemma counts_below_event:
  assumes "counts_below n l" "n + 1 < 2 ^ 32"
  shows "counts_below (n + 1) (apply_event ev l)"
proof (cases ev)
  case (Rl_Check t c)
  then show ?thesis using counts_below_check [OF assms] by simp
next
  case (Rl_Cleanup t)
  then show ?thesis using counts_below_cleanup [OF assms(1)] by (fastforce simp: counts_below_def)
qed

lemma event_spends:
  assumes "counts_below n l" "n + 1 < 2 ^ 32" "a \<le> event_time ev" "event_time ev < a + rl_window (rl_config l)"
  shows "(if admits c ev l then 1 else 0)
    + budget (unat (effective_limit (rl_config l) c)) a (map_of (rl_entries (apply_event ev l)) c)
    \<le> budget (unat (effective_limit (rl_config l) c)) a (map_of (rl_entries l) c)"
proof (cases ev)
  case (Rl_Check t c')
  then show ?thesis using check_spends [OF assms(1,2), of a t c' c] assms(3,4) by simp
next
  case (Rl_Cleanup t)
  then show ?thesis
    using assms by (simp add: cleanup_def budget_retain counts_below_def limiter_wf_def)
qed

lemma limiter_run_budget:
  assumes "sorted (map event_time evs)" "counts_below n l" "n + length evs < 2 ^ 32"
  shows "admitted_within a (rl_window (rl_config l)) c (limiter_run evs l) \<le>
    (if \<forall>ev \<in> set evs. a \<le> event_time ev
     then budget (unat (effective_limit (rl_config l) c)) a (map_of (rl_entries l) c)
     else 2 * unat (effective_limit (rl_config l) c))"
  using assms
proof (induction evs arbitrary: l n)
  case (Cons ev evs)
  let ?t = "event_time ev" and ?l' = "apply_event ev l" and ?w = "rl_window (rl_config l)"
    and ?L = "unat (effective_limit (rl_config l) c)"
  have n: "n + 1 < 2 ^ 32" and later: "\<forall>e \<in> set evs. ?t \<le> event_time e" using Cons.prems by simp_all
  have IH: "admitted_within a ?w c (limiter_run evs ?l') \<le>
      (if \<forall>ev \<in> set evs. a \<le> event_time ev then budget ?L a (map_of (rl_entries ?l') c) else 2 * ?L)"
    using Cons.IH [OF _ counts_below_event [OF Cons.prems(2) n, of ev]] Cons.prems
    unfolding apply_event_config by simp
  consider "?t < a" | "a \<le> ?t" "?t < a + ?w" | "a \<le> ?t" "a + ?w \<le> ?t" by linarith
  then show ?case
  proof cases
    case 1
    with IH budget_le [of ?L a] show ?thesis
      by (auto simp: admitted_within_event split: if_splits intro: order_trans)
  next
    case 2
    moreover have "\<forall>ev \<in> set evs. a \<le> event_time ev" using later 2(1) by (meson order_trans)
    ultimately show ?thesis
      using IH event_spends [OF Cons.prems(2) n 2, of c] by (auto simp: admitted_within_event)
  next
    case 3
    have "admitted_within a ?w c (limiter_run evs ?l') = 0"
      using limiter_run_times [of _ _ evs ?l'] later 3
      by (fastforce simp: admitted_within_def filter_empty_conv)
    with 3 show ?thesis by (simp add: admitted_within_event)
  qed
qed (simp add: admitted_within_def)

text \<open>
  C37. The limiter holds its rate over any span as long as one window, wherever the span begins:
  in a run of checks and clean-ups in the order of their times, with fewer than \<open>2 ^ 32\<close> of them,
  the limiter admits at most twice the limit of a client's requests within the span (the tail of
  one fixed window and the head of the next).
\<close>
theorem limiter_window_bound:
  assumes "sorted (map event_time evs)" "length evs < 2 ^ 32"
  shows "admitted_within a (rl_window cfg) c (limiter_run evs (new_rate_limiter cfg))
    \<le> 2 * unat (effective_limit cfg c)"
  using limiter_run_budget [of evs 0 "new_rate_limiter cfg" a c] assms budget_le [of "unat (effective_limit cfg c)" a]
  by (auto simp: counts_below_def limiter_wf_def new_rate_limiter_def split: if_splits intro: order_trans)

section \<open>The aggregate cap\<close>

text \<open>A run of free requests: the moment of each and what the store answers.\<close>

fun free_run ::
  "32 word \<Rightarrow> (nat \<times> (redis_reply \<times> bool) option) list \<Rightarrow> global_window \<times> redis \<Rightarrow> bool list" where
  "free_run cap [] s = []"
| "free_run cap ((now, cache) # reqs) s =
    (let (ok, s') = free_tier_check cap cache now s in ok # free_run cap reqs s')"

definition minute_key :: "nat \<Rightarrow> string" where
  "minute_key m = FREE_TIER_GLOBAL_RPM_PREFIX @ nat_text m"

text \<open>The shared counter of minute \<open>m\<close> stands at \<open>n\<close> and cannot expire within the minute.\<close>

definition counter_at :: "nat \<Rightarrow> nat \<Rightarrow> redis \<Rightarrow> bool" where
  "counter_at m n rd \<longleftrightarrow>
    (if n = 0 then rd (minute_key m) = None
     else \<exists>e. rd (minute_key m) = Some (nat_text n, e) \<and> (\<forall>t. e = Some t \<longrightarrow> m * WINDOW_SECS + WINDOW_SECS \<le> t))"

lemma count_of_counter:
  assumes "counter_at m n rd" "epoch_minute now = m" "n < 2 ^ 64"
  shows "count_of (rd_get now (minute_key m) rd) = n"
    "(rd_get now (minute_key m) rd = None) = (n = 0)"
proof -
  have "now < m * WINDOW_SECS + WINDOW_SECS"
    using assms(2) by (auto simp: epoch_minute_def WINDOW_SECS_def)
  moreover have un: "unat (of_nat n :: u64) = n" using assms(3) by (simp add: unat_of_nat)
  moreover have "parse_u64 (nat_text n) = Some (of_nat n)"
    using parse_nat_text [of "of_nat n"] unfolding un .
  ultimately show "count_of (rd_get now (minute_key m) rd) = n"
    "(rd_get now (minute_key m) rd = None) = (n = 0)"
    using assms(1) by (auto simp: counter_at_def rd_get_def count_of_def split: if_splits option.splits)
qed

lemma incr_counter:
  assumes "counter_at m n rd" "epoch_minute now = m" "n + 1 < 2 ^ 64"
    and "incr_global_free_window rep expire_ok now m rd = (res, rd')"
  shows "(res = Inr (n + 1) \<and> counter_at m (n + 1) rd')
    \<or> (\<exists>e. res = Inl e) \<and> (counter_at m n rd' \<or> counter_at m (n + 1) rd')"
proof -
  note c = count_of_counter [OF assms(1,2)]
  have key: "FREE_TIER_GLOBAL_RPM_PREFIX @ nat_text m = minute_key m" by (simp add: minute_key_def)
  have now: "m * WINDOW_SECS + WINDOW_SECS \<le> now + FREE_TIER_GLOBAL_WINDOW_TTL_SECS"
    using assms(2) div_mult_mod_eq [of now 60]
    by (auto simp: epoch_minute_def WINDOW_SECS_def FREE_TIER_GLOBAL_WINDOW_TTL_SECS_def)
  show ?thesis
    using assms(1,3,4) c now unfolding incr_global_free_window_def key Let_def
    by (cases rep) (auto simp: rd_command_def counter_at_def split: if_splits)
qed

definition memory_at :: "nat \<Rightarrow> nat \<Rightarrow> global_window \<Rightarrow> bool" where
  "memory_at m j w \<longleftrightarrow> (if gw_epoch_minute w = m then unat (gw_count w) = j else j = 0)"

lemma incr_memory:
  assumes "memory_at m j w" "j + 1 < 2 ^ 64" "incr_in_memory m w = (n, w')"
  shows "unat n = j + 1" "memory_at m (j + 1) w'"
proof -
  have "unat (gw_count w + 1) = unat (gw_count w) + 1" if "gw_epoch_minute w = m"
    using that assms(1,2) by (simp add: memory_at_def unat_word_ariths)
  with assms show "unat n = j + 1" "memory_at m (j + 1) w'"
    by (auto simp: memory_at_def incr_in_memory_def Let_def split: if_splits)
qed

definition by_store :: "(redis_reply \<times> bool) option \<Rightarrow> bool" where
  "by_store cache \<longleftrightarrow> (case cache of Some (Rd_Ok, _) \<Rightarrow> True | _ \<Rightarrow> False)"

abbreviation admitted :: "bool list \<Rightarrow> nat" where
  "admitted oks \<equiv> count_list oks True"

text \<open>A request either takes the next number of the shared counter or the next one in memory.\<close>

lemma free_tier_check_step:
  assumes "counter_at m n rd" "memory_at m j w" "epoch_minute now = m" "n + 1 < 2 ^ 64" "j + 1 < 2 ^ 64"
    and "free_tier_check cap cache now (w, rd) = (ok, w', rd')"
  obtains "by_store cache" "ok \<longleftrightarrow> n + 1 \<le> unat cap" "counter_at m (n + 1) rd'" "memory_at m j w'"
    | n' where "\<not> by_store cache" "ok \<longleftrightarrow> j + 1 \<le> unat cap" "n' \<in> {n, n + 1}" "counter_at m n' rd'"
      "memory_at m (j + 1) w'"
proof -
  obtain k w1 where mem: "incr_in_memory m w = (k, w1)" by fastforce
  note mem' = incr_memory [OF assms(2,5) mem]
  show thesis
  proof (cases cache)
    case None
    with assms mem mem' show thesis
      by (intro that(2) [of n]) (auto simp: free_tier_check_def Let_def by_store_def)
  next
    case (Some rx)
    obtain rep x where rx: "rx = (rep, x)" by fastforce
    obtain res rd1 where inc: "incr_global_free_window rep x now m rd = (res, rd1)" by fastforce
    have rep: "by_store cache = (\<exists>k. res = Inr k)"
      using inc Some rx by (cases rep) (auto simp: by_store_def incr_global_free_window_def rd_command_def Let_def split: if_splits)
    from incr_counter [OF assms(1,3,4) inc] show thesis
    proof (elim disjE conjE exE)
      assume "res = Inr (n + 1)" "counter_at m (n + 1) rd1"
      with assms Some rx inc rep show thesis
        by (intro that(1)) (auto simp: free_tier_check_def Let_def)
    next
      fix e assume "res = Inl e" "counter_at m n rd1"
      with assms Some rx inc rep mem mem' show thesis
        by (intro that(2) [of n]) (auto simp: free_tier_check_def Let_def)
    next
      fix e assume "res = Inl e" "counter_at m (n + 1) rd1"
      with assms Some rx inc rep mem mem' show thesis
        by (intro that(2) [of "n + 1"]) (auto simp: free_tier_check_def Let_def)
    qed
  qed
qed

lemma free_run_bound:
  assumes "counter_at m n rd" "memory_at m j w" "list_all (\<lambda>r. epoch_minute (fst r) = m) reqs"
    and "n + length reqs < 2 ^ 64" "j + length reqs < 2 ^ 64"
  shows "admitted (free_run cap reqs (w, rd)) \<le>
    (if list_ex (\<lambda>r. by_store (snd r)) reqs then unat cap - n else 0)
    + (if list_ex (\<lambda>r. \<not> by_store (snd r)) reqs then unat cap - j else 0)"
  using assms
proof (induction reqs arbitrary: n j rd w)
  case (Cons r reqs)
  obtain now cache where r: "r = (now, cache)" by fastforce
  obtain ok w' rd' where step: "free_tier_check cap cache now (w, rd) = (ok, w', rd')"
    by (metis prod_cases3)
  have prems: "epoch_minute now = m" "n + 1 < 2 ^ 64" "j + 1 < 2 ^ 64" using Cons.prems r by auto
  from Cons.prems(1,2) prems step show ?case
  proof (cases rule: free_tier_check_step)
    case 1
    from Cons.IH [OF 1(3,4)] Cons.prems(3-5) have
      "admitted (free_run cap reqs (w', rd')) \<le>
        (if list_ex (\<lambda>r. by_store (snd r)) reqs then unat cap - (n + 1) else 0)
        + (if list_ex (\<lambda>r. \<not> by_store (snd r)) reqs then unat cap - j else 0)" by simp
    with 1(1,2) r step show ?thesis by (auto split: if_splits)
  next
    case (2 n')
    from Cons.IH [OF 2(4,5)] Cons.prems(3-5) 2(3) have
      "admitted (free_run cap reqs (w', rd')) \<le>
        (if list_ex (\<lambda>r. by_store (snd r)) reqs then unat cap - n' else 0)
        + (if list_ex (\<lambda>r. \<not> by_store (snd r)) reqs then unat cap - (j + 1) else 0)" by auto
    with 2(1-3) r step show ?thesis by (auto split: if_splits)
  qed
qed simp

text \<open>
  The aggregate cap of the free tier: from a fresh minute on, one instance admits at most the cap
  of free requests in that minute as long as the store always answers or there is none, and at
  most twice the cap however often the store fails, replies lost after the increment included.
\<close>
theorem free_tier_minute_bound:
  assumes "rd (minute_key m) = None" "gw_epoch_minute w \<noteq> m" "length reqs < 2 ^ 64"
    and "list_all (\<lambda>r. epoch_minute (fst r) = m) reqs"
  shows "admitted (free_run cap reqs (w, rd)) \<le> 2 * unat cap
    \<and> (list_all (\<lambda>r. by_store (snd r)) reqs \<or> list_all (\<lambda>r. snd r = None) reqs \<longrightarrow>
        admitted (free_run cap reqs (w, rd)) \<le> unat cap)"
proof -
  have c: "counter_at m 0 rd" "memory_at m 0 w" using assms(1,2) by (simp_all add: counter_at_def memory_at_def)
  from free_run_bound [OF c, of reqs cap] assms(3,4) have
    b: "admitted (free_run cap reqs (w, rd)) \<le>
      (if list_ex (\<lambda>r. by_store (snd r)) reqs then unat cap else 0)
      + (if list_ex (\<lambda>r. \<not> by_store (snd r)) reqs then unat cap else 0)"
    by (auto split: if_splits)
  have "\<not> list_ex (\<lambda>r. \<not> by_store (snd r)) reqs" if "list_all (\<lambda>r. by_store (snd r)) reqs"
    using that by (simp add: list_all_iff list_ex_iff)
  moreover have "\<not> list_ex (\<lambda>r. by_store (snd r)) reqs" if "list_all (\<lambda>r. snd r = None) reqs"
    using that by (auto simp: list_all_iff list_ex_iff by_store_def)
  ultimately show ?thesis using b by (auto split: if_splits)
qed

section \<open>Counting under a name of one's own choice\<close>

fun middleware_run ::
  "crypto \<Rightarrow> (string \<Rightarrow> bytes option) \<Rightarrow> nat \<Rightarrow> http_request list \<Rightarrow> rate_limiter option \<Rightarrow> bool list" where
  "middleware_run cr b64 now [] l = []"
| "middleware_run cr b64 now (r # rs) l =
    (let (ok, l') = rate_limit cr b64 now r l in ok # middleware_run cr b64 now rs l')"

text \<open>A request from one peer whose escrow payment names the given agent; nothing in it is signed.\<close>

definition escrow_request :: "payment_payload \<Rightarrow> string \<Rightarrow> string \<Rightarrow> http_request" where
  "escrow_request payload ip k = \<lparr>hr_path = ''/v1/chat/completions'',
     hr_payment = Some (payload\<lparr>pp_payload := Payload_Escrow
       \<lparr>ep_deposit_tx = [], ep_service_id = [], ep_agent_pubkey = k\<rparr>\<rparr>),
     hr_peer_ip = Some ip\<rparr>"

lemma escrow_request_id:
  "k \<noteq> ''unknown'' \<Longrightarrow> extract_client_id cr b64 (escrow_request payload ip k) = k"
  by (simp add: extract_client_id_def escrow_request_def extract_payer_wallet_def)

lemma swept_None: "map_of (rl_entries l) k = None \<Longrightarrow> limiter_wf l \<Longrightarrow> map_of (rl_entries (swept t l)) k = None"
  by (cases rule: swept_cases [of t l]) (auto simp: limiter_wf_def map_of_retain)

lemma fresh_name_admitted:
  assumes "limiter_wf l" "map_of (rl_entries l) k = None" "k \<noteq> ''unknown''" "max_requests (rl_config l) \<noteq> 0"
  shows "fst (limiter_check now k l) \<noteq> None" "limiter_wf (snd (limiter_check now k l))"
  using swept_None [OF assms(2,1)] swept_wf [OF assms(1), of now] assms(3,4)
  by (auto simp: limiter_check_swept Let_def counted_entry_eq effective_limit_def limiter_wf_def
      distinct_update word_less_nat_alt unat_eq_zero)

lemma fresh_names_admitted:
  assumes "distinct ks" "''unknown'' \<notin> set ks" "limiter_wf l" "max_requests (rl_config l) \<noteq> 0"
    and "\<forall>k \<in> set ks. map_of (rl_entries l) k = None"
  shows "middleware_run cr b64 now (map (escrow_request payload ip) ks) (Some l) = replicate (length ks) True"
  using assms
proof (induction ks arbitrary: l)
  case (Cons k ks)
  let ?l = "snd (limiter_check now k l)"
  have "map_of (rl_entries l) k = None" "k \<noteq> ''unknown''" using Cons.prems(2,5) by auto
  note adm = fresh_name_admitted [OF Cons.prems(3) this Cons.prems(4), of now]
  have "rate_limit cr b64 now (escrow_request payload ip k) (Some l) = (True, Some ?l)"
    using adm(1) \<open>k \<noteq> ''unknown''\<close> escrow_request_id [of k cr b64 payload ip]
    by (cases "limiter_check now k l")
      (auto simp: rate_limit_def RATE_LIMIT_SKIP_PATHS_def escrow_request_def split: option.splits)
  moreover have "\<forall>k' \<in> set ks. map_of (rl_entries ?l) k' = None"
  proof
    fix k' assume "k' \<in> set ks"
    with Cons.prems(1,3,5) limiter_check_other [of k' k now l] swept_None show "map_of (rl_entries ?l) k' = None"
      by auto
  qed
  with Cons.IH [of ?l] Cons.prems adm(2) have "middleware_run cr b64 now
      (map (escrow_request payload ip) ks) (Some ?l) = replicate (length ks) True"
    by (simp add: limiter_check_config)
  ultimately show ?case by simp
qed simp

text \<open>
  The middleware does not bound a client that pays from made-up escrow wallets: requests of one
  peer, at one moment, each naming a different agent key in an otherwise empty escrow payment,
  are all passed on, however many there are, because the key is taken from the payment before
  anything of it is verified.
\<close>
theorem rate_limit_evaded_by_agent_key:
  assumes "distinct ks" "''unknown'' \<notin> set ks" "max_requests cfg \<noteq> 0"
  shows "middleware_run cr b64 now (map (escrow_request payload ip) ks) (Some (new_rate_limiter cfg))
    = replicate (length ks) True"
  by (rule fresh_names_admitted) (use assms in \<open>auto simp: new_rate_limiter_def limiter_wf_def\<close>)

section \<open>Witnesses\<close>

definition demo_crypto_rl :: crypto where
  "demo_crypto_rl = \<lparr>sha256 = take 32, decompresses = (\<lambda>_. True), bs58_decode = (\<lambda>_. None), bs58_encode = (\<lambda>_. [])\<rparr>"

definition demo_payload_rl :: payment_payload where
  "demo_payload_rl = \<lparr>pp_x402_version = 2, pp_resource = \<lparr>res_url = [], res_method = []\<rparr>,
     pp_accepted = \<lparr>pa_scheme = ''escrow'', pa_network = SOLANA_NETWORK, pa_amount = ''1'', pa_asset = [],
       pa_pay_to = [], pa_max_timeout_seconds = 300, pa_escrow_program_id = None\<rparr>,
     pp_payload = Payload_Direct \<lparr>sp_transaction = []\<rparr>\<rparr>"

definition demo_run :: "limiter_event list" where
  "demo_run = [Rl_Check 0 ''a'', Rl_Check 1 ''a'', Rl_Cleanup 2, Rl_Check 200 ''a'']"

theorem limiter_window_bound_witness:
  "admitted_within 0 60 ''a'' (limiter_run demo_run (new_rate_limiter default_rate_limit)) \<le> 2 * 60"
  using limiter_window_bound [of demo_run 0 default_rate_limit "''a''"]
  by (simp add: demo_run_def default_rate_limit_def effective_limit_def)

theorem limiter_cleanup_transparent_witness:
  "fst (limiter_check 130 ''a'' (cleanup 125 (snd (limiter_check 0 ''a'' (new_rate_limiter free_default))))) = Some 4"
proof -
  have wf: "limiter_wf (snd (limiter_check 0 ''a'' (new_rate_limiter free_default)))"
    by (simp add: limiter_wf_def limiter_check_def new_rate_limiter_def Let_def)
  show ?thesis
    using limiter_cleanup_transparent [OF wf, of 125 130 "''a''"]
    by (simp add: limiter_check_def new_rate_limiter_def counted_entry_def free_default_def effective_limit_def
        Let_def cleanup_def retain_recent_def)
qed

theorem free_tier_minute_bound_witness:
  "admitted (free_run 12 [(0, None), (1, Some (Rd_Ok, True)), (2, Some (Rd_Failed True, True))]
     (\<lparr>gw_epoch_minute = 7, gw_count = 3\<rparr>, Map.empty)) \<le> 2 * 12"
  using free_tier_minute_bound [of Map.empty 0 "\<lparr>gw_epoch_minute = 7, gw_count = 3\<rparr>"
      "[(0, None), (1, Some (Rd_Ok, True)), (2, Some (Rd_Failed True, True))]" 12]
  by (simp add: epoch_minute_def WINDOW_SECS_def del: free_run.simps)

theorem rate_limit_evaded_by_agent_key_witness:
  "middleware_run demo_crypto_rl (\<lambda>_. None) 0 (map (escrow_request demo_payload_rl ''10.0.0.1'') [''a'', ''b'', ''c''])
     (Some (new_rate_limiter (with_max_requests 1))) = [True, True, True]"
  using rate_limit_evaded_by_agent_key [of "[''a'', ''b'', ''c'']" "with_max_requests 1" demo_crypto_rl "\<lambda>_. None" 0
      demo_payload_rl "''10.0.0.1''"]
  by (simp add: with_max_requests_def default_rate_limit_def numeral_3_eq_3 del: middleware_run.simps list.map)

end
