(* ===== verification/Solana_Rpc.thy ===== *)
theory Solana_Rpc
  imports Refund_Worker Payment_Types Json
begin

text \<open>
  The JSON-RPC client of \<open>crates/x402/src/solana_rpc.rs\<close>: the request each call sends, how its reply
  is read, and the bounded confirmation loop. The HTTP transport, the node behind it and the text
  form of a JSON value are parameters; time is in milliseconds and a request started at time \<open>t\<close>
  returns at \<open>t\<close> plus its latency. The refund worker's production node
  (\<open>SolanaRefundRpc\<close> of \<open>crates/gateway/src/channel_refunds.rs\<close>) is an instance of the worker's
  parameter.
\<close>

section \<open>Requests\<close>

record http =
  http_post :: "nat \<Rightarrow> json \<Rightarrow> (string, json) result" \<comment> \<open>start time, body\<close>
  http_latency :: "nat \<Rightarrow> json \<Rightarrow> nat"
  json_text :: "json \<Rightarrow> string"

definition rpc_body :: "string \<Rightarrow> json list \<Rightarrow> json" where
  "rpc_body method params =
     JObj [(''jsonrpc'', JStr ''2.0''), (''id'', JInt 1), (''method'', JStr method),
       (''params'', JArr params)]"

definition commitment_config :: "string \<Rightarrow> json" where
  "commitment_config commitment = JObj [(''commitment'', JStr commitment)]"

definition rpc_request :: "http \<Rightarrow> nat \<Rightarrow> json \<Rightarrow> (payment_error, json) result" where
  "rpc_request h now body =
    (case http_post h now body of
       Inl m \<Rightarrow> Inl (Err_Rpc m)
     | Inr reply \<Rightarrow>
       (case json_get ''error'' reply of
          Some e \<Rightarrow> Inl (Err_Rpc (json_text h e))
        | None \<Rightarrow> Inr reply))"

definition send_body :: "string \<Rightarrow> json" where
  "send_body tx = rpc_body ''sendTransaction'' [JStr tx, JObj [(''encoding'', JStr ''base64''),
     (''skipPreflight'', JBool False), (''preflightCommitment'', JStr ''confirmed''),
     (''maxRetries'', JInt 3)]]"

definition send_transaction :: "http \<Rightarrow> nat \<Rightarrow> string \<Rightarrow> (payment_error, string) result" where
  "send_transaction h now tx =
    and_then (rpc_request h now (send_body tx)) (\<lambda>reply.
      ok_or (Err_Rpc ''sendTransaction did not return a signature'')
        (Option.bind (json_get ''result'' reply) as_str))"

definition latest_blockhash_request_body :: "string \<Rightarrow> json" where
  "latest_blockhash_request_body commitment =
     rpc_body ''getLatestBlockhash'' [commitment_config commitment]"

definition parse_latest_blockhash_response ::
  "crypto \<Rightarrow> json \<Rightarrow> (payment_error, bytes \<times> u64) result" where
  "parse_latest_blockhash_response cr reply =
    (let value = Option.bind (json_get ''result'' reply) (json_get ''value'') in
     and_then (ok_or (Err_Rpc ''getLatestBlockhash did not return a blockhash string'')
         (Option.bind (Option.bind value (json_get ''blockhash'')) as_str)) (\<lambda>b58.
     and_then (ok_or (Err_Rpc ''blockhash is not valid base58'') (bs58_decode cr b58)) (\<lambda>arr.
     if length arr \<noteq> 32 then Inl (Err_Rpc (''blockhash must be 32 bytes, got '' @ nat_text (length arr)))
     else and_then (ok_or (Err_Rpc ''getLatestBlockhash did not return a lastValidBlockHeight'')
         (Option.bind (Option.bind value (json_get ''lastValidBlockHeight'')) as_u64)) (\<lambda>height.
       Inr (arr, height)))))"

definition get_latest_blockhash_and_height ::
  "crypto \<Rightarrow> http \<Rightarrow> nat \<Rightarrow> string \<Rightarrow> (payment_error, bytes \<times> u64) result" where
  "get_latest_blockhash_and_height cr h now commitment =
     and_then (rpc_request h now (latest_blockhash_request_body commitment))
       (parse_latest_blockhash_response cr)"

definition get_latest_blockhash ::
  "crypto \<Rightarrow> http \<Rightarrow> nat \<Rightarrow> string \<Rightarrow> (payment_error, bytes) result" where
  "get_latest_blockhash cr h now commitment =
     and_then (get_latest_blockhash_and_height cr h now commitment) (\<lambda>(blockhash, _). Inr blockhash)"

definition block_height_request_body :: json where
  "block_height_request_body = rpc_body ''getBlockHeight'' [commitment_config ''confirmed'']"

definition get_block_height :: "http \<Rightarrow> nat \<Rightarrow> (payment_error, u64) result" where
  "get_block_height h now =
     and_then (rpc_request h now block_height_request_body) (\<lambda>reply.
       ok_or (Err_Rpc ''getBlockHeight did not return a u64 result'')
         (Option.bind (json_get ''result'' reply) as_u64))"

definition signature_status_request_body :: "string \<Rightarrow> bool \<Rightarrow> json" where
  "signature_status_request_body sig search_history =
     rpc_body ''getSignatureStatuses'' [JArr [JStr sig],
       JObj [(''searchTransactionHistory'', JBool search_history)]]"

definition status_array :: "json \<Rightarrow> json list option" where
  "status_array reply =
     Option.bind (Option.bind (json_get ''result'' reply) (json_get ''value'')) as_array"

definition first_elem :: "'a list \<Rightarrow> 'a option" where
  "first_elem xs = (case xs of [] \<Rightarrow> None | x # _ \<Rightarrow> Some x)"

text \<open>The on-chain error of a status object, when the field is there and not null.\<close>

definition status_err :: "json \<Rightarrow> json option" where
  "status_err status =
    (case json_get ''err'' status of
       Some e \<Rightarrow> if is_null e then None else Some e
     | None \<Rightarrow> None)"

definition parse_signature_status_response ::
  "http \<Rightarrow> json \<Rightarrow> (payment_error, signature_status option) result" where
  "parse_signature_status_response h reply =
     and_then (ok_or (Err_Rpc ''getSignatureStatuses did not return a status array'')
         (Option.bind (status_array reply) first_elem)) (\<lambda>status.
       if is_null status then Inr None
       else Inr (Some \<lparr>ss_err = map_option (json_text h) (status_err status),
         ss_confirmation_status = Option.bind (json_get ''confirmationStatus'' status) as_str\<rparr>))"

definition get_signature_status ::
  "http \<Rightarrow> nat \<Rightarrow> string \<Rightarrow> bool \<Rightarrow> (payment_error, signature_status option) result" where
  "get_signature_status h now sig search_history =
     and_then (rpc_request h now (signature_status_request_body sig search_history))
       (parse_signature_status_response h)"

definition get_sol_balance :: "http \<Rightarrow> nat \<Rightarrow> string \<Rightarrow> (payment_error, u64) result" where
  "get_sol_balance h now owner =
     and_then (rpc_request h now (rpc_body ''getBalance'' [JStr owner, commitment_config ''confirmed'']))
       (\<lambda>reply. ok_or (Err_Rpc ''getBalance did not return a u64 lamport value'')
         (Option.bind (Option.bind (json_get ''result'' reply) (json_get ''value'')) as_u64))"

definition token_balance_body :: "crypto \<Rightarrow> pubkey \<Rightarrow> json" where
  "token_balance_body cr ata =
     rpc_body ''getTokenAccountBalance'' [JStr (bs58_encode cr ata), commitment_config ''confirmed'']"

definition get_usdc_balance ::
  "crypto \<Rightarrow> http \<Rightarrow> nat \<Rightarrow> string \<Rightarrow> string \<Rightarrow> (payment_error, u64) result" where
  "get_usdc_balance cr h now owner_b58 mint_b58 =
     and_then (map_err (\<lambda>_. Err_InvalidTransaction ''invalid owner pubkey'')
         (decode_bs58_pubkey cr owner_b58)) (\<lambda>owner.
     and_then (map_err (\<lambda>_. Err_InvalidTransaction ''invalid mint pubkey'')
         (decode_bs58_pubkey cr mint_b58)) (\<lambda>mint.
     and_then (ok_or (Err_InvalidTransaction ''failed to derive owner USDC ATA'')
         (derive_ata cr owner mint TOKEN_PROGRAM_ID)) (\<lambda>ata.
     case http_post h now (token_balance_body cr ata) of
       Inl m \<Rightarrow> Inl (Err_Rpc m)
     | Inr reply \<Rightarrow>
       (case json_get ''error'' reply of
          Some e \<Rightarrow>
            let msg = to_lowercase (json_text h e) in
            if str_contains msg ''could not find account'' \<or> str_contains msg ''invalid param'' then Inr 0
            else Inl (Err_Rpc (json_text h e))
        | None \<Rightarrow>
          and_then (ok_or (Err_Rpc ''getTokenAccountBalance did not return an amount string'')
              (Option.bind (Option.bind (Option.bind (json_get ''result'' reply) (json_get ''value''))
                (json_get ''amount'')) as_str)) (\<lambda>amount_str.
            ok_or (Err_Rpc ''token amount is not a u64'') (parse_u64 amount_str))))))"

definition get_current_slot :: "http \<Rightarrow> nat \<Rightarrow> (payment_error, u64) result" where
  "get_current_slot h now =
     and_then (rpc_request h now (rpc_body ''getSlot'' [commitment_config ''confirmed''])) (\<lambda>reply.
       ok_or (Err_Rpc ''getSlot did not return a u64 result'')
         (Option.bind (json_get ''result'' reply) as_u64))"

section \<open>The refund worker's node\<close>

text \<open>The world of the worker is the clock: each request moves it by its latency.\<close>

definition live_call ::
  "http \<Rightarrow> json \<Rightarrow> (nat \<Rightarrow> (payment_error, 'a) result) \<Rightarrow> nat \<Rightarrow> (string, 'a) result \<times> nat" where
  "live_call h body f now = (map_err error_text (f now), now + http_latency h now body)"

definition solana_refund_rpc :: "crypto \<Rightarrow> http \<Rightarrow> nat refund_rpc" where
  "solana_refund_rpc cr h =
    \<lparr>rpc_usdc_balance = (\<lambda>owner mint now.
       case and_then (decode_bs58_pubkey cr owner) (\<lambda>o'. and_then (decode_bs58_pubkey cr mint)
             (\<lambda>m. ok_or InvalidBase58 (derive_ata cr o' m TOKEN_PROGRAM_ID))) of
         Inr ata \<Rightarrow> live_call h (token_balance_body cr ata) (\<lambda>t. get_usdc_balance cr h t owner mint) now
       | Inl _ \<Rightarrow> (map_err error_text (get_usdc_balance cr h now owner mint), now)),
     rpc_latest_blockhash_and_height =
       live_call h (latest_blockhash_request_body ''confirmed'')
         (\<lambda>t. get_latest_blockhash_and_height cr h t ''confirmed''),
     rpc_block_height = live_call h block_height_request_body (get_block_height h),
     rpc_signature_status = (\<lambda>sig search_history.
       live_call h (signature_status_request_body sig search_history)
         (\<lambda>t. get_signature_status h t sig search_history)),
     rpc_send_transaction = (\<lambda>tx. live_call h (send_body tx) (\<lambda>t. send_transaction h t tx))\<rparr>"

section \<open>Waiting for confirmation\<close>

definition poll_body :: "string \<Rightarrow> json" where
  "poll_body sig = rpc_body ''getSignatureStatuses'' [JArr [JStr sig]]"

text \<open>What one reply decides: nothing yet, success, or an error of the landed transaction.\<close>

definition poll_reply ::
  "http \<Rightarrow> (string, json) result \<Rightarrow> (payment_error, unit) result option" where
  "poll_reply h r =
    (case r of
       Inl _ \<Rightarrow> None
     | Inr reply \<Rightarrow>
       if json_get ''error'' reply \<noteq> None then None
       else case Option.bind (status_array reply) first_elem of
         None \<Rightarrow> None
       | Some status \<Rightarrow>
         if is_null status then None
         else case status_err status of
           Some e \<Rightarrow> Some (Inl (Err_SettlementFailed (''transaction failed on-chain: '' @ json_text h e)))
         | None \<Rightarrow>
           (case Option.bind (json_get ''confirmationStatus'' status) as_str of
              Some c \<Rightarrow> if c = ''confirmed'' \<or> c = ''finalized'' then Some (Inr ()) else None
            | None \<Rightarrow> None))"

definition poll_timeout :: "nat \<Rightarrow> payment_error" where
  "poll_timeout secs =
     Err_SettlementFailed (''transaction not confirmed within '' @ nat_text secs @ ''s'')"

partial_function (option) poll_loop ::
  "http \<Rightarrow> json \<Rightarrow> nat \<Rightarrow> nat \<Rightarrow> nat \<Rightarrow> nat \<Rightarrow> nat \<Rightarrow> (payment_error, unit) result option"
where
  "poll_loop h body start secs now interval attempt =
    (if secs * 1000 < now - start then Some (Inl (poll_timeout secs))
     else
       let sent = (if 0 < attempt then now + interval else now);
           interval' = (if 0 < attempt then min (interval * 2) 4000 else interval) in
       case poll_reply h (http_post h sent body) of
         Some r \<Rightarrow> Some r
       | None \<Rightarrow> poll_loop h body start secs (sent + http_latency h sent body) interval' (attempt + 1))"

definition poll_for_confirmation ::
  "http \<Rightarrow> nat \<Rightarrow> string \<Rightarrow> nat \<Rightarrow> (payment_error, unit) result option" where
  "poll_for_confirmation h now sig secs = poll_loop h (poll_body sig) now secs now 500 0"

text \<open>What a reply says of the transaction, read off the JSON.\<close>

definition reports_status :: "(string, json) result \<Rightarrow> json \<Rightarrow> bool" where
  "reports_status r status \<longleftrightarrow>
     (\<exists>reply. r = Inr reply \<and> json_get ''error'' reply = None \<and> status \<noteq> JNull
        \<and> Option.bind (status_array reply) first_elem = Some status)"

definition reports_confirmed :: "(string, json) result \<Rightarrow> bool" where
  "reports_confirmed r \<longleftrightarrow>
     (\<exists>status. reports_status r status \<and> status_err status = None
        \<and> json_get ''confirmationStatus'' status \<in> {Some (JStr ''confirmed''), Some (JStr ''finalized'')})"

definition reports_failed :: "(string, json) result \<Rightarrow> json \<Rightarrow> bool" where
  "reports_failed r e \<longleftrightarrow> (\<exists>status. reports_status r status \<and> status_err status = Some e)"

lemma as_str_Some_iff: "as_str j = Some s \<longleftrightarrow> j = JStr s"
  by (cases j) auto

lemma poll_reply_ok: "poll_reply h r = Some (Inr ()) \<longleftrightarrow> reports_confirmed r"
  by (auto simp: poll_reply_def reports_confirmed_def reports_status_def is_null_def bind_eq_Some_conv
      as_str_Some_iff split: sum.splits option.splits if_splits)

lemma poll_reply_failed:
  "poll_reply h r = Some (Inl x) \<longleftrightarrow>
    (\<exists>e. reports_failed r e \<and> x = Err_SettlementFailed (''transaction failed on-chain: '' @ json_text h e))"
  by (auto simp: poll_reply_def reports_failed_def reports_status_def is_null_def
      split: sum.splits option.splits if_splits)

definition poll_verdict ::
  "http \<Rightarrow> json \<Rightarrow> nat \<Rightarrow> nat \<Rightarrow> (payment_error, unit) result option \<Rightarrow> bool" where
  "poll_verdict h body start secs r =
    (case r of
       None \<Rightarrow> False
     | Some (Inr _) \<Rightarrow> (\<exists>t \<in> {start..start + secs * 1000 + 4000}. reports_confirmed (http_post h t body))
     | Some (Inl e) \<Rightarrow> e = poll_timeout secs
         \<or> (\<exists>t \<in> {start..start + secs * 1000 + 4000}. \<exists>x. reports_failed (http_post h t body) x
              \<and> e = Err_SettlementFailed (''transaction failed on-chain: '' @ json_text h x)))"

lemma poll_verdict_reply:
  assumes "poll_reply h (http_post h t body) = Some r" "start \<le> t" "t \<le> start + secs * 1000 + 4000"
  shows "poll_verdict h body start secs (Some r)"
  using assms
  by (cases r) (auto simp: poll_verdict_def poll_reply_ok poll_reply_failed)

lemma poll_loop_decides:
  assumes "start \<le> now" "0 < interval" "interval \<le> 4000"
  shows "poll_verdict h body start secs (poll_loop h body start secs now interval (Suc attempt))"
  using assms
proof (induction "start + secs * 1000 + 1 - now" arbitrary: now interval attempt rule: less_induct)
  case less
  show ?case
  proof (cases "secs * 1000 < now - start")
    case True
    then show ?thesis by (subst poll_loop.simps) (simp add: poll_verdict_def)
  next
    case running: False
    let ?sent = "now + interval"
    let ?next = "?sent + http_latency h ?sent body"
    show ?thesis
    proof (cases "poll_reply h (http_post h ?sent body)")
      case None
      have "poll_verdict h body start secs
          (poll_loop h body start secs ?next (min (interval * 2) 4000) (Suc (Suc attempt)))"
        by (rule less.hyps) (use running less.prems in auto)
      with None running show ?thesis by (subst poll_loop.simps) (simp add: Let_def)
    next
      case (Some r)
      have "poll_verdict h body start secs (Some r)"
        by (rule poll_verdict_reply [OF Some]) (use running less.prems in auto)
      with Some running show ?thesis by (subst poll_loop.simps) (simp add: Let_def)
    qed
  qed
qed

lemma poll_decides:
  "poll_verdict h (poll_body sig) now secs (poll_for_confirmation h now sig secs)"
proof (cases "poll_reply h (http_post h now (poll_body sig))")
  case None
  have "poll_verdict h (poll_body sig) now secs
      (poll_loop h (poll_body sig) now secs (now + http_latency h now (poll_body sig)) 500 (Suc 0))"
    by (rule poll_loop_decides) simp_all
  with None show ?thesis
    unfolding poll_for_confirmation_def by (subst poll_loop.simps) (simp add: Let_def)
next
  case (Some r)
  have "poll_verdict h (poll_body sig) now secs (Some r)"
    by (rule poll_verdict_reply [OF Some]) simp_all
  with Some show ?thesis
    unfolding poll_for_confirmation_def by (subst poll_loop.simps) (simp add: Let_def)
qed

text \<open>
  C38. Waiting for a confirmation always ends, whatever the node answers and however slowly, and
  its verdict is one the node gave: success only when a reply to a request sent within the budget
  (plus one back-off of four seconds) reported the transaction confirmed or finalized without an
  error, a chain failure only when a reply carried that error, and otherwise the timeout. A merely
  processed transaction never counts as settled.
\<close>
theorem poll_for_confirmation_decides:
  "poll_verdict h (poll_body sig) now secs (poll_for_confirmation h now sig secs)"
  by (rule poll_decides)

text \<open>A timeout is classified as one, so the client is told that a retry may work.\<close>

lemma str_contains_chars: "str_contains s m \<Longrightarrow> set m \<subseteq> set s"
  by (auto simp: str_contains_iff)

lemma digits_no_letter: "digit_value 10 c = None \<Longrightarrow> c \<notin> set (nat_text n)"
  using nat_text_digits [of n] by auto

lemma poll_timeout_kind: "classify_settlement_error (error_text (poll_timeout secs)) = Timeout"
proof -
  let ?s = "error_text (poll_timeout secs)"
  have s: "?s = ''settlement failed: transaction not confirmed within '' @ nat_text secs @ ''s''"
    by (simp add: poll_timeout_def)
  have "CHR ''I'' \<notin> set ?s" "CHR ''p'' \<notin> set ?s"
    unfolding s by (simp_all add: digits_no_letter digit_value_def)
  then have "\<not> str_contains ?s ''InstructionError''" "\<not> str_contains ?s ''custom program error''"
    using str_contains_chars [of ?s] by fastforce+
  moreover have "str_contains ?s ''not confirmed within''"
    unfolding s str_contains_iff
    by (rule exI [of _ "''settlement failed: transaction ''"], rule exI [of _ "'' '' @ nat_text secs @ ''s''"]) simp
  ultimately show ?thesis by (simp add: classify_settlement_error_def)
qed

end
