(* ===== verification/Escrow_Program.thy ===== *)
theory Escrow_Program
  imports Solana_Keys
begin

text \<open>
  The on-chain escrow program (\<open>programs/escrow/src\<close>): deposit, claim and refund with the account
  constraints Anchor checks before each handler. The SPL token program is outside the repository:
  the parameter \<open>spl\<close> stands for it, over an abstract token ledger. A failed instruction changes
  nothing, as a Solana transaction is atomic.
\<close>

section \<open>State and errors\<close>

record escrow =
  es_agent :: pubkey
  es_provider :: pubkey
  es_mint :: pubkey
  es_amount :: u64
  es_service_id :: bytes
  es_expiry_slot :: u64
  es_bump :: u8

datatype escrow_error =
    ClaimExceedsDeposit | EscrowNotExpired | EscrowMintMismatch | ZeroAmountEscrow | InvalidExpiry
  | EscrowExpired | ExpiryTooFar | InvalidProvider | EmptyVault | ExpiryTooSoon
  | DuplicateClaimAccounts

datatype anchor_error =
    Escrow_err escrow_error
  | AccountNotSigner | AccountNotInitialized | AccountAlreadyInUse
  | ConstraintAddress | ConstraintSeeds | ConstraintHasOne | ConstraintClose
  | ConstraintAssociated | ConstraintTokenOwner | ConstraintTokenMint
  | AccountNotAssociatedTokenAccount
  | Cpi_err string

definition MAX_ESCROW_SLOTS :: u64 where
  "MAX_ESCROW_SLOTS = 216000"

definition MIN_EXPIRY_BUFFER :: u64 where
  "MIN_EXPIRY_BUFFER = 50"

datatype escrow_event =
    DepositEvent pubkey pubkey u64 bytes u64
    \<comment> \<open>agent, provider, amount, service id, expiry slot\<close>
  | ClaimEvent pubkey pubkey u64 u64 u64 bytes
    \<comment> \<open>agent, provider, deposited, claimed, refunded, service id\<close>
  | RefundEvent pubkey u64 bytes u64 u64
    \<comment> \<open>agent, refunded, service id, expiry slot, current slot\<close>

record token_account =
  ta_mint :: pubkey
  ta_owner :: pubkey
  ta_amount :: u64
  ta_frozen :: bool
  ta_close_authority :: "pubkey option"

record 't spl =
  tok_account :: "'t \<Rightarrow> pubkey \<Rightarrow> token_account option"
  tok_transfer_checked ::
    "pubkey \<Rightarrow> pubkey \<Rightarrow> pubkey \<Rightarrow> pubkey \<Rightarrow> u64 \<Rightarrow> u8 \<Rightarrow> 't \<Rightarrow> 't option"
    \<comment> \<open>from, mint, to, authority, amount, decimals\<close>
  tok_close :: "pubkey \<Rightarrow> pubkey \<Rightarrow> 't \<Rightarrow> 't option" \<comment> \<open>account, authority\<close>
  tok_create :: "pubkey \<Rightarrow> pubkey \<Rightarrow> pubkey \<Rightarrow> 't \<Rightarrow> 't option" \<comment> \<open>address, mint, owner\<close>
  tok_decimals :: "pubkey \<Rightarrow> u8 option" \<comment> \<open>of an initialized mint\<close>

text \<open>The build-time constants and the packages: the program id, the accepted mint, hashing.\<close>

record program_env =
  pe_crypto :: crypto
  pe_program_id :: pubkey
  pe_usdc_mint :: pubkey

record 't program_state =
  escrows :: "pubkey \<Rightarrow> escrow option"
  tokens :: 't
  emitted :: "escrow_event list"

section \<open>Account constraints\<close>

text \<open>
  The checks Anchor derives from the account structs run before the handler, in three passes:
  the accounts are loaded in order, then the \<open>init\<close> and \<open>init_if_needed\<close> accounts are created or
  checked, then the constraints of the other accounts are evaluated. Rent payments and the
  writable flags of the transaction are not modelled.
\<close>

definition require :: "bool \<Rightarrow> anchor_error \<Rightarrow> (anchor_error, unit) result" where
  "require b e = (if b then Inr () else Inl e)"

definition escrow_seeds :: "pubkey \<Rightarrow> bytes \<Rightarrow> bytes list" where
  "escrow_seeds agent service_id = [ascii ''escrow'', agent, service_id]"

text \<open>\<open>seeds = [\<dots>], bump = escrow.bump\<close>: the address the stored bump gives.\<close>

definition escrow_address_ok :: "program_env \<Rightarrow> pubkey \<Rightarrow> escrow \<Rightarrow> bool" where
  "escrow_address_ok pe addr e \<longleftrightarrow>
     (let a = pda_hash (pe_crypto pe) (escrow_seeds (es_agent e) (es_service_id e)) (pe_program_id pe)
                (es_bump e) in
      a = addr \<and> \<not> is_on_ed25519_curve (pe_crypto pe) a)"

definition ata_ok :: "program_env \<Rightarrow> pubkey \<Rightarrow> pubkey \<Rightarrow> pubkey \<Rightarrow> bool" where
  "ata_ok pe wallet mint addr \<longleftrightarrow> derive_ata (pe_crypto pe) wallet mint TOKEN_PROGRAM_ID = Some addr"

definition load_token_account :: "'t spl \<Rightarrow> pubkey \<Rightarrow> 't \<Rightarrow> (anchor_error, token_account) result" where
  "load_token_account spl addr t = ok_or AccountNotInitialized (tok_account spl t addr)"

text \<open>\<open>associated_token::mint\<close>, \<open>associated_token::authority\<close> on a loaded account.\<close>

definition associated_token ::
  "program_env \<Rightarrow> pubkey \<Rightarrow> pubkey \<Rightarrow> pubkey \<Rightarrow> token_account \<Rightarrow> (anchor_error, unit) result" where
  "associated_token pe addr mint authority a =
    and_then (require (ta_owner a = authority) ConstraintTokenOwner) (\<lambda>_.
      require (ata_ok pe authority mint addr) ConstraintAssociated)"

text \<open>The same with \<open>init_if_needed\<close>.\<close>

definition associated_token_init ::
  "'t spl \<Rightarrow> program_env \<Rightarrow> pubkey \<Rightarrow> pubkey \<Rightarrow> pubkey \<Rightarrow> 't \<Rightarrow> (anchor_error, 't) result" where
  "associated_token_init spl pe addr mint authority t =
    and_then (case tok_account spl t addr of
        None \<Rightarrow> ok_or (Cpi_err ''create'') (tok_create spl addr mint authority t)
      | Some _ \<Rightarrow> Inr t) (\<lambda>t'.
    and_then (load_token_account spl addr t') (\<lambda>a.
    and_then (require (ta_mint a = mint) ConstraintTokenMint) (\<lambda>_.
    and_then (require (ta_owner a = authority) ConstraintTokenOwner) (\<lambda>_.
    and_then (require (ata_ok pe authority mint addr) AccountNotAssociatedTokenAccount) (\<lambda>_.
      Inr t')))))"

definition cpi_transfer ::
  "'t spl \<Rightarrow> pubkey \<Rightarrow> pubkey \<Rightarrow> pubkey \<Rightarrow> pubkey \<Rightarrow> u64 \<Rightarrow> u8 \<Rightarrow> 't \<Rightarrow> (anchor_error, 't) result" where
  "cpi_transfer spl src mint dst authority amount decimals t =
     ok_or (Cpi_err ''transfer_checked'') (tok_transfer_checked spl src mint dst authority amount decimals t)"

definition cpi_close :: "'t spl \<Rightarrow> pubkey \<Rightarrow> pubkey \<Rightarrow> 't \<Rightarrow> (anchor_error, 't) result" where
  "cpi_close spl acct authority t = ok_or (Cpi_err ''close_account'') (tok_close spl acct authority t)"

section \<open>Deposit\<close>

record deposit_accounts =
  da_signers :: "pubkey list"
  da_agent :: pubkey
  da_provider :: pubkey
  da_mint :: pubkey
  da_escrow :: pubkey
  da_agent_token :: pubkey
  da_vault :: pubkey

definition deposit_constraints ::
  "'t spl \<Rightarrow> program_env \<Rightarrow> deposit_accounts \<Rightarrow> bytes \<Rightarrow> 't program_state
     \<Rightarrow> (anchor_error, u8 \<times> u8 \<times> 't) result" where
  "deposit_constraints spl pe acc service_id st =
    and_then (require (da_agent acc \<in> set (da_signers acc)) AccountNotSigner) (\<lambda>_.
    and_then (ok_or AccountNotInitialized (tok_decimals spl (da_mint acc))) (\<lambda>decimals.
    and_then (load_token_account spl (da_agent_token acc) (tokens st)) (\<lambda>a.
    and_then (ok_or ConstraintSeeds (find_program_address (pe_crypto pe)
        (escrow_seeds (da_agent acc) service_id) (pe_program_id pe))) (\<lambda>(addr, bump).
    and_then (require (da_escrow acc = addr) ConstraintSeeds) (\<lambda>_.
    and_then (require (escrows st addr = None) AccountAlreadyInUse) (\<lambda>_.
    and_then (associated_token_init spl pe (da_vault acc) (da_mint acc) addr (tokens st)) (\<lambda>t.
    and_then (require (da_mint acc = pe_usdc_mint pe) ConstraintAddress) (\<lambda>_.
    and_then (associated_token pe (da_agent_token acc) (da_mint acc) (da_agent acc) a) (\<lambda>_.
      Inr (bump, decimals, t))))))))))"

definition deposit ::
  "'t spl \<Rightarrow> program_env \<Rightarrow> u64 \<Rightarrow> deposit_accounts \<Rightarrow> u64 \<Rightarrow> bytes \<Rightarrow> u64 \<Rightarrow> 't program_state
     \<Rightarrow> (anchor_error, 't program_state) result" where
  "deposit spl pe now acc amount service_id expiry_slot st =
    and_then (deposit_constraints spl pe acc service_id st) (\<lambda>(bump, decimals, t).
    and_then (require (0 < amount) (Escrow_err ZeroAmountEscrow)) (\<lambda>_.
    and_then (require (now < expiry_slot) (Escrow_err InvalidExpiry)) (\<lambda>_.
    and_then (require (saturating_sub expiry_slot now \<le> MAX_ESCROW_SLOTS) (Escrow_err ExpiryTooFar)) (\<lambda>_.
    and_then (require (MIN_EXPIRY_BUFFER \<le> saturating_sub expiry_slot now) (Escrow_err ExpiryTooSoon)) (\<lambda>_.
    and_then (require (da_provider acc \<noteq> replicate 32 0) (Escrow_err InvalidProvider)) (\<lambda>_.
    and_then (require (da_provider acc \<noteq> da_agent acc) (Escrow_err InvalidProvider)) (\<lambda>_.
    and_then (cpi_transfer spl (da_agent_token acc) (da_mint acc) (da_vault acc) (da_agent acc)
                amount decimals t) (\<lambda>t'.
      Inr (st\<lparr>tokens := t',
        escrows := (escrows st)(da_escrow acc \<mapsto>
          \<lparr>es_agent = da_agent acc, es_provider = da_provider acc, es_mint = da_mint acc,
           es_amount = amount, es_service_id = service_id, es_expiry_slot = expiry_slot,
           es_bump = bump\<rparr>),
        emitted := emitted st @
          [DepositEvent (da_agent acc) (da_provider acc) amount service_id expiry_slot]\<rparr>)))))))))"

section \<open>Claim\<close>

record claim_accounts =
  ca_signers :: "pubkey list"
  ca_escrow :: pubkey
  ca_agent :: pubkey
  ca_provider :: pubkey
  ca_mint :: pubkey
  ca_vault :: pubkey
  ca_provider_token :: pubkey
  ca_agent_token :: pubkey

definition claim_constraints ::
  "'t spl \<Rightarrow> program_env \<Rightarrow> claim_accounts \<Rightarrow> 't program_state
     \<Rightarrow> (anchor_error, escrow \<times> u8 \<times> 't) result" where
  "claim_constraints spl pe acc st =
    and_then (ok_or AccountNotInitialized (escrows st (ca_escrow acc))) (\<lambda>e.
    and_then (require (ca_provider acc \<in> set (ca_signers acc)) AccountNotSigner) (\<lambda>_.
    and_then (ok_or AccountNotInitialized (tok_decimals spl (ca_mint acc))) (\<lambda>decimals.
    and_then (load_token_account spl (ca_vault acc) (tokens st)) (\<lambda>v.
    and_then (associated_token_init spl pe (ca_provider_token acc) (ca_mint acc) (ca_provider acc)
                (tokens st)) (\<lambda>t1.
    and_then (associated_token_init spl pe (ca_agent_token acc) (ca_mint acc) (ca_agent acc) t1) (\<lambda>t2.
    and_then (require (escrow_address_ok pe (ca_escrow acc) e) ConstraintSeeds) (\<lambda>_.
    and_then (require (es_provider e = ca_provider acc) ConstraintHasOne) (\<lambda>_.
    and_then (require (es_mint e = ca_mint acc) ConstraintHasOne) (\<lambda>_.
    and_then (require (ca_escrow acc \<noteq> ca_agent acc) ConstraintClose) (\<lambda>_.
    and_then (require (ca_agent acc = es_agent e) ConstraintAddress) (\<lambda>_.
    and_then (associated_token pe (ca_vault acc) (ca_mint acc) (ca_escrow acc) v) (\<lambda>_.
      Inr (e, decimals, t2)))))))))))))"

definition claim ::
  "'t spl \<Rightarrow> program_env \<Rightarrow> u64 \<Rightarrow> claim_accounts \<Rightarrow> u64 \<Rightarrow> 't program_state
     \<Rightarrow> (anchor_error, 't program_state) result" where
  "claim spl pe now acc actual_amount st =
    and_then (claim_constraints spl pe acc st) (\<lambda>(e, decimals, t).
    let transfer = \<lambda>dst. cpi_transfer spl (ca_vault acc) (ca_mint acc) dst (ca_escrow acc) in
    and_then (require (actual_amount \<le> es_amount e) (Escrow_err ClaimExceedsDeposit)) (\<lambda>_.
    and_then (require (0 < actual_amount) (Escrow_err ZeroAmountEscrow)) (\<lambda>_.
    and_then (require (now < es_expiry_slot e) (Escrow_err EscrowExpired)) (\<lambda>_.
    and_then (require (ca_provider_token acc \<noteq> ca_agent_token acc)
                (Escrow_err DuplicateClaimAccounts)) (\<lambda>_.
    and_then (transfer (ca_provider_token acc) actual_amount decimals t) (\<lambda>t1.
    and_then (ok_or (Escrow_err ClaimExceedsDeposit) (checked_sub (es_amount e) actual_amount)) (\<lambda>rest.
    and_then (if 0 < rest then transfer (ca_agent_token acc) rest decimals t1 else Inr t1) (\<lambda>t2.
    and_then (load_token_account spl (ca_vault acc) t2) (\<lambda>v.
    and_then (if 0 < ta_amount v then transfer (ca_agent_token acc) (ta_amount v) decimals t2
              else Inr t2) (\<lambda>t3.
    and_then (cpi_close spl (ca_vault acc) (ca_escrow acc) t3) (\<lambda>t4.
      Inr (st\<lparr>tokens := t4, escrows := (escrows st)(ca_escrow acc := None),
        emitted := emitted st @
          [ClaimEvent (es_agent e) (es_provider e) (es_amount e) actual_amount rest
             (es_service_id e)]\<rparr>))))))))))))"

section \<open>Refund\<close>

record refund_accounts =
  ra_signers :: "pubkey list"
  ra_escrow :: pubkey
  ra_agent :: pubkey
  ra_mint :: pubkey
  ra_vault :: pubkey
  ra_agent_token :: pubkey

definition refund_constraints ::
  "'t spl \<Rightarrow> program_env \<Rightarrow> refund_accounts \<Rightarrow> 't program_state
     \<Rightarrow> (anchor_error, escrow \<times> u8 \<times> token_account \<times> 't) result" where
  "refund_constraints spl pe acc st =
    and_then (ok_or AccountNotInitialized (escrows st (ra_escrow acc))) (\<lambda>e.
    and_then (require (ra_agent acc \<in> set (ra_signers acc)) AccountNotSigner) (\<lambda>_.
    and_then (ok_or AccountNotInitialized (tok_decimals spl (ra_mint acc))) (\<lambda>decimals.
    and_then (load_token_account spl (ra_vault acc) (tokens st)) (\<lambda>v.
    and_then (associated_token_init spl pe (ra_agent_token acc) (ra_mint acc) (ra_agent acc)
                (tokens st)) (\<lambda>t.
    and_then (require (escrow_address_ok pe (ra_escrow acc) e) ConstraintSeeds) (\<lambda>_.
    and_then (require (es_mint e = ra_mint acc) ConstraintHasOne) (\<lambda>_.
    and_then (require (ra_escrow acc \<noteq> ra_agent acc) ConstraintClose) (\<lambda>_.
    and_then (require (ra_agent acc = es_agent e) ConstraintAddress) (\<lambda>_.
    and_then (associated_token pe (ra_vault acc) (ra_mint acc) (ra_escrow acc) v) (\<lambda>_.
      Inr (e, decimals, v, t)))))))))))"

definition refund ::
  "'t spl \<Rightarrow> program_env \<Rightarrow> u64 \<Rightarrow> refund_accounts \<Rightarrow> 't program_state
     \<Rightarrow> (anchor_error, 't program_state) result" where
  "refund spl pe now acc st =
    and_then (refund_constraints spl pe acc st) (\<lambda>(e, decimals, v, t).
    and_then (require (es_expiry_slot e \<le> now) (Escrow_err EscrowNotExpired)) (\<lambda>_.
    and_then (require (0 < ta_amount v) (Escrow_err EmptyVault)) (\<lambda>_.
    and_then (cpi_transfer spl (ra_vault acc) (ra_mint acc) (ra_agent_token acc) (ra_escrow acc)
                (ta_amount v) decimals t) (\<lambda>t1.
    and_then (cpi_close spl (ra_vault acc) (ra_escrow acc) t1) (\<lambda>t2.
      Inr (st\<lparr>tokens := t2, escrows := (escrows st)(ra_escrow acc := None),
        emitted := emitted st @
          [RefundEvent (es_agent e) (ta_amount v) (es_service_id e) (es_expiry_slot e) now]\<rparr>))))))"

end
