(* ===== verification/Escrow_Tx.thy ===== *)
theory Escrow_Tx
  imports Usdc_Transfer Escrow_Program
begin

text \<open>
  The transactions that drive the escrow program: the client's deposit
  (\<open>crates/escrow-tx/src/deposit.rs\<close>), the client's refund (\<open>crates/x402/src/escrow/refund.rs\<close>)
  and the gateway's claim (\<open>crates/x402/src/escrow/claimer.rs\<close>), byte for byte. The theorems read
  the bytes back with the transaction parser and compare the accounts they name, and the access
  each account gets, with the account structs of the program.
\<close>

section \<open>The legacy message serializer\<close>

datatype deposit_error =
    DepositZeroAmount
  | DepositInvalidKeypair string
  | DepositInvalidAddress string pubkey_error
  | DepositDerivationFailed string
  | DepositMessageTooLong string nat

definition build_legacy_message ::
  "u8 \<times> u8 \<times> u8 \<Rightarrow> pubkey list \<Rightarrow> pubkey \<Rightarrow> bytes \<Rightarrow> u8 \<Rightarrow> u8 list \<Rightarrow> bytes
     \<Rightarrow> (deposit_error, bytes) result" where
  "build_legacy_message header accs program_id blockhash program_index indices dat =
    (let total_accounts = length accs + 1 in
     if 127 < total_accounts then Inl (DepositMessageTooLong ''account count'' total_accounts)
     else if 127 < length indices
       then Inl (DepositMessageTooLong ''instruction account count'' (length indices))
     else if 127 < length dat
       then Inl (DepositMessageTooLong ''instruction data length'' (length dat))
     else
       Inr ([fst header, fst (snd header), snd (snd header)]
         @ [of_nat total_accounts] @ concat accs @ program_id
         @ blockhash
         @ [1]
         @ [program_index] @ [of_nat (length indices)] @ indices
         @ [of_nat (length dat)] @ dat))"

section \<open>Deposit\<close>

definition DEPOSIT_IX_DATA_LEN :: nat where
  "DEPOSIT_IX_DATA_LEN = 8 + 8 + 32 + 8"

record unsigned_deposit_params =
  ud_agent_pubkey :: pubkey
  ud_provider_wallet :: string
  ud_usdc_mint :: string
  ud_escrow_program_id :: string
  ud_amount :: u64
  ud_service_id :: bytes
  ud_expiry_slot :: u64
  ud_recent_blockhash :: bytes

record deposit_params =
  dp_agent_keypair :: string
  dp_provider_wallet :: string
  dp_usdc_mint :: string
  dp_escrow_program_id :: string
  dp_amount :: u64
  dp_service_id :: bytes
  dp_expiry_slot :: u64
  dp_recent_blockhash :: bytes

record derived_addresses =
  escrow_pda :: pubkey
  vault_ata :: pubkey

definition deposit_address :: "crypto \<Rightarrow> string \<Rightarrow> string \<Rightarrow> (deposit_error, pubkey) result" where
  "deposit_address cr field s = map_err (DepositInvalidAddress field) (decode_bs58_pubkey cr s)"

definition derive_deposit_addresses ::
  "crypto \<Rightarrow> pubkey \<Rightarrow> bytes \<Rightarrow> string \<Rightarrow> string \<Rightarrow> (deposit_error, derived_addresses) result" where
  "derive_deposit_addresses cr agent service_id mint_b58 program_b58 =
    and_then (deposit_address cr ''usdc_mint'' mint_b58) (\<lambda>usdc_mint.
    and_then (deposit_address cr ''escrow_program_id'' program_b58) (\<lambda>program_id.
    and_then (ok_or (DepositDerivationFailed ''escrow PDA'')
        (find_program_address cr (escrow_seeds agent service_id) program_id)) (\<lambda>(pda, bump).
    and_then (ok_or (DepositDerivationFailed ''vault ATA'') (derive_ata_address cr pda usdc_mint)) (\<lambda>vault.
      Inr \<lparr>escrow_pda = pda, vault_ata = vault\<rparr>))))"

definition build_deposit_message ::
  "crypto \<Rightarrow> unsigned_deposit_params \<Rightarrow> (deposit_error, bytes) result" where
  "build_deposit_message cr params =
    (if ud_amount params = 0 then Inl DepositZeroAmount
     else
       let agent = ud_agent_pubkey params in
       and_then (deposit_address cr ''provider_wallet'' (ud_provider_wallet params)) (\<lambda>provider.
       and_then (deposit_address cr ''usdc_mint'' (ud_usdc_mint params)) (\<lambda>usdc_mint.
       and_then (deposit_address cr ''escrow_program_id'' (ud_escrow_program_id params)) (\<lambda>program_id.
       and_then (deposit_address cr ''token_program'' TOKEN_PROGRAM_ID_B58) (\<lambda>token_program.
       and_then (deposit_address cr ''ata_program'' ATA_PROGRAM_ID) (\<lambda>ata_program.
       and_then (deposit_address cr ''system_program'' SYSTEM_PROGRAM_ID) (\<lambda>system_program.
       and_then (ok_or (DepositDerivationFailed ''escrow PDA'')
           (find_program_address cr (escrow_seeds agent (ud_service_id params)) program_id)) (\<lambda>(pda, bump).
       and_then (ok_or (DepositDerivationFailed ''agent ATA'') (derive_ata_address cr agent usdc_mint)) (\<lambda>agent_ata.
       and_then (ok_or (DepositDerivationFailed ''vault ATA'') (derive_ata_address cr pda usdc_mint)) (\<lambda>vault.
       let dat = anchor_discriminator cr ''deposit'' @ to_le_bytes (ud_amount params)
                   @ ud_service_id params @ to_le_bytes (ud_expiry_slot params) in
       build_legacy_message (1, 0, 6)
         [agent, pda, agent_ata, vault, provider, usdc_mint, token_program, ata_program, system_program]
         program_id (ud_recent_blockhash params) 9 [0, 4, 5, 1, 2, 3, 6, 7, 8] dat))))))))))"

text \<open>The key pair of the client: 64 bytes, with the stored public half equal to the derived one.\<close>

definition client_keypair ::
  "crypto \<Rightarrow> signing \<Rightarrow> (string \<Rightarrow> 'e) \<Rightarrow> string \<Rightarrow> ('e, bytes \<times> pubkey) result" where
  "client_keypair cr sg err b58 =
    and_then (ok_or (err ''invalid base58'') (bs58_decode cr b58)) (\<lambda>keypair.
    if length keypair \<noteq> 64 then Inl (err ''must be 64 bytes'')
    else and_then (ok_or (err ''ed25519 error'') (keypair_pubkey sg keypair)) (\<lambda>pk.
      if take 32 (drop 32 keypair) \<noteq> pk then Inl (err ''derived pubkey does not match stored pubkey'')
      else Inr (keypair, pk)))"

definition sign_wire :: "signing \<Rightarrow> bytes \<Rightarrow> bytes \<Rightarrow> bytes" where
  "sign_wire sg keypair msg = [1] @ ed_sign sg keypair msg @ msg"

definition build_deposit_tx ::
  "crypto \<Rightarrow> signing \<Rightarrow> deposit_params \<Rightarrow> (deposit_error, string) result" where
  "build_deposit_tx cr sg params =
    (if dp_amount params = 0 then Inl DepositZeroAmount
     else
       and_then (client_keypair cr sg DepositInvalidKeypair (dp_agent_keypair params)) (\<lambda>(keypair, agent).
       and_then (build_deposit_message cr
           \<lparr>ud_agent_pubkey = agent, ud_provider_wallet = dp_provider_wallet params,
            ud_usdc_mint = dp_usdc_mint params, ud_escrow_program_id = dp_escrow_program_id params,
            ud_amount = dp_amount params, ud_service_id = dp_service_id params,
            ud_expiry_slot = dp_expiry_slot params, ud_recent_blockhash = dp_recent_blockhash params\<rparr>)
         (\<lambda>msg. Inr (b64_encode sg (sign_wire sg keypair msg)))))"

section \<open>Refund\<close>

datatype refund_error =
    RefundInvalidKeypair string
  | RefundInvalidAddress string pubkey_error
  | RefundDerivationFailed string
  | RefundPdaMismatch pubkey string
  | RefundMessageBuild deposit_error

record refund_params =
  rp_agent_keypair :: string
  rp_escrow_pda :: string
  rp_usdc_mint :: string
  rp_escrow_program_id :: string
  rp_service_id :: bytes
  rp_recent_blockhash :: bytes

definition refund_address :: "crypto \<Rightarrow> string \<Rightarrow> string \<Rightarrow> (refund_error, pubkey) result" where
  "refund_address cr field s = map_err (RefundInvalidAddress field) (decode_bs58_pubkey cr s)"

definition build_refund_tx ::
  "crypto \<Rightarrow> signing \<Rightarrow> refund_params \<Rightarrow> (refund_error, string) result" where
  "build_refund_tx cr sg params =
    and_then (client_keypair cr sg RefundInvalidKeypair (rp_agent_keypair params)) (\<lambda>(keypair, agent).
    and_then (refund_address cr ''escrow_pda'' (rp_escrow_pda params)) (\<lambda>expected_pda.
    and_then (refund_address cr ''usdc_mint'' (rp_usdc_mint params)) (\<lambda>usdc_mint.
    and_then (refund_address cr ''escrow_program_id'' (rp_escrow_program_id params)) (\<lambda>program_id.
    and_then (refund_address cr ''token_program'' TOKEN_PROGRAM_ID_B58) (\<lambda>token_program.
    and_then (refund_address cr ''ata_program'' ATA_PROGRAM_ID) (\<lambda>ata_program.
    and_then (refund_address cr ''system_program'' SYSTEM_PROGRAM_ID) (\<lambda>system_program.
    and_then (ok_or (RefundDerivationFailed ''escrow PDA'')
        (find_program_address cr (escrow_seeds agent (rp_service_id params)) program_id)) (\<lambda>(pda, bump).
    if pda \<noteq> expected_pda then Inl (RefundPdaMismatch pda (rp_escrow_pda params))
    else
    and_then (ok_or (RefundDerivationFailed ''agent ATA'') (derive_ata_address cr agent usdc_mint)) (\<lambda>agent_ata.
    and_then (ok_or (RefundDerivationFailed ''vault ATA'') (derive_ata_address cr pda usdc_mint)) (\<lambda>vault.
    and_then (map_err RefundMessageBuild (build_legacy_message (1, 0, 5)
        [agent, pda, vault, agent_ata, usdc_mint, token_program, ata_program, system_program]
        program_id (rp_recent_blockhash params) 8 [1, 0, 4, 2, 3, 5, 6, 7]
        (anchor_discriminator cr ''refund''))) (\<lambda>msg.
      Inr (b64_encode sg (sign_wire sg keypair msg)))))))))))))"

section \<open>How the chain reads a message\<close>

text \<open>
  The access the Solana message header grants: the first keys sign, and within the signers and the
  others the last ones are read-only.
\<close>

definition signer_keys :: "parsed_message \<Rightarrow> pubkey list" where
  "signer_keys m = take (unat (num_required_signatures (pm_header m))) (account_keys m)"

definition is_writable_index :: "parsed_message \<Rightarrow> nat \<Rightarrow> bool" where
  "is_writable_index m i \<longleftrightarrow>
    (let h = pm_header m; n = unat (num_required_signatures h) in
     if i < n then i < n - unat (num_readonly_signed_accounts h)
     else i < length (account_keys m) - unat (num_readonly_unsigned_accounts h))"

definition writable_accounts :: "parsed_message \<Rightarrow> compiled_instruction \<Rightarrow> bool list" where
  "writable_accounts m ix = map (\<lambda>i. is_writable_index m (unat i)) (ix_accounts ix)"

definition ix_keys :: "parsed_message \<Rightarrow> compiled_instruction \<Rightarrow> pubkey option list" where
  "ix_keys m ix = map (key_at m) (ix_accounts ix)"

text \<open>
  The account structs of the program: which positional account is which field. Accounts after the
  last field are not looked at.
\<close>

definition deposit_accounts_of :: "parsed_message \<Rightarrow> compiled_instruction \<Rightarrow> deposit_accounts option" where
  "deposit_accounts_of m ix =
    (case take 9 (ix_keys m ix) of
       [Some agent, Some provider, Some mint, Some pda, Some agent_token, Some vault, Some _, Some _, Some _] \<Rightarrow>
         Some \<lparr>da_signers = signer_keys m, da_agent = agent, da_provider = provider, da_mint = mint,
           da_escrow = pda, da_agent_token = agent_token, da_vault = vault\<rparr>
     | _ \<Rightarrow> None)"

definition claim_accounts_in :: "parsed_message \<Rightarrow> compiled_instruction \<Rightarrow> claim_accounts option" where
  "claim_accounts_in m ix =
    (case take 10 (ix_keys m ix) of
       [Some pda, Some agent, Some provider, Some mint, Some vault, Some provider_token, Some agent_token,
        Some _, Some _, Some _] \<Rightarrow>
         Some \<lparr>ca_signers = signer_keys m, ca_escrow = pda, ca_agent = agent, ca_provider = provider,
           ca_mint = mint, ca_vault = vault, ca_provider_token = provider_token,
           ca_agent_token = agent_token\<rparr>
     | _ \<Rightarrow> None)"

definition refund_accounts_in :: "parsed_message \<Rightarrow> compiled_instruction \<Rightarrow> refund_accounts option" where
  "refund_accounts_in m ix =
    (case take 8 (ix_keys m ix) of
       [Some pda, Some agent, Some mint, Some vault, Some agent_token, Some _, Some _, Some _] \<Rightarrow>
         Some \<lparr>ra_signers = signer_keys m, ra_escrow = pda, ra_agent = agent, ra_mint = mint,
           ra_vault = vault, ra_agent_token = agent_token\<rparr>
     | _ \<Rightarrow> None)"

section \<open>The built messages\<close>

definition legacy_message ::
  "u8 \<Rightarrow> pubkey list \<Rightarrow> pubkey \<Rightarrow> bytes \<Rightarrow> u8 list \<Rightarrow> bytes \<Rightarrow> parsed_message" where
  "legacy_message readonly accs program_id blockhash indices dat =
    \<lparr>pm_header = \<lparr>num_required_signatures = 1, num_readonly_signed_accounts = 0,
       num_readonly_unsigned_accounts = readonly\<rparr>,
     account_keys = accs @ [program_id], recent_blockhash = blockhash,
     instructions = [\<lparr>program_id_index = of_nat (length accs), ix_accounts = indices, ix_data = dat\<rparr>],
     is_v0 = False\<rparr>"

lemma build_legacy_message_Inr:
  "length accs < 127 \<Longrightarrow> length indices < 128 \<Longrightarrow> length dat < 128 \<Longrightarrow>
   build_legacy_message (1, 0, readonly) accs program_id blockhash (of_nat (length accs)) indices dat
     = Inr (encode_message (legacy_message readonly accs program_id blockhash indices dat))"
  by (simp add: build_legacy_message_def legacy_message_def encode_message_def encode_instruction_def
      encode_compact_small)

lemma parse_legacy_message:
  assumes "\<forall>k \<in> set (program_id # accs). length k = 32" "length blockhash = 32"
    "length accs < 127" "length indices < 128" "length dat < 128"
  shows "parsed_message_from_bytes (encode_message (legacy_message readonly accs program_id blockhash
      indices dat)) = Inr (legacy_message readonly accs program_id blockhash indices dat)"
proof -
  have "wf_message (legacy_message readonly accs program_id blockhash indices dat)"
    using assms by (auto simp: wf_message_def legacy_message_def wf_instruction_def)
  from message_roundtrip_aux [OF this, of "[]"] show ?thesis by simp
qed

text \<open>What the packages promise: 32-byte hashes, and the published constants decode to their bytes.\<close>

definition escrow_crypto_laws :: "crypto \<Rightarrow> bool" where
  "escrow_crypto_laws cr \<longleftrightarrow> (\<forall>bs. length (sha256 cr bs) = 32)
     \<and> bs58_decode cr TOKEN_PROGRAM_ID_B58 = Some TOKEN_PROGRAM_ID
     \<and> bs58_decode cr ATA_PROGRAM_ID = Some ASSOCIATED_TOKEN_PROGRAM_ID
     \<and> bs58_decode cr SYSTEM_PROGRAM_ID = Some SYSTEM_PROGRAM"

lemma escrow_crypto_constants:
  assumes "escrow_crypto_laws cr"
  shows "decode_bs58_pubkey cr TOKEN_PROGRAM_ID_B58 = Inr TOKEN_PROGRAM_ID"
    "decode_bs58_pubkey cr ATA_PROGRAM_ID = Inr ASSOCIATED_TOKEN_PROGRAM_ID"
    "decode_bs58_pubkey cr SYSTEM_PROGRAM_ID = Inr SYSTEM_PROGRAM"
    "derive_ata_address cr wallet mint = derive_ata cr wallet mint TOKEN_PROGRAM_ID"
    "length (anchor_discriminator cr name) = 8"
  using assms derive_ata_address_eq
  by (auto simp: escrow_crypto_laws_def decode_bs58_pubkey_def anchor_discriminator_def)

lemma find_program_address_length:
  assumes "\<forall>bs. length (sha256 cr bs) = 32" "find_program_address cr seeds pid = Some (addr, bump)"
  shows "length addr = 32"
  using assms by (auto simp: find_program_address_def pda_hash_def dest!: find_program_address_from_Some)

definition deposit_message ::
  "crypto \<Rightarrow> unsigned_deposit_params \<Rightarrow> pubkey \<Rightarrow> pubkey \<Rightarrow> pubkey \<Rightarrow> pubkey \<Rightarrow> pubkey \<Rightarrow> pubkey \<Rightarrow> parsed_message"
where
  "deposit_message cr p provider mint program_id pda agent_ata vault =
    legacy_message 6 [ud_agent_pubkey p, pda, agent_ata, vault, provider, mint, TOKEN_PROGRAM_ID,
        ASSOCIATED_TOKEN_PROGRAM_ID, SYSTEM_PROGRAM] program_id (ud_recent_blockhash p)
      [0, 4, 5, 1, 2, 3, 6, 7, 8]
      (anchor_discriminator cr ''deposit'' @ to_le_bytes (ud_amount p) @ ud_service_id p
        @ to_le_bytes (ud_expiry_slot p))"

lemma build_deposit_message_ok:
  assumes laws: "escrow_crypto_laws cr" and b: "build_deposit_message cr p = Inr b"
    and lens: "length (ud_agent_pubkey p) = 32" "length (ud_service_id p) = 32"
      "length (ud_recent_blockhash p) = 32"
  obtains provider mint program_id pda bump agent_ata vault where
    "ud_amount p \<noteq> 0" "decode_bs58_pubkey cr (ud_provider_wallet p) = Inr provider"
    "decode_bs58_pubkey cr (ud_usdc_mint p) = Inr mint"
    "decode_bs58_pubkey cr (ud_escrow_program_id p) = Inr program_id"
    "find_program_address cr (escrow_seeds (ud_agent_pubkey p) (ud_service_id p)) program_id
       = Some (pda, bump)"
    "derive_ata cr (ud_agent_pubkey p) mint TOKEN_PROGRAM_ID = Some agent_ata"
    "derive_ata cr pda mint TOKEN_PROGRAM_ID = Some vault"
    "b = encode_message (deposit_message cr p provider mint program_id pda agent_ata vault)"
    "parsed_message_from_bytes b = Inr (deposit_message cr p provider mint program_id pda agent_ata vault)"
proof -
  note k = escrow_crypto_constants [OF laws]
  from b obtain provider mint program_id pda bump agent_ata vault where
    f: "ud_amount p \<noteq> 0" "decode_bs58_pubkey cr (ud_provider_wallet p) = Inr provider"
    "decode_bs58_pubkey cr (ud_usdc_mint p) = Inr mint"
    "decode_bs58_pubkey cr (ud_escrow_program_id p) = Inr program_id"
    "find_program_address cr (escrow_seeds (ud_agent_pubkey p) (ud_service_id p)) program_id
       = Some (pda, bump)"
    "derive_ata cr (ud_agent_pubkey p) mint TOKEN_PROGRAM_ID = Some agent_ata"
    "derive_ata cr pda mint TOKEN_PROGRAM_ID = Some vault"
    and m: "build_legacy_message (1, 0, 6) [ud_agent_pubkey p, pda, agent_ata, vault, provider, mint,
        TOKEN_PROGRAM_ID, ASSOCIATED_TOKEN_PROGRAM_ID, SYSTEM_PROGRAM] program_id
        (ud_recent_blockhash p) 9 [0, 4, 5, 1, 2, 3, 6, 7, 8] (anchor_discriminator cr ''deposit''
        @ to_le_bytes (ud_amount p) @ ud_service_id p @ to_le_bytes (ud_expiry_slot p)) = Inr b"
    by (auto simp: build_deposit_message_def Let_def and_then_Inr_iff deposit_address_def k
        split: if_splits)
  from laws have sha: "\<forall>bs. length (sha256 cr bs) = 32" by (simp add: escrow_crypto_laws_def)
  have keys: "length provider = 32" "length mint = 32" "length program_id = 32" "length pda = 32"
    "length agent_ata = 32" "length vault = 32"
    using f(2-4) decode_bs58_pubkey_length find_program_address_length [OF sha f(5)]
      derive_ata_length [of cr] sha f(6,7) by blast+
  have enc: "b = encode_message (deposit_message cr p provider mint program_id pda agent_ata vault)"
    using m build_legacy_message_Inr [of "[ud_agent_pubkey p, pda, agent_ata, vault, provider, mint,
        TOKEN_PROGRAM_ID, ASSOCIATED_TOKEN_PROGRAM_ID, SYSTEM_PROGRAM]" "[0, 4, 5, 1, 2, 3, 6, 7, 8]"
        "anchor_discriminator cr ''deposit'' @ to_le_bytes (ud_amount p) @ ud_service_id p
          @ to_le_bytes (ud_expiry_slot p)" 6 program_id "ud_recent_blockhash p"] k(5) lens
    by (simp add: deposit_message_def)
  have "parsed_message_from_bytes b = Inr (deposit_message cr p provider mint program_id pda agent_ata vault)"
    unfolding enc deposit_message_def
    by (rule parse_legacy_message) (use keys lens k(5) in simp_all)
  with f enc show thesis by (rule that)
qed

lemma deposit_message_view:
  fixes cr p provider mint program_id pda agent_ata vault
  defines "m \<equiv> deposit_message cr p provider mint program_id pda agent_ata vault"
  shows "instructions m = [\<lparr>program_id_index = 9, ix_accounts = [0, 4, 5, 1, 2, 3, 6, 7, 8],
      ix_data = anchor_discriminator cr ''deposit'' @ to_le_bytes (ud_amount p) @ ud_service_id p
        @ to_le_bytes (ud_expiry_slot p)\<rparr>]"
    and "key_at m 9 = Some program_id"
    and "deposit_accounts_of m (instructions m ! 0) = Some \<lparr>da_signers = [ud_agent_pubkey p],
      da_agent = ud_agent_pubkey p, da_provider = provider, da_mint = mint, da_escrow = pda,
      da_agent_token = agent_ata, da_vault = vault\<rparr>"
    and "writable_accounts m (instructions m ! 0)
      = [True, False, False, True, True, True, False, False, False]"
    and "account_keys m ! 0 = ud_agent_pubkey p"
  by (simp_all add: m_def deposit_message_def legacy_message_def key_at_def deposit_accounts_of_def
      ix_keys_def signer_keys_def writable_accounts_def is_writable_index_def Let_def)

text \<open>
  The deposit message the client signs says what was asked for. Its bytes parse back to one
  instruction of the escrow program whose positional accounts are the fields of the program's
  deposit struct in order (the agent as the only signer, the provider, the mint, and the escrow,
  agent and vault addresses derived exactly as the published derivation says), with write access
  for the agent, escrow, source and vault accounts and no other, and whose data is the deposit
  discriminator followed by the amount, the service id and the expiry slot.
\<close>
theorem deposit_message_layout:
  assumes laws: "escrow_crypto_laws cr" and b: "build_deposit_message cr p = Inr b"
    and lens: "length (ud_agent_pubkey p) = 32" "length (ud_service_id p) = 32"
      "length (ud_recent_blockhash p) = 32"
  shows "\<exists>m ix program_id acc ad. parsed_message_from_bytes b = Inr m \<and> instructions m = [ix]
    \<and> decode_bs58_pubkey cr (ud_escrow_program_id p) = Inr program_id
    \<and> key_at m (program_id_index ix) = Some program_id
    \<and> deposit_accounts_of m ix = Some acc
    \<and> derive_deposit_addresses cr (ud_agent_pubkey p) (ud_service_id p) (ud_usdc_mint p)
        (ud_escrow_program_id p) = Inr ad
    \<and> da_signers acc = [ud_agent_pubkey p] \<and> da_agent acc = ud_agent_pubkey p
    \<and> decode_bs58_pubkey cr (ud_provider_wallet p) = Inr (da_provider acc)
    \<and> decode_bs58_pubkey cr (ud_usdc_mint p) = Inr (da_mint acc)
    \<and> da_escrow acc = escrow_pda ad \<and> da_vault acc = vault_ata ad
    \<and> derive_ata cr (ud_agent_pubkey p) (da_mint acc) TOKEN_PROGRAM_ID = Some (da_agent_token acc)
    \<and> writable_accounts m ix = [True, False, False, True, True, True, False, False, False]
    \<and> ix_data ix = anchor_discriminator cr ''deposit'' @ to_le_bytes (ud_amount p) @ ud_service_id p
        @ to_le_bytes (ud_expiry_slot p)"
proof -
  from laws b lens obtain provider mint program_id pda bump agent_ata vault where
    f: "decode_bs58_pubkey cr (ud_provider_wallet p) = Inr provider"
    "decode_bs58_pubkey cr (ud_usdc_mint p) = Inr mint"
    "decode_bs58_pubkey cr (ud_escrow_program_id p) = Inr program_id"
    "find_program_address cr (escrow_seeds (ud_agent_pubkey p) (ud_service_id p)) program_id
       = Some (pda, bump)"
    "derive_ata cr (ud_agent_pubkey p) mint TOKEN_PROGRAM_ID = Some agent_ata"
    "derive_ata cr pda mint TOKEN_PROGRAM_ID = Some vault"
    and parsed: "parsed_message_from_bytes b
        = Inr (deposit_message cr p provider mint program_id pda agent_ata vault)"
    by (rule build_deposit_message_ok)
  note view = deposit_message_view [of cr p provider mint program_id pda agent_ata vault]
  show ?thesis
    using f parsed view escrow_crypto_constants [OF laws]
    by (auto simp: derive_deposit_addresses_def deposit_address_def map_err_def)
qed

definition refund_message ::
  "crypto \<Rightarrow> refund_params \<Rightarrow> pubkey \<Rightarrow> pubkey \<Rightarrow> pubkey \<Rightarrow> pubkey \<Rightarrow> pubkey \<Rightarrow> pubkey \<Rightarrow> parsed_message"
where
  "refund_message cr p agent mint program_id pda vault agent_ata =
    legacy_message 5 [agent, pda, vault, agent_ata, mint, TOKEN_PROGRAM_ID,
        ASSOCIATED_TOKEN_PROGRAM_ID, SYSTEM_PROGRAM] program_id (rp_recent_blockhash p)
      [1, 0, 4, 2, 3, 5, 6, 7] (anchor_discriminator cr ''refund'')"

lemma client_keypair_ok:
  "client_keypair cr sg err s = Inr (kp, pk) \<longleftrightarrow>
     bs58_decode cr s = Some kp \<and> length kp = 64 \<and> keypair_pubkey sg kp = Some pk
     \<and> take 32 (drop 32 kp) = pk"
  by (auto simp: client_keypair_def and_then_Inr_iff split: if_splits)

text \<open>The wire form of a signed message parses back to the signature and the message.\<close>

lemma sign_wire_parses:
  assumes "signing_laws cr ed sg" "keypair_pubkey sg kp = Some pk"
  shows "versioned_transaction_from_bytes (sign_wire sg kp msg)
    = Inr \<lparr>vt_signatures = [ed_sign sg kp msg], vt_message_bytes = msg\<rparr>"
proof -
  from assms have "length (ed_sign sg kp msg) = 64" unfolding signing_laws_def by blast
  moreover have "sign_wire sg kp msg = encode_transaction [ed_sign sg kp msg] msg"
    by (simp add: sign_wire_def encode_transaction_def encode_compact_small)
  ultimately show ?thesis using transaction_roundtrip_aux [of "[ed_sign sg kp msg]" msg] by simp
qed

lemma build_refund_tx_ok:
  assumes laws: "escrow_crypto_laws cr" and tx: "build_refund_tx cr sg p = Inr tx"
    and lens: "length (rp_recent_blockhash p) = 32"
  obtains kp agent mint program_id pda bump agent_ata vault where
    "keypair_pubkey sg kp = Some agent" "bs58_decode cr (rp_agent_keypair p) = Some kp"
    "decode_bs58_pubkey cr (rp_escrow_pda p) = Inr pda"
    "decode_bs58_pubkey cr (rp_usdc_mint p) = Inr mint"
    "decode_bs58_pubkey cr (rp_escrow_program_id p) = Inr program_id"
    "find_program_address cr (escrow_seeds agent (rp_service_id p)) program_id = Some (pda, bump)"
    "derive_ata cr agent mint TOKEN_PROGRAM_ID = Some agent_ata"
    "derive_ata cr pda mint TOKEN_PROGRAM_ID = Some vault"
    "tx = b64_encode sg (sign_wire sg kp (encode_message
       (refund_message cr p agent mint program_id pda vault agent_ata)))"
    "parsed_message_from_bytes (encode_message
       (refund_message cr p agent mint program_id pda vault agent_ata))
      = Inr (refund_message cr p agent mint program_id pda vault agent_ata)"
proof -
  note k = escrow_crypto_constants [OF laws]
  from tx obtain kp agent mint program_id pda bump agent_ata vault msg where
    f: "keypair_pubkey sg kp = Some agent" "bs58_decode cr (rp_agent_keypair p) = Some kp"
    "decode_bs58_pubkey cr (rp_escrow_pda p) = Inr pda"
    "decode_bs58_pubkey cr (rp_usdc_mint p) = Inr mint"
    "decode_bs58_pubkey cr (rp_escrow_program_id p) = Inr program_id"
    "find_program_address cr (escrow_seeds agent (rp_service_id p)) program_id = Some (pda, bump)"
    "derive_ata cr agent mint TOKEN_PROGRAM_ID = Some agent_ata"
    "derive_ata cr pda mint TOKEN_PROGRAM_ID = Some vault"
    and kp: "length kp = 64" "agent = take 32 (drop 32 kp)"
    and m: "build_legacy_message (1, 0, 5) [agent, pda, vault, agent_ata, mint,
        TOKEN_PROGRAM_ID, ASSOCIATED_TOKEN_PROGRAM_ID, SYSTEM_PROGRAM] program_id
        (rp_recent_blockhash p) 8 [1, 0, 4, 2, 3, 5, 6, 7] (anchor_discriminator cr ''refund'') = Inr msg"
    and tx': "tx = b64_encode sg (sign_wire sg kp msg)"
    by (auto simp: build_refund_tx_def and_then_Inr_iff refund_address_def k client_keypair_ok
        split: if_splits)
  from laws have sha: "\<forall>bs. length (sha256 cr bs) = 32" by (simp add: escrow_crypto_laws_def)
  have keys: "length mint = 32" "length program_id = 32" "length pda = 32"
    "length agent_ata = 32" "length vault = 32" "length agent = 32"
    using f(3-5) decode_bs58_pubkey_length derive_ata_length [of cr] sha f(7,8) kp by auto
  have "msg = encode_message (refund_message cr p agent mint program_id pda vault agent_ata)"
    using m build_legacy_message_Inr [of "[agent, pda, vault, agent_ata, mint,
        TOKEN_PROGRAM_ID, ASSOCIATED_TOKEN_PROGRAM_ID, SYSTEM_PROGRAM]" "[1, 0, 4, 2, 3, 5, 6, 7]"
        "anchor_discriminator cr ''refund''" 5 program_id "rp_recent_blockhash p"] k(5)
    by (simp add: refund_message_def)
  moreover have "parsed_message_from_bytes (encode_message
       (refund_message cr p agent mint program_id pda vault agent_ata))
      = Inr (refund_message cr p agent mint program_id pda vault agent_ata)"
    unfolding refund_message_def
    by (rule parse_legacy_message) (use keys lens k(5) in simp_all)
  ultimately show thesis using f tx' by (intro that) simp_all
qed

lemma refund_message_view:
  fixes cr p agent mint program_id pda vault agent_ata
  defines "m \<equiv> refund_message cr p agent mint program_id pda vault agent_ata"
  shows "instructions m = [\<lparr>program_id_index = 8, ix_accounts = [1, 0, 4, 2, 3, 5, 6, 7],
      ix_data = anchor_discriminator cr ''refund''\<rparr>]"
    and "key_at m 8 = Some program_id"
    and "refund_accounts_in m (instructions m ! 0) = Some \<lparr>ra_signers = [agent], ra_escrow = pda,
      ra_agent = agent, ra_mint = mint, ra_vault = vault, ra_agent_token = agent_ata\<rparr>"
    and "writable_accounts m (instructions m ! 0) = [True, True, False, True, True, False, False, False]"
  by (simp_all add: m_def refund_message_def legacy_message_def key_at_def refund_accounts_in_def
      ix_keys_def signer_keys_def writable_accounts_def is_writable_index_def Let_def)

subsection \<open>Concrete packages\<close>

definition toy_bs58_decode :: "string \<Rightarrow> bytes option" where
  "toy_bs58_decode s =
    (if s \<in> {TOKEN_PROGRAM_ID_B58, ATA_PROGRAM_ID, SYSTEM_PROGRAM_ID} then base58_decode s
     else if length s = 64 then Some (ascii s)
     else Some (take 32 (ascii s @ replicate 32 0)))"

definition toy_escrow_crypto :: crypto where
  "toy_escrow_crypto = toy_crypto\<lparr>bs58_decode := toy_bs58_decode\<rparr>"

lemma base58_system_program: "base58_decode SYSTEM_PROGRAM_ID = Some SYSTEM_PROGRAM"
  by (simp add: base58_decode_def base58_alphabet_def be_bytes.simps SYSTEM_PROGRAM_ID_def
      SYSTEM_PROGRAM_def numeral_eq_Suc)

lemma toy_escrow_crypto_laws: "escrow_crypto_laws toy_escrow_crypto"
  by (auto simp: escrow_crypto_laws_def toy_escrow_crypto_def toy_crypto_def toy_bs58_decode_def
      base58_program_ids base58_system_program)

lemma toy_escrow_decode:
  "length s < 32 \<Longrightarrow> decode_bs58_pubkey toy_escrow_crypto s = Inr (take 32 (ascii s @ replicate 32 0))"
  by (auto simp: decode_bs58_pubkey_def toy_escrow_crypto_def toy_crypto_def toy_bs58_decode_def
      TOKEN_PROGRAM_ID_B58_def ATA_PROGRAM_ID_def SYSTEM_PROGRAM_ID_def)

lemma toy_escrow_ata: "length w = 32 \<Longrightarrow> derive_ata toy_escrow_crypto w m p = Some w"
  by (simp add: derive_ata_def derive_ata_loop_numeral is_on_ed25519_curve_def toy_escrow_crypto_def
      toy_crypto_def)

lemma toy_escrow_pda:
  "find_program_address toy_escrow_crypto seeds pid
     = Some (take 32 (concat seeds @ [255] @ pid @ ascii ''ProgramDerivedAddress'' @ replicate 32 0), 255)"
  by (simp add: find_program_address_def find_program_address_from_numeral pda_hash_def
      is_on_ed25519_curve_def Let_def toy_escrow_crypto_def toy_crypto_def
      del: take_append replicate.simps)

definition toy_deposit_params :: unsigned_deposit_params where
  "toy_deposit_params = \<lparr>ud_agent_pubkey = replicate 32 1, ud_provider_wallet = ''provider'',
     ud_usdc_mint = ''usdc'', ud_escrow_program_id = ''program'', ud_amount = 2625,
     ud_service_id = replicate 32 7, ud_expiry_slot = 1000750, ud_recent_blockhash = replicate 32 9\<rparr>"

lemma toy_deposit_builds: "\<exists>b. build_deposit_message toy_escrow_crypto toy_deposit_params = Inr b"
  using escrow_crypto_constants [OF toy_escrow_crypto_laws]
  by (simp add: build_deposit_message_def Let_def deposit_address_def toy_deposit_params_def toy_escrow_decode
      toy_escrow_pda toy_escrow_ata build_legacy_message_def)

theorem deposit_message_layout_witness:
  "\<exists>b m ix. build_deposit_message toy_escrow_crypto toy_deposit_params = Inr b
     \<and> parsed_message_from_bytes b = Inr m \<and> instructions m = [ix]
     \<and> writable_accounts m ix = [True, False, False, True, True, True, False, False, False]"
proof -
  obtain b where b: "build_deposit_message toy_escrow_crypto toy_deposit_params = Inr b"
    using toy_deposit_builds by blast
  from deposit_message_layout [OF toy_escrow_crypto_laws b] show ?thesis
    using b by (auto simp: toy_deposit_params_def)
qed

end
