(* ===== verification/Escrow_Claimer.thy ===== *)
theory Escrow_Claimer
  imports Escrow_Tx Payment_Types
begin

text \<open>
  The gateway's claim (\<open>crates/x402/src/escrow/claimer.rs\<close>) and the durable-nonce pool it may use
  (\<open>crates/x402/src/nonce_pool.rs\<close>): selection of the fee payer and of the nonce, the byte-exact
  claim transaction, its submission and the health mark on the fee payer. The JSON-RPC node is a
  parameter: what it answers to each request.
\<close>

section \<open>Nonce pool\<close>

record nonce_entry =
  ne_nonce_account :: string
  ne_authority :: string

record nonce_pool =
  np_entries :: "nonce_entry list"
  np_counter :: u64

datatype nonce_pool_error =
    NonceInvalidPubkey string
  | NonceRpcError string
  | NonceParseError string

definition MAX_NONCE_ACCOUNTS :: nat where
  "MAX_NONCE_ACCOUNTS = 8"

definition validate_base58_pubkey :: "crypto \<Rightarrow> string \<Rightarrow> (nonce_pool_error, unit) result" where
  "validate_base58_pubkey cr s =
    (case bs58_decode cr s of
       None \<Rightarrow> Inl (NonceInvalidPubkey s)
     | Some decoded \<Rightarrow> if length decoded \<noteq> 32 then Inl (NonceInvalidPubkey s) else Inr ())"

primrec validate_entries :: "crypto \<Rightarrow> nonce_entry list \<Rightarrow> (nonce_pool_error, unit) result" where
  "validate_entries cr [] = Inr ()"
| "validate_entries cr (e # es) =
     and_then (validate_base58_pubkey cr (ne_nonce_account e)) (\<lambda>_.
     and_then (validate_base58_pubkey cr (ne_authority e)) (\<lambda>_. validate_entries cr es))"

definition from_entries :: "crypto \<Rightarrow> nonce_entry list \<Rightarrow> (nonce_pool_error, nonce_pool) result" where
  "from_entries cr es =
     and_then (validate_entries cr es) (\<lambda>_. Inr \<lparr>np_entries = es, np_counter = 0\<rparr>)"

definition read_env_with :: "(string \<Rightarrow> string option) \<Rightarrow> string \<Rightarrow> string \<Rightarrow> string option" where
  "read_env_with read solvela_name rcr_name =
     (case read solvela_name of Some v \<Rightarrow> Some v | None \<Rightarrow> read rcr_name)"

definition trim :: "string \<Rightarrow> string" where
  "trim s = rev (dropWhile is_whitespace (rev (dropWhile is_whitespace s)))"

definition collect_entry ::
  "crypto \<Rightarrow> (string \<Rightarrow> string option) \<Rightarrow> string \<Rightarrow> nonce_entry option" where
  "collect_entry cr read suffix =
    (case read_env_with read (''SOLVELA_SOLANA__NONCE_ACCOUNT'' @ suffix)
            (''RCR_SOLANA__NONCE_ACCOUNT'' @ suffix) of
       None \<Rightarrow> None
     | Some account0 \<Rightarrow>
     (case read_env_with read (''SOLVELA_SOLANA__NONCE_AUTHORITY'' @ suffix)
            (''RCR_SOLANA__NONCE_AUTHORITY'' @ suffix) of
       None \<Rightarrow> None
     | Some authority0 \<Rightarrow>
       let account = trim account0; authority = trim authority0 in
       if account = [] \<or> authority = [] \<or> validate_base58_pubkey cr account \<noteq> Inr ()
          \<or> validate_base58_pubkey cr authority \<noteq> Inr ()
       then None
       else Some \<lparr>ne_nonce_account = account, ne_authority = authority\<rparr>))"

definition from_env_reader :: "crypto \<Rightarrow> (string \<Rightarrow> string option) \<Rightarrow> nonce_pool" where
  "from_env_reader cr read =
     \<lparr>np_entries = List.map_filter (collect_entry cr read)
         ([] # map (\<lambda>i. CHR ''_'' # nat_text i) [2..<MAX_NONCE_ACCOUNTS + 1]),
      np_counter = 0\<rparr>"

definition next_nonce :: "nonce_pool \<Rightarrow> nonce_entry option \<times> nonce_pool" where
  "next_nonce pool =
    (if np_entries pool = [] then (None, pool)
     else (Some (np_entries pool ! (unat (np_counter pool) mod length (np_entries pool))),
           pool\<lparr>np_counter := np_counter pool + 1\<rparr>))"

definition parse_nonce_account_data ::
  "crypto \<Rightarrow> bytes \<Rightarrow> nonce_entry \<Rightarrow> (nonce_pool_error, string) result" where
  "parse_nonce_account_data cr dat e =
    (if length dat < 72 then Inl (NonceParseError ''nonce account data too short'')
     else if bs58_encode cr (take 32 (drop 8 dat)) \<noteq> ne_authority e
       then Inl (NonceParseError ''nonce account authority mismatch'')
     else Inr (bs58_encode cr (take 32 (drop 40 dat))))"

section \<open>The RPC node\<close>

datatype rpc_reply =
    Reply_transport string \<comment> \<open>the request or its decoding failed\<close>
  | Reply_error string \<comment> \<open>a JSON-RPC error object\<close>
  | Reply_text string \<comment> \<open>the expected string is present\<close>
  | Reply_missing \<comment> \<open>no error object and no such string\<close>

record claim_rpc =
  rpc_latest_blockhash :: rpc_reply
  rpc_account_data :: "string \<Rightarrow> rpc_reply"
  rpc_send_transaction :: "string \<Rightarrow> rpc_reply"
  rpc_b64_decode :: "string \<Rightarrow> bytes option"

definition fetch_nonce_value ::
  "crypto \<Rightarrow> claim_rpc \<Rightarrow> nonce_entry \<Rightarrow> (nonce_pool_error, string) result" where
  "fetch_nonce_value cr rpc e =
    (case rpc_account_data rpc (ne_nonce_account e) of
       Reply_transport m \<Rightarrow> Inl (NonceRpcError m)
     | Reply_error m \<Rightarrow> Inl (NonceRpcError m)
     | Reply_missing \<Rightarrow> Inl (NonceParseError ''missing or null nonce account'')
     | Reply_text b64 \<Rightarrow>
       (case rpc_b64_decode rpc b64 of
          None \<Rightarrow> Inl (NonceParseError ''base64 decode failed'')
        | Some dat \<Rightarrow> parse_nonce_account_data cr dat e))"

definition SYSVAR_RECENT_BLOCKHASHES_ID :: string where
  "SYSVAR_RECENT_BLOCKHASHES_ID = ''SysvarRecentB1ockHashes11111111111111111111''"

definition SYSVAR_RENT_ID :: string where
  "SYSVAR_RENT_ID = ''SysvarRent111111111111111111111111111111111''"

record nonce_advance_info =
  na_nonce_account :: pubkey
  na_sysvar_recent_blockhashes :: pubkey

definition try_fetch_nonce ::
  "crypto \<Rightarrow> claim_rpc \<Rightarrow> nonce_pool option
     \<Rightarrow> (bytes \<times> nonce_advance_info) option \<times> nonce_pool option" where
  "try_fetch_nonce cr rpc pool =
    (case pool of None \<Rightarrow> (None, None) | Some np \<Rightarrow>
     (case next_nonce np of
        (None, np') \<Rightarrow> (None, Some np')
      | (Some entry, np') \<Rightarrow>
        ((case fetch_nonce_value cr rpc entry of
            Inl _ \<Rightarrow> None
          | Inr nonce_b58 \<Rightarrow>
            (case bs58_decode cr nonce_b58 of
               None \<Rightarrow> None
             | Some nonce_bytes \<Rightarrow>
               if length nonce_bytes \<noteq> 32 then None
               else (case decode_bs58_pubkey cr (ne_nonce_account entry) of
                  Inl _ \<Rightarrow> None
                | Inr nonce_account \<Rightarrow>
                  (case decode_bs58_pubkey cr SYSVAR_RECENT_BLOCKHASHES_ID of
                     Inl _ \<Rightarrow> None
                   | Inr sysvar \<Rightarrow> Some (nonce_bytes,
                       \<lparr>na_nonce_account = nonce_account, na_sysvar_recent_blockhashes = sysvar\<rparr>))))),
         Some np')))"

section \<open>The claim transaction\<close>

record claim_params =
  cp_fee_payer_keypair :: bytes
  cp_fee_payer_index :: nat
  cp_escrow_program_id :: pubkey
  cp_recipient_wallet :: pubkey
  cp_usdc_mint :: pubkey
  cp_service_id :: bytes
  cp_agent_pubkey :: pubkey
  cp_actual_amount :: u64

definition claim_derive :: "string \<Rightarrow> 'a option \<Rightarrow> (payment_error, 'a) result" where
  "claim_derive what x = ok_or (Err_EscrowClaimFailed (''failed to derive '' @ what)) x"

definition claim_address :: "crypto \<Rightarrow> string \<Rightarrow> string \<Rightarrow> (payment_error, pubkey) result" where
  "claim_address cr what s = map_err (\<lambda>_. Err_EscrowClaimFailed what) (decode_bs58_pubkey cr s)"

record claim_addresses =
  cl_escrow_pda :: pubkey
  cl_vault :: pubkey
  cl_provider_ata :: pubkey
  cl_agent_ata :: pubkey
  cl_token_program :: pubkey
  cl_ata_program :: pubkey
  cl_system_program :: pubkey

definition derive_claim_addresses ::
  "crypto \<Rightarrow> claim_params \<Rightarrow> (payment_error, claim_addresses) result" where
  "derive_claim_addresses cr params =
    and_then (claim_derive ''escrow PDA'' (find_program_address cr
        (escrow_seeds (cp_agent_pubkey params) (cp_service_id params)) (cp_escrow_program_id params)))
      (\<lambda>(pda, bump).
    and_then (claim_derive ''vault ATA'' (derive_ata_address cr pda (cp_usdc_mint params))) (\<lambda>vault.
    and_then (claim_derive ''provider ATA''
        (derive_ata_address cr (cp_recipient_wallet params) (cp_usdc_mint params))) (\<lambda>provider_ata.
    and_then (claim_derive ''agent ATA''
        (derive_ata_address cr (cp_agent_pubkey params) (cp_usdc_mint params))) (\<lambda>agent_ata.
    and_then (claim_address cr ''token program'' TOKEN_PROGRAM_ID_B58) (\<lambda>token_program.
    and_then (claim_address cr ''ata program'' ATA_PROGRAM_ID) (\<lambda>ata_program.
    and_then (claim_address cr ''system program'' SYSTEM_PROGRAM_ID) (\<lambda>system_program.
    and_then (claim_address cr ''sysvar rent'' SYSVAR_RENT_ID) (\<lambda>_.
      Inr \<lparr>cl_escrow_pda = pda, cl_vault = vault, cl_provider_ata = provider_ata,
        cl_agent_ata = agent_ata, cl_token_program = token_program, cl_ata_program = ata_program,
        cl_system_program = system_program\<rparr>))))))))"

definition claim_message_bytes ::
  "crypto \<Rightarrow> claim_params \<Rightarrow> claim_addresses \<Rightarrow> pubkey \<Rightarrow> bytes \<Rightarrow> nonce_advance_info option \<Rightarrow> bytes" where
  "claim_message_bytes cr params ad fee_payer blockhash nonce_advance =
    (let dat = anchor_discriminator cr ''claim'' @ to_le_bytes (cp_actual_amount params);
         accs = [fee_payer, cl_escrow_pda ad, cp_agent_pubkey params, cp_usdc_mint params, cl_vault ad,
             cl_provider_ata ad, cl_agent_ata ad, cl_token_program ad, cl_ata_program ad,
             cl_system_program ad]
           @ (case nonce_advance of None \<Rightarrow> []
              | Some adv \<Rightarrow> [na_nonce_account adv, na_sysvar_recent_blockhashes adv]);
         indices = [1, 2, 0, 3, 4, 5, 6, 7, 8, 9 :: u8] in
     [1, 0, if nonce_advance \<noteq> None then 4 else 3]
     @ [of_nat (length accs + 1)] @ concat accs @ cp_escrow_program_id params
     @ blockhash
     @ [if nonce_advance \<noteq> None then 2 else 1]
     @ (if nonce_advance \<noteq> None
        then [9, 3, of_nat (length accs - 2), of_nat (length accs - 1), 0, 4] @ [4, 0, 0, 0]
        else [])
     @ [of_nat (length accs)] @ [of_nat (length indices)] @ indices
     @ [of_nat (length dat)] @ dat)"

text \<open>The blockhash of step 1: the durable nonce when there is one, else the node's latest.\<close>

definition claim_blockhash ::
  "crypto \<Rightarrow> claim_rpc \<Rightarrow> (bytes \<times> nonce_advance_info) option
     \<Rightarrow> (payment_error, bytes \<times> nonce_advance_info option) result" where
  "claim_blockhash cr rpc nonce =
    (case nonce of
       Some (h, adv) \<Rightarrow> Inr (h, Some adv)
     | None \<Rightarrow>
       (case rpc_latest_blockhash rpc of
          Reply_transport m \<Rightarrow> Inl (Err_Rpc m)
        | Reply_error _ \<Rightarrow> Inl (Err_Rpc ''failed to get latest blockhash'')
        | Reply_missing \<Rightarrow> Inl (Err_Rpc ''failed to get latest blockhash'')
        | Reply_text s \<Rightarrow>
          (case bs58_decode cr s of
             None \<Rightarrow> Inl (Err_Rpc ''invalid blockhash'')
           | Some h \<Rightarrow> if length h \<noteq> 32 then Inl (Err_Rpc ''blockhash must be 32 bytes'')
                       else Inr (h, None))))"

definition submit_claim :: "claim_rpc \<Rightarrow> string \<Rightarrow> (payment_error, string) result" where
  "submit_claim rpc tx =
    (case rpc_send_transaction rpc tx of
       Reply_transport m \<Rightarrow> Inl (Err_Rpc m)
     | Reply_error m \<Rightarrow> Inl (Err_EscrowClaimFailed (''sendTransaction error: '' @ m))
     | Reply_missing \<Rightarrow> Inl (Err_EscrowClaimFailed ''sendTransaction did not return a signature'')
     | Reply_text sig \<Rightarrow> Inr sig)"

text \<open>
  The whole call: the transaction it broadcasts, if it gets that far, its result, and the nonce
  pool with its advanced counter.
\<close>

definition build_claim_tx ::
  "crypto \<Rightarrow> signing \<Rightarrow> claim_params \<Rightarrow> bytes \<Rightarrow> nonce_advance_info option
     \<Rightarrow> (payment_error, string) result" where
  "build_claim_tx cr sg params blockhash nonce_advance =
    and_then (derive_claim_addresses cr params) (\<lambda>ad.
    and_then (ok_or (Err_EscrowClaimFailed ''invalid fee_payer keypair'')
        (keypair_pubkey sg (cp_fee_payer_keypair params))) (\<lambda>fee_payer.
    if fee_payer \<noteq> cp_recipient_wallet params
    then Inl (Err_EscrowClaimFailed ''fee_payer_key must belong to the recipient_wallet'')
    else Inr (b64_encode sg (sign_wire sg (cp_fee_payer_keypair params)
        (claim_message_bytes cr params ad fee_payer blockhash nonce_advance)))))"

definition do_claim ::
  "crypto \<Rightarrow> signing \<Rightarrow> claim_rpc \<Rightarrow> claim_params \<Rightarrow> nonce_pool option
     \<Rightarrow> string option \<times> (payment_error, string) result \<times> nonce_pool option" where
  "do_claim cr sg rpc params pool =
    (let (nonce, pool') = try_fetch_nonce cr rpc pool in
     case and_then (claim_blockhash cr rpc nonce)
            (\<lambda>(blockhash, adv). build_claim_tx cr sg params blockhash adv) of
       Inl e \<Rightarrow> (None, Inl e, pool')
     | Inr tx \<Rightarrow> (Some tx, submit_claim rpc tx, pool'))"

section \<open>Fee payer health\<close>

text \<open>
  The search for a whole hexadecimal code. The loop advances past each rejected occurrence; it
  would not end on an empty code, so not returning is the value \<open>None\<close>.
\<close>

partial_function (option) contains_hex_code :: "string \<Rightarrow> string \<Rightarrow> bool option" where
  "contains_hex_code msg code =
    (case after_marker code msg of
       None \<Rightarrow> Some False
     | Some rest \<Rightarrow>
       if rest \<noteq> [] \<and> digit_value 16 (hd rest) \<noteq> None then contains_hex_code rest code
       else Some True)"

definition is_insufficient_sol_error :: "payment_error \<Rightarrow> bool" where
  "is_insufficient_sol_error e =
    (let msg = to_lowercase (error_text e) in
     str_contains msg ''insufficient lamports'' \<or> str_contains msg ''insufficient funds''
     \<or> str_contains msg ''insufficient sol'' \<or> contains_hex_code msg ''0x1'' = Some True)"

record escrow_claimer =
  ec_escrow_program_id :: pubkey
  ec_recipient_wallet :: pubkey
  ec_usdc_mint :: pubkey
  ec_fee_payer_pool :: fee_payer_pool
  ec_nonce_pool :: "nonce_pool option"

definition new_claimer ::
  "crypto \<Rightarrow> fee_payer_pool \<Rightarrow> string \<Rightarrow> string \<Rightarrow> string \<Rightarrow> nonce_pool option
     \<Rightarrow> (string, escrow_claimer) result" where
  "new_claimer cr pool program_b58 recipient_b58 mint_b58 nonces =
    and_then (map_err (\<lambda>_. ''escrow_program_id'') (decode_bs58_pubkey cr program_b58)) (\<lambda>program_id.
    and_then (map_err (\<lambda>_. ''recipient_wallet'') (decode_bs58_pubkey cr recipient_b58)) (\<lambda>recipient.
    and_then (map_err (\<lambda>_. ''usdc_mint'') (decode_bs58_pubkey cr mint_b58)) (\<lambda>usdc_mint.
      Inr \<lparr>ec_escrow_program_id = program_id, ec_recipient_wallet = recipient,
        ec_usdc_mint = usdc_mint, ec_fee_payer_pool = pool, ec_nonce_pool = nonces\<rparr>)))"

text \<open>
  One claim: the wallet of the rotation signs, and a failure that reports missing SOL puts that
  wallet into cooldown. \<open>claim_async\<close> runs the same steps in a background task.
\<close>

definition do_claim_with_params ::
  "crypto \<Rightarrow> signing \<Rightarrow> claim_rpc \<Rightarrow> nat \<Rightarrow> escrow_claimer \<Rightarrow> bytes \<Rightarrow> pubkey \<Rightarrow> u64
     \<Rightarrow> string option \<times> (payment_error, string) result \<times> escrow_claimer" where
  "do_claim_with_params cr sg rpc now claimer service_id agent amount =
    (case next_wallet now (ec_fee_payer_pool claimer) of
       (Inl _, pool) \<Rightarrow>
         (None, Inl (Err_EscrowClaimFailed ''no healthy fee payer''), claimer\<lparr>ec_fee_payer_pool := pool\<rparr>)
     | (Inr wallet, pool) \<Rightarrow>
       let (tx, r, nonces) = do_claim cr sg rpc
             \<lparr>cp_fee_payer_keypair = fp_keypair wallet, cp_fee_payer_index = fp_index wallet,
              cp_escrow_program_id = ec_escrow_program_id claimer,
              cp_recipient_wallet = ec_recipient_wallet claimer,
              cp_usdc_mint = ec_usdc_mint claimer, cp_service_id = service_id,
              cp_agent_pubkey = agent, cp_actual_amount = amount\<rparr> (ec_nonce_pool claimer);
           pool' = (case r of
               Inl e \<Rightarrow> if is_insufficient_sol_error e then mark_failed now (fp_index wallet) pool
                        else pool
             | Inr _ \<Rightarrow> pool) in
       (tx, r, claimer\<lparr>ec_fee_payer_pool := pool', ec_nonce_pool := nonces\<rparr>))"

definition claim_async ::
  "crypto \<Rightarrow> signing \<Rightarrow> claim_rpc \<Rightarrow> nat \<Rightarrow> escrow_claimer \<Rightarrow> bytes \<Rightarrow> pubkey \<Rightarrow> u64
     \<Rightarrow> string option \<times> escrow_claimer" where
  "claim_async cr sg rpc now claimer service_id agent amount =
    (case next_wallet now (ec_fee_payer_pool claimer) of
       (Inl _, pool) \<Rightarrow> (None, claimer\<lparr>ec_fee_payer_pool := pool\<rparr>)
     | (Inr wallet, pool) \<Rightarrow>
       let (tx, r, nonces) = do_claim cr sg rpc
             \<lparr>cp_fee_payer_keypair = fp_keypair wallet, cp_fee_payer_index = fp_index wallet,
              cp_escrow_program_id = ec_escrow_program_id claimer,
              cp_recipient_wallet = ec_recipient_wallet claimer,
              cp_usdc_mint = ec_usdc_mint claimer, cp_service_id = service_id,
              cp_agent_pubkey = agent, cp_actual_amount = amount\<rparr> (ec_nonce_pool claimer);
           pool' = (case r of
               Inl e \<Rightarrow> if is_insufficient_sol_error e then mark_failed now (fp_index wallet) pool
                        else pool
             | Inr _ \<Rightarrow> pool) in
       (tx, claimer\<lparr>ec_fee_payer_pool := pool', ec_nonce_pool := nonces\<rparr>))"

section \<open>The claim message\<close>

definition claim_message ::
  "crypto \<Rightarrow> claim_params \<Rightarrow> claim_addresses \<Rightarrow> pubkey \<Rightarrow> bytes \<Rightarrow> nonce_advance_info option \<Rightarrow> parsed_message"
where
  "claim_message cr params ad fee_payer blockhash adv =
    \<lparr>pm_header = \<lparr>num_required_signatures = 1, num_readonly_signed_accounts = 0,
       num_readonly_unsigned_accounts = (if adv = None then 3 else 4)\<rparr>,
     account_keys = [fee_payer, cl_escrow_pda ad, cp_agent_pubkey params, cp_usdc_mint params, cl_vault ad,
         cl_provider_ata ad, cl_agent_ata ad, cl_token_program ad, cl_ata_program ad,
         cl_system_program ad]
       @ (case adv of None \<Rightarrow> [] | Some a \<Rightarrow> [na_nonce_account a, na_sysvar_recent_blockhashes a])
       @ [cp_escrow_program_id params],
     recent_blockhash = blockhash,
     instructions =
       (case adv of None \<Rightarrow> []
        | Some _ \<Rightarrow> [\<lparr>program_id_index = 9, ix_accounts = [10, 11, 0], ix_data = [4, 0, 0, 0]\<rparr>])
       @ [\<lparr>program_id_index = (if adv = None then 10 else 12), ix_accounts = [1, 2, 0, 3, 4, 5, 6, 7, 8, 9],
           ix_data = anchor_discriminator cr ''claim'' @ to_le_bytes (cp_actual_amount params)\<rparr>],
     is_v0 = False\<rparr>"

lemma claim_message_bytes_eq:
  assumes "length (anchor_discriminator cr ''claim'') = 8"
  shows "claim_message_bytes cr params ad fee_payer blockhash adv
    = encode_message (claim_message cr params ad fee_payer blockhash adv)"
  using assms
  by (cases adv) (simp_all add: claim_message_bytes_def claim_message_def encode_message_def Let_def
      encode_instruction_def encode_compact_small)

lemma derive_claim_addresses_ok:
  assumes laws: "escrow_crypto_laws cr" and ad: "derive_claim_addresses cr params = Inr ad"
  shows "\<exists>bump. find_program_address cr (escrow_seeds (cp_agent_pubkey params) (cp_service_id params))
        (cp_escrow_program_id params) = Some (cl_escrow_pda ad, bump)"
    "derive_ata cr (cl_escrow_pda ad) (cp_usdc_mint params) TOKEN_PROGRAM_ID = Some (cl_vault ad)"
    "derive_ata cr (cp_recipient_wallet params) (cp_usdc_mint params) TOKEN_PROGRAM_ID
      = Some (cl_provider_ata ad)"
    "derive_ata cr (cp_agent_pubkey params) (cp_usdc_mint params) TOKEN_PROGRAM_ID
      = Some (cl_agent_ata ad)"
    "cl_token_program ad = TOKEN_PROGRAM_ID" "cl_ata_program ad = ASSOCIATED_TOKEN_PROGRAM_ID"
    "cl_system_program ad = SYSTEM_PROGRAM"
  using ad escrow_crypto_constants [OF laws]
  by (auto simp: derive_claim_addresses_def and_then_Inr_iff claim_derive_def claim_address_def)

lemma claim_message_parses:
  assumes laws: "escrow_crypto_laws cr" and ad: "derive_claim_addresses cr params = Inr ad"
    and lens: "length fee_payer = 32" "length (cp_agent_pubkey params) = 32"
      "length (cp_usdc_mint params) = 32" "length (cp_escrow_program_id params) = 32"
      "length blockhash = 32"
      "\<And>a. adv = Some a \<Longrightarrow> length (na_nonce_account a) = 32 \<and> length (na_sysvar_recent_blockhashes a) = 32"
  shows "parsed_message_from_bytes (claim_message_bytes cr params ad fee_payer blockhash adv)
    = Inr (claim_message cr params ad fee_payer blockhash adv)"
proof -
  note k = escrow_crypto_constants [OF laws] and d = derive_claim_addresses_ok [OF laws ad]
  from laws have sha: "\<forall>bs. length (sha256 cr bs) = 32" by (simp add: escrow_crypto_laws_def)
  have "length (cl_escrow_pda ad) = 32" "length (cl_vault ad) = 32" "length (cl_provider_ata ad) = 32"
    "length (cl_agent_ata ad) = 32"
    using d(1-4) find_program_address_length [OF sha] derive_ata_length [of cr] sha by blast+
  then have "wf_message (claim_message cr params ad fee_payer blockhash adv)"
    using lens d(5-7) k(5) by (cases adv) (auto simp: wf_message_def claim_message_def wf_instruction_def)
  from message_roundtrip_aux [OF this, of "[]"] show ?thesis
    by (simp add: claim_message_bytes_eq [OF k(5)])
qed

lemma claim_message_view:
  fixes cr params ad fee_payer blockhash
  defines "m \<equiv> claim_message cr params ad fee_payer blockhash None"
  shows "instructions m = [\<lparr>program_id_index = 10, ix_accounts = [1, 2, 0, 3, 4, 5, 6, 7, 8, 9],
      ix_data = anchor_discriminator cr ''claim'' @ to_le_bytes (cp_actual_amount params)\<rparr>]"
    and "key_at m 10 = Some (cp_escrow_program_id params)"
    and "claim_accounts_in m (instructions m ! 0) = Some \<lparr>ca_signers = [fee_payer],
      ca_escrow = cl_escrow_pda ad, ca_agent = cp_agent_pubkey params, ca_provider = fee_payer,
      ca_mint = cp_usdc_mint params, ca_vault = cl_vault ad, ca_provider_token = cl_provider_ata ad,
      ca_agent_token = cl_agent_ata ad\<rparr>"
    and "writable_accounts m (instructions m ! 0)
      = [True, True, True, True, True, True, True, True, False, False]"
  by (simp_all add: m_def claim_message_def key_at_def claim_accounts_in_def ix_keys_def signer_keys_def
      writable_accounts_def is_writable_index_def Let_def)

section \<open>Properties\<close>

text \<open>
  The claim transaction the gateway signs says what the program expects. Its bytes parse back to
  one instruction of the escrow program naming the accounts of the program's claim struct in order
  (the escrow and vault derived from the agent and the service id, the gateway as provider and only
  signer, the two receiving associated accounts), every account the program mutates is writable,
  and the data is the claim discriminator followed by the amount. A fee payer other than the
  recipient wallet never signs a claim.
\<close>
theorem claim_transaction_layout:
  assumes laws: "escrow_crypto_laws cr" "signing_laws cr ed sg"
    and tx: "build_claim_tx cr sg params blockhash None = Inr tx"
    and lens: "length (cp_agent_pubkey params) = 32" "length (cp_usdc_mint params) = 32"
      "length (cp_escrow_program_id params) = 32" "length blockhash = 32"
  shows "\<exists>wire sig msg m ix ad. tx = b64_encode sg wire
    \<and> versioned_transaction_from_bytes wire = Inr \<lparr>vt_signatures = [sig], vt_message_bytes = msg\<rparr>
    \<and> verify_sig ed (cp_recipient_wallet params) msg sig
    \<and> parsed_message_from_bytes msg = Inr m \<and> instructions m = [ix]
    \<and> key_at m (program_id_index ix) = Some (cp_escrow_program_id params)
    \<and> derive_claim_addresses cr params = Inr ad
    \<and> claim_accounts_in m ix = Some \<lparr>ca_signers = [cp_recipient_wallet params],
        ca_escrow = cl_escrow_pda ad, ca_agent = cp_agent_pubkey params,
        ca_provider = cp_recipient_wallet params, ca_mint = cp_usdc_mint params, ca_vault = cl_vault ad,
        ca_provider_token = cl_provider_ata ad, ca_agent_token = cl_agent_ata ad\<rparr>
    \<and> (\<forall>i \<in> {0, 1, 2, 4, 5, 6}. writable_accounts m ix ! i)
    \<and> ix_data ix = anchor_discriminator cr ''claim'' @ to_le_bytes (cp_actual_amount params)"
proof -
  let ?kp = "cp_fee_payer_keypair params"
  from tx obtain ad where ad: "derive_claim_addresses cr params = Inr ad"
    and kp: "keypair_pubkey sg ?kp = Some (cp_recipient_wallet params)"
    and tx': "tx = b64_encode sg (sign_wire sg ?kp
      (claim_message_bytes cr params ad (cp_recipient_wallet params) blockhash None))"
    by (auto simp: build_claim_tx_def and_then_Inr_iff split: if_splits)
  from laws(2) kp have pk: "length (cp_recipient_wallet params) = 32"
    and sig: "\<And>msg. verify_sig ed (cp_recipient_wallet params) msg (ed_sign sg ?kp msg)"
    unfolding signing_laws_def by blast+
  have parsed: "parsed_message_from_bytes
      (claim_message_bytes cr params ad (cp_recipient_wallet params) blockhash None)
    = Inr (claim_message cr params ad (cp_recipient_wallet params) blockhash None)"
    by (rule claim_message_parses [OF laws(1) ad pk lens(1-4)]) simp
  show ?thesis
    using tx' sign_wire_parses [OF laws(2) kp] sig parsed ad
      claim_message_view [of cr params ad "cp_recipient_wallet params" blockhash]
    by (intro exI conjI) (assumption | simp)+
qed

definition toy_claim_params :: claim_params where
  "toy_claim_params = \<lparr>cp_fee_payer_keypair = replicate 64 2, cp_fee_payer_index = 0,
     cp_escrow_program_id = replicate 32 4, cp_recipient_wallet = replicate 32 2,
     cp_usdc_mint = replicate 32 3, cp_service_id = replicate 32 7,
     cp_agent_pubkey = replicate 32 1, cp_actual_amount = 25\<rparr>"

lemma toy_signing_laws_escrow: "signing_laws toy_escrow_crypto toy_ed25519 toy_signing"
  using toy_signing_laws by (simp add: signing_laws_def toy_escrow_crypto_def)

lemma toy_claim_addresses: "\<exists>ad. derive_claim_addresses toy_escrow_crypto toy_claim_params = Inr ad"
proof -
  have "decode_bs58_pubkey toy_escrow_crypto SYSVAR_RENT_ID = Inr (take 32 (ascii SYSVAR_RENT_ID))"
    by (simp add: decode_bs58_pubkey_def toy_escrow_crypto_def toy_crypto_def toy_bs58_decode_def
        SYSVAR_RENT_ID_def TOKEN_PROGRAM_ID_B58_def ATA_PROGRAM_ID_def SYSTEM_PROGRAM_ID_def)
  then show ?thesis
    using escrow_crypto_constants [OF toy_escrow_crypto_laws]
    by (simp add: derive_claim_addresses_def claim_derive_def claim_address_def toy_escrow_pda
        toy_escrow_ata toy_claim_params_def)
qed

lemma toy_claim_builds:
  "\<exists>tx. build_claim_tx toy_escrow_crypto toy_signing toy_claim_params (replicate 32 9) None = Inr tx"
  using toy_claim_addresses
  by (auto simp: build_claim_tx_def toy_signing_def toy_claim_params_def)

theorem claim_transaction_layout_witness:
  "\<exists>tx wire sig msg m ix.
     build_claim_tx toy_escrow_crypto toy_signing toy_claim_params (replicate 32 9) None = Inr tx
     \<and> tx = b64_encode toy_signing wire
     \<and> versioned_transaction_from_bytes wire = Inr \<lparr>vt_signatures = [sig], vt_message_bytes = msg\<rparr>
     \<and> parsed_message_from_bytes msg = Inr m \<and> instructions m = [ix]
     \<and> key_at m (program_id_index ix) = Some (replicate 32 4)"
proof -
  obtain tx where tx: "build_claim_tx toy_escrow_crypto toy_signing toy_claim_params
      (replicate 32 9) None = Inr tx"
    using toy_claim_builds by blast
  from claim_transaction_layout [OF toy_escrow_crypto_laws toy_signing_laws_escrow tx] tx
  show ?thesis by (simp add: toy_claim_params_def) blast
qed

text \<open>
  A claim that uses a durable nonce cannot advance it. The message puts the nonce account
  second but one before the program id and counts four read-only accounts at the end of the list,
  so the parsed transaction names the nonce account first in its nonce-advance instruction of the
  system program and grants it no write access. The comments at the account list call that account
  writable, and the nonce-advance instruction has to write it.
\<close>
theorem durable_nonce_claim_readonly:
  assumes laws: "escrow_crypto_laws cr" and ad: "derive_claim_addresses cr params = Inr ad"
    and lens: "length fee_payer = 32" "length (cp_agent_pubkey params) = 32"
      "length (cp_usdc_mint params) = 32" "length (cp_escrow_program_id params) = 32"
      "length blockhash = 32" "length (na_nonce_account adv) = 32"
      "length (na_sysvar_recent_blockhashes adv) = 32"
  shows "\<exists>m advance claim_ix.
    parsed_message_from_bytes (claim_message_bytes cr params ad fee_payer blockhash (Some adv)) = Inr m
    \<and> instructions m = [advance, claim_ix]
    \<and> key_at m (program_id_index advance) = Some SYSTEM_PROGRAM \<and> ix_data advance = [4, 0, 0, 0]
    \<and> ix_keys m advance = [Some (na_nonce_account adv), Some (na_sysvar_recent_blockhashes adv),
        Some fee_payer]
    \<and> writable_accounts m advance = [False, False, True]"
proof -
  have "parsed_message_from_bytes (claim_message_bytes cr params ad fee_payer blockhash (Some adv))
      = Inr (claim_message cr params ad fee_payer blockhash (Some adv))"
    by (rule claim_message_parses [OF laws ad lens(1-5)]) (use lens(6,7) in auto)
  then show ?thesis
    using derive_claim_addresses_ok(7) [OF laws ad]
    by (simp add: claim_message_def key_at_def ix_keys_def writable_accounts_def is_writable_index_def
        Let_def)
qed

theorem durable_nonce_claim_readonly_witness:
  "\<exists>ad m advance claim_ix. derive_claim_addresses toy_escrow_crypto toy_claim_params = Inr ad
     \<and> parsed_message_from_bytes (claim_message_bytes toy_escrow_crypto toy_claim_params ad
         (replicate 32 2) (replicate 32 9)
         (Some \<lparr>na_nonce_account = replicate 32 5, na_sysvar_recent_blockhashes = replicate 32 6\<rparr>))
       = Inr m
     \<and> instructions m = [advance, claim_ix] \<and> writable_accounts m advance = [False, False, True]"
proof -
  obtain ad where ad: "derive_claim_addresses toy_escrow_crypto toy_claim_params = Inr ad"
    using toy_claim_addresses by blast
  from durable_nonce_claim_readonly [OF toy_escrow_crypto_laws ad, of "replicate 32 2"
      "replicate 32 9" "\<lparr>na_nonce_account = replicate 32 5,
        na_sysvar_recent_blockhashes = replicate 32 6\<rparr>"] ad
  show ?thesis by (simp add: toy_claim_params_def) blast
qed

text \<open>The first occurrence: nothing earlier matches.\<close>

lemma after_marker_first:
  "after_marker m s = Some rest \<Longrightarrow> \<exists>pre. s = pre @ m @ rest \<and> (\<forall>p q. s = p @ m @ q \<longrightarrow> length pre \<le> length p)"
proof (induction s)
  case (Cons c s)
  show ?case
  proof (cases "prefix_rest m (c # s)")
    case None
    with Cons obtain pre where pre: "s = pre @ m @ rest"
      "\<And>p q. s = p @ m @ q \<Longrightarrow> length pre \<le> length p" by auto
    have "length (c # pre) \<le> length p" if "c # s = p @ m @ q" for p q
    proof (cases p)
      case Nil
      with that None show ?thesis using prefix_rest_Some [of m "c # s" q] by simp
    next
      case (Cons d p')
      with that pre(2) [of p' q] show ?thesis by simp
    qed
    with pre(1) show ?thesis by (intro exI [of _ "c # pre"]) auto
  next
    case (Some r)
    with Cons.prems have "c # s = [] @ m @ rest" by (simp add: prefix_rest_Some)
    then show ?thesis by (intro exI [of _ "[]"]) auto
  qed
qed (auto split: if_splits)

definition whole_code :: "string \<Rightarrow> string \<Rightarrow> bool" where
  "whole_code msg code \<longleftrightarrow>
     (\<exists>pre post. msg = pre @ code @ post \<and> (post = [] \<or> digit_value 16 (hd post) = None))"

lemma whole_code_skip:
  assumes "after_marker ''0x1'' msg = Some rest" "rest \<noteq> []" "digit_value 16 (hd rest) \<noteq> None"
  shows "whole_code msg ''0x1'' \<longleftrightarrow> whole_code rest ''0x1''"
proof
  from after_marker_first [OF assms(1)] obtain pre where pre: "msg = pre @ ''0x1'' @ rest"
    and least: "\<And>p q. msg = p @ ''0x1'' @ q \<Longrightarrow> length pre \<le> length p" by blast
  {
    assume "whole_code rest ''0x1''"
    then obtain p q where "rest = p @ ''0x1'' @ q" "q = [] \<or> digit_value 16 (hd q) = None"
      unfolding whole_code_def by blast
    then show "whole_code msg ''0x1''"
      unfolding whole_code_def pre by (intro exI [of _ "pre @ ''0x1'' @ p"] exI [of _ q]) simp
  }
  assume "whole_code msg ''0x1''"
  then obtain p q where pq: "msg = p @ ''0x1'' @ q" "q = [] \<or> digit_value 16 (hd q) = None"
    unfolding whole_code_def by blast
  from least [OF pq(1)] obtain d where d: "p = pre @ d"
    using pq(1) pre by (metis append_eq_append_conv_if append_take_drop_id)
  with pq(1) pre have eq: "''0x1'' @ rest = d @ ''0x1'' @ q" by simp
  show "whole_code rest ''0x1''"
  proof (cases "length d < 3")
    case True
    then consider "d = []" | a where "d = [a]" | a b where "d = [a, b]"
      by (cases d; cases "tl d"; cases "tl (tl d)") auto
    then show ?thesis using eq pq(2) assms(2,3) by cases auto
  next
    case False
    then obtain d' where "d = ''0x1'' @ d'"
      using eq by (cases d; cases "tl d"; cases "tl (tl d)") auto
    with eq have "rest = d' @ ''0x1'' @ q" by simp
    with pq(2) show ?thesis unfolding whole_code_def by blast
  qed
qed

text \<open>
  The search for the error code returns for every message, and finds exactly the whole-token
  occurrences: it answers yes when some occurrence of the code is not followed by another
  hexadecimal digit, so a longer code with the same prefix does not put a fee payer into cooldown.
\<close>
theorem contains_hex_code_exact:
  "contains_hex_code msg ''0x1'' = Some (\<exists>pre post. msg = pre @ ''0x1'' @ post
     \<and> (post = [] \<or> digit_value 16 (hd post) = None))"
  unfolding whole_code_def [symmetric]
proof (induction msg rule: length_induct)
  case (1 msg)
  show ?case
  proof (cases "after_marker ''0x1'' msg")
    case None
    then have "\<not> whole_code msg ''0x1''"
      using after_marker_append unfolding whole_code_def by blast
    with None show ?thesis by (simp add: contains_hex_code.simps)
  next
    case (Some rest)
    then obtain pre where pre: "msg = pre @ ''0x1'' @ rest" using after_marker_Some by blast
    show ?thesis
    proof (cases "rest \<noteq> [] \<and> digit_value 16 (hd rest) \<noteq> None")
      case True
      with 1 pre have "contains_hex_code rest ''0x1'' = Some (whole_code rest ''0x1'')" by simp
      with Some True whole_code_skip [OF Some] show ?thesis
        by (subst contains_hex_code.simps) simp
    next
      case False
      with pre have "whole_code msg ''0x1''" unfolding whole_code_def by blast
      with Some False show ?thesis by (subst contains_hex_code.simps) auto
    qed
  qed
qed

end
