(* ===== verification/Payment_Verifier.thy ===== *)
theory Payment_Verifier
  imports Solana_Rpc Escrow_Claimer
begin

text \<open>
  The verifier of direct payments (\<open>crates/x402/src/solana.rs\<close>): decoding and the signature check,
  the recipient, asset and amount checks, the durable-nonce allow-list, simulation and settlement,
  and the builder of native SOL transfers used by the gas faucet. The packages (ed25519, SHA-256,
  base58, base64) and the node are fields of the environment.
\<close>

record verifier_env =
  ve_crypto :: crypto
  ve_ed25519 :: ed25519
  ve_http :: http
  ve_b64_decode :: "string \<Rightarrow> bytes option"

section \<open>The direct verifier\<close>

record solana_verifier =
  sv_recipient :: pubkey
  sv_usdc_mint :: pubkey
  sv_nonce_pool :: "nonce_pool option"

definition new_solana_verifier ::
  "crypto \<Rightarrow> string \<Rightarrow> string \<Rightarrow> (payment_error, solana_verifier) result" where
  "new_solana_verifier cr recipient_b58 mint_b58 =
     and_then (map_err (\<lambda>_. Err_InvalidTransaction ''invalid recipient'') (decode_bs58_pubkey cr recipient_b58))
       (\<lambda>recipient.
     and_then (map_err (\<lambda>_. Err_InvalidTransaction ''invalid mint'') (decode_bs58_pubkey cr mint_b58)) (\<lambda>mint.
       Inr \<lparr>sv_recipient = recipient, sv_usdc_mint = mint, sv_nonce_pool = None\<rparr>))"

definition with_nonce_pool :: "solana_verifier \<Rightarrow> nonce_pool \<Rightarrow> solana_verifier" where
  "with_nonce_pool v pool = v\<lparr>sv_nonce_pool := Some pool\<rparr>"

definition is_nonce_transaction :: "parsed_message \<Rightarrow> pubkey option" where
  "is_nonce_transaction m =
    (case instructions m of
       [] \<Rightarrow> None
     | first_ix # _ \<Rightarrow>
       (case key_at m (program_id_index first_ix) of
          None \<Rightarrow> None
        | Some program \<Rightarrow>
          if program \<noteq> SYSTEM_PROGRAM then None
          else if length (ix_data first_ix) < 4 \<or> take 4 (ix_data first_ix) \<noteq> [4, 0, 0, 0] then None
          else (case ix_accounts first_ix of
              [] \<Rightarrow> None
            | i # _ \<Rightarrow> key_at m i)))"

text \<open>
  The cryptographic half: the first signature must verify over the message bytes under the first
  account key.
\<close>

definition check_first_signature ::
  "ed25519 \<Rightarrow> versioned_transaction \<Rightarrow> parsed_message \<Rightarrow> (payment_error, unit) result" where
  "check_first_signature ed tx m =
    (case account_keys m of
       [] \<Rightarrow> Inl (Err_InvalidSignature ''transaction message has no account keys'')
     | signer # _ \<Rightarrow>
       if \<not> valid_key ed signer then Inl (Err_InvalidSignature ''invalid signer public key'')
       else if \<not> verify_sig ed signer (vt_message_bytes tx) (hd (vt_signatures tx))
       then Inl (Err_InvalidSignature ''ed25519 signature verification failed'')
       else Inr ())"

definition parse_message :: "versioned_transaction \<Rightarrow> (payment_error, parsed_message) result" where
  "parse_message tx =
     map_err (\<lambda>_. Err_InvalidTransaction ''failed to parse message'')
       (parsed_message_from_bytes (vt_message_bytes tx))"

definition decode_and_validate_transaction ::
  "verifier_env \<Rightarrow> string \<Rightarrow> (payment_error, versioned_transaction) result" where
  "decode_and_validate_transaction env base64 =
     and_then (ok_or (Err_InvalidEncoding ''base64'') (ve_b64_decode env base64)) (\<lambda>tx_bytes.
     and_then (map_err (\<lambda>_. Err_InvalidTransaction ''failed to deserialize transaction'')
         (versioned_transaction_from_bytes tx_bytes)) (\<lambda>tx.
     if vt_signatures tx = [] then Inl (Err_InvalidSignature ''transaction has no signatures'')
     else and_then (parse_message tx) (\<lambda>m.
       and_then (check_first_signature (ve_ed25519 env) tx m) (\<lambda>_. Inr tx))))"

definition simulate_body :: "string \<Rightarrow> bool \<Rightarrow> json" where
  "simulate_body base64 replace_blockhash =
     rpc_body ''simulateTransaction'' [JStr base64, JObj [(''encoding'', JStr ''base64''),
       (''commitment'', JStr ''confirmed''), (''replaceRecentBlockhash'', JBool replace_blockhash)]]"

definition simulate_transaction ::
  "verifier_env \<Rightarrow> nat \<Rightarrow> string \<Rightarrow> bool \<Rightarrow> (payment_error, unit) result" where
  "simulate_transaction env now base64 replace_blockhash =
     and_then (rpc_request (ve_http env) now (simulate_body base64 replace_blockhash)) (\<lambda>reply.
       case Option.bind (json_get ''result'' reply) (json_get ''err'') of
         Some e \<Rightarrow> if is_null e then Inr ()
                   else Inl (Err_SimulationFailed (json_text (ve_http env) e))
       | None \<Rightarrow> Inr ())"

definition direct_send_body :: "string \<Rightarrow> json" where
  "direct_send_body base64 =
     rpc_body ''sendTransaction'' [JStr base64, JObj [(''encoding'', JStr ''base64''),
       (''skipPreflight'', JBool False), (''preflightCommitment'', JStr ''confirmed'')]]"

definition direct_send_transaction ::
  "verifier_env \<Rightarrow> nat \<Rightarrow> string \<Rightarrow> (payment_error, string) result" where
  "direct_send_transaction env now base64 =
     and_then (rpc_request (ve_http env) now (direct_send_body base64)) (\<lambda>reply.
       ok_or (Err_SettlementFailed ''sendTransaction did not return a signature'')
         (Option.bind (json_get ''result'' reply) as_str))"

definition validate_nonce_account ::
  "crypto \<Rightarrow> nonce_pool option \<Rightarrow> pubkey \<Rightarrow> (payment_error, unit) result" where
  "validate_nonce_account cr pool nonce_account =
    (case pool of
       None \<Rightarrow> Inl (Err_InvalidTransaction ''nonce_pool not configured on the gateway'')
     | Some p \<Rightarrow>
       if bs58_encode cr nonce_account \<in> ne_nonce_account ` set (np_entries p) then Inr ()
       else Inl (Err_InvalidTransaction (''nonce account '' @ bs58_encode cr nonce_account
         @ '' is not registered in the gateway nonce pool'')))"

definition direct_payload :: "payload_data \<Rightarrow> (payment_error, solana_payload) result" where
  "direct_payload d =
    (case d of
       Payload_Direct p \<Rightarrow> Inr p
     | Payload_Escrow _ \<Rightarrow>
         Inl (Err_PayloadMismatch ''SolanaVerifier received escrow payload; expected direct'')
     | Payload_Channel _ \<Rightarrow>
         Inl (Err_PayloadMismatch ''SolanaVerifier received channel payload; expected direct''))"

text \<open>Steps 4 to 6: recipient, asset, amount.\<close>

definition check_transfer ::
  "crypto \<Rightarrow> solana_verifier \<Rightarrow> pubkey \<Rightarrow> u64 \<Rightarrow> spl_transfer_info \<Rightarrow> (payment_error, unit) result" where
  "check_transfer cr v expected required transfer =
     and_then (ok_or (Err_InvalidTransaction ''failed to derive expected ATA address'')
         (derive_ata cr expected (sv_usdc_mint v) TOKEN_PROGRAM_ID)) (\<lambda>expected_ata.
     if ti_destination transfer \<noteq> expected_ata \<and> ti_destination transfer \<noteq> expected
     then Inl (Err_WrongRecipient (bs58_encode cr expected_ata) (bs58_encode cr (ti_destination transfer)))
     else case ti_mint transfer of
       None \<Rightarrow> Inl (Err_InvalidTransaction ''plain SPL Transfer instructions are not accepted'')
     | Some mint \<Rightarrow>
       if mint \<noteq> sv_usdc_mint v
       then Inl (Err_WrongAsset (bs58_encode cr (sv_usdc_mint v)) (bs58_encode cr mint))
       else if ti_amount transfer < required
       then Inl (Err_InsufficientPayment required (ti_amount transfer))
       else Inr ())"

definition spl_payment_error :: "spl_error \<Rightarrow> payment_error" where
  "spl_payment_error e = (case e of InvalidTransaction m \<Rightarrow> Err_InvalidTransaction m)"

definition required_amount :: "payment_payload \<Rightarrow> (payment_error, u64) result" where
  "required_amount payload =
     ok_or (Err_InvalidTransaction ''invalid amount format'') (parse_u64 (pa_amount (pp_accepted payload)))"

definition verify_payment_against ::
  "verifier_env \<Rightarrow> solana_verifier \<Rightarrow> nat \<Rightarrow> payment_payload \<Rightarrow> pubkey
     \<Rightarrow> (payment_error, verification_result) result" where
  "verify_payment_against env v now payload expected =
     and_then (direct_payload (pp_payload payload)) (\<lambda>p.
     and_then (decode_and_validate_transaction env (sp_transaction p)) (\<lambda>tx.
     and_then (required_amount payload) (\<lambda>required.
     and_then (parse_message tx) (\<lambda>m.
     and_then (map_err spl_payment_error (extract_spl_transfer m)) (\<lambda>transfer.
     and_then (check_transfer (ve_crypto env) v expected required transfer) (\<lambda>_.
     and_then (case is_nonce_transaction m of
         Some nonce_account \<Rightarrow>
           and_then (validate_nonce_account (ve_crypto env) (sv_nonce_pool v) nonce_account) (\<lambda>_.
             simulate_transaction env now (sp_transaction p) False)
       | None \<Rightarrow> simulate_transaction env now (sp_transaction p) True) (\<lambda>_.
       Inr \<lparr>vr_valid = True, vr_reason = None, vr_verified_amount = Some (ti_amount transfer)\<rparr>)))))))"

definition direct_verify_payment ::
  "verifier_env \<Rightarrow> solana_verifier \<Rightarrow> nat \<Rightarrow> payment_payload \<Rightarrow> (payment_error, verification_result) result"
where
  "direct_verify_payment env v now payload = verify_payment_against env v now payload (sv_recipient v)"

definition direct_verify_payment_to ::
  "verifier_env \<Rightarrow> solana_verifier \<Rightarrow> nat \<Rightarrow> payment_payload \<Rightarrow> string
     \<Rightarrow> (payment_error, verification_result) result" where
  "direct_verify_payment_to env v now payload expected_b58 =
     and_then (map_err (\<lambda>_. Err_InvalidTransaction ''invalid expected recipient pubkey'')
         (decode_bs58_pubkey (ve_crypto env) expected_b58)) (\<lambda>expected.
       verify_payment_against env v now payload expected)"

section \<open>Settlement\<close>

text \<open>The value both verifiers return for a transaction that was not settled.\<close>

definition settlement_failed :: "string option \<Rightarrow> string \<Rightarrow> u64 option \<Rightarrow> settlement_result" where
  "settlement_failed sig raw amount =
    \<lparr>sr_success = False, sr_tx_signature = sig, sr_network = SOLANA_NETWORK, sr_error = Some raw,
     sr_verified_amount = amount, sr_failure_kind = Some (classify_settlement_error raw)\<rparr>"

definition settlement_confirmed :: "string \<Rightarrow> u64 option \<Rightarrow> settlement_result" where
  "settlement_confirmed sig amount =
    \<lparr>sr_success = True, sr_tx_signature = Some sig, sr_network = SOLANA_NETWORK, sr_error = None,
     sr_verified_amount = amount, sr_failure_kind = None\<rparr>"

text \<open>The confirmation both wait for, with the budget of thirty seconds.\<close>

definition await_settlement ::
  "verifier_env \<Rightarrow> nat \<Rightarrow> string \<Rightarrow> u64 option \<Rightarrow> settlement_result option" where
  "await_settlement env now sig amount =
    (case poll_for_confirmation (ve_http env) now sig 30 of
       None \<Rightarrow> None
     | Some (Inr _) \<Rightarrow> Some (settlement_confirmed sig amount)
     | Some (Inl e) \<Rightarrow> Some (settlement_failed (Some sig) (error_text e) amount))"

definition direct_settle_payment ::
  "verifier_env \<Rightarrow> nat \<Rightarrow> payment_payload \<Rightarrow> (payment_error, settlement_result) result option" where
  "direct_settle_payment env now payload =
    (case and_then (direct_payload (pp_payload payload)) (\<lambda>p.
        and_then (decode_and_validate_transaction env (sp_transaction p)) (\<lambda>_. Inr p)) of
       Inl e \<Rightarrow> Some (Inl e)
     | Inr p \<Rightarrow>
       (case direct_send_transaction env now (sp_transaction p) of
          Inl e \<Rightarrow> Some (Inr (settlement_failed None (''send failed: '' @ error_text e) None))
        | Inr sig \<Rightarrow>
          map_option Inr (await_settlement env
            (now + http_latency (ve_http env) now (direct_send_body (sp_transaction p))) sig None)))"

section \<open>Native SOL transfers\<close>

datatype system_transfer_error = SystemZeroAmount | SystemInvalidKeypair | SystemKeypairMismatch

definition build_system_transfer_message :: "pubkey \<Rightarrow> pubkey \<Rightarrow> u64 \<Rightarrow> bytes \<Rightarrow> bytes" where
  "build_system_transfer_message src dst lamports blockhash =
    (let dat = [2, 0, 0, 0] @ to_le_bytes lamports in
     [1, 0, 1] @ [3] @ src @ dst @ SYSTEM_PROGRAM @ blockhash
     @ [1] @ [2] @ [2] @ [0, 1] @ [of_nat (length dat)] @ dat)"

definition system_keypair_pubkey :: "signing \<Rightarrow> bytes \<Rightarrow> (system_transfer_error, pubkey) result" where
  "system_keypair_pubkey sg keypair = ok_or SystemInvalidKeypair (keypair_pubkey sg keypair)"

definition sign_system_transfer ::
  "signing \<Rightarrow> pubkey \<Rightarrow> pubkey \<Rightarrow> u64 \<Rightarrow> bytes \<Rightarrow> bytes \<Rightarrow> (system_transfer_error, string) result" where
  "sign_system_transfer sg src dst lamports blockhash keypair =
    (if lamports = 0 then Inl SystemZeroAmount
     else and_then (system_keypair_pubkey sg keypair) (\<lambda>signer.
       if signer \<noteq> src then Inl SystemKeypairMismatch
       else Inr (b64_encode sg
         (sign_wire sg keypair (build_system_transfer_message src dst lamports blockhash)))))"

section \<open>What the direct verifier accepts\<close>

text \<open>A message whose first token transfer is the given checked transfer.\<close>

definition pays_checked :: "parsed_message \<Rightarrow> pubkey \<Rightarrow> pubkey \<Rightarrow> u64 \<Rightarrow> bool" where
  "pays_checked m mint destination amount \<longleftrightarrow>
     (\<exists>pre ix post program. instructions m = pre @ ix # post
        \<and> (\<forall>i \<in> set pre. spl_transfer_of m i = None)
        \<and> key_at m (program_id_index ix) = Some program \<and> is_token_program program
        \<and> 9 \<le> length (ix_data ix) \<and> hd (ix_data ix) = 12 \<and> 3 \<le> length (ix_accounts ix)
        \<and> key_at m (ix_accounts ix ! 1) = Some mint
        \<and> key_at m (ix_accounts ix ! 2) = Some destination
        \<and> from_le_bytes (take 8 (tl (ix_data ix))) = amount)"

definition signed_transaction ::
  "verifier_env \<Rightarrow> string \<Rightarrow> versioned_transaction \<Rightarrow> parsed_message \<Rightarrow> bool" where
  "signed_transaction env base64 tx m \<longleftrightarrow>
     (\<exists>bs signer keys s sigs. ve_b64_decode env base64 = Some bs
        \<and> versioned_transaction_from_bytes bs = Inr tx \<and> vt_signatures tx = s # sigs
        \<and> parsed_message_from_bytes (vt_message_bytes tx) = Inr m \<and> account_keys m = signer # keys
        \<and> valid_key (ve_ed25519 env) signer \<and> verify_sig (ve_ed25519 env) signer (vt_message_bytes tx) s)"

definition nonce_allowed :: "crypto \<Rightarrow> nonce_pool option \<Rightarrow> parsed_message \<Rightarrow> bool" where
  "nonce_allowed cr pool m \<longleftrightarrow>
    (case is_nonce_transaction m of
       None \<Rightarrow> True
     | Some n \<Rightarrow> (\<exists>p. pool = Some p \<and> bs58_encode cr n \<in> ne_nonce_account ` set (np_entries p)))"

lemma check_first_signature_Inr:
  "check_first_signature ed tx m = Inr u \<longleftrightarrow>
    (\<exists>signer keys. account_keys m = signer # keys \<and> valid_key ed signer
       \<and> verify_sig ed signer (vt_message_bytes tx) (hd (vt_signatures tx)))"
  by (auto simp: check_first_signature_def split: list.splits)

lemma decode_and_validate_Inr:
  "decode_and_validate_transaction env b = Inr tx \<longleftrightarrow> (\<exists>m. signed_transaction env b tx m)"
proof
  assume "decode_and_validate_transaction env b = Inr tx"
  then show "\<exists>m. signed_transaction env b tx m"
    by (auto simp: decode_and_validate_transaction_def signed_transaction_def and_then_Inr_iff
        parse_message_def check_first_signature_Inr neq_Nil_conv split: if_splits)
next
  assume "\<exists>m. signed_transaction env b tx m"
  then show "decode_and_validate_transaction env b = Inr tx"
    by (auto simp: decode_and_validate_transaction_def signed_transaction_def parse_message_def
        check_first_signature_def)
qed

lemma validate_nonce_Inr:
  "validate_nonce_account cr pool n = Inr u \<longleftrightarrow>
    (\<exists>p. pool = Some p \<and> bs58_encode cr n \<in> ne_nonce_account ` set (np_entries p))"
  by (auto simp: validate_nonce_account_def split: option.splits if_splits)

lemma check_transfer_Inr:
  "check_transfer cr v expected required t = Inr u \<longleftrightarrow>
    (\<exists>ata. derive_ata cr expected (sv_usdc_mint v) TOKEN_PROGRAM_ID = Some ata
       \<and> ti_destination t \<in> {ata, expected} \<and> ti_mint t = Some (sv_usdc_mint v) \<and> required \<le> ti_amount t)"
proof (cases "derive_ata cr expected (sv_usdc_mint v) TOKEN_PROGRAM_ID")
  case (Some ata)
  then show ?thesis
    by (cases "ti_mint t") (auto simp: check_transfer_def not_less)
qed (simp add: check_transfer_def)

lemma is_checked_transfer:
  "is_transfer_of m ix \<lparr>ti_destination = destination, ti_amount = amount, ti_mint = Some mint\<rparr> \<longleftrightarrow>
    (\<exists>program. key_at m (program_id_index ix) = Some program \<and> is_token_program program
       \<and> 9 \<le> length (ix_data ix) \<and> hd (ix_data ix) = 12 \<and> 3 \<le> length (ix_accounts ix)
       \<and> key_at m (ix_accounts ix ! 1) = Some mint \<and> key_at m (ix_accounts ix ! 2) = Some destination
       \<and> from_le_bytes (take 8 (tl (ix_data ix))) = amount)"
  by (simp add: is_transfer_of_def eq_commute [of amount] eq_commute [of "Some mint"] conj_assoc
      ex_simps [symmetric] del: ex_simps) blast

lemma pays_checked_iff:
  "pays_checked m mint destination amount \<longleftrightarrow>
    extract_spl_transfer m
      = Inr \<lparr>ti_destination = destination, ti_amount = amount, ti_mint = Some mint\<rparr>"
  unfolding extract_spl_transfer_def extract_from_Inr pays_checked_def is_checked_transfer by simp

text \<open>
  The acceptance condition of a direct payment of \<open>amount\<close> to the wallet \<open>expected\<close>.
\<close>

definition direct_payment_ok ::
  "verifier_env \<Rightarrow> solana_verifier \<Rightarrow> nat \<Rightarrow> payment_payload \<Rightarrow> pubkey \<Rightarrow> u64 \<Rightarrow> bool" where
  "direct_payment_ok env v now payload expected amount \<longleftrightarrow>
     (\<exists>p tx m required ata destination.
        pp_payload payload = Payload_Direct p \<and> signed_transaction env (sp_transaction p) tx m
        \<and> parse_u64 (pa_amount (pp_accepted payload)) = Some required \<and> unat required \<le> unat amount
        \<and> derive_ata (ve_crypto env) expected (sv_usdc_mint v) TOKEN_PROGRAM_ID = Some ata
        \<and> destination \<in> {ata, expected} \<and> pays_checked m (sv_usdc_mint v) destination amount
        \<and> nonce_allowed (ve_crypto env) (sv_nonce_pool v) m
        \<and> simulate_transaction env now (sp_transaction p) (is_nonce_transaction m = None) = Inr ())"

lemma direct_payload_Inr: "direct_payload d = Inr p \<longleftrightarrow> d = Payload_Direct p"
  by (auto simp: direct_payload_def split: payload_data.splits)

lemma extract_fields:
  "extract_spl_transfer m = Inr t \<and> ti_mint t = Some mint \<longleftrightarrow> pays_checked m mint (ti_destination t) (ti_amount t) \<and> ti_mint t = Some mint"
  by (cases t) (auto simp: pays_checked_iff)

lemma nonce_branch_Inr:
  "(case is_nonce_transaction m of
      Some n \<Rightarrow> and_then (validate_nonce_account cr pool n) (\<lambda>_. simulate_transaction env now b False)
    | None \<Rightarrow> simulate_transaction env now b True) = Inr u
   \<longleftrightarrow> nonce_allowed cr pool m \<and> simulate_transaction env now b (is_nonce_transaction m = None) = Inr ()"
  by (auto simp: nonce_allowed_def and_then_Inr_iff validate_nonce_Inr split: option.splits)

lemma verify_against_Inr:
  "verify_payment_against env v now payload expected = Inr r \<longleftrightarrow>
    (\<exists>amount. direct_payment_ok env v now payload expected amount
       \<and> r = \<lparr>vr_valid = True, vr_reason = None, vr_verified_amount = Some amount\<rparr>)"
  (is "?l \<longleftrightarrow> ?r")
proof
  assume ?l
  then obtain p tx m required t where
    *: "pp_payload payload = Payload_Direct p" "decode_and_validate_transaction env (sp_transaction p) = Inr tx"
    "parse_u64 (pa_amount (pp_accepted payload)) = Some required"
    "parsed_message_from_bytes (vt_message_bytes tx) = Inr m" "extract_spl_transfer m = Inr t"
    "check_transfer (ve_crypto env) v expected required t = Inr ()"
    "nonce_allowed (ve_crypto env) (sv_nonce_pool v) m"
    "simulate_transaction env now (sp_transaction p) (is_nonce_transaction m = None) = Inr ()"
    "r = \<lparr>vr_valid = True, vr_reason = None, vr_verified_amount = Some (ti_amount t)\<rparr>"
    unfolding verify_payment_against_def
    by (auto simp: and_then_Inr_iff direct_payload_Inr required_amount_def parse_message_def nonce_branch_Inr)
  then have "signed_transaction env (sp_transaction p) tx m"
    unfolding decode_and_validate_Inr signed_transaction_def by auto
  with * show ?r
    unfolding direct_payment_ok_def check_transfer_Inr pays_checked_iff
    by (cases t) (auto simp: word_le_nat_alt)
next
  assume ?r
  then obtain amount p tx m required ata destination where
    *: "pp_payload payload = Payload_Direct p" "signed_transaction env (sp_transaction p) tx m"
    "parse_u64 (pa_amount (pp_accepted payload)) = Some required" "unat required \<le> unat amount"
    "derive_ata (ve_crypto env) expected (sv_usdc_mint v) TOKEN_PROGRAM_ID = Some ata"
    "destination \<in> {ata, expected}"
    "extract_spl_transfer m = Inr \<lparr>ti_destination = destination, ti_amount = amount, ti_mint = Some (sv_usdc_mint v)\<rparr>"
    "nonce_allowed (ve_crypto env) (sv_nonce_pool v) m"
    "simulate_transaction env now (sp_transaction p) (is_nonce_transaction m = None) = Inr ()"
    and r: "r = \<lparr>vr_valid = True, vr_reason = None, vr_verified_amount = Some amount\<rparr>"
    unfolding direct_payment_ok_def pays_checked_iff by blast
  moreover have "decode_and_validate_transaction env (sp_transaction p) = Inr tx"
    "parsed_message_from_bytes (vt_message_bytes tx) = Inr m"
    using *(2) decode_and_validate_Inr by (auto simp: signed_transaction_def)
  moreover have "check_transfer (ve_crypto env) v expected required \<lparr>ti_destination = destination,
      ti_amount = amount, ti_mint = Some (sv_usdc_mint v)\<rparr> = Inr ()"
    using *(4-6) by (auto simp: check_transfer_Inr word_le_nat_alt)
  moreover have "(case is_nonce_transaction m of
      Some n \<Rightarrow> and_then (validate_nonce_account (ve_crypto env) (sv_nonce_pool v) n)
        (\<lambda>_. simulate_transaction env now (sp_transaction p) False)
    | None \<Rightarrow> simulate_transaction env now (sp_transaction p) True) = Inr ()"
    using *(8,9) by (simp only: nonce_branch_Inr)
  ultimately show ?l
    unfolding verify_payment_against_def r
    by (simp add: direct_payload_def required_amount_def parse_message_def)
qed

text \<open>
  A durable nonce with no pool configured is the one case in which the comments of the verifier and
  its code disagree: the comments trust the network, the code refuses. The characterisation below
  is stated for the other cases.
\<close>

definition nonce_policy_clear :: "verifier_env \<Rightarrow> solana_verifier \<Rightarrow> payment_payload \<Rightarrow> bool" where
  "nonce_policy_clear env v payload \<longleftrightarrow> sv_nonce_pool v \<noteq> None
     \<or> (\<forall>p tx m. pp_payload payload = Payload_Direct p \<and> signed_transaction env (sp_transaction p) tx m
          \<longrightarrow> is_nonce_transaction m = None)"

lemma nonce_without_pool_refused:
  assumes "sv_nonce_pool v = None" "pp_payload payload = Payload_Direct p" "signed_transaction env (sp_transaction p) tx m"
    and "is_nonce_transaction m = Some n"
  shows "verify_payment_against env v now payload expected \<noteq> Inr r"
proof
  assume "verify_payment_against env v now payload expected = Inr r"
  then obtain p' tx' m' where "pp_payload payload = Payload_Direct p'" "signed_transaction env (sp_transaction p') tx' m'"
    and ok: "nonce_allowed (ve_crypto env) (sv_nonce_pool v) m'"
    unfolding verify_against_Inr direct_payment_ok_def by blast
  with assms(2,3) have "m' = m" by (auto simp: signed_transaction_def)
  with ok assms(1,4) show False by (simp add: nonce_allowed_def)
qed


section \<open>Simulation\<close>

text \<open>
  The reply the Solana JSON-RPC specification gives to \<open>simulateTransaction\<close>: the outcome is under
  \<open>result.value\<close>, beside the context, as in every other call of the client.
\<close>

definition simulation_reply :: "int \<Rightarrow> json \<Rightarrow> json \<Rightarrow> json" where
  "simulation_reply slot err logs =
     JObj [(''jsonrpc'', JStr ''2.0''),
       (''result'', JObj [(''context'', JObj [(''slot'', JInt slot)]),
          (''value'', JObj [(''err'', err), (''logs'', logs)])]),
       (''id'', JInt 1)]"

text \<open>
  A failed simulation is not noticed. When the node answers in the documented form, the
  simulation step passes whatever error the node reports for the transaction, because it looks for
  the error beside \<open>value\<close> and not inside it: a payment that would fail on chain is accepted by the
  verifier.
\<close>
theorem simulation_failure_unnoticed:
  assumes "http_post (ve_http env) now (simulate_body tx replace) = Inr (simulation_reply slot err logs)"
  shows "simulate_transaction env now tx replace = Inr ()"
  using assms by (simp add: simulate_transaction_def rpc_request_def simulation_reply_def)

definition failing_node :: http where
  "failing_node = \<lparr>http_post = (\<lambda>_ _. Inr (simulation_reply 7 (JStr ''AccountNotFound'') (JArr []))),
     http_latency = (\<lambda>_ _. 1), json_text = (\<lambda>_. [])\<rparr>"

theorem simulation_failure_unnoticed_witness:
  "simulate_transaction \<lparr>ve_crypto = toy_escrow_crypto, ve_ed25519 = toy_ed25519, ve_http = failing_node,
     ve_b64_decode = (\<lambda>_. None)\<rparr> 0 ''tx'' True = Inr ()"
  by (rule simulation_failure_unnoticed [where slot = 7 and err = "JStr ''AccountNotFound''" and logs = "JArr []"])
    (simp add: failing_node_def)

section \<open>Settlement outcomes\<close>

definition confirmed_by_node :: "verifier_env \<Rightarrow> nat \<Rightarrow> string \<Rightarrow> bool" where
  "confirmed_by_node env now sig \<longleftrightarrow>
     (\<exists>t \<in> {now..now + 34000}. reports_confirmed (http_post (ve_http env) t (poll_body sig)))"

lemma await_settlement_outcome:
  obtains (confirmed) "await_settlement env now sig amount = Some (settlement_confirmed sig amount)"
      "confirmed_by_node env now sig"
  | (failed) raw where "await_settlement env now sig amount = Some (settlement_failed (Some sig) raw amount)"
proof (cases "poll_for_confirmation (ve_http env) now sig 30")
  case None
  with poll_decides [of "ve_http env" sig now 30] show ?thesis by (simp add: poll_verdict_def)
next
  case (Some r)
  show ?thesis
  proof (cases r)
    case (Inl e)
    with Some show ?thesis by (intro failed) (simp add: await_settlement_def)
  next
    case (Inr u)
    with Some poll_decides [of "ve_http env" sig now 30] show ?thesis
      by (intro confirmed) (simp_all add: await_settlement_def poll_verdict_def confirmed_by_node_def add.commute)
  qed
qed

end
