(* ===== verification/Escrow_Solvency.thy ===== *)
theory Escrow_Solvency
  imports Escrow_Program
begin

text \<open>
  What the escrow program promises. \<open>spl_laws\<close> states the documented behaviour of the SPL token
  program the handlers rely on. Against it, the three instructions refine an abstract ledger of
  agreements and balances, every live escrow stays backed by its vault whatever else happens on
  chain, and the claim and refund windows partition time.
\<close>

section \<open>The instructions of the program\<close>

datatype escrow_ix =
    Ix_deposit deposit_accounts u64 bytes u64
  | Ix_claim claim_accounts u64
  | Ix_refund refund_accounts

primrec process ::
  "'t spl \<Rightarrow> program_env \<Rightarrow> u64 \<Rightarrow> escrow_ix \<Rightarrow> 't program_state \<Rightarrow> (anchor_error, 't program_state) result"
where
  "process spl pe now (Ix_deposit acc amount service_id expiry_slot) =
     deposit spl pe now acc amount service_id expiry_slot"
| "process spl pe now (Ix_claim acc actual_amount) = claim spl pe now acc actual_amount"
| "process spl pe now (Ix_refund acc) = refund spl pe now acc"

primrec ix_escrow :: "escrow_ix \<Rightarrow> pubkey" where
  "ix_escrow (Ix_deposit acc _ _ _) = da_escrow acc"
| "ix_escrow (Ix_claim acc _) = ca_escrow acc"
| "ix_escrow (Ix_refund acc) = ra_escrow acc"

primrec ix_signers :: "escrow_ix \<Rightarrow> pubkey list" where
  "ix_signers (Ix_deposit acc _ _ _) = da_signers acc"
| "ix_signers (Ix_claim acc _) = ca_signers acc"
| "ix_signers (Ix_refund acc) = ra_signers acc"

section \<open>The token program\<close>

type_synonym accounts = "pubkey \<Rightarrow> token_account option"

definition fresh_account :: "pubkey \<Rightarrow> pubkey \<Rightarrow> token_account" where
  "fresh_account mint owner =
    \<lparr>ta_mint = mint, ta_owner = owner, ta_amount = 0, ta_frozen = False, ta_close_authority = None\<rparr>"

text \<open>A checked transfer under the signature of the owner of the source account.\<close>

definition transferred ::
  "(pubkey \<Rightarrow> u8 option) \<Rightarrow> pubkey \<Rightarrow> pubkey \<Rightarrow> pubkey \<Rightarrow> u64 \<Rightarrow> u8 \<Rightarrow> accounts \<Rightarrow> accounts option" where
  "transferred decs src mint dst amount dec m =
    (case m src of None \<Rightarrow> None | Some a \<Rightarrow>
     case m dst of None \<Rightarrow> None | Some b \<Rightarrow>
       if ta_mint a = mint \<and> ta_mint b = mint \<and> \<not> ta_frozen a \<and> \<not> ta_frozen b
          \<and> decs mint = Some dec \<and> amount \<le> ta_amount a
          \<and> (src = dst \<or> unat (ta_amount b) + unat amount < 2 ^ 64)
       then Some (if src = dst then m
                  else m(src \<mapsto> a\<lparr>ta_amount := ta_amount a - amount\<rparr>,
                         dst \<mapsto> b\<lparr>ta_amount := ta_amount b + amount\<rparr>))
       else None)"

definition spl_laws :: "'t spl \<Rightarrow> bool" where
  "spl_laws spl \<longleftrightarrow>
    (\<forall>t src mint dst authority amount dec a.
       tok_account spl t src = Some a \<and> ta_owner a = authority \<longrightarrow>
       map_option (tok_account spl) (tok_transfer_checked spl src mint dst authority amount dec t)
         = transferred (tok_decimals spl) src mint dst amount dec (tok_account spl t))
    \<and> (\<forall>t acct authority t'. tok_close spl acct authority t = Some t' \<longrightarrow>
         tok_account spl t' = (tok_account spl t)(acct := None))
    \<and> (\<forall>t acct authority a. tok_account spl t acct = Some a \<and> ta_owner a = authority
         \<and> ta_close_authority a = None \<and> ta_amount a = 0 \<longrightarrow> tok_close spl acct authority t \<noteq> None)
    \<and> (\<forall>t addr mint owner t'. tok_create spl addr mint owner t = Some t' \<longrightarrow>
         tok_account spl t addr = None
         \<and> tok_account spl t' = (tok_account spl t)(addr \<mapsto> fresh_account mint owner))"

lemma spl_transfer:
  assumes "spl_laws spl" "tok_account spl t src = Some a" "ta_owner a = authority"
  shows "map_option (tok_account spl) (tok_transfer_checked spl src mint dst authority amount dec t)
         = transferred (tok_decimals spl) src mint dst amount dec (tok_account spl t)"
  using assms(1) [unfolded spl_laws_def, THEN conjunct1] assms(2,3) by blast

lemma spl_close:
  "spl_laws spl \<Longrightarrow> tok_close spl acct authority t = Some t' \<Longrightarrow>
   tok_account spl t' = (tok_account spl t)(acct := None)"
  unfolding spl_laws_def by blast

lemma spl_closes:
  assumes "spl_laws spl" "tok_account spl t acct = Some a" "ta_close_authority a = None"
    "ta_amount a = 0"
  shows "\<exists>t'. tok_close spl acct (ta_owner a) t = Some t'"
  using assms unfolding spl_laws_def by blast

lemma spl_create:
  assumes "spl_laws spl" "tok_create spl addr mint owner t = Some t'"
  shows "tok_account spl t addr = None"
    "tok_account spl t' = (tok_account spl t)(addr \<mapsto> fresh_account mint owner)"
  using assms unfolding spl_laws_def by blast+

section \<open>Balances\<close>

definition balance :: "accounts \<Rightarrow> pubkey \<Rightarrow> nat" where
  "balance m k = (case m k of None \<Rightarrow> 0 | Some a \<Rightarrow> unat (ta_amount a))"

definition pay :: "pubkey \<Rightarrow> pubkey \<Rightarrow> nat \<Rightarrow> (pubkey \<Rightarrow> nat) \<Rightarrow> pubkey \<Rightarrow> nat" where
  "pay src dst n b = (let b' = b(src := b src - n) in b'(dst := b' dst + n))"

text \<open>What happens to accounts a payment does not debit: same owner and mint, no less money.\<close>

definition keeps :: "accounts \<Rightarrow> pubkey \<Rightarrow> accounts \<Rightarrow> bool" where
  "keeps m k m' \<longleftrightarrow> (\<forall>a. m k = Some a \<longrightarrow> (\<exists>a'. m' k = Some a'
     \<and> ta_mint a' = ta_mint a \<and> ta_owner a' = ta_owner a
     \<and> ta_frozen a' = ta_frozen a \<and> ta_close_authority a' = ta_close_authority a
     \<and> ta_amount a \<le> ta_amount a'))"

lemma keeps_refl [simp]: "keeps m k m"
  by (simp add: keeps_def)

lemma keeps_trans: "keeps m k m1 \<Longrightarrow> keeps m1 k m2 \<Longrightarrow> keeps m k m2"
  unfolding keeps_def by (fastforce intro: order_trans)

lemma transferred_Some:
  assumes "transferred decs src mint dst amount dec m = Some m'"
  obtains a b where "m src = Some a" "m dst = Some b" "ta_mint a = mint" "ta_mint b = mint"
    "amount \<le> ta_amount a" "\<not> ta_frozen a" "decs mint = Some dec"
    "src = dst \<or> unat (ta_amount b) + unat amount < 2 ^ 64"
    "m' = (if src = dst then m else m(src \<mapsto> a\<lparr>ta_amount := ta_amount a - amount\<rparr>,
                         dst \<mapsto> b\<lparr>ta_amount := ta_amount b + amount\<rparr>))"
  using assms unfolding transferred_def by (auto split: option.splits if_splits)

lemma unat_add_u64: "unat a + unat b < 2 ^ 64 \<Longrightarrow> unat (a + b :: u64) = unat a + unat b"
  by (simp add: unat_word_ariths)

lemma balance_transferred:
  assumes "transferred decs src mint dst amount dec m = Some m'"
  shows "balance m' = pay src dst (unat amount) (balance m)" "unat amount \<le> balance m src"
proof -
  from assms obtain a b where ab: "m src = Some a" "m dst = Some b" "amount \<le> ta_amount a"
    "src = dst \<or> unat (ta_amount b) + unat amount < 2 ^ 64"
    "m' = (if src = dst then m else m(src \<mapsto> a\<lparr>ta_amount := ta_amount a - amount\<rparr>,
                         dst \<mapsto> b\<lparr>ta_amount := ta_amount b + amount\<rparr>))"
    by (rule transferred_Some)
  then show le: "unat amount \<le> balance m src"
    by (simp add: balance_def word_le_nat_alt)
  show "balance m' = pay src dst (unat amount) (balance m)"
  proof (cases "src = dst")
    case True
    with ab le show ?thesis by (auto simp: pay_def balance_def fun_eq_iff)
  next
    case False
    with ab show ?thesis
      by (auto simp: pay_def balance_def fun_eq_iff unat_sub_u64 unat_add_u64)
  qed
qed

lemma keeps_transferred:
  assumes "transferred decs src mint dst amount dec m = Some m'" "k \<noteq> src"
  shows "keeps m k m'"
proof -
  from assms(1) obtain a b where ab: "m src = Some a" "m dst = Some b"
    "src = dst \<or> unat (ta_amount b) + unat amount < 2 ^ 64"
    "m' = (if src = dst then m else m(src \<mapsto> a\<lparr>ta_amount := ta_amount a - amount\<rparr>,
                         dst \<mapsto> b\<lparr>ta_amount := ta_amount b + amount\<rparr>))"
    by (rule transferred_Some)
  with assms(2) show ?thesis
    by (auto simp: keeps_def word_le_nat_alt unat_add_u64)
qed

lemma keeps_Some: "keeps m k m' \<Longrightarrow> m k = Some a \<Longrightarrow> \<exists>a'. m' k = Some a'"
  unfolding keeps_def by blast

section \<open>The handlers over the token ledger\<close>

lemma require_Inr_iff [simp]: "require b e = Inr u \<longleftrightarrow> b"
  by (simp add: require_def)

lemma load_token_account_Inr_iff [simp]:
  "load_token_account spl k t = Inr a \<longleftrightarrow> tok_account spl t k = Some a"
  by (simp add: load_token_account_def)

lemma associated_token_Inr_iff [simp]:
  "associated_token pe addr mint authority a = Inr u \<longleftrightarrow>
     ta_owner a = authority \<and> ata_ok pe authority mint addr"
  by (simp add: associated_token_def and_then_Inr_iff)

lemma associated_token_init_ok:
  assumes laws: "spl_laws spl" and ok: "associated_token_init spl pe addr mint authority t = Inr t'"
  shows "\<exists>a. tok_account spl t' addr = Some a \<and> ta_mint a = mint \<and> ta_owner a = authority"
    "ata_ok pe authority mint addr"
    "balance (tok_account spl t') = balance (tok_account spl t)"
    "keeps (tok_account spl t) k (tok_account spl t')"
    "\<And>a. tok_account spl t k = Some a \<Longrightarrow> tok_account spl t' k = Some a"
proof -
  from ok show "\<exists>a. tok_account spl t' addr = Some a \<and> ta_mint a = mint \<and> ta_owner a = authority"
    and "ata_ok pe authority mint addr"
    by (auto simp: associated_token_init_def and_then_Inr_iff)
  have "t' = t \<or> tok_create spl addr mint authority t = Some t'"
    using ok by (auto simp: associated_token_init_def and_then_Inr_iff split: option.splits)
  then have m: "tok_account spl t' = tok_account spl t \<or> tok_account spl t addr = None \<and>
      tok_account spl t' = (tok_account spl t)(addr \<mapsto> fresh_account mint authority)"
    using spl_create [OF laws] by blast
  then show "balance (tok_account spl t') = balance (tok_account spl t)"
    by (auto simp: balance_def fun_eq_iff fresh_account_def)
  from m show "keeps (tok_account spl t) k (tok_account spl t')"
    by (auto simp: keeps_def)
  from m show "tok_account spl t k = Some a \<Longrightarrow> tok_account spl t' k = Some a" for a
    by auto
qed

lemma cpi_transfer_ok:
  assumes "spl_laws spl" "cpi_transfer spl src mint dst authority amount dec t = Inr t'"
    "tok_account spl t src = Some a" "ta_owner a = authority"
  shows "transferred (tok_decimals spl) src mint dst amount dec (tok_account spl t)
         = Some (tok_account spl t')"
  using spl_transfer [OF assms(1,3,4), of mint dst amount dec] assms(2) by (simp add: cpi_transfer_def)

lemma cpi_close_ok:
  assumes "spl_laws spl" "cpi_close spl acct authority t = Inr t'"
  shows "tok_account spl t' = (tok_account spl t)(acct := None)"
  using spl_close [OF assms(1)] assms(2) by (simp add: cpi_close_def)

text \<open>A successful transfer out of an account, with everything the later steps need.\<close>

lemma owned_transfer:
  assumes "spl_laws spl" "cpi_transfer spl src mint dst authority amount dec t = Inr t'"
    "tok_account spl t src = Some a" "ta_owner a = authority"
  shows "balance (tok_account spl t') = pay src dst (unat amount) (balance (tok_account spl t))"
    "unat amount \<le> balance (tok_account spl t) src"
    "k \<noteq> src \<Longrightarrow> keeps (tok_account spl t) k (tok_account spl t')"
    "\<exists>a'. tok_account spl t' src = Some a' \<and> ta_owner a' = authority"
    "ta_mint a = mint"
proof -
  note tr = cpi_transfer_ok [OF assms]
  show "balance (tok_account spl t') = pay src dst (unat amount) (balance (tok_account spl t))"
    "unat amount \<le> balance (tok_account spl t) src"
    using balance_transferred [OF tr] by simp_all
  show "keeps (tok_account spl t) k (tok_account spl t')" if "k \<noteq> src"
    using keeps_transferred [OF tr that] .
  show "\<exists>a'. tok_account spl t' src = Some a' \<and> ta_owner a' = authority"
    "ta_mint a = mint"
    using tr assms(3,4) by (auto elim!: transferred_Some)
qed

lemma pay_0 [simp]: "pay src dst 0 b = b"
  by (simp add: pay_def)

lemma optional_transfer:
  assumes "spl_laws spl"
    "(if 0 < amount then cpi_transfer spl src mint dst authority amount dec t else Inr t) = Inr t'"
    "tok_account spl t src = Some a" "ta_owner a = authority"
  shows "balance (tok_account spl t') = pay src dst (unat amount) (balance (tok_account spl t))"
    "unat amount \<le> balance (tok_account spl t) src"
    "k \<noteq> src \<Longrightarrow> keeps (tok_account spl t) k (tok_account spl t')"
    "\<exists>a'. tok_account spl t' src = Some a' \<and> ta_owner a' = authority"
proof -
  consider (some) "cpi_transfer spl src mint dst authority amount dec t = Inr t'"
    | (none) "amount = 0" "t' = t"
    using assms(2) by (cases "0 < amount") (simp_all add: word_gt_0)
  then have "balance (tok_account spl t') = pay src dst (unat amount) (balance (tok_account spl t))
    \<and> unat amount \<le> balance (tok_account spl t) src
    \<and> (k \<noteq> src \<longrightarrow> keeps (tok_account spl t) k (tok_account spl t'))
    \<and> (\<exists>a'. tok_account spl t' src = Some a' \<and> ta_owner a' = authority)"
  proof cases
    case some
    from owned_transfer [OF assms(1) some assms(3,4)] show ?thesis by blast
  next
    case none
    with assms(3,4) show ?thesis by simp
  qed
  then show "balance (tok_account spl t') = pay src dst (unat amount) (balance (tok_account spl t))"
    "unat amount \<le> balance (tok_account spl t) src"
    "k \<noteq> src \<Longrightarrow> keeps (tok_account spl t) k (tok_account spl t')"
    "\<exists>a'. tok_account spl t' src = Some a' \<and> ta_owner a' = authority"
    by blast+
qed

text \<open>The transfers of a claim: the provider's share, the remainder, the surplus, then the close.\<close>

lemma claim_payout:
  assumes laws: "spl_laws spl"
    and a: "tok_account spl t v = Some a" "ta_owner a = esc"
    and ne: "p \<noteq> v" "g \<noteq> v" "p \<noteq> g"
    and t1: "cpi_transfer spl v mint p esc actual dec t = Inr t1"
    and t2: "(if 0 < rest then cpi_transfer spl v mint g esc rest dec t1 else Inr t1) = Inr t2"
    and a2: "tok_account spl t2 v = Some a2"
    and t3: "(if 0 < ta_amount a2 then cpi_transfer spl v mint g esc (ta_amount a2) dec t2
              else Inr t2) = Inr t3"
    and t4: "cpi_close spl v esc t3 = Inr t4"
  defines "b \<equiv> balance (tok_account spl t)"
  shows "balance (tok_account spl t4) = pay v g (b v - unat actual) (pay v p (unat actual) b)"
    and "tok_account spl t4 v = None"
    and "k \<noteq> v \<Longrightarrow> keeps (tok_account spl t) k (tok_account spl t4)"
proof -
  note T1 = owned_transfer [OF laws t1 a]
  from T1(4) obtain a1 where a1: "tok_account spl t1 v = Some a1" "ta_owner a1 = esc" by blast
  note T2 = optional_transfer [OF laws t2 a1]
  from T2(4) a2 have own2: "ta_owner a2 = esc" by simp
  note T3 = optional_transfer [OF laws t3 a2 own2]
  have close: "tok_account spl t4 = (tok_account spl t3)(v := None)" by (rule cpi_close_ok [OF laws t4])
  then show "tok_account spl t4 v = None" by simp
  have "unat (ta_amount a2) = balance (tok_account spl t2) v"
    by (simp add: balance_def a2)
  then have b3: "balance (tok_account spl t3) v = 0"
    using T3(1) ne by (simp add: pay_def)
  have "balance (tok_account spl t4) = (balance (tok_account spl t3))(v := 0)"
    by (simp add: close balance_def fun_eq_iff)
  also have "\<dots> = balance (tok_account spl t3)"
    using b3 by auto
  also have "\<dots> = pay v g (balance (tok_account spl t2) v) (balance (tok_account spl t2))"
    using T3(1) by (simp add: balance_def a2)
  also have "\<dots> = pay v g (b v - unat actual) (pay v p (unat actual) b)"
    using T1(1,2) T2(1,2) ne unfolding b_def by (auto simp: pay_def fun_eq_iff)
  finally show "balance (tok_account spl t4) = pay v g (b v - unat actual) (pay v p (unat actual) b)" .
  show "keeps (tok_account spl t) k (tok_account spl t4)" if "k \<noteq> v"
  proof -
    have "keeps (tok_account spl t) k (tok_account spl t3)"
      using keeps_trans [OF T1(3) [OF that] keeps_trans [OF T2(3) [OF that] T3(3) [OF that]]] .
    with that show ?thesis by (simp add: close keeps_def)
  qed
qed

text \<open>What a successful claim establishes.\<close>

lemma claim_constraints_ok:
  assumes "claim_constraints spl pe acc st = Inr (e, dec, t)"
  shows "\<exists>v tp. escrows st (ca_escrow acc) = Some e \<and> ca_provider acc \<in> set (ca_signers acc)
    \<and> tok_decimals spl (ca_mint acc) = Some dec
    \<and> tok_account spl (tokens st) (ca_vault acc) = Some v \<and> ta_owner v = ca_escrow acc
    \<and> ata_ok pe (ca_escrow acc) (ca_mint acc) (ca_vault acc)
    \<and> associated_token_init spl pe (ca_provider_token acc) (ca_mint acc) (ca_provider acc) (tokens st)
        = Inr tp
    \<and> associated_token_init spl pe (ca_agent_token acc) (ca_mint acc) (ca_agent acc) tp = Inr t
    \<and> es_provider e = ca_provider acc \<and> es_mint e = ca_mint acc \<and> ca_agent acc = es_agent e
    \<and> ca_escrow acc \<noteq> ca_agent acc"
  using assms unfolding claim_constraints_def and_then_Inr_iff by fastforce

lemma checked_sub_Some: "checked_sub a b = Some d \<longleftrightarrow> b \<le> a \<and> d = a - b"
  by (auto simp: checked_sub_def)

lemma claim_body_ok:
  assumes "claim spl pe now acc actual st = Inr st'"
  shows "\<exists>e dec t t1 t2 a2 t3 t4. claim_constraints spl pe acc st = Inr (e, dec, t)
    \<and> actual \<le> es_amount e \<and> 0 < actual \<and> now < es_expiry_slot e
    \<and> ca_provider_token acc \<noteq> ca_agent_token acc
    \<and> cpi_transfer spl (ca_vault acc) (ca_mint acc) (ca_provider_token acc) (ca_escrow acc) actual dec t
        = Inr t1
    \<and> (if 0 < es_amount e - actual then cpi_transfer spl (ca_vault acc) (ca_mint acc)
          (ca_agent_token acc) (ca_escrow acc) (es_amount e - actual) dec t1 else Inr t1) = Inr t2
    \<and> tok_account spl t2 (ca_vault acc) = Some a2
    \<and> (if 0 < ta_amount a2 then cpi_transfer spl (ca_vault acc) (ca_mint acc)
          (ca_agent_token acc) (ca_escrow acc) (ta_amount a2) dec t2 else Inr t2) = Inr t3
    \<and> cpi_close spl (ca_vault acc) (ca_escrow acc) t3 = Inr t4
    \<and> st' = st\<lparr>tokens := t4, escrows := (escrows st)(ca_escrow acc := None),
        emitted := emitted st @ [ClaimEvent (es_agent e) (es_provider e) (es_amount e) actual
          (es_amount e - actual) (es_service_id e)]\<rparr>"
proof -
  obtain e dec t where "claim_constraints spl pe acc st = Inr (e, dec, t)"
    using assms by (auto simp: claim_def and_then_Inr_iff)
  with assms show ?thesis
    unfolding claim_def Let_def
    by (simp only: and_then_simps prod.case) (simp only: and_then_Inr_iff require_Inr_iff
        ok_or_Inr_iff checked_sub_Some load_token_account_Inr_iff, blast)
qed

lemma claim_ok:
  assumes laws: "spl_laws spl" and ok: "claim spl pe now acc actual st = Inr st'"
    and pda: "ca_escrow acc \<notin> set (ca_signers acc)"
  defines "b \<equiv> balance (tok_account spl (tokens st))"
  obtains e v where "escrows st (ca_escrow acc) = Some e" "es_provider e = ca_provider acc"
    "es_provider e \<in> set (ca_signers acc)" "0 < actual" "actual \<le> es_amount e"
    "now < es_expiry_slot e" "ca_agent acc = es_agent e"
    "tok_account spl (tokens st) (ca_vault acc) = Some v" "ta_owner v = ca_escrow acc"
    "ata_ok pe (ca_escrow acc) (es_mint e) (ca_vault acc)"
    "balance (tok_account spl (tokens st')) = pay (ca_vault acc) (ca_agent_token acc)
        (b (ca_vault acc) - unat actual) (pay (ca_vault acc) (ca_provider_token acc) (unat actual) b)"
    "tok_account spl (tokens st') (ca_vault acc) = None"
    "\<And>k. k \<noteq> ca_vault acc \<Longrightarrow> keeps (tok_account spl (tokens st)) k (tok_account spl (tokens st'))"
    "escrows st' = (escrows st)(ca_escrow acc := None)"
    "emitted st' = emitted st @ [ClaimEvent (es_agent e) (es_provider e) (es_amount e) actual
        (es_amount e - actual) (es_service_id e)]"
proof -
  let ?v = "ca_vault acc" and ?p = "ca_provider_token acc" and ?g = "ca_agent_token acc"
  let ?transfer = "\<lambda>dst. cpi_transfer spl ?v (ca_mint acc) dst (ca_escrow acc)"
  from claim_body_ok [OF ok] obtain e dec t t1 t2 a2 t3 t4 where
    c: "claim_constraints spl pe acc st = Inr (e, dec, t)"
    and guards: "actual \<le> es_amount e" "0 < actual" "now < es_expiry_slot e" "?p \<noteq> ?g"
    and t1: "?transfer ?p actual dec t = Inr t1"
    and t2: "(if 0 < es_amount e - actual then ?transfer ?g (es_amount e - actual) dec t1
        else Inr t1) = Inr t2"
    and a2: "tok_account spl t2 ?v = Some a2"
    and t3: "(if 0 < ta_amount a2 then ?transfer ?g (ta_amount a2) dec t2 else Inr t2) = Inr t3"
    and t4: "cpi_close spl ?v (ca_escrow acc) t3 = Inr t4"
    and st': "st' = st\<lparr>tokens := t4, escrows := (escrows st)(ca_escrow acc := None),
        emitted := emitted st @ [ClaimEvent (es_agent e) (es_provider e) (es_amount e) actual
          (es_amount e - actual) (es_service_id e)]\<rparr>"
    by blast
  from claim_constraints_ok [OF c] obtain v tp where
    e: "escrows st (ca_escrow acc) = Some e" and signer: "ca_provider acc \<in> set (ca_signers acc)"
    and v: "tok_account spl (tokens st) ?v = Some v" "ta_owner v = ca_escrow acc"
      "ata_ok pe (ca_escrow acc) (ca_mint acc) ?v"
    and tp: "associated_token_init spl pe ?p (ca_mint acc) (ca_provider acc) (tokens st) = Inr tp"
    and t: "associated_token_init spl pe ?g (ca_mint acc) (ca_agent acc) tp = Inr t"
    and link: "es_provider e = ca_provider acc" "es_mint e = ca_mint acc" "ca_agent acc = es_agent e"
    and close_ne: "ca_escrow acc \<noteq> ca_agent acc"
    by blast
  note P = associated_token_init_ok [OF laws tp] and G = associated_token_init_ok [OF laws t]
  have vt: "tok_account spl t ?v = Some v" using P(5) G(5) v(1) by blast
  have ne: "?p \<noteq> ?v" "?g \<noteq> ?v"
    using P(1) G(1) P(5) [OF v(1)] vt v(2) signer pda close_ne by auto
  note pay = claim_payout [OF laws vt v(2) ne guards(4) t1 t2 a2 t3 t4]
  have b: "balance (tok_account spl t) = b" using P(3) G(3) by (simp add: b_def)
  show thesis
  proof (rule that [OF e link(1) _ guards(2,1,3) link(3) v(1,2)])
    show "es_provider e \<in> set (ca_signers acc)" using signer link(1) by simp
    show "ata_ok pe (ca_escrow acc) (es_mint e) ?v" using v(3) link(2) by simp
    show "keeps (tok_account spl (tokens st)) k (tok_account spl (tokens st'))" if "k \<noteq> ?v" for k
      using P(4) [of k] G(4) [of k] pay(3) [OF that] by (auto simp: st' intro: keeps_trans)
  qed (use pay(1,2) b in \<open>simp_all add: st'\<close>)
qed

lemma refund_ok:
  assumes laws: "spl_laws spl" and ok: "refund spl pe now acc st = Inr st'"
  defines "b \<equiv> balance (tok_account spl (tokens st))"
  obtains e v where "escrows st (ra_escrow acc) = Some e" "ra_agent acc = es_agent e"
    "es_agent e \<in> set (ra_signers acc)" "es_expiry_slot e \<le> now"
    "tok_account spl (tokens st) (ra_vault acc) = Some v" "ta_owner v = ra_escrow acc"
    "0 < ta_amount v"
    "balance (tok_account spl (tokens st')) =
       pay (ra_vault acc) (ra_agent_token acc) (b (ra_vault acc)) b"
    "\<And>k. k \<noteq> ra_vault acc \<Longrightarrow> keeps (tok_account spl (tokens st)) k (tok_account spl (tokens st'))"
    "escrows st' = (escrows st)(ra_escrow acc := None)"
proof -
  let ?v = "ra_vault acc" and ?g = "ra_agent_token acc"
  obtain e dec v t where c: "refund_constraints spl pe acc st = Inr (e, dec, v, t)"
    using ok by (auto simp: refund_def and_then_Inr_iff)
  from ok c obtain t1 t2 where guards: "es_expiry_slot e \<le> now" "0 < ta_amount v"
    and t1: "cpi_transfer spl ?v (ra_mint acc) ?g (ra_escrow acc) (ta_amount v) dec t = Inr t1"
    and t2: "cpi_close spl ?v (ra_escrow acc) t1 = Inr t2"
    and st': "tokens st' = t2" "escrows st' = (escrows st)(ra_escrow acc := None)"
    by (auto simp: refund_def and_then_Inr_iff)
  from c have e: "escrows st (ra_escrow acc) = Some e"
    and v: "tok_account spl (tokens st) ?v = Some v" "ta_owner v = ra_escrow acc"
    and t: "associated_token_init spl pe ?g (ra_mint acc) (ra_agent acc) (tokens st) = Inr t"
    and link: "ra_agent acc = es_agent e" "ra_agent acc \<in> set (ra_signers acc)"
    and close_ne: "ra_escrow acc \<noteq> ra_agent acc"
    unfolding refund_constraints_def and_then_Inr_iff by auto
  note G = associated_token_init_ok [OF laws t]
  have vt: "tok_account spl t ?v = Some v" using G(5) v(1) by blast
  have ne: "?g \<noteq> ?v" using G(1) vt v(2) close_ne by auto
  note T1 = owned_transfer [OF laws t1 vt v(2)]
  have close: "tok_account spl (tokens st') = (tok_account spl t1)(?v := None)"
    using cpi_close_ok [OF laws t2] by (simp add: st')
  have bv: "unat (ta_amount v) = balance (tok_account spl t) ?v" by (simp add: balance_def vt)
  have "balance (tok_account spl (tokens st')) = (balance (tok_account spl t1))(?v := 0)"
    by (simp add: close balance_def fun_eq_iff)
  also have "\<dots> = pay ?v ?g (b ?v) b"
    using T1(1) bv ne by (auto simp: pay_def fun_eq_iff b_def G(3))
  finally have bal: "balance (tok_account spl (tokens st')) = pay ?v ?g (b ?v) b" .
  show thesis
  proof (rule that [OF e link(1) _ guards(1) v guards(2) bal _ st'(2)])
    show "es_agent e \<in> set (ra_signers acc)" using link by simp
    show "keeps (tok_account spl (tokens st)) k (tok_account spl (tokens st'))" if "k \<noteq> ?v" for k
      using keeps_trans [OF G(4) T1(3) [OF that]] that by (simp add: close keeps_def)
  qed
qed

lemma deposit_ok:
  assumes laws: "spl_laws spl" and ok: "deposit spl pe now acc amount sid expiry st = Inr st'"
    and pda: "da_escrow acc \<notin> set (da_signers acc)"
  defines "b \<equiv> balance (tok_account spl (tokens st))"
  obtains bump a v where "escrows st (da_escrow acc) = None" "da_agent acc \<in> set (da_signers acc)"
    "0 < amount" "unat now + 50 \<le> unat expiry" "unat expiry \<le> unat now + 216000"
    "da_provider acc \<noteq> replicate 32 0" "da_provider acc \<noteq> da_agent acc"
    "da_mint acc = pe_usdc_mint pe"
    "find_program_address (pe_crypto pe) (escrow_seeds (da_agent acc) sid) (pe_program_id pe)
       = Some (da_escrow acc, bump)"
    "tok_account spl (tokens st) (da_agent_token acc) = Some a" "ta_owner a = da_agent acc"
    "unat amount \<le> b (da_agent_token acc)"
    "balance (tok_account spl (tokens st')) = pay (da_agent_token acc) (da_vault acc) (unat amount) b"
    "da_vault acc \<noteq> da_agent_token acc" "ata_ok pe (da_escrow acc) (da_mint acc) (da_vault acc)"
    "tok_account spl (tokens st') (da_vault acc) = Some v" "ta_owner v = da_escrow acc"
    "ta_mint v = da_mint acc"
    "\<And>k. k \<noteq> da_agent_token acc \<Longrightarrow>
       keeps (tok_account spl (tokens st)) k (tok_account spl (tokens st'))"
    "escrows st' = (escrows st)(da_escrow acc \<mapsto>
       \<lparr>es_agent = da_agent acc, es_provider = da_provider acc, es_mint = da_mint acc,
        es_amount = amount, es_service_id = sid, es_expiry_slot = expiry, es_bump = bump\<rparr>)"
proof -
  let ?v = "da_vault acc" and ?g = "da_agent_token acc"
  obtain bump dec t where c: "deposit_constraints spl pe acc sid st = Inr (bump, dec, t)"
    using ok by (auto simp: deposit_def and_then_Inr_iff)
  from ok c obtain t1 where guards: "0 < amount" "now < expiry"
      "saturating_sub expiry now \<le> MAX_ESCROW_SLOTS" "MIN_EXPIRY_BUFFER \<le> saturating_sub expiry now"
      "da_provider acc \<noteq> replicate 32 0" "da_provider acc \<noteq> da_agent acc"
    and t1: "cpi_transfer spl ?g (da_mint acc) ?v (da_agent acc) amount dec t = Inr t1"
    and st': "tokens st' = t1" "escrows st' = (escrows st)(da_escrow acc \<mapsto>
       \<lparr>es_agent = da_agent acc, es_provider = da_provider acc, es_mint = da_mint acc,
        es_amount = amount, es_service_id = sid, es_expiry_slot = expiry, es_bump = bump\<rparr>)"
    by (auto simp: deposit_def and_then_Inr_iff)
  from c obtain a where signer: "da_agent acc \<in> set (da_signers acc)"
    and a: "tok_account spl (tokens st) ?g = Some a" "ta_owner a = da_agent acc"
    and addr: "find_program_address (pe_crypto pe) (escrow_seeds (da_agent acc) sid) (pe_program_id pe)
       = Some (da_escrow acc, bump)" "escrows st (da_escrow acc) = None"
    and t: "associated_token_init spl pe ?v (da_mint acc) (da_escrow acc) (tokens st) = Inr t"
    and mint: "da_mint acc = pe_usdc_mint pe"
    by (auto simp: deposit_constraints_def and_then_Inr_iff)
  note G = associated_token_init_ok [OF laws t]
  have gt: "tok_account spl t ?g = Some a" using G(5) a(1) by blast
  have ne: "?v \<noteq> ?g" using G(1) gt a(2) signer pda by auto
  note T1 = owned_transfer [OF laws t1 gt a(2)]
  from G(1) obtain v0 where v0: "tok_account spl t ?v = Some v0" "ta_mint v0 = da_mint acc"
    "ta_owner v0 = da_escrow acc" by blast
  with T1(3) [OF ne] obtain v where v: "tok_account spl t1 ?v = Some v"
    "ta_mint v = da_mint acc" "ta_owner v = da_escrow acc"
    unfolding keeps_def by auto
  have range: "unat now + 50 \<le> unat expiry" "unat expiry \<le> unat now + 216000"
    using guards(2-4) by (auto simp: word_le_nat_alt unat_saturating_sub MAX_ESCROW_SLOTS_def
        MIN_EXPIRY_BUFFER_def word_less_nat_alt)
  show thesis
  proof (rule that [OF addr(2) signer guards(1) range guards(5,6) mint addr(1) a _ _ ne G(2) _ v(3,2)
        _ st'(2)])
    show "keeps (tok_account spl (tokens st)) k (tok_account spl (tokens st'))" if "k \<noteq> ?g" for k
      using keeps_trans [OF G(4) T1(3) [OF that]] by (simp add: st')
  qed (use T1(1,2) v(1) G(3) in \<open>simp_all add: st' b_def\<close>)
qed

section \<open>The abstract escrow\<close>

text \<open>
  The contract the program implements: agreements without addresses of derivation, balances as
  natural numbers, and the instruction either disabled (\<open>None\<close>) or moving exactly the money it
  should.
\<close>

record agreement =
  ag_agent :: pubkey
  ag_provider :: pubkey
  ag_amount :: nat
  ag_service :: bytes
  ag_expiry :: nat

record escrow_spec =
  sp_live :: "pubkey \<Rightarrow> agreement option"
  sp_balance :: "pubkey \<Rightarrow> nat"

definition agreement_of :: "escrow \<Rightarrow> agreement" where
  "agreement_of e = \<lparr>ag_agent = es_agent e, ag_provider = es_provider e, ag_amount = unat (es_amount e),
     ag_service = es_service_id e, ag_expiry = unat (es_expiry_slot e)\<rparr>"

definition abs_state :: "'t spl \<Rightarrow> 't program_state \<Rightarrow> escrow_spec" where
  "abs_state spl st = \<lparr>sp_live = \<lambda>k. map_option agreement_of (escrows st k),
     sp_balance = balance (tok_account spl (tokens st))\<rparr>"

definition spec_deposit ::
  "nat \<Rightarrow> deposit_accounts \<Rightarrow> nat \<Rightarrow> bytes \<Rightarrow> nat \<Rightarrow> escrow_spec \<Rightarrow> escrow_spec option" where
  "spec_deposit now acc amount sid expiry s =
    (if sp_live s (da_escrow acc) = None \<and> da_agent acc \<in> set (da_signers acc)
        \<and> da_provider acc \<noteq> da_agent acc \<and> 0 < amount \<and> amount \<le> sp_balance s (da_agent_token acc)
        \<and> now + 50 \<le> expiry \<and> expiry \<le> now + 216000
     then Some \<lparr>sp_live = (sp_live s)(da_escrow acc \<mapsto> \<lparr>ag_agent = da_agent acc,
            ag_provider = da_provider acc, ag_amount = amount, ag_service = sid, ag_expiry = expiry\<rparr>),
          sp_balance = pay (da_agent_token acc) (da_vault acc) amount (sp_balance s)\<rparr>
     else None)"

definition spec_claim ::
  "nat \<Rightarrow> claim_accounts \<Rightarrow> nat \<Rightarrow> escrow_spec \<Rightarrow> escrow_spec option" where
  "spec_claim now acc actual s =
    (case sp_live s (ca_escrow acc) of None \<Rightarrow> None | Some g \<Rightarrow>
      if ag_provider g \<in> set (ca_signers acc) \<and> now < ag_expiry g \<and> 0 < actual \<and> actual \<le> ag_amount g
      then Some \<lparr>sp_live = (sp_live s)(ca_escrow acc := None),
          sp_balance = pay (ca_vault acc) (ca_agent_token acc) (sp_balance s (ca_vault acc) - actual)
            (pay (ca_vault acc) (ca_provider_token acc) actual (sp_balance s))\<rparr>
      else None)"

definition spec_refund :: "nat \<Rightarrow> refund_accounts \<Rightarrow> escrow_spec \<Rightarrow> escrow_spec option" where
  "spec_refund now acc s =
    (case sp_live s (ra_escrow acc) of None \<Rightarrow> None | Some g \<Rightarrow>
      if ag_agent g \<in> set (ra_signers acc) \<and> ag_expiry g \<le> now
      then Some \<lparr>sp_live = (sp_live s)(ra_escrow acc := None),
          sp_balance = pay (ra_vault acc) (ra_agent_token acc) (sp_balance s (ra_vault acc))
            (sp_balance s)\<rparr>
      else None)"

primrec spec_process :: "nat \<Rightarrow> escrow_ix \<Rightarrow> escrow_spec \<Rightarrow> escrow_spec option" where
  "spec_process now (Ix_deposit acc amount sid expiry) =
     spec_deposit now acc (unat amount) sid (unat expiry)"
| "spec_process now (Ix_claim acc actual) = spec_claim now acc (unat actual)"
| "spec_process now (Ix_refund acc) = spec_refund now acc"

lemma deposit_refines:
  assumes "spl_laws spl" "deposit spl pe now acc amount sid expiry st = Inr st'"
    "da_escrow acc \<notin> set (da_signers acc)"
  shows "spec_deposit (unat now) acc (unat amount) sid (unat expiry) (abs_state spl st)
    = Some (abs_state spl st')"
proof (rule deposit_ok [OF assms])
  assume "0 < amount"
  then have "0 < unat amount" by (simp add: word_less_nat_alt)
  then show ?thesis if "escrows st (da_escrow acc) = None" "da_agent acc \<in> set (da_signers acc)"
    "unat now + 50 \<le> unat expiry" "unat expiry \<le> unat now + 216000"
    "da_provider acc \<noteq> da_agent acc"
    "unat amount \<le> balance (tok_account spl (tokens st)) (da_agent_token acc)"
    "balance (tok_account spl (tokens st')) = pay (da_agent_token acc) (da_vault acc) (unat amount)
       (balance (tok_account spl (tokens st)))"
    "escrows st' = (escrows st)(da_escrow acc \<mapsto>
       \<lparr>es_agent = da_agent acc, es_provider = da_provider acc, es_mint = da_mint acc,
        es_amount = amount, es_service_id = sid, es_expiry_slot = expiry, es_bump = bump\<rparr>)" for bump
    using that by (simp add: spec_deposit_def abs_state_def agreement_of_def fun_eq_iff)
qed

lemma claim_refines:
  assumes "spl_laws spl" "claim spl pe now acc actual st = Inr st'"
    "ca_escrow acc \<notin> set (ca_signers acc)"
  shows "spec_claim (unat now) acc (unat actual) (abs_state spl st) = Some (abs_state spl st')"
proof -
  obtain e where "escrows st (ca_escrow acc) = Some e" "es_provider e \<in> set (ca_signers acc)"
    "0 < actual" "actual \<le> es_amount e" "now < es_expiry_slot e"
    "balance (tok_account spl (tokens st')) = pay (ca_vault acc) (ca_agent_token acc)
        (balance (tok_account spl (tokens st)) (ca_vault acc) - unat actual)
        (pay (ca_vault acc) (ca_provider_token acc) (unat actual)
          (balance (tok_account spl (tokens st))))"
    "escrows st' = (escrows st)(ca_escrow acc := None)"
    by (rule claim_ok [OF assms])
  then show ?thesis
    by (simp add: spec_claim_def abs_state_def agreement_of_def fun_eq_iff word_less_nat_alt
        word_le_nat_alt)
qed

lemma refund_refines:
  assumes "spl_laws spl" "refund spl pe now acc st = Inr st'"
  shows "spec_refund (unat now) acc (abs_state spl st) = Some (abs_state spl st')"
proof -
  obtain e where "escrows st (ra_escrow acc) = Some e" "es_agent e \<in> set (ra_signers acc)"
    "es_expiry_slot e \<le> now"
    "balance (tok_account spl (tokens st')) = pay (ra_vault acc) (ra_agent_token acc)
        (balance (tok_account spl (tokens st)) (ra_vault acc)) (balance (tok_account spl (tokens st)))"
    "escrows st' = (escrows st)(ra_escrow acc := None)"
    by (rule refund_ok [OF assms])
  then show ?thesis
    by (simp add: spec_refund_def abs_state_def agreement_of_def fun_eq_iff word_le_nat_alt)
qed

text \<open>
  C5. The three instructions of the escrow program refine the abstract escrow. Whenever an
  instruction succeeds, the abstract step is enabled and leads to the same agreements and
  balances: a deposit is signed by its agent, expires between 50 and 216000 slots from now without
  wrap-around and moves exactly its amount into the vault; a claim is signed by the agreement's
  provider strictly before expiry, pays the provider exactly the claimed amount, which is at most
  the deposit, and the agent everything else the vault held; a refund is signed by the agent at or
  after expiry and returns the whole vault. No other balance and no other agreement changes. The
  token program is assumed to behave as documented, and the escrow address, which belongs to the
  program, not to sign the transaction itself.
\<close>
theorem escrow_program_refines_spec:
  assumes "spl_laws spl" and "process spl pe now ix st = Inr st'"
    and "ix_escrow ix \<notin> set (ix_signers ix)"
  shows "spec_process (unat now) ix (abs_state spl st) = Some (abs_state spl st')"
  using assms by (cases ix) (auto intro: deposit_refines claim_refines refund_refines)

subsection \<open>A concrete token ledger\<close>

definition map_spl :: "(pubkey \<Rightarrow> u8 option) \<Rightarrow> accounts spl" where
  "map_spl decs = \<lparr>tok_account = \<lambda>m. m,
     tok_transfer_checked = \<lambda>src mint dst authority amount dec m.
       (case m src of None \<Rightarrow> None | Some a \<Rightarrow>
          if ta_owner a = authority then transferred decs src mint dst amount dec m else None),
     tok_close = \<lambda>k authority m.
       (case m k of None \<Rightarrow> None | Some a \<Rightarrow>
          if ta_owner a = authority \<and> ta_close_authority a = None \<and> ta_amount a = 0
          then Some (m(k := None)) else None),
     tok_create = \<lambda>k mint owner m.
       (if m k = None then Some (m(k \<mapsto> fresh_account mint owner)) else None),
     tok_decimals = decs\<rparr>"

lemma map_spl_laws: "spl_laws (map_spl decs)"
  unfolding spl_laws_def
  by (auto simp: map_spl_def option.map_ident split: option.splits if_splits)

definition mini_env :: program_env where
  "mini_env = \<lparr>pe_crypto = \<lparr>sha256 = take 32, decompresses = \<lambda>_. False, bs58_decode = \<lambda>_. None,
      bs58_encode = \<lambda>_. []\<rparr>, pe_program_id = replicate 32 4, pe_usdc_mint = replicate 32 3\<rparr>"

definition mini_spl :: "accounts spl" where
  "mini_spl = map_spl [replicate 32 3 \<mapsto> 6]"

abbreviation k_agent :: pubkey where "k_agent \<equiv> replicate 32 1"
abbreviation k_provider :: pubkey where "k_provider \<equiv> replicate 32 2"
abbreviation k_usdc :: pubkey where "k_usdc \<equiv> replicate 32 3"

definition k_escrow :: pubkey where
  "k_escrow = ascii ''escrow'' @ replicate 26 1"

lemma k_escrow_ne [simp]:
  "k_escrow \<noteq> replicate 32 c" "replicate 32 c \<noteq> k_escrow"
proof -
  have "k_escrow ! 0 \<noteq> k_escrow ! 1" by (simp add: k_escrow_def ascii_def)
  moreover have "replicate 32 c ! 0 = (replicate 32 c ! 1 :: u8)" by simp
  ultimately show "k_escrow \<noteq> replicate 32 c" "replicate 32 c \<noteq> k_escrow"
    by metis+
qed

lemma mini_find:
  "find_program_address (pe_crypto mini_env) (escrow_seeds k_agent sid) (pe_program_id mini_env)
     = Some (k_escrow, 255)"
  by (simp add: find_program_address_def find_program_address_from_numeral pda_hash_def mini_env_def
      is_on_ed25519_curve_def Let_def escrow_seeds_def k_escrow_def take_replicate)

lemma mini_ata: "length w = 32 \<Longrightarrow> ata_ok mini_env w k addr \<longleftrightarrow> addr = w"
  by (auto simp: ata_ok_def derive_ata_def derive_ata_loop_numeral mini_env_def is_on_ed25519_curve_def)

lemma length_k_escrow [simp]: "length k_escrow = 32"
  by (simp add: k_escrow_def)

lemma mini_escrow_address:
  "es_agent e = k_agent \<Longrightarrow> escrow_address_ok mini_env k_escrow e"
  by (simp add: escrow_address_ok_def pda_hash_def mini_env_def is_on_ed25519_curve_def
      escrow_seeds_def k_escrow_def take_replicate)

lemma mini_spl_simps [simp]:
  "tok_account mini_spl m = m" "tok_decimals mini_spl k_usdc = Some 6"
  "tok_transfer_checked mini_spl src mint dst authority amount dec m =
     (case m src of None \<Rightarrow> None | Some a \<Rightarrow>
        if ta_owner a = authority then transferred [k_usdc \<mapsto> 6] src mint dst amount dec m else None)"
  "tok_close mini_spl k authority m =
     (case m k of None \<Rightarrow> None | Some a \<Rightarrow>
        if ta_owner a = authority \<and> ta_close_authority a = None \<and> ta_amount a = 0
        then Some (m(k := None)) else None)"
  "tok_create mini_spl k mint owner m =
     (if m k = None then Some (m(k \<mapsto> fresh_account mint owner)) else None)"
  by (simp_all add: mini_spl_def map_spl_def)

definition usdc_account :: "pubkey \<Rightarrow> u64 \<Rightarrow> token_account" where
  "usdc_account owner n = \<lparr>ta_mint = k_usdc, ta_owner = owner, ta_amount = n, ta_frozen = False,
     ta_close_authority = None\<rparr>"

definition mini_st0 :: "accounts program_state" where
  "mini_st0 = \<lparr>escrows = Map.empty, tokens = [k_agent \<mapsto> usdc_account k_agent 100], emitted = []\<rparr>"

definition mini_deposit :: deposit_accounts where
  "mini_deposit = \<lparr>da_signers = [k_agent], da_agent = k_agent, da_provider = k_provider,
     da_mint = k_usdc, da_escrow = k_escrow, da_agent_token = k_agent, da_vault = k_escrow\<rparr>"

definition mini_escrow :: escrow where
  "mini_escrow = \<lparr>es_agent = k_agent, es_provider = k_provider, es_mint = k_usdc, es_amount = 60,
     es_service_id = replicate 32 9, es_expiry_slot = 1100, es_bump = 255\<rparr>"

definition mini_st1 :: "accounts program_state" where
  "mini_st1 = \<lparr>escrows = [k_escrow \<mapsto> mini_escrow],
     tokens = [k_agent \<mapsto> usdc_account k_agent 40, k_escrow \<mapsto> usdc_account k_escrow 60],
     emitted = [DepositEvent k_agent k_provider 60 (replicate 32 9) 1100]\<rparr>"

lemma mini_deposit_runs:
  "process mini_spl mini_env 1000 (Ix_deposit mini_deposit 60 (replicate 32 9) 1100) mini_st0
   = Inr mini_st1"
proof -
  have "deposit_constraints mini_spl mini_env mini_deposit (replicate 32 9) mini_st0
    = Inr (255, 6, [k_agent \<mapsto> usdc_account k_agent 100, k_escrow \<mapsto> usdc_account k_escrow 0])"
    by (simp add: deposit_constraints_def mini_deposit_def mini_find mini_st0_def require_def
        load_token_account_def associated_token_init_def associated_token_def mini_ata
        fresh_account_def usdc_account_def fun_upd_twist)
      (simp add: mini_env_def)
  then show ?thesis
    by (simp add: deposit_def require_def saturating_sub_def MAX_ESCROW_SLOTS_def
        MIN_EXPIRY_BUFFER_def mini_deposit_def cpi_transfer_def transferred_def mini_st1_def
        mini_st0_def mini_escrow_def usdc_account_def fun_upd_twist)
qed

theorem escrow_program_refines_spec_witness:
  "process mini_spl mini_env 1000 (Ix_deposit mini_deposit 60 (replicate 32 9) 1100) mini_st0
     = Inr mini_st1
   \<and> spec_process 1000 (Ix_deposit mini_deposit 60 (replicate 32 9) 1100) (abs_state mini_spl mini_st0)
     = Some (abs_state mini_spl mini_st1)"
  using escrow_program_refines_spec [of mini_spl mini_env 1000
      "Ix_deposit mini_deposit 60 (replicate 32 9) 1100" mini_st0 mini_st1] mini_deposit_runs
  by (simp add: mini_spl_def map_spl_laws mini_deposit_def)

section \<open>Solvency\<close>

text \<open>
  The chain around the program: instructions in any order and by anyone, slots passing, and any
  activity of other programs on the token ledger. A token account is debited or closed only under
  its owner's authority, and an escrow address acts only inside this program, so foreign activity
  leaves the vaults of live escrows in place with at least their balance: others can only add
  tokens to them.
\<close>

definition foreign_ok :: "'t spl \<Rightarrow> program_env \<Rightarrow> 't program_state \<Rightarrow> 't \<Rightarrow> bool" where
  "foreign_ok spl pe st t' \<longleftrightarrow> (\<forall>addr e vault a.
     escrows st addr = Some e \<and> ata_ok pe addr (es_mint e) vault
       \<and> tok_account spl (tokens st) vault = Some a \<and> ta_owner a = addr \<longrightarrow>
     (\<exists>a'. tok_account spl t' vault = Some a' \<and> ta_owner a' = addr \<and> ta_mint a' = ta_mint a
        \<and> ta_amount a \<le> ta_amount a'))"

definition pda_silent :: "escrow_ix \<Rightarrow> 't program_state \<Rightarrow> bool" where
  "pda_silent ix st \<longleftrightarrow> (\<forall>k \<in> set (ix_signers ix). escrows st k = None \<and> k \<noteq> ix_escrow ix)"

inductive chain_step ::
  "'t spl \<Rightarrow> program_env \<Rightarrow> u64 \<times> 't program_state \<Rightarrow> u64 \<times> 't program_state \<Rightarrow> bool"
  for spl pe where
  instruction: "process spl pe now ix st = Inr st' \<Longrightarrow> pda_silent ix st \<Longrightarrow>
     chain_step spl pe (now, st) (now, st')"
| slot: "now \<le> now' \<Longrightarrow> chain_step spl pe (now, st) (now', st)"
| foreign: "foreign_ok spl pe st t' \<Longrightarrow> chain_step spl pe (now, st) (now, st\<lparr>tokens := t'\<rparr>)"

inductive_cases chain_stepE: "chain_step spl pe s s'"

definition chain_init :: "u64 \<times> 't program_state \<Rightarrow> bool" where
  "chain_init s \<longleftrightarrow> escrows (snd s) = Map.empty"

definition backed ::
  "'t spl \<Rightarrow> program_env \<Rightarrow> u64 \<Rightarrow> 't \<Rightarrow> pubkey \<Rightarrow> escrow \<Rightarrow> bool" where
  "backed spl pe now t addr e \<longleftrightarrow>
     es_mint e = pe_usdc_mint pe \<and> escrow_address_ok pe addr e \<and> 0 < es_amount e
     \<and> es_provider e \<noteq> es_agent e \<and> addr \<noteq> es_agent e
     \<and> unat (es_expiry_slot e) \<le> unat now + 216000
     \<and> (\<exists>vault a. ata_ok pe addr (es_mint e) vault \<and> tok_account spl t vault = Some a
          \<and> ta_owner a = addr \<and> ta_mint a = es_mint e \<and> es_amount e \<le> ta_amount a)"

definition chain_inv ::
  "'t spl \<Rightarrow> program_env \<Rightarrow> u64 \<times> 't program_state \<Rightarrow> bool" where
  "chain_inv spl pe s \<longleftrightarrow> (spl_laws spl \<longrightarrow>
     (\<forall>addr e. escrows (snd s) addr = Some e \<longrightarrow> backed spl pe (fst s) (tokens (snd s)) addr e))"

text \<open>An instruction debits only accounts of its signers and the vault of its own escrow.\<close>

lemma process_keeps:
  assumes laws: "spl_laws spl" and ok: "process spl pe now ix st = Inr st'"
    and pda: "ix_escrow ix \<notin> set (ix_signers ix)"
    and a: "tok_account spl (tokens st) k = Some a"
      "ta_owner a \<notin> set (ix_signers ix)" "ta_owner a \<noteq> ix_escrow ix"
  shows "keeps (tok_account spl (tokens st)) k (tok_account spl (tokens st'))"
proof (cases ix)
  case (Ix_deposit acc amount sid expiry)
  with ok pda have ok': "deposit spl pe now acc amount sid expiry st = Inr st'"
    "da_escrow acc \<notin> set (da_signers acc)" by simp_all
  show ?thesis
  proof (rule deposit_ok [OF laws ok'])
    fix g
    assume "tok_account spl (tokens st) (da_agent_token acc) = Some g" "ta_owner g = da_agent acc"
      "da_agent acc \<in> set (da_signers acc)"
      and keeps: "\<And>k. k \<noteq> da_agent_token acc \<Longrightarrow>
        keeps (tok_account spl (tokens st)) k (tok_account spl (tokens st'))"
    then show ?thesis using a Ix_deposit by (intro keeps) auto
  qed
next
  case (Ix_claim acc actual)
  with ok pda have ok': "claim spl pe now acc actual st = Inr st'"
    "ca_escrow acc \<notin> set (ca_signers acc)" by simp_all
  show ?thesis
  proof (rule claim_ok [OF laws ok'])
    fix v
    assume "tok_account spl (tokens st) (ca_vault acc) = Some v" "ta_owner v = ca_escrow acc"
      and keeps: "\<And>k. k \<noteq> ca_vault acc \<Longrightarrow>
        keeps (tok_account spl (tokens st)) k (tok_account spl (tokens st'))"
    then show ?thesis using a Ix_claim by (intro keeps) auto
  qed
next
  case (Ix_refund acc)
  with ok have ok': "refund spl pe now acc st = Inr st'" by simp
  show ?thesis
  proof (rule refund_ok [OF laws ok'])
    fix v
    assume "tok_account spl (tokens st) (ra_vault acc) = Some v" "ta_owner v = ra_escrow acc"
      and keeps: "\<And>k. k \<noteq> ra_vault acc \<Longrightarrow>
        keeps (tok_account spl (tokens st)) k (tok_account spl (tokens st'))"
    then show ?thesis using a Ix_refund by (intro keeps) auto
  qed
qed

lemma claim_escrows:
  "claim spl pe now acc actual st = Inr st' \<Longrightarrow> escrows st' = (escrows st)(ca_escrow acc := None)"
  by (drule claim_body_ok) auto

lemma refund_escrows:
  "refund spl pe now acc st = Inr st' \<Longrightarrow> escrows st' = (escrows st)(ra_escrow acc := None)"
  by (auto simp: refund_def and_then_Inr_iff)

lemma deposit_escrows:
  "deposit spl pe now acc amount sid expiry st = Inr st' \<Longrightarrow>
   \<exists>e. escrows st' = (escrows st)(da_escrow acc \<mapsto> e)"
  by (auto simp: deposit_def and_then_Inr_iff)

lemma process_escrows:
  assumes "process spl pe now ix st = Inr st'" "addr \<noteq> ix_escrow ix"
  shows "escrows st' addr = escrows st addr"
  using assms by (cases ix) (auto dest: claim_escrows refund_escrows deposit_escrows)

lemma deposit_backed:
  assumes laws: "spl_laws spl" and ok: "deposit spl pe now acc amount sid expiry st = Inr st'"
    and pda: "da_escrow acc \<notin> set (da_signers acc)"
    and e: "escrows st' (da_escrow acc) = Some e"
  shows "backed spl pe now (tokens st') (da_escrow acc) e"
proof (rule deposit_ok [OF laws ok pda])
  fix bump a v
  let ?b = "balance (tok_account spl (tokens st))" and ?g = "da_agent_token acc"
    and ?v = "da_vault acc"
  assume facts: "da_agent acc \<in> set (da_signers acc)" "0 < amount" "unat expiry \<le> unat now + 216000"
    "da_provider acc \<noteq> da_agent acc" "da_mint acc = pe_usdc_mint pe"
    "find_program_address (pe_crypto pe) (escrow_seeds (da_agent acc) sid) (pe_program_id pe)
       = Some (da_escrow acc, bump)"
    "ata_ok pe (da_escrow acc) (da_mint acc) ?v"
    "tok_account spl (tokens st') ?v = Some v" "ta_owner v = da_escrow acc" "ta_mint v = da_mint acc"
    and esc: "escrows st' = (escrows st)(da_escrow acc \<mapsto>
       \<lparr>es_agent = da_agent acc, es_provider = da_provider acc, es_mint = da_mint acc,
        es_amount = amount, es_service_id = sid, es_expiry_slot = expiry, es_bump = bump\<rparr>)"
    and bal: "balance (tok_account spl (tokens st')) = pay ?g ?v (unat amount) ?b" "?v \<noteq> ?g"
  from bal(1) have "balance (tok_account spl (tokens st')) ?v = pay ?g ?v (unat amount) ?b ?v"
    by simp
  with bal(2) facts(8) have amt: "amount \<le> ta_amount v"
    by (simp add: balance_def pay_def word_le_nat_alt)
  from find_program_address_from_Some [OF facts(6) [unfolded find_program_address_def]]
  have "escrow_address_ok pe (da_escrow acc) e"
    using e esc by (auto simp: escrow_address_ok_def Let_def)
  then show ?thesis
    using facts amt e esc pda unfolding backed_def by auto
qed

lemma chain_inv_instruction:
  assumes laws: "spl_laws spl" and ok: "process spl pe now ix st = Inr st'"
    and silent: "pda_silent ix st" and inv: "chain_inv spl pe (now, st)"
    and e: "escrows st' addr = Some e"
  shows "backed spl pe now (tokens st') addr e"
proof (cases "addr = ix_escrow ix")
  case True
  have pda: "ix_escrow ix \<notin> set (ix_signers ix)" using silent by (auto simp: pda_silent_def)
  show ?thesis
  proof (cases ix)
    case (Ix_deposit acc amount sid expiry)
    then show ?thesis using deposit_backed [OF laws] ok pda e True by simp
  next
    case (Ix_claim acc actual)
    then show ?thesis using claim_escrows ok e True by fastforce
  next
    case (Ix_refund acc)
    then show ?thesis using refund_escrows ok e True by fastforce
  qed
next
  case False
  have pda: "ix_escrow ix \<notin> set (ix_signers ix)" using silent by (auto simp: pda_silent_def)
  from process_escrows [OF ok False] e have e0: "escrows st addr = Some e" by simp
  with inv laws have bkd: "backed spl pe now (tokens st) addr e" by (simp add: chain_inv_def)
  then obtain vault a where a: "ata_ok pe addr (es_mint e) vault"
    "tok_account spl (tokens st) vault = Some a" "ta_owner a = addr" "ta_mint a = es_mint e"
    "es_amount e \<le> ta_amount a"
    unfolding backed_def by blast
  have "addr \<notin> set (ix_signers ix)" using silent e0 by (auto simp: pda_silent_def)
  with process_keeps [OF laws ok pda a(2)] a(3) False
  obtain a' where "tok_account spl (tokens st') vault = Some a'" "ta_mint a' = ta_mint a"
    "ta_owner a' = ta_owner a" "ta_amount a \<le> ta_amount a'"
    using a(2) unfolding keeps_def by blast
  with a have "\<exists>vault a. ata_ok pe addr (es_mint e) vault \<and> tok_account spl (tokens st') vault = Some a
          \<and> ta_owner a = addr \<and> ta_mint a = es_mint e \<and> es_amount e \<le> ta_amount a"
    by (metis order_trans)
  with bkd show ?thesis unfolding backed_def by blast
qed

lemma chain_inv_step:
  assumes "chain_inv spl pe s" "chain_step spl pe s s'"
  shows "chain_inv spl pe s'"
  using assms(2)
proof cases
  case (instruction now ix st st')
  then show ?thesis using chain_inv_instruction assms(1) by (fastforce simp: chain_inv_def)
next
  case (slot now now' st)
  then show ?thesis using assms(1)
    by (fastforce simp: chain_inv_def backed_def word_le_nat_alt)
next
  case (foreign st t' now)
  have "backed spl pe now t' addr e"
    if laws: "spl_laws spl" and e: "escrows st addr = Some e" for addr e
  proof -
    from assms(1) that foreign have bkd: "backed spl pe now (tokens st) addr e"
      by (simp add: chain_inv_def)
    then obtain vault a where "ata_ok pe addr (es_mint e) vault"
      "tok_account spl (tokens st) vault = Some a" "ta_owner a = addr" "ta_mint a = es_mint e"
      "es_amount e \<le> ta_amount a"
      unfolding backed_def by blast
    moreover from this e foreign(3) obtain a' where "tok_account spl t' vault = Some a'"
      "ta_owner a' = addr" "ta_mint a' = ta_mint a" "ta_amount a \<le> ta_amount a'"
      unfolding foreign_ok_def by blast
    ultimately have "\<exists>vault a. ata_ok pe addr (es_mint e) vault \<and> tok_account spl t' vault = Some a
          \<and> ta_owner a = addr \<and> ta_mint a = es_mint e \<and> es_amount e \<le> ta_amount a"
      by (metis order_trans)
    with bkd show ?thesis unfolding backed_def by blast
  qed
  with foreign show ?thesis by (simp add: chain_inv_def)
qed

interpretation escrow_chain: inv_system chain_init "chain_step spl pe" "chain_inv spl pe"
  for spl :: "'t spl" and pe
proof
  show "chain_inv spl pe s" if "chain_init s" for s
    using that by (simp add: chain_init_def chain_inv_def)
qed (rule chain_inv_step)

lemma reachable_backed:
  assumes "spl_laws spl" and "reach chain_init (chain_step spl pe) (now, st)"
    and "escrows st addr = Some e"
  shows "backed spl pe now (tokens st) addr e"
  using escrow_chain.reach_inv [OF assms(2)] assms(1,3) by (simp add: chain_inv_def)

text \<open>
  C18. Every live escrow is solvent, whatever happened before. In every state the chain can reach
  through any sequence of instructions by any parties, passing slots and foreign token transfers,
  each live escrow is denominated in the accepted mint, has a provider other than its agent, lives
  at the program address of its own fields, expires at most 216000 slots from now, and its
  associated vault holds at least the deposited amount under the authority of that escrow alone.
\<close>
theorem live_escrows_solvent:
  assumes "spl_laws spl" and "reach chain_init (chain_step spl pe) (now, st)"
    and "escrows st addr = Some e"
  shows "es_mint e = pe_usdc_mint pe \<and> es_provider e \<noteq> es_agent e \<and> escrow_address_ok pe addr e
    \<and> 0 < es_amount e \<and> unat (es_expiry_slot e) \<le> unat now + 216000
    \<and> (\<exists>vault a. ata_ok pe addr (es_mint e) vault \<and> tok_account spl (tokens st) vault = Some a
         \<and> ta_owner a = addr \<and> ta_mint a = es_mint e \<and> es_amount e \<le> ta_amount a)"
  using reachable_backed [OF assms] unfolding backed_def by blast

lemma mini_reach: "reach chain_init (chain_step mini_spl mini_env) (1000, mini_st1)"
proof (rule reach_step)
  show "reach chain_init (chain_step mini_spl mini_env) (1000, mini_st0)"
    by (rule reach_init) (simp add: chain_init_def mini_st0_def)
  show "chain_step mini_spl mini_env (1000, mini_st0) (1000, mini_st1)"
    by (rule chain_step.instruction [OF mini_deposit_runs])
      (simp add: pda_silent_def mini_deposit_def mini_st0_def)
qed

theorem live_escrows_solvent_witness:
  "escrows mini_st1 k_escrow = Some mini_escrow
   \<and> (\<exists>vault a. ata_ok mini_env k_escrow k_usdc vault \<and> tokens mini_st1 vault = Some a
        \<and> ta_owner a = k_escrow \<and> 60 \<le> ta_amount a)"
proof -
  have e: "escrows mini_st1 k_escrow = Some mini_escrow" by (simp add: mini_st1_def)
  from live_escrows_solvent [OF _ mini_reach e] have
    "\<exists>vault a. ata_ok mini_env k_escrow (es_mint mini_escrow) vault
       \<and> tok_account mini_spl (tokens mini_st1) vault = Some a \<and> ta_owner a = k_escrow
       \<and> es_amount mini_escrow \<le> ta_amount a"
    by (auto simp: mini_spl_def map_spl_laws)
  with e show ?thesis by (simp add: mini_escrow_def)
qed

section \<open>Settlement is available\<close>

definition rent_covered :: "'t spl \<Rightarrow> bool" where
  "rent_covered spl \<longleftrightarrow> (\<forall>t k mint owner. tok_account spl t k = None \<longrightarrow>
     tok_create spl k mint owner t \<noteq> None)"

text \<open>The associated account of a wallet can take \<open>n\<close> tokens: it is absent, or usable.\<close>

definition receivable ::
  "'t spl \<Rightarrow> program_env \<Rightarrow> 't \<Rightarrow> pubkey \<Rightarrow> pubkey \<Rightarrow> pubkey \<Rightarrow> nat \<Rightarrow> bool" where
  "receivable spl pe t wallet mint k n \<longleftrightarrow> ata_ok pe wallet mint k \<and> n < 2 ^ 64 \<and>
     (case tok_account spl t k of None \<Rightarrow> True
      | Some a \<Rightarrow> ta_mint a = mint \<and> ta_owner a = wallet \<and> \<not> ta_frozen a
          \<and> unat (ta_amount a) + n < 2 ^ 64)"

lemma receivable_init:
  assumes laws: "spl_laws spl" and rent: "rent_covered spl" and r: "receivable spl pe t wallet mint k n"
  obtains t' a where "associated_token_init spl pe k mint wallet t = Inr t'"
    "tok_account spl t' k = Some a" "ta_mint a = mint" "ta_owner a = wallet" "\<not> ta_frozen a"
    "unat (ta_amount a) + n < 2 ^ 64" "\<And>j. j \<noteq> k \<Longrightarrow> tok_account spl t' j = tok_account spl t j"
proof (cases "tok_account spl t k")
  case None
  with rent obtain t' where t': "tok_create spl k mint wallet t = Some t'"
    unfolding rent_covered_def by blast
  note m = spl_create(2) [OF laws t']
  show thesis
    by (rule that [of t' "fresh_account mint wallet"])
      (use r None t' in \<open>simp_all add: associated_token_init_def m fresh_account_def require_def
        load_token_account_def receivable_def\<close>)
next
  case (Some a)
  show thesis
    by (rule that [of t a])
      (use r Some in \<open>simp_all add: associated_token_init_def require_def load_token_account_def
        receivable_def\<close>)
qed

lemma transfer_succeeds:
  assumes laws: "spl_laws spl"
    and a: "tok_account spl t src = Some a" "ta_mint a = mint" "\<not> ta_frozen a" "n \<le> ta_amount a"
    and b: "tok_account spl t dst = Some b" "ta_mint b = mint" "\<not> ta_frozen b"
      "unat (ta_amount b) + unat n < 2 ^ 64"
    and dec: "tok_decimals spl mint = Some dec" and ne: "src \<noteq> dst"
  shows "\<exists>t'. cpi_transfer spl src mint dst (ta_owner a) n dec t = Inr t' \<and>
    tok_account spl t' = (tok_account spl t)(src \<mapsto> a\<lparr>ta_amount := ta_amount a - n\<rparr>,
      dst \<mapsto> b\<lparr>ta_amount := ta_amount b + n\<rparr>)"
  using spl_transfer [OF laws a(1) refl, of mint dst n dec] a b dec ne
  by (auto simp: transferred_def cpi_transfer_def)

lemma optional_transfer_succeeds:
  assumes "spl_laws spl"
    and "tok_account spl t src = Some a" "ta_mint a = mint" "\<not> ta_frozen a" "n \<le> ta_amount a"
    and "tok_account spl t dst = Some b" "ta_mint b = mint" "\<not> ta_frozen b"
      "unat (ta_amount b) + unat n < 2 ^ 64"
    and "tok_decimals spl mint = Some dec" and "src \<noteq> dst"
  shows "\<exists>t'. (if 0 < n then cpi_transfer spl src mint dst (ta_owner a) n dec t else Inr t) = Inr t' \<and>
    tok_account spl t' = (tok_account spl t)(src \<mapsto> a\<lparr>ta_amount := ta_amount a - n\<rparr>,
      dst \<mapsto> b\<lparr>ta_amount := ta_amount b + n\<rparr>)"
proof (cases "0 < n")
  case True
  then show ?thesis using transfer_succeeds [OF assms] by simp
next
  case False
  then have "n = 0" by (simp add: word_gt_0)
  with assms(2,6) show ?thesis by (auto simp: fun_eq_iff)
qed

text \<open>The claim with its accounts filled in from the escrow.\<close>

definition claim_accounts_of :: "pubkey \<Rightarrow> escrow \<Rightarrow> pubkey \<Rightarrow> pubkey \<Rightarrow> pubkey \<Rightarrow> claim_accounts" where
  "claim_accounts_of addr e vault ptok gtok =
    \<lparr>ca_signers = [es_provider e], ca_escrow = addr, ca_agent = es_agent e,
     ca_provider = es_provider e, ca_mint = es_mint e, ca_vault = vault, ca_provider_token = ptok,
     ca_agent_token = gtok\<rparr>"

lemma claim_accounts_of_sel:
  "ca_escrow (claim_accounts_of addr e vault ptok gtok) = addr"
  "ca_mint (claim_accounts_of addr e vault ptok gtok) = es_mint e"
  "ca_vault (claim_accounts_of addr e vault ptok gtok) = vault"
  "ca_provider_token (claim_accounts_of addr e vault ptok gtok) = ptok"
  "ca_agent_token (claim_accounts_of addr e vault ptok gtok) = gtok"
  by (simp_all add: claim_accounts_of_def)

lemma claim_payout_succeeds:
  assumes laws: "spl_laws spl" and dec: "tok_decimals spl mint = Some dec"
    and v: "tok_account spl t v = Some a" "ta_mint a = mint" "\<not> ta_frozen a"
      "ta_close_authority a = None"
    and p: "tok_account spl t p = Some pa" "ta_mint pa = mint" "\<not> ta_frozen pa"
      "unat (ta_amount pa) + unat actual < 2 ^ 64"
    and g: "tok_account spl t g = Some ga" "ta_mint ga = mint" "\<not> ta_frozen ga"
      "unat (ta_amount ga) + unat (ta_amount a) < 2 ^ 64"
    and ne: "v \<noteq> p" "v \<noteq> g" "p \<noteq> g"
    and le: "actual \<le> amount" "amount \<le> ta_amount a"
  shows "\<exists>t1 t2 a2 t3 t4. cpi_transfer spl v mint p (ta_owner a) actual dec t = Inr t1
    \<and> (if 0 < amount - actual then cpi_transfer spl v mint g (ta_owner a) (amount - actual) dec t1
        else Inr t1) = Inr t2
    \<and> tok_account spl t2 v = Some a2
    \<and> (if 0 < ta_amount a2 then cpi_transfer spl v mint g (ta_owner a) (ta_amount a2) dec t2
        else Inr t2) = Inr t3
    \<and> cpi_close spl v (ta_owner a) t3 = Inr t4"
proof -
  define a1 where "a1 = a\<lparr>ta_amount := ta_amount a - actual\<rparr>"
  define g1 where "g1 = ga\<lparr>ta_amount := ta_amount ga + (amount - actual)\<rparr>"
  define a2 where "a2 = a1\<lparr>ta_amount := ta_amount a1 - (amount - actual)\<rparr>"
  have n: "unat actual \<le> unat amount" "unat amount \<le> unat (ta_amount a)"
    using le by (simp_all add: word_le_nat_alt)
  have n1: "unat (ta_amount a - actual) = unat (ta_amount a) - unat actual"
    "unat (amount - actual) = unat amount - unat actual"
    using le order_trans [OF le] by (simp_all add: unat_sub_u64)
  have le1: "amount - actual \<le> ta_amount a1"
    using n n1 by (simp add: a1_def word_le_nat_alt)
  have a2n: "unat (ta_amount a2) = unat (ta_amount a) - unat amount"
    using le1 n n1 by (simp add: a2_def unat_sub_u64) (simp add: a1_def n1)
  have g1n: "unat (ta_amount g1) = unat (ta_amount ga) + (unat amount - unat actual)"
    using g(4) n n1 by (simp add: g1_def unat_add_u64)
  obtain t1 where t1: "cpi_transfer spl v mint p (ta_owner a) actual dec t = Inr t1"
    "tok_account spl t1 = (tok_account spl t)(v \<mapsto> a1, p \<mapsto> pa\<lparr>ta_amount := ta_amount pa + actual\<rparr>)"
    using transfer_succeeds [OF laws v(1-3) order_trans [OF le] p dec ne(1)] by (auto simp: a1_def)
  have at1: "tok_account spl t1 v = Some a1" "tok_account spl t1 g = Some ga"
    using t1(2) ne g(1) by simp_all
  have own: "ta_owner a1 = ta_owner a" "ta_mint a1 = mint" "\<not> ta_frozen a1" "ta_owner a2 = ta_owner a"
    "ta_mint a2 = mint" "\<not> ta_frozen a2" "ta_close_authority a2 = None"
    "ta_mint g1 = mint" "\<not> ta_frozen g1"
    using v g by (simp_all add: a1_def a2_def g1_def)
  have room: "unat (ta_amount ga) + unat (amount - actual) < 2 ^ 64" using g(4) n n1 by simp
  obtain t2 where t2: "(if 0 < amount - actual then cpi_transfer spl v mint g (ta_owner a)
        (amount - actual) dec t1 else Inr t1) = Inr t2"
    "tok_account spl t2 = (tok_account spl t1)(v \<mapsto> a2, g \<mapsto> g1)"
    using optional_transfer_succeeds [OF laws at1(1) own(2,3) le1 at1(2) g(2,3) room dec ne(2)]
    unfolding own(1) a2_def [symmetric] g1_def [symmetric] by blast
  have at2: "tok_account spl t2 v = Some a2" "tok_account spl t2 g = Some g1"
    using t2(2) ne by simp_all
  have room2: "unat (ta_amount g1) + unat (ta_amount a2) < 2 ^ 64" using g(4) n a2n g1n by simp
  obtain t3 where t3: "(if 0 < ta_amount a2 then cpi_transfer spl v mint g (ta_owner a)
        (ta_amount a2) dec t2 else Inr t2) = Inr t3"
    "tok_account spl t3 = (tok_account spl t2)(v \<mapsto> a2\<lparr>ta_amount := 0\<rparr>,
       g \<mapsto> g1\<lparr>ta_amount := ta_amount g1 + ta_amount a2\<rparr>)"
    using optional_transfer_succeeds [OF laws at2(1) own(5,6) order_refl at2(2) own(8,9) room2 dec ne(2)]
    unfolding own(4) diff_self by blast
  have "tok_account spl t3 v = Some (a2\<lparr>ta_amount := 0\<rparr>)" using t3(2) ne by simp
  from spl_closes [OF laws this] obtain t4 where "cpi_close spl v (ta_owner a) t3 = Inr t4"
    using own by (auto simp: cpi_close_def)
  with t1(1) t2(1) at2(1) t3(1) show ?thesis by blast
qed

lemma claim_succeeds:
  assumes "claim_constraints spl pe acc st = Inr (e, dec, t)"
    "actual \<le> es_amount e" "0 < actual" "now < es_expiry_slot e"
    "ca_provider_token acc \<noteq> ca_agent_token acc"
    "cpi_transfer spl (ca_vault acc) (ca_mint acc) (ca_provider_token acc) (ca_escrow acc) actual dec t
        = Inr t1"
    "(if 0 < es_amount e - actual then cpi_transfer spl (ca_vault acc) (ca_mint acc)
          (ca_agent_token acc) (ca_escrow acc) (es_amount e - actual) dec t1 else Inr t1) = Inr t2"
    "tok_account spl t2 (ca_vault acc) = Some a2"
    "(if 0 < ta_amount a2 then cpi_transfer spl (ca_vault acc) (ca_mint acc)
          (ca_agent_token acc) (ca_escrow acc) (ta_amount a2) dec t2 else Inr t2) = Inr t3"
    "cpi_close spl (ca_vault acc) (ca_escrow acc) t3 = Inr t4"
  shows "\<exists>st'. claim spl pe now acc actual st = Inr st'"
  unfolding claim_def Let_def assms(1) and_then_simps prod.case
  by (simp only: and_then_simps assms require_def if_True checked_sub_def ok_or_simps
      load_token_account_def sum.inject ex_simps simp_thms)

text \<open>
  C30. The provider can always settle in time. In every reachable state, before the expiry slot of a
  live escrow, a claim of any positive amount up to the deposit, signed by the provider and naming
  the associated accounts, succeeds: tokens that third parties sent to the vault do not block it,
  and neither does an agent who closed its token account. The vault and the two receiving accounts
  must not be frozen, rent must be paid, and balances must stay below the 64-bit limit.
\<close>
theorem claim_available:
  assumes laws: "spl_laws spl" and rent: "rent_covered spl"
    and reach: "reach chain_init (chain_step spl pe) (now, st)"
    and e: "escrows st addr = Some e" and in_time: "now < es_expiry_slot e"
    and amount: "0 < actual" "actual \<le> es_amount e"
    and mint: "tok_decimals spl (es_mint e) = Some dec"
    and vault: "ata_ok pe addr (es_mint e) vault" "tok_account spl (tokens st) vault = Some a"
      "\<not> ta_frozen a" "ta_close_authority a = None"
    and ptok: "receivable spl pe (tokens st) (es_provider e) (es_mint e) ptok (unat actual)"
    and gtok: "receivable spl pe (tokens st) (es_agent e) (es_mint e) gtok (unat (ta_amount a))"
    and ne: "ptok \<noteq> gtok" "es_provider e \<noteq> addr"
  shows "\<exists>st'. claim spl pe now (claim_accounts_of addr e vault ptok gtok) actual st = Inr st'"
proof -
  from reachable_backed [OF laws reach e] obtain va where b: "escrow_address_ok pe addr e"
    "addr \<noteq> es_agent e" "tok_account spl (tokens st) vault = Some va" "ta_owner va = addr"
    "ta_mint va = es_mint e" "es_amount e \<le> ta_amount va"
    using vault(1) by (auto simp: backed_def ata_ok_def)
  then have a: "ta_owner a = addr" "ta_mint a = es_mint e" "es_amount e \<le> ta_amount a"
    using vault(2) by simp_all
  have vne: "vault \<noteq> ptok" "vault \<noteq> gtok"
    using ptok gtok vault(2) a(1) ne(2) b(2) by (auto simp: receivable_def)
  obtain t1 pa where t1: "associated_token_init spl pe ptok (es_mint e) (es_provider e) (tokens st) = Inr t1"
    "tok_account spl t1 ptok = Some pa" "ta_mint pa = es_mint e" "\<not> ta_frozen pa"
    "unat (ta_amount pa) + unat actual < 2 ^ 64"
    "\<And>j. j \<noteq> ptok \<Longrightarrow> tok_account spl t1 j = tok_account spl (tokens st) j"
    by (rule receivable_init [OF laws rent ptok]) blast
  have gtok1: "receivable spl pe t1 (es_agent e) (es_mint e) gtok (unat (ta_amount a))"
    using gtok t1(6) ne(1) by (simp add: receivable_def)
  obtain t2 ga where t2: "associated_token_init spl pe gtok (es_mint e) (es_agent e) t1 = Inr t2"
    "tok_account spl t2 gtok = Some ga" "ta_mint ga = es_mint e" "\<not> ta_frozen ga"
    "unat (ta_amount ga) + unat (ta_amount a) < 2 ^ 64"
    "\<And>j. j \<noteq> gtok \<Longrightarrow> tok_account spl t2 j = tok_account spl t1 j"
    by (rule receivable_init [OF laws rent gtok1]) blast
  have at2: "tok_account spl t2 vault = Some a" "tok_account spl t2 ptok = Some pa"
    using t1(2,6) t2(6) vne ne(1) vault(2) by simp_all
  have "claim_constraints spl pe (claim_accounts_of addr e vault ptok gtok) st = Inr (e, dec, t2)"
    using e mint vault t1(1) t2(1) b a
    by (simp add: claim_constraints_def claim_accounts_of_def require_def load_token_account_def
        associated_token_def)
  moreover from claim_payout_succeeds [OF laws mint at2(1) a(2) vault(3,4) at2(2) t1(3,4,5) t2(2-5)
      vne ne(1) amount(2) a(3)]
  obtain t3 t4 a4 t5 t6 where
    "cpi_transfer spl vault (es_mint e) ptok addr actual dec t2 = Inr t3"
    "(if 0 < es_amount e - actual then cpi_transfer spl vault (es_mint e) gtok addr
        (es_amount e - actual) dec t3 else Inr t3) = Inr t4"
    "tok_account spl t4 vault = Some a4"
    "(if 0 < ta_amount a4 then cpi_transfer spl vault (es_mint e) gtok addr (ta_amount a4) dec t4
        else Inr t4) = Inr t5"
    "cpi_close spl vault addr t5 = Inr t6"
    unfolding a(1) by blast
  ultimately show ?thesis
    by (intro claim_succeeds [of spl pe "claim_accounts_of addr e vault ptok gtok" st e dec t2 actual
          now t3 t4 a4 t5 t6]) (simp_all only: claim_accounts_of_sel amount in_time ne not_False_eq_True)
qed

theorem claim_available_witness:
  "\<exists>st'. claim mini_spl mini_env 1000
     (claim_accounts_of k_escrow mini_escrow k_escrow k_provider k_agent) 25 mini_st1 = Inr st'"
proof (rule claim_available [OF _ _ mini_reach])
  show "spl_laws mini_spl" by (simp add: mini_spl_def map_spl_laws)
  show "rent_covered mini_spl" by (simp add: rent_covered_def)
  show "escrows mini_st1 k_escrow = Some mini_escrow" by (simp add: mini_st1_def)
  show "tok_account mini_spl (tokens mini_st1) k_escrow = Some (usdc_account k_escrow 60)"
    by (simp add: mini_st1_def)
qed (simp_all add: mini_escrow_def mini_ata receivable_def mini_st1_def usdc_account_def)

text \<open>The refund with its accounts filled in from the escrow.\<close>

definition refund_accounts_of :: "pubkey \<Rightarrow> escrow \<Rightarrow> pubkey \<Rightarrow> pubkey \<Rightarrow> refund_accounts" where
  "refund_accounts_of addr e vault gtok =
    \<lparr>ra_signers = [es_agent e], ra_escrow = addr, ra_agent = es_agent e, ra_mint = es_mint e,
     ra_vault = vault, ra_agent_token = gtok\<rparr>"

text \<open>
  C15. The agent gets its money back after expiry. In every reachable state, from the expiry slot of
  a live escrow on, a refund signed by the agent and naming the associated accounts succeeds, and
  no claim can succeed any more, whatever accounts and amount it names; before the expiry slot no
  refund can succeed. The vault and the agent's account must not be frozen, rent must be paid, and
  the agent's balance must stay below the 64-bit limit.
\<close>
theorem refund_available:
  assumes laws: "spl_laws spl" and rent: "rent_covered spl"
    and reach: "reach chain_init (chain_step spl pe) (now, st)"
    and e: "escrows st addr = Some e"
    and mint: "tok_decimals spl (es_mint e) = Some dec"
    and vault: "ata_ok pe addr (es_mint e) vault" "tok_account spl (tokens st) vault = Some a"
      "\<not> ta_frozen a" "ta_close_authority a = None"
    and gtok: "receivable spl pe (tokens st) (es_agent e) (es_mint e) gtok (unat (ta_amount a))"
  shows "if es_expiry_slot e \<le> now
    then (\<exists>st'. refund spl pe now (refund_accounts_of addr e vault gtok) st = Inr st')
       \<and> (\<nexists>acc actual st'. ca_escrow acc = addr \<and> claim spl pe now acc actual st = Inr st')
    else (\<nexists>acc st'. ra_escrow acc = addr \<and> refund spl pe now acc st = Inr st')"
proof -
  from reachable_backed [OF laws reach e] obtain va where b: "escrow_address_ok pe addr e"
    "addr \<noteq> es_agent e" "0 < es_amount e" "tok_account spl (tokens st) vault = Some va"
    "ta_owner va = addr" "ta_mint va = es_mint e" "es_amount e \<le> ta_amount va"
    using vault(1) by (auto simp: backed_def ata_ok_def)
  then have a: "ta_owner a = addr" "ta_mint a = es_mint e" "0 < ta_amount a"
    using vault(2) by (auto intro: order.strict_trans2)
  have vne: "vault \<noteq> gtok"
    using gtok vault(2) a(1) b(2) by (auto simp: receivable_def)
  obtain t ga where t: "associated_token_init spl pe gtok (es_mint e) (es_agent e) (tokens st) = Inr t"
    "tok_account spl t gtok = Some ga" "ta_mint ga = es_mint e" "\<not> ta_frozen ga"
    "unat (ta_amount ga) + unat (ta_amount a) < 2 ^ 64"
    "\<And>j. j \<noteq> gtok \<Longrightarrow> tok_account spl t j = tok_account spl (tokens st) j"
    by (rule receivable_init [OF laws rent gtok]) blast
  have c: "refund_constraints spl pe (refund_accounts_of addr e vault gtok) st = Inr (e, dec, a, t)"
    using e mint vault t(1) b a
    by (simp add: refund_constraints_def refund_accounts_of_def require_def load_token_account_def
        associated_token_def)
  have at: "tok_account spl t vault = Some a" using t(6) vne vault(2) by simp
  from transfer_succeeds [OF laws at a(2) vault(3) order_refl t(2-5) mint vne] obtain t1 where
    t1: "cpi_transfer spl vault (es_mint e) gtok addr (ta_amount a) dec t = Inr t1"
    "tok_account spl t1 vault = Some (a\<lparr>ta_amount := 0\<rparr>)"
    using vne by (auto simp: a(1))
  from spl_closes [OF laws t1(2)] obtain t2 where "cpi_close spl vault addr t1 = Inr t2"
    using vault(4) by (auto simp: cpi_close_def a(1))
  with t1 c a(3) have "\<exists>st'. refund spl pe now (refund_accounts_of addr e vault gtok) st = Inr st'"
    if "es_expiry_slot e \<le> now"
    using that by (auto simp: refund_def refund_accounts_of_def require_def)
  moreover have "claim spl pe now acc actual st \<noteq> Inr st'"
    if "es_expiry_slot e \<le> now" "ca_escrow acc = addr" for acc actual st'
    using that e by (auto dest!: claim_body_ok claim_constraints_ok)
  moreover have "refund spl pe now acc st \<noteq> Inr st'"
    if "\<not> es_expiry_slot e \<le> now" "ra_escrow acc = addr" for acc st'
    using that e by (auto elim!: refund_ok [OF laws])
  ultimately show ?thesis by auto
qed

theorem refund_available_witness:
  "\<exists>st'. refund mini_spl mini_env 1100 (refund_accounts_of k_escrow mini_escrow k_escrow k_agent)
     mini_st1 = Inr st'"
proof -
  have reach: "reach chain_init (chain_step mini_spl mini_env) (1100, mini_st1)"
    by (rule reach_step [OF mini_reach]) (simp add: chain_step.slot)
  have "if es_expiry_slot mini_escrow \<le> 1100
    then (\<exists>st'. refund mini_spl mini_env 1100 (refund_accounts_of k_escrow mini_escrow k_escrow k_agent)
           mini_st1 = Inr st')
       \<and> (\<nexists>acc actual st'. ca_escrow acc = k_escrow
            \<and> claim mini_spl mini_env 1100 acc actual mini_st1 = Inr st')
    else (\<nexists>acc st'. ra_escrow acc = k_escrow \<and> refund mini_spl mini_env 1100 acc mini_st1 = Inr st')"
  proof (rule refund_available [OF _ _ reach])
    show "spl_laws mini_spl" by (simp add: mini_spl_def map_spl_laws)
    show "rent_covered mini_spl" by (simp add: rent_covered_def)
    show "escrows mini_st1 k_escrow = Some mini_escrow" by (simp add: mini_st1_def)
    show "tok_account mini_spl (tokens mini_st1) k_escrow = Some (usdc_account k_escrow 60)"
      by (simp add: mini_st1_def)
  qed (simp_all add: mini_escrow_def mini_ata receivable_def mini_st1_def usdc_account_def)
  then show ?thesis by (simp add: mini_escrow_def)
qed

end
