(* ===== verification/Escrow_Verifier.thy ===== *)
theory Escrow_Verifier
  imports Payment_Verifier Escrow_Solvency
begin

text \<open>
  The verifier of escrow deposits (\<open>crates/x402/src/escrow/verifier.rs\<close>) and the facilitator that
  routes a payment to its verifier (\<open>crates/x402/src/facilitator.rs\<close>). The theorems connect the
  gateway to the program: what the verifier accepts, once it runs on chain, is an escrow the
  gateway can claim.
\<close>

section \<open>Reading the deposit instruction\<close>

definition is_program_ix :: "parsed_message \<Rightarrow> pubkey \<Rightarrow> compiled_instruction \<Rightarrow> bool" where
  "is_program_ix m program_id ix \<longleftrightarrow> key_at m (program_id_index ix) = Some program_id"

definition extract_deposit_amount :: "crypto \<Rightarrow> parsed_message \<Rightarrow> pubkey \<Rightarrow> u64 option" where
  "extract_deposit_amount cr m program_id =
    (case List.find (\<lambda>ix. is_program_ix m program_id ix \<and> 8 \<le> length (ix_data ix)
         \<and> take 8 (ix_data ix) = anchor_discriminator cr ''deposit'') (instructions m) of
       None \<Rightarrow> None
     | Some ix \<Rightarrow>
       if length (ix_data ix) < 16 then None else Some (from_le_bytes (take 8 (drop 8 (ix_data ix)))))"

definition ESCROW_MIN_EXPIRY_BUFFER_SLOTS :: u64 where
  "ESCROW_MIN_EXPIRY_BUFFER_SLOTS = 50"

record escrow_verifier =
  ev_recipient_wallet :: string
  ev_usdc_mint :: string
  ev_escrow_program_id :: string

section \<open>Verification\<close>

definition escrow_payload_of :: "payload_data \<Rightarrow> (payment_error, escrow_payload) result" where
  "escrow_payload_of d =
    (case d of
       Payload_Escrow p \<Rightarrow> Inr p
     | Payload_Direct _ \<Rightarrow>
         Inl (Err_PayloadMismatch ''EscrowVerifier received direct payload; expected escrow'')
     | Payload_Channel _ \<Rightarrow>
         Inl (Err_PayloadMismatch ''EscrowVerifier received channel payload; expected escrow''))"

definition escrow_key :: "crypto \<Rightarrow> string \<Rightarrow> string \<Rightarrow> (payment_error, pubkey) result" where
  "escrow_key cr what s = map_err (\<lambda>_. Err_InvalidTransaction what) (decode_bs58_pubkey cr s)"

text \<open>The service id, the agent, the program and the escrow address the payload names.\<close>

record escrow_parties =
  ep_sid :: bytes
  ep_agent :: pubkey
  ep_program :: pubkey
  ep_pda :: pubkey

definition derive_escrow_parties ::
  "verifier_env \<Rightarrow> escrow_verifier \<Rightarrow> escrow_payload \<Rightarrow> (payment_error, escrow_parties) result" where
  "derive_escrow_parties env ev p =
     and_then (ok_or (Err_InvalidEncoding ''service_id base64'') (ve_b64_decode env (ep_service_id p)))
       (\<lambda>sid.
     if length sid \<noteq> 32
     then Inl (Err_InvalidTransaction (''service_id must be 32 bytes, got '' @ nat_text (length sid)))
     else
     and_then (escrow_key (ve_crypto env) ''agent_pubkey'' (ep_agent_pubkey p)) (\<lambda>agent.
     and_then (escrow_key (ve_crypto env) ''escrow_program_id'' (ev_escrow_program_id ev)) (\<lambda>program_id.
     and_then (ok_or (Err_InvalidTransaction ''failed to derive escrow PDA'')
         (find_program_address (ve_crypto env) (escrow_seeds agent sid) program_id)) (\<lambda>(pda, bump).
       Inr \<lparr>ep_sid = sid, ep_agent = agent, ep_program = program_id, ep_pda = pda\<rparr>))))"

definition decode_deposit_tx ::
  "verifier_env \<Rightarrow> string \<Rightarrow> (payment_error, versioned_transaction) result" where
  "decode_deposit_tx env base64 =
     and_then (ok_or (Err_InvalidEncoding ''deposit_tx base64'') (ve_b64_decode env base64)) (\<lambda>tx_bytes.
     and_then (map_err (\<lambda>_. Err_InvalidTransaction ''failed to deserialize deposit tx'')
         (versioned_transaction_from_bytes tx_bytes)) (\<lambda>tx.
     if vt_signatures tx = [] then Inl (Err_InvalidSignature ''deposit transaction has no signatures'')
     else Inr tx))"

text \<open>The deposit transaction is signed by the agent of the payload.\<close>

definition check_agent_signature ::
  "verifier_env \<Rightarrow> escrow_parties \<Rightarrow> versioned_transaction \<Rightarrow> (payment_error, parsed_message) result" where
  "check_agent_signature env ps tx =
     and_then (parse_message tx) (\<lambda>m.
     and_then (check_first_signature (ve_ed25519 env) tx m) (\<lambda>_.
     if hd (account_keys m) \<noteq> ep_agent ps
     then Inl (Err_InvalidSignature ''signer does not match agent_pubkey'')
     else Inr m))"

record deposit_call =
  dc_ix :: compiled_instruction
  dc_amount :: u64
  dc_sid :: bytes
  dc_expiry :: u64

definition parse_deposit_ix ::
  "crypto \<Rightarrow> pubkey \<Rightarrow> parsed_message \<Rightarrow> (payment_error, deposit_call) result" where
  "parse_deposit_ix cr program_id m =
     and_then (ok_or (Err_InvalidTransaction ''no escrow program instruction found in deposit tx'')
         (List.find (is_program_ix m program_id) (instructions m))) (\<lambda>ix.
     if length (ix_data ix) < 56
     then Inl (Err_InvalidTransaction (''deposit instruction data too short: '' @ nat_text (length (ix_data ix))
       @ '' bytes (expected 56)''))
     else if take 8 (ix_data ix) \<noteq> anchor_discriminator cr ''deposit''
     then Inl (Err_InvalidTransaction ''instruction is not an Anchor deposit call'')
     else Inr \<lparr>dc_ix = ix, dc_amount = from_le_bytes (take 8 (drop 8 (ix_data ix))),
       dc_sid = take 32 (drop 16 (ix_data ix)), dc_expiry = from_le_bytes (take 8 (drop 48 (ix_data ix)))\<rparr>)"

definition get_key :: "parsed_message \<Rightarrow> compiled_instruction \<Rightarrow> nat \<Rightarrow> (payment_error, pubkey) result" where
  "get_key m ix pos =
     ok_or (Err_InvalidTransaction (''account index '' @ nat_text (unat (ix_accounts ix ! pos)) @ '' out of range''))
       (key_at m (ix_accounts ix ! pos))"

definition expect :: "bool \<Rightarrow> payment_error \<Rightarrow> (payment_error, unit) result" where
  "expect b e = (if b then Inr () else Inl e)"

text \<open>The positional accounts of the deposit: agent, provider, mint, escrow address and vault.\<close>

definition check_deposit_accounts ::
  "crypto \<Rightarrow> escrow_verifier \<Rightarrow> escrow_parties \<Rightarrow> parsed_message \<Rightarrow> compiled_instruction
     \<Rightarrow> (payment_error, unit) result" where
  "check_deposit_accounts cr ev ps m ix =
     and_then (expect (6 \<le> length (ix_accounts ix)) (Err_InvalidTransaction (''deposit instruction has ''
         @ nat_text (length (ix_accounts ix)) @ '' accounts, expected at least 6''))) (\<lambda>_.
     and_then (get_key m ix 0) (\<lambda>agent.
     and_then (expect (agent = ep_agent ps)
         (Err_InvalidSignature ''deposit instruction agent account does not match payload agent_pubkey'')) (\<lambda>_.
     and_then (escrow_key cr ''recipient_wallet config'' (ev_recipient_wallet ev)) (\<lambda>recipient.
     and_then (get_key m ix 1) (\<lambda>provider.
     and_then (expect (provider = recipient)
         (Err_WrongRecipient (ev_recipient_wallet ev) (bs58_encode cr provider))) (\<lambda>_.
     and_then (escrow_key cr ''usdc_mint config'' (ev_usdc_mint ev)) (\<lambda>usdc_mint.
     and_then (get_key m ix 2) (\<lambda>mint.
     and_then (expect (mint = usdc_mint) (Err_WrongAsset (ev_usdc_mint ev) (bs58_encode cr mint))) (\<lambda>_.
     and_then (get_key m ix 3) (\<lambda>escrow.
     and_then (expect (escrow = ep_pda ps)
         (Err_InvalidTransaction ''deposit instruction escrow PDA does not match derived PDA'')) (\<lambda>_.
     and_then (ok_or (Err_InvalidTransaction ''failed to derive vault ATA for verification'')
         (derive_ata_address cr (ep_pda ps) usdc_mint)) (\<lambda>vault_ata.
     and_then (get_key m ix 5) (\<lambda>vault.
       expect (vault = vault_ata)
         (Err_WrongRecipient (bs58_encode cr vault_ata) (bs58_encode cr vault)))))))))))))))"

definition check_expiry :: "verifier_env \<Rightarrow> nat \<Rightarrow> u64 \<Rightarrow> (payment_error, unit) result" where
  "check_expiry env now expiry =
     and_then (get_current_slot (ve_http env) now) (\<lambda>slot.
       expect (ESCROW_MIN_EXPIRY_BUFFER_SLOTS \<le> saturating_sub expiry slot)
         (Err_InvalidTransaction (''deposit expiry_slot '' @ nat_text (unat expiry)
            @ '' is too close to current slot '' @ nat_text (unat slot))))"

definition escrow_verify_payment ::
  "verifier_env \<Rightarrow> escrow_verifier \<Rightarrow> nat \<Rightarrow> payment_payload \<Rightarrow> (payment_error, verification_result) result"
where
  "escrow_verify_payment env ev now payload =
     and_then (escrow_payload_of (pp_payload payload)) (\<lambda>p.
     and_then (derive_escrow_parties env ev p) (\<lambda>ps.
     and_then (decode_deposit_tx env (ep_deposit_tx p)) (\<lambda>tx.
     and_then (check_agent_signature env ps tx) (\<lambda>m.
     and_then (required_amount payload) (\<lambda>required.
     and_then (parse_deposit_ix (ve_crypto env) (ep_program ps) m) (\<lambda>call.
     and_then (expect (required \<le> dc_amount call) (Err_InsufficientPayment required (dc_amount call))) (\<lambda>_.
     and_then (expect (dc_sid call = ep_sid ps)
         (Err_InvalidTransaction ''instruction service_id does not match payload service_id'')) (\<lambda>_.
     and_then (check_deposit_accounts (ve_crypto env) ev ps m (dc_ix call)) (\<lambda>_.
     and_then (check_expiry env now (dc_expiry call)) (\<lambda>_.
       Inr \<lparr>vr_valid = True, vr_reason = None, vr_verified_amount = Some (dc_amount call)\<rparr>))))))))))"

section \<open>Settlement\<close>

definition escrow_settle_payment ::
  "verifier_env \<Rightarrow> escrow_verifier \<Rightarrow> nat \<Rightarrow> payment_payload
     \<Rightarrow> (payment_error, settlement_result) result option" where
  "escrow_settle_payment env ev now payload =
    (case and_then (escrow_payload_of (pp_payload payload)) (\<lambda>p.
        and_then (decode_deposit_tx env (ep_deposit_tx p)) (\<lambda>tx.
        and_then (escrow_key (ve_crypto env) ''escrow_program_id'' (ev_escrow_program_id ev)) (\<lambda>program_id.
          Inr (p, tx, program_id)))) of
       Inl e \<Rightarrow> Some (Inl e)
     | Inr (p, tx, program_id) \<Rightarrow>
       let verified_amount = (case parsed_message_from_bytes (vt_message_bytes tx) of
               Inl _ \<Rightarrow> None | Inr m \<Rightarrow> extract_deposit_amount (ve_crypto env) m program_id);
           sig_b58 = bs58_encode (ve_crypto env) (hd (vt_signatures tx));
           wait = map_option Inr (await_settlement env
             (now + http_latency (ve_http env) now (send_body (ep_deposit_tx p))) sig_b58 verified_amount) in
       (case send_transaction (ve_http env) now (ep_deposit_tx p) of
          Inr _ \<Rightarrow> wait
        | Inl e \<Rightarrow>
          if is_already_processed_error (error_text e) then wait
          else Some (Inr (settlement_failed (Some sig_b58) (''submission failed: '' @ error_text e)
                 verified_amount))))"

section \<open>The facilitator\<close>

text \<open>
  The verifiers of the gateway behind one trait. A verifier without its own \<open>verify_payment_to\<close>
  refuses a recipient override.
\<close>

datatype payment_verifier = Exact solana_verifier | Escrow escrow_verifier

definition network :: "payment_verifier \<Rightarrow> string" where
  "network v = SOLANA_NETWORK"

primrec scheme :: "payment_verifier \<Rightarrow> string" where
  "scheme (Exact _) = ''exact''"
| "scheme (Escrow _) = ''escrow''"

primrec verify_payment ::
  "verifier_env \<Rightarrow> nat \<Rightarrow> payment_payload \<Rightarrow> payment_verifier \<Rightarrow> (payment_error, verification_result) result"
where
  "verify_payment env now payload (Exact v) = direct_verify_payment env v now payload"
| "verify_payment env now payload (Escrow v) = escrow_verify_payment env v now payload"

primrec verify_payment_to ::
  "verifier_env \<Rightarrow> nat \<Rightarrow> payment_payload \<Rightarrow> string \<Rightarrow> payment_verifier
     \<Rightarrow> (payment_error, verification_result) result" where
  "verify_payment_to env now payload expected (Exact v) = direct_verify_payment_to env v now payload expected"
| "verify_payment_to env now payload expected (Escrow v) =
     Inl (Err_RecipientOverrideUnsupported (network (Escrow v) @ ''/'' @ scheme (Escrow v)))"

primrec settle_payment ::
  "verifier_env \<Rightarrow> nat \<Rightarrow> payment_payload \<Rightarrow> payment_verifier
     \<Rightarrow> (payment_error, settlement_result) result option" where
  "settle_payment env now payload (Exact v) = direct_settle_payment env now payload"
| "settle_payment env now payload (Escrow v) = escrow_settle_payment env v now payload"

definition verifier_for ::
  "payment_verifier list \<Rightarrow> string \<Rightarrow> string \<Rightarrow> (payment_error, payment_verifier) result" where
  "verifier_for vs net sch =
     ok_or (Err_UnsupportedNetwork (net @ ''/'' @ sch))
       (List.find (\<lambda>v. network v = net \<and> scheme v = sch) vs)"

definition payload_verifier ::
  "payment_verifier list \<Rightarrow> payment_payload \<Rightarrow> (payment_error, payment_verifier) result" where
  "payload_verifier vs payload =
     verifier_for vs (pa_network (pp_accepted payload)) (pa_scheme (pp_accepted payload))"

definition facilitator_verify ::
  "verifier_env \<Rightarrow> payment_verifier list \<Rightarrow> nat \<Rightarrow> payment_payload
     \<Rightarrow> (payment_error, verification_result) result" where
  "facilitator_verify env vs now payload =
     and_then (payload_verifier vs payload) (verify_payment env now payload)"

definition facilitator_settle ::
  "verifier_env \<Rightarrow> payment_verifier list \<Rightarrow> nat \<Rightarrow> payment_payload
     \<Rightarrow> (payment_error, settlement_result) result option" where
  "facilitator_settle env vs now payload =
    (case payload_verifier vs payload of
       Inl e \<Rightarrow> Some (Inl e)
     | Inr v \<Rightarrow> settle_payment env now payload v)"

text \<open>Verification first, at time \<open>now\<close>; settlement starts when it has returned, at \<open>later\<close>.\<close>

definition settle_if_valid ::
  "verifier_env \<Rightarrow> nat \<Rightarrow> payment_payload \<Rightarrow> payment_verifier \<Rightarrow> (payment_error, verification_result) result
     \<Rightarrow> (payment_error, settlement_result) result option" where
  "settle_if_valid env later payload v verification =
    (case verification of
       Inl e \<Rightarrow> Some (Inl e)
     | Inr r \<Rightarrow>
       if \<not> vr_valid r
       then Some (Inl (Err_InvalidTransaction
         (case vr_reason r of Some m \<Rightarrow> m | None \<Rightarrow> ''verification failed'')))
       else settle_payment env later payload v)"

definition verify_and_settle ::
  "verifier_env \<Rightarrow> payment_verifier list \<Rightarrow> nat \<Rightarrow> nat \<Rightarrow> payment_payload
     \<Rightarrow> (payment_error, settlement_result) result option" where
  "verify_and_settle env vs now later payload =
    (case payload_verifier vs payload of
       Inl e \<Rightarrow> Some (Inl e)
     | Inr v \<Rightarrow> settle_if_valid env later payload v (verify_payment env now payload v))"

definition verify_and_settle_to ::
  "verifier_env \<Rightarrow> payment_verifier list \<Rightarrow> nat \<Rightarrow> nat \<Rightarrow> payment_payload \<Rightarrow> string
     \<Rightarrow> (payment_error, settlement_result) result option" where
  "verify_and_settle_to env vs now later payload expected =
    (case payload_verifier vs payload of
       Inl e \<Rightarrow> Some (Inl e)
     | Inr v \<Rightarrow> settle_if_valid env later payload v (verify_payment_to env now payload expected v))"

section \<open>From a message to the program\<close>

text \<open>
  How the chain turns an instruction of a message into a call of the program: the discriminator
  selects the handler, the positional accounts fill its struct, the data after the discriminator
  are its arguments.
\<close>

definition program_call :: "crypto \<Rightarrow> parsed_message \<Rightarrow> compiled_instruction \<Rightarrow> escrow_ix option" where
  "program_call cr m ix =
    (let d = ix_data ix in
     if take 8 d = anchor_discriminator cr ''deposit'' \<and> 56 \<le> length d then
       map_option (\<lambda>acc. Ix_deposit acc (from_le_bytes (take 8 (drop 8 d))) (take 32 (drop 16 d))
         (from_le_bytes (take 8 (drop 48 d)))) (deposit_accounts_of m ix)
     else if take 8 d = anchor_discriminator cr ''claim'' \<and> 16 \<le> length d then
       map_option (\<lambda>acc. Ix_claim acc (from_le_bytes (take 8 (drop 8 d)))) (claim_accounts_in m ix)
     else if take 8 d = anchor_discriminator cr ''refund'' then
       map_option Ix_refund (refund_accounts_in m ix)
     else None)"

lemma expect_Inr_iff [simp]: "expect b e = Inr u \<longleftrightarrow> b"
  by (simp add: expect_def)

lemma escrow_key_Inr_iff [simp]: "escrow_key cr what s = Inr k \<longleftrightarrow> decode_bs58_pubkey cr s = Inr k"
  by (simp add: escrow_key_def)

lemma get_key_Inr_iff [simp]: "get_key m ix i = Inr k \<longleftrightarrow> key_at m (ix_accounts ix ! i) = Some k"
  by (simp add: get_key_def)

lemma escrow_payload_of_Inr [simp]: "escrow_payload_of d = Inr p \<longleftrightarrow> d = Payload_Escrow p"
  by (auto simp: escrow_payload_of_def split: payload_data.splits)

lemma derive_escrow_parties_Inr:
  "derive_escrow_parties env ev p = Inr ps \<longleftrightarrow>
     ve_b64_decode env (ep_service_id p) = Some (ep_sid ps) \<and> length (ep_sid ps) = 32
     \<and> decode_bs58_pubkey (ve_crypto env) (ep_agent_pubkey p) = Inr (ep_agent ps)
     \<and> decode_bs58_pubkey (ve_crypto env) (ev_escrow_program_id ev) = Inr (ep_program ps)
     \<and> (\<exists>bump. find_program_address (ve_crypto env) (escrow_seeds (ep_agent ps) (ep_sid ps)) (ep_program ps)
          = Some (ep_pda ps, bump))"
  by (cases ps) (auto simp: derive_escrow_parties_def and_then_Inr_iff split: if_splits)

lemma decode_deposit_tx_Inr:
  "decode_deposit_tx env b = Inr tx \<longleftrightarrow>
    (\<exists>bs. ve_b64_decode env b = Some bs \<and> versioned_transaction_from_bytes bs = Inr tx \<and> vt_signatures tx \<noteq> [])"
  by (auto simp: decode_deposit_tx_def and_then_Inr_iff split: if_splits)

lemma check_agent_signature_Inr:
  "check_agent_signature env ps tx = Inr m \<longleftrightarrow>
     parsed_message_from_bytes (vt_message_bytes tx) = Inr m
     \<and> (\<exists>keys. account_keys m = ep_agent ps # keys) \<and> valid_key (ve_ed25519 env) (ep_agent ps)
     \<and> verify_sig (ve_ed25519 env) (ep_agent ps) (vt_message_bytes tx) (hd (vt_signatures tx))"
  (is "?l \<longleftrightarrow> ?r")
proof
  assume ?l
  then show ?r
    by (auto simp: check_agent_signature_def and_then_Inr_iff parse_message_def check_first_signature_Inr
        split: if_splits)
next
  assume ?r
  then show ?l
    by (auto simp: check_agent_signature_def parse_message_def check_first_signature_def)
qed

lemma parse_deposit_ix_Inr:
  "parse_deposit_ix cr program_id m = Inr call \<longleftrightarrow>
     List.find (is_program_ix m program_id) (instructions m) = Some (dc_ix call)
     \<and> 56 \<le> length (ix_data (dc_ix call)) \<and> take 8 (ix_data (dc_ix call)) = anchor_discriminator cr ''deposit''
     \<and> dc_amount call = from_le_bytes (take 8 (drop 8 (ix_data (dc_ix call))))
     \<and> dc_sid call = take 32 (drop 16 (ix_data (dc_ix call)))
     \<and> dc_expiry call = from_le_bytes (take 8 (drop 48 (ix_data (dc_ix call))))"
  by (cases call) (auto simp: parse_deposit_ix_def and_then_Inr_iff split: if_splits)

lemma check_deposit_accounts_Inr:
  "check_deposit_accounts cr ev ps m ix = Inr u \<longleftrightarrow>
     6 \<le> length (ix_accounts ix) \<and> key_at m (ix_accounts ix ! 0) = Some (ep_agent ps)
     \<and> (\<exists>recipient mint vault. decode_bs58_pubkey cr (ev_recipient_wallet ev) = Inr recipient
          \<and> key_at m (ix_accounts ix ! 1) = Some recipient
          \<and> decode_bs58_pubkey cr (ev_usdc_mint ev) = Inr mint \<and> key_at m (ix_accounts ix ! 2) = Some mint
          \<and> key_at m (ix_accounts ix ! 3) = Some (ep_pda ps)
          \<and> derive_ata_address cr (ep_pda ps) mint = Some vault \<and> key_at m (ix_accounts ix ! 5) = Some vault)"
  unfolding check_deposit_accounts_def
  by (simp only: and_then_Inr_iff expect_Inr_iff escrow_key_Inr_iff get_key_Inr_iff ok_or_Inr_iff) blast

lemma unat_saturating_buffer:
  "ESCROW_MIN_EXPIRY_BUFFER_SLOTS \<le> saturating_sub expiry slot \<longleftrightarrow> unat slot + 50 \<le> unat expiry"
  by (auto simp: ESCROW_MIN_EXPIRY_BUFFER_SLOTS_def word_le_nat_alt unat_saturating_sub)

text \<open>The acceptance condition of an escrow deposit.\<close>

definition deposit_ok_for ::
  "verifier_env \<Rightarrow> escrow_verifier \<Rightarrow> nat \<Rightarrow> payment_payload \<Rightarrow> escrow_payload \<Rightarrow> escrow_parties
     \<Rightarrow> versioned_transaction \<Rightarrow> parsed_message \<Rightarrow> deposit_call \<Rightarrow> bool" where
  "deposit_ok_for env ev now payload p ps tx m call \<longleftrightarrow>
     pp_payload payload = Payload_Escrow p \<and> derive_escrow_parties env ev p = Inr ps
     \<and> decode_deposit_tx env (ep_deposit_tx p) = Inr tx \<and> check_agent_signature env ps tx = Inr m
     \<and> parse_deposit_ix (ve_crypto env) (ep_program ps) m = Inr call
     \<and> (\<exists>required. parse_u64 (pa_amount (pp_accepted payload)) = Some required \<and> required \<le> dc_amount call)
     \<and> dc_sid call = ep_sid ps \<and> check_deposit_accounts (ve_crypto env) ev ps m (dc_ix call) = Inr ()
     \<and> (\<exists>slot. get_current_slot (ve_http env) now = Inr slot \<and> unat slot + 50 \<le> unat (dc_expiry call))"

lemma escrow_verify_Inr:
  "escrow_verify_payment env ev now payload = Inr r \<longleftrightarrow>
    (\<exists>p ps tx m call. deposit_ok_for env ev now payload p ps tx m call
       \<and> r = \<lparr>vr_valid = True, vr_reason = None, vr_verified_amount = Some (dc_amount call)\<rparr>)"
  (is "?l \<longleftrightarrow> ?r")
proof
  assume ?l
  then show ?r
    unfolding escrow_verify_payment_def check_expiry_def deposit_ok_for_def required_amount_def
    apply (simp only: and_then_Inr_iff expect_Inr_iff escrow_payload_of_Inr ok_or_Inr_iff unat_saturating_buffer sum.inject)
    apply (elim exE conjE)
    subgoal for p ps tx m required call u1 u2 u3 u4 slot
      by (rule exI [of _ p], rule exI [of _ ps], rule exI [of _ tx], rule exI [of _ m], rule exI [of _ call]) (cases u3, auto)
    done
next
  assume ?r
  then show ?l
    unfolding escrow_verify_payment_def check_expiry_def deposit_ok_for_def required_amount_def
    by (elim exE conjE) (simp add: expect_def unat_saturating_buffer escrow_payload_of_def)
qed

section \<open>A verified deposit, once landed, is a claimable escrow\<close>

lemma deposit_accounts_of_keys:
  assumes "deposit_accounts_of m ix = Some acc"
  shows "da_signers acc = signer_keys m" "key_at m (ix_accounts ix ! 0) = Some (da_agent acc)"
    "key_at m (ix_accounts ix ! 1) = Some (da_provider acc)"
    "key_at m (ix_accounts ix ! 2) = Some (da_mint acc)"
    "key_at m (ix_accounts ix ! 3) = Some (da_escrow acc)"
    "key_at m (ix_accounts ix ! 5) = Some (da_vault acc)"
proof -
  from assms obtain a b c d e f g h i where
    l: "take 9 (map (key_at m) (ix_accounts ix)) = [Some a, Some b, Some c, Some d, Some e, Some f, g, h, i]"
    and acc: "acc = \<lparr>da_signers = signer_keys m, da_agent = a, da_provider = b, da_mint = c, da_escrow = d,
      da_agent_token = e, da_vault = f\<rparr>"
    by (auto simp: deposit_accounts_of_def ix_keys_def split: list.splits option.splits)
  have len: "9 \<le> length (ix_accounts ix)" using arg_cong [OF l, of length] by simp
  have "key_at m (ix_accounts ix ! n) = [Some a, Some b, Some c, Some d, Some e, Some f, g, h, i] ! n" if "n < 9" for n
    using that len by (simp flip: l)
  from this [of 0] this [of 1] this [of 2] this [of 3] this [of 5] acc
  show "da_signers acc = signer_keys m" "key_at m (ix_accounts ix ! 0) = Some (da_agent acc)"
    "key_at m (ix_accounts ix ! 1) = Some (da_provider acc)"
    "key_at m (ix_accounts ix ! 2) = Some (da_mint acc)"
    "key_at m (ix_accounts ix ! 3) = Some (da_escrow acc)"
    "key_at m (ix_accounts ix ! 5) = Some (da_vault acc)"
    by simp_all
qed

lemma program_call_deposit:
  assumes "parse_deposit_ix cr program_id m = Inr call" "program_call cr m (dc_ix call) = Some c"
  obtains acc where "deposit_accounts_of m (dc_ix call) = Some acc"
    "c = Ix_deposit acc (dc_amount call) (dc_sid call) (dc_expiry call)"
  using assms by (auto simp: parse_deposit_ix_Inr program_call_def Let_def)

lemma find_first_conj:
  "List.find P xs = Some x \<Longrightarrow> Q x \<Longrightarrow> List.find (\<lambda>y. P y \<and> Q y) xs = Some x"
  by (induction xs) (auto split: if_splits)

lemma extract_same_amount:
  assumes "parse_deposit_ix cr program_id m = Inr call"
  shows "extract_deposit_amount cr m program_id = Some (dc_amount call)"
proof -
  from assms have "List.find (is_program_ix m program_id) (instructions m) = Some (dc_ix call)"
    and d: "56 \<le> length (ix_data (dc_ix call))"
      "take 8 (ix_data (dc_ix call)) = anchor_discriminator cr ''deposit''"
      "dc_amount call = from_le_bytes (take 8 (drop 8 (ix_data (dc_ix call))))"
    by (simp_all add: parse_deposit_ix_Inr)
  then have "List.find (\<lambda>ix. is_program_ix m program_id ix \<and> 8 \<le> length (ix_data ix)
      \<and> take 8 (ix_data ix) = anchor_discriminator cr ''deposit'') (instructions m) = Some (dc_ix call)"
    by (intro find_first_conj) auto
  with d show ?thesis by (simp add: extract_deposit_amount_def)
qed

lemma deposit_ok_for_unique:
  assumes "deposit_ok_for env ev now payload p ps tx m call"
  shows "pp_payload payload = Payload_Escrow p" "derive_escrow_parties env ev p = Inr ps"
    "decode_deposit_tx env (ep_deposit_tx p) = Inr tx"
    "parsed_message_from_bytes (vt_message_bytes tx) = Inr m"
    "parse_deposit_ix (ve_crypto env) (ep_program ps) m = Inr call"
    "dc_sid call = ep_sid ps" "check_deposit_accounts (ve_crypto env) ev ps m (dc_ix call) = Inr ()"
  using assms by (simp_all add: deposit_ok_for_def check_agent_signature_Inr)

lemma deposit_vault_funded:
  assumes "spl_laws spl" "deposit spl pe now acc amount sid expiry st = Inr st'"
    "da_escrow acc \<notin> set (da_signers acc)"
  shows "\<exists>v. tok_account spl (tokens st') (da_vault acc) = Some v \<and> ta_owner v = da_escrow acc
    \<and> ta_mint v = da_mint acc \<and> unat amount \<le> unat (ta_amount v)"
proof (rule deposit_ok [OF assms])
  fix v
  assume v: "tok_account spl (tokens st') (da_vault acc) = Some v" "ta_owner v = da_escrow acc"
      "ta_mint v = da_mint acc" "da_vault acc \<noteq> da_agent_token acc"
    and b: "balance (tok_account spl (tokens st')) = pay (da_agent_token acc) (da_vault acc) (unat amount)
      (balance (tok_account spl (tokens st)))"
  have "unat (ta_amount v) = pay (da_agent_token acc) (da_vault acc) (unat amount)
      (balance (tok_account spl (tokens st))) (da_vault acc)"
    using v(1) by (simp flip: b add: balance_def)
  with v show ?thesis by (auto simp: pay_def)
qed

text \<open>
  C10. The gateway's three views of an escrow payment agree. When the escrow verifier has accepted a
  payment and the deposit instruction it looked at then runs on chain, the program holds an escrow
  at the very address from which the gateway's claimer derives its claim, with the gateway as
  provider, the configured mint, the paying agent, exactly the verified amount, at least the
  required one, and at least fifty slots left; and the vault the claimer names is that escrow's and
  holds the amount. Settlement reports the same amount, so a claim capped by it is never refused
  for exceeding the deposit.
\<close>
theorem verified_deposit_is_claimable:
  assumes laws: "spl_laws spl" "escrow_crypto_laws (ve_crypto env)"
    and pe: "pe_crypto pe = ve_crypto env"
      "decode_bs58_pubkey (ve_crypto env) (ev_escrow_program_id ev) = Inr (pe_program_id pe)"
    and ok: "escrow_verify_payment env ev now payload = Inr r"
    and payload: "pp_payload payload = Payload_Escrow p" "ve_b64_decode env (ep_deposit_tx p) = Some bs"
      "versioned_transaction_from_bytes bs = Inr tx"
      "parsed_message_from_bytes (vt_message_bytes tx) = Inr m"
    and ix: "List.find (is_program_ix m (pe_program_id pe)) (instructions m) = Some ix"
    and runs: "program_call (ve_crypto env) m ix = Some c" "process spl pe slot c st = Inr st'"
      "ix_escrow c \<notin> set (signer_keys m)"
    and claimer: "new_claimer (ve_crypto env) pool (ev_escrow_program_id ev) (ev_recipient_wallet ev)
        (ev_usdc_mint ev) nonces = Inr claimer"
      "ve_b64_decode env (ep_service_id p) = Some sid"
      "decode_bs58_pubkey (ve_crypto env) (ep_agent_pubkey p) = Inr agent"
      "derive_claim_addresses (ve_crypto env) \<lparr>cp_fee_payer_keypair = kp, cp_fee_payer_index = i,
         cp_escrow_program_id = ec_escrow_program_id claimer,
         cp_recipient_wallet = ec_recipient_wallet claimer, cp_usdc_mint = ec_usdc_mint claimer,
         cp_service_id = sid, cp_agent_pubkey = agent, cp_actual_amount = actual\<rparr> = Inr ad"
  shows "\<exists>e v required. escrows st' (cl_escrow_pda ad) = Some e
    \<and> es_provider e = ec_recipient_wallet claimer \<and> es_mint e = ec_usdc_mint claimer
    \<and> es_agent e = agent \<and> es_service_id e = sid
    \<and> vr_verified_amount r = Some (es_amount e)
    \<and> extract_deposit_amount (ve_crypto env) m (pe_program_id pe) = Some (es_amount e)
    \<and> parse_u64 (pa_amount (pp_accepted payload)) = Some required \<and> required \<le> es_amount e
    \<and> unat slot + 50 \<le> unat (es_expiry_slot e)
    \<and> tok_account spl (tokens st') (cl_vault ad) = Some v \<and> ta_owner v = cl_escrow_pda ad
    \<and> ta_mint v = es_mint e \<and> es_amount e \<le> ta_amount v"
proof -
  let ?cr = "ve_crypto env"
  from ok obtain p' ps tx' m' call where
    o: "deposit_ok_for env ev now payload p' ps tx' m' call"
    and r: "r = \<lparr>vr_valid = True, vr_reason = None, vr_verified_amount = Some (dc_amount call)\<rparr>"
    by (auto simp: escrow_verify_Inr)
  note u = deposit_ok_for_unique [OF o]
  have same: "p' = p" "tx' = tx" "m' = m" "ep_program ps = pe_program_id pe" "ep_sid ps = sid" "ep_agent ps = agent"
    using u(1-4) payload pe(2) claimer(2,3) by (auto simp: decode_deposit_tx_Inr derive_escrow_parties_Inr)
  have call: "dc_ix call = ix"
    using u(5) ix unfolding same by (simp add: parse_deposit_ix_Inr)
  obtain acc where acc: "deposit_accounts_of m ix = Some acc"
    and c: "c = Ix_deposit acc (dc_amount call) sid (dc_expiry call)"
    using program_call_deposit [of ?cr "pe_program_id pe" m call c] u(5,6) runs(1) call same by auto
  have dep: "deposit spl pe slot acc (dc_amount call) sid (dc_expiry call) st = Inr st'"
    and signer: "da_escrow acc \<notin> set (da_signers acc)"
    using runs(2,3) c deposit_accounts_of_keys(1) [OF acc] by simp_all
  obtain recipient mint where
    cfg: "decode_bs58_pubkey ?cr (ev_recipient_wallet ev) = Inr recipient"
      "decode_bs58_pubkey ?cr (ev_usdc_mint ev) = Inr mint"
    and keys: "da_agent acc = agent" "da_provider acc = recipient" "da_mint acc = mint"
      "da_escrow acc = ep_pda ps"
    using u(7) deposit_accounts_of_keys [OF acc] unfolding check_deposit_accounts_Inr call same by auto
  have cl: "ec_escrow_program_id claimer = pe_program_id pe" "ec_recipient_wallet claimer = recipient"
    "ec_usdc_mint claimer = mint"
    using claimer(1) cfg pe(2) by (auto simp: new_claimer_def and_then_Inr_iff)
  have pda: "\<exists>bump. find_program_address ?cr (escrow_seeds agent sid) (pe_program_id pe) = Some (da_escrow acc, bump)"
    using u(2) same keys(4) by (simp add: derive_escrow_parties_Inr)
  have ad: "cl_escrow_pda ad = da_escrow acc"
    "derive_ata ?cr (da_escrow acc) mint TOKEN_PROGRAM_ID = Some (cl_vault ad)"
    using derive_claim_addresses_ok(1,2) [OF laws(2) claimer(4)] pda by (auto simp: cl)
  show ?thesis
  proof (rule deposit_ok [OF laws(1) dep signer])
    fix bump
    assume d: "unat slot + 50 \<le> unat (dc_expiry call)" "ata_ok pe (da_escrow acc) (da_mint acc) (da_vault acc)"
      "escrows st' = (escrows st)(da_escrow acc \<mapsto>
       \<lparr>es_agent = da_agent acc, es_provider = da_provider acc, es_mint = da_mint acc,
        es_amount = dc_amount call, es_service_id = sid, es_expiry_slot = dc_expiry call, es_bump = bump\<rparr>)"
    have vault: "da_vault acc = cl_vault ad"
      using d(2) ad(2) by (simp add: ata_ok_def pe(1) keys(3))
    have same_amount: "extract_deposit_amount ?cr m (pe_program_id pe) = Some (dc_amount call)"
      using extract_same_amount [of ?cr "pe_program_id pe" m call] u(5) same by simp
    show ?thesis
      using deposit_vault_funded [OF laws(1) dep signer] d o same_amount
      by (auto simp: ad(1) vault r keys cl deposit_ok_for_def word_le_nat_alt)
  qed
qed

section \<open>What the client builds, the gateway accepts\<close>

lemma built_deposit_checks:
  assumes laws: "escrow_crypto_laws cr" and b: "build_deposit_message cr ud = Inr b"
    and lens: "length (ud_agent_pubkey ud) = 32" "length (ud_service_id ud) = 32"
      "length (ud_recent_blockhash ud) = 32"
    and cfg: "ud_provider_wallet ud = ev_recipient_wallet ev" "ud_usdc_mint ud = ev_usdc_mint ev"
      "ud_escrow_program_id ud = ev_escrow_program_id ev"
  obtains m ps call where "parsed_message_from_bytes b = Inr m" "hd (account_keys m) = ud_agent_pubkey ud"
    "account_keys m \<noteq> []" "ep_sid ps = ud_service_id ud" "ep_agent ps = ud_agent_pubkey ud"
    "decode_bs58_pubkey cr (ev_escrow_program_id ev) = Inr (ep_program ps)"
    "\<exists>bump. find_program_address cr (escrow_seeds (ep_agent ps) (ep_sid ps)) (ep_program ps)
       = Some (ep_pda ps, bump)"
    "parse_deposit_ix cr (ep_program ps) m = Inr call" "dc_amount call = ud_amount ud"
    "dc_sid call = ud_service_id ud" "dc_expiry call = ud_expiry_slot ud"
    "check_deposit_accounts cr ev ps m (dc_ix call) = Inr ()"
proof -
  note k = escrow_crypto_constants [OF laws]
  from laws b lens obtain provider mint program_id pda bump agent_ata vault where
    f: "decode_bs58_pubkey cr (ud_provider_wallet ud) = Inr provider"
    "decode_bs58_pubkey cr (ud_usdc_mint ud) = Inr mint"
    "decode_bs58_pubkey cr (ud_escrow_program_id ud) = Inr program_id"
    "find_program_address cr (escrow_seeds (ud_agent_pubkey ud) (ud_service_id ud)) program_id
       = Some (pda, bump)"
    "derive_ata cr (ud_agent_pubkey ud) mint TOKEN_PROGRAM_ID = Some agent_ata"
    "derive_ata cr pda mint TOKEN_PROGRAM_ID = Some vault"
    and parsed: "parsed_message_from_bytes b
        = Inr (deposit_message cr ud provider mint program_id pda agent_ata vault)"
    by (rule build_deposit_message_ok)
  let ?m = "deposit_message cr ud provider mint program_id pda agent_ata vault"
  let ?ix = "\<lparr>program_id_index = 9, ix_accounts = [0, 4, 5, 1, 2, 3, 6, 7, 8],
      ix_data = anchor_discriminator cr ''deposit'' @ to_le_bytes (ud_amount ud) @ ud_service_id ud
        @ to_le_bytes (ud_expiry_slot ud)\<rparr>"
  let ?ps = "\<lparr>ep_sid = ud_service_id ud, ep_agent = ud_agent_pubkey ud, ep_program = program_id, ep_pda = pda\<rparr>"
  let ?call = "\<lparr>dc_ix = ?ix, dc_amount = ud_amount ud, dc_sid = ud_service_id ud, dc_expiry = ud_expiry_slot ud\<rparr>"
  note view = deposit_message_view [of cr ud provider mint program_id pda agent_ata vault]
  have "parse_deposit_ix cr program_id ?m = Inr ?call"
    unfolding parse_deposit_ix_Inr view(1)
    using k(5) [of "''deposit''"] lens(2) by (simp add: is_program_ix_def view(2))
  moreover have "check_deposit_accounts cr ev ?ps ?m ?ix = Inr ()"
    using f by (simp add: check_deposit_accounts_Inr k(4) cfg [symmetric] key_at_def deposit_message_def
        legacy_message_def)
  ultimately show thesis
    using parsed f by (intro that [of ?m ?ps ?call]) (simp_all add: cfg deposit_message_def legacy_message_def)
qed

lemma deposit_tx_accepted:
  assumes laws: "escrow_crypto_laws (ve_crypto env)" "signing_laws (ve_crypto env) (ve_ed25519 env) sg"
      "\<And>bs. ve_b64_decode env (b64_encode sg bs) = Some bs"
    and tx: "build_deposit_tx (ve_crypto env) sg dp = Inr tx"
    and lens: "length (dp_service_id dp) = 32" "length (dp_recent_blockhash dp) = 32"
    and cfg: "dp_provider_wallet dp = ev_recipient_wallet ev" "dp_usdc_mint dp = ev_usdc_mint ev"
      "dp_escrow_program_id dp = ev_escrow_program_id ev"
    and agent: "bs58_decode (ve_crypto env) (dp_agent_keypair dp) = Some kp" "keypair_pubkey sg kp = Some agent"
    and payload: "pp_payload payload = Payload_Escrow p" "ep_deposit_tx p = tx"
      "ve_b64_decode env (ep_service_id p) = Some (dp_service_id dp)"
      "decode_bs58_pubkey (ve_crypto env) (ep_agent_pubkey p) = Inr agent"
    and enough: "parse_u64 (pa_amount (pp_accepted payload)) = Some required" "required \<le> dp_amount dp"
    and slot: "get_current_slot (ve_http env) now = Inr slot" "unat slot + 50 \<le> unat (dp_expiry_slot dp)"
  shows "escrow_verify_payment env ev now payload
    = Inr \<lparr>vr_valid = True, vr_reason = None, vr_verified_amount = Some (dp_amount dp)\<rparr>"
proof -
  let ?cr = "ve_crypto env"
  let ?ud = "\<lparr>ud_agent_pubkey = agent, ud_provider_wallet = dp_provider_wallet dp,
    ud_usdc_mint = dp_usdc_mint dp, ud_escrow_program_id = dp_escrow_program_id dp,
    ud_amount = dp_amount dp, ud_service_id = dp_service_id dp, ud_expiry_slot = dp_expiry_slot dp,
    ud_recent_blockhash = dp_recent_blockhash dp\<rparr>"
  from tx agent obtain msg where msg: "build_deposit_message ?cr ?ud = Inr msg"
    and wire: "tx = b64_encode sg (sign_wire sg kp msg)"
    by (auto simp: build_deposit_tx_def and_then_Inr_iff client_keypair_ok split: if_splits)
  have key: "length agent = 32" "valid_key (ve_ed25519 env) agent"
    "verify_sig (ve_ed25519 env) agent msg (ed_sign sg kp msg)"
    using laws(2) agent(2) unfolding signing_laws_def by blast+
  obtain m ps call where
    d: "parsed_message_from_bytes msg = Inr m" "hd (account_keys m) = agent" "account_keys m \<noteq> []"
    "ep_sid ps = dp_service_id dp" "ep_agent ps = agent"
    "decode_bs58_pubkey ?cr (ev_escrow_program_id ev) = Inr (ep_program ps)"
    "\<exists>bump. find_program_address ?cr (escrow_seeds (ep_agent ps) (ep_sid ps)) (ep_program ps)
       = Some (ep_pda ps, bump)"
    "parse_deposit_ix ?cr (ep_program ps) m = Inr call" "dc_amount call = dp_amount dp"
    "dc_sid call = dp_service_id dp" "dc_expiry call = dp_expiry_slot dp"
    "check_deposit_accounts ?cr ev ps m (dc_ix call) = Inr ()"
    by (rule built_deposit_checks [OF laws(1) msg, of ev]) (use key(1) lens cfg in auto)
  let ?tx = "\<lparr>vt_signatures = [ed_sign sg kp msg], vt_message_bytes = msg\<rparr>"
  have "decode_deposit_tx env (ep_deposit_tx p) = Inr ?tx"
    by (simp add: decode_deposit_tx_Inr payload(2) wire laws(3) sign_wire_parses [OF laws(2) agent(2)])
  moreover have "derive_escrow_parties env ev p = Inr ps"
    using d lens payload(3,4) by (simp add: derive_escrow_parties_Inr)
  moreover have "check_agent_signature env ps ?tx = Inr m"
    using d(1-3,5) key(2,3) by (cases "account_keys m") (auto simp: check_agent_signature_Inr)
  ultimately have "deposit_ok_for env ev now payload p ps ?tx m call"
    using d payload(1) enough slot by (simp add: deposit_ok_for_def)
  then show ?thesis using d(9) unfolding escrow_verify_Inr by metis
qed

text \<open>
  What the client library builds, the gateway accepts. A deposit transaction built for the
  gateway's wallet, mint and program, with at least the required amount, an expiry at least fifty
  slots past the node's current slot and the payload naming its own service id and agent, passes
  the escrow verifier, which reports exactly the deposited amount.
\<close>
theorem built_deposit_verifies:
  assumes laws: "escrow_crypto_laws (ve_crypto env)" "signing_laws (ve_crypto env) (ve_ed25519 env) sg"
      "\<And>bs. ve_b64_decode env (b64_encode sg bs) = Some bs"
    and tx: "build_deposit_tx (ve_crypto env) sg dp = Inr tx"
    and lens: "length (dp_service_id dp) = 32" "length (dp_recent_blockhash dp) = 32"
    and cfg: "dp_provider_wallet dp = ev_recipient_wallet ev" "dp_usdc_mint dp = ev_usdc_mint ev"
      "dp_escrow_program_id dp = ev_escrow_program_id ev"
    and agent: "bs58_decode (ve_crypto env) (dp_agent_keypair dp) = Some kp" "keypair_pubkey sg kp = Some agent"
    and payload: "pp_payload payload = Payload_Escrow p" "ep_deposit_tx p = tx"
      "ve_b64_decode env (ep_service_id p) = Some (dp_service_id dp)"
      "decode_bs58_pubkey (ve_crypto env) (ep_agent_pubkey p) = Inr agent"
    and enough: "parse_u64 (pa_amount (pp_accepted payload)) = Some required" "required \<le> dp_amount dp"
    and slot: "get_current_slot (ve_http env) now = Inr slot" "unat slot + 50 \<le> unat (dp_expiry_slot dp)"
  shows "escrow_verify_payment env ev now payload
    = Inr \<lparr>vr_valid = True, vr_reason = None, vr_verified_amount = Some (dp_amount dp)\<rparr>"
  by (rule deposit_tx_accepted) (fact assms)+

section \<open>A payment from end to end\<close>

definition mini_signing :: signing where
  "mini_signing = toy_signing\<lparr>b64_encode := map (\<lambda>b. char_of (unat b))\<rparr>"

text \<open>A node that answers every request with slot 1000.\<close>

definition slot_node :: http where
  "slot_node = \<lparr>http_post = (\<lambda>_ _. Inr (JObj [(''result'', JInt 1000)])), http_latency = (\<lambda>_ _. 1),
     json_text = (\<lambda>_. [])\<rparr>"

definition mini_venv :: verifier_env where
  "mini_venv = \<lparr>ve_crypto = toy_escrow_crypto, ve_ed25519 = toy_ed25519, ve_http = slot_node,
     ve_b64_decode = (\<lambda>s. Some (ascii s))\<rparr>"

definition mini_ev :: escrow_verifier where
  "mini_ev = \<lparr>ev_recipient_wallet = replicate 32 (CHR 0x02), ev_usdc_mint = replicate 32 (CHR 0x03),
     ev_escrow_program_id = replicate 32 (CHR 0x04)\<rparr>"

definition mini_dp :: deposit_params where
  "mini_dp = \<lparr>dp_agent_keypair = replicate 64 (CHR 0x01), dp_provider_wallet = replicate 32 (CHR 0x02),
     dp_usdc_mint = replicate 32 (CHR 0x03), dp_escrow_program_id = replicate 32 (CHR 0x04),
     dp_amount = 60, dp_service_id = replicate 32 9, dp_expiry_slot = 1100,
     dp_recent_blockhash = replicate 32 8\<rparr>"

definition mini_ud :: unsigned_deposit_params where
  "mini_ud = \<lparr>ud_agent_pubkey = k_agent, ud_provider_wallet = replicate 32 (CHR 0x02),
     ud_usdc_mint = replicate 32 (CHR 0x03), ud_escrow_program_id = replicate 32 (CHR 0x04),
     ud_amount = 60, ud_service_id = replicate 32 9, ud_expiry_slot = 1100,
     ud_recent_blockhash = replicate 32 8\<rparr>"

definition mini_payload :: "string \<Rightarrow> escrow_payload" where
  "mini_payload tx = \<lparr>ep_deposit_tx = tx, ep_service_id = replicate 32 (CHR 0x09),
     ep_agent_pubkey = replicate 32 (CHR 0x01)\<rparr>"

definition mini_payment :: "string \<Rightarrow> payment_payload" where
  "mini_payment tx = \<lparr>pp_x402_version = 2, pp_resource = \<lparr>res_url = ''/v1/chat/completions'', res_method = ''POST''\<rparr>,
     pp_accepted = \<lparr>pa_scheme = ''escrow'', pa_network = SOLANA_NETWORK, pa_amount = ''50'', pa_asset = [],
       pa_pay_to = [], pa_max_timeout_seconds = 300, pa_escrow_program_id = None\<rparr>,
     pp_payload = Payload_Escrow (mini_payload tx)\<rparr>"

lemma mini_signing_laws: "signing_laws toy_escrow_crypto toy_ed25519 mini_signing"
  using toy_signing_laws_escrow by (simp add: signing_laws_def mini_signing_def)

lemma mini_key:
  "c \<noteq> CHR ''1'' \<Longrightarrow> decode_bs58_pubkey toy_escrow_crypto (replicate 32 c) = Inr (replicate 32 (of_char c))"
  by (simp add: decode_bs58_pubkey_def toy_escrow_crypto_def toy_bs58_decode_def ascii_def
      TOKEN_PROGRAM_ID_B58_def ATA_PROGRAM_ID_def SYSTEM_PROGRAM_ID_def numeral_eq_Suc)

lemma mini_keypair:
  "bs58_decode toy_escrow_crypto (replicate 64 (CHR 0x01)) = Some (replicate 64 1)"
  "keypair_pubkey mini_signing (replicate 64 1) = Some k_agent"
  by (simp_all add: toy_escrow_crypto_def toy_bs58_decode_def ascii_def TOKEN_PROGRAM_ID_B58_def
      ATA_PROGRAM_ID_def SYSTEM_PROGRAM_ID_def mini_signing_def toy_signing_def numeral_eq_Suc)

lemma toy_find:
  "find_program_address toy_escrow_crypto (escrow_seeds k_agent sid) pid = Some (k_escrow, 255)"
  unfolding toy_escrow_pda escrow_seeds_def by (simp add: k_escrow_def take_replicate)

lemma mini_addresses:
  "decode_bs58_pubkey toy_escrow_crypto (replicate 32 (CHR 0x02)) = Inr k_provider"
  "decode_bs58_pubkey toy_escrow_crypto (replicate 32 (CHR 0x03)) = Inr k_usdc"
  "decode_bs58_pubkey toy_escrow_crypto (replicate 32 (CHR 0x04)) = Inr (replicate 32 4)"
  "decode_bs58_pubkey toy_escrow_crypto (replicate 32 (CHR 0x01)) = Inr k_agent"
  by (simp_all add: mini_key)

lemma mini_builds: "\<exists>b. build_deposit_message toy_escrow_crypto mini_ud = Inr b"
  using escrow_crypto_constants [OF toy_escrow_crypto_laws]
  by (simp add: build_deposit_message_def Let_def deposit_address_def mini_ud_def mini_addresses toy_find
      toy_escrow_ata build_legacy_message_def map_err_def)

lemma mini_deposit_tx:
  obtains msg where "build_deposit_message toy_escrow_crypto mini_ud = Inr msg"
    "build_deposit_tx toy_escrow_crypto mini_signing mini_dp
      = Inr (b64_encode mini_signing (sign_wire mini_signing (replicate 64 1) msg))"
proof -
  have "client_keypair toy_escrow_crypto mini_signing DepositInvalidKeypair (replicate 64 (CHR 0x01))
    = Inr (replicate 64 1, k_agent)"
    by (simp add: client_keypair_ok mini_keypair)
  then have "build_deposit_tx toy_escrow_crypto mini_signing mini_dp
      = Inr (b64_encode mini_signing (sign_wire mini_signing (replicate 64 1) msg))"
    if "build_deposit_message toy_escrow_crypto mini_ud = Inr msg" for msg
    using that by (simp add: build_deposit_tx_def mini_dp_def mini_ud_def)
  with mini_builds that show thesis by blast
qed

lemma mini_slot: "get_current_slot slot_node now = Inr 1000"
  by (simp add: get_current_slot_def rpc_request_def slot_node_def)

lemma mini_required: "parse_u64 ''50'' = Some 50"
  by (simp add: parse_u64_def digit_value_def Let_def)

lemma mini_accepted:
  assumes tx: "build_deposit_tx toy_escrow_crypto mini_signing mini_dp = Inr tx"
  shows "escrow_verify_payment mini_venv mini_ev 0 (mini_payment tx)
    = Inr \<lparr>vr_valid = True, vr_reason = None, vr_verified_amount = Some 60\<rparr>"
proof -
  have "escrow_verify_payment mini_venv mini_ev 0 (mini_payment tx)
    = Inr \<lparr>vr_valid = True, vr_reason = None, vr_verified_amount = Some (dp_amount mini_dp)\<rparr>"
  proof (rule deposit_tx_accepted [where sg = mini_signing and dp = mini_dp and kp = "replicate 64 1"
        and agent = k_agent and required = 50 and slot = 1000 and p = "mini_payload tx"])
    show "build_deposit_tx (ve_crypto mini_venv) mini_signing mini_dp = Inr tx"
      using tx by (simp add: mini_venv_def)
    show "ve_b64_decode mini_venv (b64_encode mini_signing bs) = Some bs" for bs
      by (simp add: mini_venv_def mini_signing_def ascii_chars)
    show "ve_b64_decode mini_venv (ep_service_id (mini_payload tx)) = Some (dp_service_id mini_dp)"
      by (simp add: mini_venv_def mini_payload_def mini_dp_def ascii_def)
  qed (simp_all add: mini_venv_def toy_escrow_crypto_laws mini_signing_laws mini_dp_def mini_ev_def
      mini_payment_def mini_payload_def mini_keypair mini_addresses mini_required mini_slot)
  then show ?thesis by (simp add: mini_dp_def)
qed

theorem built_deposit_verifies_witness:
  "\<exists>tx. build_deposit_tx toy_escrow_crypto mini_signing mini_dp = Inr tx
     \<and> escrow_verify_payment mini_venv mini_ev 0 (mini_payment tx)
       = Inr \<lparr>vr_valid = True, vr_reason = None, vr_verified_amount = Some 60\<rparr>"
proof -
  obtain msg where tx: "build_deposit_tx toy_escrow_crypto mini_signing mini_dp
      = Inr (b64_encode mini_signing (sign_wire mini_signing (replicate 64 1) msg))" (is "_ = Inr ?tx")
    by (rule mini_deposit_tx)
  have "escrow_verify_payment mini_venv mini_ev 0 (mini_payment ?tx)
    = Inr \<lparr>vr_valid = True, vr_reason = None, vr_verified_amount = Some (dp_amount mini_dp)\<rparr>"
  proof (rule built_deposit_verifies [where sg = mini_signing and dp = mini_dp and kp = "replicate 64 1"
        and agent = k_agent and required = 50 and slot = 1000 and p = "mini_payload ?tx"])
    show "build_deposit_tx (ve_crypto mini_venv) mini_signing mini_dp = Inr ?tx"
      using tx by (simp add: mini_venv_def)
    show "ve_b64_decode mini_venv (b64_encode mini_signing bs) = Some bs" for bs
      by (simp add: mini_venv_def mini_signing_def ascii_chars)
    show "ve_b64_decode mini_venv (ep_service_id (mini_payload ?tx)) = Some (dp_service_id mini_dp)"
      by (simp add: mini_venv_def mini_payload_def mini_dp_def ascii_def)
  qed (simp_all add: mini_venv_def toy_escrow_crypto_laws mini_signing_laws mini_dp_def mini_ev_def
      mini_payment_def mini_payload_def mini_keypair mini_addresses mini_required mini_slot)
  with tx show ?thesis by (auto simp: mini_dp_def)
qed

definition mini_pe :: program_env where
  "mini_pe = mini_env\<lparr>pe_crypto := toy_escrow_crypto\<rparr>"

lemma toy_ata_ok: "length w = 32 \<Longrightarrow> ata_ok mini_pe w k addr \<longleftrightarrow> addr = w"
  by (auto simp: ata_ok_def mini_pe_def toy_escrow_ata)

lemma toy_find':
  "find_program_address (pe_crypto mini_pe) (escrow_seeds k_agent sid) (pe_program_id mini_pe)
     = Some (k_escrow, 255)"
  by (simp add: mini_pe_def toy_find)

lemma toy_deposit_runs:
  "process mini_spl mini_pe 1000 (Ix_deposit mini_deposit 60 (replicate 32 9) 1100) mini_st0
   = Inr mini_st1"
proof -
  have "deposit_constraints mini_spl mini_pe mini_deposit (replicate 32 9) mini_st0
    = Inr (255, 6, [k_agent \<mapsto> usdc_account k_agent 100, k_escrow \<mapsto> usdc_account k_escrow 0])"
    by (simp add: deposit_constraints_def mini_deposit_def mini_st0_def require_def
        load_token_account_def associated_token_init_def associated_token_def toy_ata_ok
        toy_find' fresh_account_def usdc_account_def fun_upd_twist)
      (simp add: mini_pe_def mini_env_def)
  then show ?thesis
    by (simp add: deposit_def require_def saturating_sub_def MAX_ESCROW_SLOTS_def
        MIN_EXPIRY_BUFFER_def mini_deposit_def cpi_transfer_def transferred_def mini_st1_def
        mini_st0_def mini_escrow_def usdc_account_def fun_upd_twist)
qed

lemma mini_message:
  assumes "build_deposit_message toy_escrow_crypto mini_ud = Inr msg"
  shows "parsed_message_from_bytes msg = Inr (deposit_message toy_escrow_crypto mini_ud k_provider k_usdc
    (replicate 32 4) k_escrow k_agent k_escrow)"
proof -
  obtain provider mint program_id pda bump agent_ata vault where
    f: "decode_bs58_pubkey toy_escrow_crypto (ud_provider_wallet mini_ud) = Inr provider"
    "decode_bs58_pubkey toy_escrow_crypto (ud_usdc_mint mini_ud) = Inr mint"
    "decode_bs58_pubkey toy_escrow_crypto (ud_escrow_program_id mini_ud) = Inr program_id"
    "find_program_address toy_escrow_crypto (escrow_seeds (ud_agent_pubkey mini_ud) (ud_service_id mini_ud)) program_id
       = Some (pda, bump)"
    "derive_ata toy_escrow_crypto (ud_agent_pubkey mini_ud) mint TOKEN_PROGRAM_ID = Some agent_ata"
    "derive_ata toy_escrow_crypto pda mint TOKEN_PROGRAM_ID = Some vault"
    and parsed: "parsed_message_from_bytes msg
        = Inr (deposit_message toy_escrow_crypto mini_ud provider mint program_id pda agent_ata vault)"
    by (rule build_deposit_message_ok [OF toy_escrow_crypto_laws assms]) (simp_all add: mini_ud_def)
  then show ?thesis
    by (auto simp: mini_ud_def mini_addresses toy_find toy_escrow_ata)
qed

lemma toy_rent: "decode_bs58_pubkey toy_escrow_crypto SYSVAR_RENT_ID
    = Inr (take 32 (ascii SYSVAR_RENT_ID))"
  by (simp add: decode_bs58_pubkey_def toy_escrow_crypto_def toy_bs58_decode_def SYSVAR_RENT_ID_def
      TOKEN_PROGRAM_ID_B58_def ATA_PROGRAM_ID_def SYSTEM_PROGRAM_ID_def)

lemma mini_venv_crypto: "ve_crypto mini_venv = toy_escrow_crypto"
  by (simp add: mini_venv_def)

definition mini_claimer :: escrow_claimer where
  "mini_claimer = \<lparr>ec_escrow_program_id = replicate 32 4, ec_recipient_wallet = k_provider,
     ec_usdc_mint = k_usdc, ec_fee_payer_pool = \<lparr>fpp_wallets = [], fpp_counter = 0, fpp_cooldown = 60\<rparr>,
     ec_nonce_pool = None\<rparr>"

theorem verified_deposit_is_claimable_witness:
  "\<exists>tx r ad e. escrow_verify_payment mini_venv mini_ev 0 (mini_payment tx) = Inr r
     \<and> derive_claim_addresses toy_escrow_crypto \<lparr>cp_fee_payer_keypair = [], cp_fee_payer_index = 0,
         cp_escrow_program_id = ec_escrow_program_id mini_claimer,
         cp_recipient_wallet = ec_recipient_wallet mini_claimer, cp_usdc_mint = ec_usdc_mint mini_claimer,
         cp_service_id = replicate 32 9, cp_agent_pubkey = k_agent, cp_actual_amount = 55\<rparr> = Inr ad
     \<and> escrows mini_st1 (cl_escrow_pda ad) = Some e \<and> es_provider e = k_provider
     \<and> vr_verified_amount r = Some (es_amount e)"
proof -
  let ?m = "deposit_message toy_escrow_crypto mini_ud k_provider k_usdc (replicate 32 4) k_escrow k_agent k_escrow"
  obtain msg where msg: "build_deposit_message toy_escrow_crypto mini_ud = Inr msg"
    and tx: "build_deposit_tx toy_escrow_crypto mini_signing mini_dp
      = Inr (b64_encode mini_signing (sign_wire mini_signing (replicate 64 1) msg))" (is "_ = Inr ?tx")
    by (rule mini_deposit_tx)
  note view = deposit_message_view [of toy_escrow_crypto mini_ud k_provider k_usdc "replicate 32 4" k_escrow
      k_agent k_escrow]
  have call: "program_call toy_escrow_crypto ?m (instructions ?m ! 0)
      = Some (Ix_deposit mini_deposit 60 (replicate 32 9) 1100)"
    using view(1,3) escrow_crypto_constants(5) [OF toy_escrow_crypto_laws, of "''deposit''"]
    by (simp add: program_call_def Let_def mini_deposit_def mini_ud_def)
  obtain ad where ad: "derive_claim_addresses toy_escrow_crypto \<lparr>cp_fee_payer_keypair = [],
      cp_fee_payer_index = 0, cp_escrow_program_id = ec_escrow_program_id mini_claimer,
      cp_recipient_wallet = ec_recipient_wallet mini_claimer, cp_usdc_mint = ec_usdc_mint mini_claimer,
      cp_service_id = replicate 32 9, cp_agent_pubkey = k_agent, cp_actual_amount = 55\<rparr> = Inr ad"
    using escrow_crypto_constants [OF toy_escrow_crypto_laws]
    by (auto simp: derive_claim_addresses_def claim_derive_def claim_address_def mini_claimer_def toy_find
        toy_escrow_ata toy_rent)
  let ?wire = "sign_wire mini_signing (replicate 64 1) msg"
  let ?vt = "\<lparr>vt_signatures = [ed_sign mini_signing (replicate 64 1) msg], vt_message_bytes = msg\<rparr>"
  have laws: "spl_laws mini_spl" "escrow_crypto_laws (ve_crypto mini_venv)"
    by (simp_all add: mini_spl_def map_spl_laws mini_venv_def toy_escrow_crypto_laws)
  have pe: "pe_crypto mini_pe = ve_crypto mini_venv"
    "decode_bs58_pubkey (ve_crypto mini_venv) (ev_escrow_program_id mini_ev) = Inr (pe_program_id mini_pe)"
    by (simp_all add: mini_pe_def mini_env_def mini_venv_def mini_ev_def mini_addresses)
  have payload: "pp_payload (mini_payment ?tx) = Payload_Escrow (mini_payload ?tx)"
    "ve_b64_decode mini_venv (ep_deposit_tx (mini_payload ?tx)) = Some ?wire"
    by (simp_all add: mini_payment_def mini_payload_def mini_venv_def mini_signing_def ascii_chars)
  have parsed: "parsed_message_from_bytes (vt_message_bytes ?vt) = Inr ?m"
    by (simp add: mini_message [OF msg])
  have find: "List.find (is_program_ix ?m (pe_program_id mini_pe)) (instructions ?m) = Some (instructions ?m ! 0)"
    by (simp add: view(1,2) is_program_ix_def mini_pe_def mini_env_def)
  have signer: "ix_escrow (Ix_deposit mini_deposit 60 (replicate 32 9) 1100) \<notin> set (signer_keys ?m)"
    by (simp add: mini_deposit_def signer_keys_def deposit_message_def legacy_message_def mini_ud_def)
  have claimer: "new_claimer (ve_crypto mini_venv) (ec_fee_payer_pool mini_claimer)
      (ev_escrow_program_id mini_ev) (ev_recipient_wallet mini_ev) (ev_usdc_mint mini_ev) None = Inr mini_claimer"
    "ve_b64_decode mini_venv (ep_service_id (mini_payload ?tx)) = Some (replicate 32 9)"
    "decode_bs58_pubkey (ve_crypto mini_venv) (ep_agent_pubkey (mini_payload ?tx)) = Inr k_agent"
    by (simp_all add: new_claimer_def mini_venv_def mini_ev_def mini_payload_def mini_addresses
        mini_claimer_def ascii_def)
  from verified_deposit_is_claimable [OF laws pe mini_accepted [OF tx] payload
      sign_wire_parses [OF mini_signing_laws mini_keypair(2)] parsed find _ toy_deposit_runs signer claimer
      ad [folded mini_venv_crypto]] call
  obtain e where "escrows mini_st1 (cl_escrow_pda ad) = Some e" "es_provider e = ec_recipient_wallet mini_claimer"
    "Some 60 = Some (es_amount e)"
    by (auto simp: mini_venv_crypto)
  with ad show ?thesis
    by (intro exI [of _ ?tx] exI [of _ "\<lparr>vr_valid = True, vr_reason = None, vr_verified_amount = Some 60\<rparr>"]
        exI [of _ ad] exI [of _ e]) (simp add: mini_accepted [OF tx] mini_claimer_def)
qed

section \<open>The contract of a payment verifier\<close>

text \<open>
  What the facilitator relies on: an accepted payment covers the price, settling always returns,
  and a settlement is reported as successful only when the node confirmed the transaction.
\<close>

locale verifier_contract =
  fixes verify :: "verifier_env \<Rightarrow> nat \<Rightarrow> payment_payload \<Rightarrow> 'v \<Rightarrow> (payment_error, verification_result) result"
    and settle :: "verifier_env \<Rightarrow> nat \<Rightarrow> payment_payload \<Rightarrow> 'v
      \<Rightarrow> (payment_error, settlement_result) result option"
  assumes verify_covers: "verify env now payload v = Inr r \<Longrightarrow>
      vr_valid r \<and> (\<exists>amount required. vr_verified_amount r = Some amount
        \<and> parse_u64 (pa_amount (pp_accepted payload)) = Some required \<and> required \<le> amount)"
    and settle_returns: "settle env now payload v \<noteq> None"
    and settle_confirmed: "settle env now payload v = Some (Inr s) \<Longrightarrow> sr_success s \<Longrightarrow>
      \<exists>sig t. sr_tx_signature s = Some sig \<and> now \<le> t \<and> confirmed_by_node env t sig"
begin

lemma verified_and_settled:
  assumes "verify env now payload v = Inr r" "settle env later payload v = Some (Inr s)" "sr_success s"
  shows "\<exists>amount required sig t. vr_verified_amount r = Some amount
    \<and> parse_u64 (pa_amount (pp_accepted payload)) = Some required \<and> required \<le> amount
    \<and> sr_tx_signature s = Some sig \<and> later \<le> t \<and> confirmed_by_node env t sig"
  using verify_covers [OF assms(1)] settle_confirmed [OF assms(2,3)] by blast

end

lemma await_returns: "\<exists>s. await_settlement env now sig amount = Some s"
  by (rule await_settlement_outcome [of env now sig amount]) simp_all

lemma await_confirmed:
  assumes "await_settlement env (now + latency) sig amount = Some s" "sr_success s"
  shows "\<exists>sig. sr_tx_signature s = Some sig \<and> (\<exists>t\<ge>now. confirmed_by_node env t sig)"
  using assms by (cases rule: await_settlement_outcome [of env "now + latency" sig amount])
    (auto simp: settlement_confirmed_def settlement_failed_def intro!: exI [of _ "now + latency"])

interpretation exact: verifier_contract
  "\<lambda>env now payload v. direct_verify_payment env v now payload"
  "\<lambda>env now payload v. direct_settle_payment env now payload"
proof
  fix env now payload v r
  assume "direct_verify_payment env v now payload = Inr r"
  then show "vr_valid r \<and> (\<exists>amount required. vr_verified_amount r = Some amount
      \<and> parse_u64 (pa_amount (pp_accepted payload)) = Some required \<and> required \<le> amount)"
    by (auto simp: direct_verify_payment_def verify_against_Inr direct_payment_ok_def word_le_nat_alt)
next
  fix env now payload
  show "direct_settle_payment env now payload \<noteq> None"
    by (auto simp: direct_settle_payment_def await_returns split: sum.splits)
next
  fix env now payload s
  assume "direct_settle_payment env now payload = Some (Inr s)" "sr_success s"
  then show "\<exists>sig t. sr_tx_signature s = Some sig \<and> now \<le> t \<and> confirmed_by_node env t sig"
    by (auto simp: direct_settle_payment_def settlement_failed_def split: sum.splits
        dest: await_confirmed)
qed

interpretation escrow: verifier_contract
  "\<lambda>env now payload v. escrow_verify_payment env v now payload"
  "\<lambda>env now payload v. escrow_settle_payment env v now payload"
proof
  fix env now payload v r
  assume "escrow_verify_payment env v now payload = Inr r"
  then show "vr_valid r \<and> (\<exists>amount required. vr_verified_amount r = Some amount
      \<and> parse_u64 (pa_amount (pp_accepted payload)) = Some required \<and> required \<le> amount)"
    by (auto simp: escrow_verify_Inr deposit_ok_for_def)
next
  fix env now payload v
  show "escrow_settle_payment env v now payload \<noteq> None"
    by (auto simp: escrow_settle_payment_def Let_def await_returns split: sum.splits)
next
  fix env now payload v s
  assume "escrow_settle_payment env v now payload = Some (Inr s)" "sr_success s"
  then show "\<exists>sig t. sr_tx_signature s = Some sig \<and> now \<le> t \<and> confirmed_by_node env t sig"
    by (auto simp: escrow_settle_payment_def Let_def settlement_failed_def split: sum.splits if_splits
        dest: await_confirmed)
qed

interpretation gateway: verifier_contract verify_payment settle_payment
proof
  fix env now payload v r
  assume "verify_payment env now payload v = Inr r"
  then show "vr_valid r \<and> (\<exists>amount required. vr_verified_amount r = Some amount
      \<and> parse_u64 (pa_amount (pp_accepted payload)) = Some required \<and> required \<le> amount)"
    using exact.verify_covers escrow.verify_covers by (cases v) auto
next
  fix env now payload v
  show "settle_payment env now payload v \<noteq> None"
    using exact.settle_returns escrow.settle_returns by (cases v) auto
next
  fix env now payload v s
  assume "settle_payment env now payload v = Some (Inr s)" "sr_success s"
  then show "\<exists>sig t. sr_tx_signature s = Some sig \<and> now \<le> t \<and> confirmed_by_node env t sig"
    using exact.settle_confirmed escrow.settle_confirmed by (cases v) auto
qed

text \<open>What a settlement outcome must rest on.\<close>

definition settled_soundly ::
  "verifier_env \<Rightarrow> payment_verifier list \<Rightarrow> nat \<Rightarrow> nat \<Rightarrow> payment_payload
     \<Rightarrow> (payment_error, settlement_result) result \<Rightarrow> bool" where
  "settled_soundly env vs now later payload x \<longleftrightarrow>
    (case x of
       Inl _ \<Rightarrow> True
     | Inr s \<Rightarrow> sr_success s \<longrightarrow>
         (\<exists>v r amount required sig t. payload_verifier vs payload = Inr v
            \<and> verify_payment env now payload v = Inr r \<and> vr_verified_amount r = Some amount
            \<and> parse_u64 (pa_amount (pp_accepted payload)) = Some required \<and> required \<le> amount
            \<and> sr_tx_signature s = Some sig \<and> later \<le> t \<and> confirmed_by_node env t sig))"

lemma settle_if_valid_Some:
  "\<exists>x. settle_if_valid env later payload v ver = Some x"
  using gateway.settle_returns [of env later payload v]
  by (auto simp: settle_if_valid_def split: sum.splits)

lemma settle_if_valid_Inr:
  "settle_if_valid env later payload v ver = Some (Inr s) \<Longrightarrow>
     \<exists>r. ver = Inr r \<and> settle_payment env later payload v = Some (Inr s)"
  by (auto simp: settle_if_valid_def split: sum.splits if_splits)

text \<open>
  Verify-and-settle always answers, and it reports success only for a payment that was really
  made: the verifier of the payload's network and scheme accepted it, the verified amount covers
  the required one, and the node confirmed the transaction after it was submitted.
\<close>
theorem verify_and_settle_sound:
  "\<exists>x. verify_and_settle env vs now later payload = Some x \<and> settled_soundly env vs now later payload x"
proof (cases "payload_verifier vs payload")
  case (Inl e)
  then show ?thesis by (simp add: verify_and_settle_def settled_soundly_def)
next
  case v: (Inr v)
  obtain x where x: "settle_if_valid env later payload v (verify_payment env now payload v) = Some x"
    using settle_if_valid_Some by blast
  have "settled_soundly env vs now later payload x"
  proof (cases x)
    case (Inr s)
    with x settle_if_valid_Inr obtain r where
      "verify_payment env now payload v = Inr r" "settle_payment env later payload v = Some (Inr s)"
      by blast
    with gateway.verified_and_settled v show ?thesis
      unfolding settled_soundly_def Inr sum.case by blast
  qed (simp add: settled_soundly_def)
  with x v show ?thesis by (simp add: verify_and_settle_def)
qed

text \<open>
  A recipient override is honoured or refused, never ignored. When a payment addressed to a
  vendor's wallet reaches settlement, it went through the direct verifier and pays that very
  wallet; the escrow verifier, which cannot check another recipient, refuses it.
\<close>
theorem recipient_override_honoured:
  "case verify_and_settle_to env vs now later payload expected of
     Some (Inr s) \<Rightarrow> \<exists>v key amount. payload_verifier vs payload = Inr (Exact v)
       \<and> decode_bs58_pubkey (ve_crypto env) expected = Inr key
       \<and> direct_payment_ok env v now payload key amount
   | Some (Inl _) \<Rightarrow> True
   | None \<Rightarrow> False"
proof (cases "payload_verifier vs payload")
  case (Inl e)
  then show ?thesis by (simp add: verify_and_settle_to_def)
next
  case v: (Inr v)
  obtain x where x: "settle_if_valid env later payload v (verify_payment_to env now payload expected v) = Some x"
    using settle_if_valid_Some by blast
  show ?thesis
  proof (cases x)
    case (Inr s)
    with x settle_if_valid_Inr obtain r where r: "verify_payment_to env now payload expected v = Inr r"
      by blast
    then obtain w where w: "v = Exact w" by (cases v) simp_all
    with r obtain key where "decode_bs58_pubkey (ve_crypto env) expected = Inr key"
      "verify_payment_against env w now payload key = Inr r"
      by (auto simp: direct_verify_payment_to_def and_then_Inr_iff)
    with x v w Inr show ?thesis
      by (auto simp: verify_and_settle_to_def verify_against_Inr)
  qed (use x v in \<open>simp add: verify_and_settle_to_def\<close>)
qed

end
