(* ===== verification/Channel_Handlers.thy ===== *)
theory Channel_Handlers
  imports Channel_Draw Rate_Limit Channel_Refunds Escrow_Verifier
begin

text \<open>
  Opening and closing a channel over HTTP (\<open>gateway/src/routes/channel.rs\<close>). Opening composes the
  rate limiter, the facilitator and the ledger: a signed funding transfer is verified, capped,
  settled on chain and credited. Closing composes the session-key signature, the draw lock and
  the transaction that freezes the refund.
\<close>

section \<open>Requests, responses and the world\<close>

record channel_config =
  cc_enabled :: bool
  cc_has_db :: bool
  cc_has_cache :: bool
  cc_max_deposit_atomic :: "u64 option"
  cc_recipient_wallet :: string
  cc_usdc_mint :: string

record channel_world = refund_ledger +
  cw_redis :: redis
  cw_limiter :: rate_limiter

record open_channel_request =
  or_agent_wallet :: string
  or_session_key :: "string option"
  or_funding_tx :: string
  or_expiry_slot :: "u64 option"

record open_channel_response =
  os_channel_id :: string
  os_agent_wallet :: string
  os_session_key :: string
  os_deposited_atomic :: u64
  os_settled_atomic :: u64
  os_last_cumulative_atomic :: u64
  os_status :: string
  os_funding_tx_sig :: "string option"
  os_network :: string

record close_channel_request =
  cl_channel_id :: string
  cl_signature :: string

record close_channel_response =
  cs_resp_channel_id :: string
  cs_resp_deposited_atomic :: u64
  cs_resp_settled_atomic :: u64
  cs_resp_refundable_atomic :: u64
  cs_resp_status :: string
  cs_resp_refund_status :: string
  cs_resp_tx_signature :: "string option"

datatype channel_response =
    Ch_NotAvailable
  | Ch_RateLimited
  | Ch_NotFound
  | Ch_Conflict
  | Ch_BadRequest string
  | Ch_PaymentRequired string
  | Ch_Unauthorized
  | Ch_ServiceUnavailable string
  | Ch_Internal string
  | Ch_Opened open_channel_response
  | Ch_Closed close_channel_response

text \<open>What the handlers meet: the clocks, the peer, the database and the store.\<close>

record open_io =
  oi_now :: nat
  oi_peer :: "string option"
  oi_verify_at :: nat
  oi_settle_at :: nat
  oi_random :: bytes
  oi_create :: db_faults

record close_io =
  ci_now :: nat
  ci_peer :: "string option"
  ci_load :: db_faults
  ci_token :: string
  ci_acquire :: "redis_reply \<times> nat"
  ci_close :: db_faults
  ci_db_now :: int
  ci_release :: "redis_reply \<times> nat"

section \<open>Opening\<close>

datatype channel_open_error = UnverifiedAmount | ZeroVerifiedAmount

definition credit_deposit :: "u64 option \<Rightarrow> (channel_open_error, u64) result" where
  "credit_deposit verified_amount =
    (case verified_amount of
       Some a \<Rightarrow> if a > 0 then Inr a else Inl ZeroVerifiedAmount
     | None \<Rightarrow> Inl UnverifiedAmount)"

definition deposit_within_cap :: "u64 \<Rightarrow> u64 option \<Rightarrow> bool" where
  "deposit_within_cap verified_amount cap =
    (case cap of Some c \<Rightarrow> verified_amount \<le> c | None \<Rightarrow> True)"

definition fresh_channel_id :: "crypto \<Rightarrow> bytes \<Rightarrow> string" where
  "fresh_channel_id cr random = bs58_encode cr random"

definition funding_payload :: "channel_config \<Rightarrow> string \<Rightarrow> payment_payload" where
  "funding_payload cfg funding_tx =
     \<lparr>pp_x402_version = 2, pp_resource = \<lparr>res_url = ''/v1/channel/open'', res_method = ''POST''\<rparr>,
      pp_accepted = \<lparr>pa_scheme = ''exact'', pa_network = SOLANA_NETWORK, pa_amount = ''1'',
        pa_asset = cc_usdc_mint cfg, pa_pay_to = cc_recipient_wallet cfg, pa_max_timeout_seconds = 300,
        pa_escrow_program_id = None\<rparr>,
      pp_payload = Payload_Direct \<lparr>sp_transaction = funding_tx\<rparr>\<rparr>"

definition new_channel_of :: "channel_config \<Rightarrow> open_channel_request \<Rightarrow> string \<Rightarrow> string \<Rightarrow> u64 \<Rightarrow> string option \<Rightarrow> new_channel"
where
  "new_channel_of cfg req channel_id session_key deposited sig =
     \<lparr>nc_channel_id = channel_id, nc_agent_wallet = or_agent_wallet req, nc_session_key = session_key,
      nc_provider = cc_recipient_wallet cfg, nc_mint = cc_usdc_mint cfg, nc_deposited_atomic = deposited,
      nc_expiry_slot = or_expiry_slot req, nc_funding_tx_sig = sig\<rparr>"

text \<open>The gates before any network call: the session key, or the response that ends the request.\<close>

definition open_gates :: "crypto \<Rightarrow> channel_config \<Rightarrow> open_channel_request \<Rightarrow> (channel_response, string) result" where
  "open_gates cr cfg req =
    (if \<not> cc_has_db cfg then Inl Ch_NotAvailable
     else case decode_bs58_pubkey cr (or_agent_wallet req) of
       Inl _ \<Rightarrow> Inl (Ch_BadRequest ''agent_wallet must be a base58-encoded 32-byte pubkey'')
     | Inr _ \<Rightarrow>
       (case refund_account_collision cr (or_agent_wallet req) (cc_recipient_wallet cfg) (cc_usdc_mint cfg) of
          Some role \<Rightarrow> Inl (Ch_BadRequest (''agent_wallet must not be the '' @ role))
        | None \<Rightarrow>
          let session_key = (case or_session_key req of Some k \<Rightarrow> k | None \<Rightarrow> or_agent_wallet req) in
          (case decode_bs58_pubkey cr session_key of
             Inl _ \<Rightarrow> Inl (Ch_BadRequest ''session_key must be a base58-encoded 32-byte ed25519 key'')
           | Inr _ \<Rightarrow>
             if or_funding_tx req = [] then Inl (Ch_BadRequest ''funding_tx must be present'')
             else Inr session_key)))"

text \<open>\<open>None\<close> when the settlement never returns.\<close>

definition open_channel ::
  "verifier_env \<Rightarrow> payment_verifier list \<Rightarrow> channel_config \<Rightarrow> open_io \<Rightarrow> open_channel_request \<Rightarrow> channel_world
     \<Rightarrow> (channel_response \<times> channel_world) option" where
  "open_channel env vs cfg io req w0 =
    (if \<not> cc_enabled cfg then Some (Ch_NotAvailable, w0)
     else
       let (admitted, limiter) = limiter_check (oi_now io) (connect_info_client_id (oi_peer io)) (cw_limiter w0);
           w = w0\<lparr>cw_limiter := limiter\<rparr> in
       if admitted = None then Some (Ch_RateLimited, w)
       else case open_gates (ve_crypto env) cfg req of
         Inl resp \<Rightarrow> Some (resp, w)
       | Inr session_key \<Rightarrow>
         let payload = funding_payload cfg (or_funding_tx req) in
         (case facilitator_verify env vs (oi_verify_at io) payload of
            Inl _ \<Rightarrow> Some (Ch_ServiceUnavailable ''could not verify the funding transaction on-chain'', w)
          | Inr verification \<Rightarrow>
            if \<not> vr_valid verification
              then Some (Ch_PaymentRequired ''funding transaction failed verification'', w)
            else case credit_deposit (vr_verified_amount verification) of
              Inl _ \<Rightarrow> Some (Ch_PaymentRequired ''funding transaction has no verifiable amount'', w)
            | Inr deposited_atomic \<Rightarrow>
              if \<not> deposit_within_cap deposited_atomic (cc_max_deposit_atomic cfg)
                then Some (Ch_BadRequest ''deposit exceeds the per-channel maximum'', w)
              else case facilitator_settle env vs (oi_settle_at io) payload of
                None \<Rightarrow> None
              | Some (Inl _) \<Rightarrow>
                  Some (Ch_ServiceUnavailable ''could not settle the funding transaction on-chain'', w)
              | Some (Inr settlement) \<Rightarrow>
                if \<not> sr_success settlement
                  then Some (Ch_PaymentRequired ''funding transaction did not confirm on-chain'', w)
                else
                  let channel_id = fresh_channel_id (ve_crypto env) (oi_random io) in
                  (case create_channel (ve_crypto env) (oi_create io)
                          (new_channel_of cfg req channel_id session_key deposited_atomic
                            (sr_tx_signature settlement)) w of
                     (Inl FundingAlreadyUsed, w') \<Rightarrow> Some (Ch_Conflict, w')
                   | (Inl _, w') \<Rightarrow>
                       Some (Ch_Internal ''funding confirmed but the channel could not be recorded'', w')
                   | (Inr _, w') \<Rightarrow> Some (Ch_Opened \<lparr>os_channel_id = channel_id,
                       os_agent_wallet = or_agent_wallet req, os_session_key = session_key,
                       os_deposited_atomic = deposited_atomic, os_settled_atomic = 0,
                       os_last_cumulative_atomic = 0, os_status = channel_status_str Open,
                       os_funding_tx_sig = sr_tx_signature settlement,
                       os_network = SOLANA_NETWORK\<rparr>, w'))))"

section \<open>Closing\<close>

datatype close_auth_error = MalformedCloseSignature | CorruptStoredKey string | BadSignature

definition decode_close_signature :: "(string \<Rightarrow> bytes option) \<Rightarrow> string \<Rightarrow> (close_auth_error, bytes) result" where
  "decode_close_signature b64 s = fixed_array 64 MalformedCloseSignature (b64 s)"

definition authorize_close ::
  "crypto \<Rightarrow> ed25519 \<Rightarrow> (string \<Rightarrow> bytes option) \<Rightarrow> string \<Rightarrow> string \<Rightarrow> string \<Rightarrow> (close_auth_error, unit) result"
where
  "authorize_close cr ed b64 session_key_b58 channel_id_b58 signature_b64 =
     and_then (decode_close_signature b64 signature_b64) (\<lambda>signature.
     and_then (map_err (\<lambda>_. CorruptStoredKey ''channel_id'') (decode_bs58_pubkey cr channel_id_b58)) (\<lambda>channel_id.
     and_then (map_err (\<lambda>_. CorruptStoredKey ''session_key'') (decode_bs58_pubkey cr session_key_b58)) (\<lambda>session_key.
       case verify_close ed session_key channel_id signature of
         Inr _ \<Rightarrow> Inr ()
       | Inl InvalidSessionKey \<Rightarrow> Inl (CorruptStoredKey ''session_key'')
       | Inl InvalidCloseSignature \<Rightarrow> Inl BadSignature)))"

fun close_auth_response :: "close_auth_error \<Rightarrow> channel_response" where
  "close_auth_response MalformedCloseSignature = Ch_BadRequest ''signature must be base64-encoded 64 bytes''"
| "close_auth_response BadSignature = Ch_Unauthorized"
| "close_auth_response (CorruptStoredKey _) = Ch_Internal ''channel credential material is inconsistent''"

definition close_channel ::
  "verifier_env \<Rightarrow> channel_config \<Rightarrow> close_io \<Rightarrow> close_channel_request \<Rightarrow> channel_world
     \<Rightarrow> channel_response \<times> channel_world" where
  "close_channel env cfg io req w0 =
    (if \<not> cc_enabled cfg then (Ch_NotAvailable, w0)
     else
       let (admitted, limiter) = limiter_check (ci_now io) (connect_info_client_id (ci_peer io)) (cw_limiter w0);
           w = w0\<lparr>cw_limiter := limiter\<rparr> in
       if admitted = None then (Ch_RateLimited, w)
       else if \<not> cc_has_db cfg then (Ch_NotAvailable, w)
       else if \<not> cc_has_cache cfg
         then (Ch_ServiceUnavailable ''channel close requires the payment lock service'', w)
       else case load_channel (ci_load io) (cl_channel_id req) w of
         Inl _ \<Rightarrow> (Ch_Internal ''could not load the channel'', w)
       | Inr None \<Rightarrow> (Ch_NotFound, w)
       | Inr (Some r) \<Rightarrow>
         (case authorize_close (ve_crypto env) (ve_ed25519 env) (ve_b64_decode env)
                 (cr_session_key r) (cr_channel_id r) (cl_signature req) of
            Inl e \<Rightarrow> (close_auth_response e, w)
          | Inr _ \<Rightarrow>
            (case acquire_channel_draw_lock (fst (ci_acquire io)) (snd (ci_acquire io)) (ci_token io)
                    (cl_channel_id req) (cw_redis w) of
               (Inl _, rd) \<Rightarrow> (Ch_ServiceUnavailable ''degraded'', w\<lparr>cw_redis := rd\<rparr>)
             | (Inr None, rd) \<Rightarrow> (Ch_ServiceUnavailable ''a draw is in flight'', w\<lparr>cw_redis := rd\<rparr>)
             | (Inr (Some lock_token), rd) \<Rightarrow>
                 let (outcome, w') = close_channel_and_reserve_refund (ci_close io) (ci_db_now io)
                       (cl_channel_id req) (w\<lparr>cw_redis := rd\<rparr>);
                     w'' = w'\<lparr>cw_redis := release_channel_draw_lock (fst (ci_release io)) (snd (ci_release io))
                       (cl_channel_id req) lock_token (cw_redis w')\<rparr>
                 in (case outcome of
                       Inr out \<Rightarrow> Ch_Closed \<lparr>cs_resp_channel_id = cl_channel_id req,
                         cs_resp_deposited_atomic = co_deposited_atomic out,
                         cs_resp_settled_atomic = co_settled_atomic out,
                         cs_resp_refundable_atomic = co_refundable_atomic out,
                         cs_resp_status = co_channel_status out,
                         cs_resp_refund_status = co_refund_status out,
                         cs_resp_tx_signature = co_tx_signature out\<rparr>
                     | Inl (Repo ChannelNotFound) \<Rightarrow> Ch_NotFound
                     | Inl _ \<Rightarrow> Ch_Internal ''channel ledger state is inconsistent'', w''))))"

section \<open>What an opened channel rests on\<close>

definition open_response_of ::
  "string \<Rightarrow> open_channel_request \<Rightarrow> string \<Rightarrow> u64 \<Rightarrow> string option \<Rightarrow> open_channel_response" where
  "open_response_of channel_id req session_key deposited sig =
     \<lparr>os_channel_id = channel_id, os_agent_wallet = or_agent_wallet req, os_session_key = session_key,
      os_deposited_atomic = deposited, os_settled_atomic = 0, os_last_cumulative_atomic = 0,
      os_status = channel_status_str Open, os_funding_tx_sig = sig, os_network = SOLANA_NETWORK\<rparr>"

text \<open>The funding was paid: verified by a direct verifier for the amount, within the cap, and
  settled.\<close>

definition funding_settled ::
  "verifier_env \<Rightarrow> payment_verifier list \<Rightarrow> channel_config \<Rightarrow> open_io \<Rightarrow> string \<Rightarrow> u64 \<Rightarrow> settlement_result \<Rightarrow> bool" where
  "funding_settled env vs cfg io funding_tx amount s \<longleftrightarrow>
     facilitator_verify env vs (oi_verify_at io) (funding_payload cfg funding_tx)
       = Inr \<lparr>vr_valid = True, vr_reason = None, vr_verified_amount = Some amount\<rparr>
     \<and> 0 < amount \<and> deposit_within_cap amount (cc_max_deposit_atomic cfg)
     \<and> facilitator_settle env vs (oi_settle_at io) (funding_payload cfg funding_tx) = Some (Inr s)
     \<and> sr_success s"

lemma funding_verifier:
  assumes "facilitator_verify env vs t (funding_payload cfg tx) = Inr r"
  obtains sv amount where "payload_verifier vs (funding_payload cfg tx) = Inr (Exact sv)"
    "direct_payment_ok env sv t (funding_payload cfg tx) (sv_recipient sv) amount"
    "r = \<lparr>vr_valid = True, vr_reason = None, vr_verified_amount = Some amount\<rparr>"
proof -
  from assms obtain v where v: "payload_verifier vs (funding_payload cfg tx) = Inr v"
    "verify_payment env t (funding_payload cfg tx) v = Inr r"
    by (auto simp: facilitator_verify_def and_then_Inr_iff)
  then have "scheme v = ''exact''"
    by (auto simp: payload_verifier_def verifier_for_def funding_payload_def find_Some_iff)
  then obtain sv where "v = Exact sv" by (cases v) auto
  with v that show thesis by (auto simp: direct_verify_payment_def verify_against_Inr)
qed

lemma open_gates_not_opened [simp]: "open_gates cr cfg req \<noteq> Inl (Ch_Opened r)"
  by (auto simp: open_gates_def Let_def split: sum.splits option.splits)

lemma open_channel_cases:
  assumes "open_channel env vs cfg io req w0 = Some (resp, w')"
  obtains (refused) "channels w' = channels w0" "channel_vouchers w' = channel_vouchers w0"
      "refunds w' = refunds w0" "\<And>r. resp \<noteq> Ch_Opened r"
    | (settled) session_key amount s limiter res where
      "open_gates (ve_crypto env) cfg req = Inr session_key"
      "funding_settled env vs cfg io (or_funding_tx req) amount s"
      "create_channel (ve_crypto env) (oi_create io) (new_channel_of cfg req
         (fresh_channel_id (ve_crypto env) (oi_random io)) session_key amount (sr_tx_signature s))
         (w0\<lparr>cw_limiter := limiter\<rparr>) = (res, w')"
      "resp = (case res of Inr _ \<Rightarrow> Ch_Opened (open_response_of (fresh_channel_id (ve_crypto env) (oi_random io))
           req session_key amount (sr_tx_signature s))
         | Inl FundingAlreadyUsed \<Rightarrow> Ch_Conflict
         | Inl _ \<Rightarrow> Ch_Internal ''funding confirmed but the channel could not be recorded'')"
proof (cases "\<exists>session_key ver amount s. open_gates (ve_crypto env) cfg req = Inr session_key
    \<and> facilitator_verify env vs (oi_verify_at io) (funding_payload cfg (or_funding_tx req)) = Inr ver
    \<and> credit_deposit (vr_verified_amount ver) = Inr amount
    \<and> deposit_within_cap amount (cc_max_deposit_atomic cfg)
    \<and> facilitator_settle env vs (oi_settle_at io) (funding_payload cfg (or_funding_tx req)) = Some (Inr s)
    \<and> sr_success s \<and> cc_enabled cfg
    \<and> fst (limiter_check (oi_now io) (connect_info_client_id (oi_peer io)) (cw_limiter w0)) \<noteq> None")
  case True
  then obtain session_key ver amount s where
    g: "open_gates (ve_crypto env) cfg req = Inr session_key"
      "facilitator_verify env vs (oi_verify_at io) (funding_payload cfg (or_funding_tx req)) = Inr ver"
      "credit_deposit (vr_verified_amount ver) = Inr amount"
      "deposit_within_cap amount (cc_max_deposit_atomic cfg)"
      "facilitator_settle env vs (oi_settle_at io) (funding_payload cfg (or_funding_tx req)) = Some (Inr s)"
      "sr_success s" "cc_enabled cfg"
      "fst (limiter_check (oi_now io) (connect_info_client_id (oi_peer io)) (cw_limiter w0)) \<noteq> None"
    by blast
  obtain ad lim where lim: "limiter_check (oi_now io) (connect_info_client_id (oi_peer io)) (cw_limiter w0) = (ad, lim)"
    by fastforce
  from g(2) obtain a where ver: "ver = \<lparr>vr_valid = True, vr_reason = None, vr_verified_amount = Some a\<rparr>"
    by (rule funding_verifier)
  with g(3) have a: "a = amount" "0 < amount" by (auto simp: credit_deposit_def split: if_splits)
  then have "funding_settled env vs cfg io (or_funding_tx req) amount s"
    using g ver by (simp add: funding_settled_def)
  moreover obtain res w1 where cr: "create_channel (ve_crypto env) (oi_create io) (new_channel_of cfg req
      (fresh_channel_id (ve_crypto env) (oi_random io)) session_key amount (sr_tx_signature s))
      (w0\<lparr>cw_limiter := lim\<rparr>) = (res, w1)" by fastforce
  moreover have "w1 = w' \<and> resp = (case res of
        Inr _ \<Rightarrow> Ch_Opened (open_response_of (fresh_channel_id (ve_crypto env) (oi_random io))
           req session_key amount (sr_tx_signature s))
      | Inl FundingAlreadyUsed \<Rightarrow> Ch_Conflict
      | Inl _ \<Rightarrow> Ch_Internal ''funding confirmed but the channel could not be recorded'')"
    using assms g lim cr ver a
    by (auto simp: open_channel_def Let_def open_response_of_def split: sum.splits channel_repo_error.splits)
  ultimately show thesis using settled [OF g(1)] by blast
next
  case False
  with assms show thesis
    by (intro refused) (auto simp: open_channel_def Let_def split: if_splits sum.splits option.splits prod.splits
        channel_response.splits channel_repo_error.splits)
qed

lemma new_channel_row_keys:
  "new_channel_row ch = Inr r \<Longrightarrow>
     ch_session_key r = nc_session_key ch \<and> ch_funding_tx_sig r = nc_funding_tx_sig ch"
  by (auto simp: new_channel_row_def split: sum.splits)

lemma create_channel_ok:
  assumes "create_channel cr ft ch db = (Inr u, db')"
  obtains r where "new_channel_row ch = Inr r" "channel_of (ch_channel_id r) db = None"
    "\<not> funding_conflict r (channels db)" "db' = db\<lparr>channels := channels db @ [r]\<rparr>"
  using assms by (cases rule: create_channel_cases) auto

text \<open>
  C12. An opened channel is backed by money on chain: the request's funding transaction was accepted
  by a direct verifier for exactly the credited amount, paid in USDC to that verifier's wallet,
  the amount is positive and within the deposit cap, and the node confirmed the settlement. The
  ledger gained one open row, under a fresh id, with that deposit, nothing drawn and nothing
  settled, keyed to the requested wallet and session key, and no earlier channel was opened with
  the same funding signature.
\<close>
theorem opened_channel_backed:
  assumes "open_channel env vs cfg io req w0 = Some (Ch_Opened resp, w')"
  shows "\<exists>sv amount r s sig t. payload_verifier vs (funding_payload cfg (or_funding_tx req)) = Inr (Exact sv)
    \<and> direct_payment_ok env sv (oi_verify_at io) (funding_payload cfg (or_funding_tx req)) (sv_recipient sv) amount
    \<and> 0 < amount \<and> deposit_within_cap amount (cc_max_deposit_atomic cfg)
    \<and> facilitator_settle env vs (oi_settle_at io) (funding_payload cfg (or_funding_tx req)) = Some (Inr s)
    \<and> sr_tx_signature s = Some sig \<and> oi_settle_at io \<le> t \<and> confirmed_by_node env t sig
    \<and> channels w' = channels w0 @ [r] \<and> channel_of (os_channel_id resp) w0 = None
    \<and> ch_channel_id r = os_channel_id resp \<and> ch_agent_wallet r = or_agent_wallet req
    \<and> ch_session_key r = os_session_key resp \<and> ch_deposited r = uint amount
    \<and> os_deposited_atomic resp = amount \<and> ch_last r = 0 \<and> ch_realized r = 0 \<and> ch_settled r = 0
    \<and> ch_status r = ''open'' \<and> ch_funding_tx_sig r = Some sig
    \<and> (\<forall>x \<in> set (channels w0). ch_funding_tx_sig x \<noteq> Some sig)"
  using assms
proof (cases rule: open_channel_cases)
  case (settled session_key amount s limiter res)
  from settled(4) obtain u where res: "res = Inr u" by (auto split: sum.splits channel_repo_error.splits)
  from settled(2) have fs: "facilitator_verify env vs (oi_verify_at io) (funding_payload cfg (or_funding_tx req))
       = Inr \<lparr>vr_valid = True, vr_reason = None, vr_verified_amount = Some amount\<rparr>"
    "0 < amount" "deposit_within_cap amount (cc_max_deposit_atomic cfg)"
    "facilitator_settle env vs (oi_settle_at io) (funding_payload cfg (or_funding_tx req)) = Some (Inr s)"
    "sr_success s"
    by (simp_all add: funding_settled_def)
  from fs(1) obtain sv where sv: "payload_verifier vs (funding_payload cfg (or_funding_tx req)) = Inr (Exact sv)"
    "direct_payment_ok env sv (oi_verify_at io) (funding_payload cfg (or_funding_tx req)) (sv_recipient sv) amount"
    by (rule funding_verifier) simp
  from fs(4) sv(1) have "settle_payment env (oi_settle_at io) (funding_payload cfg (or_funding_tx req)) (Exact sv)
      = Some (Inr s)"
    by (simp add: facilitator_settle_def)
  from gateway.settle_confirmed [OF this fs(5)] obtain sig t where
    sig: "sr_tx_signature s = Some sig" "oi_settle_at io \<le> t" "confirmed_by_node env t sig" by blast
  from create_channel_ok settled(3) res obtain r where
    r: "new_channel_row (new_channel_of cfg req (fresh_channel_id (ve_crypto env) (oi_random io)) session_key
         amount (sr_tx_signature s)) = Inr r"
      "channel_of (ch_channel_id r) (w0\<lparr>cw_limiter := limiter\<rparr>) = None"
      "\<not> funding_conflict r (channels (w0\<lparr>cw_limiter := limiter\<rparr>))"
      "w' = w0\<lparr>cw_limiter := limiter\<rparr>\<lparr>channels := channels (w0\<lparr>cw_limiter := limiter\<rparr>) @ [r]\<rparr>"
    by metis
  note row = new_channel_row_Inr [OF r(1)]
  have resp: "resp = open_response_of (fresh_channel_id (ve_crypto env) (oi_random io)) req session_key amount
      (sr_tx_signature s)"
    using settled(4) res by simp
  show ?thesis
    by (intro exI [of _ sv] exI [of _ amount] exI [of _ r] exI [of _ s] exI [of _ sig] exI [of _ t])
      (use sv fs sig r(2-4) row new_channel_row_keys [OF r(1)] resp in \<open>auto simp: open_response_of_def new_channel_of_def funding_conflict_def
        list_ex_iff\<close>)
next
  case refused
  then show ?thesis by blast
qed

section \<open>Opening always answers\<close>

text \<open>
  The open handler always returns an answer, although it waits for the chain: the confirmation
  it polls for is bounded.
\<close>
theorem open_channel_returns: "\<exists>resp w'. open_channel env vs cfg io req w = Some (resp, w')"
proof -
  have "facilitator_settle env vs (oi_settle_at io) (funding_payload cfg (or_funding_tx req)) \<noteq> None"
    using gateway.settle_returns by (auto simp: facilitator_settle_def split: sum.splits)
  then show ?thesis
    by (auto simp: open_channel_def Let_def case_prod_beta split: sum.splits option.splits channel_repo_error.splits)
qed

text \<open>Past the gates, with the funding settled, the outcome is that of the ledger's insert.\<close>

lemma open_channel_settled:
  assumes "cc_enabled cfg" "limiter_check (oi_now io) (connect_info_client_id (oi_peer io)) (cw_limiter w0) = (Some n, l1)"
    and "open_gates (ve_crypto env) cfg req = Inr session_key"
    and "funding_settled env vs cfg io (or_funding_tx req) amount s"
    and "create_channel (ve_crypto env) (oi_create io) (new_channel_of cfg req
      (fresh_channel_id (ve_crypto env) (oi_random io)) session_key amount (sr_tx_signature s))
      (w0\<lparr>cw_limiter := l1\<rparr>) = (res, w')"
  shows "open_channel env vs cfg io req w0 = Some (case res of
       Inr _ \<Rightarrow> Ch_Opened (open_response_of (fresh_channel_id (ve_crypto env) (oi_random io)) req session_key amount
         (sr_tx_signature s))
     | Inl FundingAlreadyUsed \<Rightarrow> Ch_Conflict
     | Inl _ \<Rightarrow> Ch_Internal ''funding confirmed but the channel could not be recorded'', w')"
  using assms
  by (auto simp: open_channel_def Let_def funding_settled_def credit_deposit_def open_response_of_def
      split: sum.splits channel_repo_error.splits)

section \<open>A settled deposit that is never recorded\<close>

text \<open>
  The handler broadcasts the deposit before it knows that it can record it: a request whose
  expiry slot does not fit the ledger's column is never opened, but nothing refuses it before the
  funding is settled, and the handler then answers with an internal error while the deposit is
  on chain and in no channel.
\<close>
theorem open_strands_unstorable_expiry:
  assumes "cc_enabled cfg" "fst (limiter_check (oi_now io) (connect_info_client_id (oi_peer io)) (cw_limiter w0)) \<noteq> None"
    and "open_gates (ve_crypto env) cfg req = Inr session_key"
    and "funding_settled env vs cfg io (or_funding_tx req) amount s"
    and "or_expiry_slot req = Some slot" "i64_max < uint slot"
  shows "\<exists>w'. open_channel env vs cfg io req w0
      = Some (Ch_Internal ''funding confirmed but the channel could not be recorded'', w')
    \<and> channels w' = channels w0"
proof -
  obtain n lim where lim: "limiter_check (oi_now io) (connect_info_client_id (oi_peer io)) (cw_limiter w0) = (Some n, lim)"
    using assms(2) by (cases "limiter_check (oi_now io) (connect_info_client_id (oi_peer io)) (cw_limiter w0)") auto
  have coll: "refund_account_collision (ve_crypto env) (or_agent_wallet req) (cc_recipient_wallet cfg)
      (cc_usdc_mint cfg) = None"
    using assms(3) by (auto simp: open_gates_def split: if_splits sum.splits option.splits)
  have row: "\<exists>e. new_channel_row (new_channel_of cfg req k session_key amount sig) = Inl e
      \<and> e \<noteq> FundingAlreadyUsed" for k sig
    using assms(5,6) by (auto simp: new_channel_row_def new_channel_of_def atomic_to_i64_def split: sum.splits)
  have "\<exists>e. create_channel (ve_crypto env) (oi_create io) (new_channel_of cfg req k session_key amount sig) w
      = (Inl e, w) \<and> e \<noteq> FundingAlreadyUsed" for k sig and w :: channel_world
    using row [of k sig] coll by (auto simp: create_channel_def new_channel_of_def)
  then obtain e where "create_channel (ve_crypto env) (oi_create io) (new_channel_of cfg req
      (fresh_channel_id (ve_crypto env) (oi_random io)) session_key amount (sr_tx_signature s))
      (w0\<lparr>cw_limiter := lim\<rparr>) = (Inl e, w0\<lparr>cw_limiter := lim\<rparr>)" "e \<noteq> FundingAlreadyUsed"
    by blast
  with open_channel_settled [OF assms(1) lim assms(3,4)] show ?thesis
    by (auto split: channel_repo_error.splits)
qed

section \<open>Closing\<close>

lemma authorize_close_Inr:
  "authorize_close cr ed b64 key_b58 ch_b58 sig_b64 = Inr u \<longleftrightarrow>
    (\<exists>sig ch key. b64 sig_b64 = Some sig \<and> length sig = 64 \<and> decode_bs58_pubkey cr ch_b58 = Inr ch
      \<and> decode_bs58_pubkey cr key_b58 = Inr key \<and> valid_key ed key
      \<and> verify_sig ed key (build_close_message ch) sig)"
  by (auto simp: authorize_close_def and_then_Inr_iff decode_close_signature_def fixed_array_def
      verify_close_def split: option.splits sum.splits if_splits channel_close_sig_error.splits)

lemma load_channel_row:
  assumes "load_channel ft k w = Inr (Some r)"
  obtains row where "channel_of k w = Some row" "cr_session_key r = ch_session_key row"
    "cr_channel_id r = ch_channel_id row"
  using assms by (auto simp: load_channel_def split: if_splits option.splits sum.splits)

text \<open>The books of the channel world: everything but the store and the limiter.\<close>

definition same_channels :: "channel_world \<Rightarrow> channel_world \<Rightarrow> bool" where
  "same_channels w w' \<longleftrightarrow> channels w' = channels w \<and> channel_vouchers w' = channel_vouchers w
     \<and> refunds w' = refunds w"

lemma close_channel_cases:
  assumes "close_channel env cfg io req w0 = (resp, w')"
  obtains (refused) "same_channels w0 w'" "\<And>r. resp \<noteq> Ch_Closed r"
    | (closed) row rd limiter out w1 where
      "channel_of (cl_channel_id req) w0 = Some row"
      "authorize_close (ve_crypto env) (ve_ed25519 env) (ve_b64_decode env) (ch_session_key row)
         (cl_channel_id req) (cl_signature req) = Inr ()"
      "fst (acquire_channel_draw_lock (fst (ci_acquire io)) (snd (ci_acquire io)) (ci_token io)
         (cl_channel_id req) (cw_redis w0)) = Inr (Some (ci_token io))"
      "close_channel_and_reserve_refund (ci_close io) (ci_db_now io) (cl_channel_id req)
         (w0\<lparr>cw_limiter := limiter, cw_redis := rd\<rparr>) = (out, w1)"
      "same_channels w1 w'"
      "\<And>r. resp = Ch_Closed r \<Longrightarrow> \<exists>o'. out = Inr o' \<and> cs_resp_refundable_atomic r = co_refundable_atomic o'
         \<and> cs_resp_refund_status r = co_refund_status o' \<and> cs_resp_tx_signature r = co_tx_signature o'"
proof -
  obtain ad lim where lim: "limiter_check (ci_now io) (connect_info_client_id (ci_peer io)) (cw_limiter w0) = (ad, lim)"
    by fastforce
  let ?w = "w0\<lparr>cw_limiter := lim\<rparr>"
  obtain got rd where acq: "acquire_channel_draw_lock (fst (ci_acquire io)) (snd (ci_acquire io)) (ci_token io)
      (cl_channel_id req) (cw_redis w0) = (got, rd)" by fastforce
  obtain out w1 where run: "close_channel_and_reserve_refund (ci_close io) (ci_db_now io) (cl_channel_id req)
      (?w\<lparr>cw_redis := rd\<rparr>) = (out, w1)" by fastforce
  have tok: "tok = ci_token io" if "got = Inr (Some tok)" for tok
    using acq that by (auto simp: acquire_channel_draw_lock_def split: prod.splits sum.splits if_splits)
  show thesis
  proof (cases "\<exists>r. load_channel (ci_load io) (cl_channel_id req) ?w = Inr (Some r)
      \<and> authorize_close (ve_crypto env) (ve_ed25519 env) (ve_b64_decode env) (cr_session_key r) (cr_channel_id r)
          (cl_signature req) = Inr () \<and> got = Inr (Some (ci_token io)) \<and> cc_enabled cfg \<and> ad \<noteq> None
      \<and> cc_has_db cfg \<and> cc_has_cache cfg")
    case True
    then obtain r where r: "load_channel (ci_load io) (cl_channel_id req) ?w = Inr (Some r)"
      "authorize_close (ve_crypto env) (ve_ed25519 env) (ve_b64_decode env) (cr_session_key r) (cr_channel_id r)
        (cl_signature req) = Inr ()" "got = Inr (Some (ci_token io))"
      "cc_enabled cfg" "ad \<noteq> None" "cc_has_db cfg" "cc_has_cache cfg" by blast
    from r(1) obtain row where row: "channel_of (cl_channel_id req) ?w = Some row"
      "cr_session_key r = ch_session_key row" "cr_channel_id r = ch_channel_id row"
      by (rule load_channel_row)
    have id: "ch_channel_id row = cl_channel_id req" using row_SomeD [OF row(1)] by simp
    show thesis
      by (rule closed [of row rd lim out w1])
        (use assms r row id lim acq run in \<open>auto simp: close_channel_def Let_def same_channels_def
          split: sum.splits channel_refund_error.splits channel_repo_error.splits\<close>)
  next
    case False
    have "resp \<noteq> Ch_Closed r" "same_channels w0 w'" for r
      using assms False lim acq tok
      by (auto simp: close_channel_def Let_def same_channels_def split: if_splits sum.splits option.splits
          close_auth_error.splits elim!: close_auth_response.elims)
    then show thesis by (intro refused)
  qed
qed

lemma refund_inv_cong:
  assumes "channels w' = channels w" "channel_vouchers w' = channel_vouchers w" "refunds w' = refunds w"
  shows "refund_inv w' = refund_inv w"
  using ledger_inv_cong [OF assms(1,2)] assms(1,3) by (simp only: refund_inv_def)

text \<open>
  C16. Only the holder of the session key can close: when a close request changes the books at all,
  the channel was open and the request carried a signature of its session key over the close
  message of that very channel; the books then changed by exactly the close: the channel is
  closing, and one refund of the deposit minus what was realized is reserved for the wallet and
  in the token the channel was opened with.
\<close>
theorem close_requires_session_key:
  assumes run: "close_channel env cfg io req w0 = (resp, w')" and inv: "refund_inv w0"
    and changed: "\<not> same_channels w0 w'"
  shows "\<exists>row f ch key sig. channel_of (cl_channel_id req) w0 = Some row \<and> ch_status row = ''open''
    \<and> ve_b64_decode env (cl_signature req) = Some sig
    \<and> decode_bs58_pubkey (ve_crypto env) (cl_channel_id req) = Inr ch
    \<and> decode_bs58_pubkey (ve_crypto env) (ch_session_key row) = Inr key
    \<and> verify_sig (ve_ed25519 env) key (build_close_message ch) sig
    \<and> channels w' = replace_row ch_channel_id (cl_channel_id req) (row\<lparr>ch_status := ''closing''\<rparr>) (channels w0)
    \<and> channel_vouchers w' = channel_vouchers w0 \<and> refunds w' = refunds w0 @ [f]
    \<and> rf_channel_id f = cl_channel_id req \<and> rf_amount f = ch_deposited row - ch_realized row
    \<and> rf_destination_wallet f = ch_agent_wallet row \<and> rf_mint f = ch_mint row"
  using run
proof (cases rule: close_channel_cases)
  case (closed row rd limiter out w1)
  let ?w = "w0\<lparr>cw_limiter := limiter, cw_redis := rd\<rparr>"
  have winv: "refund_inv ?w" using inv refund_inv_cong [of ?w w0] by simp
  have row: "channel_of (cl_channel_id req) ?w = Some row" using closed(1) by simp
  from closed(2) obtain sig ch key where
    auth: "ve_b64_decode env (cl_signature req) = Some sig"
      "decode_bs58_pubkey (ve_crypto env) (cl_channel_id req) = Inr ch"
      "decode_bs58_pubkey (ve_crypto env) (ch_session_key row) = Inr key"
      "verify_sig (ve_ed25519 env) key (build_close_message ch) sig"
    unfolding authorize_close_Inr by blast
  have moved: "\<not> same_channels ?w w1" using closed(5) changed by (simp add: same_channels_def)
  show ?thesis
  proof (cases "ch_status row = channel_status_str Open")
    case True
    from winv row True closed(4) show ?thesis
    proof (cases rule: close_open)
      case (frozen o')
      show ?thesis
        by (intro exI [of _ row] exI [of _ "frozen_row (ci_db_now io) (cl_channel_id req) row"] exI [of _ ch]
            exI [of _ key] exI [of _ sig])
          (use closed(1,5) True auth frozen(7) in \<open>simp add: same_channels_def frozen_row_def new_refund_row_def\<close>)
    qed (use moved in \<open>simp add: same_channels_def\<close>)
  next
    case False
    from winv row False closed(4) show ?thesis
      by (cases rule: close_not_open) (use moved in \<open>simp_all add: same_channels_def\<close>)
  qed
qed (use changed in simp)

text \<open>
  A close cannot overtake a draw: while the draw lock of the channel is held, by a request on
  whatever instance, a close request is not answered as closed and leaves the books alone.
\<close>
theorem draw_lock_blocks_close:
  assumes "close_channel env cfg io req w0 = (resp, w')"
    and "rd_get (snd (ci_acquire io)) (CHANNEL_DRAW_LOCK_PREFIX @ cl_channel_id req) (cw_redis w0) = Some tok"
  shows "same_channels w0 w' \<and> (\<forall>r. resp \<noteq> Ch_Closed r)"
  using assms(1)
proof (cases rule: close_channel_cases)
  case (closed row rd limiter out w1)
  from closed(3) assms(2) show ?thesis
    by (cases "fst (ci_acquire io)")
      (auto simp: acquire_channel_draw_lock_def rd_command_def rd_set_nx_ex_def)
qed simp

lemma load_channel_ok:
  assumes inv: "ledger_inv w" and r: "channel_of k w = Some r"
    and nonneg: "\<And>s. ch_expiry_slot r = Some s \<Longrightarrow> 0 \<le> s"
  shows "\<exists>c. load_channel no_faults k w = Inr (Some c) \<and> cr_session_key c = ch_session_key r \<and> cr_channel_id c = k"
proof -
  have "i64_to_atomic i = Inr (word_of_int i)" if "0 \<le> i" for i using that by (simp add: i64_to_atomic_def)
  then show ?thesis
    using channel_chain [OF inv r] row_SomeD [OF r] r nonneg
    by (cases "ch_expiry_slot r") (simp_all add: load_channel_def no_faults_def)
qed

text \<open>A faultless close of a known channel succeeds with the remainder, first or repeated.\<close>

lemma close_remainder:
  assumes inv: "refund_inv db" and r: "channel_of k db = Some r"
  obtains out db' f where "close_channel_and_reserve_refund no_faults now k db = (Inr out, db')"
    "uint (co_refundable_atomic out) = ch_deposited r - ch_realized r"
    "refund_of k db' = Some f" "rf_amount f = ch_deposited r - ch_realized r"
    "rf_status f = co_refund_status out"
proof -
  obtain res db' where eq: "close_channel_and_reserve_refund no_faults now k db = (res, db')" by fastforce
  show thesis
  proof (cases "ch_status r = channel_status_str Open")
    case True
    have none: "refund_of k db = None"
      using refund_invD(3) [OF inv, of k] r True refund_fits_not_open by (cases "refund_of k db") auto
    from inv r True eq show thesis
    proof (cases rule: close_open)
      case (frozen out)
      show thesis
        by (rule that [of out db' "frozen_row now k r"])
          (use frozen eq none in \<open>auto simp: no_faults_def row_append frozen_row_def new_refund_row_def\<close>)
    qed simp
  next
    case False
    from inv r False eq show thesis
    proof (cases rule: close_not_open)
      case (again f out)
      from refund_invD(3) [OF inv again(1)] r have "rf_amount f = ch_deposited r - ch_realized r"
        by (auto simp: refund_fits_def)
      with again eq show thesis by (intro that [of out db' f]) auto
    qed simp
  qed
qed

text \<open>
  The depositor can always get the remainder back: with the service enabled, the request admitted,
  a signature of the session key, the lock free and no fault of the database, a close answers
  with the deposit minus what was realized, and that refund is reserved, for an open channel and
  for one already closing alike.
\<close>
theorem close_answers_remainder:
  assumes gates: "cc_enabled cfg" "cc_has_db cfg" "cc_has_cache cfg"
      "fst (limiter_check (ci_now io) (connect_info_client_id (ci_peer io)) (cw_limiter w0)) \<noteq> None"
    and inv: "refund_inv w0" and r0: "channel_of (cl_channel_id req) w0 = Some r0"
    and nonneg: "\<And>s. ch_expiry_slot r0 = Some s \<Longrightarrow> 0 \<le> s"
    and auth: "authorize_close (ve_crypto env) (ve_ed25519 env) (ve_b64_decode env) (ch_session_key r0)
      (cl_channel_id req) (cl_signature req) = Inr ()"
    and lock: "ci_acquire io = (Rd_Ok, t)"
      "rd_get t (CHANNEL_DRAW_LOCK_PREFIX @ cl_channel_id req) (cw_redis w0) = None"
    and ok: "ci_load io = no_faults" "ci_close io = no_faults"
  shows "\<exists>r w' f. close_channel env cfg io req w0 = (Ch_Closed r, w')
    \<and> uint (cs_resp_refundable_atomic r) = ch_deposited r0 - ch_realized r0
    \<and> refund_of (cl_channel_id req) w' = Some f \<and> rf_amount f = ch_deposited r0 - ch_realized r0
    \<and> rf_status f = cs_resp_refund_status r"
proof -
  obtain ad lim where lim: "limiter_check (ci_now io) (connect_info_client_id (ci_peer io)) (cw_limiter w0) = (ad, lim)"
    by fastforce
  define rd where "rd = (cw_redis w0)(CHANNEL_DRAW_LOCK_PREFIX @ cl_channel_id req
    \<mapsto> (ci_token io, Some (t + CHANNEL_DRAW_LOCK_TTL_SECS)))"
  have acq: "acquire_channel_draw_lock (fst (ci_acquire io)) (snd (ci_acquire io)) (ci_token io)
      (cl_channel_id req) (cw_redis w0) = (Inr (Some (ci_token io)), rd)"
    using lock by (simp add: acquire_channel_draw_lock_def rd_command_def rd_set_nx_ex_def rd_def)
  have linv: "ledger_inv (w0\<lparr>cw_limiter := lim\<rparr>)"
    using refund_invD(1) [OF inv] ledger_inv_cong [of "w0\<lparr>cw_limiter := lim\<rparr>" w0] by simp
  from load_channel_ok [OF linv, of "cl_channel_id req" r0] r0 nonneg obtain c where
    c: "load_channel no_faults (cl_channel_id req) (w0\<lparr>cw_limiter := lim\<rparr>) = Inr (Some c)"
      "cr_session_key c = ch_session_key r0" "cr_channel_id c = cl_channel_id req" by auto
  let ?w = "w0\<lparr>cw_limiter := lim, cw_redis := rd\<rparr>"
  have winv: "refund_inv ?w" using inv refund_inv_cong [of ?w w0] by simp
  from close_remainder [OF winv, of "cl_channel_id req" r0 "ci_db_now io"] r0 obtain out w1 f where
    o: "close_channel_and_reserve_refund no_faults (ci_db_now io) (cl_channel_id req) ?w = (Inr out, w1)"
      "uint (co_refundable_atomic out) = ch_deposited r0 - ch_realized r0"
      "refund_of (cl_channel_id req) w1 = Some f" "rf_amount f = ch_deposited r0 - ch_realized r0"
      "rf_status f = co_refund_status out" by auto
  show ?thesis
    using gates lim c auth acq o ok by (auto simp: close_channel_def Let_def)
qed

section \<open>A worked channel\<close>

definition demo_node :: http where
  "demo_node = \<lparr>http_post = (\<lambda>_ body. Inr (if body = direct_send_body ''fund'' then JObj [(''result'', JStr ''sig'')]
       else JObj [(''result'', JObj [(''value'', JArr [JObj [(''confirmationStatus'', JStr ''confirmed'')]])])])),
     http_latency = (\<lambda>_ _. 1), json_text = (\<lambda>_. [])\<rparr>"

definition demo_venv :: verifier_env where
  "demo_venv = \<lparr>ve_crypto = toy_escrow_crypto,
     ve_ed25519 = \<lparr>valid_key = \<lambda>_. True, verify_sig = \<lambda>_ _ _. True\<rparr>, ve_http = demo_node,
     ve_b64_decode = (\<lambda>s. Some (if s = ''fund''
       then encode_transaction [replicate 64 7] (encode_message demo_message) else replicate 64 1))\<rparr>"

definition demo_verifiers :: "payment_verifier list" where
  "demo_verifiers = [Exact \<lparr>sv_recipient = replicate 32 2, sv_usdc_mint = replicate 32 3, sv_nonce_pool = None\<rparr>]"

definition demo_cfg :: channel_config where
  "demo_cfg = \<lparr>cc_enabled = True, cc_has_db = True, cc_has_cache = True, cc_max_deposit_atomic = Some 100,
     cc_recipient_wallet = replicate 32 (CHR 0x02), cc_usdc_mint = replicate 32 (CHR 0x03)\<rparr>"

definition demo_open_io :: open_io where
  "demo_open_io = \<lparr>oi_now = 0, oi_peer = None, oi_verify_at = 0, oi_settle_at = 10, oi_random = replicate 32 6,
     oi_create = no_faults\<rparr>"

definition demo_open_request :: "u64 option \<Rightarrow> open_channel_request" where
  "demo_open_request expiry = \<lparr>or_agent_wallet = replicate 32 (CHR 0x05), or_session_key = None,
     or_funding_tx = ''fund'', or_expiry_slot = expiry\<rparr>"

definition demo_channel_world :: channel_world where
  "demo_channel_world = \<lparr>channels = [], channel_vouchers = [], refunds = [], cw_redis = Map.empty,
     cw_limiter = new_rate_limiter deposit_tx_default\<rparr>"

lemma demo_decoded:
  "decode_and_validate_transaction demo_venv ''fund''
     = Inr \<lparr>vt_signatures = [replicate 64 7], vt_message_bytes = encode_message demo_message\<rparr>"
  "parsed_message_from_bytes (encode_message demo_message) = Inr demo_message"
proof -
  have "wf_message demo_message" by (simp add: wf_message_def demo_message_def wf_instruction_def)
  from message_roundtrip_aux [OF this, of "[]"]
  show m: "parsed_message_from_bytes (encode_message demo_message) = Inr demo_message" by simp
  show "decode_and_validate_transaction demo_venv ''fund''
     = Inr \<lparr>vt_signatures = [replicate 64 7], vt_message_bytes = encode_message demo_message\<rparr>"
    using transaction_roundtrip_aux [of "[replicate 64 7]" "encode_message demo_message"] m
    by (simp add: decode_and_validate_transaction_def demo_venv_def parse_message_def check_first_signature_def
        demo_message_def)
qed

lemma demo_extract: "extract_spl_transfer demo_message
    = Inr \<lparr>ti_destination = replicate 32 2, ti_amount = 5, ti_mint = Some (replicate 32 3)\<rparr>"
proof -
  have "pays_checked demo_message (replicate 32 3) (replicate 32 2) 5"
    unfolding pays_checked_def
    by (intro exI [of _ "[]"] exI [of _ "hd (instructions demo_message)"] exI [of _ "[]"] exI [of _ TOKEN_PROGRAM_ID])
      (simp add: demo_message_def key_at_def is_token_program_def)
  then show ?thesis by (simp add: pays_checked_iff)
qed

definition demo_payment :: "payment_payload \<Rightarrow> bool" where
  "demo_payment payload \<longleftrightarrow> pp_payload payload = Payload_Direct \<lparr>sp_transaction = ''fund''\<rparr>
     \<and> pa_scheme (pp_accepted payload) = ''exact'' \<and> pa_network (pp_accepted payload) = SOLANA_NETWORK"

lemma demo_no_nonce: "is_nonce_transaction demo_message = None"
proof -
  have "TOKEN_PROGRAM_ID \<noteq> SYSTEM_PROGRAM"
    by (simp add: SYSTEM_PROGRAM_def TOKEN_PROGRAM_ID_def replicate_32)
  then show ?thesis by (simp add: is_nonce_transaction_def demo_message_def key_at_def)
qed

lemma demo_verify:
  assumes "demo_payment payload" "parse_u64 (pa_amount (pp_accepted payload)) = Some c" "c \<le> 5"
  shows "facilitator_verify demo_venv demo_verifiers 0 payload
     = Inr \<lparr>vr_valid = True, vr_reason = None, vr_verified_amount = Some 5\<rparr>"
proof -
  have sim: "simulate_transaction demo_venv 0 ''fund'' True = Inr ()"
    by (simp add: simulate_transaction_def rpc_request_def demo_venv_def demo_node_def simulate_body_def
        direct_send_body_def rpc_body_def)
  have chk: "check_transfer toy_escrow_crypto \<lparr>sv_recipient = replicate 32 2, sv_usdc_mint = replicate 32 3,
      sv_nonce_pool = None\<rparr> (replicate 32 2) c
      \<lparr>ti_destination = replicate 32 2, ti_amount = 5, ti_mint = Some (replicate 32 3)\<rparr> = Inr ()"
    using assms(3) by (simp add: check_transfer_def toy_escrow_ata not_less)
  show ?thesis
    using demo_decoded demo_extract demo_no_nonce sim chk assms
    by (simp add: facilitator_verify_def payload_verifier_def verifier_for_def demo_verifiers_def demo_payment_def
        network_def direct_verify_payment_def verify_payment_against_def direct_payload_def required_amount_def
        parse_message_def demo_venv_def)
qed


lemma demo_settle:
  assumes "demo_payment payload"
  shows "facilitator_settle demo_venv demo_verifiers 10 payload
     = Some (Inr (settlement_confirmed ''sig'' None))"
proof -
  have send: "direct_send_transaction demo_venv 10 ''fund'' = Inr ''sig''"
    by (simp add: direct_send_transaction_def rpc_request_def demo_venv_def demo_node_def)
  have other: "poll_body s \<noteq> direct_send_body tx" for s tx
    by (simp add: poll_body_def direct_send_body_def rpc_body_def)
  have conf: "poll_reply demo_node (http_post demo_node t (poll_body ''sig'')) = Some (Inr ())" for t
    unfolding poll_reply_ok reports_confirmed_def reports_status_def
    by (simp add: demo_node_def other status_array_def first_elem_def status_err_def)
  have "poll_for_confirmation demo_node now ''sig'' 30 = Some (Inr ())" for now
    unfolding poll_for_confirmation_def by (subst poll_loop.simps) (simp add: conf)
  then have "await_settlement demo_venv now ''sig'' None = Some (settlement_confirmed ''sig'' None)" for now
    by (simp add: await_settlement_def demo_venv_def)
  then show ?thesis
    using send demo_decoded(1) assms
    by (simp add: facilitator_settle_def payload_verifier_def verifier_for_def demo_verifiers_def demo_payment_def
        network_def direct_settle_payment_def direct_payload_def)
qed

lemma demo_funding: "funding_settled demo_venv demo_verifiers demo_cfg demo_open_io ''fund'' 5
    (settlement_confirmed ''sig'' None)"
proof -
  have "demo_payment (funding_payload demo_cfg ''fund'')" by (simp add: demo_payment_def funding_payload_def)
  moreover have "parse_u64 (pa_amount (pp_accepted (funding_payload demo_cfg ''fund''))) = Some 1"
    by (simp add: funding_payload_def parse_u64_def digit_value_def Let_def)
  ultimately show ?thesis
    using demo_verify demo_settle
    by (simp add: funding_settled_def demo_open_io_def deposit_within_cap_def demo_cfg_def settlement_confirmed_def)
qed

lemma demo_gates: "open_gates (ve_crypto demo_venv) demo_cfg (demo_open_request expiry) = Inr (replicate 32 (CHR 0x05))"
proof -
  have k: "decode_bs58_pubkey toy_escrow_crypto (replicate 32 (CHR 0x05)) = Inr (replicate 32 5)"
    using mini_key [of "CHR 0x05"] by simp
  have "refund_account_collision toy_escrow_crypto (replicate 32 (CHR 0x05)) (replicate 32 (CHR 0x02))
      (replicate 32 (CHR 0x03)) = None"
  proof -
    have "replicate 32 (5 :: u8) \<noteq> SYSTEM_PROGRAM" "replicate 32 (5 :: u8) \<noteq> TOKEN_PROGRAM_ID"
      "replicate 32 (5 :: u8) \<noteq> ASSOCIATED_TOKEN_PROGRAM_ID"
      by (simp_all add: SYSTEM_PROGRAM_def TOKEN_PROGRAM_ID_def ASSOCIATED_TOKEN_PROGRAM_ID_def replicate_32)
    then show ?thesis by (simp add: refund_account_collision_def k)
  qed
  then show ?thesis
    by (simp add: open_gates_def demo_venv_def demo_cfg_def demo_open_request_def k)
qed

lemma demo_admitted: "fst (limiter_check 0 (connect_info_client_id None) (cw_limiter demo_channel_world)) \<noteq> None"
  by (simp add: limiter_check_def connect_info_client_id_def demo_channel_world_def new_rate_limiter_def
      deposit_tx_default_def counted_entry_def effective_limit_def Let_def)

definition demo_channel_id :: string where
  "demo_channel_id = fresh_channel_id toy_escrow_crypto (replicate 32 6)"

definition demo_opened_row :: channel_db_row where
  "demo_opened_row = \<lparr>ch_channel_id = demo_channel_id, ch_agent_wallet = replicate 32 (CHR 0x05),
     ch_session_key = replicate 32 (CHR 0x05), ch_provider = replicate 32 (CHR 0x02),
     ch_mint = replicate 32 (CHR 0x03), ch_deposited = 5, ch_settled = 0, ch_realized = 0, ch_last = 0,
     ch_expiry_slot = None, ch_status = ''open'', ch_funding_tx_sig = Some ''sig''\<rparr>"

lemma demo_create:
  "create_channel toy_escrow_crypto no_faults (new_channel_of demo_cfg (demo_open_request None) demo_channel_id
     (replicate 32 (CHR 0x05)) 5 (Some ''sig'')) (demo_channel_world\<lparr>cw_limiter := l\<rparr>)
   = (Inr (), demo_channel_world\<lparr>cw_limiter := l, channels := [demo_opened_row]\<rparr>)"
proof -
  have "refund_account_collision toy_escrow_crypto (replicate 32 (CHR 0x05)) (replicate 32 (CHR 0x02))
      (replicate 32 (CHR 0x03)) = None"
    using demo_gates [of None]
    by (auto simp: open_gates_def demo_venv_def demo_cfg_def demo_open_request_def split: sum.splits option.splits)
  then show ?thesis
    by (simp add: create_channel_def new_channel_of_def demo_cfg_def demo_open_request_def new_channel_row_def
        atomic_to_i64_def i64_max_def funding_conflict_def channel_checks_def commit_def no_faults_def
        demo_channel_world_def demo_opened_row_def)
qed

lemma demo_opened:
  "\<exists>resp l. open_channel demo_venv demo_verifiers demo_cfg demo_open_io (demo_open_request None) demo_channel_world
     = Some (Ch_Opened resp, demo_channel_world\<lparr>cw_limiter := l, channels := [demo_opened_row]\<rparr>)
   \<and> os_channel_id resp = demo_channel_id"
proof -
  obtain n lim where lim: "limiter_check 0 (connect_info_client_id None) (cw_limiter demo_channel_world) = (Some n, lim)"
    using demo_admitted by (cases "limiter_check 0 (connect_info_client_id None) (cw_limiter demo_channel_world)") auto
  have "open_channel demo_venv demo_verifiers demo_cfg demo_open_io (demo_open_request None) demo_channel_world
     = Some (case Inr () of
         Inr _ \<Rightarrow> Ch_Opened (open_response_of (fresh_channel_id (ve_crypto demo_venv) (oi_random demo_open_io))
           (demo_open_request None) (replicate 32 (CHR 0x05)) 5 (sr_tx_signature (settlement_confirmed ''sig'' None)))
       | Inl FundingAlreadyUsed \<Rightarrow> Ch_Conflict
       | Inl _ \<Rightarrow> Ch_Internal ''funding confirmed but the channel could not be recorded'',
       demo_channel_world\<lparr>cw_limiter := lim, channels := [demo_opened_row]\<rparr>)"
    by (rule open_channel_settled [OF _ _ demo_gates])
      (use lim demo_funding demo_create [of lim] in \<open>simp_all add: demo_cfg_def demo_open_io_def
        demo_open_request_def demo_venv_def settlement_confirmed_def demo_channel_id_def\<close>)
  then show ?thesis
    by (intro exI conjI) (assumption | simp add: open_response_of_def demo_channel_id_def demo_venv_def demo_open_io_def)+
qed

theorem opened_channel_backed_witness:
  "\<exists>resp w'. open_channel demo_venv demo_verifiers demo_cfg demo_open_io (demo_open_request None) demo_channel_world
      = Some (Ch_Opened resp, w') \<and> (\<exists>r. channels w' = [r] \<and> ch_deposited r = 5)"
proof -
  from demo_opened obtain resp w' where
    run: "open_channel demo_venv demo_verifiers demo_cfg demo_open_io (demo_open_request None) demo_channel_world
      = Some (Ch_Opened resp, w')" and w': "channels w' = [demo_opened_row]" by auto
  from opened_channel_backed [OF run] obtain r amount where
    "channels w' = channels demo_channel_world @ [r]" "ch_deposited r = uint (amount :: u64)" by blast
  with run w' show ?thesis by (auto simp: demo_channel_world_def demo_opened_row_def)
qed

theorem open_strands_unstorable_expiry_witness:
  "\<exists>w'. open_channel demo_venv demo_verifiers demo_cfg demo_open_io (demo_open_request (Some (2 ^ 63)))
      demo_channel_world = Some (Ch_Internal ''funding confirmed but the channel could not be recorded'', w')
    \<and> channels w' = channels demo_channel_world"
  using open_strands_unstorable_expiry [of demo_cfg demo_open_io demo_channel_world demo_venv
      "demo_open_request (Some (2 ^ 63))", OF _ _ demo_gates, of demo_verifiers 5 "settlement_confirmed ''sig'' None"
      "2 ^ 63"] demo_funding demo_admitted
  by (simp add: demo_cfg_def demo_open_io_def demo_open_request_def i64_max_def)

definition demo_close_io :: close_io where
  "demo_close_io = \<lparr>ci_now = 0, ci_peer = None, ci_load = no_faults, ci_token = ''t'', ci_acquire = (Rd_Ok, 0),
     ci_close = no_faults, ci_db_now = 0, ci_release = (Rd_Ok, 0)\<rparr>"

definition demo_close_request :: close_channel_request where
  "demo_close_request = \<lparr>cl_channel_id = replicate 32 (CHR 0x07), cl_signature = ''close''\<rparr>"

text \<open>A world with one open channel, whose id decodes.\<close>

definition demo_close_world :: channel_world where
  "demo_close_world = demo_channel_world\<lparr>channels := [demo_opened_row\<lparr>ch_channel_id := replicate 32 (CHR 0x07)\<rparr>]\<rparr>"

lemma demo_close_inv: "refund_inv demo_close_world"
  by (simp add: refund_inv_def ledger_inv_def demo_close_world_def demo_channel_world_def pk_unique_def row_def
      demo_opened_row_def channel_checks_def i64_max_def)

lemma demo_close_auth:
  "authorize_close (ve_crypto demo_venv) (ve_ed25519 demo_venv) (ve_b64_decode demo_venv)
     (replicate 32 (CHR 0x05)) (cl_channel_id demo_close_request) (cl_signature demo_close_request) = Inr ()"
  using mini_key [of "CHR 0x05"] mini_key [of "CHR 0x07"]
  by (simp add: authorize_close_Inr demo_venv_def demo_close_request_def)

theorem close_answers_remainder_witness:
  "\<exists>r w'. close_channel demo_venv demo_cfg demo_close_io demo_close_request demo_close_world = (Ch_Closed r, w')
     \<and> uint (cs_resp_refundable_atomic r) = 5"
proof -
  let ?r0 = "demo_opened_row\<lparr>ch_channel_id := replicate 32 (CHR 0x07)\<rparr>"
  have row: "channel_of (cl_channel_id demo_close_request) demo_close_world = Some ?r0"
    by (simp add: demo_close_request_def demo_close_world_def row_def)
  have "\<exists>r w' f. close_channel demo_venv demo_cfg demo_close_io demo_close_request demo_close_world = (Ch_Closed r, w')
    \<and> uint (cs_resp_refundable_atomic r) = ch_deposited ?r0 - ch_realized ?r0
    \<and> refund_of (cl_channel_id demo_close_request) w' = Some f
    \<and> rf_amount f = ch_deposited ?r0 - ch_realized ?r0 \<and> rf_status f = cs_resp_refund_status r"
    by (rule close_answers_remainder [where t = 0, OF _ _ _ _ demo_close_inv row])
      (use demo_close_auth demo_admitted in \<open>simp_all add: demo_cfg_def demo_close_io_def demo_opened_row_def
        demo_close_world_def demo_channel_world_def rd_get_def\<close>)
  then show ?thesis by (auto simp: demo_opened_row_def)
qed

lemma demo_close_changes:
  "\<not> same_channels demo_close_world (snd (close_channel demo_venv demo_cfg demo_close_io demo_close_request demo_close_world))"
proof -
  let ?r0 = "demo_opened_row\<lparr>ch_channel_id := replicate 32 (CHR 0x07)\<rparr>"
  obtain n lim where lim: "limiter_check 0 (connect_info_client_id None) (cw_limiter demo_close_world) = (Some n, lim)"
    using demo_admitted by (cases "limiter_check 0 (connect_info_client_id None) (cw_limiter demo_close_world)")
      (auto simp: demo_close_world_def)
  have row: "channel_of (cl_channel_id demo_close_request) (demo_close_world\<lparr>cw_limiter := lim\<rparr>) = Some ?r0"
    by (simp add: demo_close_request_def demo_close_world_def row_def)
  have linv: "ledger_inv (demo_close_world\<lparr>cw_limiter := lim\<rparr>)"
    using refund_invD(1) [OF demo_close_inv] ledger_inv_cong [of "demo_close_world\<lparr>cw_limiter := lim\<rparr>" demo_close_world]
    by simp
  from load_channel_ok [OF linv row] obtain c where
    c: "load_channel no_faults (cl_channel_id demo_close_request) (demo_close_world\<lparr>cw_limiter := lim\<rparr>) = Inr (Some c)"
      "cr_session_key c = replicate 32 (CHR 0x05)" "cr_channel_id c = cl_channel_id demo_close_request"
    by (auto simp: demo_opened_row_def)
  have winv: "refund_inv (demo_close_world\<lparr>cw_limiter := lim, cw_redis := rd\<rparr>)" for rd
    using demo_close_inv refund_inv_cong [of "demo_close_world\<lparr>cw_limiter := lim, cw_redis := rd\<rparr>" demo_close_world]
    by simp
  have ref: "\<exists>out w1 f. close_channel_and_reserve_refund no_faults 0 (cl_channel_id demo_close_request)
      (demo_close_world\<lparr>cw_limiter := lim, cw_redis := rd\<rparr>) = (Inr out, w1)
      \<and> refund_of (cl_channel_id demo_close_request) w1 = Some f" for rd
    using row by (rule_tac close_remainder [OF winv [of rd], of "cl_channel_id demo_close_request" ?r0 0]) auto
  have acq: "acquire_channel_draw_lock Rd_Ok 0 ''t'' k (cw_redis demo_close_world)
      = (Inr (Some ''t''), [CHANNEL_DRAW_LOCK_PREFIX @ k \<mapsto> (''t'', Some CHANNEL_DRAW_LOCK_TTL_SECS)])" for k
    by (simp add: acquire_channel_draw_lock_def rd_command_def rd_set_nx_ex_def rd_get_def demo_close_world_def
        demo_channel_world_def)
  have "refunds demo_close_world = []" by (simp add: demo_close_world_def demo_channel_world_def)
  with lim c demo_close_auth acq ref [of "[CHANNEL_DRAW_LOCK_PREFIX @ cl_channel_id demo_close_request
      \<mapsto> (''t'', Some CHANNEL_DRAW_LOCK_TTL_SECS)]"] show ?thesis
    by (auto simp: close_channel_def demo_cfg_def demo_close_io_def same_channels_def row_def split: prod.splits)
qed

theorem close_requires_session_key_witness:
  "\<exists>f. refunds (snd (close_channel demo_venv demo_cfg demo_close_io demo_close_request demo_close_world)) = [f]
     \<and> rf_amount f = 5 \<and> rf_destination_wallet f = replicate 32 (CHR 0x05)"
proof -
  have row: "channel_of (cl_channel_id demo_close_request) demo_close_world
      = Some (demo_opened_row\<lparr>ch_channel_id := replicate 32 (CHR 0x07)\<rparr>)"
    by (simp add: demo_close_request_def demo_close_world_def row_def)
  have "refunds demo_close_world = []" by (simp add: demo_close_world_def demo_channel_world_def)
  with close_requires_session_key [OF surjective_pairing demo_close_inv demo_close_changes] row show ?thesis
    by (auto simp: demo_opened_row_def)
qed

theorem draw_lock_blocks_close_witness:
  "same_channels demo_close_world (snd (close_channel demo_venv demo_cfg demo_close_io demo_close_request
     (demo_close_world\<lparr>cw_redis := [CHANNEL_DRAW_LOCK_PREFIX @ replicate 32 (CHR 0x07) \<mapsto> (''other'', Some 900)]\<rparr>)))"
proof -
  let ?w = "demo_close_world\<lparr>cw_redis := [CHANNEL_DRAW_LOCK_PREFIX @ replicate 32 (CHR 0x07) \<mapsto> (''other'', Some 900)]\<rparr>"
  have "rd_get (snd (ci_acquire demo_close_io)) (CHANNEL_DRAW_LOCK_PREFIX @ cl_channel_id demo_close_request)
      (cw_redis ?w) = Some ''other''"
    by (simp add: demo_close_io_def demo_close_request_def rd_get_def)
  from draw_lock_blocks_close [OF surjective_pairing this] show ?thesis by (simp add: same_channels_def)
qed

end
