(* ===== verification/Chat_Request.thy ===== *)
theory Chat_Request
  imports Channel_Draw
begin

text \<open>
  What the chat handler does with a request before money is involved
  (\<open>gateway/src/routes/chat/mod.rs\<close>, \<open>routes/chat/response.rs\<close>, \<open>protocol/src/vision.rs\<close>): the shape
  of the messages, the images, the attribution tags, the ceiling on the completion, and the 402
  challenge it answers with. Text is a sequence of UTF-8 bytes.
\<close>

section \<open>Shape of the messages\<close>

definition MAX_MESSAGES :: nat where "MAX_MESSAGES = 256"
definition MAX_CONTENT_PARTS :: nat where "MAX_CONTENT_PARTS = 64"
definition MAX_IMAGES_PER_REQUEST :: nat where "MAX_IMAGES_PER_REQUEST = 100"
definition MAX_TOKENS_LIMIT :: u32 where "MAX_TOKENS_LIMIT = 128000"

definition too_many_parts :: "message_content \<Rightarrow> bool" where
  "too_many_parts c = (case c of PartsContent parts \<Rightarrow> MAX_CONTENT_PARTS < length parts | TextContent _ \<Rightarrow> False)"

definition has_user_prompt :: "chat_request \<Rightarrow> bool" where
  "has_user_prompt req \<longleftrightarrow>
     list_ex (\<lambda>m. cm_role m = ''user'' \<and> trim_text (as_text (cm_content m)) \<noteq> []) (rq_messages req)"

definition check_content :: "chat_request \<Rightarrow> (gateway_error, unit) result" where
  "check_content req =
    (if MAX_MESSAGES < length (rq_messages req) then Inl (Gw_BadRequest ''too many messages'')
     else if list_ex (\<lambda>m. too_many_parts (cm_content m)) (rq_messages req)
       then Inl (Gw_BadRequest ''too many content parts in a message'')
     else if MAX_IMAGES_PER_REQUEST < sum_list (map (\<lambda>m. length (image_urls (cm_content m))) (rq_messages req))
       then Inl (Gw_BadRequest ''too many images'')
     else if \<not> has_user_prompt req
       then Inl (Gw_BadRequest ''request contains no user message with non-empty text content'')
     else Inr ())"

section \<open>Attribution tags\<close>

definition MAX_SESSION_ID_LEN :: nat where "MAX_SESSION_ID_LEN = 128"
definition MAX_TENANT_LEN :: nat where "MAX_TENANT_LEN = 64"

definition is_ascii_alphanumeric :: "char \<Rightarrow> bool" where
  "is_ascii_alphanumeric c \<longleftrightarrow>
    (let n = of_char c :: nat in 48 \<le> n \<and> n \<le> 57 \<or> 65 \<le> n \<and> n \<le> 90 \<or> 97 \<le> n \<and> n \<le> 122)"

definition validate_session_id :: "string \<Rightarrow> string option" where
  "validate_session_id v =
    (if v = [] \<or> MAX_SESSION_ID_LEN < length v then None
     else if list_all (\<lambda>c. is_ascii_alphanumeric c \<or> c = CHR ''-'' \<or> c = CHR ''_'') v then Some v
     else None)"

definition validate_tenant :: "string \<Rightarrow> string option" where
  "validate_tenant v =
    (if v = [] \<or> MAX_TENANT_LEN < length v then None
     else if list_all (\<lambda>c. is_ascii_alphanumeric c \<or> c = CHR ''.'' \<or> c = CHR ''-'' \<or> c = CHR ''_'') v then Some v
     else None)"

definition ROUTING_TIER_NOT_ROUTED :: string where "ROUTING_TIER_NOT_ROUTED = ''N/A''"

definition routing_telemetry :: "string \<Rightarrow> f64 \<Rightarrow> string option \<times> f64 option" where
  "routing_telemetry tier score =
    (if tier = ROUTING_TIER_NOT_ROUTED then (None, None) else (Some tier, Some score))"

section \<open>Images\<close>

definition MAX_DATA_URI_BYTES :: nat where "MAX_DATA_URI_BYTES = 10 * 1024 * 1024"

datatype parse_image_error =
    Image_Empty
  | Image_MissingComma
  | Image_NotBase64
  | Image_EmptyPayload
  | Image_TooLarge nat nat
  | Image_UnsupportedScheme string

datatype parsed_image = Image_Base64 string string \<comment> \<open>media type, data\<close> | Image_Url string

definition SUPPORTED_MEDIA_TYPES :: "string list" where
  "SUPPORTED_MEDIA_TYPES = [''image/png'', ''image/jpeg'', ''image/webp'']"

definition strip_prefix :: "string \<Rightarrow> string \<Rightarrow> string option" where
  "strip_prefix p s = (if take (length p) s = p then Some (drop (length p) s) else None)"

definition strip_suffix :: "string \<Rightarrow> string \<Rightarrow> string option" where
  "strip_suffix p s = map_option rev (strip_prefix (rev p) (rev s))"

definition split_once :: "char \<Rightarrow> string \<Rightarrow> (string \<times> string) option" where
  "split_once c s = (case dropWhile (\<lambda>x. x \<noteq> c) s of [] \<Rightarrow> None | _ # rest \<Rightarrow> Some (takeWhile (\<lambda>x. x \<noteq> c) s, rest))"

definition parse_data_uri :: "string \<Rightarrow> (parse_image_error, parsed_image) result" where
  "parse_data_uri rest =
     and_then (ok_or Image_MissingComma (split_once CHR '','' rest)) (\<lambda>(meta, payload).
     and_then (ok_or Image_NotBase64 (strip_suffix '';base64'' meta)) (\<lambda>base64_meta.
     let media_type = (if base64_meta = [] then ''image/jpeg'' else base64_meta) in
     if media_type \<notin> set SUPPORTED_MEDIA_TYPES then Inl (Image_UnsupportedScheme media_type)
     else if payload = [] then Inl Image_EmptyPayload
     else Inr (Image_Base64 media_type payload)))"

definition parse_image :: "image_url \<Rightarrow> (parse_image_error, parsed_image) result" where
  "parse_image i =
    (if MAX_DATA_URI_BYTES < length (iu_url i) then Inl (Image_TooLarge (length (iu_url i)) MAX_DATA_URI_BYTES)
     else
       let url = trim_text (iu_url i) in
       if url = [] then Inl Image_Empty
       else case strip_prefix ''data:'' url of
         Some rest \<Rightarrow> parse_data_uri rest
       | None \<Rightarrow>
         if strip_prefix ''http://'' url \<noteq> None \<or> strip_prefix ''https://'' url \<noteq> None then Inr (Image_Url url)
         else Inl (Image_UnsupportedScheme (''expected a data: URI or an http(s) URL'')))"

definition image_ok :: "image_url \<Rightarrow> bool" where
  "image_ok i \<longleftrightarrow> (case parse_image i of Inr _ \<Rightarrow> True | Inl _ \<Rightarrow> False)"

fun check_images :: "chat_message list \<Rightarrow> (gateway_error, unit) result" where
  "check_images [] = Inr ()"
| "check_images (m # ms) =
    (if (cm_role m = ''system'' \<or> cm_role m = ''developer'') \<and> image_urls (cm_content m) \<noteq> []
       then Inl (Gw_BadRequest ''image content is not supported in system/developer messages'')
     else if \<not> list_all image_ok (image_urls (cm_content m)) then Inl (Gw_BadRequest ''invalid image'')
     else check_images ms)"

definition check_vision :: "chat_request \<Rightarrow> model_registration \<Rightarrow> (gateway_error, unit) result" where
  "check_vision req model_info =
    (let request_has_images = list_ex (\<lambda>m. image_urls (cm_content m) \<noteq> []) (rq_messages req) in
     if request_has_images \<and> \<not> mr_supports_vision model_info
       then Inl (Gw_UnsupportedMediaType ''model does not support image input'')
     else if request_has_images then check_images (rq_messages req)
     else Inr ())"

definition clamp_max_tokens :: "chat_request \<Rightarrow> model_registration \<Rightarrow> chat_request" where
  "clamp_max_tokens req model_info =
    (case rq_max_tokens req of
       None \<Rightarrow> req
     | Some requested_max \<Rightarrow>
       let model_limit = (case mr_max_output_tokens model_info of Some l \<Rightarrow> l | None \<Rightarrow> MAX_TOKENS_LIMIT);
           effective_limit = min model_limit MAX_TOKENS_LIMIT in
       if effective_limit < requested_max then req\<lparr>rq_max_tokens := Some effective_limit\<rparr> else req)"

section \<open>The wire dialect\<close>

datatype wire_dialect =
    OpenAi bytes
  | AnthropicMessages bytes "string option" "string option" \<comment> \<open>body, version and beta headers\<close>

primrec anthropic_native_source :: "wire_dialect \<Rightarrow> (bytes \<times> string option \<times> string option) option" where
  "anthropic_native_source (OpenAi _) = None"
| "anthropic_native_source (AnthropicMessages b version beta) = Some (b, version, beta)"

primrec raw_body :: "wire_dialect \<Rightarrow> bytes" where
  "raw_body (OpenAi b) = b"
| "raw_body (AnthropicMessages b _ _) = b"

text \<open>The one estimate that the quote, the amount check and the reservation share.\<close>

definition input_token_estimate :: "serde \<Rightarrow> chat_request \<Rightarrow> model_registration \<Rightarrow> wire_dialect \<Rightarrow> u32" where
  "input_token_estimate sd req model_info dialect =
    (case (if mr_provider model_info = ''anthropic'' then anthropic_native_source dialect else None) of
       Some (body, _) \<Rightarrow> estimate_native_anthropic_input_tokens sd body
     | None \<Rightarrow> estimate_input_tokens req)"

section \<open>The challenge\<close>

definition X402_VERSION :: u8 where "X402_VERSION = 2"
definition MAX_TIMEOUT_SECONDS :: u64 where "MAX_TIMEOUT_SECONDS = 300"

record payment_required =
  pq_x402_version :: u8
  pq_resource :: payment_resource
  pq_accepts :: "payment_accept list"
  pq_cost_breakdown :: cost_breakdown
  pq_error :: string

record challenge_config =
  xc_usdc_mint :: string
  xc_recipient_wallet :: string
  xc_escrow_program_id :: "string option"
  xc_has_claimer :: bool

definition build_payment_challenge ::
  "challenge_config \<Rightarrow> string \<Rightarrow> cost_breakdown \<Rightarrow> string \<Rightarrow> payment_required" where
  "build_payment_challenge xc amount cost resource_url =
    (let exact_accept = \<lparr>pa_scheme = ''exact'', pa_network = SOLANA_NETWORK, pa_amount = amount,
           pa_asset = xc_usdc_mint xc, pa_pay_to = xc_recipient_wallet xc,
           pa_max_timeout_seconds = MAX_TIMEOUT_SECONDS, pa_escrow_program_id = None\<rparr> in
     \<lparr>pq_x402_version = X402_VERSION,
      pq_resource = \<lparr>res_url = resource_url, res_method = ''POST''\<rparr>,
      pq_accepts = exact_accept #
        (if xc_has_claimer xc then [exact_accept\<lparr>pa_scheme := ''escrow'', pa_escrow_program_id := xc_escrow_program_id xc\<rparr>]
         else []),
      pq_cost_breakdown = cost, pq_error = ''Payment required''\<rparr>)"

definition chat_completions_discovery :: "challenge_config \<Rightarrow> u8 \<Rightarrow> model_registry \<Rightarrow> string \<Rightarrow> payment_required" where
  "chat_completions_discovery xc fee registry resource_url =
    (let floor_atomic = discovery_floor_atomic fee registry;
         (provider_atomic, fee_atomic) = split_total_atomic fee floor_atomic in
     build_payment_challenge xc (nat_text (unat floor_atomic))
       \<lparr>cb_provider_cost = micros_text (unat provider_atomic), cb_platform_fee = micros_text (unat fee_atomic),
        cb_total = micros_text (unat floor_atomic), cb_currency = ''USDC'', cb_fee_percent = fee\<rparr>
       resource_url)"

end
