(* ===== verification/Claim_Queue.thy ===== *)
theory Claim_Queue
  imports Escrow_Verifier Sql_Table
begin

text \<open>
  The durable claim queue (\<open>crates/x402/src/escrow/claim_queue.rs\<close>), the background worker that
  drains it with its circuit breaker (\<open>claim_processor.rs\<close>), and the step of the chat route that
  puts a claim into it (\<open>crates/gateway/src/routes/chat/payment.rs\<close>). The table is
  \<open>escrow_claim_queue\<close> of the migrations; its trigger refreshes \<open>updated_at\<close> on every update. Times
  of the database are seconds, those of the worker's monotonic clock milliseconds.
\<close>

section \<open>The table\<close>

datatype claim_status = Pending | InProgress | Completed | Failed

definition claim_status_from_db :: "string \<Rightarrow> claim_status" where
  "claim_status_from_db s =
    (if s = ''in_progress'' then InProgress else if s = ''completed'' then Completed
     else if s = ''failed'' then Failed else Pending)"

record claim_row =
  cq_id :: string
  cq_service_id :: bytes
  cq_agent_pubkey :: string
  cq_claim_amount :: int
  cq_deposited_amount :: "int option"
  cq_status :: string
  cq_attempts :: int
  cq_last_attempt_at :: "int option"
  cq_tx_signature :: "string option"
  cq_error_message :: "string option"
  cq_created_at :: int
  cq_completed_at :: "int option"
  cq_next_retry_at :: "int option"
  cq_updated_at :: int

record claim_entry =
  en_id :: string
  en_service_id :: bytes
  en_agent_pubkey :: string
  en_claim_amount :: u64
  en_deposited_amount :: "u64 option"
  en_status :: claim_status
  en_attempts :: int
  en_tx_signature :: "string option"
  en_error_message :: "string option"

text \<open>\<open>as i64\<close> and \<open>as u64\<close>: the two's-complement casts.\<close>

definition as_i64 :: "u64 \<Rightarrow> int" where
  "as_i64 v = sint v"

definition i64_as_u64 :: "int \<Rightarrow> u64" where
  "i64_as_u64 i = word_of_int i"

lemma i64_as_u64_as_i64 [simp]: "i64_as_u64 (as_i64 v) = v"
  by (simp add: as_i64_def i64_as_u64_def)

definition touch :: "int \<Rightarrow> claim_row \<Rightarrow> claim_row" where
  "touch now r = r\<lparr>cq_updated_at := now\<rparr>"

text \<open>One statement outside a transaction: a failed one may still have taken effect.\<close>

definition claim_update ::
  "db_faults \<Rightarrow> int \<Rightarrow> string \<Rightarrow> (claim_row \<Rightarrow> (db_error, claim_row) result) \<Rightarrow> claim_row list
     \<Rightarrow> (db_error, unit) result \<times> claim_row list" where
  "claim_update ft now i f db =
    (case sql_update (\<lambda>r. cq_id r = i) (\<lambda>r. map_sum id (touch now) (f r)) db of
       Inl e \<Rightarrow> (Inl e, db)
     | Inr (n, db') \<Rightarrow> commit ft 0 ConnectionFault () db db')"

definition increment_attempts :: "claim_row \<Rightarrow> (db_error, claim_row) result" where
  "increment_attempts r =
    (if cq_attempts r + 1 < 2 ^ 31 then Inr (r\<lparr>cq_attempts := cq_attempts r + 1\<rparr>) else Inl NumericOutOfRange)"

section \<open>Queue operations\<close>

definition enqueue_claim ::
  "db_faults \<Rightarrow> int \<Rightarrow> string \<Rightarrow> bytes \<Rightarrow> string \<Rightarrow> u64 \<Rightarrow> u64 option \<Rightarrow> claim_row list
     \<Rightarrow> (db_error, string) result \<times> claim_row list" where
  "enqueue_claim ft now fresh_id service_id agent_pubkey claim_amount deposited_amount db =
    (if fresh_id \<in> cq_id ` set db then (Inl UniqueViolation, db)
     else commit ft 0 ConnectionFault fresh_id db (db @
       [\<lparr>cq_id = fresh_id, cq_service_id = service_id, cq_agent_pubkey = agent_pubkey,
         cq_claim_amount = as_i64 claim_amount, cq_deposited_amount = map_option as_i64 deposited_amount,
         cq_status = ''pending'', cq_attempts = 0, cq_last_attempt_at = None, cq_tx_signature = None,
         cq_error_message = None, cq_created_at = now, cq_completed_at = None, cq_next_retry_at = None,
         cq_updated_at = now\<rparr>]))"

definition mark_in_progress ::
  "db_faults \<Rightarrow> int \<Rightarrow> string \<Rightarrow> claim_row list \<Rightarrow> (db_error, unit) result \<times> claim_row list" where
  "mark_in_progress ft now i =
     claim_update ft now i (\<lambda>r. map_sum id
       (\<lambda>r'. r'\<lparr>cq_status := ''in_progress'', cq_last_attempt_at := Some now\<rparr>) (increment_attempts r))"

definition mark_completed ::
  "db_faults \<Rightarrow> int \<Rightarrow> string \<Rightarrow> string \<Rightarrow> claim_row list \<Rightarrow> (db_error, unit) result \<times> claim_row list" where
  "mark_completed ft now i tx_signature =
     claim_update ft now i (\<lambda>r. Inr (r\<lparr>cq_status := ''completed'', cq_tx_signature := Some tx_signature,
       cq_completed_at := Some now\<rparr>))"

definition mark_attempt_failed ::
  "db_faults \<Rightarrow> int \<Rightarrow> string \<Rightarrow> string \<Rightarrow> int \<Rightarrow> claim_row list \<Rightarrow> (db_error, unit) result \<times> claim_row list"
where
  "mark_attempt_failed ft now i error current_attempts =
     claim_update ft now i (\<lambda>r. Inr (r\<lparr>
       cq_status := (if MAX_CLAIM_ATTEMPTS \<le> cq_attempts r then ''failed'' else ''pending''),
       cq_error_message := Some error, cq_last_attempt_at := Some now,
       cq_next_retry_at := (if MAX_CLAIM_ATTEMPTS \<le> cq_attempts r then cq_next_retry_at r
                            else Some (now + int (backoff_duration current_attempts)))\<rparr>))"

definition STALE_SECS :: int where
  "STALE_SECS = 300"

definition claim_due :: "int \<Rightarrow> claim_row \<Rightarrow> bool" where
  "claim_due now r \<longleftrightarrow>
     cq_status r = ''pending'' \<and> (case cq_next_retry_at r of None \<Rightarrow> True | Some t \<Rightarrow> t \<le> now)
     \<or> cq_status r = ''in_progress'' \<and> cq_updated_at r < now - STALE_SECS"

text \<open>\<open>FOR UPDATE SKIP LOCKED\<close>: the rows other transactions hold at that moment are passed over.\<close>

definition pick_claims :: "int \<Rightarrow> (string \<Rightarrow> bool) \<Rightarrow> nat \<Rightarrow> claim_row list \<Rightarrow> string list" where
  "pick_claims now locked limit db =
     map cq_id (take limit (sort_key cq_created_at (filter (\<lambda>r. claim_due now r \<and> \<not> locked (cq_id r)) db)))"

definition entry_of :: "claim_row \<Rightarrow> claim_entry" where
  "entry_of r =
    \<lparr>en_id = cq_id r, en_service_id = take 32 (cq_service_id r @ replicate 32 0),
     en_agent_pubkey = cq_agent_pubkey r, en_claim_amount = i64_as_u64 (cq_claim_amount r),
     en_deposited_amount = map_option i64_as_u64 (cq_deposited_amount r),
     en_status = claim_status_from_db (cq_status r), en_attempts = cq_attempts r,
     en_tx_signature = cq_tx_signature r, en_error_message = cq_error_message r\<rparr>"

definition start_attempt :: "int \<Rightarrow> claim_row \<Rightarrow> (db_error, claim_row) result" where
  "start_attempt now r =
     map_sum id (\<lambda>r'. touch now (r'\<lparr>cq_status := ''in_progress'', cq_last_attempt_at := Some now\<rparr>))
       (increment_attempts r)"

definition fetch_pending_claims ::
  "db_faults \<Rightarrow> int \<Rightarrow> (string \<Rightarrow> bool) \<Rightarrow> nat \<Rightarrow> claim_row list
     \<Rightarrow> (db_error, claim_entry list) result \<times> claim_row list" where
  "fetch_pending_claims ft now locked limit db =
    (let ids = pick_claims now locked limit db in
     case sql_update (\<lambda>r. cq_id r \<in> set ids) (start_attempt now) db of
       Inl e \<Rightarrow> (Inl e, db)
     | Inr (n, db') \<Rightarrow>
       commit ft 0 ConnectionFault (map entry_of (filter (\<lambda>r. cq_id r \<in> set ids) db')) db db')"

section \<open>Circuit breaker\<close>

record claim_breaker =
  cb_success_count :: u64
  cb_failure_count :: u64
  cb_last_reset :: nat
  cb_tripped_until :: "nat option"
  cb_window :: nat
  cb_pause :: nat
  cb_min_sample_size :: u64

definition new_breaker :: "nat \<Rightarrow> claim_breaker" where
  "new_breaker now = \<lparr>cb_success_count = 0, cb_failure_count = 0, cb_last_reset = now,
     cb_tripped_until = None, cb_window = 300000, cb_pause = 60000, cb_min_sample_size = 4\<rparr>"

definition maybe_reset_window :: "nat \<Rightarrow> claim_breaker \<Rightarrow> claim_breaker" where
  "maybe_reset_window now b =
    (if cb_window b \<le> now - cb_last_reset b
     then b\<lparr>cb_success_count := 0, cb_failure_count := 0, cb_last_reset := now\<rparr> else b)"

definition record_success :: "nat \<Rightarrow> claim_breaker \<Rightarrow> claim_breaker" where
  "record_success now b =
    (let b1 = maybe_reset_window now b in b1\<lparr>cb_success_count := cb_success_count b1 + 1\<rparr>)"

definition record_failure :: "nat \<Rightarrow> claim_breaker \<Rightarrow> claim_breaker" where
  "record_failure now b =
    (let b1 = maybe_reset_window now b;
         failures = cb_failure_count b1 + 1;
         successes = cb_success_count b1;
         total = successes + failures;
         b2 = b1\<lparr>cb_failure_count := failures\<rparr> in
     if cb_min_sample_size b2 \<le> total \<and> total < failures * 2 \<and> cb_tripped_until b2 = None
     then b2\<lparr>cb_tripped_until := Some (now + cb_pause b2)\<rparr> else b2)"

definition is_open :: "nat \<Rightarrow> claim_breaker \<Rightarrow> bool \<times> claim_breaker" where
  "is_open now b =
    (case cb_tripped_until b of
       None \<Rightarrow> (False, b)
     | Some until \<Rightarrow>
       if until \<le> now
       then (False, b\<lparr>cb_tripped_until := None, cb_last_reset := now, cb_success_count := 0,
               cb_failure_count := 0\<rparr>)
       else (True, b))"

section \<open>The worker\<close>

record escrow_metrics =
  em_submitted :: u64
  em_succeeded :: u64
  em_failed :: u64
  em_retried :: u64

definition new_metrics :: escrow_metrics where
  "new_metrics = \<lparr>em_submitted = 0, em_succeeded = 0, em_failed = 0, em_retried = 0\<rparr>"

text \<open>
  The environment of a cycle gives, for its \<open>n\<close>-th database operation, the fault, the clocks, the
  rows locked elsewhere, what peers did to the table before it, and the node the claim talks to.
\<close>

record claim_env =
  ce_fault :: "nat \<Rightarrow> db_faults"
  ce_now :: "nat \<Rightarrow> int"
  ce_clock :: "nat \<Rightarrow> nat"
  ce_locked :: "nat \<Rightarrow> string \<Rightarrow> bool"
  ce_peers :: "nat \<Rightarrow> claim_row list \<Rightarrow> claim_row list"
  ce_rpc :: "nat \<Rightarrow> claim_rpc"

record claim_state =
  cs_db :: "claim_row list"
  cs_claimer :: escrow_claimer
  cs_breaker :: claim_breaker
  cs_metrics :: "escrow_metrics option"
  cs_ops :: nat
  cs_sent :: "(string \<times> string) list" \<comment> \<open>claim id and transaction, in order of submission\<close>

definition claim_db_op ::
  "claim_env \<Rightarrow> (db_faults \<Rightarrow> int \<Rightarrow> claim_row list \<Rightarrow> 'r \<times> claim_row list) \<Rightarrow> claim_state \<Rightarrow> 'r \<times> claim_state"
where
  "claim_db_op env f st =
    (let n = cs_ops st; (r, db') = f (ce_fault env n) (ce_now env n) (ce_peers env n (cs_db st)) in
     (r, st\<lparr>cs_db := db', cs_ops := n + 1\<rparr>))"

definition breaker_op :: "claim_env \<Rightarrow> (nat \<Rightarrow> claim_breaker \<Rightarrow> claim_breaker) \<Rightarrow> claim_state \<Rightarrow> claim_state" where
  "breaker_op env f st = st\<lparr>cs_breaker := f (ce_clock env (cs_ops st)) (cs_breaker st)\<rparr>"

definition count :: "(escrow_metrics \<Rightarrow> escrow_metrics) \<Rightarrow> claim_state \<Rightarrow> claim_state" where
  "count f st = st\<lparr>cs_metrics := map_option f (cs_metrics st)\<rparr>"

definition fail_entry :: "claim_env \<Rightarrow> claim_entry \<Rightarrow> string \<Rightarrow> claim_state \<Rightarrow> claim_state" where
  "fail_entry env e error st =
     breaker_op env record_failure
       (snd (claim_db_op env (\<lambda>ft now. mark_attempt_failed ft now (en_id e) error (en_attempts e)) st))"

definition process_claim ::
  "crypto \<Rightarrow> signing \<Rightarrow> claim_env \<Rightarrow> claim_entry \<Rightarrow> claim_state \<Rightarrow> claim_state" where
  "process_claim cr sg env e st =
    (if MAX_CLAIM_ATTEMPTS < en_attempts e then
       count (\<lambda>m. m\<lparr>em_failed := em_failed m + 1\<rparr>)
         (fail_entry env e ''exceeded maximum retry attempts (10)'' st)
     else case decode_bs58_pubkey cr (en_agent_pubkey e) of
       Inl _ \<Rightarrow>
         count (\<lambda>m. m\<lparr>em_failed := em_failed m + 1\<rparr>) (fail_entry env e ''invalid agent pubkey'' st)
     | Inr agent \<Rightarrow>
       let (tx, r, claimer') = do_claim_with_params cr sg (ce_rpc env (cs_ops st))
             (ce_clock env (cs_ops st)) (cs_claimer st) (en_service_id e) agent (en_claim_amount e);
           st1 = st\<lparr>cs_claimer := claimer',
                    cs_sent := cs_sent st @ (case tx of None \<Rightarrow> [] | Some t \<Rightarrow> [(en_id e, t)])\<rparr> in
       case r of
         Inr tx_sig \<Rightarrow>
           count (\<lambda>m. m\<lparr>em_succeeded := em_succeeded m + 1\<rparr>)
             (breaker_op env record_success
               (snd (claim_db_op env (\<lambda>ft now. mark_completed ft now (en_id e) tx_sig) st1)))
       | Inl err \<Rightarrow>
           count (\<lambda>m. if MAX_CLAIM_ATTEMPTS \<le> en_attempts e then m\<lparr>em_failed := em_failed m + 1\<rparr>
                      else m\<lparr>em_retried := em_retried m + 1\<rparr>)
             (fail_entry env e (error_text err) st1))"

definition process_pending_claims ::
  "crypto \<Rightarrow> signing \<Rightarrow> claim_env \<Rightarrow> claim_state \<Rightarrow> (db_error, unit) result \<times> claim_state" where
  "process_pending_claims cr sg env st =
    (let (opened, b) = is_open (ce_clock env (cs_ops st)) (cs_breaker st);
         st0 = st\<lparr>cs_breaker := b\<rparr> in
     if opened then (Inr (), st0)
     else
       let (r, st1) = claim_db_op env (\<lambda>ft now. fetch_pending_claims ft now (ce_locked env (cs_ops st0)) 10) st0 in
       case r of
         Inl e \<Rightarrow> (Inl e, st1)
       | Inr pending \<Rightarrow>
         if pending = [] then (Inr (), st1)
         else (Inr (), fold (process_claim cr sg env) pending
           (count (\<lambda>m. m\<lparr>em_submitted := em_submitted m + of_nat (length pending)\<rparr>) st1)))"

section \<open>Queueing a claim\<close>

definition cap_claim_amount :: "u64 \<Rightarrow> u64 option \<Rightarrow> u64 \<Rightarrow> u64" where
  "cap_claim_amount claim_atomic deposited client_amount =
    (case deposited of Some d \<Rightarrow> min claim_atomic d | None \<Rightarrow> min claim_atomic client_amount)"

datatype claim_action =
    NoClaim
  | EnqueueClaim bytes string u64 "u64 option" \<comment> \<open>service id, agent, amount, verified deposit\<close>
  | ClaimAsync bytes pubkey u64

definition decode_service_id :: "(string \<Rightarrow> bytes option) \<Rightarrow> string \<Rightarrow> bytes option" where
  "decode_service_id b64 s =
    (case b64 s of None \<Rightarrow> None | Some bs \<Rightarrow> if length bs = 32 then Some bs else None)"

definition decode_agent_pubkey :: "crypto \<Rightarrow> string \<Rightarrow> pubkey option" where
  "decode_agent_pubkey cr s =
    (case bs58_decode cr s of None \<Rightarrow> None | Some bs \<Rightarrow> if length bs = 32 then Some bs else None)"

text \<open>
  What the route does after a served request: queue the claim when there is a database, claim at
  once when there is only a claimer, or nothing.
\<close>

definition fire_escrow_claim ::
  "crypto \<Rightarrow> (string \<Rightarrow> bytes option) \<Rightarrow> bool \<Rightarrow> bool \<Rightarrow> bool \<Rightarrow> string option \<Rightarrow> string option \<Rightarrow> u64 option
     \<Rightarrow> u64 \<Rightarrow> u64 \<Rightarrow> claim_action" where
  "fire_escrow_claim cr b64 has_db has_claimer is_escrow service_id agent_pubkey deposited claim_atomic client_amount =
    (if \<not> is_escrow then NoClaim
     else case service_id of
       None \<Rightarrow> NoClaim
     | Some sid_b64 \<Rightarrow>
       (case agent_pubkey of
          None \<Rightarrow> NoClaim
        | Some agent_b58 \<Rightarrow>
          let amount = cap_claim_amount claim_atomic deposited client_amount in
          if amount = 0 then NoClaim
          else case decode_service_id b64 sid_b64 of
            None \<Rightarrow> NoClaim
          | Some sid \<Rightarrow>
            if has_db then EnqueueClaim sid agent_b58 amount deposited
            else if has_claimer then
              (case decode_agent_pubkey cr agent_b58 of
                 None \<Rightarrow> NoClaim
               | Some agent \<Rightarrow> ClaimAsync sid agent amount)
            else NoClaim))"

definition uses_durable_nonce :: "(string \<Rightarrow> bytes option) \<Rightarrow> string \<Rightarrow> bool" where
  "uses_durable_nonce b64 tx =
    (case b64 tx of
       None \<Rightarrow> False
     | Some bs \<Rightarrow>
       (case versioned_transaction_from_bytes bs of
          Inl _ \<Rightarrow> False
        | Inr vt \<Rightarrow>
          (case parsed_message_from_bytes (vt_message_bytes vt) of
             Inl _ \<Rightarrow> False
           | Inr m \<Rightarrow>
             (case instructions m of
                [] \<Rightarrow> False
              | ix # _ \<Rightarrow> key_at m (program_id_index ix) = Some SYSTEM_PROGRAM
                  \<and> 4 \<le> length (ix_data ix) \<and> take 4 (ix_data ix) = [4, 0, 0, 0]))))"

section \<open>The life of a claim\<close>

text \<open>What every row satisfies, and how a row may change.\<close>

definition claim_row_ok :: "claim_row \<Rightarrow> bool" where
  "claim_row_ok r \<longleftrightarrow> 0 \<le> cq_attempts r
     \<and> (cq_status r = ''pending'' \<and> cq_attempts r < MAX_CLAIM_ATTEMPTS
        \<or> cq_status r = ''in_progress'' \<and> 0 < cq_attempts r
        \<or> cq_status r = ''completed'' \<and> cq_tx_signature r \<noteq> None
        \<or> cq_status r = ''failed'' \<and> MAX_CLAIM_ATTEMPTS \<le> cq_attempts r)"

definition same_claim :: "claim_row \<Rightarrow> claim_row \<Rightarrow> bool" where
  "same_claim r r' \<longleftrightarrow> cq_id r' = cq_id r \<and> cq_service_id r' = cq_service_id r
     \<and> cq_agent_pubkey r' = cq_agent_pubkey r \<and> cq_claim_amount r' = cq_claim_amount r
     \<and> cq_deposited_amount r' = cq_deposited_amount r \<and> cq_created_at r' = cq_created_at r
     \<and> cq_attempts r \<le> cq_attempts r' \<and> (cq_tx_signature r \<noteq> None \<longrightarrow> cq_tx_signature r' \<noteq> None)"

definition claim_evolves :: "claim_row \<Rightarrow> claim_row \<Rightarrow> bool" where
  "claim_evolves r r' \<longleftrightarrow> same_claim r r' \<and> (claim_row_ok r \<longrightarrow> claim_row_ok r')"

lemma claim_evolves_refl [simp]: "claim_evolves r r"
  by (simp add: claim_evolves_def same_claim_def)

lemma same_claim_trans: "same_claim a b \<Longrightarrow> same_claim b c \<Longrightarrow> same_claim a c"
  by (auto simp: same_claim_def)

lemma increment_attempts_Inr:
  "increment_attempts r = Inr r' \<longleftrightarrow> cq_attempts r + 1 < 2 ^ 31 \<and> r' = r\<lparr>cq_attempts := cq_attempts r + 1\<rparr>"
  by (auto simp: increment_attempts_def)

lemma map_sum_Inr_iff: "map_sum id f x = Inr y \<longleftrightarrow> (\<exists>z. x = Inr z \<and> y = f z)"
  by (cases x) auto

lemma claim_update_rows:
  assumes "claim_update ft now i f db = (x, db')" "\<And>r r'. f r = Inr r' \<Longrightarrow> claim_evolves r (touch now r')"
  shows "list_all2 claim_evolves db db'"
proof (cases "sql_update (\<lambda>r. cq_id r = i) (\<lambda>r. map_sum id (touch now) (f r)) db")
  case (Inl e)
  with assms(1) show ?thesis by (simp add: claim_update_def list_all2_same)
next
  case (Inr p)
  then obtain n db1 where u: "sql_update (\<lambda>r. cq_id r = i) (\<lambda>r. map_sum id (touch now) (f r)) db = Inr (n, db1)"
    by (cases p) auto
  have "list_all2 claim_evolves db db1"
    by (rule list_all2_mono [OF sql_update_rows [OF u]])
      (auto simp: map_sum_Inr_iff assms(2) split: if_splits)
  moreover have "db' = db \<or> db' = db1"
    using assms(1) u by (auto simp: claim_update_def commit_def split: if_splits)
  ultimately show ?thesis by (auto simp: list_all2_same)
qed

lemma mark_rows:
  "mark_in_progress ft now i db = (x, db') \<Longrightarrow> list_all2 claim_evolves db db'"
  "mark_completed ft now i sig db = (y, db') \<Longrightarrow> list_all2 claim_evolves db db'"
  "mark_attempt_failed ft now i err k db = (y, db') \<Longrightarrow> list_all2 claim_evolves db db'"
  unfolding mark_in_progress_def mark_completed_def mark_attempt_failed_def
  by (erule claim_update_rows, auto simp: claim_evolves_def same_claim_def claim_row_ok_def touch_def
      map_sum_Inr_iff increment_attempts_Inr MAX_CLAIM_ATTEMPTS_def)+

lemma start_attempt_Inr:
  "start_attempt now r = Inr r' \<longleftrightarrow> cq_attempts r + 1 < 2 ^ 31
     \<and> r' = r\<lparr>cq_attempts := cq_attempts r + 1, cq_status := ''in_progress'', cq_last_attempt_at := Some now,
          cq_updated_at := now\<rparr>"
  by (auto simp: start_attempt_def map_sum_Inr_iff increment_attempts_Inr touch_def)

lemma start_attempt_evolves: "start_attempt now r = Inr r' \<Longrightarrow> claim_evolves r r'"
  by (auto simp: start_attempt_Inr claim_evolves_def same_claim_def claim_row_ok_def)

lemma fetch_cases:
  assumes "fetch_pending_claims ft now locked limit db = (x, db')"
  obtains (unchanged) e where "x = Inl e" "db' = db"
  | (taken) n where "sql_update (\<lambda>r. cq_id r \<in> set (pick_claims now locked limit db)) (start_attempt now) db = Inr (n, db')"
      "x = Inl ConnectionFault \<or>
       x = Inr (map entry_of (filter (\<lambda>r. cq_id r \<in> set (pick_claims now locked limit db)) db'))"
  using assms
  by (auto simp: fetch_pending_claims_def Let_def commit_def split: sum.splits prod.splits if_splits)

lemma fetch_rows:
  assumes "fetch_pending_claims ft now locked limit db = (x, db')"
  shows "list_all2 claim_evolves db db'"
  using assms
proof (cases rule: fetch_cases)
  case (taken n)
  show ?thesis
    by (rule list_all2_mono [OF sql_update_rows [OF taken(1)]])
      (auto simp: start_attempt_evolves split: if_splits)
qed (simp add: list_all2_same)

section \<open>The queue as a transition system\<close>

inductive claim_step :: "claim_row list \<Rightarrow> claim_row list \<Rightarrow> bool" where
  step_enqueue: "enqueue_claim ft now i sid agent amount deposited db = (x, db') \<Longrightarrow> claim_step db db'"
| step_fetch: "fetch_pending_claims ft now locked limit db = (y, db') \<Longrightarrow> claim_step db db'"
| step_in_progress: "mark_in_progress ft now i db = (z, db') \<Longrightarrow> claim_step db db'"
| step_completed: "mark_completed ft now i sig db = (z, db') \<Longrightarrow> claim_step db db'"
| step_failed: "mark_attempt_failed ft now i err k db = (z, db') \<Longrightarrow> claim_step db db'"

inductive_cases claim_stepE: "claim_step db db'"

definition claim_inv :: "claim_row list \<Rightarrow> bool" where
  "claim_inv db \<longleftrightarrow> pk_unique cq_id db \<and> list_all claim_row_ok db"

definition empty_queue :: "claim_row list \<Rightarrow> bool" where
  "empty_queue db \<longleftrightarrow> db = []"

lemma evolves_ids: "list_all2 claim_evolves db db' \<Longrightarrow> map cq_id db' = map cq_id db"
  by (induction rule: list_all2_induct) (auto simp: claim_evolves_def same_claim_def)

lemma evolves_inv: "list_all2 claim_evolves db db' \<Longrightarrow> claim_inv db \<Longrightarrow> claim_inv db'"
proof -
  assume e: "list_all2 claim_evolves db db'" and i: "claim_inv db"
  have "list_all claim_row_ok db \<Longrightarrow> list_all claim_row_ok db'"
    using e by (induction rule: list_all2_induct) (auto simp: claim_evolves_def)
  with i evolves_ids [OF e] show ?thesis by (simp add: claim_inv_def pk_unique_def)
qed

lemma enqueue_cases:
  assumes "enqueue_claim ft now i sid agent amount deposited db = (x, db')"
  obtains (none) "db' = db"
  | (row) r where "db' = db @ [r]" "i \<notin> cq_id ` set db" "cq_id r = i" "cq_service_id r = sid"
      "cq_agent_pubkey r = agent" "cq_claim_amount r = as_i64 amount"
      "cq_deposited_amount r = map_option as_i64 deposited" "claim_row_ok r"
proof (cases "db' = db")
  case False
  with assms show ?thesis
    by (intro row) (auto simp: enqueue_claim_def commit_def claim_row_ok_def MAX_CLAIM_ATTEMPTS_def
        split: if_splits)
qed (rule none)

lemma claim_step_cases:
  assumes "claim_step db db'"
  obtains "list_all2 claim_evolves db db'"
  | r where "db' = db @ [r]" "cq_id r \<notin> cq_id ` set db" "claim_row_ok r"
  using assms
proof (cases rule: claim_step.cases)
  case (step_enqueue ft now i sid agent amount deposited x)
  then show ?thesis
    by (cases rule: enqueue_cases) (auto intro: that simp: list_all2_same)
qed (auto intro: that(1) mark_rows fetch_rows)

interpretation claim_queue: inv_system empty_queue claim_step claim_inv
proof
  fix db
  assume "empty_queue db"
  then show "claim_inv db" by (simp add: empty_queue_def claim_inv_def pk_unique_def)
next
  fix db db'
  assume i: "claim_inv db" and "claim_step db db'"
  from this(2) show "claim_inv db'"
  proof (cases rule: claim_step_cases)
    case 1
    with i show ?thesis by (rule evolves_inv [rotated])
  next
    case (2 r)
    with i show ?thesis by (auto simp: claim_inv_def pk_unique_def)
  qed
qed

section \<open>Properties of the queue\<close>

text \<open>
  C29. In every reachable queue the claim ids are distinct and every claim is in one of four states:
  pending with fewer than ten attempts behind it, in progress with at least one, completed with the
  signature of a submitted transaction, or failed with all ten attempts used up.
\<close>
theorem claim_queue_sound:
  assumes "reach empty_queue claim_step db"
  shows "distinct (map cq_id db) \<and> (\<forall>r \<in> set db.
      cq_status r = ''pending'' \<and> 0 \<le> cq_attempts r \<and> cq_attempts r < 10
    \<or> cq_status r = ''in_progress'' \<and> 0 < cq_attempts r
    \<or> cq_status r = ''completed'' \<and> (\<exists>sig. cq_tx_signature r = Some sig)
    \<or> cq_status r = ''failed'' \<and> 10 \<le> cq_attempts r)"
  using claim_queue.reach_inv [OF assms]
  by (fastforce simp: claim_inv_def pk_unique_def list_all_iff claim_row_ok_def MAX_CLAIM_ATTEMPTS_def)

lemma evolves_row:
  assumes "list_all2 claim_evolves db db'" "row cq_id i db = Some r"
  shows "\<exists>r'. row cq_id i db' = Some r' \<and> same_claim r r'"
  using assms by (induction rule: list_all2_induct) (auto simp: claim_evolves_def same_claim_def split: if_splits)

lemma steps_row:
  assumes "claim_step\<^sup>*\<^sup>* db db'" "row cq_id i db = Some r"
  shows "\<exists>r'. row cq_id i db' = Some r' \<and> same_claim r r'"
  using assms(1)
proof (induction rule: rtranclp_induct)
  case base
  then show ?case using assms(2) by (auto simp: same_claim_def)
next
  case (step db1 db2)
  then obtain r1 where r1: "row cq_id i db1 = Some r1" "same_claim r r1" by blast
  from step.hyps(2) show ?case
  proof (cases rule: claim_step_cases)
    case 1
    with r1 show ?thesis using evolves_row same_claim_trans by blast
  next
    case (2 x)
    with r1 show ?thesis by (auto simp: row_append)
  qed
qed

lemma reach_steps: "claim_step\<^sup>*\<^sup>* db db' \<Longrightarrow> reach empty_queue claim_step db \<Longrightarrow> reach empty_queue claim_step db'"
  by (induction rule: rtranclp_induct) (auto intro: reach_step)

text \<open>
  A claim is paid as it was queued. Whatever the workers, retries and database faults do in
  between, a claim that was accepted into the queue and is later handed to a worker carries the
  same service id, agent, amount and verified deposit: the signed column holds the full range of
  the unsigned amount.
\<close>
theorem claim_handed_out_as_queued:
  assumes reach: "reach empty_queue claim_step db"
    and queued: "enqueue_claim ft now i sid agent amount deposited db = (Inr i, db1)"
    and steps: "claim_step\<^sup>*\<^sup>* db1 db2"
    and fetched: "fetch_pending_claims ft' now' locked limit db2 = (Inr es, db3)" "e \<in> set es" "en_id e = i"
    and sid: "length sid = 32"
  shows "en_service_id e = sid \<and> en_agent_pubkey e = agent \<and> en_claim_amount e = amount
    \<and> en_deposited_amount e = deposited"
proof -
  from queued obtain r where r: "db1 = db @ [r]" "i \<notin> cq_id ` set db" "cq_id r = i" "cq_service_id r = sid"
    "cq_agent_pubkey r = agent" "cq_claim_amount r = as_i64 amount"
    "cq_deposited_amount r = map_option as_i64 deposited"
    by (auto simp: enqueue_claim_def commit_def split: if_splits)
  moreover from r(2) have "row cq_id i db = None" by (simp add: row_None_iff)
  ultimately have "row cq_id i db1 = Some r" by (simp add: row_append)
  with steps_row [OF steps] obtain r2 where r2: "row cq_id i db2 = Some r2" "same_claim r r2" by blast
  with evolves_row [OF fetch_rows [OF fetched(1)]] same_claim_trans
  obtain r3 where r3: "row cq_id i db3 = Some r3" "same_claim r r3" by blast
  have "reach empty_queue claim_step db3"
    using reach_steps [OF steps] reach queued fetched(1)
    by (blast intro: reach_step step_enqueue step_fetch)
  then have u: "pk_unique cq_id db3" using claim_queue.reach_inv by (auto simp: claim_inv_def)
  from fetched obtain x where "x \<in> set db3" "e = entry_of x"
    by (auto elim!: fetch_cases)
  moreover from this fetched(3) have "x = r3"
    using pk_unique_row [OF u] r3(1) by (auto simp: entry_of_def)
  ultimately show ?thesis
    using r3(2) r sid by (auto simp: entry_of_def same_claim_def option.map_comp comp_def option.map_ident)
qed

lemma started_not_due:
  assumes "list_all2 (\<lambda>r r'. (cq_id r \<in> ids \<longrightarrow> start_attempt now r = Inr r') \<and> (cq_id r \<notin> ids \<longrightarrow> r' = r)) db db1"
    and "now' \<le> now + 300"
  shows "list_all (\<lambda>r. cq_id r \<in> ids \<longrightarrow> \<not> claim_due now' r) db1"
  using assms(1)
proof (induction rule: list_all2_induct)
  case (Cons r db r' db1)
  then have "cq_id r' \<in> ids \<longrightarrow> \<not> claim_due now' r'"
    using assms(2) by (cases "cq_id r \<in> ids") (auto simp: start_attempt_Inr claim_due_def STALE_SECS_def)
  with Cons.IH show ?case by simp
qed simp

text \<open>
  No claim is picked up twice within five minutes: a second worker that fetches after the
  first one, up to three hundred seconds later, gets none of the claims the first one holds.
\<close>
theorem no_double_pickup:
  assumes reach: "reach empty_queue claim_step db"
    and first: "fetch_pending_claims ft now locked limit db = (Inr es, db1)"
    and second: "fetch_pending_claims ft' now' locked' limit' db1 = (Inr es', db2)"
    and soon: "now' \<le> now + 300"
  shows "en_id ` set es \<inter> en_id ` set es' = {}"
proof -
  let ?ids = "set (pick_claims now locked limit db)" and ?ids' = "set (pick_claims now' locked' limit' db1)"
  have u: "pk_unique cq_id db1"
    using claim_queue.reach_inv [of db1] reach_step [OF reach step_fetch [OF first]] by (auto simp: claim_inv_def)
  from first obtain n where upd: "sql_update (\<lambda>r. cq_id r \<in> ?ids) (start_attempt now) db = Inr (n, db1)"
    and es: "es = map entry_of (filter (\<lambda>r. cq_id r \<in> ?ids) db1)"
    by (auto elim!: fetch_cases)
  from second have es': "es' = map entry_of (filter (\<lambda>r. cq_id r \<in> ?ids') db2)"
    by (auto elim!: fetch_cases)
  have taken: "list_all (\<lambda>r. cq_id r \<in> ?ids \<longrightarrow> \<not> claim_due now' r) db1"
    by (rule started_not_due [OF sql_update_rows [OF upd] soon])
  have "?ids' \<subseteq> cq_id ` {r \<in> set db1. claim_due now' r}"
    by (auto simp: pick_claims_def dest!: in_set_takeD)
  then have "?ids \<inter> ?ids' = {}"
    using taken pk_unique_row [OF u] by (fastforce simp: list_all_iff)
  then show ?thesis by (auto simp: es es' entry_of_def)
qed

text \<open>
  A late failure report reopens a finished claim. A worker that takes a claim and then stalls
  for more than five minutes loses it to another one; when that one completes the claim, the first
  worker's own failure report, which the update does not condition on the claim still being in
  progress, moves the completed claim back to pending, and it is handed out again although it
  already carries the signature of its claim transaction.
\<close>
theorem completed_claim_reopened:
  "let db1 = snd (enqueue_claim no_faults 0 ''c1'' (replicate 32 9) ''agent'' 60 (Some 60) []);
       (first, db2) = fetch_pending_claims no_faults 10 (\<lambda>_. False) 10 db1;
       (second, db3) = fetch_pending_claims no_faults 311 (\<lambda>_. False) 10 db2;
       db4 = snd (mark_completed no_faults 312 ''c1'' ''sig'' db3);
       db5 = snd (mark_attempt_failed no_faults 320 ''c1'' ''escrow closed'' 1 db4);
       (third, db6) = fetch_pending_claims no_faults 400 (\<lambda>_. False) 10 db5
   in map_sum id (map en_id) first = Inr [''c1''] \<and> map_sum id (map en_id) second = Inr [''c1'']
      \<and> map cq_status db4 = [''completed''] \<and> map cq_status db5 = [''pending'']
      \<and> map_sum id (map en_tx_signature) third = Inr [Some ''sig'']"
  by (simp add: enqueue_claim_def fetch_pending_claims_def pick_claims_def claim_due_def commit_def no_faults_def
      start_attempt_def increment_attempts_def touch_def entry_of_def STALE_SECS_def mark_completed_def
      mark_attempt_failed_def claim_update_def MAX_CLAIM_ATTEMPTS_def backoff_duration_def MAX_BACKOFF_SECS_def
      Let_def)

definition demo_queue :: "claim_row list" where
  "demo_queue = snd (enqueue_claim no_faults 0 ''c1'' (replicate 32 9) ''agent'' 60 (Some 60) [])"

lemma demo_queue_eq: "enqueue_claim no_faults 0 ''c1'' (replicate 32 9) ''agent'' 60 (Some 60) [] = (Inr ''c1'', demo_queue)"
  by (simp add: demo_queue_def enqueue_claim_def commit_def no_faults_def)

lemma demo_queue_reach: "reach empty_queue claim_step []" "reach empty_queue claim_step demo_queue"
proof -
  show nil: "reach empty_queue claim_step []" by (rule reach_init) (simp add: empty_queue_def)
  show "reach empty_queue claim_step demo_queue"
    by (rule reach_step [OF nil step_enqueue [OF demo_queue_eq]])
qed

definition demo_taken :: claim_row where
  "demo_taken = \<lparr>cq_id = ''c1'', cq_service_id = replicate 32 9, cq_agent_pubkey = ''agent'',
     cq_claim_amount = as_i64 60, cq_deposited_amount = Some (as_i64 60), cq_status = ''in_progress'', cq_attempts = 1,
     cq_last_attempt_at = Some 10, cq_tx_signature = None, cq_error_message = None, cq_created_at = 0,
     cq_completed_at = None, cq_next_retry_at = None, cq_updated_at = 10\<rparr>"

lemma demo_fetch:
  "fetch_pending_claims no_faults 10 (\<lambda>_. False) 10 demo_queue = (Inr [entry_of demo_taken], [demo_taken])"
  by (simp add: demo_queue_def enqueue_claim_def fetch_pending_claims_def pick_claims_def claim_due_def commit_def
      no_faults_def start_attempt_def increment_attempts_def touch_def demo_taken_def Let_def)

lemma demo_refetch: "fetch_pending_claims no_faults 300 (\<lambda>_. False) 10 [demo_taken] = (Inr [], [demo_taken])"
  by (simp add: fetch_pending_claims_def pick_claims_def claim_due_def commit_def no_faults_def demo_taken_def
      STALE_SECS_def Let_def)

theorem claim_queue_sound_witness: "distinct (map cq_id demo_queue)"
  using claim_queue_sound [OF demo_queue_reach(2)] by blast

theorem claim_handed_out_as_queued_witness:
  "en_service_id (entry_of demo_taken) = replicate 32 9 \<and> en_agent_pubkey (entry_of demo_taken) = ''agent''
   \<and> en_claim_amount (entry_of demo_taken) = 60 \<and> en_deposited_amount (entry_of demo_taken) = Some 60"
  by (rule claim_handed_out_as_queued [OF demo_queue_reach(1) demo_queue_eq rtranclp.rtrancl_refl demo_fetch])
    (simp_all add: entry_of_def demo_taken_def)

theorem no_double_pickup_witness:
  "en_id ` set [entry_of demo_taken] \<inter> en_id ` set ([] :: claim_entry list) = {}"
  by (rule no_double_pickup [OF demo_queue_reach(2) demo_fetch demo_refetch]) simp

section \<open>What the worker submits\<close>

text \<open>A transaction submitted for a claim: built from the fetched entry, for the gateway's wallet.\<close>

definition claim_built_for :: "crypto \<Rightarrow> signing \<Rightarrow> escrow_claimer \<Rightarrow> claim_entry \<Rightarrow> string \<Rightarrow> bool" where
  "claim_built_for cr sg c e t \<longleftrightarrow>
     (\<exists>params blockhash adv. build_claim_tx cr sg params blockhash adv = Inr t
        \<and> cp_service_id params = en_service_id e \<and> cp_actual_amount params = en_claim_amount e
        \<and> decode_bs58_pubkey cr (en_agent_pubkey e) = Inr (cp_agent_pubkey params)
        \<and> cp_recipient_wallet params = ec_recipient_wallet c
        \<and> cp_escrow_program_id params = ec_escrow_program_id c \<and> cp_usdc_mint params = ec_usdc_mint c)"

definition faithful_submission ::
  "crypto \<Rightarrow> signing \<Rightarrow> claim_env \<Rightarrow> claim_state \<Rightarrow> string \<times> string \<Rightarrow> bool" where
  "faithful_submission cr sg env st = (\<lambda>(i, t). \<exists>es db e.
     fetch_pending_claims (ce_fault env (cs_ops st)) (ce_now env (cs_ops st)) (ce_locked env (cs_ops st)) 10
       (ce_peers env (cs_ops st) (cs_db st)) = (Inr es, db)
     \<and> \<not> fst (is_open (ce_clock env (cs_ops st)) (cs_breaker st))
     \<and> e \<in> set es \<and> en_id e = i \<and> en_attempts e \<le> 10 \<and> claim_built_for cr sg (cs_claimer st) e t)"

definition same_config :: "escrow_claimer \<Rightarrow> escrow_claimer \<Rightarrow> bool" where
  "same_config c c' \<longleftrightarrow> ec_recipient_wallet c' = ec_recipient_wallet c
     \<and> ec_escrow_program_id c' = ec_escrow_program_id c \<and> ec_usdc_mint c' = ec_usdc_mint c"

lemma do_claim_tx:
  assumes "do_claim cr sg rpc params pool = (Some t, r, pool')"
  shows "\<exists>blockhash adv. build_claim_tx cr sg params blockhash adv = Inr t"
  using assms
  by (auto simp: do_claim_def and_then_Inr_iff split: prod.splits sum.splits)

lemma do_claim_with_params_tx:
  assumes "do_claim_with_params cr sg rpc now c sid agent amount = (tx, r, c')"
  shows "same_config c c'" and "tx = Some t \<Longrightarrow> \<exists>params blockhash adv.
    build_claim_tx cr sg params blockhash adv = Inr t \<and> cp_service_id params = sid
    \<and> cp_actual_amount params = amount \<and> cp_agent_pubkey params = agent
    \<and> cp_recipient_wallet params = ec_recipient_wallet c
    \<and> cp_escrow_program_id params = ec_escrow_program_id c \<and> cp_usdc_mint params = ec_usdc_mint c"
  using assms
  by (auto simp: do_claim_with_params_def same_config_def Let_def
      split: prod.splits sum.splits dest!: do_claim_tx) (metis claim_params.select_convs)+

lemma claim_db_op_frame:
  "cs_sent (snd (claim_db_op env f st)) = cs_sent st" "cs_claimer (snd (claim_db_op env f st)) = cs_claimer st"
  by (simp_all add: claim_db_op_def Let_def split: prod.splits)

lemma fail_entry_frame:
  "cs_sent (fail_entry env e m st) = cs_sent st" "cs_claimer (fail_entry env e m st) = cs_claimer st"
  by (simp_all add: fail_entry_def breaker_op_def claim_db_op_frame)

lemma count_frame: "cs_sent (count f st) = cs_sent st" "cs_claimer (count f st) = cs_claimer st"
  by (simp_all add: count_def)

lemma breaker_op_frame: "cs_sent (breaker_op env f st) = cs_sent st" "cs_claimer (breaker_op env f st) = cs_claimer st"
  by (simp_all add: breaker_op_def)

lemmas claim_frames = claim_db_op_frame fail_entry_frame count_frame breaker_op_frame

lemma process_claim_sent:
  "same_config (cs_claimer st) (cs_claimer (process_claim cr sg env e st)) \<and>
   (\<exists>ts. cs_sent (process_claim cr sg env e st) = cs_sent st @ map (Pair (en_id e)) ts
      \<and> (\<forall>t \<in> set ts. en_attempts e \<le> 10 \<and> claim_built_for cr sg (cs_claimer st) e t))"
proof (cases "MAX_CLAIM_ATTEMPTS < en_attempts e")
  case True
  then show ?thesis by (simp add: process_claim_def claim_frames same_config_def)
next
  case attempts: False
  show ?thesis
  proof (cases "decode_bs58_pubkey cr (en_agent_pubkey e)")
    case (Inl x)
    with attempts show ?thesis by (simp add: process_claim_def claim_frames same_config_def)
  next
    case (Inr agent)
    obtain tx r c' where d: "do_claim_with_params cr sg (ce_rpc env (cs_ops st)) (ce_clock env (cs_ops st))
        (cs_claimer st) (en_service_id e) agent (en_claim_amount e) = (tx, r, c')"
      by (metis prod_cases3)
    note D = do_claim_with_params_tx [OF d]
    have p: "cs_claimer (process_claim cr sg env e st) = c'"
      "cs_sent (process_claim cr sg env e st) = cs_sent st @ map (Pair (en_id e)) (case tx of None \<Rightarrow> [] | Some t \<Rightarrow> [t])"
      using attempts Inr d by (simp_all add: process_claim_def Let_def claim_frames split: sum.splits option.splits)
    have "claim_built_for cr sg (cs_claimer st) e t" if "tx = Some t" for t
      using D(2) [OF that] Inr by (auto simp: claim_built_for_def)
    with p D(1) attempts show ?thesis
      by (auto simp: MAX_CLAIM_ATTEMPTS_def split: option.splits intro!: exI [of _ "case tx of None \<Rightarrow> [] | Some t \<Rightarrow> [t]"])
  qed
qed

lemma claim_built_for_config: "same_config c c' \<Longrightarrow> claim_built_for cr sg c' e t = claim_built_for cr sg c e t"
  by (simp add: claim_built_for_def same_config_def)

lemma fold_process_sent:
  "\<exists>xs. cs_sent (fold (process_claim cr sg env) es st) = cs_sent st @ xs
    \<and> (\<forall>(i, t) \<in> set xs. \<exists>e \<in> set es. en_id e = i \<and> en_attempts e \<le> 10 \<and> claim_built_for cr sg (cs_claimer st) e t)"
proof (induction es arbitrary: st)
  case (Cons e es)
  let ?st = "process_claim cr sg env e st"
  obtain ts where cfg: "same_config (cs_claimer st) (cs_claimer ?st)"
    and ts: "cs_sent ?st = cs_sent st @ map (Pair (en_id e)) ts"
    "\<forall>t \<in> set ts. en_attempts e \<le> 10 \<and> claim_built_for cr sg (cs_claimer st) e t"
    using process_claim_sent [of st cr sg env e] by blast
  obtain xs where "cs_sent (fold (process_claim cr sg env) es ?st) = cs_sent ?st @ xs"
    "\<forall>(i, t) \<in> set xs. \<exists>e \<in> set es. en_id e = i \<and> en_attempts e \<le> 10 \<and> claim_built_for cr sg (cs_claimer ?st) e t"
    using Cons.IH [of ?st] by blast
  with ts show ?case
    by (intro exI [of _ "map (Pair (en_id e)) ts @ xs"]) (auto simp: claim_built_for_config [OF cfg])
qed simp

text \<open>
  The worker submits only what is queued. Every transaction a cycle sends while the circuit
  breaker is closed is a claim transaction for an entry this cycle fetched and marked in progress,
  with at most ten attempts, and it names that entry's service id, agent and amount and the
  gateway's own wallet, program and mint.
\<close>
theorem worker_submits_queued_claims:
  "list_all (faithful_submission cr sg env st)
     (drop (length (cs_sent st)) (cs_sent (snd (process_pending_claims cr sg env st))))"
proof -
  let ?n = "cs_ops st"
  obtain opened b where o: "is_open (ce_clock env ?n) (cs_breaker st) = (opened, b)" by fastforce
  let ?st0 = "st\<lparr>cs_breaker := b\<rparr>"
  obtain r db where f: "fetch_pending_claims (ce_fault env ?n) (ce_now env ?n) (ce_locked env ?n) 10
       (ce_peers env ?n (cs_db st)) = (r, db)" by fastforce
  let ?st1 = "?st0\<lparr>cs_db := db, cs_ops := ?n + 1\<rparr>"
  have op: "claim_db_op env (\<lambda>ft now. fetch_pending_claims ft now (ce_locked env (cs_ops ?st0)) 10) ?st0 = (r, ?st1)"
    using f by (simp add: claim_db_op_def Let_def)
  show ?thesis
  proof (cases "opened \<or> (\<exists>e. r = Inl e) \<or> r = Inr []")
    case True
    then have "cs_sent (snd (process_pending_claims cr sg env st)) = cs_sent st"
      using o op by (auto simp: process_pending_claims_def Let_def)
    then show ?thesis by simp
  next
    case False
    then obtain es where es: "r = Inr es" "es \<noteq> []" and closed: "\<not> opened" by (cases r) auto
    let ?st2 = "count (\<lambda>m. m\<lparr>em_submitted := em_submitted m + of_nat (length es)\<rparr>) ?st1"
    have "snd (process_pending_claims cr sg env st) = fold (process_claim cr sg env) es ?st2"
      using o op es closed by (simp add: process_pending_claims_def Let_def)
    moreover obtain xs where "cs_sent (fold (process_claim cr sg env) es ?st2) = cs_sent ?st2 @ xs"
      "\<forall>(i, t) \<in> set xs. \<exists>e \<in> set es. en_id e = i \<and> en_attempts e \<le> 10 \<and> claim_built_for cr sg (cs_claimer ?st2) e t"
      using fold_process_sent by blast
    ultimately show ?thesis
      using f o es(1) closed by (fastforce simp: list_all_iff faithful_submission_def count_frame)
  qed
qed

section \<open>The claim stays within the deposit\<close>

text \<open>
  A claim is queued or fired only for an escrow payment that names its service and agent, and
  its amount is positive and never above the cost of the call nor above the verified deposit (or,
  when the deposit could not be read, the advertised price): exactly the range in which the escrow
  program accepts a claim.
\<close>
theorem fired_claim_within_deposit:
  "case fire_escrow_claim cr b64 has_db has_claimer is_escrow service_id agent_pubkey deposited cost price of
     NoClaim \<Rightarrow> True
   | EnqueueClaim sid agent amount d \<Rightarrow> is_escrow \<and> has_db \<and> d = deposited \<and> agent_pubkey = Some agent
       \<and> length sid = 32 \<and> 0 < unat amount
       \<and> unat amount = min (unat cost) (unat (case deposited of Some x \<Rightarrow> x | None \<Rightarrow> price))
   | ClaimAsync sid agent amount \<Rightarrow> is_escrow \<and> \<not> has_db \<and> has_claimer \<and> length agent = 32
       \<and> length sid = 32 \<and> 0 < unat amount
       \<and> unat amount = min (unat cost) (unat (case deposited of Some x \<Rightarrow> x | None \<Rightarrow> price))"
  by (auto simp: fire_escrow_claim_def Let_def cap_claim_amount_def decode_service_id_def decode_agent_pubkey_def
      min_def word_le_nat_alt unat_gt_0 split: option.splits if_splits claim_action.splits)

section \<open>The circuit breaker\<close>

text \<open>A history of claim outcomes with their times, and the breaker after it.\<close>

definition record_outcome :: "claim_breaker \<Rightarrow> nat \<times> bool \<Rightarrow> claim_breaker" where
  "record_outcome b = (\<lambda>(now, ok). if ok then record_success now b else record_failure now b)"

lemma record_outcome_simps:
  "record_outcome b (now, True) = record_success now b"
  "record_outcome b (now, False) = record_failure now b"
  by (simp_all add: record_outcome_def)

definition failures :: "(nat \<times> bool) list \<Rightarrow> nat" where
  "failures evs = length (filter (\<lambda>(_, ok). \<not> ok) evs)"

text \<open>The rule: some failure came as the fourth or a later outcome, with most of them failures.\<close>

definition majority_failed :: "(nat \<times> bool) list \<Rightarrow> bool" where
  "majority_failed evs \<longleftrightarrow>
     (\<exists>pre t post. evs = pre @ (t, False) # post \<and> 4 \<le> length pre + 1
        \<and> length pre + 1 < 2 * (failures pre + 1))"

lemma failures_snoc: "failures (evs @ [(t, ok)]) = failures evs + (if ok then 0 else 1)"
  by (simp add: failures_def)

lemma failures_le: "failures evs \<le> length evs"
  by (simp add: failures_def)

lemma majority_snoc:
  "majority_failed (evs @ [(t, ok)]) \<longleftrightarrow> majority_failed evs
     \<or> \<not> ok \<and> 3 \<le> length evs \<and> length evs < 2 * failures evs + 1"
proof
  assume "majority_failed (evs @ [(t, ok)])"
  then obtain pre s post where h: "evs @ [(t, ok)] = pre @ (s, False) # post" "4 \<le> length pre + 1"
    "length pre + 1 < 2 * (failures pre + 1)"
    by (auto simp: majority_failed_def)
  show "majority_failed evs \<or> \<not> ok \<and> 3 \<le> length evs \<and> length evs < 2 * failures evs + 1"
  proof (cases post rule: rev_cases)
    case Nil
    with h show ?thesis by auto
  next
    case (snoc ys y)
    with h show ?thesis unfolding majority_failed_def by (intro disjI1 exI [of _ pre] exI [of _ s] exI [of _ ys]) auto
  qed
next
  assume "majority_failed evs \<or> \<not> ok \<and> 3 \<le> length evs \<and> length evs < 2 * failures evs + 1"
  then show "majority_failed (evs @ [(t, ok)])"
  proof
    assume "majority_failed evs"
    then obtain pre s post where "evs = pre @ (s, False) # post" "4 \<le> length pre + 1"
      "length pre + 1 < 2 * (failures pre + 1)"
      by (auto simp: majority_failed_def)
    then show ?thesis unfolding majority_failed_def by (intro exI [of _ pre] exI [of _ s] exI [of _ "post @ [(t, ok)]"]) auto
  next
    assume "\<not> ok \<and> 3 \<le> length evs \<and> length evs < 2 * failures evs + 1"
    then show ?thesis unfolding majority_failed_def by (intro exI [of _ evs] exI [of _ t] exI [of _ "[]"]) auto
  qed
qed

lemma breaker_counts:
  assumes "length evs < 2 ^ 62" "list_all (\<lambda>(now, _). now < t0 + 300000) evs"
  defines "b \<equiv> foldl record_outcome (new_breaker t0) evs"
  shows "unat (cb_failure_count b) = failures evs \<and> unat (cb_success_count b) = length evs - failures evs
    \<and> cb_last_reset b = t0 \<and> cb_window b = 300000 \<and> cb_min_sample_size b = 4
    \<and> (cb_tripped_until b \<noteq> None \<longleftrightarrow> majority_failed evs)"
  unfolding b_def using assms(1,2)
proof (induction evs rule: rev_induct)
  case Nil
  then show ?case by (simp add: new_breaker_def failures_def majority_failed_def)
next
  case (snoc ev evs)
  obtain now ok where ev: "ev = (now, ok)" by fastforce
  let ?b = "foldl record_outcome (new_breaker t0) evs"
  have IH: "unat (cb_failure_count ?b) = failures evs" "unat (cb_success_count ?b) = length evs - failures evs"
    "cb_last_reset ?b = t0" "cb_window ?b = 300000" "cb_min_sample_size ?b = 4"
    "cb_tripped_until ?b \<noteq> None \<longleftrightarrow> majority_failed evs"
    using snoc by auto
  have len: "length evs < 2 ^ 62 - 1" and inside: "now < t0 + 300000" using snoc.prems ev by auto
  note le = failures_le [of evs]
  have keep: "maybe_reset_window now ?b = ?b" using IH inside by (auto simp: maybe_reset_window_def)
  have f1: "unat (cb_failure_count ?b + 1) = failures evs + 1"
    using IH(1) le len by (simp add: unat_word_ariths)
  have s1: "unat (cb_success_count ?b + 1) = length evs - failures evs + 1"
    using IH(2) le len by (simp add: unat_word_ariths)
  have total: "unat (cb_success_count ?b + (cb_failure_count ?b + 1)) = length evs + 1"
    using IH(2) f1 le len by (simp add: unat_word_ariths(1) [of "cb_success_count ?b"])
  have twice: "unat ((cb_failure_count ?b + 1) * 2) = 2 * (failures evs + 1)"
    unfolding unat_word_ariths(2) f1 using le len by simp
  have trips: "4 \<le> cb_success_count ?b + (cb_failure_count ?b + 1)
      \<and> cb_success_count ?b + (cb_failure_count ?b + 1) < (cb_failure_count ?b + 1) * 2
    \<longleftrightarrow> 3 \<le> length evs \<and> length evs < 2 * failures evs + 1"
    unfolding word_le_nat_alt word_less_nat_alt total twice by auto
  show ?case
  proof (cases ok)
    case True
    then show ?thesis
      using IH s1 le by (auto simp: ev record_outcome_simps record_success_def keep Let_def failures_snoc majority_snoc)
  next
    case False
    then show ?thesis
      using IH f1 le trips
      by (auto simp: ev record_outcome_simps record_failure_def keep Let_def failures_snoc majority_snoc)
  qed
qed

text \<open>
  The circuit breaker implements its rule. Over any history of outcomes inside one window the
  wrapping counters are exact and the breaker has tripped precisely when some failure came with at
  least four outcomes recorded, more than half of them failures.
\<close>
theorem claim_breaker_trips_iff:
  assumes "length evs < 2 ^ 62" "list_all (\<lambda>(now, _). now < t0 + 300000) evs"
  shows "cb_tripped_until (foldl record_outcome (new_breaker t0) evs) \<noteq> None \<longleftrightarrow> majority_failed evs"
  using breaker_counts [OF assms] by blast

theorem claim_breaker_trips_iff_witness:
  "cb_tripped_until (foldl record_outcome (new_breaker 0) [(1, True), (2, False), (3, False), (4, False)]) \<noteq> None
     \<longleftrightarrow> majority_failed [(1, True), (2, False), (3, False), (4, False)]"
  by (rule claim_breaker_trips_iff) simp_all

end
