(* ===== verification/Chat_Payment.thy ===== *)
theory Chat_Payment
  imports Chat_Request Claim_Queue Rate_Limit
begin

text \<open>
  The chat handler from the resolved model to the answer (\<open>chat_completions_inner\<close> of
  \<open>gateway/src/routes/chat/mod.rs\<close>): the request checks, the free tier, the 402 challenge, and the
  paid path with its order of replay guard, budget reservation, verification, provider call,
  deferred settlement, escrow claim, spend row and receipt. The handler starts from the
  decoded payment header, the router's choice of a model and the verdict of the prompt guard. The
  provider call is a function of the world, so whatever other requests do in the meantime is part
  of it. Replay records and budget counters live in one store under disjoint key prefixes; the
  model keeps them in separate components.
\<close>

section \<open>Environment, request and world\<close>

datatype provider_call =
    Provider_Ok "usage_counts option" "string option" "semantic_discount option"
      \<comment> \<open>usage, actual provider, semantic-cache outcome\<close>
  | All_Providers_Failed
  | Provider_Internal string

datatype chat_outcome =
    Chat_Response "string option" \<comment> \<open>the receipt header\<close>
  | Chat_Challenge payment_required
  | Chat_Rate_Limited
  | Chat_Rejected gateway_error
  | Chat_Drawn "(gateway_error, delivery) result"
  | Chat_Stuck \<comment> \<open>a settlement call that does not return\<close>

record ('c, 'm) chat_env =
  cx_usage :: usage_env
  cx_verifier :: verifier_env
  cx_verifiers :: "payment_verifier list"
  cx_registry :: model_registry
  cx_fee :: u8
  cx_challenge :: challenge_config
  cx_serde :: serde
  cx_dev_bypass :: bool
  cx_has_cache :: bool
  cx_lru :: "('c, unit) lru"
  cx_replay_lru :: "('m, nat) lru"
  cx_free_cap :: "32 word"
  cx_draw :: draw_env

record chat_input =
  ci_request :: chat_request
  ci_dialect :: wire_dialect
  ci_resource_url :: string
  ci_payment :: "payment_payload option option" \<comment> \<open>the header, and its decoding\<close>
  ci_guard_blocks :: bool
  ci_peer_ip :: "string option"
  ci_request_id :: "string option"
  ci_session_id :: "string option"
  ci_tenant :: "string option"
  ci_routing_tier :: string
  ci_routing_score :: f64

text \<open>\<open>chw_settle_calls\<close> lists the payments handed to the facilitator for settlement.\<close>

record ('c, 'm) chat_world = usage_world +
  chw_replay :: "'c response_cache"
  chw_replay_sets :: "replay_path \<Rightarrow> 'm"
  chw_free_limiter :: rate_limiter
  chw_free_window :: global_window
  chw_settle_calls :: "payment_payload list"
  chw_claims :: "claim_action list"
  chw_receipts :: "receipt_row list"
  chw_draw :: draw_world

record ('c, 'm) chat_io =
  cio_free_now :: nat
  cio_unix_secs :: nat
  cio_free_reply :: "redis_reply \<times> bool"
  cio_replay :: "redis_reply \<times> nat"
  cio_check :: usage_io
  cio_release :: usage_io
  cio_log :: usage_io
  cio_verify_at :: nat
  cio_settle_at :: nat
  cio_serve :: "('c, 'm) chat_world \<Rightarrow> ('c, 'm) chat_world \<times> provider_call"
  cio_receipt_id :: string
  cio_created_at :: nat
  cio_receipt_ok :: bool
  cio_draw :: draw_io

section \<open>The free tier\<close>

definition tags_of :: "chat_input \<Rightarrow> spend_entry \<Rightarrow> spend_entry" where
  "tags_of inp e =
    (let (tier, score) = routing_telemetry (ci_routing_tier inp) (ci_routing_score inp) in
     e\<lparr>se_request_id := ci_request_id inp, se_session_id := Option.bind (ci_session_id inp) validate_session_id,
       se_tenant := Option.bind (ci_tenant inp) validate_tenant, se_routing_tier := tier, se_routing_score := score\<rparr>)"

definition free_entry :: "chat_input \<Rightarrow> chat_request \<Rightarrow> model_registration \<Rightarrow> usage_counts option \<Rightarrow> string option \<Rightarrow> spend_entry" where
  "free_entry inp req model_info reported provider =
    (let usage = map_option (\<lambda>u. cap_usage_to_request_limits u req model_info) reported in
     tags_of inp
      \<lparr>se_wallet = ''free-tier'', se_model = rq_model req,
       se_provider = (case provider of Some p \<Rightarrow> p | None \<Rightarrow> mr_provider model_info),
       se_input_tokens = (case usage of Some u \<Rightarrow> prompt_tokens u | None \<Rightarrow> 0),
       se_output_tokens = (case usage of Some u \<Rightarrow> completion_tokens u | None \<Rightarrow> 0),
       se_cost_usdc = f64_of_nat 0, se_tx_signature = None, se_request_id = None, se_session_id = None,
       se_tenant = None, se_tenant_enforced = False, se_estimated_cost_usdc = None,
       se_reserved = nothing_reserved, se_vendor = None, se_routing_tier = None, se_routing_score = None\<rparr>)"

definition serve_free ::
  "('c, 'm) chat_env \<Rightarrow> ('c, 'm) chat_io \<Rightarrow> chat_input \<Rightarrow> chat_request \<Rightarrow> model_registration
     \<Rightarrow> ('c, 'm) chat_world \<Rightarrow> chat_outcome \<times> ('c, 'm) chat_world" where
  "serve_free env io inp req model_info w =
    (let (admitted, l) = limiter_check (cio_free_now io) (connect_info_client_id (ci_peer_ip inp)) (chw_free_limiter w);
         w1 = w\<lparr>chw_free_limiter := l\<rparr> in
     if admitted = None then (Chat_Rate_Limited, w1)
     else
       let (under_cap, win, rd) = free_tier_check (cx_free_cap env)
             (if cx_has_cache env then Some (cio_free_reply io) else None) (cio_unix_secs io)
             (chw_free_window w1, rc_redis (chw_replay w1));
           w2 = w1\<lparr>chw_free_window := win, chw_replay := (chw_replay w1)\<lparr>rc_redis := rd\<rparr>\<rparr> in
       if \<not> under_cap then (Chat_Rate_Limited, w2)
       else if ci_guard_blocks inp then (Chat_Rejected (Gw_BadRequest ''Request blocked by content policy''), w2)
       else case cio_serve io w2 of
         (w3, Provider_Ok reported provider _) \<Rightarrow>
           (Chat_Response None,
            log_spend (cx_usage env) (cio_log io) (free_entry inp req model_info reported provider) w3)
       | (w3, All_Providers_Failed) \<Rightarrow> (Chat_Rejected (Gw_Internal ''all providers failed for free model''), w3)
       | (w3, Provider_Internal msg) \<Rightarrow> (Chat_Rejected (Gw_Internal msg), w3))"

definition serve_bypassed ::
  "('c, 'm) chat_io \<Rightarrow> chat_input \<Rightarrow> ('c, 'm) chat_world \<Rightarrow> chat_outcome \<times> ('c, 'm) chat_world" where
  "serve_bypassed io inp w =
    (if ci_guard_blocks inp then (Chat_Rejected (Gw_BadRequest ''Request blocked by content policy''), w)
     else case cio_serve io w of
       (w1, Provider_Ok _ _ _) \<Rightarrow> (Chat_Response None, w1)
     | (w1, All_Providers_Failed) \<Rightarrow> (Chat_Rejected (Gw_Internal ''all providers failed (dev bypass)''), w1)
     | (w1, Provider_Internal msg) \<Rightarrow> (Chat_Rejected (Gw_Internal msg), w1))"

section \<open>Admitting a payment\<close>

definition eq_ignore_ascii_case :: "string \<Rightarrow> string \<Rightarrow> bool" where
  "eq_ignore_ascii_case a b \<longleftrightarrow> map ascii_lower a = map ascii_lower b"

definition check_accepted :: "challenge_config \<Rightarrow> string \<Rightarrow> payment_payload \<Rightarrow> (gateway_error, unit) result" where
  "check_accepted xc resource_url payload =
    (let accepted = pp_accepted payload in
     if res_url (pp_resource payload) \<noteq> resource_url
       then Inl (Gw_InvalidPayment ''Payment resource does not match this endpoint.'')
     else if \<not> eq_ignore_ascii_case (res_method (pp_resource payload)) ''POST''
       then Inl (Gw_BadRequest ''Payment resource method must be POST.'')
     else if \<not> eq_ignore_ascii_case (pa_network accepted) SOLANA_NETWORK
       then Inl (Gw_BadRequest ''Payment network is unsupported. Use the network advertised in the 402 response.'')
     else if pa_asset accepted \<noteq> xc_usdc_mint xc
       then Inl (Gw_BadRequest ''Payment asset is unsupported. Use the asset advertised in the 402 response.'')
     else if pa_pay_to accepted \<noteq> xc_recipient_wallet xc
       then Inl (Gw_BadRequest ''Payment recipient does not match. Use the pay_to advertised in the 402 response.'')
     else Inr ())"

definition quoted_cost ::
  "('c, 'm) chat_env \<Rightarrow> chat_input \<Rightarrow> chat_request \<Rightarrow> model_registration \<Rightarrow> (gateway_error, cost_breakdown) result" where
  "quoted_cost env inp req model_info =
     map_sum (\<lambda>_. Gw_Internal ''cost estimate'') id (estimate_cost (cx_fee env) (cx_registry env) (rq_model req)
       (input_token_estimate (cx_serde env) req model_info (ci_dialect inp))
       (completion_token_ceiling (rq_max_tokens req) model_info))"

text \<open>The recomputed cost, and the client's amount against it.\<close>

definition check_amount ::
  "('c, 'm) chat_env \<Rightarrow> chat_input \<Rightarrow> chat_request \<Rightarrow> model_registration \<Rightarrow> payment_payload
     \<Rightarrow> (gateway_error, cost_breakdown \<times> u64) result" where
  "check_amount env inp req model_info payload =
     and_then (quoted_cost env inp req model_info) (\<lambda>expected_cost.
     and_then (map_sum (\<lambda>_. Gw_Internal ''failed to compute expected payment amount'') id
       (usdc_atomic_amount_checked (cb_total expected_cost))) (\<lambda>s.
     and_then (ok_or (Gw_Internal ''failed to parse expected payment amount as u64'') (parse_u64 s)) (\<lambda>expected_amount.
     and_then (ok_or (Gw_BadRequest ''Payment amount must be a valid integer (atomic USDC units).'')
       (parse_u64 (pa_amount (pp_accepted payload)))) (\<lambda>client_amount.
     if client_amount < expected_amount then Inl (Gw_BadRequest ''payment amount insufficient'')
     else Inr (expected_cost, client_amount)))))"

definition check_scheme :: "payment_payload \<Rightarrow> (gateway_error, payment_scheme) result" where
  "check_scheme payload =
    (case pp_payload payload of
       Payload_Escrow _ \<Rightarrow>
         if pa_scheme (pp_accepted payload) = ''exact''
         then Inl (Gw_BadRequest ''scheme is 'exact' but payload contains escrow data'')
         else map_sum Gw_BadRequest id (from_accepted_str (pa_scheme (pp_accepted payload)))
     | Payload_Direct _ \<Rightarrow>
         if pa_scheme (pp_accepted payload) = ''escrow''
         then Inl (Gw_BadRequest ''scheme is 'escrow' but payload contains direct transfer data'')
         else map_sum Gw_BadRequest id (from_accepted_str (pa_scheme (pp_accepted payload)))
     | Payload_Channel _ \<Rightarrow> map_sum Gw_BadRequest id (from_accepted_str (pa_scheme (pp_accepted payload))))"

fun payment_tx :: "payload_data \<Rightarrow> string option" where
  "payment_tx (Payload_Direct p) = Some (sp_transaction p)"
| "payment_tx (Payload_Escrow p) = Some (ep_deposit_tx p)"
| "payment_tx (Payload_Channel _) = None"

definition extract_payment_info :: "crypto \<Rightarrow> (string \<Rightarrow> bytes option) \<Rightarrow> payment_payload \<Rightarrow> string \<times> string option" where
  "extract_payment_info cr b64 payload = (extract_payer_wallet cr b64 payload, payment_tx (pp_payload payload))"

definition replay_verdict_of ::
  "('c, 'm) chat_env \<Rightarrow> ('c, 'm) chat_io \<Rightarrow> string \<Rightarrow> ('c, 'm) chat_world \<Rightarrow> replay_verdict \<times> ('c, 'm) chat_world" where
  "replay_verdict_of env io tx_raw w =
    (let is_durable_nonce = uses_durable_nonce (ve_b64_decode (cx_verifier env)) tx_raw in
     if cx_has_cache env then
       let (v, c) = redis_replay_check (cx_lru env) (fst (cio_replay io)) (snd (cio_replay io)) tx_raw
             is_durable_nonce (chw_replay w)
       in (v, w\<lparr>chw_replay := c\<rparr>)
     else
       let (v, sets) = in_memory_replay_check (cx_replay_lru env) (snd (cio_replay io)) Path_Chat tx_raw
             is_durable_nonce (chw_replay_sets w)
       in (v, w\<lparr>chw_replay_sets := sets\<rparr>))"

text \<open>The reservation, made before anything is settled.\<close>

definition reserve_budget ::
  "('c, 'm) chat_env \<Rightarrow> ('c, 'm) chat_io \<Rightarrow> chat_input \<Rightarrow> string \<Rightarrow> cost_breakdown \<Rightarrow> ('c, 'm) chat_world
     \<Rightarrow> (gateway_error, f64 \<times> budget_reservation) result \<times> ('c, 'm) chat_world" where
  "reserve_budget env io inp wallet cost w =
    (case parse_f64 (cb_total cost) of
       None \<Rightarrow> (Inl (Gw_Internal ''failed to parse estimated cost as f64''), w)
     | Some estimated_cost \<Rightarrow>
       if \<not> f64_is_finite estimated_cost \<or> f64_lt estimated_cost (f64_of_nat 0)
         then (Inl (Gw_Internal ''estimated cost is not a valid finite non-negative number''), w)
       else case check_budget (cx_usage env) (cio_check io) wallet estimated_cost
                   (Option.bind (ci_tenant inp) validate_tenant) w of
         (Inl _, w1) \<Rightarrow> (Inl (Gw_BadRequest ''budget''), w1)
       | (Inr r, w1) \<Rightarrow> (Inr (estimated_cost, r), w1))"

section \<open>Securing the payment\<close>

text \<open>An exact transfer is verified only; an escrow deposit is verified and settled. \<open>Inl\<close> ends the
  request, after the reservation is given back.\<close>

definition settlement_message :: "settlement_failure_kind option \<Rightarrow> string" where
  "settlement_message k =
    (case k of
       Some (Rejected (Some code)) \<Rightarrow> ''Payment was rejected on-chain (program error '' @ nat_text (unat code)
         @ ''); this transaction cannot succeed and should not be retried.''
     | Some (Rejected None) \<Rightarrow>
         ''Payment was rejected on-chain; this transaction cannot succeed and should not be retried.''
     | _ \<Rightarrow> ''Payment transaction could not be confirmed. Please retry.'')"

definition secure_payment ::
  "('c, 'm) chat_env \<Rightarrow> ('c, 'm) chat_io \<Rightarrow> payment_payload \<Rightarrow> payment_scheme \<Rightarrow> budget_reservation
     \<Rightarrow> ('c, 'm) chat_world \<Rightarrow> (chat_outcome, u64 option) result \<times> ('c, 'm) chat_world" where
  "secure_payment env io payload sch r w =
    (let refuse = (\<lambda>e w. (Inl (Chat_Rejected e), release_reservation (cx_usage env) (cio_release io) r w));
         unverified = Gw_InvalidPayment ''Payment verification failed. Check your transaction and retry.'' in
     case sch of
       Scheme_Exact \<Rightarrow>
         (case facilitator_verify (cx_verifier env) (cx_verifiers env) (cio_verify_at io) payload of
            Inl _ \<Rightarrow> refuse unverified w
          | Inr v \<Rightarrow> if vr_valid v then (Inr None, w) else refuse unverified w)
     | Scheme_Escrow \<Rightarrow>
         let w1 = w\<lparr>chw_settle_calls := chw_settle_calls w @ [payload]\<rparr> in
         (case verify_and_settle (cx_verifier env) (cx_verifiers env) (cio_verify_at io) (cio_settle_at io) payload of
            None \<Rightarrow> (Inl Chat_Stuck, w1)
          | Some (Inl _) \<Rightarrow> refuse unverified w1
          | Some (Inr s) \<Rightarrow>
              if sr_success s then (Inr (sr_verified_amount s), w1)
              else refuse (Gw_InvalidPayment (settlement_message (sr_failure_kind s))) w1)
     | Scheme_Channel \<Rightarrow> refuse (Gw_InvalidPayment ''channel vouchers are not settled on this path'') w)"

record paid_ticket =
  pt_payload :: payment_payload
  pt_scheme :: payment_scheme
  pt_client_amount :: u64
  pt_wallet :: string
  pt_tx :: "string option"
  pt_cost :: cost_breakdown
  pt_estimate :: f64
  pt_reservation :: budget_reservation
  pt_deposited :: "u64 option"

definition admit_payment ::
  "('c, 'm) chat_env \<Rightarrow> ('c, 'm) chat_io \<Rightarrow> chat_input \<Rightarrow> chat_request \<Rightarrow> model_registration \<Rightarrow> payment_payload
     \<Rightarrow> ('c, 'm) chat_world \<Rightarrow> (chat_outcome, paid_ticket) result \<times> ('c, 'm) chat_world" where
  "admit_payment env io inp req model_info payload w =
    (case and_then (check_amount env inp req model_info payload) (\<lambda>(cost, client_amount).
             map_sum id (\<lambda>sch. (cost, client_amount, sch)) (check_scheme payload)) of
       Inl e \<Rightarrow> (Inl (Chat_Rejected e), w)
     | Inr (cost, client_amount, sch) \<Rightarrow>
       (case payment_tx (pp_payload payload) of
          None \<Rightarrow> (Inl (Chat_Rejected (Gw_InvalidPayment ''channel voucher is not accepted on the exact/escrow path'')), w)
        | Some tx_raw \<Rightarrow>
          (case replay_verdict_of env io tx_raw w of
             (Replay_Degraded, w1) \<Rightarrow>
               (Inl (Chat_Rejected (Gw_InvalidPayment ''Payment service is temporarily degraded; please retry shortly.'')), w1)
           | (Replay_Detected, w1) \<Rightarrow>
               (Inl (Chat_Rejected (Gw_InvalidPayment ''transaction has already been used'')), w1)
           | (Replay_Fresh, w1) \<Rightarrow>
             let (wallet, tx) = extract_payment_info (ve_crypto (cx_verifier env)) (ve_b64_decode (cx_verifier env)) payload in
             (case reserve_budget env io inp wallet cost w1 of
                (Inl e, w2) \<Rightarrow> (Inl (Chat_Rejected e), w2)
              | (Inr (estimated_cost, r), w2) \<Rightarrow>
                (case secure_payment env io payload sch r w2 of
                   (Inl out, w3) \<Rightarrow> (Inl out, w3)
                 | (Inr deposited, w3) \<Rightarrow>
                     (Inr \<lparr>pt_payload = payload, pt_scheme = sch, pt_client_amount = client_amount,
                        pt_wallet = wallet, pt_tx = tx, pt_cost = cost, pt_estimate = estimated_cost,
                        pt_reservation = r, pt_deposited = deposited\<rparr>, w3))))))"

section \<open>After the provider call\<close>

text \<open>The deferred broadcast of an exact transfer; the flag says that it failed and the reservation
  was given back. \<open>None\<close> is a settlement call that does not return.\<close>

definition settle_exact ::
  "('c, 'm) chat_env \<Rightarrow> ('c, 'm) chat_io \<Rightarrow> paid_ticket \<Rightarrow> ('c, 'm) chat_world
     \<Rightarrow> (bool \<times> ('c, 'm) chat_world) option" where
  "settle_exact env io t w =
    (if pt_scheme t \<noteq> Scheme_Exact then Some (False, w)
     else
       let w1 = w\<lparr>chw_settle_calls := chw_settle_calls w @ [pt_payload t]\<rparr> in
       case facilitator_settle (cx_verifier env) (cx_verifiers env) (cio_settle_at io) (pt_payload t) of
         None \<Rightarrow> None
       | Some (Inl _) \<Rightarrow> Some (True, release_reservation (cx_usage env) (cio_release io) (pt_reservation t) w1)
       | Some (Inr s) \<Rightarrow>
           if sr_success s then Some (False, w1)
           else Some (True, release_reservation (cx_usage env) (cio_release io) (pt_reservation t) w1))"

definition claim_amount ::
  "('c, 'm) chat_env \<Rightarrow> chat_request \<Rightarrow> model_registration \<Rightarrow> usage_counts option \<Rightarrow> semantic_discount option \<Rightarrow> u64 option" where
  "claim_amount env req model_info usage realized_discount =
    (case realized_discount of
       Some outcome \<Rightarrow> Some (sd_discounted_atomic outcome)
     | None \<Rightarrow>
       (case usage of
          Some u \<Rightarrow> compute_actual_atomic_cost (cx_fee env) (prompt_tokens u) (completion_tokens u) model_info
        | None \<Rightarrow>
          Some (case estimated_atomic_cost (cx_fee env) (cx_registry env) (rq_model req) req model_info of
                  Inr a \<Rightarrow> a | Inl _ \<Rightarrow> 1)))"

fun escrow_ids :: "payload_data \<Rightarrow> string option \<times> string option" where
  "escrow_ids (Payload_Escrow p) = (Some (ep_service_id p), Some (ep_agent_pubkey p))"
| "escrow_ids _ = (None, None)"

definition fire_claim ::
  "('c, 'm) chat_env \<Rightarrow> paid_ticket \<Rightarrow> u64 option \<Rightarrow> ('c, 'm) chat_world \<Rightarrow> ('c, 'm) chat_world" where
  "fire_claim env t claim_atomic w =
    (case claim_atomic of
       None \<Rightarrow> w
     | Some amount \<Rightarrow>
       let (service_id, agent_pubkey) = escrow_ids (pp_payload (pt_payload t));
           action = fire_escrow_claim (ve_crypto (cx_verifier env)) (ve_b64_decode (cx_verifier env))
             (ue_db (cx_usage env) \<noteq> None) (xc_has_claimer (cx_challenge env)) (pt_scheme t = Scheme_Escrow)
             service_id agent_pubkey (pt_deposited t) amount (pt_client_amount t)
       in if action = NoClaim then w else w\<lparr>chw_claims := chw_claims w @ [action]\<rparr>)"

definition paid_entry ::
  "chat_input \<Rightarrow> chat_request \<Rightarrow> model_registration \<Rightarrow> paid_ticket \<Rightarrow> string option \<Rightarrow> u32 \<times> u32 \<Rightarrow> u64 \<Rightarrow> spend_entry" where
  "paid_entry inp req model_info t provider toks billed_atomic = tags_of inp
     \<lparr>se_wallet = pt_wallet t, se_model = rq_model req,
      se_provider = (case provider of Some p \<Rightarrow> p | None \<Rightarrow> mr_provider model_info),
      se_input_tokens = fst toks, se_output_tokens = snd toks,
      se_cost_usdc = usdc_of_atomic billed_atomic, se_tx_signature = pt_tx t,
      se_request_id = None, se_session_id = None, se_tenant = None,
      se_tenant_enforced = br_tenant_enforced (pt_reservation t), se_estimated_cost_usdc = Some (pt_estimate t),
      se_reserved = br_reserved (pt_reservation t), se_vendor = None, se_routing_tier = None, se_routing_score = None\<rparr>"

definition checked_atomic :: "string \<Rightarrow> u64 option" where
  "checked_atomic decimal = (case usdc_atomic_amount_checked decimal of Inr s \<Rightarrow> parse_u64 s | Inl _ \<Rightarrow> None)"

definition emit_chat_receipt ::
  "('c, 'm) chat_env \<Rightarrow> ('c, 'm) chat_io \<Rightarrow> chat_request \<Rightarrow> paid_ticket \<Rightarrow> u64 \<Rightarrow> cost_breakdown
     \<Rightarrow> receipt_row list \<Rightarrow> string option \<times> receipt_row list" where
  "emit_chat_receipt env io req t amount_paid breakdown rows =
    (if ue_db (cx_usage env) = None then (None, rows)
     else case (checked_atomic (cb_provider_cost breakdown), checked_atomic (cb_total breakdown)) of
       (Some provider_cost, Some tot) \<Rightarrow>
         (case checked_sub tot provider_cost of
            None \<Rightarrow> (None, rows)
          | Some platform_fee \<Rightarrow>
            record_receipt True (cio_created_at io) (cio_receipt_ok io)
              \<lparr>rr_receipt_id = cio_receipt_id io, rr_model = rq_model req,
               rr_payment_scheme = as_accepted_str (pt_scheme t), rr_tx_signature = pt_tx t,
               rr_payer_wallet = pt_wallet t, rr_amount_paid_atomic = amount_paid,
               rr_provider_cost_atomic = provider_cost, rr_platform_fee_atomic = platform_fee,
               rr_total_atomic = tot, rr_vendor = None\<rparr> rows)
     | _ \<Rightarrow> (None, rows))"

text \<open>The spend row and the receipt of one bill, at the same point.\<close>

definition record_bill ::
  "('c, 'm) chat_env \<Rightarrow> ('c, 'm) chat_io \<Rightarrow> chat_input \<Rightarrow> chat_request \<Rightarrow> model_registration \<Rightarrow> paid_ticket
     \<Rightarrow> string option \<Rightarrow> u32 \<times> u32 \<Rightarrow> u64 \<Rightarrow> cost_breakdown \<Rightarrow> ('c, 'm) chat_world
     \<Rightarrow> string option \<times> ('c, 'm) chat_world" where
  "record_bill env io inp req model_info t provider toks billed_atomic breakdown w =
    (let w1 = log_spend (cx_usage env) (cio_log io) (paid_entry inp req model_info t provider toks billed_atomic) w;
         (path, rows) = emit_chat_receipt env io req t billed_atomic breakdown (chw_receipts w1)
     in (path, w1\<lparr>chw_receipts := rows\<rparr>))"

text \<open>The bill of the selected arm: the tokens, the atomic amount and the breakdown it derives from,
  or nothing when the cost cannot be computed.\<close>

definition bill_of_arm ::
  "('c, 'm) chat_env \<Rightarrow> chat_request \<Rightarrow> paid_ticket \<Rightarrow> semantic_discount option \<Rightarrow> spend_log_arm
     \<Rightarrow> ((u32 \<times> u32) \<times> u64 \<times> cost_breakdown) option" where
  "bill_of_arm env req t realized_discount arm =
    (let estimated = map_option (\<lambda>a. ((estimate_input_tokens req, 0), spend_cost_atomic realized_discount a, pt_cost t))
           (usdc_f64_to_atomic_safe (pt_estimate t)) in
     case arm of
       SkipSettleFailed \<Rightarrow> None
     | ActualUsage u \<Rightarrow>
         (case estimate_cost (cx_fee env) (cx_registry env) (rq_model req) (prompt_tokens u) (completion_tokens u) of
            Inl _ \<Rightarrow> None
          | Inr c \<Rightarrow>
            Option.bind (parse_f64 (cb_total c)) (\<lambda>cost.
            map_option (\<lambda>a. ((prompt_tokens u, completion_tokens u), spend_cost_atomic realized_discount a, c))
              (usdc_f64_to_atomic_safe cost)))
     | UsagelessSemanticHit \<Rightarrow> estimated
     | EstimateFallback \<Rightarrow> estimated)"

definition deliver ::
  "('c, 'm) chat_env \<Rightarrow> ('c, 'm) chat_io \<Rightarrow> chat_input \<Rightarrow> chat_request \<Rightarrow> model_registration \<Rightarrow> paid_ticket
     \<Rightarrow> usage_counts option \<Rightarrow> string option \<Rightarrow> semantic_discount option \<Rightarrow> ('c, 'm) chat_world
     \<Rightarrow> chat_outcome \<times> ('c, 'm) chat_world" where
  "deliver env io inp req model_info t reported provider cost_outcome w =
    (let usage = map_option (\<lambda>u. cap_usage_to_request_limits u req model_info) reported in
     case settle_exact env io t w of
       None \<Rightarrow> (Chat_Stuck, w)
     | Some (settle_after_deliver_failed, w1) \<Rightarrow>
       let realized_discount = scheme_realized_discount (pt_scheme t) cost_outcome;
           w2 = fire_claim env t (claim_amount env req model_info usage realized_discount) w1 in
       case bill_of_arm env req t realized_discount
              (select_spend_log_arm settle_after_deliver_failed usage (cost_outcome \<noteq> None)) of
         None \<Rightarrow> (Chat_Response None, w2)
       | Some (toks, billed_atomic, breakdown) \<Rightarrow>
           let (path, w3) = record_bill env io inp req model_info t provider toks billed_atomic breakdown w2
           in (Chat_Response path, w3))"

definition undelivered_message :: "payment_scheme \<Rightarrow> string" where
  "undelivered_message sch =
    (case sch of
       Scheme_Exact \<Rightarrow> ''No provider could serve your request right now and your payment was NOT charged. Please retry shortly.''
     | Scheme_Channel \<Rightarrow> ''No provider could serve your request right now and your channel was NOT drawn. Please retry shortly.''
     | Scheme_Escrow \<Rightarrow> ''No provider could serve your request right now; no claim was made against your escrow deposit and it refunds at expiry. Please retry shortly.'')"

definition serve_paid ::
  "('c, 'm) chat_env \<Rightarrow> ('c, 'm) chat_io \<Rightarrow> chat_input \<Rightarrow> chat_request \<Rightarrow> model_registration \<Rightarrow> paid_ticket
     \<Rightarrow> ('c, 'm) chat_world \<Rightarrow> chat_outcome \<times> ('c, 'm) chat_world" where
  "serve_paid env io inp req model_info t w =
    (case cio_serve io w of
       (w1, Provider_Ok reported provider cost_outcome) \<Rightarrow>
         deliver env io inp req model_info t reported provider cost_outcome w1
     | (w1, All_Providers_Failed) \<Rightarrow>
         (Chat_Rejected (Gw_UpstreamUnavailable (undelivered_message (pt_scheme t))),
          release_reservation (cx_usage env) (cio_release io) (pt_reservation t) w1)
     | (w1, Provider_Internal msg) \<Rightarrow>
         (Chat_Rejected (Gw_Internal msg),
          release_reservation (cx_usage env) (cio_release io) (pt_reservation t) w1))"

section \<open>The handler\<close>

definition draw_request_of ::
  "chat_input \<Rightarrow> chat_request \<Rightarrow> model_registration \<Rightarrow> u64 \<Rightarrow> string \<Rightarrow> channel_voucher_payload \<Rightarrow> draw_request" where
  "draw_request_of inp req model_info billed accepted_amount v =
    (let (tier, score) = routing_telemetry (ci_routing_tier inp) (ci_routing_score inp) in
     \<lparr>dr_body = raw_body (ci_dialect inp), dr_request = req, dr_model_info = model_info,
      dr_billed_atomic = billed, dr_accepted_amount = accepted_amount, dr_voucher = v,
      dr_request_id = ci_request_id inp, dr_session_id = Option.bind (ci_session_id inp) validate_session_id,
      dr_tenant = Option.bind (ci_tenant inp) validate_tenant, dr_routing_tier = tier, dr_routing_score = score\<rparr>)"

definition chat_pay ::
  "('c, 'm) chat_env \<Rightarrow> ('c, 'm) chat_io \<Rightarrow> chat_input \<Rightarrow> chat_request \<Rightarrow> model_registration \<Rightarrow> string
     \<Rightarrow> payment_payload \<Rightarrow> ('c, 'm) chat_world \<Rightarrow> chat_outcome \<times> ('c, 'm) chat_world" where
  "chat_pay env io inp req model_info atomic_amount payload w =
    (case check_accepted (cx_challenge env) (ci_resource_url inp) payload of
       Inl e \<Rightarrow> (Chat_Rejected e, w)
     | Inr _ \<Rightarrow>
       let is_channel = pa_scheme (pp_accepted payload) = ''channel'' in
       case pp_payload payload of
         Payload_Channel v \<Rightarrow>
           if \<not> is_channel
             then (Chat_Rejected (Gw_InvalidPayment ''payment payload is a channel voucher but the scheme is not channel''), w)
           else (case parse_u64 atomic_amount of
               None \<Rightarrow> (Chat_Rejected (Gw_Internal ''failed to parse the channel draw quote as u64''), w)
             | Some billed \<Rightarrow>
               let (outcome, d) = channel_draw (cx_draw env) (cio_draw io)
                     (draw_request_of inp req model_info billed (pa_amount (pp_accepted payload)) v) (chw_draw w)
               in (Chat_Drawn outcome, w\<lparr>chw_draw := d\<rparr>))
       | _ \<Rightarrow>
           if is_channel
             then (Chat_Rejected (Gw_InvalidPayment ''scheme is channel but the payload is not a channel voucher''), w)
           else (case admit_payment env io inp req model_info payload w of
               (Inl out, w1) \<Rightarrow> (out, w1)
             | (Inr t, w1) \<Rightarrow> serve_paid env io inp req model_info t w1))"

definition accept_request :: "('c, 'm) chat_env \<Rightarrow> chat_input \<Rightarrow> (gateway_error, model_registration) result" where
  "accept_request env inp =
     and_then (check_content (ci_request inp)) (\<lambda>_.
     and_then (ok_or (Gw_ModelNotFound (rq_model (ci_request inp)))
       (registry_get (cx_registry env) (rq_model (ci_request inp)))) (\<lambda>model_info.
     map_sum id (\<lambda>_. model_info) (check_vision (ci_request inp) model_info)))"

definition quoted_amount ::
  "('c, 'm) chat_env \<Rightarrow> chat_input \<Rightarrow> chat_request \<Rightarrow> model_registration
     \<Rightarrow> (gateway_error, cost_breakdown \<times> string) result" where
  "quoted_amount env inp req model_info =
     and_then (quoted_cost env inp req model_info) (\<lambda>cost.
     map_sum (\<lambda>_. Gw_Internal ''failed to compute USDC atomic amount'') (\<lambda>a. (cost, a))
       (usdc_atomic_amount_checked (cb_total cost)))"

definition chat_completions_inner ::
  "('c, 'm) chat_env \<Rightarrow> ('c, 'm) chat_io \<Rightarrow> chat_input \<Rightarrow> ('c, 'm) chat_world \<Rightarrow> chat_outcome \<times> ('c, 'm) chat_world"
where
  "chat_completions_inner env io inp w =
    (case accept_request env inp of
       Inl e \<Rightarrow> (Chat_Rejected e, w)
     | Inr model_info \<Rightarrow>
       let req = clamp_max_tokens (ci_request inp) model_info in
       if ci_payment inp = None \<and> cx_dev_bypass env then serve_bypassed io inp w
       else case quoted_amount env inp req model_info of
         Inl e \<Rightarrow> (Chat_Rejected e, w)
       | Inr (cost, atomic_amount) \<Rightarrow>
         if is_free_estimate atomic_amount then serve_free env io inp req model_info w
         else case ci_payment inp of
           None \<Rightarrow>
             (Chat_Challenge (build_payment_challenge (cx_challenge env) atomic_amount cost (ci_resource_url inp)), w)
         | Some decoded \<Rightarrow>
           if ci_guard_blocks inp then (Chat_Rejected (Gw_BadRequest ''Request blocked by content policy''), w)
           else (case decoded of
               None \<Rightarrow> (Chat_Rejected (Gw_InvalidPayment ''PAYMENT-SIGNATURE header is present but could not be decoded.''), w)
             | Some payload \<Rightarrow> chat_pay env io inp req model_info atomic_amount payload w))"

end
