(* ===== verification/Chat_Guarantees.thy ===== *)
theory Chat_Guarantees
  imports Chat_Payment Channel_Handlers
begin

text \<open>
  What the chat handler guarantees: every request is answered, a served request is paid for, an
  undelivered one takes nothing, what is recorded was collected, a claim stays within the deposit,
  and the challenge it answers with can be paid.
\<close>

section \<open>Frames of the calls\<close>

text \<open>\<open>usage_only w w'\<close>: nothing but cached limits and counters changed.\<close>

definition usage_only :: "'a usage_world_scheme \<Rightarrow> 'a usage_world_scheme \<Rightarrow> bool" where
  "usage_only w w' \<longleftrightarrow> w' = w\<lparr>uw_cache := uw_cache w', uw_counters := uw_counters w'\<rparr>"

lemma usage_only_refl [simp]: "usage_only w w"
  by (simp add: usage_only_def)

lemma usage_only_upd [simp]:
  "usage_only w (w\<lparr>uw_cache := rd\<rparr>)" "usage_only w (w\<lparr>uw_counters := cs\<rparr>)"
  "usage_only w (w\<lparr>uw_cache := rd, uw_counters := cs\<rparr>)" "usage_only w (w\<lparr>uw_counters := cs, uw_cache := rd\<rparr>)"
  by (simp_all add: usage_only_def)

lemma usage_only_trans:
  assumes "usage_only w w1" "usage_only w1 w2" shows "usage_only w w2"
proof -
  from assms obtain rd cs rd' cs' where "w1 = w\<lparr>uw_cache := rd, uw_counters := cs\<rparr>"
    "w2 = w1\<lparr>uw_cache := rd', uw_counters := cs'\<rparr>" unfolding usage_only_def by blast
  then show ?thesis by simp
qed

lemma usage_only_chat:
  fixes w :: "('c, 'm) chat_world"
  assumes "usage_only w w'"
  shows "chw_replay w' = chw_replay w" "chw_replay_sets w' = chw_replay_sets w" "chw_free_limiter w' = chw_free_limiter w"
    "chw_free_window w' = chw_free_window w" "chw_settle_calls w' = chw_settle_calls w" "chw_claims w' = chw_claims w"
    "chw_receipts w' = chw_receipts w" "chw_draw w' = chw_draw w" "uw_spend_logs w' = uw_spend_logs w"
proof -
  from assms obtain rd cs where "w' = w\<lparr>uw_cache := rd, uw_counters := cs\<rparr>" unfolding usage_only_def by blast
  then show "chw_replay w' = chw_replay w" "chw_replay_sets w' = chw_replay_sets w" "chw_free_limiter w' = chw_free_limiter w"
    "chw_free_window w' = chw_free_window w" "chw_settle_calls w' = chw_settle_calls w" "chw_claims w' = chw_claims w"
    "chw_receipts w' = chw_receipts w" "chw_draw w' = chw_draw w" "uw_spend_logs w' = uw_spend_logs w" by simp_all
qed

lemma release_frame: "usage_only w (release_reservation env io r w)"
  by (simp add: release_reservation_def)

lemma check_team_frame: "usage_only w (snd (check_team env io wallet est committed w))"
  by (auto simp: check_team_def Let_def split: prod.splits sum.splits option.splits team_lookup.splits)

lemma check_tenant_frame: "usage_only w (snd (check_tenant env io wallet est tenant q committed w))"
  by (auto simp: check_tenant_def Let_def split: prod.splits sum.splits option.splits tenant_lookup.splits tenant_decision.splits)

lemma check_budget_frame: "usage_only w (snd (check_budget env io wallet est tenant w))"
proof -
  have two: "usage_only w w2" if "check_team env io wallet est c (w\<lparr>uw_cache := rd, uw_counters := cs\<rparr>) = (y, w1)"
      "check_tenant env io wallet est tenant q c' w1 = (z, w2)" for c c' q rd cs w1 w2 y z
    using check_team_frame [of "w\<lparr>uw_cache := rd, uw_counters := cs\<rparr>" env io wallet est c]
      check_tenant_frame [of w1 env io wallet est tenant q c'] that
    by (metis snd_conv usage_only_trans usage_only_upd(3))
  have one: "usage_only w w1" if "check_team env io wallet est c (w\<lparr>uw_cache := rd, uw_counters := cs\<rparr>) = (y, w1)"
    for c rd cs y w1
    using check_team_frame [of "w\<lparr>uw_cache := rd, uw_counters := cs\<rparr>" env io wallet est c] that
    by (metis snd_conv usage_only_trans usage_only_upd(3))
  show ?thesis
    by (auto simp: check_budget_def Let_def dest: one two split: prod.splits sum.splits)
qed

lemma settle_counters_frame: "usage_only w (settle_counters env io e w)"
  by (auto simp: settle_counters_def Let_def split: prod.splits)

text \<open>A spend row is appended or not; nothing else but limits and counters changes.\<close>

lemma log_spend_frame:
  obtains logs where "usage_only (w\<lparr>uw_spend_logs := logs\<rparr>) (log_spend env io e w)"
    "logs = uw_spend_logs w \<or> logs = uw_spend_logs w @ [e]"
proof (cases "insert_spend_log env io e w = w")
  case True
  then have "usage_only (w\<lparr>uw_spend_logs := uw_spend_logs w\<rparr>) (log_spend env io e w)"
    by (simp add: log_spend_def settle_counters_frame)
  then show ?thesis using that by blast
next
  case False
  then have i: "insert_spend_log env io e w = w\<lparr>uw_spend_logs := uw_spend_logs w @ [e]\<rparr>"
    by (auto simp: insert_spend_log_def Let_def split: if_splits)
  have "usage_only (w\<lparr>uw_spend_logs := uw_spend_logs w @ [e]\<rparr>) (log_spend env io e w)"
    by (simp add: log_spend_def i settle_counters_frame Let_def)
  then show ?thesis using that by blast
qed

section \<open>The steps of admission\<close>

lemma map_sum_is_Inr: "map_sum f g x = Inr y \<longleftrightarrow> (\<exists>z. x = Inr z \<and> y = g z)"
  by (cases x) auto

lemma admit_cases:
  assumes "admit_payment env io inp req m payload w = (Inr t, w3)"
  obtains tx w1 w2 where
    "check_amount env inp req m payload = Inr (pt_cost t, pt_client_amount t)"
    "check_scheme payload = Inr (pt_scheme t)" "payment_tx (pp_payload payload) = Some tx"
    "replay_verdict_of env io tx w = (Replay_Fresh, w1)"
    "reserve_budget env io inp (pt_wallet t) (pt_cost t) w1 = (Inr (pt_estimate t, pt_reservation t), w2)"
    "secure_payment env io payload (pt_scheme t) (pt_reservation t) w2 = (Inr (pt_deposited t), w3)"
    "pt_payload t = payload" "pt_tx t = Some tx"
  using assms
  by (auto simp: admit_payment_def extract_payment_info_def and_then_Inr_iff map_sum_Inr_iff
      split: sum.splits option.splits prod.splits replay_verdict.splits intro: that)

lemma admit_no_response: "admit_payment env io inp req m payload w \<noteq> (Inl (Chat_Response path), w')"
  by (auto simp: admit_payment_def secure_payment_def Let_def split: sum.splits option.splits prod.splits
      replay_verdict.splits payment_scheme.splits if_splits)

lemma admitted_payload:
  assumes "check_scheme payload = Inr sch" "payment_tx (pp_payload payload) = Some tx"
  shows "sch = Scheme_Exact \<Longrightarrow> pa_scheme (pp_accepted payload) = ''exact'' \<and> (\<exists>p. pp_payload payload = Payload_Direct p)"
    and "sch = Scheme_Escrow \<Longrightarrow> pa_scheme (pp_accepted payload) = ''escrow'' \<and> (\<exists>p. pp_payload payload = Payload_Escrow p)"
  using assms by (auto simp: check_scheme_def from_accepted_str_def split: payload_data.splits if_splits)

lemma payload_verifier_scheme:
  assumes "payload_verifier vs payload = Inr v"
  shows "scheme v = pa_scheme (pp_accepted payload)"
  using assms by (auto simp: payload_verifier_def verifier_for_def find_Some_iff)

lemma replay_frame:
  assumes "replay_verdict_of env io tx w = (v, w1)"
  shows "chw_settle_calls w1 = chw_settle_calls w" "chw_claims w1 = chw_claims w" "chw_receipts w1 = chw_receipts w"
    "uw_spend_logs w1 = uw_spend_logs w" "uw_counters w1 = uw_counters w" "uw_cache w1 = uw_cache w"
  using assms by (auto simp: replay_verdict_of_def Let_def split: if_splits prod.splits)

lemma reserve_cases:
  assumes "reserve_budget env io inp wallet cost w = (Inr (est, r), w2)"
  shows "parse_f64 (cb_total cost) = Some est" "f64_is_finite est"
    "check_budget (cx_usage env) (cio_check io) wallet est (Option.bind (ci_tenant inp) validate_tenant) w = (Inr r, w2)"
    "usage_only w w2"
proof -
  show c: "parse_f64 (cb_total cost) = Some est" "f64_is_finite est"
    "check_budget (cx_usage env) (cio_check io) wallet est (Option.bind (ci_tenant inp) validate_tenant) w = (Inr r, w2)"
    using assms by (auto simp: reserve_budget_def split: option.splits prod.splits sum.splits if_splits)
  show "usage_only w w2"
    using check_budget_frame [of w "cx_usage env" "cio_check io" wallet est "Option.bind (ci_tenant inp) validate_tenant"]
    by (simp add: c(3))
qed

lemma secure_cases:
  assumes "secure_payment env io payload sch r w = (Inr deposited, w3)"
  obtains (exact) v where "sch = Scheme_Exact" "w3 = w" "deposited = None"
      "facilitator_verify (cx_verifier env) (cx_verifiers env) (cio_verify_at io) payload = Inr v"
  | (escrow) s where "sch = Scheme_Escrow" "w3 = w\<lparr>chw_settle_calls := chw_settle_calls w @ [payload]\<rparr>"
      "verify_and_settle (cx_verifier env) (cx_verifiers env) (cio_verify_at io) (cio_settle_at io) payload = Some (Inr s)"
      "sr_success s" "deposited = sr_verified_amount s"
  using assms
  by (auto simp: secure_payment_def Let_def split: payment_scheme.splits sum.splits option.splits if_splits)

section \<open>What backs a served request\<close>

text \<open>The payment is worth at least \<open>q\<close>: a signed transfer that the verifier accepts, or a deposit
  that is verified and confirmed by the node.\<close>

definition paid_for :: "('c, 'm) chat_env \<Rightarrow> ('c, 'm) chat_io \<Rightarrow> payment_payload \<Rightarrow> u64 \<Rightarrow> bool" where
  "paid_for env io payload q \<longleftrightarrow>
     (\<exists>v amount. payload_verifier (cx_verifiers env) payload = Inr (Exact v)
        \<and> direct_payment_ok (cx_verifier env) v (cio_verify_at io) payload (sv_recipient v) amount \<and> q \<le> amount)
   \<or> (\<exists>ev p ps tx m call sig t. payload_verifier (cx_verifiers env) payload = Inr (Escrow ev)
        \<and> deposit_ok_for (cx_verifier env) ev (cio_verify_at io) payload p ps tx m call \<and> q \<le> dc_amount call
        \<and> cio_settle_at io \<le> t \<and> confirmed_by_node (cx_verifier env) t sig)"

lemma verified_exact_paid:
  assumes "facilitator_verify (cx_verifier env) (cx_verifiers env) (cio_verify_at io) payload = Inr r"
    and "pa_scheme (pp_accepted payload) = ''exact''"
    and "parse_u64 (pa_amount (pp_accepted payload)) = Some c" "q \<le> c"
  shows "paid_for env io payload q"
proof -
  from assms(1) obtain v where v: "payload_verifier (cx_verifiers env) payload = Inr v"
    "verify_payment (cx_verifier env) (cio_verify_at io) payload v = Inr r"
    by (auto simp: facilitator_verify_def and_then_Inr_iff)
  from payload_verifier_scheme [OF v(1)] assms(2) obtain sv where sv: "v = Exact sv" by (cases v) auto
  with v(2) obtain amount where a: "direct_payment_ok (cx_verifier env) sv (cio_verify_at io) payload (sv_recipient sv) amount"
    by (auto simp: direct_verify_payment_def verify_against_Inr)
  then have "c \<le> amount" using assms(3) by (auto simp: direct_payment_ok_def word_le_nat_alt)
  with v(1) sv a assms(4) show ?thesis unfolding paid_for_def by (intro disjI1) (auto intro: order_trans)
qed

lemma settled_deposit:
  assumes "verify_and_settle (cx_verifier env) (cx_verifiers env) (cio_verify_at io) (cio_settle_at io) payload = Some (Inr s)"
    and "sr_success s" "pa_scheme (pp_accepted payload) = ''escrow''"
  obtains ev p ps tx m call sig t where "payload_verifier (cx_verifiers env) payload = Inr (Escrow ev)"
    "deposit_ok_for (cx_verifier env) ev (cio_verify_at io) payload p ps tx m call"
    "escrow_settle_payment (cx_verifier env) ev (cio_settle_at io) payload = Some (Inr s)"
    "cio_settle_at io \<le> t" "confirmed_by_node (cx_verifier env) t sig"
proof -
  from assms(1) obtain v where v: "payload_verifier (cx_verifiers env) payload = Inr v"
    and sv: "settle_if_valid (cx_verifier env) (cio_settle_at io) payload v
        (verify_payment (cx_verifier env) (cio_verify_at io) payload v) = Some (Inr s)"
    by (auto simp: verify_and_settle_def split: sum.splits)
  from settle_if_valid_Inr [OF sv] obtain r where
    r: "verify_payment (cx_verifier env) (cio_verify_at io) payload v = Inr r"
      "settle_payment (cx_verifier env) (cio_settle_at io) payload v = Some (Inr s)" by blast
  from payload_verifier_scheme [OF v] assms(3) obtain ev where ev: "v = Escrow ev" by (cases v) auto
  from r(1) obtain p ps tx m call where "deposit_ok_for (cx_verifier env) ev (cio_verify_at io) payload p ps tx m call"
    by (auto simp: ev escrow_verify_Inr)
  moreover from gateway.settle_confirmed [OF r(2) assms(2)] obtain sig t where
    "cio_settle_at io \<le> t" "confirmed_by_node (cx_verifier env) t sig" by blast
  ultimately show ?thesis using that v r(2) ev by simp
qed

lemma admitted_paid:
  assumes "admit_payment env io inp req m payload w = (Inr t, w3)"
    and "quoted_amount env inp req m = Inr (cost, a)" "parse_u64 a = Some q"
  shows "paid_for env io payload q"
  using assms(1)
proof (rule admit_cases)
  fix tx w1 w2
  assume am: "check_amount env inp req m payload = Inr (pt_cost t, pt_client_amount t)"
    and sch: "check_scheme payload = Inr (pt_scheme t)" "payment_tx (pp_payload payload) = Some tx"
    and sec: "secure_payment env io payload (pt_scheme t) (pt_reservation t) w2 = (Inr (pt_deposited t), w3)"
  from am assms(2,3) have c: "parse_u64 (pa_amount (pp_accepted payload)) = Some (pt_client_amount t)" "q \<le> pt_client_amount t"
    by (auto simp: check_amount_def quoted_amount_def and_then_Inr_iff map_sum_is_Inr split: if_splits)
  from sec show ?thesis
  proof (cases rule: secure_cases)
    case (exact v)
    with verified_exact_paid c admitted_payload(1) [OF sch] show ?thesis by blast
  next
    case (escrow s)
    have e: "pa_scheme (pp_accepted payload) = ''escrow''" using admitted_payload(2) [OF sch escrow(1)] by simp
    obtain ev p ps txx mm call sig tt where d: "payload_verifier (cx_verifiers env) payload = Inr (Escrow ev)"
      "deposit_ok_for (cx_verifier env) ev (cio_verify_at io) payload p ps txx mm call"
      "escrow_settle_payment (cx_verifier env) ev (cio_settle_at io) payload = Some (Inr s)"
      "cio_settle_at io \<le> tt" "confirmed_by_node (cx_verifier env) tt sig"
      by (rule settled_deposit [OF escrow(3,4) e]) (rule that)
    then have "q \<le> dc_amount call" using c by (auto simp: deposit_ok_for_def)
    with d show ?thesis unfolding paid_for_def by blast
  qed
qed

section \<open>Properties\<close>

lemma checked_amount_parses:
  assumes "usdc_atomic_amount_checked s = Inr a"
  obtains q where "a = nat_text (unat (q :: u64))" "parse_u64 a = Some q" "is_free_estimate a \<longleftrightarrow> q = 0"
proof -
  from assms obtain q :: u64 where a: "a = nat_text (unat q)"
    by (auto simp: usdc_atomic_amount_checked_def Let_def and_then_Inr_iff split: if_splits)
  have d: "list_all is_digit a" "a \<noteq> []" by (simp_all add: a nat_text_all_digits)
  then have "printable (hd a)" "printable (last a)"
    by (auto simp: list_all_iff intro!: printable_digit)
  with d(2) have "trim_text a = a" by (simp add: trim_text_id)
  then have "is_free_estimate a \<longleftrightarrow> q = 0" by (simp add: is_free_estimate_def a parse_nat_text)
  with that a show ?thesis by (simp add: parse_nat_text)
qed

text \<open>
  C1. A served request is paid for. When the handler serves a request that carries a payment header,
  either the model is free at this size, or the header holds a payment made out to the gateway's
  wallet, mint and this endpoint that is worth at least the quote: a signed transfer that the
  verifier accepts, or a deposit that is verified and that the node confirmed. Its
  transaction had not been used before.
\<close>
theorem served_request_is_paid:
  assumes "chat_completions_inner env io inp w = (Chat_Response path, w')" "ci_payment inp \<noteq> None"
  shows "\<exists>m cost a q. accept_request env inp = Inr m
    \<and> quoted_amount env inp (clamp_max_tokens (ci_request inp) m) m = Inr (cost, a) \<and> parse_u64 a = Some q
    \<and> (q = 0 \<or> (\<exists>payload tx. ci_payment inp = Some (Some payload)
         \<and> check_accepted (cx_challenge env) (ci_resource_url inp) payload = Inr ()
         \<and> paid_for env io payload q \<and> payment_tx (pp_payload payload) = Some tx
         \<and> fst (replay_verdict_of env io tx w) = Replay_Fresh))"
proof -
  from assms obtain m where m: "accept_request env inp = Inr m"
    by (auto simp: chat_completions_inner_def split: sum.splits)
  define req where "req = clamp_max_tokens (ci_request inp) m"
  from assms m obtain cost a where qa: "quoted_amount env inp req m = Inr (cost, a)"
    by (auto simp: chat_completions_inner_def req_def Let_def split: sum.splits)
  then have "usdc_atomic_amount_checked (cb_total cost) = Inr a"
    by (auto simp: quoted_amount_def and_then_Inr_iff map_sum_is_Inr)
  then obtain q where q: "parse_u64 a = Some q" "is_free_estimate a \<longleftrightarrow> q = 0" by (rule checked_amount_parses)
  have "\<exists>payload tx. ci_payment inp = Some (Some payload)
         \<and> check_accepted (cx_challenge env) (ci_resource_url inp) payload = Inr ()
         \<and> paid_for env io payload q \<and> payment_tx (pp_payload payload) = Some tx
         \<and> fst (replay_verdict_of env io tx w) = Replay_Fresh" if "q \<noteq> 0"
  proof -
    from assms m qa q(2) that obtain payload where p: "ci_payment inp = Some (Some payload)"
      and run: "chat_pay env io inp req m a payload w = (Chat_Response path, w')"
      by (auto simp: chat_completions_inner_def req_def Let_def split: option.splits if_splits)
    from run obtain u where acc: "check_accepted (cx_challenge env) (ci_resource_url inp) payload = Inr u"
      by (auto simp: chat_pay_def split: sum.splits)
    from run acc obtain t w1 where adm: "admit_payment env io inp req m payload w = (Inr t, w1)"
    proof (cases "admit_payment env io inp req m payload w")
      case (Pair x w1)
      with run acc show ?thesis
        by (cases x) (auto simp: chat_pay_def Let_def admit_no_response split: payload_data.splits if_splits option.splits prod.splits
            intro: that)
    qed
    from adm obtain tx w2 where "payment_tx (pp_payload payload) = Some tx" "replay_verdict_of env io tx w = (Replay_Fresh, w2)"
      by (rule admit_cases)
    with p acc admitted_paid [OF adm qa q(1)] show ?thesis by auto
  qed
  with m qa q show ?thesis unfolding req_def by blast
qed

section \<open>Settlement waits end\<close>

lemma facilitator_settle_returns: "facilitator_settle env vs now payload \<noteq> None"
  using gateway.settle_returns by (auto simp: facilitator_settle_def split: sum.splits)

lemma verify_and_settle_returns: "verify_and_settle env vs now later payload \<noteq> None"
  using settle_if_valid_Some by (auto simp: verify_and_settle_def split: sum.splits)

lemma settle_exact_returns: "settle_exact env io t w \<noteq> None"
  by (auto simp: settle_exact_def Let_def facilitator_settle_returns split: option.splits sum.splits)

lemma admit_outcome:
  assumes "admit_payment env io inp req m payload w = (Inl out, w')" obtains e where "out = Chat_Rejected e"
  using assms
  by (auto simp: admit_payment_def secure_payment_def Let_def verify_and_settle_returns intro: that
      split: sum.splits option.splits prod.splits replay_verdict.splits payment_scheme.splits if_splits)

lemma deliver_responds: obtains path where "fst (deliver env io inp req m t rep prov outcome w) = Chat_Response path"
proof -
  have "\<exists>path. fst (deliver env io inp req m t rep prov outcome w) = Chat_Response path"
    by (auto simp: deliver_def Let_def settle_exact_returns split: option.splits prod.splits)
  then show ?thesis using that by blast
qed

lemma chat_pay_outcome:
  obtains (response) path where "fst (chat_pay env io inp req m a payload w) = Chat_Response path"
  | (rejected) e where "fst (chat_pay env io inp req m a payload w) = Chat_Rejected e"
  | (drawn) r where "fst (chat_pay env io inp req m a payload w) = Chat_Drawn r"
proof -
  have serve: "(\<exists>path. fst (serve_paid env io inp req m t w1) = Chat_Response path)
      \<or> (\<exists>e. fst (serve_paid env io inp req m t w1) = Chat_Rejected e)" for t w1
  proof (cases "cio_serve io w1")
    case (Pair w2 r)
    show ?thesis
    proof (cases r)
      case (Provider_Ok rep prov outcome)
      obtain path where "fst (deliver env io inp req m t rep prov outcome w2) = Chat_Response path" by (rule deliver_responds)
      with Pair Provider_Ok show ?thesis by (auto simp: serve_paid_def)
    qed (use Pair in \<open>auto simp: serve_paid_def\<close>)
  qed
  have "(\<exists>path. fst (chat_pay env io inp req m a payload w) = Chat_Response path)
      \<or> (\<exists>e. fst (chat_pay env io inp req m a payload w) = Chat_Rejected e)
      \<or> (\<exists>r. fst (chat_pay env io inp req m a payload w) = Chat_Drawn r)"
  proof (cases "admit_payment env io inp req m payload w")
    case (Pair x w1)
    show ?thesis
    proof (cases x)
      case (Inl out)
      with Pair obtain e where "out = Chat_Rejected e" by (metis admit_outcome)
      with Pair Inl show ?thesis
        by (auto simp: chat_pay_def Let_def split: sum.splits payload_data.splits option.splits prod.splits)
    next
      case (Inr t)
      with Pair serve [of t w1] show ?thesis
        by (auto simp: chat_pay_def Let_def split: sum.splits payload_data.splits option.splits prod.splits)
    qed
  qed
  then show ?thesis using that by blast
qed

text \<open>
  The waits of a settlement end, so that once the calls to the store, the database and the provider
  have returned the handler has an answer. These calls are functions in the model: one that never
  returns is not represented.
\<close>
theorem chat_request_answered: "fst (chat_completions_inner env io inp w) \<noteq> Chat_Stuck"
proof -
  have "fst (chat_pay env io inp req m a payload w) \<noteq> Chat_Stuck" for req m a payload
    by (cases rule: chat_pay_outcome [of env io inp req m a payload w]) simp_all
  then show ?thesis
    by (auto simp: chat_completions_inner_def Let_def serve_bypassed_def serve_free_def
        split: sum.splits option.splits prod.splits provider_call.splits)
qed

section \<open>The challenge\<close>

text \<open>
  C14. The challenge can be paid. When the handler answers with a challenge, nothing has changed, the
  asked amount is positive, and a payment that echoes the challenge's resource and any of its
  accepted terms passes the checks on the accepted fields and on the amount for the same request.
\<close>
theorem challenge_is_payable:
  assumes "chat_completions_inner env io inp w = (Chat_Challenge pq, w')" "accept_request env inp = Inr m"
    and "acc \<in> set (pq_accepts pq)"
  shows "w' = w \<and> (\<exists>q. q \<noteq> 0 \<and> pa_amount acc = nat_text (unat q)
    \<and> (let payload = \<lparr>pp_x402_version = pq_x402_version pq, pp_resource = pq_resource pq, pp_accepted = acc, pp_payload = d\<rparr>
       in check_accepted (cx_challenge env) (ci_resource_url inp) payload = Inr ()
        \<and> check_amount env inp (clamp_max_tokens (ci_request inp) m) m payload = Inr (pq_cost_breakdown pq, q)))"
proof -
  define req where "req = clamp_max_tokens (ci_request inp) m"
  have paid: "chat_pay env io inp req m a payload w \<noteq> (Chat_Challenge pq, w')" for a payload
    by (cases rule: chat_pay_outcome [of env io inp req m a payload w]) auto
  have free: "serve_free env io inp req m w \<noteq> (Chat_Challenge pq, w')" "serve_bypassed io inp w \<noteq> (Chat_Challenge pq, w')"
    by (auto simp: serve_free_def serve_bypassed_def Let_def split: prod.splits provider_call.splits)
  from assms(1,2) obtain cost a where qa: "quoted_amount env inp req m = Inr (cost, a)" "\<not> is_free_estimate a"
    and pq: "pq = build_payment_challenge (cx_challenge env) a cost (ci_resource_url inp)" "w' = w"
    by (auto simp: chat_completions_inner_def Let_def paid free req_def [symmetric] split: sum.splits option.splits if_splits)
  from qa(1) have c: "quoted_cost env inp req m = Inr cost" and u: "usdc_atomic_amount_checked (cb_total cost) = Inr a"
    by (auto simp: quoted_amount_def and_then_Inr_iff map_sum_is_Inr)
  from u obtain q where q: "a = nat_text (unat (q :: u64))" "parse_u64 a = Some q" "is_free_estimate a \<longleftrightarrow> q = 0"
    by (rule checked_amount_parses)
  have acc: "pa_amount acc = a" "pa_network acc = SOLANA_NETWORK" "pa_asset acc = xc_usdc_mint (cx_challenge env)"
    "pa_pay_to acc = xc_recipient_wallet (cx_challenge env)"
    using assms(3) by (auto simp: pq build_payment_challenge_def Let_def split: if_splits)
  show ?thesis
    using qa(2) q acc c u unfolding req_def [symmetric]
    by (intro conjI exI [of _ q])
      (simp_all add: pq build_payment_challenge_def check_accepted_def check_amount_def eq_ignore_ascii_case_def
        and_then_def ok_or_def Let_def)
qed

section \<open>After the provider call\<close>

lemma admit_frame:
  assumes "admit_payment env io inp req m payload w = (Inr t, w3)"
  shows "chw_claims w3 = chw_claims w \<and> chw_receipts w3 = chw_receipts w \<and> uw_spend_logs w3 = uw_spend_logs w
    \<and> chw_settle_calls w3 = chw_settle_calls w @ (if pt_scheme t = Scheme_Escrow then [payload] else [])"
  using assms
proof (rule admit_cases)
  fix tx w1 w2
  assume rp: "replay_verdict_of env io tx w = (Replay_Fresh, w1)"
    and rs: "reserve_budget env io inp (pt_wallet t) (pt_cost t) w1 = (Inr (pt_estimate t, pt_reservation t), w2)"
    and sec: "secure_payment env io payload (pt_scheme t) (pt_reservation t) w2 = (Inr (pt_deposited t), w3)"
  note r = replay_frame [OF rp] usage_only_chat [OF reserve_cases(4) [OF rs]]
  from sec show ?thesis by (cases rule: secure_cases) (simp_all add: r)
qed

text \<open>What the admission added to the budget counters, and what the release takes from them again,
  relative to what they hold when the provider call has ended.\<close>

definition estimate_booked ::
  "('c, 'm) chat_env \<Rightarrow> ('c, 'm) chat_io \<Rightarrow> paid_ticket \<Rightarrow> ('c, 'm) chat_world \<Rightarrow> ('c, 'm) chat_world \<Rightarrow> bool" where
  "estimate_booked env io t w w1 \<longleftrightarrow> (let num = ue_numbers (cx_usage env); now = ui_now (cio_check io) in
     list_all (\<lambda>(k, a). a = pt_estimate t
       \<and> counter_value now k (uw_counters w1) = rn_incr num (counter_value now k (uw_counters w)) (rn_decimal num a))
     (br_committed (pt_reservation t)))"

definition estimate_taken_back ::
  "('c, 'm) chat_env \<Rightarrow> ('c, 'm) chat_io \<Rightarrow> paid_ticket \<Rightarrow> ('c, 'm) chat_world \<Rightarrow> ('c, 'm) chat_world \<Rightarrow> bool" where
  "estimate_taken_back env io t w2 w' \<longleftrightarrow> (let num = ue_numbers (cx_usage env); now = ui_now (cio_release io) in
     \<forall>k. counter_value now k (uw_counters w')
       = (if k \<in> fst ` set (br_committed (pt_reservation t))
          then rn_incr num (counter_value now k (uw_counters w2)) (rn_decimal num (f64_neg (pt_estimate t)))
          else counter_value now k (uw_counters w2)))"

lemma booked_on_admission:
  assumes "admit_payment env io inp req m payload w = (Inr t, w3)"
    and pd: "periods_ok (ue_periods (cx_usage env)) (ui_now (cio_check io))"
  shows "estimate_booked env io t w w3" "distinct (map fst (br_committed (pt_reservation t)))"
    "br_committed (pt_reservation t) \<noteq> [] \<Longrightarrow> ue_redis (cx_usage env)"
proof -
  let ?u = "cx_usage env" and ?now = "ui_now (cio_check io)" and ?c = "br_committed (pt_reservation t)"
  have "estimate_booked env io t w w3 \<and> distinct (map fst ?c) \<and> (?c \<noteq> [] \<longrightarrow> ue_redis ?u)"
    using assms(1)
  proof (rule admit_cases)
    fix tx w1 w2'
    assume rp: "replay_verdict_of env io tx w = (Replay_Fresh, w1)"
      and rs: "reserve_budget env io inp (pt_wallet t) (pt_cost t) w1 = (Inr (pt_estimate t, pt_reservation t), w2')"
      and sec: "secure_payment env io payload (pt_scheme t) (pt_reservation t) w2' = (Inr (pt_deposited t), w3)"
    have c: "uw_counters w3 = uw_counters w2'" using sec by (cases rule: secure_cases) simp_all
    note run = reserve_cases(3) [OF rs]
    show ?thesis
    proof (cases "ue_redis ?u \<and> ui_connect (cio_check io)")
      case True
      with check_budget_outcome [OF pd, where w = w1 and est = "pt_estimate t" and wallet = "pt_wallet t"
          and tenant = "Option.bind (ci_tenant inp) validate_tenant"] run
      have bk: "booked (ue_numbers ?u) ?now (pt_estimate t) (\<lambda>k. counter_value ?now k (uw_counters w1)) ?c (uw_counters w2')"
        by simp
      then have "a = pt_estimate t" if "(k, a) \<in> set ?c" for k a using that by (auto simp: booked_def)
      with counter_value_booked [OF bk] True check_budget_distinct [OF pd run] show ?thesis
        by (auto simp: estimate_booked_def list_all_iff c replay_frame(5) [OF rp] Let_def)
    next
      case False
      with run have "pt_reservation t = empty_reservation" by (auto simp: check_budget_def split: if_splits)
      then show ?thesis by (simp add: estimate_booked_def empty_reservation_def)
    qed
  qed
  then show "estimate_booked env io t w w3" "distinct (map fst ?c)" "?c \<noteq> [] \<Longrightarrow> ue_redis ?u" by blast+
qed

lemma released_after_admission:
  assumes "admit_payment env io inp req m payload w = (Inr t, w3)"
    and "periods_ok (ue_periods (cx_usage env)) (ui_now (cio_check io))"
    and "ui_connect (cio_release io)" "counter_wires_ok (cio_release io)"
  shows "estimate_taken_back env io t w2
    (release_reservation (cx_usage env) (cio_release io) (pt_reservation t) w2)"
proof (cases "br_committed (pt_reservation t) = []")
  case True
  then show ?thesis by (simp add: estimate_taken_back_def release_reservation_def)
next
  case False
  note adm = booked_on_admission [OF assms(1,2)]
  have "map_of (br_committed (pt_reservation t)) k = (if k \<in> fst ` set (br_committed (pt_reservation t))
      then Some (pt_estimate t) else None)" for k
    using adm(1) by (cases "map_of (br_committed (pt_reservation t)) k")
      (auto simp: map_of_eq_None_iff estimate_booked_def list_all_iff Let_def dest!: map_of_SomeD intro: rev_image_eqI)
  then show ?thesis
    by (simp add: estimate_taken_back_def release_value [OF adm(3) [OF False] assms(3,4) adm(2)] Let_def)
qed

text \<open>
  C7. A request that no provider delivers takes nothing. The handler answers with an error; after the
  provider call no transfer is handed to settlement, no claim is fired, no spend row and no receipt
  is written; before it only an escrow deposit had been handed to settlement, and nothing claimed,
  logged or receipted. The estimate had been added, on admission, to the budget counters of the
  reservation; when the store answers the release commands it is taken back from exactly these
  counters, whatever others added to them in the meantime. If the store does not answer the
  release, the counters keep the estimate until they expire.
\<close>
theorem undelivered_request_takes_nothing:
  assumes "admit_payment env io inp req m payload w = (Inr t, w1)"
    and "cio_serve io w1 = (w2, r)" "r = All_Providers_Failed \<or> r = Provider_Internal msg"
    and "periods_ok (ue_periods (cx_usage env)) (ui_now (cio_check io))"
  shows "\<exists>e w'. serve_paid env io inp req m t w1 = (Chat_Rejected e, w')
    \<and> chw_settle_calls w' = chw_settle_calls w2 \<and> chw_claims w' = chw_claims w2 \<and> chw_receipts w' = chw_receipts w2
    \<and> uw_spend_logs w' = uw_spend_logs w2
    \<and> chw_claims w1 = chw_claims w \<and> chw_receipts w1 = chw_receipts w \<and> uw_spend_logs w1 = uw_spend_logs w
    \<and> chw_settle_calls w1 = chw_settle_calls w @ (if pt_scheme t = Scheme_Escrow then [payload] else [])
    \<and> estimate_booked env io t w w1
    \<and> (ui_connect (cio_release io) \<and> counter_wires_ok (cio_release io) \<longrightarrow> estimate_taken_back env io t w2 w')"
proof -
  obtain e where "serve_paid env io inp req m t w1
      = (Chat_Rejected e, release_reservation (cx_usage env) (cio_release io) (pt_reservation t) w2)"
    using assms(2,3) by (auto simp: serve_paid_def)
  with released_after_admission [OF assms(1,4), of w2] booked_on_admission(1) [OF assms(1,4)] admit_frame [OF assms(1)]
    usage_only_chat [OF release_frame, of "cx_usage env" "cio_release io" "pt_reservation t" w2]
  show ?thesis by simp
qed

section \<open>What a delivered request records\<close>

fun claim_value :: "claim_action \<Rightarrow> u64" where
  "claim_value NoClaim = 0"
| "claim_value (EnqueueClaim _ _ amount _) = amount"
| "claim_value (ClaimAsync _ _ amount) = amount"

lemma fired_claim_bound:
  assumes "fire_escrow_claim cr b64 has_db has_claimer is_escrow sid agent deposited cost price = act" "act \<noteq> NoClaim"
  shows "is_escrow \<and> claim_value act \<le> (case deposited of Some d \<Rightarrow> d | None \<Rightarrow> price)"
  using assms by (auto simp: fire_escrow_claim_def Let_def cap_claim_amount_def split: option.splits if_splits)

text \<open>A confirmed deposit reports the amount the verifier read.\<close>

lemma settled_deposit_amount:
  assumes "deposit_ok_for env ev now payload p ps tx m call" "escrow_settle_payment env ev later payload = Some (Inr s)"
  shows "sr_verified_amount s = Some (dc_amount call)"
proof -
  have ok: "pp_payload payload = Payload_Escrow p" "decode_deposit_tx env (ep_deposit_tx p) = Inr tx"
    "decode_bs58_pubkey (ve_crypto env) (ev_escrow_program_id ev) = Inr (ep_program ps)"
    "parsed_message_from_bytes (vt_message_bytes tx) = Inr m"
    "extract_deposit_amount (ve_crypto env) m (ep_program ps) = Some (dc_amount call)"
    using assms(1) extract_same_amount
    by (auto simp: deposit_ok_for_def derive_escrow_parties_Inr check_agent_signature_Inr)
  have w: "await_settlement env t sig a = Some r \<Longrightarrow> sr_verified_amount r = a" for t sig a r
    by (rule await_settlement_outcome [of env t sig a]) (auto simp: settlement_confirmed_def settlement_failed_def)
  have key: "escrow_key (ve_crypto env) x (ev_escrow_program_id ev) = Inr (ep_program ps)" for x using ok(3) by simp
  show ?thesis
    using assms(2) ok key
    by (auto simp: escrow_settle_payment_def escrow_payload_of_def and_then_def Let_def settlement_failed_def dest!: w
        split: sum.splits if_splits)
qed

definition collected :: "('c, 'm) chat_env \<Rightarrow> ('c, 'm) chat_io \<Rightarrow> paid_ticket \<Rightarrow> bool" where
  "collected env io t \<longleftrightarrow> pt_scheme t \<noteq> Scheme_Exact
     \<or> (\<exists>s. facilitator_settle (cx_verifier env) (cx_verifiers env) (cio_settle_at io) (pt_payload t) = Some (Inr s) \<and> sr_success s)"

text \<open>One spend row and one receipt of the amount \<open>b\<close>, each of which the database may lose.\<close>

definition bill_recorded :: "paid_ticket \<Rightarrow> u64 \<Rightarrow> string option \<Rightarrow> ('c, 'm) chat_world \<Rightarrow> ('c, 'm) chat_world \<Rightarrow> bool" where
  "bill_recorded t b path w w' \<longleftrightarrow>
     (\<exists>e. (uw_spend_logs w' = uw_spend_logs w \<or> uw_spend_logs w' = uw_spend_logs w @ [e])
        \<and> se_wallet e = pt_wallet t \<and> se_tx_signature e = pt_tx t \<and> se_cost_usdc e = usdc_of_atomic b
        \<and> se_estimated_cost_usdc e = Some (pt_estimate t) \<and> se_reserved e = br_reserved (pt_reservation t))
   \<and> (chw_receipts w' = chw_receipts w
      \<or> (\<exists>rt. chw_receipts w' = chw_receipts w @ [rt] \<and> path = Some (receipt_path (rt_id rt))
           \<and> rt_payer_wallet rt = pt_wallet t \<and> rt_tx_signature rt = pt_tx t
           \<and> rt_payment_scheme rt = as_accepted_str (pt_scheme t) \<and> rt_amount_paid rt = uint b))"

definition unrecorded :: "string option \<Rightarrow> ('c, 'm) chat_world \<Rightarrow> ('c, 'm) chat_world \<Rightarrow> bool" where
  "unrecorded path w w' \<longleftrightarrow> path = None \<and> uw_spend_logs w' = uw_spend_logs w \<and> chw_receipts w' = chw_receipts w"

lemma settle_exact_cases:
  assumes "settle_exact env io t w = Some (failed, w1)"
  shows "failed \<longleftrightarrow> \<not> collected env io t" "uw_spend_logs w1 = uw_spend_logs w" "chw_receipts w1 = chw_receipts w"
    "chw_claims w1 = chw_claims w"
    "chw_settle_calls w1 = chw_settle_calls w @ (if pt_scheme t = Scheme_Exact then [pt_payload t] else [])"
  using assms usage_only_chat [OF release_frame, of "cx_usage env" "cio_release io" "pt_reservation t"
      "w\<lparr>chw_settle_calls := chw_settle_calls w @ [pt_payload t]\<rparr>"]
  by (auto simp: settle_exact_def collected_def Let_def split: option.splits sum.splits if_splits)

lemma fire_claim_frame:
  "uw_spend_logs (fire_claim env t c w) = uw_spend_logs w" "chw_receipts (fire_claim env t c w) = chw_receipts w"
  "chw_settle_calls (fire_claim env t c w) = chw_settle_calls w"
  by (auto simp: fire_claim_def Let_def split: option.splits prod.splits)

lemma receipt_row_emitted:
  assumes "emit_chat_receipt env io req t b bd rows = (path, rows')"
  shows "rows' = rows \<or> (\<exists>rt. rows' = rows @ [rt] \<and> path = Some (receipt_path (rt_id rt)) \<and> rt_payer_wallet rt = pt_wallet t
     \<and> rt_tx_signature rt = pt_tx t \<and> rt_payment_scheme rt = as_accepted_str (pt_scheme t) \<and> rt_amount_paid rt = uint b)"
  using assms
  by (auto simp: emit_chat_receipt_def record_receipt_def insert_receipt_def receipt_row_of_def receipt_binds_of_def
      i64_try_from_def bind_eq_Some_conv split: option.splits if_splits)

lemma record_bill_recorded:
  fixes w :: "('c, 'm) chat_world"
  assumes "record_bill env io inp req m t prov toks b bd w = (path, w3)"
  shows "bill_recorded t b path w w3 \<and> chw_claims w3 = chw_claims w \<and> chw_settle_calls w3 = chw_settle_calls w"
proof -
  define e where "e = paid_entry inp req m t prov toks b"
  define w1 where "w1 = log_spend (cx_usage env) (cio_log io) e w"
  obtain logs where logs: "usage_only (w\<lparr>uw_spend_logs := logs\<rparr>) w1" "logs = uw_spend_logs w \<or> logs = uw_spend_logs w @ [e]"
    unfolding w1_def by (rule log_spend_frame)
  note f = usage_only_chat [OF logs(1)]
  obtain rows where r: "emit_chat_receipt env io req t b bd (chw_receipts w1) = (path, rows)" "w3 = w1\<lparr>chw_receipts := rows\<rparr>"
    using assms by (auto simp: record_bill_def Let_def w1_def e_def split: prod.splits)
  have e: "se_wallet e = pt_wallet t" "se_tx_signature e = pt_tx t" "se_cost_usdc e = usdc_of_atomic b"
    "se_estimated_cost_usdc e = Some (pt_estimate t)" "se_reserved e = br_reserved (pt_reservation t)"
    by (simp_all add: e_def paid_entry_def tags_of_def Let_def split: prod.splits)
  have "bill_recorded t b path w w3"
    unfolding bill_recorded_def using receipt_row_emitted [OF r(1)] logs(2) e f r(2) by (intro conjI exI [of _ e]) auto
  with f r(2) show ?thesis by simp
qed

lemma claim_within_deposit:
  assumes "admit_payment env io inp req m payload w = (Inr t, w1)"
  shows "chw_claims (fire_claim env t c v) = chw_claims v
    \<or> (\<exists>act ev p ps tx mm call. chw_claims (fire_claim env t c v) = chw_claims v @ [act] \<and> pt_scheme t = Scheme_Escrow
         \<and> deposit_ok_for (cx_verifier env) ev (cio_verify_at io) payload p ps tx mm call \<and> claim_value act \<le> dc_amount call)"
proof (cases "chw_claims (fire_claim env t c v) = chw_claims v")
  case False
  then obtain act amount where act: "chw_claims (fire_claim env t c v) = chw_claims v @ [act]" "act \<noteq> NoClaim"
    "fire_escrow_claim (ve_crypto (cx_verifier env)) (ve_b64_decode (cx_verifier env)) (ue_db (cx_usage env) \<noteq> None)
       (xc_has_claimer (cx_challenge env)) (pt_scheme t = Scheme_Escrow) (fst (escrow_ids (pp_payload (pt_payload t))))
       (snd (escrow_ids (pp_payload (pt_payload t)))) (pt_deposited t) amount (pt_client_amount t) = act"
    by (auto simp: fire_claim_def Let_def split: option.splits prod.splits if_splits)
  from fired_claim_bound [OF act(3,2)] have esc: "pt_scheme t = Scheme_Escrow"
    and le: "claim_value act \<le> (case pt_deposited t of Some d \<Rightarrow> d | None \<Rightarrow> pt_client_amount t)" by blast+
  have "\<exists>ev p ps tx mm call. deposit_ok_for (cx_verifier env) ev (cio_verify_at io) payload p ps tx mm call
      \<and> pt_deposited t = Some (dc_amount call)"
    using assms
  proof (rule admit_cases)
    fix tx w1' w2
    assume sch: "check_scheme payload = Inr (pt_scheme t)" "payment_tx (pp_payload payload) = Some tx"
      and sec: "secure_payment env io payload (pt_scheme t) (pt_reservation t) w2 = (Inr (pt_deposited t), w1)"
    from sec show ?thesis
    proof (cases rule: secure_cases)
      case (escrow s)
      have e: "pa_scheme (pp_accepted payload) = ''escrow''" using admitted_payload(2) [OF sch escrow(1)] by simp
      obtain ev p ps txx mm call sig tt where d: "payload_verifier (cx_verifiers env) payload = Inr (Escrow ev)"
        "deposit_ok_for (cx_verifier env) ev (cio_verify_at io) payload p ps txx mm call"
        "escrow_settle_payment (cx_verifier env) ev (cio_settle_at io) payload = Some (Inr s)"
        "cio_settle_at io \<le> tt" "confirmed_by_node (cx_verifier env) tt sig"
        by (rule settled_deposit [OF escrow(3,4) e]) (rule that)
      have "pt_deposited t = Some (dc_amount call)" using settled_deposit_amount [OF d(2,3)] escrow(5) by simp
      with d(2) show ?thesis by blast
    qed (simp add: esc)
  qed
  with act(1) esc le show ?thesis by fastforce
qed simp

text \<open>
  C6. The books of a delivered request. It is answered with a response. A spend row and a receipt are
  written only when the payment was collected, for the same bill, payer and transaction; an exact
  transfer whose broadcast fails after delivery leaves no trace in the books. An exact transfer
  is handed to settlement once, after delivery; a claim is fired only against an escrow
  deposit and for at most the verified amount of that deposit.
\<close>
theorem delivered_request_books:
  assumes "admit_payment env io inp req m payload w = (Inr t, w1)"
    and "cio_serve io w1 = (w2, Provider_Ok rep prov outcome)"
  shows "\<exists>path w'. serve_paid env io inp req m t w1 = (Chat_Response path, w')
    \<and> chw_settle_calls w' = chw_settle_calls w2 @ (if pt_scheme t = Scheme_Exact then [payload] else [])
    \<and> (case bill_of_arm env req t (scheme_realized_discount (pt_scheme t) outcome)
              (select_spend_log_arm (\<not> collected env io t)
                 (map_option (\<lambda>u. cap_usage_to_request_limits u req m) rep) (outcome \<noteq> None)) of
         None \<Rightarrow> unrecorded path w2 w'
       | Some (_, b, _) \<Rightarrow> collected env io t \<and> bill_recorded t b path w2 w')
    \<and> (chw_claims w' = chw_claims w2
       \<or> (\<exists>act ev p ps tx mm call. chw_claims w' = chw_claims w2 @ [act] \<and> pt_scheme t = Scheme_Escrow
            \<and> deposit_ok_for (cx_verifier env) ev (cio_verify_at io) payload p ps tx mm call
            \<and> claim_value act \<le> dc_amount call))"
proof -
  have pl: "pt_payload t = payload" using assms(1) by (rule admit_cases)
  obtain failed w3 where s: "settle_exact env io t w2 = Some (failed, w3)"
    using settle_exact_returns [of env io t w2] by auto
  note sf = settle_exact_cases [OF s]
  define c where "c = claim_amount env req m (map_option (\<lambda>u. cap_usage_to_request_limits u req m) rep)
    (scheme_realized_discount (pt_scheme t) outcome)"
  define w4 where "w4 = fire_claim env t c w3"
  note ff = fire_claim_frame [of env t c w3, folded w4_def] and cl = claim_within_deposit [OF assms(1), of c w3, folded w4_def]
  define bill where "bill = bill_of_arm env req t (scheme_realized_discount (pt_scheme t) outcome)
    (select_spend_log_arm failed (map_option (\<lambda>u. cap_usage_to_request_limits u req m) rep) (outcome \<noteq> None))"
  show ?thesis
  proof (cases bill)
    case None
    then have "serve_paid env io inp req m t w1 = (Chat_Response None, w4)"
      by (simp add: serve_paid_def assms(2) deliver_def s Let_def bill_def c_def w4_def)
    with None sf ff cl pl show ?thesis unfolding bill_def by (auto simp: unrecorded_def)
  next
    case (Some x)
    obtain toks b bd where x: "x = (toks, b, bd)" by (cases x) auto
    obtain path w' where rb: "record_bill env io inp req m t prov toks b bd w4 = (path, w')" by fastforce
    have "serve_paid env io inp req m t w1 = (Chat_Response path, w')"
      using Some x rb by (simp add: serve_paid_def assms(2) deliver_def s Let_def bill_def c_def w4_def)
    moreover have "\<not> failed" using Some by (auto simp: bill_def select_spend_log_arm_def bill_of_arm_def Let_def)
    moreover have "bill_recorded t b path w2 w'"
      using record_bill_recorded [OF rb] sf ff by (simp add: bill_recorded_def)
    ultimately show ?thesis
      using Some x sf ff cl pl record_bill_recorded [OF rb] unfolding bill_def by auto
  qed
qed

section \<open>A worked request\<close>

definition blind_lru :: "(unit, 'v) lru" where
  "blind_lru = \<lparr>lru_get = (\<lambda>c _. (None, c)), lru_put = (\<lambda>c _ _. c), lru_pop = (\<lambda>c _. c)\<rparr>"

definition demo_draw_env :: draw_env where
  "demo_draw_env = \<lparr>de_enabled = False, de_has_db = False, de_has_cache = False, de_crypto = ve_crypto demo_venv,
     de_ed25519 = ve_ed25519 demo_venv, de_b64 = ve_b64_decode demo_venv, de_fee = 0\<rparr>"

definition demo_chat_env :: "(unit, unit) chat_env" where
  "demo_chat_env = \<lparr>cx_usage = demo_usage_env, cx_verifier = demo_venv, cx_verifiers = demo_verifiers,
     cx_registry = demo_registry 4, cx_fee = 0,
     cx_challenge = \<lparr>xc_usdc_mint = replicate 32 (CHR 0x03), xc_recipient_wallet = replicate 32 (CHR 0x02),
       xc_escrow_program_id = None, xc_has_claimer = False\<rparr>,
     cx_serde = \<lparr>from_slice = (\<lambda>_. None), to_vec = (\<lambda>_. None)\<rparr>, cx_dev_bypass = False, cx_has_cache = True,
     cx_lru = blind_lru, cx_replay_lru = blind_lru, cx_free_cap = 12, cx_draw = demo_draw_env\<rparr>"

definition demo_draw_world :: draw_world where
  "demo_draw_world = \<lparr>channels = [], channel_vouchers = [], dw_redis = Map.empty, dw_slot_cache = None, dw_spend = [],
     dw_receipts = []\<rparr>"

definition demo_chat_world :: "(unit, unit) chat_world" where
  "demo_chat_world = \<lparr>uw_counters = (\<lambda>_. None), uw_cache = (\<lambda>_. None), uw_spend_logs = [],
     chw_replay = \<lparr>rc_redis = Map.empty, rc_fallback = ()\<rparr>, chw_replay_sets = (\<lambda>_. ()),
     chw_free_limiter = new_rate_limiter free_default, chw_free_window = \<lparr>gw_epoch_minute = 0, gw_count = 0\<rparr>,
     chw_settle_calls = [], chw_claims = [], chw_receipts = [], chw_draw = demo_draw_world\<rparr>"

definition demo_chat_io :: "provider_call \<Rightarrow> (unit, unit) chat_io" where
  "demo_chat_io r = \<lparr>cio_free_now = 0, cio_unix_secs = 0, cio_free_reply = (Rd_Ok, True), cio_replay = (Rd_Ok, 0),
     cio_check = demo_usage_io 0, cio_release = demo_usage_io 9, cio_log = demo_usage_io 9, cio_verify_at = 0,
     cio_settle_at = 10, cio_serve = (\<lambda>w. (w, r)), cio_receipt_id = ''r1'', cio_created_at = 9, cio_receipt_ok = True,
     cio_draw = \<lparr>io_slot = (0, None), io_token = ''t'', io_receipt_id = ''r1'', io_acquire = (Rd_Ok, 0), io_load = no_faults,
       io_require_tenant = (\<lambda>_. False), io_serve = (\<lambda>w. (w, Serve_AllFailed)), io_held = (Rd_Ok, 0),
       io_persist = no_faults, io_release = (Rd_Ok, 0)\<rparr>\<rparr>"

definition demo_chat_payment :: payment_payload where
  "demo_chat_payment = \<lparr>pp_x402_version = 2, pp_resource = \<lparr>res_url = ''/v1/chat/completions'', res_method = ''POST''\<rparr>,
     pp_accepted = \<lparr>pa_scheme = ''exact'', pa_network = SOLANA_NETWORK, pa_amount = ''4'',
       pa_asset = replicate 32 (CHR 0x03), pa_pay_to = replicate 32 (CHR 0x02), pa_max_timeout_seconds = 300,
       pa_escrow_program_id = None\<rparr>,
     pp_payload = Payload_Direct \<lparr>sp_transaction = ''fund''\<rparr>\<rparr>"

definition demo_chat_input :: "payment_payload option option \<Rightarrow> chat_input" where
  "demo_chat_input p = \<lparr>ci_request = demo_request, ci_dialect = OpenAi [], ci_resource_url = ''/v1/chat/completions'',
     ci_payment = p, ci_guard_blocks = False, ci_peer_ip = None, ci_request_id = None, ci_session_id = None,
     ci_tenant = None, ci_routing_tier = ''N/A'', ci_routing_score = f64_of_nat 0\<rparr>"

lemma demo_accept: "accept_request demo_chat_env (demo_chat_input p) = Inr (demo_model 4)"
  "clamp_max_tokens demo_request (demo_model 4) = demo_request"
proof -
  have "trim_text ''hi'' = ''hi''" by (rule trim_text_id) (simp_all add: printable_def)
  then show "accept_request demo_chat_env (demo_chat_input p) = Inr (demo_model 4)"
    by (simp add: accept_request_def demo_chat_input_def demo_chat_env_def check_content_def MAX_MESSAGES_def
        too_many_parts_def MAX_IMAGES_PER_REQUEST_def has_user_prompt_def check_vision_def demo_request_def and_then_def
        registry_get_def demo_registry_def Let_def)
  show "clamp_max_tokens demo_request (demo_model 4) = demo_request"
    by (simp add: clamp_max_tokens_def demo_request_def)
qed

text \<open>The price of the demo request: four atomic units.\<close>

lemma demo_cost:
  obtains cost where "quoted_cost demo_chat_env (demo_chat_input p) demo_request (demo_model 4) = Inr cost"
    "cb_total cost = micros_text 4" "usdc_atomic_amount_checked (cb_total cost) = Inr ''4''"
proof -
  let ?c = "completion_token_ceiling (rq_max_tokens demo_request) (demo_model 4)"
  have x: "exact_price 0 1 ?c (demo_model 4) = of_nat 40 / 10 ^ 7" unfolding demo_exact_price by simp
  obtain c q where c: "estimate_cost 0 (demo_registry 4) ''demo/m'' 1 ?c = Inr c" "cb_total c = micros_text q"
    "quote_for (of_nat 40 / 10 ^ 7) q"
    using estimate_cost_text [OF demo_simps(1) demo_sane, of 4 0 1 ?c] unfolding x by auto
  have q: "q = 4" using quote_for_unique [OF c(3)] by simp
  have four: "nat_text 4 = ''4''" by code_simp
  have "usdc_atomic_amount_checked (micros_text 4) = Inr (nat_text 4)" by (rule usdc_atomic_micros) simp
  then have "usdc_atomic_amount_checked (cb_total c) = Inr ''4''" using c(2) q four by simp
  moreover have "input_token_estimate sd demo_request (demo_model 4) d = 1" for sd d
    by (simp add: input_token_estimate_def demo_estimate) (simp add: demo_model_def)
  ultimately show ?thesis
    using that [of c] c(1,2) q by (simp add: quoted_cost_def demo_chat_env_def)
qed

lemma demo_price_f64: "parse_f64 (micros_text 4) = Some (F64_Fin False (4722366482869645 * 2 powi - 70))"
proof -
  have "f64_round False (4 / 10 ^ 6) = F64_Fin False (of_int 4722366482869645 * 2 powi - 70)"
    by (rule f64_round_evalI) (simp_all add: power_int_minus abs_less_iff field_simps)
  then show ?thesis by (simp add: parse_f64_micros)
qed

lemma demo_reserved:
  fixes w :: "(unit, unit) chat_world"
  assumes "uw_cache w = (\<lambda>_. None)" "uw_counters w = (\<lambda>_. None)" "cb_total cost = micros_text 4"
  obtains r w2 where "reserve_budget demo_chat_env (demo_chat_io res) (demo_chat_input p) wallet cost w = (Inr r, w2)"
proof -
  define est where "est = F64_Fin False (4722366482869645 * 2 powi - 70)"
  have plan: "budget_plan demo_usage_env (demo_usage_io 0) wallet None (uw_cache w)
    = Some [(wallet_base wallet @ '':h0'', f64_of_nat 10, 7200), (wallet_base wallet @ '':d0'', f64_of_nat 100, 86400)]"
    unfolding assms(1)
    by (simp add: budget_plan_def get_wallet_budget_config_def cached_text_def rd_command_def rd_get_def
      wallet_config_from_db_def team_plan_def tenant_plan_def get_team_for_wallet_def cache_put_def cache_del_def
      limited_windows_def window_keys_def List.map_filter_def DEFAULT_DAILY_LIMIT_USDC_def demo_usage_defs)
  have f: "f64_round False (4722366482869645 / 1180591620717411303424) = F64_Fin False (4722366482869645 / 1180591620717411303424)"
    using f64_round_evalI [of "- 70" "4722366482869645 * 2 powi - 70" 4722366482869645 False]
    by (simp add: power_int_minus)
  have fit: "fits demo_numbers est (\<lambda>_. 0) (k, f64_of_nat 10, s)" "fits demo_numbers est (\<lambda>_. 0) (k, f64_of_nat 100, s)" for k s
    by (simp_all add: est_def fits_def limit_10 limit_100 demo_numbers_def f64_of_nat_exact f64_of_rat_def f power_int_minus)
  have v: "(\<lambda>k. counter_value 0 k (uw_counters w)) = (\<lambda>_. 0)"
    by (simp add: assms(2) counter_value_def live_counter_def)
  obtain r w2 where "check_budget demo_usage_env (demo_usage_io 0) wallet est None w = (Inr r, w2)"
    using check_budget_outcome [OF demo_wires(2) [of 0] demo_up(1) demo_up(2) [of 0], where w = w
      and wallet = wallet and est = est and tenant = None] demo_wires(1) [of 0]
    by (auto simp: plan v fit plan_fits_def split: prod.splits sum.splits)
  moreover have fin: "f64_is_finite est" "\<not> f64_lt est (F64_Fin False 0)" by (simp_all add: est_def)
  moreover have price: "parse_f64 (cb_total cost) = Some est" by (simp only: assms(3) demo_price_f64 est_def)
  ultimately show ?thesis
    using that by (simp add: reserve_budget_def price fin demo_chat_env_def demo_chat_io_def demo_chat_input_def
        f64_of_nat_exact)
qed

lemma demo_admitted_payment:
  obtains t w1 where "admit_payment demo_chat_env (demo_chat_io res) (demo_chat_input p) demo_request (demo_model 4)
      demo_chat_payment demo_chat_world = (Inr t, w1)"
proof -
  obtain cost where c: "quoted_cost demo_chat_env (demo_chat_input p) demo_request (demo_model 4) = Inr cost"
    "cb_total cost = micros_text 4" "usdc_atomic_amount_checked (cb_total cost) = Inr ''4''" by (rule demo_cost)
  have four: "parse_u64 ''4'' = Some 4" by (simp add: parse_u64_def digit_value_def Let_def)
  have am: "check_amount demo_chat_env (demo_chat_input p) demo_request (demo_model 4) demo_chat_payment = Inr (cost, 4)"
    by (simp add: check_amount_def c(1,3) and_then_def ok_or_def four demo_chat_payment_def)
  have sch: "check_scheme demo_chat_payment = Inr Scheme_Exact"
    by (simp add: check_scheme_def demo_chat_payment_def from_accepted_str_def)
  define w1 where "w1 = snd (replay_verdict_of demo_chat_env (demo_chat_io res) ''fund'' demo_chat_world)"
  have rp: "replay_verdict_of demo_chat_env (demo_chat_io res) ''fund'' demo_chat_world = (Replay_Fresh, w1)"
    by (simp add: w1_def replay_verdict_of_def demo_chat_env_def demo_chat_io_def demo_chat_world_def redis_replay_check_def
        check_and_record_tx_def rd_command_def rd_set_nx_ex_def rd_get_def Let_def)
  have w1: "uw_cache w1 = (\<lambda>_. None)" "uw_counters w1 = (\<lambda>_. None)"
    using replay_frame(5,6) [OF rp] by (simp_all add: demo_chat_world_def)
  obtain wallet tx where info: "extract_payment_info (ve_crypto demo_venv) (ve_b64_decode demo_venv) demo_chat_payment
      = (wallet, tx)" by fastforce
  obtain r w2 where rs: "reserve_budget demo_chat_env (demo_chat_io res) (demo_chat_input p) wallet cost w1 = (Inr r, w2)"
    by (rule demo_reserved [OF w1 c(2)])
  have pay: "demo_payment demo_chat_payment" by (simp add: demo_payment_def demo_chat_payment_def)
  have ver: "facilitator_verify demo_venv demo_verifiers 0 demo_chat_payment
      = Inr \<lparr>vr_valid = True, vr_reason = None, vr_verified_amount = Some 5\<rparr>"
    by (rule demo_verify [OF pay, of 4]) (simp_all add: demo_chat_payment_def four)
  obtain est rv where r: "r = (est, rv)" by fastforce
  have "secure_payment demo_chat_env (demo_chat_io res) demo_chat_payment Scheme_Exact rv w2 = (Inr None, w2)"
    using ver by (simp add: secure_payment_def demo_chat_env_def demo_chat_io_def)
  with am sch rp rs info r show ?thesis
    using that
    by (simp add: admit_payment_def and_then_def demo_chat_payment_def) (simp add: demo_chat_env_def)
qed

abbreviation demo_usage :: provider_call where
  "demo_usage \<equiv> Provider_Ok (Some (usage_new 1 1)) None None"

lemma demo_quoted:
  obtains cost where "quoted_amount demo_chat_env (demo_chat_input p) demo_request (demo_model 4) = Inr (cost, ''4'')"
proof -
  obtain cost where "quoted_cost demo_chat_env (demo_chat_input p) demo_request (demo_model 4) = Inr cost"
    "usdc_atomic_amount_checked (cb_total cost) = Inr ''4''" by (rule demo_cost)
  then show ?thesis using that by (simp add: quoted_amount_def and_then_def)
qed

lemma demo_four: "parse_u64 ''4'' = Some 4" "\<not> is_free_estimate ''4''"
proof -
  show four: "parse_u64 ''4'' = Some 4" by (simp add: parse_u64_def digit_value_def Let_def)
  have "trim_text ''4'' = ''4''" by (rule trim_text_id) (simp_all add: printable_def)
  then show "\<not> is_free_estimate ''4''" by (simp add: is_free_estimate_def four)
qed

lemma demo_payload:
  "pp_payload demo_chat_payment = Payload_Direct \<lparr>sp_transaction = ''fund''\<rparr>" "pa_scheme (pp_accepted demo_chat_payment) = ''exact''"
  by (simp_all add: demo_chat_payment_def)

lemma demo_inner:
  "ci_request (demo_chat_input p) = demo_request" "ci_payment (demo_chat_input p) = p"
  "ci_resource_url (demo_chat_input p) = ''/v1/chat/completions''" "\<not> ci_guard_blocks (demo_chat_input p)"
  "\<not> cx_dev_bypass demo_chat_env" "cio_serve (demo_chat_io r) w = (w, r)"
  by (simp_all add: demo_chat_input_def demo_chat_env_def demo_chat_io_def)

lemma demo_served:
  obtains path w' where "chat_completions_inner demo_chat_env (demo_chat_io demo_usage)
    (demo_chat_input (Some (Some demo_chat_payment))) demo_chat_world = (Chat_Response path, w')"
proof -
  let ?inp = "demo_chat_input (Some (Some demo_chat_payment))"
  obtain cost where q: "quoted_amount demo_chat_env ?inp demo_request (demo_model 4) = Inr (cost, ''4'')"
    by (rule demo_quoted)
  obtain t w1 where t: "admit_payment demo_chat_env (demo_chat_io demo_usage) ?inp demo_request (demo_model 4)
      demo_chat_payment demo_chat_world = (Inr t, w1)" by (rule demo_admitted_payment)
  obtain path where p: "fst (deliver demo_chat_env (demo_chat_io demo_usage) ?inp demo_request (demo_model 4) t
      (Some (usage_new 1 1)) None None w1) = Chat_Response path" by (rule deliver_responds)
  have acc: "check_accepted (cx_challenge demo_chat_env) ''/v1/chat/completions'' demo_chat_payment = Inr ()"
    by (simp add: check_accepted_def eq_ignore_ascii_case_def demo_chat_env_def demo_chat_payment_def)
  have "fst (chat_pay demo_chat_env (demo_chat_io demo_usage) ?inp demo_request (demo_model 4) ''4''
      demo_chat_payment demo_chat_world) = Chat_Response path"
    using t p acc by (simp add: chat_pay_def demo_inner serve_paid_def demo_payload)
  then have "fst (chat_completions_inner demo_chat_env (demo_chat_io demo_usage) ?inp demo_chat_world) = Chat_Response path"
    using q by (simp add: chat_completions_inner_def demo_accept demo_inner demo_four)
  then show ?thesis using that by (metis prod.collapse)
qed

theorem served_request_is_paid_witness:
  "paid_for demo_chat_env (demo_chat_io demo_usage) demo_chat_payment 4"
proof -
  let ?inp = "demo_chat_input (Some (Some demo_chat_payment))"
  obtain path w' where run: "chat_completions_inner demo_chat_env (demo_chat_io demo_usage) ?inp demo_chat_world
    = (Chat_Response path, w')" by (rule demo_served)
  obtain cost where q: "quoted_amount demo_chat_env ?inp demo_request (demo_model 4) = Inr (cost, ''4'')"
    by (rule demo_quoted)
  show ?thesis
    using served_request_is_paid [OF run] q by (auto simp: demo_inner demo_accept demo_four)
qed

theorem challenge_is_payable_witness:
  "\<exists>pq w'. chat_completions_inner demo_chat_env (demo_chat_io demo_usage) (demo_chat_input None) demo_chat_world
      = (Chat_Challenge pq, w') \<and> w' = demo_chat_world \<and> pa_amount (hd (pq_accepts pq)) = ''4''
    \<and> (\<exists>q. q \<noteq> 0 \<and> pa_amount (hd (pq_accepts pq)) = nat_text (unat (q :: u64)))"
proof -
  obtain cost where q: "quoted_amount demo_chat_env (demo_chat_input None) demo_request (demo_model 4) = Inr (cost, ''4'')"
    by (rule demo_quoted)
  define pq where "pq = build_payment_challenge (cx_challenge demo_chat_env) ''4'' cost ''/v1/chat/completions''"
  have run: "chat_completions_inner demo_chat_env (demo_chat_io demo_usage) (demo_chat_input None) demo_chat_world
      = (Chat_Challenge pq, demo_chat_world)"
    using q by (simp add: chat_completions_inner_def demo_accept demo_inner demo_four pq_def)
  have a: "hd (pq_accepts pq) \<in> set (pq_accepts pq)" "pa_amount (hd (pq_accepts pq)) = ''4''"
    by (simp_all add: pq_def build_payment_challenge_def Let_def)
  show ?thesis
    using challenge_is_payable [OF run demo_accept(1) a(1)] run a(2) by (auto simp: Let_def)
qed

theorem undelivered_request_takes_nothing_witness:
  "\<exists>t w1 e w'. admit_payment demo_chat_env (demo_chat_io All_Providers_Failed) (demo_chat_input (Some (Some demo_chat_payment)))
      demo_request (demo_model 4) demo_chat_payment demo_chat_world = (Inr t, w1)
    \<and> serve_paid demo_chat_env (demo_chat_io All_Providers_Failed) (demo_chat_input (Some (Some demo_chat_payment)))
      demo_request (demo_model 4) t w1 = (Chat_Rejected e, w')
    \<and> estimate_booked demo_chat_env (demo_chat_io All_Providers_Failed) t demo_chat_world w1
    \<and> estimate_taken_back demo_chat_env (demo_chat_io All_Providers_Failed) t w1 w' \<and> chw_settle_calls w' = chw_settle_calls w1"
proof -
  let ?io = "demo_chat_io All_Providers_Failed" and ?inp = "demo_chat_input (Some (Some demo_chat_payment))"
  obtain t w1 where t: "admit_payment demo_chat_env ?io ?inp demo_request (demo_model 4)
      demo_chat_payment demo_chat_world = (Inr t, w1)" by (rule demo_admitted_payment)
  have pd: "periods_ok (ue_periods (cx_usage demo_chat_env)) (ui_now (cio_check ?io))"
    and ok: "ui_connect (cio_release ?io)" "counter_wires_ok (cio_release ?io)"
    using demo_wires demo_up by (simp_all add: demo_chat_env_def demo_chat_io_def)
  show ?thesis
    using undelivered_request_takes_nothing [OF t demo_inner(6) _ pd] t ok by auto
qed

theorem delivered_request_books_witness:
  "\<exists>t w1 path w'. serve_paid demo_chat_env (demo_chat_io demo_usage) (demo_chat_input (Some (Some demo_chat_payment)))
      demo_request (demo_model 4) t w1 = (Chat_Response path, w') \<and> collected demo_chat_env (demo_chat_io demo_usage) t
    \<and> chw_settle_calls w' = [demo_chat_payment]"
proof -
  let ?io = "demo_chat_io demo_usage" and ?inp = "demo_chat_input (Some (Some demo_chat_payment))"
  obtain t w1 where t: "admit_payment demo_chat_env ?io ?inp demo_request (demo_model 4)
      demo_chat_payment demo_chat_world = (Inr t, w1)" by (rule demo_admitted_payment)
  have sch: "pt_scheme t = Scheme_Exact" and pl: "pt_payload t = demo_chat_payment"
    using t by (auto elim!: admit_cases simp: check_scheme_def demo_chat_payment_def from_accepted_str_def)
  have w1: "chw_settle_calls w1 = []"
    using admit_frame [OF t] sch by (simp add: demo_chat_world_def)
  have "demo_payment demo_chat_payment" by (simp add: demo_payment_def demo_chat_payment_def)
  then have "collected demo_chat_env ?io t"
    using demo_settle pl by (simp add: collected_def demo_chat_env_def demo_chat_io_def settlement_confirmed_def)
  with delivered_request_books [OF t demo_inner(6)] w1 sch show ?thesis by auto
qed

end
