(* ===== verification/Provider_Health.thy ===== *)
theory Provider_Health
  imports Model_Registry
begin

text \<open>
  The circuit breakers of the model providers (\<open>gateway/src/providers/health.rs\<close>): one record per
  provider and one per model, each with its recent outcomes, a smoothed latency and a state. The
  instants of the monotonic clock are integers in milliseconds; an operation reads the clock once,
  under its write lock.
\<close>

section \<open>State\<close>

datatype circuit_state = Circuit_Closed | Circuit_Open | Circuit_HalfOpen

record circuit_breaker_config =
  bc_failure_threshold :: f64
  bc_cooldown :: int
  bc_window :: int
  bc_min_requests :: u32

definition default_breaker_config :: circuit_breaker_config where
  "default_breaker_config =
     \<lparr>bc_failure_threshold = F64_Fin False (1 / 2), bc_cooldown = 30000, bc_window = 60000, bc_min_requests = 5\<rparr>"

record provider_health =
  ph_outcomes :: "(int \<times> bool \<times> u64) list" \<comment> \<open>instant, success, latency\<close>
  ph_state :: circuit_state
  ph_opened_at :: "int option"
  ph_ewma_latency_ms :: f64
  ph_ewma_alpha :: f64
  ph_probe_in_flight :: bool

definition new_provider_health :: provider_health where
  "new_provider_health = \<lparr>ph_outcomes = [], ph_state = Circuit_Closed, ph_opened_at = None,
     ph_ewma_latency_ms = F64_Fin False 0, ph_ewma_alpha = f64_round False (2 / 10), ph_probe_in_flight = False\<rparr>"

record health_tracker =
  ht_providers :: "string \<Rightarrow> provider_health option"
  ht_models :: "string \<Rightarrow> provider_health option"

definition new_health_tracker :: health_tracker where
  "new_health_tracker = \<lparr>ht_providers = Map.empty, ht_models = Map.empty\<rparr>"

definition model_key :: "string \<Rightarrow> string \<Rightarrow> string" where
  "model_key provider model = provider @ '':'' @ model"

section \<open>One breaker\<close>

definition cleanup_old_outcomes :: "circuit_breaker_config \<Rightarrow> int \<Rightarrow> provider_health \<Rightarrow> provider_health" where
  "cleanup_old_outcomes cfg now h =
     h\<lparr>ph_outcomes := filter (\<lambda>(t, _). now - bc_window cfg * 2 \<le> t) (ph_outcomes h)\<rparr>"

definition recent_outcomes :: "circuit_breaker_config \<Rightarrow> int \<Rightarrow> provider_health \<Rightarrow> (int \<times> bool \<times> u64) list" where
  "recent_outcomes cfg now h = filter (\<lambda>(t, _). now - bc_window cfg \<le> t) (ph_outcomes h)"

definition failures_in :: "(int \<times> bool \<times> u64) list \<Rightarrow> nat" where
  "failures_in xs = length (filter (\<lambda>(_, success, _). \<not> success) xs)"

definition evaluate_circuit :: "circuit_breaker_config \<Rightarrow> int \<Rightarrow> provider_health \<Rightarrow> provider_health" where
  "evaluate_circuit cfg now h =
    (let recent = recent_outcomes cfg now h in
     if (of_nat (length recent) :: u32) < bc_min_requests cfg then h
     else
       let failure_rate = f64_div (f64_of_nat (failures_in recent)) (f64_of_nat (length recent)) in
       if f64_le (bc_failure_threshold cfg) failure_rate \<and> ph_state h = Circuit_Closed
       then h\<lparr>ph_state := Circuit_Open, ph_opened_at := Some now\<rparr>
       else h)"

definition push_outcome :: "int \<Rightarrow> bool \<Rightarrow> u64 \<Rightarrow> provider_health \<Rightarrow> provider_health" where
  "push_outcome now success latency_ms h =
     h\<lparr>ph_outcomes := ph_outcomes h @ [(now, success, latency_ms)],
       ph_ewma_latency_ms := f64_add (f64_mul (ph_ewma_alpha h) (f64_of_nat (unat latency_ms)))
         (f64_mul (f64_sub (F64_Fin False 1) (ph_ewma_alpha h)) (ph_ewma_latency_ms h))\<rparr>"

definition note_success :: "circuit_breaker_config \<Rightarrow> int \<Rightarrow> u64 \<Rightarrow> provider_health \<Rightarrow> provider_health" where
  "note_success cfg now latency_ms h =
    (let h1 = push_outcome now True latency_ms h;
         h2 = (if ph_state h1 = Circuit_HalfOpen then h1\<lparr>ph_state := Circuit_Closed, ph_opened_at := None\<rparr> else h1)
     in cleanup_old_outcomes cfg now (h2\<lparr>ph_probe_in_flight := False\<rparr>))"

definition note_failure :: "circuit_breaker_config \<Rightarrow> int \<Rightarrow> u64 \<Rightarrow> provider_health \<Rightarrow> provider_health" where
  "note_failure cfg now latency_ms h =
    (let h1 = push_outcome now False latency_ms h in
     if ph_state h1 = Circuit_HalfOpen
     then h1\<lparr>ph_state := Circuit_Open, ph_opened_at := Some now, ph_probe_in_flight := False\<rparr>
     else evaluate_circuit cfg now (cleanup_old_outcomes cfg now (h1\<lparr>ph_probe_in_flight := False\<rparr>)))"

definition elapsed :: "int \<Rightarrow> int \<Rightarrow> int" where
  "elapsed now t = max 0 (now - t)"

definition claim_slot :: "circuit_breaker_config \<Rightarrow> int \<Rightarrow> provider_health \<Rightarrow> bool \<times> provider_health" where
  "claim_slot cfg now h =
    (case ph_state h of
       Circuit_Closed \<Rightarrow> (True, h)
     | Circuit_HalfOpen \<Rightarrow>
         if ph_probe_in_flight h then (False, h) else (True, h\<lparr>ph_probe_in_flight := True\<rparr>)
     | Circuit_Open \<Rightarrow>
         (case ph_opened_at h of
            None \<Rightarrow> (False, h)
          | Some opened_at \<Rightarrow>
              if bc_cooldown cfg \<le> elapsed now opened_at
              then (True, h\<lparr>ph_state := Circuit_HalfOpen, ph_probe_in_flight := True\<rparr>)
              else (False, h)))"

section \<open>The tracker\<close>

definition entry_or_new :: "(string \<Rightarrow> provider_health option) \<Rightarrow> string \<Rightarrow> provider_health" where
  "entry_or_new m k = (case m k of Some h \<Rightarrow> h | None \<Rightarrow> new_provider_health)"

definition record_provider_success :: "circuit_breaker_config \<Rightarrow> int \<Rightarrow> string \<Rightarrow> u64 \<Rightarrow> health_tracker \<Rightarrow> health_tracker" where
  "record_provider_success cfg now provider latency_ms tr =
     tr\<lparr>ht_providers := (ht_providers tr)(provider \<mapsto>
       note_success cfg now latency_ms (entry_or_new (ht_providers tr) provider))\<rparr>"

definition record_provider_failure :: "circuit_breaker_config \<Rightarrow> int \<Rightarrow> string \<Rightarrow> u64 \<Rightarrow> health_tracker \<Rightarrow> health_tracker" where
  "record_provider_failure cfg now provider latency_ms tr =
     tr\<lparr>ht_providers := (ht_providers tr)(provider \<mapsto>
       note_failure cfg now latency_ms (entry_or_new (ht_providers tr) provider))\<rparr>"

definition is_available :: "circuit_breaker_config \<Rightarrow> int \<Rightarrow> string \<Rightarrow> health_tracker \<Rightarrow> bool \<times> health_tracker" where
  "is_available cfg now provider tr =
    (case ht_providers tr provider of
       None \<Rightarrow> (True, tr)
     | Some h \<Rightarrow> let (ok, h') = claim_slot cfg now h in (ok, tr\<lparr>ht_providers := (ht_providers tr)(provider \<mapsto> h')\<rparr>))"

definition get_state :: "string \<Rightarrow> health_tracker \<Rightarrow> circuit_state" where
  "get_state provider tr = (case ht_providers tr provider of Some h \<Rightarrow> ph_state h | None \<Rightarrow> Circuit_Closed)"

definition get_latency_ms :: "string \<Rightarrow> health_tracker \<Rightarrow> f64" where
  "get_latency_ms provider tr =
    (case ht_providers tr provider of Some h \<Rightarrow> ph_ewma_latency_ms h | None \<Rightarrow> F64_Fin False 0)"

definition get_failure_rate :: "circuit_breaker_config \<Rightarrow> int \<Rightarrow> string \<Rightarrow> health_tracker \<Rightarrow> f64" where
  "get_failure_rate cfg now provider tr =
    (case ht_providers tr provider of
       None \<Rightarrow> F64_Fin False 0
     | Some h \<Rightarrow>
       let recent = recent_outcomes cfg now h in
       if recent = [] then F64_Fin False 0
       else f64_div (f64_of_nat (failures_in recent)) (f64_of_nat (length recent)))"

text \<open>The model breakers, which pass their verdict on to the provider's.\<close>

definition record_model_success ::
  "circuit_breaker_config \<Rightarrow> int \<Rightarrow> int \<Rightarrow> string \<Rightarrow> string \<Rightarrow> u64 \<Rightarrow> health_tracker \<Rightarrow> health_tracker" where
  "record_model_success cfg now later provider model latency_ms tr =
    (let key = model_key provider model in
     record_provider_success cfg later provider latency_ms
       (tr\<lparr>ht_models := (ht_models tr)(key \<mapsto> note_success cfg now latency_ms (entry_or_new (ht_models tr) key))\<rparr>))"

definition record_model_failure ::
  "circuit_breaker_config \<Rightarrow> int \<Rightarrow> int \<Rightarrow> string \<Rightarrow> string \<Rightarrow> u64 \<Rightarrow> health_tracker \<Rightarrow> health_tracker" where
  "record_model_failure cfg now later provider model latency_ms tr =
    (let key = model_key provider model in
     record_provider_failure cfg later provider latency_ms
       (tr\<lparr>ht_models := (ht_models tr)(key \<mapsto> note_failure cfg now latency_ms (entry_or_new (ht_models tr) key))\<rparr>))"

definition is_model_available ::
  "circuit_breaker_config \<Rightarrow> int \<Rightarrow> string \<Rightarrow> string \<Rightarrow> health_tracker \<Rightarrow> bool \<times> health_tracker" where
  "is_model_available cfg now provider model tr =
    (let key = model_key provider model in
     case ht_models tr key of
       None \<Rightarrow> (True, tr)
     | Some h \<Rightarrow> let (ok, h') = claim_slot cfg now h in (ok, tr\<lparr>ht_models := (ht_models tr)(key \<mapsto> h')\<rparr>))"

definition get_model_state :: "string \<Rightarrow> string \<Rightarrow> health_tracker \<Rightarrow> circuit_state" where
  "get_model_state provider model tr =
    (case ht_models tr (model_key provider model) of Some h \<Rightarrow> ph_state h | None \<Rightarrow> Circuit_Closed)"

section \<open>The state machine\<close>

text \<open>What concurrent requests do to the tracker, at any instant.\<close>

datatype health_op =
    Provider_Succeeded int string u64
  | Provider_Failed int string u64
  | Provider_Asked int string
  | Model_Succeeded int int string string u64
  | Model_Failed int int string string u64
  | Model_Asked int string string

fun apply_op :: "circuit_breaker_config \<Rightarrow> health_op \<Rightarrow> health_tracker \<Rightarrow> health_tracker" where
  "apply_op cfg (Provider_Succeeded now p l) tr = record_provider_success cfg now p l tr"
| "apply_op cfg (Provider_Failed now p l) tr = record_provider_failure cfg now p l tr"
| "apply_op cfg (Provider_Asked now p) tr = snd (is_available cfg now p tr)"
| "apply_op cfg (Model_Succeeded now later p m l) tr = record_model_success cfg now later p m l tr"
| "apply_op cfg (Model_Failed now later p m l) tr = record_model_failure cfg now later p m l tr"
| "apply_op cfg (Model_Asked now p m) tr = snd (is_model_available cfg now p m tr)"

fun reports_provider :: "string \<Rightarrow> health_op \<Rightarrow> bool" where
  "reports_provider p (Provider_Succeeded _ q _) \<longleftrightarrow> p = q"
| "reports_provider p (Provider_Failed _ q _) \<longleftrightarrow> p = q"
| "reports_provider p (Model_Succeeded _ _ q _ _) \<longleftrightarrow> p = q"
| "reports_provider p (Model_Failed _ _ q _ _) \<longleftrightarrow> p = q"
| "reports_provider p _ \<longleftrightarrow> False"

inductive health_step :: "circuit_breaker_config \<Rightarrow> health_tracker \<Rightarrow> health_tracker \<Rightarrow> bool" for cfg where
  health_op: "health_step cfg tr (apply_op cfg x tr)"

inductive_cases health_stepE: "health_step cfg tr tr'"

text \<open>A breaker remembers when it opened exactly while it is not closed, and a probe is in flight
  exactly in the half-open state.\<close>

definition breaker_inv :: "provider_health \<Rightarrow> bool" where
  "breaker_inv h \<longleftrightarrow> (ph_opened_at h = None \<longleftrightarrow> ph_state h = Circuit_Closed)
     \<and> (ph_probe_in_flight h \<longleftrightarrow> ph_state h = Circuit_HalfOpen)"

definition tracker_inv :: "health_tracker \<Rightarrow> bool" where
  "tracker_inv tr \<longleftrightarrow> (\<forall>h \<in> ran (ht_providers tr). breaker_inv h) \<and> (\<forall>h \<in> ran (ht_models tr). breaker_inv h)"

lemma breaker_inv_new [simp]: "breaker_inv new_provider_health"
  by (simp add: breaker_inv_def new_provider_health_def)

lemma breaker_inv_success: "breaker_inv h \<Longrightarrow> breaker_inv (note_success cfg now l h)"
  by (cases "ph_state h") (auto simp: breaker_inv_def note_success_def push_outcome_def cleanup_old_outcomes_def Let_def)

lemma breaker_inv_failure: "breaker_inv h \<Longrightarrow> breaker_inv (note_failure cfg now l h)"
  by (cases "ph_state h")
    (auto simp: breaker_inv_def note_failure_def push_outcome_def cleanup_old_outcomes_def evaluate_circuit_def Let_def)

lemma breaker_inv_claim: "breaker_inv h \<Longrightarrow> breaker_inv (snd (claim_slot cfg now h))"
  by (auto simp: breaker_inv_def claim_slot_def split: circuit_state.split option.split)

lemma ran_upd: "x \<in> ran (m(k \<mapsto> y)) \<Longrightarrow> x = y \<or> x \<in> ran m"
  by (auto simp: ran_def split: if_splits)

lemma entry_inv: "(\<forall>h \<in> ran m. breaker_inv h) \<Longrightarrow> breaker_inv (entry_or_new m k)"
  by (auto simp: entry_or_new_def ranI split: option.split)

lemmas tracker_defs = record_provider_success_def record_provider_failure_def record_model_success_def
  record_model_failure_def is_available_def is_model_available_def

lemma tracker_inv_op: "tracker_inv tr \<Longrightarrow> tracker_inv (apply_op cfg x tr)"
  by (cases x)
    (auto simp: tracker_inv_def tracker_defs Let_def split_beta ranI dest!: ran_upd
      intro!: breaker_inv_success breaker_inv_failure breaker_inv_claim entry_inv split: option.splits)

interpretation breakers: inv_system "\<lambda>tr. tr = new_health_tracker" "health_step cfg" tracker_inv for cfg
proof unfold_locales
  show "tracker_inv tr'" if "tracker_inv tr" "health_step cfg tr tr'" for tr tr'
    using that(2,1) by (elim health_stepE) (simp add: tracker_inv_op)
qed (simp add: tracker_inv_def new_health_tracker_def)

lemma reachable_breaker:
  assumes "reach (\<lambda>tr. tr = new_health_tracker) (health_step cfg) tr" "ht_providers tr p = Some h"
  shows "breaker_inv h"
  using breakers.reach_inv [OF assms(1)] assms(2) by (auto simp: tracker_inv_def ranI)

section \<open>Probes\<close>

definition probing :: "string \<Rightarrow> health_tracker \<Rightarrow> bool" where
  "probing p tr \<longleftrightarrow> (\<exists>h. ht_providers tr p = Some h \<and> ph_state h = Circuit_HalfOpen \<and> ph_probe_in_flight h)"

lemma probing_not_available: "probing p tr \<Longrightarrow> is_available cfg now p tr = (False, tr)"
  by (auto simp: probing_def is_available_def claim_slot_def fun_upd_idem)

lemma probing_op: "probing p tr \<Longrightarrow> \<not> reports_provider p x \<Longrightarrow> probing p (apply_op cfg x tr)"
proof (cases x)
  case (Provider_Asked now q)
  assume "probing p tr"
  then show ?thesis
    by (cases "q = p") (auto simp: Provider_Asked probing_not_available, auto simp: probing_def is_available_def split_beta split: option.splits)
qed (auto simp: probing_def tracker_defs Let_def split_beta split: option.splits)

lemma probing_ops:
  "probing p tr \<Longrightarrow> list_all (\<lambda>x. \<not> reports_provider p x) xs \<Longrightarrow> probing p (fold (apply_op cfg) xs tr)"
  by (induction xs arbitrary: tr) (auto simp: probing_op)

lemma granted_probe:
  assumes "is_available cfg now p tr = (True, tr1)" "get_state p tr \<noteq> Circuit_Closed"
    and "\<And>h. ht_providers tr p = Some h \<Longrightarrow> breaker_inv h"
  shows "probing p tr1 \<and> (\<exists>h t. ht_providers tr p = Some h \<and> ph_state h = Circuit_Open \<and> ph_opened_at h = Some t
    \<and> bc_cooldown cfg \<le> elapsed now t)"
  using assms
  by (auto simp: is_available_def get_state_def claim_slot_def breaker_inv_def probing_def
      split: option.splits circuit_state.splits if_splits)

text \<open>
  C36. Half-open means one probe. When the tracker lets a request through to a provider whose circuit
  is not closed, the circuit was open and its cooldown had passed; from then on every other request
  is turned away, whatever happens to other providers and models, until the outcome of a
  request to this provider is reported.
\<close>
theorem one_probe_at_a_time:
  assumes "reach (\<lambda>tr. tr = new_health_tracker) (health_step cfg) tr"
    and "is_available cfg now p tr = (True, tr1)" "get_state p tr \<noteq> Circuit_Closed"
    and "list_all (\<lambda>x. \<not> reports_provider p x) xs"
  shows "(\<exists>h t. ht_providers tr p = Some h \<and> ph_state h = Circuit_Open \<and> ph_opened_at h = Some t
      \<and> bc_cooldown cfg \<le> elapsed now t)
    \<and> \<not> fst (is_available cfg later p (fold (apply_op cfg) xs tr1))"
proof -
  have "probing p tr1 \<and> (\<exists>h t. ht_providers tr p = Some h \<and> ph_state h = Circuit_Open \<and> ph_opened_at h = Some t
    \<and> bc_cooldown cfg \<le> elapsed now t)"
    by (rule granted_probe [OF assms(2,3)]) (rule reachable_breaker [OF assms(1)])
  with probing_ops [of p tr1 xs cfg] assms(4) show ?thesis by (simp add: probing_not_available)
qed

text \<open>
  An open circuit recovers. It turns requests away during its cooldown and admits one afterwards;
  a success of that request closes the circuit and a failure restarts the cooldown.
\<close>
theorem open_circuit_recovers:
  assumes "reach (\<lambda>tr. tr = new_health_tracker) (health_step cfg) tr" "get_state p tr = Circuit_Open" "0 < bc_cooldown cfg"
  shows "\<exists>t. \<forall>now. fst (is_available cfg now p tr) = (t + bc_cooldown cfg \<le> now)
    \<and> (let tr1 = snd (is_available cfg now p tr) in t + bc_cooldown cfg \<le> now \<longrightarrow>
         get_state p (record_provider_success cfg later p l tr1) = Circuit_Closed
       \<and> get_state p (record_provider_failure cfg later p l tr1) = Circuit_Open
       \<and> (\<forall>again. fst (is_available cfg again p (record_provider_failure cfg later p l tr1)) = (later + bc_cooldown cfg \<le> again)))"
proof -
  from assms(2) obtain h where h: "ht_providers tr p = Some h" "ph_state h = Circuit_Open"
    by (auto simp: get_state_def split: option.splits)
  with reachable_breaker [OF assms(1) h(1)] obtain t where t: "ph_opened_at h = Some t"
    by (auto simp: breaker_inv_def)
  show ?thesis
    using h t assms(3)
    by (intro exI [of _ t])
      (auto simp: is_available_def claim_slot_def elapsed_def get_state_def record_provider_success_def
        record_provider_failure_def entry_or_new_def note_success_def note_failure_def push_outcome_def
        cleanup_old_outcomes_def Let_def max_def)
qed

section \<open>The threshold\<close>

lemma round_mag_half:
  assumes "0 < l" "f \<le> l" "l < 2 ^ 32"
  shows "1 / 2 \<le> round_mag (of_nat f / of_nat l) \<longleftrightarrow> l \<le> 2 * f"
proof -
  define q :: rat where "q = of_nat f / of_nat l"
  have q: "0 \<le> q" "q \<le> 1" using assms by (simp_all add: q_def)
  have small: "(1 / 2 ^ 1075 :: rat) \<le> 1 / 2 ^ 53" by (intro divide_left_mono power_increasing) simp_all
  have err: "\<bar>round_mag q - q\<bar> \<le> 1 / 2 ^ 53"
    using round_mag_error(2) [OF q(1)] divide_right_mono [OF q(2), of "2 ^ 53"] small by (auto simp: max_def split: if_splits)
  have l: "(of_nat l :: rat) < 2 ^ 32" using assms(3) by (metis of_nat_less_iff of_nat_numeral of_nat_power)
  have dist: "round_mag q \<le> q + 1 / 2 ^ 53" "q \<le> round_mag q + 1 / 2 ^ 53"
    using err by (simp_all only: abs_le_iff) linarith+
  from l have inv: "1 / 2 ^ 53 < 1 / (2 * of_nat l :: rat)" using assms(1) by (simp add: field_simps)
  consider "2 * f < l" | "2 * f = l" | "l < 2 * f" by linarith
  then show ?thesis
  proof cases
    case 1
    then have "(of_nat (2 * f + 1) :: rat) \<le> of_nat l" by (simp only: of_nat_le_iff)
    then have "q \<le> 1 / 2 - 1 / (2 * of_nat l)" using assms(1) by (simp add: q_def field_simps)
    with dist inv have "round_mag q < 1 / 2" by linarith
    with 1 show ?thesis by (simp add: q_def)
  next
    case 2
    then have "q = 1 / 2" using assms(1) by (auto simp: q_def field_simps)
    moreover have "round_mag (1 / 2) = 1 / 2"
    proof -
      have "f64_round False (1 / 2) = F64_Fin False (of_int (2 ^ 52) * 2 powi - 53)"
        by (rule f64_round_evalI) (simp_all add: power_int_minus)
      then show ?thesis by (simp add: f64_round_def power_int_minus split: if_splits)
    qed
    ultimately have "round_mag q = 1 / 2" by (simp only:)
    then show ?thesis using 2 by (simp flip: q_def)
  next
    case 3
    then have "(of_nat (l + 1) :: rat) \<le> of_nat (2 * f)" by (simp only: of_nat_le_iff)
    then have "(of_nat (l + 1) :: rat) / of_nat (2 * l) \<le> of_nat (2 * f) / of_nat (2 * l)" by (rule divide_right_mono) simp
    then have "1 / 2 + 1 / (2 * of_nat l) \<le> q" using assms(1) by (simp add: q_def add_divide_distrib)
    with dist inv have "1 / 2 \<le> round_mag q" by linarith
    with 3 show ?thesis by (simp add: q_def)
  qed
qed

lemma failure_rate_half:
  assumes "0 < l" "f \<le> l" "l < 2 ^ 32"
  shows "f64_le (F64_Fin False (1 / 2)) (f64_div (f64_of_nat f) (f64_of_nat l)) \<longleftrightarrow> l \<le> 2 * f"
proof -
  have q: "(of_nat f / of_nat l :: rat) \<le> 1" using assms by simp
  have "\<bar>round_mag (of_nat f / of_nat l) - of_nat f / of_nat l\<bar> \<le> max (of_nat f / of_nat l / 2 ^ 53) (1 / 2 ^ 1075)"
    by (rule round_mag_error) simp
  moreover have "max (of_nat f / of_nat l / 2 ^ 53) (1 / 2 ^ 1075 :: rat) \<le> 1"
    using divide_right_mono [OF q, of "2 ^ 53"] by simp
  ultimately have "round_mag (of_nat f / of_nat l) \<le> 2" using q by (simp only: abs_le_iff) linarith
  then have "f64_round False (of_nat f / of_nat l) = F64_Fin False (round_mag (of_nat f / of_nat l))"
    by (simp add: f64_round_def)
  moreover have "f64_of_nat f = F64_Fin False (of_nat f)" "f64_of_nat l = F64_Fin False (of_nat l)"
    using assms by (simp_all add: f64_of_nat_exact)
  ultimately show ?thesis using assms(1) round_mag_half [OF assms] by simp
qed

lemma note_failure_opens:
  assumes "ph_state h = Circuit_Closed" "bc_failure_threshold cfg = F64_Fin False (1 / 2)"
    and "0 < bc_min_requests cfg" "0 \<le> bc_window cfg" "length (ph_outcomes h) + 1 < 2 ^ 32"
  shows "ph_state (note_failure cfg now l h) = Circuit_Open \<longleftrightarrow>
    (let recent = recent_outcomes cfg now h @ [(now, False, l)] in
       unat (bc_min_requests cfg) \<le> length recent \<and> length recent \<le> 2 * failures_in recent)"
proof -
  define recent where "recent = recent_outcomes cfg now h @ [(now, False, l)]"
  have r: "recent_outcomes cfg now (cleanup_old_outcomes cfg now ((push_outcome now False l h)\<lparr>ph_probe_in_flight := False\<rparr>)) = recent"
    using assms(4) by (auto simp: recent_outcomes_def cleanup_old_outcomes_def push_outcome_def recent_def intro!: filter_cong)
  have n: "length recent < 2 ^ 32" "0 < length recent"
    using assms(5) le_less_trans [OF length_filter_le] by (auto simp: recent_def recent_outcomes_def less_Suc_eq_le)
  have "(of_nat (length recent) :: u32) < bc_min_requests cfg \<longleftrightarrow> length recent < unat (bc_min_requests cfg)"
    using n(1) by (simp add: word_less_nat_alt unat_of_nat take_bit_nat_eq_self)
  moreover have "f64_le (F64_Fin False (1 / 2)) (f64_div (f64_of_nat (failures_in recent)) (f64_of_nat (length recent)))
      \<longleftrightarrow> length recent \<le> 2 * failures_in recent"
    using n by (intro failure_rate_half) (simp_all add: failures_in_def)
  ultimately show ?thesis
    using assms(1,2) r by (auto simp: note_failure_def evaluate_circuit_def push_outcome_def cleanup_old_outcomes_def Let_def recent_def [symmetric])
qed

text \<open>
  C40. When a circuit opens. With the default threshold, and unless exactly half of the recent
  requests failed, a failed request opens a closed circuit exactly when, counting itself, the last
  window has at least the minimum number of requests and more than half of them failed: the
  rounding of the quotient never matters. (At exactly half the documentation keeps the circuit closed
  and the code opens it, as \<open>note_failure_opens\<close> shows.)
\<close>
theorem failure_opens_iff_majority_failed:
  fixes h :: provider_health
  defines "recent cfg now l \<equiv> recent_outcomes cfg now h @ [(now, False, l)]"
  assumes "ph_state h = Circuit_Closed" "bc_failure_threshold cfg = F64_Fin False (1 / 2)"
    and "0 < bc_min_requests cfg" "0 \<le> bc_window cfg" "length (ph_outcomes h) + 1 < 2 ^ 32"
    and "length (recent cfg now l) \<noteq> 2 * failures_in (recent cfg now l)"
  shows "ph_state (note_failure cfg now l h) = Circuit_Open \<longleftrightarrow>
    unat (bc_min_requests cfg) \<le> length (recent cfg now l)
    \<and> length (recent cfg now l) < 2 * failures_in (recent cfg now l)"
  using note_failure_opens [OF assms(2-6), of now l] assms(7) by (auto simp: recent_def Let_def)

section \<open>A worked breaker\<close>

definition demo_breaker :: circuit_breaker_config where
  "demo_breaker = default_breaker_config\<lparr>bc_min_requests := 1\<rparr>"

definition demo_tracker :: health_tracker where
  "demo_tracker = apply_op demo_breaker (Provider_Failed 0 ''p'' 7) new_health_tracker"

lemma demo_breaker_simps:
  "bc_failure_threshold demo_breaker = F64_Fin False (1 / 2)" "bc_min_requests demo_breaker = 1"
  "bc_window demo_breaker = 60000" "bc_cooldown demo_breaker = 30000"
  by (simp_all add: demo_breaker_def default_breaker_config_def)

lemma demo_opens: "ph_state (note_failure demo_breaker 0 7 new_provider_health) = Circuit_Open"
  by (subst note_failure_opens)
    (simp_all add: demo_breaker_simps new_provider_health_def recent_outcomes_def failures_in_def)

lemma demo_tracker_open:
  "reach (\<lambda>tr. tr = new_health_tracker) (health_step demo_breaker) demo_tracker" "get_state ''p'' demo_tracker = Circuit_Open"
  "ht_providers demo_tracker ''p'' = Some (note_failure demo_breaker 0 7 new_provider_health)"
proof -
  show "reach (\<lambda>tr. tr = new_health_tracker) (health_step demo_breaker) demo_tracker"
    unfolding demo_tracker_def by (rule reach_step, rule reach_init, rule refl, rule health_op)
  show e: "ht_providers demo_tracker ''p'' = Some (note_failure demo_breaker 0 7 new_provider_health)"
    by (simp add: demo_tracker_def record_provider_failure_def entry_or_new_def new_health_tracker_def)
  show "get_state ''p'' demo_tracker = Circuit_Open" by (simp add: get_state_def e demo_opens)
qed

lemma demo_opened_at: "ph_opened_at (note_failure demo_breaker 0 7 new_provider_health) = Some 0"
  using demo_opens
  by (auto simp: note_failure_def evaluate_circuit_def push_outcome_def cleanup_old_outcomes_def new_provider_health_def Let_def
      split: if_splits)

theorem one_probe_at_a_time_witness:
  "\<exists>tr1. is_available demo_breaker 30000 ''p'' demo_tracker = (True, tr1)
    \<and> \<not> fst (is_available demo_breaker 99999 ''p''
          (fold (apply_op demo_breaker) [Provider_Asked 40000 ''p'', Provider_Succeeded 41000 ''q'' 3] tr1))"
proof -
  obtain tr1 where tr1: "is_available demo_breaker 30000 ''p'' demo_tracker = (True, tr1)"
    by (simp add: is_available_def demo_tracker_open demo_opens demo_opened_at claim_slot_def elapsed_def demo_breaker_simps)
  show ?thesis
    using one_probe_at_a_time [OF demo_tracker_open(1) tr1, of "[Provider_Asked 40000 ''p'', Provider_Succeeded 41000 ''q'' 3]" 99999]
      tr1 demo_tracker_open(2) by simp
qed

theorem open_circuit_recovers_witness:
  "\<exists>t. \<forall>now. fst (is_available demo_breaker now ''p'' demo_tracker) = (t + 30000 \<le> now)"
  using open_circuit_recovers [OF demo_tracker_open(1,2), of 0 0] by (auto simp: demo_breaker_simps)

theorem failure_opens_iff_majority_failed_witness:
  "ph_state (note_failure demo_breaker 0 7 new_provider_health) = Circuit_Open"
  by (subst failure_opens_iff_majority_failed)
    (simp_all add: demo_breaker_simps new_provider_health_def recent_outcomes_def failures_in_def)

end
