(* ===== verification/Provider_Fallback.thy ===== *)
theory Provider_Fallback
  imports Provider_Health Chat_Payment
begin

text \<open>
  The call of an upstream model (\<open>gateway/src/providers/fallback.rs\<close>,
  \<open>gateway/src/routes/chat/provider.rs\<close>): response caches, the chain of candidate models, the
  circuit breakers in front of them and the outcome the chat handler bills. What an upstream answers
  and how long it takes is an input per candidate; so is what other requests do to the breakers
  before each check and during the call.
\<close>

section \<open>Candidates\<close>

definition candidate_rejects_images :: "model_registry \<Rightarrow> string \<Rightarrow> string \<Rightarrow> bool" where
  "candidate_rejects_images registry provider model_id =
    (let key = provider @ ''/'' @ model_id in
     case (case registry_get registry key of Some m \<Rightarrow> Some m | None \<Rightarrow> registry_get registry model_id) of
       Some entry \<Rightarrow> \<not> mr_supports_vision entry
     | None \<Rightarrow> True)"

definition candidate_is_free :: "model_registry \<Rightarrow> string \<Rightarrow> bool" where
  "candidate_is_free registry model_id =
    (case registry_get registry model_id of
       Some m \<Rightarrow> f64_le (mr_input_cost_per_million m) (F64_Fin False 0) \<and> f64_le (mr_output_cost_per_million m) (F64_Fin False 0)
     | None \<Rightarrow> False)"

definition FALLBACK_TABLE :: "((string \<times> string) \<times> (string \<times> string) list) list" where
  "FALLBACK_TABLE = [
   ((''anthropic'', ''claude-opus-4-8''),
     [(''anthropic'', ''claude-opus-4-8''),
      (''anthropic'', ''claude-opus-4-7''),
      (''anthropic'', ''claude-opus-4-6''),
      (''openai'', ''gpt-5.2''),
      (''google'', ''gemini-3.1-pro''),
      (''openai'', ''o3'')]),
   ((''anthropic'', ''claude-opus-4-7''),
     [(''anthropic'', ''claude-opus-4-7''),
      (''anthropic'', ''claude-opus-4-6''),
      (''openai'', ''gpt-5.2''),
      (''google'', ''gemini-3.1-pro''),
      (''openai'', ''o3'')]),
   ((''anthropic'', ''claude-opus-4-6''),
     [(''anthropic'', ''claude-opus-4-6''),
      (''openai'', ''gpt-5.2''),
      (''google'', ''gemini-3.1-pro''),
      (''openai'', ''o3'')]),
   ((''openai'', ''gpt-5.2''),
     [(''openai'', ''gpt-5.2''),
      (''anthropic'', ''claude-opus-4-6''),
      (''google'', ''gemini-3.1-pro'')]),
   ((''google'', ''gemini-3.1-pro''),
     [(''google'', ''gemini-3.1-pro''),
      (''anthropic'', ''claude-opus-4-6''),
      (''openai'', ''gpt-5.2'')]),
   ((''anthropic'', ''claude-sonnet-4-6''),
     [(''anthropic'', ''claude-sonnet-4-6''),
      (''openai'', ''gpt-4.1''),
      (''google'', ''gemini-3.1-pro''),
      (''xai'', ''grok-3'')]),
   ((''openai'', ''gpt-4o''),
     [(''openai'', ''gpt-4o''),
      (''anthropic'', ''claude-sonnet-4-6''),
      (''google'', ''gemini-3.1-pro''),
      (''xai'', ''grok-3'')]),
   ((''openai'', ''gpt-4.1''),
     [(''openai'', ''gpt-4.1''),
      (''anthropic'', ''claude-sonnet-4-6''),
      (''google'', ''gemini-3.1-pro'')]),
   ((''xai'', ''grok-3''),
     [(''xai'', ''grok-3''),
      (''anthropic'', ''claude-sonnet-4-6''),
      (''openai'', ''gpt-4o'')]),
   ((''openai'', ''gpt-4o-mini''),
     [(''openai'', ''gpt-4o-mini''),
      (''anthropic'', ''claude-haiku-4-5-20251001''),
      (''google'', ''gemini-2.5-flash''),
      (''deepseek'', ''deepseek-chat'')]),
   ((''openai'', ''gpt-4.1-mini''),
     [(''openai'', ''gpt-4.1-mini''),
      (''anthropic'', ''claude-haiku-4-5-20251001''),
      (''google'', ''gemini-2.5-flash'')]),
   ((''openai'', ''gpt-4.1-nano''),
     [(''openai'', ''gpt-4.1-nano''),
      (''google'', ''gemini-2.5-flash-lite'')]),
   ((''anthropic'', ''claude-haiku-4-5-20251001''),
     [(''anthropic'', ''claude-haiku-4-5-20251001''),
      (''openai'', ''gpt-4o-mini''),
      (''google'', ''gemini-2.5-flash''),
      (''deepseek'', ''deepseek-chat'')]),
   ((''google'', ''gemini-2.5-flash''),
     [(''google'', ''gemini-2.5-flash''),
      (''openai'', ''gpt-4o-mini''),
      (''anthropic'', ''claude-haiku-4-5-20251001''),
      (''deepseek'', ''deepseek-chat'')]),
   ((''deepseek'', ''deepseek-chat''),
     [(''deepseek'', ''deepseek-chat''),
      (''openai'', ''gpt-4o-mini''),
      (''google'', ''gemini-2.5-flash'')]),
   ((''openai'', ''o3''),
     [(''openai'', ''o3''),
      (''anthropic'', ''claude-opus-4-6''),
      (''deepseek'', ''deepseek-reasoner'')]),
   ((''deepseek'', ''deepseek-reasoner''),
     [(''deepseek'', ''deepseek-reasoner''),
      (''openai'', ''o3-mini''),
      (''xai'', ''grok-3-mini'')])]"

definition FREE_NVIDIA_MODELS :: "string list" where
  "FREE_NVIDIA_MODELS =
    [''nvidia/nvidia/llama-3.1-nemotron-nano-8b-v1'',
     ''nvidia/nvidia/llama-3.1-nemotron-ultra-253b-v1'',
     ''nvidia/nvidia/llama-3.3-nemotron-super-49b-v1'',
     ''nvidia/nvidia/nemotron-3-nano-30b-a3b'',
     ''nvidia/nvidia/nemotron-3-super-120b-a12b'',
     ''nvidia/nvidia/nemotron-3-ultra-550b-a55b'',
     ''nvidia/nvidia/nemotron-mini-4b-instruct'',
     ''nvidia/meta/llama-4-maverick-17b-128e-instruct'',
     ''nvidia/meta/llama-4-scout-17b-16e-instruct'',
     ''nvidia/meta/llama-3.3-70b-instruct'',
     ''nvidia/qwen/qwen3-coder-480b-a35b-instruct'',
     ''nvidia/deepseek-ai/deepseek-r1'',
     ''nvidia/mistralai/mistral-large-3-675b-instruct-2512'',
     ''nvidia/minimaxai/minimax-m2.7'',
     ''nvidia/minimaxai/minimax-m3'']"

definition model_fallback_chain :: "string \<Rightarrow> string \<Rightarrow> (string \<times> string) list" where
  "model_fallback_chain provider model =
    (case map_of FALLBACK_TABLE (provider, model) of
       Some chain \<Rightarrow> chain
     | None \<Rightarrow>
       if provider = ''openai'' \<and> model \<in> {''o3-mini'', ''o4-mini''}
         then [(provider, model), (''deepseek'', ''deepseek-reasoner''), (''xai'', ''grok-3-mini'')]
       else if provider = ''nvidia'' \<and> model \<in> set FREE_NVIDIA_MODELS
         then [(provider, model), (''google'', ''gemini-3.1-flash-lite'')]
       else [(provider, model)])"

definition fallback_chain :: "string \<Rightarrow> string list" where
  "fallback_chain primary =
    (if primary = ''openai'' then [''openai'', ''anthropic'', ''google'', ''deepseek'']
     else if primary = ''anthropic'' then [''anthropic'', ''openai'', ''google'']
     else if primary = ''google'' then [''google'', ''openai'', ''anthropic'']
     else if primary = ''deepseek'' then [''deepseek'', ''openai'']
     else if primary = ''xai'' then [''xai'', ''openai'', ''anthropic'']
     else [primary])"

section \<open>One request along a chain\<close>

definition FAILOVER_FAST_ATTEMPT :: nat where "FAILOVER_FAST_ATTEMPT = 10000"

record 'a attempt_io =
  at_peers :: "nat \<Rightarrow> health_tracker \<Rightarrow> health_tracker" \<comment> \<open>before the model check, before the provider check, during the call\<close>
  at_model_at :: int
  at_provider_at :: int
  at_start :: int
  at_duration :: nat
  at_reply :: "(string, 'a) result"

record fallback_world =
  fw_health :: health_tracker
  fw_calls :: "(string \<times> string) list"

record fallback_env =
  fe_breaker :: circuit_breaker_config
  fe_configured :: "string \<Rightarrow> bool"
  fe_registry :: model_registry

text \<open>The time a call takes and its outcome, under the short budget of a free model that is not last.\<close>

definition run_call :: "bool \<Rightarrow> 'a attempt_io \<Rightarrow> nat \<times> (string, 'a) result" where
  "run_call fast_fail a =
    (if fast_fail \<and> FAILOVER_FAST_ATTEMPT < at_duration a
     then (FAILOVER_FAST_ATTEMPT, Inl ''free model exceeded the fast-failover budget; trying next'')
     else (at_duration a, at_reply a))"

definition eligible :: "fallback_env \<Rightarrow> bool \<Rightarrow> string \<times> string \<Rightarrow> bool" where
  "eligible env images c \<longleftrightarrow> fe_configured env (fst c)
     \<and> \<not> (images \<and> candidate_rejects_images (fe_registry env) (fst c) (snd c))"

text \<open>The checks of both breakers for one candidate.\<close>

definition admit_candidate ::
  "fallback_env \<Rightarrow> 'a attempt_io \<Rightarrow> string \<Rightarrow> string \<Rightarrow> health_tracker \<Rightarrow> bool \<times> health_tracker" where
  "admit_candidate env a prov model_id h =
    (case is_model_available (fe_breaker env) (at_model_at a) prov model_id (at_peers a 0 h) of
       (False, h1) \<Rightarrow> (False, h1)
     | (True, h1) \<Rightarrow> is_available (fe_breaker env) (at_provider_at a) prov (at_peers a 1 h1))"

fun try_chain ::
  "fallback_env \<Rightarrow> (nat \<Rightarrow> string \<Rightarrow> bool) \<Rightarrow> bool \<Rightarrow> (nat \<Rightarrow> 'a attempt_io) \<Rightarrow> nat \<Rightarrow> (string \<times> string) list
     \<Rightarrow> string option \<Rightarrow> fallback_world \<Rightarrow> (string option, 'a \<times> string \<times> string) result \<times> fallback_world" where
  "try_chain env fast images io idx [] last_error w = (Inl last_error, w)"
| "try_chain env fast images io idx ((prov, model_id) # rest) last_error w =
    (if \<not> eligible env images (prov, model_id) then try_chain env fast images io (Suc idx) rest last_error w
     else
       let a = io idx; (ok, h) = admit_candidate env a prov model_id (fw_health w) in
       if \<not> ok then try_chain env fast images io (Suc idx) rest last_error (w\<lparr>fw_health := h\<rparr>)
       else
         let (took, outcome) = run_call (fast idx model_id) a;
             h1 = at_peers a 2 h; fin = at_start a + int took; calls = fw_calls w @ [(prov, model_id)] in
         case outcome of
           Inr resp \<Rightarrow> (Inr (resp, prov, model_id),
             \<lparr>fw_health = record_model_success (fe_breaker env) fin fin prov model_id (of_nat took) h1, fw_calls = calls\<rparr>)
         | Inl e \<Rightarrow> try_chain env fast images io (Suc idx) rest (Some e)
             \<lparr>fw_health = record_model_failure (fe_breaker env) fin fin prov model_id (of_nat took) h1, fw_calls = calls\<rparr>)"

record 'a fallback_result =
  fr_data :: 'a
  fr_original_model :: string
  fr_actual_model :: string
  fr_actual_provider :: string
  fr_was_fallback :: bool

definition request_has_images :: "chat_request \<Rightarrow> bool" where
  "request_has_images req = list_ex (\<lambda>m. image_urls (cm_content m) \<noteq> []) (rq_messages req)"

definition chain_outcome ::
  "string \<Rightarrow> (string \<Rightarrow> string \<Rightarrow> bool) \<Rightarrow> string \<Rightarrow> (string option, 'a \<times> string \<times> string) result
     \<Rightarrow> (string, 'a fallback_result) result" where
  "chain_outcome original was_fallback none_available r =
    (case r of
       Inr (d, prov, model_id) \<Rightarrow> Inr \<lparr>fr_data = d, fr_original_model = original, fr_actual_model = model_id,
         fr_actual_provider = prov, fr_was_fallback = was_fallback prov model_id\<rparr>
     | Inl (Some e) \<Rightarrow> Inl e
     | Inl None \<Rightarrow> Inl none_available)"

definition chat_with_model_fallback ::
  "fallback_env \<Rightarrow> (nat \<Rightarrow> 'a attempt_io) \<Rightarrow> string \<Rightarrow> string \<Rightarrow> chat_request \<Rightarrow> fallback_world
     \<Rightarrow> (string, 'a fallback_result) result \<times> fallback_world" where
  "chat_with_model_fallback env io primary_provider primary_model req w =
    (let chain = model_fallback_chain primary_provider primary_model;
         images = request_has_images req;
         (r, w') = try_chain env (\<lambda>idx m. idx + 1 < length chain \<and> candidate_is_free (fe_registry env) m) images io 0 chain None w
     in (chain_outcome primary_model (\<lambda>p m. p \<noteq> primary_provider \<or> m \<noteq> primary_model)
           (if images then ''no vision-capable model available in fallback chain for image request''
            else ''no available models in fallback chain'') r, w'))"

definition stream_with_model_fallback ::
  "fallback_env \<Rightarrow> (nat \<Rightarrow> 'a attempt_io) \<Rightarrow> string \<Rightarrow> string \<Rightarrow> chat_request \<Rightarrow> fallback_world
     \<Rightarrow> (string, 'a fallback_result) result \<times> fallback_world" where
  "stream_with_model_fallback env io primary_provider primary_model req w =
    (let chain = model_fallback_chain primary_provider primary_model;
         images = request_has_images req;
         (r, w') = try_chain env (\<lambda>idx m. idx + 1 < length chain \<and> candidate_is_free (fe_registry env) m) images io 0 chain None w
     in (chain_outcome primary_model (\<lambda>p m. p \<noteq> primary_provider \<or> m \<noteq> primary_model)
           (if images then ''no vision-capable model available in fallback chain for image stream''
            else ''no available models for streaming in fallback chain'') r, w'))"

definition chat_with_chain ::
  "fallback_env \<Rightarrow> (nat \<Rightarrow> 'a attempt_io) \<Rightarrow> (string \<times> string) list \<Rightarrow> string \<Rightarrow> chat_request \<Rightarrow> fallback_world
     \<Rightarrow> (string, 'a fallback_result) result \<times> fallback_world" where
  "chat_with_chain env io chain original_model req w =
    (let images = request_has_images req; (r, w') = try_chain env (\<lambda>_ _. False) images io 0 chain None w
     in (chain_outcome original_model (\<lambda>_ m. m \<noteq> original_model)
           (if images then ''no vision-capable model available in chain for image request''
            else ''no available models in chain'') r, w'))"

definition stream_with_chain ::
  "fallback_env \<Rightarrow> (nat \<Rightarrow> 'a attempt_io) \<Rightarrow> (string \<times> string) list \<Rightarrow> string \<Rightarrow> chat_request \<Rightarrow> fallback_world
     \<Rightarrow> (string, 'a fallback_result) result \<times> fallback_world" where
  "stream_with_chain env io chain original_model req w =
    (let images = request_has_images req; (r, w') = try_chain env (\<lambda>_ _. False) images io 0 chain None w
     in (chain_outcome original_model (\<lambda>_ m. m \<noteq> original_model)
           (if images then ''no vision-capable model available in chain for image stream''
            else ''no available models for streaming in chain'') r, w'))"

text \<open>The older entry points that know provider names only.\<close>

fun try_names ::
  "fallback_env \<Rightarrow> (nat \<Rightarrow> 'a attempt_io) \<Rightarrow> nat \<Rightarrow> string list \<Rightarrow> string option \<Rightarrow> health_tracker
     \<Rightarrow> (string option, 'a) result \<times> health_tracker" where
  "try_names env io idx [] last_error h = (Inl last_error, h)"
| "try_names env io idx (name # rest) last_error h =
    (if \<not> fe_configured env name then try_names env io (Suc idx) rest last_error h
     else
       let a = io idx; (ok, h1) = is_available (fe_breaker env) (at_provider_at a) name (at_peers a 1 h) in
       if \<not> ok then try_names env io (Suc idx) rest last_error h1
       else
         let h2 = at_peers a 2 h1; fin = at_start a + int (at_duration a) in
         case at_reply a of
           Inr resp \<Rightarrow> (Inr resp, record_provider_success (fe_breaker env) fin name (of_nat (at_duration a)) h2)
         | Inl e \<Rightarrow> try_names env io (Suc idx) rest (Some e)
             (record_provider_failure (fe_breaker env) fin name (of_nat (at_duration a)) h2))"

definition by_names ::
  "string \<Rightarrow> fallback_env \<Rightarrow> (nat \<Rightarrow> 'a attempt_io) \<Rightarrow> string list \<Rightarrow> chat_request \<Rightarrow> health_tracker
     \<Rightarrow> (string, 'a) result \<times> health_tracker" where
  "by_names none_available env io names req h =
    (if request_has_images req then (Inl ''image content requires a vision-capability-checked path'', h)
     else case try_names env io 0 names None h of
       (Inr resp, h') \<Rightarrow> (Inr resp, h')
     | (Inl (Some e), h') \<Rightarrow> (Inl e, h')
     | (Inl None, h') \<Rightarrow> (Inl none_available, h'))"

definition chat_with_fallback ::
  "fallback_env \<Rightarrow> (nat \<Rightarrow> 'a attempt_io) \<Rightarrow> string list \<Rightarrow> chat_request \<Rightarrow> health_tracker
     \<Rightarrow> (string, 'a) result \<times> health_tracker" where
  "chat_with_fallback = by_names ''no available providers''"

definition stream_with_fallback ::
  "fallback_env \<Rightarrow> (nat \<Rightarrow> 'a attempt_io) \<Rightarrow> string list \<Rightarrow> chat_request \<Rightarrow> health_tracker
     \<Rightarrow> (string, 'a) result \<times> health_tracker" where
  "stream_with_fallback = by_names ''no available providers for streaming''"

section \<open>The provider call\<close>

fun split_on :: "char \<Rightarrow> string \<Rightarrow> string list" where
  "split_on c [] = [[]]"
| "split_on c (x # xs) = (if x = c then [] # split_on c xs
     else case split_on c xs of [] \<Rightarrow> [[x]] | y # ys \<Rightarrow> (x # y) # ys)"

definition parse_preference_entry :: "string \<Rightarrow> (string \<times> string) option" where
  "parse_preference_entry entry =
     Option.bind (split_once CHR ''/'' (trim_text entry)) (\<lambda>(p, m).
       let provider = trim_text p; model = trim_text m in
       if provider = [] \<or> model = [] then None else Some (provider, model))"

definition parse_fallback_preference :: "string \<Rightarrow> (string \<times> string) list" where
  "parse_fallback_preference header = List.map_filter parse_preference_entry (split_on CHR '','' header)"

definition build_fallback_chain :: "string \<Rightarrow> string \<Rightarrow> string option \<Rightarrow> (string \<times> string) list option" where
  "build_fallback_chain provider_name model fallback_pref = map_option (\<lambda>pref.
     fold (\<lambda>entry chain. if entry \<in> set chain then chain else chain @ [entry])
       (parse_fallback_preference pref) [(provider_name, model)]) fallback_pref"

record provider_io =
  pv_exact :: "usage_counts option option" \<comment> \<open>the usage of a response in the exact cache\<close>
  pv_semantic :: "usage_counts option option" \<comment> \<open>the usage of a similar response\<close>
  pv_hit_price_percent :: u8
  pv_fallback_pref :: "string option"
  pv_serialises :: bool
  pv_attempts :: "nat \<Rightarrow> usage_counts option attempt_io"

definition execute_streaming_call ::
  "fallback_env \<Rightarrow> provider_io \<Rightarrow> string \<Rightarrow> chat_request \<Rightarrow> fallback_world \<Rightarrow> provider_call \<times> fallback_world" where
  "execute_streaming_call env io provider_name req w =
    (case (case build_fallback_chain provider_name (rq_model req) (pv_fallback_pref io) of
             Some chain \<Rightarrow> stream_with_chain env (pv_attempts io) chain (rq_model req) req w
           | None \<Rightarrow> stream_with_model_fallback env (pv_attempts io) provider_name (rq_model req) req w) of
       (Inr _, w') \<Rightarrow> (Provider_Ok None None None, w')
     | (Inl _, w') \<Rightarrow> (All_Providers_Failed, w'))"

definition execute_non_streaming_call ::
  "fallback_env \<Rightarrow> provider_io \<Rightarrow> string \<Rightarrow> chat_request \<Rightarrow> fallback_world \<Rightarrow> provider_call \<times> fallback_world" where
  "execute_non_streaming_call env io provider_name req w =
    (case (case build_fallback_chain provider_name (rq_model req) (pv_fallback_pref io) of
             Some chain \<Rightarrow> chat_with_chain env (pv_attempts io) chain (rq_model req) req w
           | None \<Rightarrow> chat_with_model_fallback env (pv_attempts io) provider_name (rq_model req) req w) of
       (Inr res, w') \<Rightarrow>
         if \<not> pv_serialises io then (Provider_Internal ''response serialisation'', w')
         else (Provider_Ok (fr_data res) (Some (fr_actual_provider res)) None, w')
     | (Inl _, w') \<Rightarrow> (All_Providers_Failed, w'))"

definition upstream_call ::
  "fallback_env \<Rightarrow> provider_io \<Rightarrow> string \<Rightarrow> chat_request \<Rightarrow> fallback_world \<Rightarrow> provider_call \<times> fallback_world" where
  "upstream_call env io provider_name req w =
    (if rq_stream req then execute_streaming_call env io provider_name req w
     else execute_non_streaming_call env io provider_name req w)"

definition execute_provider_call ::
  "u8 \<Rightarrow> fallback_env \<Rightarrow> provider_io \<Rightarrow> model_registration \<Rightarrow> chat_request \<Rightarrow> fallback_world
     \<Rightarrow> provider_call \<times> fallback_world" where
  "execute_provider_call fee env io model_info req w =
    (let provider_name = mr_provider model_info;
         served = (\<lambda>usage outcome. if pv_serialises io then Provider_Ok usage None outcome
                   else Provider_Internal ''response serialisation'') in
     if rq_stream req then upstream_call env io provider_name req w
     else case pv_exact io of
       Some usage \<Rightarrow> (served usage None, w)
     | None \<Rightarrow>
       case pv_semantic io of
         None \<Rightarrow> upstream_call env io provider_name req w
       | Some cached \<Rightarrow>
         let capped_usage = map_option (\<lambda>u. cap_usage_to_request_limits u req model_info) cached in
         case semantic_hit_full_atomic fee capped_usage (fe_registry env) (rq_model req) req model_info of
           None \<Rightarrow> upstream_call env io provider_name req w
         | Some full_atomic \<Rightarrow> (served capped_usage (Some (semantic_discount_new full_atomic (pv_hit_price_percent io))), w))"

section \<open>What a chain does\<close>

text \<open>
  The specification of a walk, position by position. The fate of a candidate depends on the state of
  the breakers when its turn comes: it may not be eligible, a breaker may refuse it, the call may
  fail, or it serves. \<open>tracker_at j\<close> is the state of the breakers when position \<open>j\<close> is reached.
\<close>

datatype 'a fate = Fate_Ineligible | Fate_Refused | Fate_Failed string | Fate_Served 'a

fun called :: "'a fate \<Rightarrow> bool" where
  "called Fate_Ineligible = False"
| "called Fate_Refused = False"
| "called (Fate_Failed _) = True"
| "called (Fate_Served _) = True"

fun serves :: "'a fate \<Rightarrow> bool" where
  "serves (Fate_Served _) = True"
| "serves _ = False"

fun failure_of :: "'a fate \<Rightarrow> string option" where
  "failure_of (Fate_Failed e) = Some e"
| "failure_of _ = None"

definition candidate_fate ::
  "fallback_env \<Rightarrow> bool \<Rightarrow> bool \<Rightarrow> 'a attempt_io \<Rightarrow> string \<times> string \<Rightarrow> health_tracker \<Rightarrow> 'a fate" where
  "candidate_fate env fast images a c h =
    (if \<not> eligible env images c then Fate_Ineligible
     else if \<not> fst (admit_candidate env a (fst c) (snd c) h) then Fate_Refused
     else case snd (run_call fast a) of Inl e \<Rightarrow> Fate_Failed e | Inr d \<Rightarrow> Fate_Served d)"

definition tracker_after ::
  "fallback_env \<Rightarrow> bool \<Rightarrow> bool \<Rightarrow> 'a attempt_io \<Rightarrow> string \<times> string \<Rightarrow> health_tracker \<Rightarrow> health_tracker" where
  "tracker_after env fast images a c h =
    (let h1 = snd (admit_candidate env a (fst c) (snd c) h); took = fst (run_call fast a);
         fin = at_start a + int took in
     case candidate_fate env fast images a c h of
       Fate_Ineligible \<Rightarrow> h
     | Fate_Refused \<Rightarrow> h1
     | Fate_Failed _ \<Rightarrow> record_model_failure (fe_breaker env) fin fin (fst c) (snd c) (of_nat took) (at_peers a 2 h1)
     | Fate_Served _ \<Rightarrow> record_model_success (fe_breaker env) fin fin (fst c) (snd c) (of_nat took) (at_peers a 2 h1))"

primrec tracker_at ::
  "fallback_env \<Rightarrow> (nat \<Rightarrow> string \<Rightarrow> bool) \<Rightarrow> bool \<Rightarrow> (nat \<Rightarrow> 'a attempt_io) \<Rightarrow> (string \<times> string) list \<Rightarrow> health_tracker
     \<Rightarrow> nat \<Rightarrow> health_tracker" where
  "tracker_at env fast images io chain h 0 = h"
| "tracker_at env fast images io chain h (Suc j) =
     tracker_after env (fast j (snd (chain ! j))) images (io j) (chain ! j) (tracker_at env fast images io chain h j)"

definition fate_at ::
  "fallback_env \<Rightarrow> (nat \<Rightarrow> string \<Rightarrow> bool) \<Rightarrow> bool \<Rightarrow> (nat \<Rightarrow> 'a attempt_io) \<Rightarrow> (string \<times> string) list \<Rightarrow> health_tracker
     \<Rightarrow> nat \<Rightarrow> 'a fate" where
  "fate_at env fast images io chain h j =
     candidate_fate env (fast j (snd (chain ! j))) images (io j) (chain ! j) (tracker_at env fast images io chain h j)"

lemma called_eligible: "called (fate_at env fast images io chain h j) \<Longrightarrow> eligible env images (chain ! j)"
  by (auto simp: fate_at_def candidate_fate_def split: if_splits)

text \<open>A walk from position \<open>idx\<close> that leaves an error or a response: where it ends, whom it called, what
  it left in the breakers.\<close>

definition calls_among :: "(nat \<Rightarrow> 'a fate) \<Rightarrow> (string \<times> string) list \<Rightarrow> nat list \<Rightarrow> (string \<times> string) list" where
  "calls_among fate chain js = map ((!) chain) (filter (\<lambda>j. called (fate j)) js)"

definition failures_among :: "(nat \<Rightarrow> 'a fate) \<Rightarrow> nat list \<Rightarrow> string list" where
  "failures_among fate js = List.map_filter (\<lambda>j. failure_of (fate j)) js"

definition walk_spec ::
  "(nat \<Rightarrow> 'a fate) \<Rightarrow> (nat \<Rightarrow> health_tracker) \<Rightarrow> (string \<times> string) list \<Rightarrow> nat \<Rightarrow> string option
     \<Rightarrow> (string option, 'a \<times> string \<times> string) result \<Rightarrow> (string \<times> string) list \<Rightarrow> health_tracker \<Rightarrow> bool" where
  "walk_spec fate tracker chain idx last_error r calls h \<longleftrightarrow>
    (case r of
       Inr (d, c) \<Rightarrow> \<exists>n \<in> {idx..<length chain}. fate n = Fate_Served d \<and> c = chain ! n
         \<and> (\<forall>j \<in> {idx..<n}. \<not> serves (fate j))
         \<and> calls = calls_among fate chain [idx..<Suc n] \<and> h = tracker (Suc n)
     | Inl e \<Rightarrow> (\<forall>j \<in> {idx..<length chain}. \<not> serves (fate j))
         \<and> calls = calls_among fate chain [idx..<length chain]
         \<and> e = (let es = failures_among fate [idx..<length chain] in if es = [] then last_error else Some (last es))
         \<and> h = tracker (max idx (length chain)))"

text \<open>The ways a walk takes one step.\<close>

lemma among_Cons [simp]:
  "calls_among fate chain (j # js) = (if called (fate j) then [chain ! j] else []) @ calls_among fate chain js"
  "failures_among fate (j # js) = (case failure_of (fate j) of None \<Rightarrow> [] | Some e \<Rightarrow> [e]) @ failures_among fate js"
  "calls_among fate chain [] = []" "failures_among fate [] = []"
  by (simp_all add: calls_among_def failures_among_def List.map_filter_def split: option.splits)

lemma from_Suc: "idx < n \<Longrightarrow> {idx..<n} = insert idx {Suc idx..<n}"
  by auto

lemma walk_spec_step:
  assumes "walk_spec fate tracker chain (Suc idx) (case failure_of (fate idx) of None \<Rightarrow> le | Some e \<Rightarrow> Some e) r calls h"
    and i: "idx < length chain" and f: "\<not> serves (fate idx)"
  shows "walk_spec fate tracker chain idx le r ((if called (fate idx) then [chain ! idx] else []) @ calls) h"
proof (cases r)
  case (Inl e)
  with assms show ?thesis
    by (auto simp: walk_spec_def from_Suc [OF i] upt_conv_Cons [OF i] Let_def split: option.splits)
next
  case (Inr p)
  obtain d c where p: "p = (d, c)" by (cases p)
  from assms(1) Inr p obtain n where n: "Suc idx \<le> n" "n < length chain" "fate n = Fate_Served d" "c = chain ! n"
    "\<forall>j \<in> {Suc idx..<n}. \<not> serves (fate j)" "calls = calls_among fate chain [Suc idx..<Suc n]" "h = tracker (Suc n)"
    by (auto simp: walk_spec_def)
  from n(1) have lt: "idx < n" "idx < Suc n" by auto
  have "\<forall>j \<in> {idx..<n}. \<not> serves (fate j)" using n(5) f by (simp add: from_Suc [OF lt(1)])
  moreover have "(if called (fate idx) then [chain ! idx] else []) @ calls = calls_among fate chain [idx..<Suc n]"
    by (simp add: n(6) upt_conv_Cons [OF lt(2)] del: upt_Suc)
  moreover have "n \<in> {idx..<length chain}" using n(1,2) by simp
  ultimately show ?thesis
    unfolding walk_spec_def Inr p sum.case prod.case using n(3,4,7) by blast
qed

lemma walk_spec_served:
  assumes "idx < length chain" "fate idx = Fate_Served d"
  shows "walk_spec fate tracker chain idx le (Inr (d, chain ! idx)) [chain ! idx] (tracker (Suc idx))"
  using assms by (auto simp: walk_spec_def intro!: bexI [of _ idx])

lemma walk_spec_end:
  "length chain \<le> idx \<Longrightarrow> walk_spec fate tracker chain idx le (Inl le) [] (tracker idx)"
  by (auto simp: walk_spec_def max_def)

lemma try_chain_walk:
  fixes h0 :: health_tracker
  assumes "try_chain env fast images io idx (drop idx chain) le w = (r, w')"
    and "fw_health w = tracker_at env fast images io chain h0 idx"
  shows "\<exists>calls. fw_calls w' = fw_calls w @ calls
    \<and> walk_spec (fate_at env fast images io chain h0) (tracker_at env fast images io chain h0) chain idx le r calls (fw_health w')"
proof -
  let ?spec = "walk_spec (fate_at env fast images io chain h0) (tracker_at env fast images io chain h0) chain"
  let ?at = "tracker_at env fast images io chain h0"
  have "\<exists>calls. fw_calls w' = fw_calls w @ calls \<and> ?spec idx le r calls (fw_health w')"
    if "try_chain env fast images io idx rest le w = (r, w')" "rest = drop idx chain" "fw_health w = ?at idx" for rest
    using that
  proof (induction rest arbitrary: idx le w)
    case Nil
    then show ?case using walk_spec_end [of chain idx] by auto
  next
    case (Cons c rest)
    have i: "idx < length chain" using Cons.prems(2) by (metis drop_all linorder_not_le list.distinct(1))
    have "c # rest = chain ! idx # drop (Suc idx) chain"
      using Cons.prems(2) Cons_nth_drop_Suc [OF i] by (simp only:)
    then have n: "chain ! idx = c" "rest = drop (Suc idx) chain" by auto
    obtain prov model_id where c: "c = (prov, model_id)" by fastforce
    obtain ok h where adm: "admit_candidate env (io idx) prov model_id (fw_health w) = (ok, h)" by fastforce
    obtain took out where run: "run_call (fast idx model_id) (io idx) = (took, out)" by fastforce
    note now = fate_at_def candidate_fate_def tracker_after_def n(1) c adm run Cons.prems(3) [symmetric] Let_def
    have passed: ?case if f: "\<not> called (fate_at env fast images io chain h0 idx)" and v: "v = w\<lparr>fw_health := ?at (Suc idx)\<rparr>"
      and rest: "try_chain env fast images io (Suc idx) rest le v = (r, w')" for v
    proof -
      obtain calls where "fw_calls w' = fw_calls w @ calls" "?spec (Suc idx) le r calls (fw_health w')"
        using Cons.IH [OF rest n(2)] v by auto
      moreover from f have "\<not> serves (fate_at env fast images io chain h0 idx)"
        "failure_of (fate_at env fast images io chain h0 idx) = None"
        by (cases "fate_at env fast images io chain h0 idx"; simp)+
      ultimately show ?thesis
        using walk_spec_step [where fate = "fate_at env fast images io chain h0" and idx = idx and le = le, OF _ i] f by auto
    qed
    show ?case
    proof (cases "eligible env images c")
      case False
      with Cons.prems(1) show ?thesis by (intro passed [of w]) (simp_all add: now)
    next
      case el: True
      show ?thesis
      proof (cases ok)
        case False
        with Cons.prems(1) el show ?thesis by (intro passed [of "w\<lparr>fw_health := h\<rparr>"]) (simp_all add: now)
      next
        case ok: True
        show ?thesis
        proof (cases out)
          case (Inr d)
          with Cons.prems(1) el ok have "r = Inr (d, chain ! idx)" "fw_calls w' = fw_calls w @ [chain ! idx]"
            "fw_health w' = ?at (Suc idx)" "fate_at env fast images io chain h0 idx = Fate_Served d"
            by (auto simp: now)
          with walk_spec_served [where fate = "fate_at env fast images io chain h0" and d = d and le = le
              and tracker = ?at, OF i]
          show ?thesis by (auto simp del: tracker_at.simps)
        next
          case (Inl e)
          define v where "v = \<lparr>fw_health = ?at (Suc idx), fw_calls = fw_calls w @ [chain ! idx]\<rparr>"
          have f: "fate_at env fast images io chain h0 idx = Fate_Failed e" using el ok Inl by (simp add: now)
          have "try_chain env fast images io (Suc idx) rest (Some e) v = (r, w')"
            using Cons.prems(1) el ok Inl by (simp add: now v_def)
          from Cons.IH [OF this n(2)] obtain calls where "fw_calls w' = fw_calls v @ calls"
            "?spec (Suc idx) (Some e) r calls (fw_health w')" by (auto simp: v_def)
          with walk_spec_step [where fate = "fate_at env fast images io chain h0" and idx = idx and le = le, OF _ i]
          show ?thesis by (intro exI [of _ "chain ! idx # calls"]) (simp add: v_def f)
        qed
      qed
    qed
  qed
  with assms show ?thesis by blast
qed

section \<open>The chains\<close>

lemma fallback_table_wf: "list_all (\<lambda>(k, chain). chain \<noteq> [] \<and> hd chain = k \<and> distinct chain) FALLBACK_TABLE"
  by (simp add: FALLBACK_TABLE_def)

lemma model_fallback_chain_wf:
  "model_fallback_chain provider model \<noteq> [] \<and> hd (model_fallback_chain provider model) = (provider, model)
   \<and> distinct (model_fallback_chain provider model)"
  using fallback_table_wf
  by (auto simp: model_fallback_chain_def list_all_iff dest!: map_of_SomeD split: option.split)

text \<open>
  C34. Failover along a chain. The chain starts with the requested model and has no duplicates. Its
  positions are tried in order, and at each the candidate is passed over when it is not configured
  or does not take the images of the request, refused when a circuit breaker, in its state at that
  moment, does not admit it, and called otherwise. The walk goes on past every candidate that is
  passed over, is refused or fails, and ends with the first that serves: its response is returned
  under its name, exactly the candidates called up to there were called, and the breakers have seen
  exactly these outcomes. The request fails only when no position serves, and then with the error of
  the last failed call, or with the none-available text when none was called.
\<close>
theorem fallback_chain_calls:
  assumes "chat_with_model_fallback env io provider model req w = (r, w')"
  shows "let chain = model_fallback_chain provider model; images = request_has_images req;
      fast = (\<lambda>idx m. idx + 1 < length chain \<and> candidate_is_free (fe_registry env) m);
      fate = fate_at env fast images io chain (fw_health w);
      tracker = tracker_at env fast images io chain (fw_health w) in
    hd chain = (provider, model) \<and> distinct chain
    \<and> (case r of
         Inr res \<Rightarrow> \<exists>n < length chain. fate n = Fate_Served (fr_data res) \<and> (\<forall>j < n. \<not> serves (fate j))
           \<and> fw_calls w' = fw_calls w @ calls_among fate chain [0..<Suc n] \<and> fw_health w' = tracker (Suc n)
           \<and> (fr_actual_provider res, fr_actual_model res) = chain ! n \<and> fr_original_model res = model
           \<and> fr_was_fallback res = (chain ! n \<noteq> (provider, model))
       | Inl e \<Rightarrow> (\<forall>j < length chain. \<not> serves (fate j))
           \<and> fw_calls w' = fw_calls w @ calls_among fate chain [0..<length chain] \<and> fw_health w' = tracker (length chain)
           \<and> e = (let es = failures_among fate [0..<length chain] in
                  if es \<noteq> [] then last es
                  else if images then ''no vision-capable model available in fallback chain for image request''
                  else ''no available models in fallback chain''))"
proof -
  define chain where "chain = model_fallback_chain provider model"
  define fast where "fast = (\<lambda>idx m. idx + 1 < length chain \<and> candidate_is_free (fe_registry env) m)"
  define images where "images = request_has_images req"
  define fate where "fate = fate_at env fast images io chain (fw_health w)"
  define tracker where "tracker = tracker_at env fast images io chain (fw_health w)"
  obtain x where x: "try_chain env fast images io 0 (drop 0 chain) None w = (x, w')"
    using assms by (auto simp: chat_with_model_fallback_def Let_def chain_def fast_def images_def split: prod.splits)
  have r: "r = chain_outcome model (\<lambda>p m. p \<noteq> provider \<or> m \<noteq> model)
      (if images then ''no vision-capable model available in fallback chain for image request''
       else ''no available models in fallback chain'') x"
    using assms x by (auto simp: chat_with_model_fallback_def Let_def chain_def fast_def images_def split: prod.splits)
  obtain calls where calls: "fw_calls w' = fw_calls w @ calls"
    and walk: "walk_spec fate tracker chain 0 None x calls (fw_health w')"
    using try_chain_walk [OF x, of "fw_health w"] unfolding fate_def tracker_def by auto
  note wf = model_fallback_chain_wf [of provider model, folded chain_def]
  note fold = chain_def [symmetric] fast_def [symmetric] images_def [symmetric] fate_def [symmetric] tracker_def [symmetric]
  show ?thesis
  proof (cases x)
    case (Inl e)
    with walk have "\<forall>j < length chain. \<not> serves (fate j)" "calls = calls_among fate chain [0..<length chain]"
      "fw_health w' = tracker (length chain)"
      "e = (if failures_among fate [0..<length chain] = [] then None else Some (last (failures_among fate [0..<length chain])))"
      by (auto simp: walk_spec_def Let_def)
    with r Inl calls wf show ?thesis
      unfolding Let_def fold by (simp add: chain_outcome_def)
  next
    case (Inr p)
    obtain d prov m where p: "p = (d, prov, m)" by (cases p)
    from walk Inr p obtain n where n: "n < length chain" "fate n = Fate_Served d" "(prov, m) = chain ! n"
      "\<forall>j < n. \<not> serves (fate j)" "calls = calls_among fate chain [0..<Suc n]" "fw_health w' = tracker (Suc n)"
      unfolding walk_spec_def by auto
    have "r = Inr \<lparr>fr_data = d, fr_original_model = model, fr_actual_model = m, fr_actual_provider = prov,
        fr_was_fallback = (prov \<noteq> provider \<or> m \<noteq> model)\<rparr>" using r Inr p by (simp add: chain_outcome_def)
    with n calls wf show ?thesis
      unfolding Let_def fold by (auto simp: n(3) [symmetric] simp del: upt_Suc intro!: exI [of _ n])
  qed
qed

section \<open>A probe that is never answered\<close>

definition model_probing :: "string \<Rightarrow> health_tracker \<Rightarrow> bool" where
  "model_probing key tr \<longleftrightarrow> (\<exists>h. ht_models tr key = Some h \<and> ph_state h = Circuit_HalfOpen \<and> ph_probe_in_flight h)"

definition quiet_peers :: "string \<Rightarrow> (nat \<Rightarrow> 'a attempt_io) \<Rightarrow> bool" where
  "quiet_peers key io \<longleftrightarrow> (\<forall>j n tr. model_probing key tr \<longrightarrow> model_probing key (at_peers (io j) n tr))"

lemma model_probing_ask:
  assumes "model_probing key tr" "is_model_available cfg now p m tr = (ok, tr')"
  shows "model_probing key tr' \<and> (model_key p m = key \<longrightarrow> \<not> ok)"
  using assms
  by (auto simp: model_probing_def is_model_available_def claim_slot_def Let_def
      split: option.splits circuit_state.splits if_splits)

lemma model_probing_provider [simp]:
  "model_probing key (snd (is_available cfg now p tr)) = model_probing key tr"
  by (auto simp: model_probing_def is_available_def split_beta split: option.splits)

lemma model_probing_record:
  "model_probing key tr \<Longrightarrow> model_key p m \<noteq> key \<Longrightarrow> model_probing key (record_model_success cfg now later p m l tr)"
  "model_probing key tr \<Longrightarrow> model_key p m \<noteq> key \<Longrightarrow> model_probing key (record_model_failure cfg now later p m l tr)"
  by (simp_all add: model_probing_def tracker_defs Let_def)

lemma model_probing_admit:
  assumes "model_probing key h" "quiet_peers key io" "admit_candidate env (io j) p m h = (ok, h')"
  shows "model_probing key h' \<and> (model_key p m = key \<longrightarrow> \<not> ok)"
proof -
  have q: "model_probing key (at_peers (io j) n tr)" if "model_probing key tr" for n tr
    using that assms(2) by (simp add: quiet_peers_def)
  obtain ok1 h1 where m: "is_model_available (fe_breaker env) (at_model_at (io j)) p m (at_peers (io j) 0 h) = (ok1, h1)"
    by fastforce
  note a = model_probing_ask [OF q [OF assms(1)] m]
  show ?thesis
  proof (cases ok1)
    case True
    with m assms(3) have "is_available (fe_breaker env) (at_provider_at (io j)) p (at_peers (io j) 1 h1) = (ok, h')"
      by (simp add: admit_candidate_def)
    then have "h' = snd (is_available (fe_breaker env) (at_provider_at (io j)) p (at_peers (io j) 1 h1))" by simp
    with a q True show ?thesis by simp
  qed (use a m assms(3) in \<open>simp add: admit_candidate_def\<close>)
qed

lemma try_chain_stuck:
  assumes "try_chain env fast images io idx chain le w = (r, w')" "model_probing key (fw_health w)" "quiet_peers key io"
  shows "model_probing key (fw_health w') \<and> (\<exists>cs. fw_calls w' = fw_calls w @ cs \<and> list_all (\<lambda>(p, m). model_key p m \<noteq> key) cs)"
  using assms(1,2)
proof (induction chain arbitrary: idx le w)
  case (Cons c rest)
  obtain prov model_id where c: "c = (prov, model_id)" by fastforce
  show ?case
  proof (cases "eligible env images c")
    case False
    with Cons c show ?thesis by simp
  next
    case el: True
    obtain ok h where adm: "admit_candidate env (io idx) prov model_id (fw_health w) = (ok, h)" by fastforce
    note a = model_probing_admit [OF Cons.prems(2) assms(3) adm]
    show ?thesis
    proof (cases ok)
      case False
      with Cons.IH [of "Suc idx" le "w\<lparr>fw_health := h\<rparr>"] Cons.prems(1) el adm a c show ?thesis by simp
    next
      case ok: True
      with a have k: "model_key prov model_id \<noteq> key" by blast
      have p: "model_probing key (at_peers (io idx) 2 h)" using a assms(3) by (simp add: quiet_peers_def)
      obtain took out where run: "run_call (fast idx model_id) (io idx) = (took, out)" by fastforce
      show ?thesis
      proof (cases out)
        case (Inr d)
        with Cons.prems(1) el adm ok run k c model_probing_record(1) [OF p k] show ?thesis by (auto simp: Let_def)
      next
        case (Inl e)
        define v where "v = \<lparr>fw_health = record_model_failure (fe_breaker env) (at_start (io idx) + int took)
            (at_start (io idx) + int took) prov model_id (of_nat took) (at_peers (io idx) 2 h), fw_calls = fw_calls w @ [c]\<rparr>"
        have "try_chain env fast images io (Suc idx) rest (Some e) v = (r, w')"
          using Cons.prems(1) el adm ok run c Inl by (simp add: Let_def v_def)
        moreover have "model_probing key (fw_health v)" by (simp add: v_def model_probing_record(2) [OF p k])
        ultimately obtain cs where "model_probing key (fw_health w')" "fw_calls w' = fw_calls v @ cs"
          "list_all (\<lambda>(p, m). model_key p m \<noteq> key) cs"
          using Cons.IH by blast
        with k c show ?thesis by (intro conjI exI [of _ "c # cs"]) (simp_all add: v_def)
      qed
    qed
  qed
qed simp

fun serve_all ::
  "fallback_env \<Rightarrow> ((nat \<Rightarrow> 'a attempt_io) \<times> string \<times> string \<times> chat_request) list \<Rightarrow> fallback_world \<Rightarrow> fallback_world" where
  "serve_all env [] w = w"
| "serve_all env ((io, p, m, req) # rs) w = serve_all env rs (snd (chat_with_model_fallback env io p m req w))"

lemma serve_all_stuck:
  assumes "model_probing key (fw_health w)" "list_all (\<lambda>(io, _). quiet_peers key io) rs"
  shows "\<exists>cs. fw_calls (serve_all env rs w) = fw_calls w @ cs \<and> list_all (\<lambda>(p, m). model_key p m \<noteq> key) cs"
  using assms
proof (induction rs arbitrary: w)
  case (Cons x rs)
  obtain io p m req where x: "x = (io, p, m, req)" by (cases x) auto
  define w1 where "w1 = snd (chat_with_model_fallback env io p m req w)"
  let ?c = "model_fallback_chain p m"
  obtain r where "try_chain env (\<lambda>idx m. idx + 1 < length ?c \<and> candidate_is_free (fe_registry env) m)
      (request_has_images req) io 0 ?c None w = (r, w1)"
    by (simp add: w1_def chat_with_model_fallback_def Let_def split_beta)
      (metis prod.collapse)
  from try_chain_stuck [OF this Cons.prems(1)] Cons.prems(2) x obtain cs where
    cs: "model_probing key (fw_health w1)" "fw_calls w1 = fw_calls w @ cs" "list_all (\<lambda>(p, m). model_key p m \<noteq> key) cs"
    by auto
  from Cons.IH [OF cs(1)] Cons.prems(2) obtain ds where
    "fw_calls (serve_all env rs w1) = fw_calls w1 @ ds" "list_all (\<lambda>(p, m). model_key p m \<noteq> key) ds" by auto
  with cs show ?case by (intro exI [of _ "cs @ ds"]) (simp add: x w1_def)
qed simp

text \<open>
  The model breaker hands out its probe before the provider breaker is asked. When the latter
  refuses, the request moves on without reporting an outcome for the model, so the probe stays in
  flight: no later request ever reaches that model, however long its upstream has been healthy.
\<close>

theorem skipped_probe_disables_model:
  assumes "at_peers a = (\<lambda>_ x. x)" "get_model_state p m h \<noteq> Circuit_Closed" "tracker_inv h"
    and "fst (is_model_available (fe_breaker env) (at_model_at a) p m h)" "admit_candidate env a p m h = (False, h1)"
    and "list_all (\<lambda>(io, _). quiet_peers (model_key p m) io) rs"
  shows "(p, m) \<notin> set (fw_calls (serve_all env rs \<lparr>fw_health = h1, fw_calls = []\<rparr>))"
proof -
  from assms(2) obtain mh where mh: "ht_models h (model_key p m) = Some mh" "ph_state mh \<noteq> Circuit_Closed"
    by (auto simp: get_model_state_def split: option.splits)
  with assms(3) have "breaker_inv mh" by (auto simp: tracker_inv_def ranI)
  with mh assms(4) have "model_probing (model_key p m) (snd (is_model_available (fe_breaker env) (at_model_at a) p m h))"
    by (auto simp: is_model_available_def claim_slot_def Let_def breaker_inv_def model_probing_def
        split: circuit_state.splits option.splits if_splits)
  moreover have "h1 = snd (is_available (fe_breaker env) (at_provider_at a) p
      (snd (is_model_available (fe_breaker env) (at_model_at a) p m h)))"
    using assms(1,4,5) by (auto simp: admit_candidate_def split: prod.splits bool.splits)
  ultimately have "model_probing (model_key p m) h1" by simp
  from serve_all_stuck [of _ "\<lparr>fw_health = h1, fw_calls = []\<rparr>", simplified, OF this assms(6)] show ?thesis
    by (fastforce simp: list_all_iff)
qed

text \<open>Such a state is reachable: the model's breaker opens an instant before the provider's.\<close>

definition demo_fallback_env :: fallback_env where
  "demo_fallback_env = \<lparr>fe_breaker = demo_breaker, fe_configured = (\<lambda>_. True), fe_registry = []\<rparr>"

definition demo_attempt :: "usage_counts option attempt_io" where
  "demo_attempt = \<lparr>at_peers = (\<lambda>_ x. x), at_model_at = 30000, at_provider_at = 30000, at_start = 30000, at_duration = 1,
     at_reply = Inr None\<rparr>"

lemma demo_skipped_probe:
  fixes h :: health_tracker
  defines "h \<equiv> apply_op demo_breaker (Model_Failed 0 1 ''p'' ''m'' 7) new_health_tracker"
  shows "reach (\<lambda>tr. tr = new_health_tracker) (health_step demo_breaker) h"
    "list_all (\<lambda>(io, _). quiet_peers (model_key ''p'' ''m'') io) rs \<Longrightarrow>
     (''p'', ''m'') \<notin> set (fw_calls (serve_all demo_fallback_env rs
       \<lparr>fw_health = snd (admit_candidate demo_fallback_env demo_attempt ''p'' ''m'' h), fw_calls = []\<rparr>))"
proof -
  let ?f0 = "note_failure demo_breaker 0 7 new_provider_health" and ?f1 = "note_failure demo_breaker 1 7 new_provider_health"
  show re: "reach (\<lambda>tr. tr = new_health_tracker) (health_step demo_breaker) h"
    unfolding h_def by (rule reach_step, rule reach_init, rule refl, rule health_op)
  have e: "ht_models h (model_key ''p'' ''m'') = Some ?f0" "ht_providers h ''p'' = Some ?f1"
    by (simp_all add: h_def record_model_failure_def record_provider_failure_def entry_or_new_def new_health_tracker_def Let_def)
  have s1: "ph_state ?f1 = Circuit_Open" "ph_opened_at ?f1 = Some 1"
  proof -
    show o: "ph_state ?f1 = Circuit_Open"
      by (subst note_failure_opens)
        (simp_all add: demo_breaker_simps new_provider_health_def recent_outcomes_def failures_in_def)
    from o show "ph_opened_at ?f1 = Some 1"
      by (auto simp: note_failure_def evaluate_circuit_def push_outcome_def cleanup_old_outcomes_def new_provider_health_def
          Let_def split: if_splits)
  qed
  note simps = demo_fallback_env_def demo_attempt_def claim_slot_def elapsed_def demo_breaker_simps demo_opens demo_opened_at s1 Let_def
  have m: "is_model_available demo_breaker 30000 ''p'' ''m'' h = (True, h\<lparr>ht_models := (ht_models h)(model_key ''p'' ''m'' \<mapsto>
      ?f0\<lparr>ph_state := Circuit_HalfOpen, ph_probe_in_flight := True\<rparr>)\<rparr>)"
    by (simp add: is_model_available_def e simps)
  have adm: "fst (admit_candidate demo_fallback_env demo_attempt ''p'' ''m'' h) = False"
    by (simp add: admit_candidate_def simps m) (simp add: is_available_def e simps)
  show "(''p'', ''m'') \<notin> set (fw_calls (serve_all demo_fallback_env rs
       \<lparr>fw_health = snd (admit_candidate demo_fallback_env demo_attempt ''p'' ''m'' h), fw_calls = []\<rparr>))"
    if "list_all (\<lambda>(io, _). quiet_peers (model_key ''p'' ''m'') io) rs"
  proof (rule skipped_probe_disables_model [OF _ _ _ _ _ that])
    show "at_peers demo_attempt = (\<lambda>_ x. x)" by (simp add: demo_attempt_def)
    show "get_model_state ''p'' ''m'' h \<noteq> Circuit_Closed" by (simp add: get_model_state_def e demo_opens)
    show "tracker_inv h" using breakers.reach_inv [OF re] .
    show "fst (is_model_available (fe_breaker demo_fallback_env) (at_model_at demo_attempt) ''p'' ''m'' h)"
      by (simp add: simps m)
    show "admit_candidate demo_fallback_env demo_attempt ''p'' ''m'' h
        = (False, snd (admit_candidate demo_fallback_env demo_attempt ''p'' ''m'' h))"
      using adm by (metis prod.collapse)
  qed
qed

section \<open>What the handler bills\<close>

lemma try_chain_calls:
  assumes "try_chain env fast images io 0 chain None w = (r, w')"
  obtains cs where "fw_calls w' = fw_calls w @ cs" "list_all (eligible env images) cs"
    "\<And>d c. r = Inr (d, c) \<Longrightarrow> cs \<noteq> [] \<and> last cs = c"
proof -
  define fate where "fate = fate_at env fast images io chain (fw_health w)"
  from try_chain_walk [of env fast images io 0 chain None w r w' "fw_health w"] assms
  obtain cs where cs: "fw_calls w' = fw_calls w @ cs"
    "walk_spec fate (tracker_at env fast images io chain (fw_health w)) chain 0 None r cs (fw_health w')"
    unfolding fate_def by auto
  from cs(2) obtain js where "cs = calls_among fate chain js"
    by (auto simp: walk_spec_def simp del: upt_Suc split: sum.splits prod.splits)
  then have "list_all (eligible env images) cs"
    by (auto simp: list_all_iff fate_def calls_among_def dest: called_eligible)
  moreover have "cs \<noteq> [] \<and> last cs = c" if "r = Inr (d, c)" for d c
    using cs(2) that by (auto simp: walk_spec_def calls_among_def)
  ultimately show ?thesis using that cs(1) by blast
qed

lemma chain_outcome_Inr:
  "chain_outcome original was none_available r = Inr res \<longleftrightarrow>
     (\<exists>d p m. r = Inr (d, p, m) \<and> res = \<lparr>fr_data = d, fr_original_model = original, fr_actual_model = m,
        fr_actual_provider = p, fr_was_fallback = was p m\<rparr>)"
  by (auto simp: chain_outcome_def split: sum.splits option.splits)

text \<open>All four entry points walk one chain.\<close>

definition walks_chain ::
  "fallback_env \<Rightarrow> chat_request \<Rightarrow> (string, 'a fallback_result) result \<Rightarrow> fallback_world \<Rightarrow> fallback_world \<Rightarrow> bool" where
  "walks_chain env req x w w' \<longleftrightarrow>
     (\<exists>cs. fw_calls w' = fw_calls w @ cs \<and> list_all (eligible env (request_has_images req)) cs
        \<and> (case x of Inr res \<Rightarrow> cs \<noteq> [] \<and> last cs = (fr_actual_provider res, fr_actual_model res) | Inl _ \<Rightarrow> True))"

lemma try_chain_walks:
  assumes "try_chain env fast (request_has_images req) io 0 chain None w = (r, w')"
  shows "walks_chain env req (chain_outcome original was none_available r) w w'"
  using assms
proof (rule try_chain_calls)
  fix cs assume cs: "fw_calls w' = fw_calls w @ cs" "list_all (eligible env (request_has_images req)) cs"
    and served: "\<And>d c. r = Inr (d, c) \<Longrightarrow> cs \<noteq> [] \<and> last cs = c"
  show ?thesis
  proof (cases "chain_outcome original was none_available r")
    case (Inr res)
    with served cs show ?thesis unfolding walks_chain_def chain_outcome_Inr
      by (intro exI [of _ cs]) (auto simp: chain_outcome_def)
  qed (use cs in \<open>auto simp: walks_chain_def\<close>)
qed

lemma entry_points_walk:
  "chat_with_model_fallback env io p m req w = (x, w') \<Longrightarrow> walks_chain env req x w w'"
  "stream_with_model_fallback env io p m req w = (x, w') \<Longrightarrow> walks_chain env req x w w'"
  "chat_with_chain env io chain original req w = (x, w') \<Longrightarrow> walks_chain env req x w w'"
  "stream_with_chain env io chain original req w = (x, w') \<Longrightarrow> walks_chain env req x w w'"
  by (auto simp: chat_with_model_fallback_def stream_with_model_fallback_def chat_with_chain_def stream_with_chain_def
      Let_def intro: try_chain_walks split: prod.splits)

lemma upstream_call_walks:
  assumes "upstream_call env io provider req w = (c, w')"
  obtains x where "walks_chain env req x w w'"
    "c = (case x of
       Inl _ \<Rightarrow> All_Providers_Failed
     | Inr res \<Rightarrow> if rq_stream req then Provider_Ok None None None
         else if pv_serialises io then Provider_Ok (fr_data res) (Some (fr_actual_provider res)) None
         else Provider_Internal ''response serialisation'')"
proof (cases "rq_stream req")
  case True
  define run where "run = (case build_fallback_chain provider (rq_model req) (pv_fallback_pref io) of
      Some chain \<Rightarrow> stream_with_chain env (pv_attempts io) chain (rq_model req) req w
    | None \<Rightarrow> stream_with_model_fallback env (pv_attempts io) provider (rq_model req) req w)"
  obtain x v where x: "run = (x, v)" by fastforce
  have "walks_chain env req x w v" using x entry_points_walk(2,4) by (auto simp: run_def split: option.splits)
  moreover have "v = w' \<and> c = (case x of Inl _ \<Rightarrow> All_Providers_Failed | Inr _ \<Rightarrow> Provider_Ok None None None)"
    using assms True x by (cases x) (auto simp: upstream_call_def execute_streaming_call_def run_def [symmetric])
  ultimately show ?thesis using that [of x] True by (auto split: sum.splits)
next
  case False
  define run where "run = (case build_fallback_chain provider (rq_model req) (pv_fallback_pref io) of
      Some chain \<Rightarrow> chat_with_chain env (pv_attempts io) chain (rq_model req) req w
    | None \<Rightarrow> chat_with_model_fallback env (pv_attempts io) provider (rq_model req) req w)"
  obtain x v where x: "run = (x, v)" by fastforce
  have "walks_chain env req x w v" using x entry_points_walk(1,3) by (auto simp: run_def split: option.splits)
  moreover have "v = w' \<and> c = (case x of
       Inl _ \<Rightarrow> All_Providers_Failed
     | Inr res \<Rightarrow> if pv_serialises io then Provider_Ok (fr_data res) (Some (fr_actual_provider res)) None
         else Provider_Internal ''response serialisation'')"
    using assms False x by (cases x) (auto simp: upstream_call_def execute_non_streaming_call_def run_def [symmetric])
  ultimately show ?thesis using that [of x] False by (auto split: sum.splits)
qed

lemma semantic_price_positive: "semantic_hit_full_atomic fee u reg m req model_info = Some full \<Longrightarrow> 0 < full"
  by (auto simp: semantic_hit_full_atomic_def Let_def split: option.splits if_splits)

text \<open>
  C35. What the provider call hands to billing. A discount is granted only for a response from the
  semantic cache of a non-streaming request; its full price is positive and the discounted one
  is not above it, and no upstream is called. Without a discount the response is an exact cache
  hit with the usage stored there, or it comes from the upstream that was called last, which is the
  provider the spend row names. Only eligible upstreams are called.
\<close>
theorem provider_call_outcome:
  assumes "execute_provider_call fee env io model_info req w = (Provider_Ok usage actual outcome, w')"
  shows "\<exists>cs. fw_calls w' = fw_calls w @ cs \<and> list_all (eligible env (request_has_images req)) cs
    \<and> (case outcome of
         Some d \<Rightarrow> cs = [] \<and> \<not> rq_stream req \<and> pv_exact io = None \<and> pv_semantic io \<noteq> None
           \<and> 0 < sd_full_atomic d \<and> sd_discounted_atomic d \<le> sd_full_atomic d
       | None \<Rightarrow> if cs = [] then \<not> rq_stream req \<and> pv_exact io = Some usage \<and> actual = None
           else if rq_stream req then usage = None \<and> actual = None
           else actual = Some (fst (last cs)))"
proof -
  have upstream: ?thesis if up: "upstream_call env io (mr_provider model_info) req w = (Provider_Ok usage actual outcome, w')"
  proof -
    from up obtain x where x: "walks_chain env req x w w'"
      "Provider_Ok usage actual outcome = (case x of
         Inl _ \<Rightarrow> All_Providers_Failed
       | Inr res \<Rightarrow> if rq_stream req then Provider_Ok None None None
           else if pv_serialises io then Provider_Ok (fr_data res) (Some (fr_actual_provider res)) None
           else Provider_Internal ''response serialisation'')"
      by (rule upstream_call_walks)
    obtain res where res: "x = Inr res" using x(2) by (cases x) simp_all
    obtain cs where cs: "fw_calls w' = fw_calls w @ cs" "list_all (eligible env (request_has_images req)) cs"
      "cs \<noteq> []" "last cs = (fr_actual_provider res, fr_actual_model res)"
      using x(1) by (auto simp: walks_chain_def res)
    have "outcome = None \<and> (if rq_stream req then usage = None \<and> actual = None else actual = Some (fr_actual_provider res))"
      using x(2) by (simp add: res split: if_splits)
    with cs show ?thesis by (intro exI [of _ cs]) simp
  qed
  let ?price = "\<lambda>cached. semantic_hit_full_atomic fee (map_option (\<lambda>u. cap_usage_to_request_limits u req model_info) cached)
    (fe_registry env) (rq_model req) req model_info"
  show ?thesis
  proof (cases "rq_stream req \<or> pv_exact io = None \<and> (\<forall>cached. pv_semantic io = Some cached \<longrightarrow> ?price cached = None)")
    case True
    then have "upstream_call env io (mr_provider model_info) req w = (Provider_Ok usage actual outcome, w')"
      using assms unfolding execute_provider_call_def Let_def
      by (cases "rq_stream req"; cases "pv_semantic io") simp_all
    then show ?thesis by (rule upstream)
  next
    case miss: False
    show ?thesis
    proof (cases "pv_exact io")
      case (Some u)
      with miss assms have "u = usage \<and> actual = None \<and> outcome = None \<and> w' = w"
        by (simp add: execute_provider_call_def Let_def split: if_splits)
      with Some miss show ?thesis by simp
    next
      case None
      with miss obtain cached full where hit: "\<not> rq_stream req" "pv_semantic io = Some cached" "?price cached = Some full"
        by auto
      with None assms have "outcome = Some (semantic_discount_new full (pv_hit_price_percent io)) \<and> w' = w"
        by (simp add: execute_provider_call_def Let_def split: if_splits)
      with None hit(1,2) semantic_price_positive [OF hit(3)] apply_hit_price_le show ?thesis
        by (simp add: semantic_discount_new_def)
    qed
  qed
qed

section \<open>A worked call\<close>

definition demo_provider_io :: provider_io where
  "demo_provider_io = \<lparr>pv_exact = None, pv_semantic = None, pv_hit_price_percent = 50, pv_fallback_pref = None,
     pv_serialises = True, pv_attempts = (\<lambda>_. demo_attempt)\<rparr>"

definition demo_call_request :: chat_request where
  "demo_call_request = \<lparr>rq_model = ''m'', rq_messages = [], rq_max_tokens = None, rq_stream = False\<rparr>"

definition demo_fallback_world :: fallback_world where
  "demo_fallback_world = \<lparr>fw_health = new_health_tracker, fw_calls = []\<rparr>"

lemma demo_call_request_simps: "\<not> rq_stream demo_call_request" "rq_model demo_call_request = ''m''"
  by (simp_all add: demo_call_request_def)

lemma demo_chain: "model_fallback_chain ''p'' ''m'' = [(''p'', ''m'')]"
  by (simp add: model_fallback_chain_def FALLBACK_TABLE_def)

lemma demo_fallback:
  obtains w' where "chat_with_model_fallback demo_fallback_env (\<lambda>_. demo_attempt) ''p'' ''m'' demo_call_request demo_fallback_world
    = (Inr \<lparr>fr_data = None, fr_original_model = ''m'', fr_actual_model = ''m'', fr_actual_provider = ''p'',
        fr_was_fallback = False\<rparr>, w')" "fw_calls w' = [(''p'', ''m'')]"
proof -
  have "eligible demo_fallback_env False (''p'', ''m'')" by (simp add: eligible_def demo_fallback_env_def)
  moreover have "admit_candidate demo_fallback_env demo_attempt ''p'' ''m'' new_health_tracker = (True, new_health_tracker)"
    by (simp add: admit_candidate_def demo_attempt_def is_model_available_def is_available_def new_health_tracker_def Let_def)
  moreover have "run_call False demo_attempt = (1, Inr None)"
    by (simp add: run_call_def demo_attempt_def)
  ultimately show ?thesis
    using that
    by (simp add: chat_with_model_fallback_def demo_chain request_has_images_def demo_call_request_def demo_fallback_world_def
        chain_outcome_def Let_def)
qed

text \<open>A failover: the requested model is down, the next of its chain serves.\<close>

definition demo_failover :: "nat \<Rightarrow> usage_counts option attempt_io" where
  "demo_failover j = (if j = 0 then demo_attempt\<lparr>at_reply := Inl ''down''\<rparr> else demo_attempt)"

lemma demo_failover_chain: "model_fallback_chain ''openai'' ''gpt-4.1-nano''
    = [(''openai'', ''gpt-4.1-nano''), (''google'', ''gemini-2.5-flash-lite'')]"
  by (simp add: model_fallback_chain_def FALLBACK_TABLE_def)

lemma demo_failover_run:
  obtains w' where "chat_with_model_fallback demo_fallback_env demo_failover ''openai'' ''gpt-4.1-nano'' demo_call_request
      demo_fallback_world
    = (Inr \<lparr>fr_data = None, fr_original_model = ''gpt-4.1-nano'', fr_actual_model = ''gemini-2.5-flash-lite'',
        fr_actual_provider = ''google'', fr_was_fallback = True\<rparr>, w')"
proof -
  have el: "eligible demo_fallback_env False c" for c by (simp add: eligible_def demo_fallback_env_def)
  have adm: "admit_candidate demo_fallback_env (demo_failover j) p m h = (True, h)"
    if "ht_models h (model_key p m) = None" "ht_providers h p = None" for j p m h
    using that
    by (simp add: admit_candidate_def demo_failover_def demo_attempt_def is_model_available_def is_available_def Let_def)
  have run: "run_call False (demo_failover 0) = (1, Inl ''down'')" "run_call False (demo_failover (Suc 0)) = (1, Inr None)"
    by (simp_all add: run_call_def demo_failover_def demo_attempt_def)
  have peers: "at_peers (demo_failover j) n h = h" for j n h by (simp add: demo_failover_def demo_attempt_def)
  define h1 where "h1 = record_model_failure demo_breaker 30001 30001 ''openai'' ''gpt-4.1-nano'' 1 new_health_tracker"
  have h1: "ht_models h1 (model_key ''google'' ''gemini-2.5-flash-lite'') = None" "ht_providers h1 ''google'' = None"
    by (simp_all add: h1_def tracker_defs new_health_tracker_def model_key_def Let_def)
  have free: "\<not> candidate_is_free (fe_registry demo_fallback_env) m" for m
    by (simp add: candidate_is_free_def demo_fallback_env_def registry_get_def)
  have env: "fe_breaker demo_fallback_env = demo_breaker" "at_start (demo_failover j) = 30000" for j
    by (simp_all add: demo_fallback_env_def demo_failover_def demo_attempt_def)
  let ?fast = "\<lambda>idx m. idx + 1 < (2 :: nat) \<and> candidate_is_free (fe_registry demo_fallback_env) m"
  have adm0: "admit_candidate demo_fallback_env (demo_failover 0) ''openai'' ''gpt-4.1-nano'' new_health_tracker
      = (True, new_health_tracker)"
    by (rule adm) (simp_all add: new_health_tracker_def)
  have 1: "\<exists>v. try_chain demo_fallback_env ?fast False demo_failover (Suc 0) [(''google'', ''gemini-2.5-flash-lite'')] le
      \<lparr>fw_health = h1, fw_calls = cs\<rparr> = (Inr (None, ''google'', ''gemini-2.5-flash-lite''), v)" for le cs
    using adm [OF h1, of "Suc 0"] run(2) free by (simp add: el Let_def)
  have 0: "try_chain demo_fallback_env ?fast False demo_failover 0
      [(''openai'', ''gpt-4.1-nano''), (''google'', ''gemini-2.5-flash-lite'')] None demo_fallback_world
    = try_chain demo_fallback_env ?fast False demo_failover (Suc 0) [(''google'', ''gemini-2.5-flash-lite'')] (Some ''down'')
        \<lparr>fw_health = h1, fw_calls = [(''openai'', ''gpt-4.1-nano'')]\<rparr>"
    by (subst try_chain.simps(2)) (use run(1) free in \<open>simp add: el adm0 demo_fallback_world_def env peers h1_def Let_def
      del: try_chain.simps\<close>)
  obtain v where v: "try_chain demo_fallback_env ?fast False demo_failover 0
      [(''openai'', ''gpt-4.1-nano''), (''google'', ''gemini-2.5-flash-lite'')] None demo_fallback_world
    = (Inr (None, ''google'', ''gemini-2.5-flash-lite''), v)"
    unfolding 0 using 1 by blast
  have "chat_with_model_fallback demo_fallback_env demo_failover ''openai'' ''gpt-4.1-nano'' demo_call_request
      demo_fallback_world
    = (Inr \<lparr>fr_data = None, fr_original_model = ''gpt-4.1-nano'', fr_actual_model = ''gemini-2.5-flash-lite'',
        fr_actual_provider = ''google'', fr_was_fallback = True\<rparr>, v)"
    using v by (simp add: chat_with_model_fallback_def demo_failover_chain request_has_images_def demo_call_request_def
        chain_outcome_def numeral_2_eq_2 Let_def del: try_chain.simps)
  then show ?thesis by (rule that)
qed

theorem fallback_chain_calls_witness:
  "\<exists>res w' n. chat_with_model_fallback demo_fallback_env demo_failover ''openai'' ''gpt-4.1-nano'' demo_call_request
      demo_fallback_world = (Inr res, w')
    \<and> n < 2 \<and> fr_was_fallback res \<and> (fr_actual_provider res, fr_actual_model res)
        = [(''openai'', ''gpt-4.1-nano''), (''google'', ''gemini-2.5-flash-lite'')] ! n
    \<and> fate_at demo_fallback_env (\<lambda>idx m. idx + 1 < 2 \<and> candidate_is_free (fe_registry demo_fallback_env) m)
        (request_has_images demo_call_request) demo_failover
        [(''openai'', ''gpt-4.1-nano''), (''google'', ''gemini-2.5-flash-lite'')] (fw_health demo_fallback_world) n
      = Fate_Served (fr_data res)"
proof -
  obtain res w' where run: "chat_with_model_fallback demo_fallback_env demo_failover ''openai'' ''gpt-4.1-nano''
      demo_call_request demo_fallback_world = (Inr res, w')" "fr_was_fallback res"
    by (rule demo_failover_run) (use that in auto)
  show ?thesis
    using fallback_chain_calls [OF run(1)] run unfolding Let_def demo_failover_chain
    by (auto simp: numeral_2_eq_2)
qed

theorem provider_call_outcome_witness:
  "\<exists>w' cs. execute_provider_call 5 demo_fallback_env demo_provider_io (demo_model 4\<lparr>mr_provider := ''p''\<rparr>) demo_call_request
      demo_fallback_world = (Provider_Ok None (Some ''p'') None, w')
    \<and> fw_calls w' = cs \<and> cs \<noteq> [] \<and> fst (last cs) = ''p''"
proof -
  obtain w' where run: "chat_with_model_fallback demo_fallback_env (\<lambda>_. demo_attempt) ''p'' ''m'' demo_call_request demo_fallback_world
    = (Inr \<lparr>fr_data = None, fr_original_model = ''m'', fr_actual_model = ''m'', fr_actual_provider = ''p'',
        fr_was_fallback = False\<rparr>, w')" "fw_calls w' = [(''p'', ''m'')]" by (rule demo_fallback)
  have call: "execute_provider_call 5 demo_fallback_env demo_provider_io (demo_model 4\<lparr>mr_provider := ''p''\<rparr>) demo_call_request
      demo_fallback_world = (Provider_Ok None (Some ''p'') None, w')"
    using run(1) by (simp add: execute_provider_call_def upstream_call_def execute_non_streaming_call_def build_fallback_chain_def
        demo_provider_io_def demo_call_request_simps)
  show ?thesis
    using provider_call_outcome [OF call] call run(2)
    by (auto simp: demo_fallback_world_def demo_call_request_def demo_provider_io_def split: if_splits)
qed

end
