(* ===== verification/Spec2Isabelle.thy ===== *)
theory Spec2Isabelle
  imports Refund_Exactly_Once Channel_Handlers Chat_Guarantees Provider_Fallback
begin

text \<open>
  Verification of the Solvela settlement core.

  \<^bold>\<open>The program.\<close> Solvela is a payment gateway for language-model and data requests. A client pays
  per request in USDC on Solana, in one of three ways. With the \<^emph>\<open>exact\<close> scheme it attaches a signed
  token transfer that the gateway verifies, simulates and broadcasts. With the \<^emph>\<open>escrow\<close> scheme it
  attaches a signed deposit into an on-chain program; the gateway serves the request and later claims
  the billed part, the rest goes back to the client. With the \<^emph>\<open>channel\<close> scheme it funds a channel
  once and then pays by signed cumulative vouchers that the gateway checks against its own ledger; on
  closing, a worker sends the unspent remainder back. Around these stand prices and quotes, replay
  protection, budgets, rate limits, spend rows and receipts.

  \<^bold>\<open>Shared vocabulary.\<close>
  \<^item> Prelude: machine integers as words, checked and saturating operations, byte encoding, results as
    sums (\<open>Inl\<close> the error), the interfaces \<open>fixed_codec\<close> and \<open>inv_system\<close> (a transition system with
    an invariant), the latter interpreted by every state machine below.
  \<^item> F64: the \<open>f64\<close> of the sources as a sign, the special values and a rational magnitude with
    round-to-nearest-even, since prices, limits and costs are floats.
  \<^item> Json, Sql_Table: the values of \<open>serde_json\<close> and the guarded updates of SQL, with the
    compare-and-set law as the locale \<open>cas_store\<close>.
  \<^item> Payment_Types: the payment envelope and errors of \<open>crates/protocol/src/payment.rs\<close> and
    \<open>crates/x402/src/types.rs\<close>.

  \<^bold>\<open>The chain side.\<close>
  \<^item> Solana_Keys (\<open>escrow-tx/src/pda.rs\<close>, \<open>x402/src/solana_types.rs\<close>): program addresses, the bump
    search, both derivations of an associated token account and their agreement.
  \<^item> Wire_Format (\<open>solana_types.rs\<close>, \<open>spl_transfer.rs\<close>): the parser of untrusted transactions; it
    inverts the wire format and finds the first token transfer.
  \<^item> Usdc_Transfer, Fee_Payer (\<open>usdc_transfer.rs\<close>, \<open>fee_payer.rs\<close>): building, signing and confirming a
    refund transfer. The confirm gate accepts only bytes that pay exactly one obligation, and accepts
    what the builder signed for it.
  \<^item> Settlement_Error, Solana_Rpc (\<open>solana_rpc.rs\<close>): the JSON-RPC client, the classification of its
    failures and the bounded wait for confirmation, which always ends with a verdict.
  \<^item> Escrow_Program (\<open>programs/escrow\<close>) and Escrow_Solvency: the on-chain program over an explicit
    account store. It refines an abstract two-party agreement; every live escrow is backed by its
    vault in every reachable chain; the provider can claim before expiry, the agent can take the money
    back from expiry on.
  \<^item> Escrow_Tx, Escrow_Claimer (\<open>escrow-tx/src/deposit.rs\<close>, \<open>x402/src/escrow/{refund,claimer}.rs\<close>,
    \<open>nonce_pool.rs\<close>): the transactions that drive the program, and the durable nonces.
  \<^item> Payment_Verifier, Escrow_Verifier (\<open>x402/src/solana.rs\<close>, \<open>escrow/verifier.rs\<close>, \<open>facilitator.rs\<close>):
    the two verifiers behind one contract (locale \<open>verifier_contract\<close>, interpreted for both and for
    the facilitator that dispatches to them). The direct verifier accepts exactly the payloads
    that pass its checks; a verified deposit that lands is an escrow the gateway can claim.
  \<^item> Claim_Queue (\<open>escrow/claim_queue.rs\<close>, \<open>claim_processor.rs\<close>, \<open>routes/escrow_settle.rs\<close>,
    \<open>routes/chat/payment.rs\<close>): the durable queue of claims, the worker with its circuit breaker, and the claim a
    served request fires, which never exceeds the bill or the deposit.

  \<^bold>\<open>Channels.\<close>
  \<^item> Channel_Voucher (\<open>x402/src/channel.rs\<close>): the signed messages and the accept rules of a voucher.
  \<^item> Channel_Ledger (\<open>gateway/src/channels.rs\<close>, \<open>migrations/015\<close>): the ledger with its constraints and
    faults; a draw is recorded whole or not at all, and every reachable ledger is sound.
  \<^item> Channel_Refunds, Refund_Worker, Refund_Exactly_Once (\<open>gateway/src/channel_refunds.rs\<close>,
    \<open>migrations/017\<close>): closing freezes the remainder, spend plus refund is the deposit in every
    reachable state, and under any interleaving of workers at most one refund lands per channel as
    long as a signature is replaced only when it is really dead.
  \<^item> Channel_Draw (\<open>routes/chat/channel_draw.rs\<close>, \<open>routes/search.rs\<close>): the draw under its lock, as the
    locale \<open>channel_draw_contract\<close> interpreted for chat and search. A voucher is charged at most once,
    for at most the quote, and with a receipt unless the acknowledgement of its commit is lost.
  \<^item> Channel_Handlers (\<open>routes/channel.rs\<close>): opening and closing over HTTP. An opened channel is backed
    by a confirmed transfer; only the session key closes.

  \<^bold>\<open>Requests.\<close>
  \<^item> Chat_Request (\<open>routes/chat/mod.rs\<close>, \<open>response.rs\<close>, \<open>protocol/src/vision.rs\<close>): the checks on messages,
    images and tags, the completion ceiling and the 402 challenge.
  \<^item> Chat_Payment (\<open>routes/chat/mod.rs\<close>): \<open>chat_completions_inner\<close> from the decoded payment header, the
    resolved model and the verdict of the prompt guard to the answer: free tier, replay guard,
    budget, verification, provider call, deferred settlement, claim, spend row and receipt. The
    provider call is a function of the world, so that it includes what other requests do meanwhile.
  \<^item> Chat_Guarantees: a served request is paid for, the challenge can be paid, an undelivered request
    takes nothing and releases its budget, and the books of a delivered one agree with what was
    collected (\<open>collected\<close> reads together with the admission, which settles an escrow deposit).
  \<^item> Provider_Health (\<open>providers/health.rs\<close>): the circuit breakers as a state machine with one probe at
    a time.
  \<^item> Provider_Fallback (\<open>providers/fallback.rs\<close>, \<open>routes/chat/provider.rs\<close>): response caches, chains of
    candidate models and the outcome handed to billing; also a probe that is never answered.

  \<^bold>\<open>Money and admission.\<close>
  \<^item> Model_Registry, Cost, Pricing (\<open>router/src/models.rs\<close>, \<open>routes/chat/cost.rs\<close>, \<open>protocol/src/cost.rs\<close>,
    \<open>services.rs\<close>): prices, the quote of the 402 challenge and the bill. The quote covers the bill as
    long as the prompt stays within the input estimate.
  \<^item> Redis_Cache (\<open>gateway/src/cache/mod.rs\<close>): the store behind replay protection and locks, with time.
  \<^item> Usage (\<open>gateway/src/usage.rs\<close>): budgets over wallet, team and tenant windows. A check books every
    limited window, or takes back what it had booked; a release takes back the estimate. The store
    rounds decimals, so what was added and taken back is equal up to two roundings.
  \<^item> Receipts (\<open>gateway/src/receipts.rs\<close>, \<open>migrations/013\<close>): what is recorded reads back.
  \<^item> Rate_Limit (\<open>middleware/rate_limit.rs\<close>, \<open>payment_util.rs\<close>): the fixed windows and the global cap.

  \<^bold>\<open>State, effects and time.\<close> Tables are lists of rows, the key-value store maps keys to values with an
  expiry, clocks and random identifiers are inputs. A handler takes the state and a record of what the
  outside does (which commands fail, what the node answers) and returns the answer with the new
  state; where a peer can act between two database operations the model has an explicit step of any
  peer there. Calls to the store,
  the database and the providers are functions: they may fail in every documented way, but one that
  never returns is not represented; the waits for a settlement are, and are shown to end. The handler
  that opens a channel runs on the state it found, without a peer acting during its settlement.
  Background tasks that the code spawns are run at the point of the spawn, and may fail.

  \<^bold>\<open>Loops.\<close> Recursion is structural or has a measure. The bump search tries 255 down to 0; the wait for
  confirmation is bounded by its number of polls; the workers process a finite batch per tick, and the
  reachable states are those of any number of ticks.

  \<^bold>\<open>Parameters.\<close> Code outside the repository is a parameter with named laws: SHA-256, ed25519 signatures and curve membership,
  base58 and base64, the SPL token program (\<open>spl_laws\<close>), the RPC node, the decimal arithmetic of
  Redis (no law is assumed of it), date formatting (\<open>periods_ok\<close>), JSON texts of cached configurations, the model providers and the
  search upstream. Each law is shown to hold for a concrete instance in a witness.

  \<^bold>\<open>Not modelled.\<close> The translation to and from the upstream model providers and the Messages format,
  the scorer that routes a request to a model, the storage of the response and semantic caches, the
  decoding of the payment header and the prompt guard, the A2A and MCP surfaces, the marketplace
  proxy, price and faucet routes, organisations, statistics and admin routes, start-up and
  configuration loading, the command-line client, the client libraries and the dashboard: they
  carry no settlement state of their own, call what is modelled here, or are input and output.
  The cancellation of a request by its client or by the global timeout is left out. Metrics, logs,
  response headers and the values interpolated into error texts are left out everywhere.
\<close>

end
